(* ===== verification/FantaPrelude.thy ===== *)
theory FantaPrelude
  imports Main "HOL-Library.Word" "HOL-Library.Finite_Map" "HOL-Library.FSet"
begin

text \<open>
  Prelude of the development: names for Rust's machine types, the vector and map operations of
  Rust's standard library that the document engine uses, and the rewriting lemmas about them that
  every component shares.

  \<^item> Unsigned integers are words, so that \<open>wrapping_add\<close> is the word's own addition. \<open>usize\<close> values
    that are only list positions or lengths are \<open>nat\<close>.
  \<^item> \<open>f64\<close> and \<open>f32\<close> values are their bit patterns; \<open>IndexKeys\<close> gives the arithmetic the model
    needs on them. Storing and copying a float is exact on bit patterns.
  \<^item> \<open>HashMap\<close> and \<open>BTreeMap\<close> are finite maps. \<open>fm_values\<close> and \<open>fm_keys\<close> iterate in ascending key
    order, which is \<open>BTreeMap\<close>'s order. \<open>HashMap\<close>'s order is unspecified, so nothing is proved from it.
\<close>

section \<open>Machine types\<close>

type_synonym u8 = "8 word"
type_synonym u16 = "16 word"
type_synonym u32 = "32 word"
type_synonym u64 = "64 word"
type_synonym i64 = "64 word"
type_synonym f64 = "64 word"
type_synonym f32 = "32 word"

section \<open>Rewriting collections\<close>

named_theorems frame_simps \<open>fields an operation leaves alone\<close>
named_theorems inv_intros \<open>operations that keep an invariant\<close>

section \<open>Vectors\<close>

definition vec_remove :: "nat \<Rightarrow> 'a list \<Rightarrow> 'a list" where
  \<comment> \<open>\<open>Vec::remove(i)\<close> for \<open>i < len\<close>; every caller checks the bound first\<close>
  "vec_remove i xs = take i xs @ drop (Suc i) xs"

definition vec_insert :: "nat \<Rightarrow> 'a \<Rightarrow> 'a list \<Rightarrow> 'a list" where
  \<comment> \<open>\<open>Vec::insert(i, x)\<close> for \<open>i \<le> len\<close>; every caller clamps the position first\<close>
  "vec_insert i x xs = take i xs @ x # drop i xs"

fun list_position :: "('a \<Rightarrow> bool) \<Rightarrow> 'a list \<Rightarrow> nat option" where
  \<comment> \<open>\<open>iter().position(p)\<close>\<close>
  "list_position p [] = None"
| "list_position p (x # xs) = (if p x then Some 0 else map_option Suc (list_position p xs))"

definition last_opt :: "'a list \<Rightarrow> 'a option" where
  \<comment> \<open>\<open>slice::last\<close>\<close>
  "last_opt xs = (if xs = [] then None else Some (last xs))"

definition head_opt :: "'a list \<Rightarrow> 'a option" where
  \<comment> \<open>\<open>slice::first\<close>\<close>
  "head_opt xs = (case xs of [] \<Rightarrow> None | x # _ \<Rightarrow> Some x)"

definition nth_opt :: "'a list \<Rightarrow> nat \<Rightarrow> 'a option" where
  \<comment> \<open>\<open>slice::get\<close>\<close>
  "nth_opt xs i = (if i < length xs then Some (xs ! i) else None)"

lemma list_position_bound: "list_position p xs = Some i \<Longrightarrow> i < length xs"
  by (induction xs arbitrary: i) (auto split: if_splits)

lemma list_position_holds: "list_position p xs = Some i \<Longrightarrow> p (xs ! i)"
  by (induction xs arbitrary: i) (auto split: if_splits)

lemma list_position_None [simp]: "list_position p xs = None \<longleftrightarrow> (\<forall>x \<in> set xs. \<not> p x)"
  by (induction xs) auto

lemma vec_remove_position:
  "distinct xs \<Longrightarrow> list_position (\<lambda>y. y = x) xs = Some i \<Longrightarrow>
     vec_remove i xs = filter (\<lambda>y. y \<noteq> x) xs"
proof (induction xs arbitrary: i)
  case Nil
  then show ?case by simp
next
  case (Cons y ys)
  show ?case
  proof (cases "y = x")
    case True
    with Cons.prems have "x \<notin> set ys" by simp
    then have "filter (\<lambda>y. y \<noteq> x) ys = ys" by (induction ys) auto
    with True Cons.prems show ?thesis by (simp add: vec_remove_def)
  next
    case False
    with Cons.prems obtain j where "i = Suc j" "list_position (\<lambda>y. y = x) ys = Some j"
      by (auto split: if_splits)
    with False Cons show ?thesis by (simp add: vec_remove_def)
  qed
qed

lemma vec_remove_insert [simp]: "i \<le> length xs \<Longrightarrow> vec_remove i (vec_insert i x xs) = xs"
  by (simp add: vec_remove_def vec_insert_def)

lemma vec_insert_remove: "i < length xs \<Longrightarrow> vec_insert i (xs ! i) (vec_remove i xs) = xs"
  by (simp add: vec_remove_def vec_insert_def Cons_nth_drop_Suc)

lemma length_vec_remove: "i < length xs \<Longrightarrow> length (vec_remove i xs) = length xs - 1"
  by (simp add: vec_remove_def)

lemma length_vec_insert [simp]: "length (vec_insert i x xs) = Suc (length xs)"
  by (simp add: vec_insert_def)

lemma set_vec_insert [simp]: "set (vec_insert i x xs) = insert x (set xs)"
proof -
  have "set xs = set (take i xs) \<union> set (drop i xs)"
    by (metis append_take_drop_id set_append)
  then show ?thesis by (auto simp: vec_insert_def)
qed

lemma set_vec_remove_subset: "set (vec_remove i xs) \<subseteq> set xs"
  unfolding vec_remove_def by (auto dest: in_set_takeD in_set_dropD)

lemma distinct_vec_remove: "distinct xs \<Longrightarrow> distinct (vec_remove i xs)"
  unfolding vec_remove_def
  by (auto dest: in_set_dropD simp: set_take_disj_set_drop_if_distinct)

lemma distinct_vec_insert: "distinct xs \<Longrightarrow> x \<notin> set xs \<Longrightarrow> distinct (vec_insert i x xs)"
  unfolding vec_insert_def
  by (auto dest: in_set_takeD in_set_dropD simp: set_take_disj_set_drop_if_distinct)

lemma remdups_adj_sorted: "sorted xs \<Longrightarrow> distinct (remdups_adj xs)"
  by (induction xs rule: remdups_adj.induct) auto

lemma head_opt_simps [simp]: "head_opt [] = None" "head_opt (x # xs) = Some x"
  by (simp_all add: head_opt_def)

section \<open>Finite maps\<close>

definition fm_keys :: "('k::linorder, 'v) fmap \<Rightarrow> 'k list" where
  "fm_keys m = sorted_list_of_fset (fmdom m)"

definition fm_values :: "('k::linorder, 'v) fmap \<Rightarrow> 'v list" where
  "fm_values m = map (\<lambda>k. the (fmlookup m k)) (fm_keys m)"

definition fm_modify :: "'k \<Rightarrow> ('v \<Rightarrow> 'v) \<Rightarrow> ('k, 'v) fmap \<Rightarrow> ('k, 'v) fmap" where
  \<comment> \<open>\<open>if let Some(v) = map.get_mut(k) { ... }\<close>\<close>
  "fm_modify k f m = (case fmlookup m k of None \<Rightarrow> m | Some v \<Rightarrow> fmupd k (f v) m)"

definition fm_put :: "'k \<Rightarrow> 'v option \<Rightarrow> ('k, 'v) fmap \<Rightarrow> ('k, 'v) fmap" where
  \<comment> \<open>insert on \<open>Some\<close>, remove on \<open>None\<close>\<close>
  "fm_put k ov m = (case ov of None \<Rightarrow> fmdrop k m | Some v \<Rightarrow> fmupd k v m)"

lemma fm_keys_set [simp]: "set (fm_keys m) = fmdom' m"
  by (simp add: fm_keys_def fmdom'_alt_def)

lemma fm_keys_sorted: "sorted (fm_keys m)"
  by (simp add: fm_keys_def sorted_list_of_fset.rep_eq)

lemma fm_keys_distinct [simp]: "distinct (fm_keys m)"
  by (simp add: fm_keys_def sorted_list_of_fset.rep_eq)

lemma fm_values_set: "v \<in> set (fm_values m) \<longleftrightarrow> (\<exists>k. fmlookup m k = Some v)"
  by (force simp: fm_values_def fmlookup_dom'_iff)

lemma fmlookup_fm_modify:
  "fmlookup (fm_modify k f m) j = (if j = k then map_option f (fmlookup m k) else fmlookup m j)"
  by (auto simp: fm_modify_def split: option.splits)

lemma fmdom_fm_modify [simp]: "fmdom (fm_modify k f m) = fmdom m"
  by (auto simp: fm_modify_def fmdom'_alt_def intro: fmdomI split: option.splits)

lemma fmlookup_fm_put: "fmlookup (fm_put k ov m) j = (if j = k then ov else fmlookup m j)"
  by (auto simp: fm_put_def split: option.splits)

lemma fm_put_put [simp]: "fm_put k a (fm_put k b m) = fm_put k a m"
  by (rule fmap_ext) (simp add: fmlookup_fm_put)

lemma fm_put_same: "fmlookup m k = ov \<Longrightarrow> fm_put k ov m = m"
  by (rule fmap_ext) (simp add: fmlookup_fm_put)

lemma fm_modify_modify [simp]: "fm_modify k f (fm_modify k g m) = fm_modify k (f \<circ> g) m"
  by (rule fmap_ext) (simp add: fmlookup_fm_modify option.map_comp comp_def)

lemma fm_modify_id:
  "(\<And>v. fmlookup m k = Some v \<Longrightarrow> f v = v) \<Longrightarrow> fm_modify k f m = m"
  by (rule fmap_ext) (auto simp: fmlookup_fm_modify map_option_case split: option.splits)

lemma fmupd_same: "fmlookup m k = Some v \<Longrightarrow> fmupd k v m = m"
  by (rule fmap_ext) auto

lemma fmdrop_absent: "fmlookup m k = None \<Longrightarrow> fmdrop k m = m"
  by (rule fmap_ext) auto

lemma fmdrop_fmupd_absent: "fmlookup m k = None \<Longrightarrow> fmdrop k (fmupd k v m) = m"
  by (rule fmap_ext) auto

lemma fmupd_fmdrop_same: "fmlookup m k = Some v \<Longrightarrow> fmupd k v (fmdrop k m) = m"
  by (rule fmap_ext) auto

lemma fmupd_fmupd [simp]: "fmupd k v (fmupd k w m) = fmupd k v m"
  by (rule fmap_ext) auto

lemma fcard_fmdrop: "k |\<in>| fmdom m \<Longrightarrow> fcard (fmdom (fmdrop k m)) = fcard (fmdom m) - 1"
  by (simp add: fcard.rep_eq card_Diff_singleton)

declare fmfilter_cong [cong del]

end
