(* ===== verification/Ids.thy ===== *)
theory Ids
  imports FantaPrelude "HOL-Library.Sublist"
begin

text \<open>
  Identifiers of the document model, \<open>crates/fanta-doc/src/id.rs\<close>. Every id type is a newtype over
  a 128-bit ULID; the macro \<open>id_type!\<close> declares fifteen of them. Here a phantom tag keeps them
  apart, so one type constructor carries the order and the string form of all of them. The ULID
  text codec belongs to the \<open>ulid\<close> crate and is a parameter of the definitions that use it.
\<close>

section \<open>The id newtypes\<close>

datatype 'k id = Id (to_u128: "128 word")

datatype node_tag = NodeTag
datatype style_tag = StyleTag
datatype asset_tag = AssetTag
datatype workflow_node_tag = WorkflowNodeTag
datatype link_tag = LinkTag
datatype doc_tag = DocTag
datatype component_tag = ComponentTag
datatype component_prop_tag = ComponentPropTag
datatype variable_collection_tag = VariableCollectionTag
datatype variable_tag = VariableTag
datatype mode_tag = ModeTag
datatype reaction_tag = ReactionTag
datatype animation_clip_tag = AnimationClipTag
datatype animation_track_tag = AnimationTrackTag
datatype keyframe_tag = KeyframeTag

type_synonym node_id = "node_tag id"
type_synonym style_id = "style_tag id"
type_synonym asset_id = "asset_tag id"
type_synonym workflow_node_id = "workflow_node_tag id"
type_synonym link_id = "link_tag id"
type_synonym doc_id = "doc_tag id"
type_synonym component_id = "component_tag id"
type_synonym component_prop_id = "component_prop_tag id"
type_synonym variable_collection_id = "variable_collection_tag id"
type_synonym variable_id = "variable_tag id"
type_synonym mode_id = "mode_tag id"
type_synonym reaction_id = "reaction_tag id"
type_synonym animation_clip_id = "animation_clip_tag id"
type_synonym animation_track_id = "animation_track_tag id"
type_synonym keyframe_id = "keyframe_tag id"

definition from_u128 :: "128 word \<Rightarrow> 'k id" where
  "from_u128 w = Id w"

instantiation id :: (type) linorder
begin

definition less_eq_id :: "'a id \<Rightarrow> 'a id \<Rightarrow> bool" where
  "less_eq_id a b \<longleftrightarrow> to_u128 a \<le> to_u128 b"

definition less_id :: "'a id \<Rightarrow> 'a id \<Rightarrow> bool" where
  "less_id a b \<longleftrightarrow> to_u128 a < to_u128 b"

instance
  by standard (auto simp: less_eq_id_def less_id_def id.expand)

end

lemmas id_order_simps = less_eq_id_def less_id_def

lemma to_u128_from_u128 [simp]: "to_u128 (from_u128 w) = w"
  by (simp add: from_u128_def)

section \<open>Display and FromStr\<close>

datatype id_parse_error = IdParseError_MissingPrefix | IdParseError_InvalidUlid

definition strip_prefix :: "string \<Rightarrow> string \<Rightarrow> string option" where
  \<comment> \<open>\<open>str::strip_prefix\<close>\<close>
  "strip_prefix p s = (if prefix p s then Some (drop (length p) s) else None)"

definition id_display :: "(128 word \<Rightarrow> string) \<Rightarrow> string \<Rightarrow> 'k id \<Rightarrow> string" where
  "id_display ulid_to_string pre i = pre @ ''_'' @ ulid_to_string (to_u128 i)"

definition id_from_str ::
  "(string \<Rightarrow> 128 word option) \<Rightarrow> string \<Rightarrow> string \<Rightarrow> id_parse_error + 'k id" where
  "id_from_str ulid_from_string pre s =
     (case strip_prefix (pre @ ''_'') s of
        None \<Rightarrow> Inl IdParseError_MissingPrefix
      | Some body \<Rightarrow>
          (case ulid_from_string body of
             None \<Rightarrow> Inl IdParseError_InvalidUlid
           | Some w \<Rightarrow> Inr (Id w)))"

text \<open>The prefixes the macro is invoked with, in source order.\<close>

definition id_prefixes :: "string list" where
  "id_prefixes = [''n'', ''s'', ''a'', ''wn'', ''l'', ''d'', ''c'', ''cp'', ''vc'', ''v'', ''vm'',
                  ''rx'', ''ac'', ''at'', ''kf'']"

lemma strip_prefix_append [simp]: "strip_prefix p (p @ s) = Some s"
  by (simp add: strip_prefix_def)

lemma no_underscore_prefix:
  assumes "CHR ''_'' \<notin> set p" and "CHR ''_'' \<notin> set q"
    and "prefix (p @ ''_'') (q @ ''_'' @ s)"
  shows "p = q"
  using assms
proof (induction p arbitrary: q)
  case Nil
  then show ?case by (cases q) auto
next
  case (Cons x p)
  then show ?case by (cases q) auto
qed

lemma id_prefixes_no_underscore: "p \<in> set id_prefixes \<Longrightarrow> CHR ''_'' \<notin> set p"
  by (auto simp: id_prefixes_def)

section \<open>The id hasher\<close>

text \<open>\<open>IdHasher\<close>: \<open>h = (rotl(h, 5) ^ word) * K\<close> on 64-bit words; \<open>write_u128\<close> feeds the high half first.\<close>

unbundle bit_operations_syntax

definition id_hasher_K :: u64 where
  "id_hasher_K = 0x517cc1b727220a95"

definition id_hasher_add :: "u64 \<Rightarrow> u64 \<Rightarrow> u64" where
  "id_hasher_add h w = ((word_rotl 5 h) XOR w) * id_hasher_K"

definition id_hasher_write_u128 :: "u64 \<Rightarrow> 128 word \<Rightarrow> u64" where
  "id_hasher_write_u128 h i = id_hasher_add (id_hasher_add h (ucast (drop_bit 64 i))) (ucast i)"

end
