(* ===== verification/IndexKeys.thy ===== *)
theory IndexKeys
  imports FantaPrelude
begin

text \<open>
  Fractional sibling order, \<open>crates/fanta-doc/src/index.rs\<close>. An \<open>IndexKey\<close> is an \<open>f64\<close>; its equality
  compares bits and its order is \<open>f64::total_cmp\<close>. The theory defines the IEEE 754 binary64
  operations those methods call on bit patterns, with exact round-to-nearest-even: every finite
  value is an integer number of units of \<open>2^-1074\<close>, so a sum is computed exactly on integers and
  rounded once.
\<close>

unbundle bit_operations_syntax

section \<open>binary64 on bit patterns\<close>

definition f64_neg :: "f64 \<Rightarrow> bool" where
  "f64_neg w = bit w 63"

definition f64_bits :: "f64 \<Rightarrow> nat" where
  \<comment> \<open>exponent and mantissa fields as one number, the sign removed\<close>
  "f64_bits w = unat w mod 2 ^ 63"

definition f64_pack :: "bool \<Rightarrow> nat \<Rightarrow> f64" where
  "f64_pack s b = (if s then word_of_nat (2 ^ 63 + b) else word_of_nat b)"

definition inf_bits :: nat where
  "inf_bits = 2047 * 2 ^ 52"

definition f64_is_finite :: "f64 \<Rightarrow> bool" where
  "f64_is_finite w \<longleftrightarrow> f64_bits w < inf_bits"

definition f64_is_nan :: "f64 \<Rightarrow> bool" where
  "f64_is_nan w \<longleftrightarrow> inf_bits < f64_bits w"

definition f64_nan :: f64 where
  \<comment> \<open>the canonical quiet NaN; Rust leaves the payload of a NaN result open\<close>
  "f64_nan = f64_pack False (inf_bits + 2 ^ 51)"

definition mag_of_bits :: "nat \<Rightarrow> nat" where
  \<comment> \<open>the magnitude a finite field pattern stands for, in units of \<open>2^-1074\<close>\<close>
  "mag_of_bits b = (if b < 2 ^ 52 then b else (2 ^ 52 + b mod 2 ^ 52) * 2 ^ (b div 2 ^ 52 - 1))"

definition f64_val :: "f64 \<Rightarrow> int" where
  "f64_val w = (if f64_neg w then - int (mag_of_bits (f64_bits w)) else int (mag_of_bits (f64_bits w)))"

fun bit_length :: "nat \<Rightarrow> nat" where
  "bit_length n = (if n = 0 then 0 else Suc (bit_length (n div 2)))"

declare bit_length.simps [simp del]

definition half_even :: "nat \<Rightarrow> nat \<Rightarrow> nat" where
  \<comment> \<open>\<open>n / 2^s\<close> rounded to nearest, ties to even\<close>
  "half_even s n =
     (let q = n div 2 ^ s; r = n mod 2 ^ s
      in if 2 ^ s < 2 * r \<or> (2 * r = 2 ^ s \<and> odd q) then q + 1 else q)"

definition round_bits :: "nat \<Rightarrow> nat \<Rightarrow> nat" where
  \<comment> \<open>field pattern of \<open>n * 2^-t\<close> units: the carry of a rounded-up mantissa moves into the
      exponent field, and everything past the largest finite value is infinity\<close>
  "round_bits t n =
     (let s = max t (bit_length n - 53) in min inf_bits ((s - t) * 2 ^ 52 + half_even s n))"

definition f64_of_int :: "int \<Rightarrow> f64" where
  "f64_of_int k = f64_pack (k < 0) (round_bits 0 (nat \<bar>k\<bar>))"

definition f64_add :: "f64 \<Rightarrow> f64 \<Rightarrow> f64" where
  "f64_add a b =
     (if f64_is_nan a \<or> f64_is_nan b then f64_nan
      else if \<not> f64_is_finite a then
        (if \<not> f64_is_finite b \<and> f64_neg a \<noteq> f64_neg b then f64_nan else a)
      else if \<not> f64_is_finite b then b
      else if f64_val a + f64_val b = 0 then f64_pack (f64_neg a \<and> f64_neg b) 0
      else f64_of_int (f64_val a + f64_val b))"

definition f64_half :: "f64 \<Rightarrow> f64" where
  \<comment> \<open>\<open>x * 0.5\<close>\<close>
  "f64_half a =
     (if f64_is_nan a then f64_nan else if \<not> f64_is_finite a then a
      else f64_pack (f64_neg a) (round_bits 1 (mag_of_bits (f64_bits a))))"

definition f64_one :: f64 where
  "f64_one = 0x3FF0000000000000"

definition f64_minus_one :: f64 where
  "f64_minus_one = 0xBFF0000000000000"

section \<open>IndexKey\<close>

datatype index_key = IndexKey (index_raw: f64)

definition total_key :: "f64 \<Rightarrow> int" where
  \<comment> \<open>\<open>f64::total_cmp\<close>: flip the magnitude bits of a negative pattern, compare as \<open>i64\<close>\<close>
  "total_key w = (if bit w 63 then sint (w XOR mask 63) else sint w)"

definition IndexKey_FIRST :: index_key where
  "IndexKey_FIRST = IndexKey f64_one"

definition index_between :: "index_key \<Rightarrow> index_key \<Rightarrow> index_key" where
  "index_between a b = IndexKey (f64_half (f64_add (index_raw a) (index_raw b)))"

definition index_before :: "index_key \<Rightarrow> index_key" where
  \<comment> \<open>\<open>a.0 - 1.0\<close>: IEEE subtraction is addition of the negated operand\<close>
  "index_before a = IndexKey (f64_add (index_raw a) f64_minus_one)"

definition index_after :: "index_key \<Rightarrow> index_key" where
  "index_after a = IndexKey (f64_add (index_raw a) f64_one)"

section \<open>Bit patterns and their numbers\<close>

lemma f64_bits_take_bit: "int (f64_bits w) = take_bit 63 (uint w)"
  by (simp add: f64_bits_def take_bit_eq_mod zmod_int)

lemma f64_bits_less: "f64_bits w < 2 ^ 63"
  by (simp add: f64_bits_def)

lemma uint_split: "uint (w :: f64) = 2 ^ 63 * of_bool (f64_neg w) + int (f64_bits w)"
proof -
  have "uint w = take_bit (Suc 63) (uint w)"
    using bintr_uint [of 64 w] by simp
  also have "\<dots> = 2 ^ 63 * of_bool (bit (uint w) 63) + take_bit 63 (uint w)"
    by (rule take_bit_Suc_from_most)
  finally show ?thesis
    by (simp add: f64_bits_take_bit f64_neg_def bit_uint_iff)
qed

lemma sint_split: "sint (w :: f64) = int (f64_bits w) - 2 ^ 63 * of_bool (f64_neg w)"
proof -
  have "sint w = take_bit (Suc 63) (uint w) - 2 ^ Suc 63 * of_bool (bit (uint w) 63)"
    by (simp add: sint_uint signed_take_bit_eq_take_bit_minus)
  also have "take_bit (Suc 63) (uint w) = uint w"
    using bintr_uint [of 64 w] by simp
  finally have "sint w = uint w - 2 ^ 64 * of_bool (f64_neg w)"
    by (simp add: f64_neg_def bit_uint_iff)
  then show ?thesis using uint_split [of w] by (cases "f64_neg w") auto
qed

lemma f64_eq_iff: "a = b \<longleftrightarrow> f64_neg a = f64_neg b \<and> f64_bits a = f64_bits b"
proof
  assume "f64_neg a = f64_neg b \<and> f64_bits a = f64_bits b"
  then have "uint a = uint b" by (simp only: uint_split)
  then show "a = b" by (simp only: word_uint_eq_iff)
qed simp

lemma unat_pack: "b < 2 ^ 63 \<Longrightarrow> unat (f64_pack s b) = (if s then 2 ^ 63 + b else b)"
  unfolding f64_pack_def by (cases s; simp only: if_True if_False; intro of_nat_inverse [OF refl]) auto

lemma f64_pack_fields [simp]:
  assumes "b < 2 ^ 63"
  shows "f64_neg (f64_pack s b) = s" and "f64_bits (f64_pack s b) = b"
proof -
  have u: "uint (f64_pack s b) = 2 ^ 63 * of_bool s + int b"
    using unat_pack [OF assms, of s] by (cases s) (simp_all add: uint_nat)
  have "int (f64_bits (f64_pack s b)) = int b"
    using assms u by (simp add: f64_bits_take_bit take_bit_eq_mod)
  then show bits: "f64_bits (f64_pack s b) = b" by simp
  show "f64_neg (f64_pack s b) = s"
    using uint_split [of "f64_pack s b"] u bits by (cases s; cases "f64_neg (f64_pack s b)") auto
qed

lemma total_key_split:
  "total_key w = (if f64_neg w then - int (f64_bits w) - 1 else int (f64_bits w))"
proof (cases "f64_neg w")
  case False
  then show ?thesis by (simp add: total_key_def f64_neg_def [symmetric] sint_split)
next
  case True
  let ?x = "w XOR mask 63"
  have neg: "f64_neg ?x"
    using True by (simp add: f64_neg_def bit_xor_iff bit_mask_iff)
  have "take_bit 63 (uint ?x) = take_bit 63 (NOT (uint w))"
    by (rule bit_eqI) (auto simp: bit_take_bit_iff bit_uint_iff bit_xor_iff bit_mask_iff bit_not_iff)
  then have "int (f64_bits ?x) = mask 63 - int (f64_bits w)"
    by (simp add: f64_bits_take_bit take_bit_not_eq_mask_diff)
  then show ?thesis
    using True neg by (simp add: total_key_def f64_neg_def [symmetric] sint_split mask_eq_exp_minus_1)
qed

lemma total_key_inj: "total_key a = total_key b \<longleftrightarrow> a = b"
  by (auto simp: total_key_split f64_eq_iff split: if_splits)

section \<open>The total order\<close>

instantiation index_key :: linorder
begin

definition less_eq_index_key :: "index_key \<Rightarrow> index_key \<Rightarrow> bool" where
  "less_eq_index_key a b \<longleftrightarrow> total_key (index_raw a) \<le> total_key (index_raw b)"

definition less_index_key :: "index_key \<Rightarrow> index_key \<Rightarrow> bool" where
  "less_index_key a b \<longleftrightarrow> total_key (index_raw a) < total_key (index_raw b)"

instance
  by standard (auto simp: less_eq_index_key_def less_index_key_def total_key_inj index_key.expand)

end

section \<open>Rounding\<close>

lemma bit_length_upper: "n < 2 ^ bit_length n"
proof (induction n rule: bit_length.induct)
  case (1 n)
  then show ?case by (cases "n = 0") (simp_all add: bit_length.simps [of n])
qed

lemma bit_length_lower: "0 < n \<Longrightarrow> 2 ^ bit_length n \<le> 2 * n"
proof (induction n rule: bit_length.induct)
  case (1 n)
  show ?case
  proof (cases "n div 2 = 0")
    case True
    with 1 have "n = 1" by simp
    then show ?thesis by (simp add: bit_length.simps [of "Suc 0"] bit_length.simps [of 0])
  next
    case False
    with 1 have "2 ^ bit_length (n div 2) \<le> 2 * (n div 2)" by simp
    also have "\<dots> \<le> n" by simp
    finally show ?thesis using 1 by (simp add: bit_length.simps [of n])
  qed
qed

lemma bit_length_le: "n < 2 ^ k \<Longrightarrow> bit_length n \<le> k"
proof (rule ccontr)
  assume n: "n < 2 ^ k" and "\<not> bit_length n \<le> k"
  then have k: "Suc k \<le> bit_length n" by simp
  then have "0 < n" by (cases "n = 0") (simp_all add: bit_length.simps [of 0])
  then have "2 ^ bit_length n \<le> 2 * n" by (rule bit_length_lower)
  moreover have "(2::nat) ^ Suc k \<le> 2 ^ bit_length n" using k by (intro power_increasing) auto
  ultimately show False using n by simp
qed

lemma bit_length_ge: "2 ^ k \<le> n \<Longrightarrow> Suc k \<le> bit_length n"
proof (rule ccontr)
  assume n: "2 ^ k \<le> n" and "\<not> Suc k \<le> bit_length n"
  then have "(2::nat) ^ bit_length n \<le> 2 ^ k" by (intro power_increasing) auto
  with n bit_length_upper [of n] show False by simp
qed

lemma bit_length_mono: "m \<le> n \<Longrightarrow> bit_length m \<le> bit_length n"
  using bit_length_upper [of n] by (intro bit_length_le) simp

lemma half_even_ge: "n div 2 ^ s \<le> half_even s n"
  by (simp add: half_even_def Let_def)

lemma half_even_le: "half_even s n \<le> n div 2 ^ s + 1"
  by (simp add: half_even_def Let_def)

lemma half_even_exact [simp]: "half_even s (q * 2 ^ s) = q"
  by (simp add: half_even_def Let_def)

lemma half_even_mono:
  assumes "m \<le> n"
  shows "half_even s m \<le> half_even s n"
proof (cases "m div 2 ^ s = n div 2 ^ s")
  case False
  with assms have "m div 2 ^ s < n div 2 ^ s" using div_le_mono [OF assms, of "2 ^ s"] by simp
  then show ?thesis using half_even_le [of s m] half_even_ge [of n s] by linarith
next
  case True
  have "m mod 2 ^ s \<le> n mod 2 ^ s"
    using assms True by (metis add_le_cancel_left div_mult_mod_eq)
  then show ?thesis using True by (auto simp: half_even_def Let_def)
qed

lemma half_even_upper:
  assumes "bit_length n \<le> s + 53"
  shows "half_even s n \<le> 2 ^ 53"
proof -
  have "n < 2 ^ (s + 53)"
    using bit_length_upper [of n] power_increasing [OF assms, of "2::nat"] by linarith
  then have "n div 2 ^ s < 2 ^ 53"
    by (simp add: power_add less_mult_imp_div_less mult.commute)
  then show ?thesis using half_even_le [of s n] by linarith
qed

lemma half_even_lower:
  assumes "s + 53 \<le> bit_length n"
  shows "2 ^ 52 \<le> half_even s n"
proof -
  have "0 < n" using assms by (cases "n = 0") (simp_all add: bit_length.simps [of 0])
  then have "2 ^ bit_length n \<le> 2 * n" by (rule bit_length_lower)
  moreover have "(2::nat) ^ (s + 53) \<le> 2 ^ bit_length n" using assms by (intro power_increasing) auto
  ultimately have "2 ^ 52 * 2 ^ s \<le> n" by (simp add: power_add)
  then have "2 ^ 52 \<le> n div 2 ^ s" by (simp add: less_eq_div_iff_mult_less_eq)
  then show ?thesis using half_even_ge [of n s] by linarith
qed

lemma round_bits_mono:
  assumes "m \<le> n"
  shows "round_bits 0 m \<le> round_bits 0 n"
proof -
  let ?s = "bit_length m - 53" and ?t = "bit_length n - 53"
  have st: "?s \<le> ?t" using bit_length_mono [OF assms] by simp
  have "?s * 2 ^ 52 + half_even ?s m \<le> ?t * 2 ^ 52 + half_even ?t n"
  proof (cases "?s = ?t")
    case True
    then show ?thesis using half_even_mono [OF assms, of ?t] by simp
  next
    case False
    with st have lt: "Suc ?s \<le> ?t" by simp
    have "half_even ?s m \<le> 2 ^ 53" by (rule half_even_upper) simp
    moreover have "2 ^ 52 \<le> half_even ?t n" by (rule half_even_lower) (use lt in simp)
    moreover have "Suc ?s * 2 ^ 52 \<le> ?t * 2 ^ 52" using lt by (rule mult_le_mono1)
    ultimately show ?thesis by simp
  qed
  then show ?thesis by (simp add: round_bits_def Let_def)
qed

lemma round_bits_exact:
  assumes "b < inf_bits"
  shows "round_bits 0 (mag_of_bits b) = b"
proof (cases "b < 2 ^ 52")
  case True
  then have "bit_length b \<le> 52" by (intro bit_length_le) simp
  then show ?thesis using True half_even_exact [of 0 b]
    by (simp add: round_bits_def mag_of_bits_def Let_def inf_bits_def)
next
  case False
  let ?e = "b div 2 ^ 52" and ?m = "b mod 2 ^ 52"
  have e: "1 \<le> ?e" using False by (simp add: less_eq_div_iff_mult_less_eq)
  have mag: "mag_of_bits b = (2 ^ 52 + ?m) * 2 ^ (?e - 1)" using False by (simp add: mag_of_bits_def)
  have "(2::nat) ^ 52 * 2 ^ (?e - 1) \<le> mag_of_bits b" unfolding mag by (rule mult_le_mono1) simp
  then have "Suc (52 + (?e - 1)) \<le> bit_length (mag_of_bits b)"
    by (intro bit_length_ge) (simp only: power_add)
  moreover have "mag_of_bits b < 2 ^ 53 * 2 ^ (?e - 1)" unfolding mag by (intro mult_less_mono1) simp_all
  then have "bit_length (mag_of_bits b) \<le> 53 + (?e - 1)"
    using bit_length_le [of _ "53 + (?e - 1)"] by (simp add: power_add)
  ultimately have s: "bit_length (mag_of_bits b) - 53 = ?e - 1" by simp
  have "(?e - 1) * 2 ^ 52 + (2 ^ 52 + ?m) = ?e * 2 ^ 52 + ?m" using e by (simp add: algebra_simps)
  also have "\<dots> = b" by simp
  finally have "(?e - 1) * 2 ^ 52 + half_even (?e - 1) (mag_of_bits b) = b"
    by (simp only: mag half_even_exact)
  then show ?thesis using assms s by (simp add: round_bits_def Let_def)
qed

definition ulp_of_bits :: "nat \<Rightarrow> nat" where
  \<comment> \<open>distance from a field pattern to the next one, in units of \<open>2^-1074\<close>\<close>
  "ulp_of_bits b = 2 ^ (b div 2 ^ 52 - 1)"

lemma mag_of_bits_Suc: "mag_of_bits (Suc b) = mag_of_bits b + ulp_of_bits b"
proof (cases "Suc (b mod 2 ^ 52) = 2 ^ 52")
  case True
  then have d: "Suc b div 2 ^ 52 = Suc (b div 2 ^ 52)" and m: "Suc b mod 2 ^ 52 = 0"
    by (simp_all add: div_Suc mod_Suc)
  show ?thesis
  proof (cases "b < 2 ^ 52")
    case b: True
    then have "b = 2 ^ 52 - 1" using True by simp
    then show ?thesis by (simp add: mag_of_bits_def ulp_of_bits_def)
  next
    case b: False
    then obtain e where e: "b div 2 ^ 52 = Suc e"
      by (metis div_less_iff_less_mult mult.left_neutral not0_implies_Suc not_less one_less_numeral_iff zero_less_numeral zero_less_power less_Suc0 One_nat_def le_less_linear Suc_leI)
    have bm: "b mod 2 ^ 52 = 2 ^ 52 - 1" using True by simp
    show ?thesis using b d m e bm by (simp add: mag_of_bits_def ulp_of_bits_def)
  qed
next
  case False
  then have d: "Suc b div 2 ^ 52 = b div 2 ^ 52" and m: "Suc b mod 2 ^ 52 = Suc (b mod 2 ^ 52)"
    by (simp_all add: div_Suc mod_Suc)
  have "Suc b < 2 ^ 52 \<longleftrightarrow> b < 2 ^ 52" using False by (auto simp: less_Suc_eq)
  then show ?thesis using d m by (simp add: mag_of_bits_def ulp_of_bits_def algebra_simps)
qed

section \<open>Stepping a key by one\<close>

lemma ulp_le:
  assumes "mag_of_bits b < 2 ^ 1127"
  shows "ulp_of_bits b \<le> 2 ^ 1074"
proof (cases "b < 2 ^ 52")
  case True
  then show ?thesis by (simp add: ulp_of_bits_def)
next
  case False
  have "2 ^ 52 * 2 ^ (b div 2 ^ 52 - 1) \<le> mag_of_bits b"
    using False by (simp add: mag_of_bits_def)
  with assms have "(2::nat) ^ (52 + (b div 2 ^ 52 - 1)) < 2 ^ 1127" by (simp add: power_add)
  then have "52 + (b div 2 ^ 52 - 1) < 1127" by (rule power_less_imp_less_exp [rotated]) simp
  then show ?thesis unfolding ulp_of_bits_def by (intro power_increasing) auto
qed

lemma mag_bound_bits:
  assumes "mag_of_bits b \<le> 2 ^ 1127"
  shows "Suc b < inf_bits"
proof (rule ccontr)
  assume "\<not> Suc b < inf_bits"
  then have b: "2046 * 2 ^ 52 \<le> b" by (simp add: inf_bits_def)
  then have "2046 \<le> b div 2 ^ 52" by (simp add: less_eq_div_iff_mult_less_eq)
  then have "(2::nat) ^ 2045 \<le> 2 ^ (b div 2 ^ 52 - 1)" by (intro power_increasing) auto
  also have "\<dots> \<le> mag_of_bits b" using b by (simp add: mag_of_bits_def)
  also note assms
  finally have "(2045::nat) \<le> 1127" by (rule power_le_imp_le_exp [rotated]) simp
  then show False by simp
qed

lemma round_up_step:
  assumes "mag_of_bits b < 2 ^ 1127"
  shows "b < round_bits 0 (mag_of_bits b + 2 ^ 1074)"
proof -
  have "mag_of_bits (Suc b) \<le> mag_of_bits b + 2 ^ 1074"
    using ulp_le [OF assms] by (simp add: mag_of_bits_Suc)
  then have "round_bits 0 (mag_of_bits (Suc b)) \<le> round_bits 0 (mag_of_bits b + 2 ^ 1074)"
    by (rule round_bits_mono)
  moreover have "round_bits 0 (mag_of_bits (Suc b)) = Suc b"
    using mag_bound_bits [of b] assms by (intro round_bits_exact) simp
  ultimately show ?thesis by simp
qed

lemma round_down_step:
  assumes "mag_of_bits b \<le> 2 ^ 1127" and "0 < b"
  shows "round_bits 0 (mag_of_bits b - 2 ^ 1074) < b"
proof -
  obtain c where c: "b = Suc c" using \<open>0 < b\<close> by (cases b) auto
  have "mag_of_bits c < mag_of_bits b" by (simp add: c mag_of_bits_Suc ulp_of_bits_def)
  then have "mag_of_bits c < 2 ^ 1127" using assms(1) by (rule less_le_trans)
  then have "mag_of_bits b - 2 ^ 1074 \<le> mag_of_bits c"
    using ulp_le [of c] by (simp only: c mag_of_bits_Suc) (metis diff_le_mono2 diff_add_inverse2)
  then have "round_bits 0 (mag_of_bits b - 2 ^ 1074) \<le> round_bits 0 (mag_of_bits c)"
    by (rule round_bits_mono)
  moreover have "round_bits 0 (mag_of_bits c) = c"
    using mag_bound_bits [of b] assms(1) c by (intro round_bits_exact) simp
  ultimately show ?thesis using c by simp
qed

lemma round_bits_less: "round_bits t n < 2 ^ 63"
  by (simp add: round_bits_def Let_def inf_bits_def)

lemma f64_one_facts: "f64_neg f64_one = False" "f64_bits f64_one = 1023 * 2 ^ 52"
  by (simp_all add: f64_one_def f64_neg_def f64_bits_def)

lemma f64_minus_one_facts: "f64_neg f64_minus_one = True" "f64_bits f64_minus_one = 1023 * 2 ^ 52"
  by (simp_all add: f64_minus_one_def f64_neg_def f64_bits_def)

lemma mag_one: "mag_of_bits (1023 * 2 ^ 52) = 2 ^ 1074"
  by (simp add: mag_of_bits_def)

lemma f64_val_one: "f64_val f64_one = 2 ^ 1074" "f64_val f64_minus_one = - (2 ^ 1074)"
  by (simp_all only: f64_val_def f64_one_facts f64_minus_one_facts mag_one if_True if_False
      of_nat_power of_nat_numeral)

lemma f64_one_finite [simp]:
  "f64_is_finite f64_one" "f64_is_finite f64_minus_one"
  "\<not> f64_is_nan f64_one" "\<not> f64_is_nan f64_minus_one"
  by (simp_all add: f64_is_finite_def f64_is_nan_def f64_one_facts f64_minus_one_facts inf_bits_def)

lemma f64_finite_not_nan: "f64_is_finite a \<Longrightarrow> \<not> f64_is_nan a"
  by (simp add: f64_is_finite_def f64_is_nan_def)

lemma mag_zero_iff: "mag_of_bits b = 0 \<longleftrightarrow> b = 0"
  by (auto simp: mag_of_bits_def)

lemma f64_add_one:
  assumes "f64_is_finite a"
  shows "f64_add a f64_one =
    (if f64_val a + 2 ^ 1074 = 0 then f64_pack False 0 else f64_of_int (f64_val a + 2 ^ 1074))"
  using assms f64_finite_not_nan [OF assms] f64_one_facts f64_val_one by (simp add: f64_add_def)

lemma f64_add_minus_one:
  assumes "f64_is_finite a"
  shows "f64_add a f64_minus_one =
    (if f64_val a - 2 ^ 1074 = 0 then f64_pack (f64_neg a) 0 else f64_of_int (f64_val a - 2 ^ 1074))"
  using assms f64_finite_not_nan [OF assms] f64_minus_one_facts f64_val_one by (simp add: f64_add_def)

lemma f64_of_int_fields:
  "f64_neg (f64_of_int k) = (k < 0)" "f64_bits (f64_of_int k) = round_bits 0 (nat \<bar>k\<bar>)"
  using round_bits_less [of 0 "nat \<bar>k\<bar>"] by (simp_all add: f64_of_int_def)

lemma less_total_key:
  "index_raw j = w \<Longrightarrow> k < j \<longleftrightarrow> total_key (index_raw k) < total_key w"
  by (simp add: less_index_key_def)

text \<open>
  \<open>IndexKey::after\<close> mints a strictly greater key for every finite key of magnitude below
  \<open>2^53\<close> (in units of \<open>2^-1074\<close>, below \<open>2^1127\<close>), in the \<open>total_cmp\<close> order that sorts siblings.
\<close>

theorem index_after_strictly_greater:
  assumes "f64_is_finite (index_raw k)"
    and "- (2 ^ 1127) \<le> f64_val (index_raw k)" and "f64_val (index_raw k) < 2 ^ 1127"
  shows "k < index_after k"
proof (cases "f64_neg (index_raw k)")
  case False
  let ?m = "mag_of_bits (f64_bits (index_raw k))"
  have val: "f64_val (index_raw k) = int ?m" using False by (simp add: f64_val_def)
  have "int ?m < int (2 ^ 1127)" using assms(3) val by simp
  then have "?m < 2 ^ 1127" by (simp only: of_nat_less_iff)
  then have step: "f64_bits (index_raw k) < round_bits 0 (?m + 2 ^ 1074)" by (rule round_up_step)
  have n: "nat \<bar>int ?m + 2 ^ 1074\<bar> = ?m + 2 ^ 1074" by (simp add: nat_add_distrib)
  have "int ?m + 2 ^ 1074 \<noteq> 0" "\<not> int ?m + 2 ^ 1074 < 0" by simp_all
  then have "total_key (index_raw k) < total_key (f64_add (index_raw k) f64_one)"
    using step n False by (simp only: f64_add_one [OF assms(1)] val total_key_split f64_of_int_fields
        if_False of_nat_less_iff)
  then show ?thesis by (simp add: index_after_def less_index_key_def)
next
  case True
  let ?m = "mag_of_bits (f64_bits (index_raw k))"
  have val: "f64_val (index_raw k) = - int ?m" using True by (simp add: f64_val_def)
  have bound: "?m \<le> 2 ^ 1127"
  proof -
    have "int ?m \<le> int (2 ^ 1127)" using assms(2) val by simp
    then show ?thesis by (simp only: of_nat_le_iff)
  qed
  show ?thesis
  proof (cases "2 ^ 1074 < ?m")
    case lt: True
    then have pos: "0 < f64_bits (index_raw k)" using mag_zero_iff [of "f64_bits (index_raw k)"] by (cases "f64_bits (index_raw k)") auto
    have n: "nat \<bar>- int ?m + 2 ^ 1074\<bar> = ?m - 2 ^ 1074" using lt by (simp add: nat_diff_distrib)
    have "- int ?m + 2 ^ 1074 < 0"
    proof -
      have "int (2 ^ 1074) < int ?m" using lt by (simp only: of_nat_less_iff)
      then show ?thesis by simp
    qed
    then show ?thesis
      using round_down_step [OF bound pos] n True
      by (simp add: index_after_def less_index_key_def total_key_split f64_add_one [OF assms(1)] val
          f64_of_int_fields)
  next
    case False
    then have "\<not> - int ?m + 2 ^ 1074 < 0"
    proof -
      have "int ?m \<le> int (2 ^ 1074)" using False by (simp only: of_nat_le_iff not_less)
      then show ?thesis by simp
    qed
    then show ?thesis
      using True by (simp add: index_after_def less_index_key_def total_key_split
          f64_add_one [OF assms(1)] val f64_of_int_fields)
  qed
qed

theorem index_after_strictly_greater_witness:
  "IndexKey_FIRST < index_after IndexKey_FIRST"
proof (rule index_after_strictly_greater)
  show "f64_is_finite (index_raw IndexKey_FIRST)" by (simp add: IndexKey_FIRST_def)
  show "- (2 ^ 1127) \<le> f64_val (index_raw IndexKey_FIRST)"
    by (simp only: IndexKey_FIRST_def index_key.sel f64_val_one) simp
  show "f64_val (index_raw IndexKey_FIRST) < 2 ^ 1127"
    by (simp only: IndexKey_FIRST_def index_key.sel f64_val_one) simp
qed

text \<open>
  The bound is sharp, against the comment on \<open>IndexKey::after\<close> ("strictly greater than \<open>a\<close>"):
  at \<open>2^53\<close> the next key rounds back to the key itself, so a new sibling no longer sorts above.
\<close>

theorem index_after_fixed_at_2_53:
  "index_after (IndexKey 0x4340000000000000) = IndexKey 0x4340000000000000"
proof -
  let ?a = "0x4340000000000000 :: f64"
  have bits: "f64_bits ?a = 1076 * 2 ^ 52" "f64_neg ?a = False"
    by (simp_all add: f64_bits_def f64_neg_def)
  have fin: "f64_is_finite ?a" by (simp add: f64_is_finite_def bits inf_bits_def)
  have mag: "mag_of_bits (1076 * 2 ^ 52) = 2 ^ 1127" by (simp add: mag_of_bits_def)
  have val: "f64_val ?a = 2 ^ 1127"
    by (simp only: f64_val_def bits mag if_False of_nat_power of_nat_numeral)
  have len: "bit_length (2 ^ 1127 + 2 ^ 1074) = 1128"
    by (rule antisym, rule bit_length_le, simp, rule order_trans [OF _ bit_length_ge [of 1127]], simp_all)
  have half: "half_even 1075 (2 ^ 1127 + 2 ^ 1074) = 2 ^ 52" by (simp add: half_even_def Let_def)
  have n: "nat \<bar>2 ^ 1127 + 2 ^ 1074 :: int\<bar> = 2 ^ 1127 + 2 ^ 1074" by simp
  have "round_bits 0 (2 ^ 1127 + 2 ^ 1074) = 1076 * 2 ^ 52"
    by (simp only: round_bits_def Let_def len) (simp add: half [simplified] inf_bits_def)
  then have "f64_add ?a f64_one = ?a"
    using fin by (simp only: f64_add_one f64_eq_iff val f64_of_int_fields n bits split: if_split) simp
  then show ?thesis by (simp add: index_after_def)
qed

end
