(* ===== verification/DesignTypes.thy ===== *)
theory DesignTypes
  imports Ids IndexKeys
begin

text \<open>
  Value types of the document model in \<open>crates/fanta-doc/src\<close>: colours, gradients and paints
  (\<open>color.rs\<close>, \<open>style.rs\<close>), paths (\<open>path/\<close>), text styles (\<open>node/variants.rs\<close>) and the typed values
  shared by variables, component properties and prototype actions (\<open>value.rs\<close>). Each struct is a
  record whose field names carry the struct's name, each enum a datatype whose constructors carry
  the enum's name. Boxes, \<open>Arc\<close>s and inline small vectors are transparent; \<open>usize\<close> is \<open>nat\<close>.
\<close>

section \<open>JSON values\<close>

text \<open>
  \<open>serde_json::Value\<close> as its documentation describes it, with the \<open>preserve_order\<close> feature the
  workspace enables: an object keeps its members in insertion order.
\<close>

datatype json_number = PosInt u64 | NegInt i64 | Float f64

datatype json =
    JNull
  | JBool bool
  | JNumber json_number
  | JString string
  | JArray "json list"
  | JObject "(string \<times> json) list"

section \<open>Geometry\<close>

record transform2d =
  \<comment> \<open>\<open>Transform2D::to_components\<close>: \<open>[a, b, c, d, tx, ty]\<close>\<close>
  tf_a :: f64
  tf_b :: f64
  tf_c :: f64
  tf_d :: f64
  tf_tx :: f64
  tf_ty :: f64

definition Transform2D_IDENTITY :: transform2d where
  "Transform2D_IDENTITY =
     \<lparr>tf_a = f64_one, tf_b = 0, tf_c = 0, tf_d = f64_one, tf_tx = 0, tf_ty = 0\<rparr>"

record bounds =
  bounds_min_x :: f64
  bounds_min_y :: f64
  bounds_max_x :: f64
  bounds_max_y :: f64

datatype unit_interval = UnitInterval f32

section \<open>Style\<close>

subsection \<open>Colour and gradients\<close>

record color =
  color_r :: u8
  color_g :: u8
  color_b :: u8
  color_a :: u8

record gradient_stop =
  gradient_stop_position :: f32
  gradient_stop_color :: color

datatype gradient =
    Gradient_Linear "f32 \<times> f32" "f32 \<times> f32" "gradient_stop list"
  | Gradient_Radial "f32 \<times> f32" f32 "((f32 \<times> f32) \<times> (f32 \<times> f32)) option" "gradient_stop list"
  | Gradient_Angular "f32 \<times> f32" f32 "gradient_stop list"
  | Gradient_Diamond "f32 \<times> f32" f32 "((f32 \<times> f32) \<times> (f32 \<times> f32)) option" "gradient_stop list"

subsection \<open>Paints, strokes and effects\<close>

record image_adjust =
  image_adjust_exposure :: f32
  image_adjust_contrast :: f32
  image_adjust_saturation :: f32
  image_adjust_temperature :: f32
  image_adjust_tint :: f32
  image_adjust_highlights :: f32
  image_adjust_shadows :: f32

datatype blend_mode =
    BlendMode_Normal
  | BlendMode_Multiply
  | BlendMode_Screen
  | BlendMode_Overlay
  | BlendMode_Darken
  | BlendMode_Lighten
  | BlendMode_ColorDodge
  | BlendMode_ColorBurn
  | BlendMode_HardLight
  | BlendMode_SoftLight
  | BlendMode_Difference
  | BlendMode_Exclusion
  | BlendMode_Hue
  | BlendMode_Saturation
  | BlendMode_Color
  | BlendMode_Luminosity
  | BlendMode_LinearBurn
  | BlendMode_LinearDodge
  | BlendMode_DarkerColor
  | BlendMode_LighterColor
  | BlendMode_VividLight
  | BlendMode_LinearLight
  | BlendMode_PinLight
  | BlendMode_HardMix
  | BlendMode_Subtract
  | BlendMode_Divide

datatype image_fit_mode =
    ImageFitMode_Fill
  | ImageFitMode_Fit
  | ImageFitMode_Stretch
  | ImageFitMode_Tile

record video_fill =
  video_fill_asset :: asset_id
  video_fill_poster :: "asset_id option"
  video_fill_mode :: image_fit_mode
  video_fill_crop :: "(f32 \<times> f32 \<times> f32 \<times> f32) option"
  video_fill_scale :: "f32 option"
  video_fill_rotation :: "f32 option"
  video_fill_adjust :: image_adjust

record shader_gradient_stop =
  shader_gradient_stop_position :: f32
  shader_gradient_stop_color :: color
  shader_gradient_stop_variable_id :: "string option"

datatype shader_property_value =
    ShaderPropertyValue_Boolean bool
  | ShaderPropertyValue_Text string
  | ShaderPropertyValue_Number f32
  | ShaderPropertyValue_AssetId string
  | ShaderPropertyValue_Color color
  | ShaderPropertyValue_Point "f32 \<times> f32"
  | ShaderPropertyValue_Line "f32 \<times> f32" "f32 \<times> f32"
  | ShaderPropertyValue_Circle "f32 \<times> f32" f32
  | ShaderPropertyValue_CirclePoint "f32 \<times> f32" f32 f32
  | ShaderPropertyValue_ColorPoint "f32 \<times> f32" color "string option"
  | ShaderPropertyValue_Gradient "shader_gradient_stop list"
  | ShaderPropertyValue_VariableAlias string
  | ShaderPropertyValue_Opaque string string

record shader_property_assignment =
  shader_property_assignment_definition_id :: string
  shader_property_assignment_value :: shader_property_value

record shader_fill =
  shader_fill_shader_id :: string
  shader_fill_name :: string
  shader_fill_properties :: "shader_property_assignment list"

datatype pattern_tile_type =
    PatternTileType_Rectangular
  | PatternTileType_HorizontalHexagonal
  | PatternTileType_VerticalHexagonal

record pattern_spacing =
  pattern_spacing_x :: f32
  pattern_spacing_y :: f32

datatype pattern_horizontal_alignment =
    PatternHorizontalAlignment_Start
  | PatternHorizontalAlignment_Center
  | PatternHorizontalAlignment_End

record pattern_fill =
  pattern_fill_source_node_id :: node_id
  pattern_fill_tile_type :: pattern_tile_type
  pattern_fill_scaling_factor :: f32
  pattern_fill_spacing :: pattern_spacing
  pattern_fill_horizontal_alignment :: pattern_horizontal_alignment

datatype fill =
    Fill_Solid color blend_mode
  | Fill_Gradient gradient blend_mode
  | Fill_Image asset_id image_fit_mode f32 "(f32 \<times> f32 \<times> f32 \<times> f32) option" "f32 option" "f32 option" blend_mode image_adjust
  | Fill_Video video_fill f32 blend_mode
  | Fill_Pattern pattern_fill f32 blend_mode
  | Fill_Shader shader_fill f32 blend_mode

datatype stroke_cap =
    StrokeCap_Butt
  | StrokeCap_Round
  | StrokeCap_Square

datatype stroke_join =
    StrokeJoin_Miter
  | StrokeJoin_Round
  | StrokeJoin_Bevel

datatype stroke_align =
    StrokeAlign_Center
  | StrokeAlign_Inside
  | StrokeAlign_Outside

record stroke =
  stroke_paint :: fill
  stroke_width :: f64
  stroke_cap :: stroke_cap
  stroke_join :: stroke_join
  stroke_miter_limit :: f64
  stroke_dash :: "f64 list"
  stroke_align :: stroke_align
  stroke_per_side :: "(f64 \<times> f64 \<times> f64 \<times> f64) option"

datatype shadow_kind =
    ShadowKind_Drop
  | ShadowKind_Inner

record shadow =
  shadow_kind :: shadow_kind
  shadow_color :: color
  shadow_blur :: f64
  shadow_spread :: f64
  shadow_offset :: "f64 \<times> f64"
  shadow_show_behind_node :: bool

datatype blur_kind =
    BlurKind_Layer
  | BlurKind_Background

record blur =
  blur_kind :: blur_kind
  blur_radius :: f64

subsection \<open>Paths\<close>

datatype path_segment =
    PathSegment_Move "f64 \<times> f64"
  | PathSegment_Line "f64 \<times> f64"
  | PathSegment_Quad "f64 \<times> f64" "f64 \<times> f64"
  | PathSegment_Cubic "f64 \<times> f64" "f64 \<times> f64" "f64 \<times> f64"
  | PathSegment_Close

datatype fill_rule =
    FillRule_NonZero
  | FillRule_EvenOdd

record path_data =
  path_data_segments :: "path_segment list"
  path_data_fill_rule :: fill_rule
  path_data_subpath_rules :: "fill_rule list"

subsection \<open>Text\<close>

datatype text_auto_resize =
    TextAutoResize_None
  | TextAutoResize_WidthAndHeight
  | TextAutoResize_Height

datatype text_align =
    TextAlign_Left
  | TextAlign_Center
  | TextAlign_Right
  | TextAlign_Justify

datatype valign =
    VAlign_Top
  | VAlign_Center
  | VAlign_Bottom

record font_variation =
  font_variation_axis :: string
  font_variation_value :: f32

record text_style =
  ts_font_family :: string
  ts_size_px :: f64
  ts_weight :: u16
  ts_italic :: bool
  ts_underline :: bool
  ts_strikethrough :: bool
  ts_color :: color
  ts_letter_spacing :: f64
  ts_line_height :: f64
  ts_line_height_auto_percent :: "f64 option"
  ts_font_variations :: "font_variation list"

record text_style_run =
  text_style_run_start :: nat
  text_style_run_end :: nat
  text_style_run_style :: text_style

section \<open>Typed values\<close>

text \<open>The macro \<open>var_values!\<close> of \<open>value.rs\<close>, expanded over its seven rows.\<close>

datatype var_value =
    VarValue_Color color
  | VarValue_Float f64
  | VarValue_String string
  | VarValue_Boolean bool
  | VarValue_TextStyle text_style
  | VarValue_Enum string
  | VarValue_Image "asset_id option"
  | VarValue_Alias variable_id

datatype resolved_var_value =
    ResolvedVarValue_Color color
  | ResolvedVarValue_Float f64
  | ResolvedVarValue_String string
  | ResolvedVarValue_Boolean bool
  | ResolvedVarValue_TextStyle text_style
  | ResolvedVarValue_Enum string
  | ResolvedVarValue_Image "asset_id option"

datatype variable_type =
    VariableType_Color
  | VariableType_Float
  | VariableType_String
  | VariableType_Boolean
  | VariableType_Typography
  | VariableType_Enum
  | VariableType_Image

fun var_value_variable_type :: "var_value \<Rightarrow> variable_type option" where
  "var_value_variable_type (VarValue_Color _) = Some VariableType_Color"
| "var_value_variable_type (VarValue_Float _) = Some VariableType_Float"
| "var_value_variable_type (VarValue_String _) = Some VariableType_String"
| "var_value_variable_type (VarValue_Boolean _) = Some VariableType_Boolean"
| "var_value_variable_type (VarValue_TextStyle _) = Some VariableType_Typography"
| "var_value_variable_type (VarValue_Enum _) = Some VariableType_Enum"
| "var_value_variable_type (VarValue_Image _) = Some VariableType_Image"
| "var_value_variable_type (VarValue_Alias _) = None"

fun as_resolved :: "var_value \<Rightarrow> resolved_var_value option" where
  "as_resolved (VarValue_Color v) = Some (ResolvedVarValue_Color v)"
| "as_resolved (VarValue_Float v) = Some (ResolvedVarValue_Float v)"
| "as_resolved (VarValue_String v) = Some (ResolvedVarValue_String v)"
| "as_resolved (VarValue_Boolean v) = Some (ResolvedVarValue_Boolean v)"
| "as_resolved (VarValue_TextStyle v) = Some (ResolvedVarValue_TextStyle v)"
| "as_resolved (VarValue_Enum v) = Some (ResolvedVarValue_Enum v)"
| "as_resolved (VarValue_Image v) = Some (ResolvedVarValue_Image v)"
| "as_resolved (VarValue_Alias _) = None"

fun resolved_variable_type :: "resolved_var_value \<Rightarrow> variable_type" where
  "resolved_variable_type (ResolvedVarValue_Color _) = VariableType_Color"
| "resolved_variable_type (ResolvedVarValue_Float _) = VariableType_Float"
| "resolved_variable_type (ResolvedVarValue_String _) = VariableType_String"
| "resolved_variable_type (ResolvedVarValue_Boolean _) = VariableType_Boolean"
| "resolved_variable_type (ResolvedVarValue_TextStyle _) = VariableType_Typography"
| "resolved_variable_type (ResolvedVarValue_Enum _) = VariableType_Enum"
| "resolved_variable_type (ResolvedVarValue_Image _) = VariableType_Image"

fun to_var_value :: "resolved_var_value \<Rightarrow> var_value" where
  "to_var_value (ResolvedVarValue_Color v) = VarValue_Color v"
| "to_var_value (ResolvedVarValue_Float v) = VarValue_Float v"
| "to_var_value (ResolvedVarValue_String v) = VarValue_String v"
| "to_var_value (ResolvedVarValue_Boolean v) = VarValue_Boolean v"
| "to_var_value (ResolvedVarValue_TextStyle v) = VarValue_TextStyle v"
| "to_var_value (ResolvedVarValue_Enum v) = VarValue_Enum v"
| "to_var_value (ResolvedVarValue_Image v) = VarValue_Image v"

lemma as_resolved_to_var_value [simp]: "as_resolved (to_var_value r) = Some r"
  by (cases r) simp_all

lemma as_resolved_type:
  "as_resolved v = Some r \<Longrightarrow> var_value_variable_type v = Some (resolved_variable_type r)"
  by (cases v) auto

lemma as_resolved_Some: "as_resolved v = Some r \<longleftrightarrow> v = to_var_value r"
  by (cases v; cases r) auto

end
