(* ===== verification/NodeTypes.thy ===== *)
theory NodeTypes
  imports DesignTypes
begin

text \<open>
  The polymorphic canvas node of \<open>crates/fanta-doc/src/node\<close>: the wrapper record \<open>canvas_node\<close>
  (\<open>node/mod.rs\<close>) and every variant payload of \<open>node_data\<close> (\<open>node/variants.rs\<close>, \<open>layout.rs\<close>,
  \<open>instance.rs\<close>, \<open>prototype.rs\<close>) with the bindings, editing rules and style assignments a node
  carries (\<open>binding.rs\<close>, \<open>editing.rs\<close>, \<open>stylesheet.rs\<close>). The layout conventions are those of
  \<open>DesignTypes\<close>.
\<close>

type_synonym node_flags = u32

subsection \<open>Bindings and editing rules\<close>

datatype bound_prop =
    BoundProp_FillColor u16
  | BoundProp_StrokeColor u16
  | BoundProp_StrokeWidth u16
  | BoundProp_CornerRadius
  | BoundProp_Opacity
  | BoundProp_Visible
  | BoundProp_TextContent
  | BoundProp_TextStyle
  | BoundProp_ClipWidth
  | BoundProp_ClipHeight
  | BoundProp_ImageFill u16

datatype scope =
    Scope_LayerMove
  | Scope_LayerResize
  | Scope_LayerRotate
  | Scope_LayerFlip
  | Scope_LayerCrop
  | Scope_LayerOpacity
  | Scope_LayerBlendMode
  | Scope_LayerVisibility
  | Scope_LayerClipping
  | Scope_AppearanceAdjustments
  | Scope_AppearanceFilter
  | Scope_AppearanceEffect
  | Scope_AppearanceBlur
  | Scope_AppearanceShadow
  | Scope_AppearanceAnimation
  | Scope_LifecycleDestroy
  | Scope_LifecycleDuplicate
  | Scope_EditorAdd
  | Scope_EditorSelect
  | Scope_FillChange
  | Scope_FillChangeType
  | Scope_StrokeChange
  | Scope_ShapeChange
  | Scope_TextEdit
  | Scope_TextCharacter
  | Scope_Unknown

record placeholder =
  placeholder_show_overlay :: bool
  placeholder_show_button :: bool

record editing_rules =
  editing_rules_disabled_scopes :: "scope fset"
  editing_rules_placeholder :: "placeholder option"

subsection \<open>Auto layout and constraints\<close>

datatype layout_mode =
    LayoutMode_Horizontal
  | LayoutMode_Vertical
  | LayoutMode_Grid

datatype grid_track =
    GridTrack_Fixed f64
  | GridTrack_Flex f64
  | GridTrack_Hug

record grid_layout =
  grid_layout_columns :: "grid_track list"
  grid_layout_rows :: "grid_track list"
  grid_layout_column_gap :: f64
  grid_layout_row_gap :: f64

datatype grid_align =
    GridAlign_Start
  | GridAlign_Center
  | GridAlign_End

record grid_cell =
  grid_cell_column :: u16
  grid_cell_row :: u16
  grid_cell_column_span :: u16
  grid_cell_row_span :: u16
  grid_cell_horizontal :: grid_align
  grid_cell_vertical :: grid_align

datatype axis_sizing =
    AxisSizing_Fixed
  | AxisSizing_Hug

datatype primary_align =
    PrimaryAlign_Start
  | PrimaryAlign_Center
  | PrimaryAlign_End
  | PrimaryAlign_SpaceBetween
  | PrimaryAlign_SpaceEvenly

datatype counter_align =
    CounterAlign_Start
  | CounterAlign_Center
  | CounterAlign_End
  | CounterAlign_Stretch
  | CounterAlign_Baseline

record auto_layout =
  auto_layout_mode :: layout_mode
  auto_layout_spacing :: f64
  auto_layout_counter_spacing :: f64
  auto_layout_counter_auto_spacing :: bool
  auto_layout_padding :: "f64 \<times> f64 \<times> f64 \<times> f64"
  auto_layout_include_strokes :: bool
  auto_layout_primary_align :: primary_align
  auto_layout_counter_align :: counter_align
  auto_layout_primary_sizing :: axis_sizing
  auto_layout_counter_sizing :: axis_sizing
  auto_layout_wrap :: bool
  auto_layout_flow_reverse :: bool
  auto_layout_child_layout :: bool
  auto_layout_reverse_z :: bool
  auto_layout_min_size :: "f64 option \<times> f64 option"
  auto_layout_max_size :: "f64 option \<times> f64 option"

record layout_child =
  layout_child_grow :: f32
  layout_child_absolute :: bool
  layout_child_align_self :: "counter_align option"
  layout_child_grid :: "grid_cell option"

datatype constraint_h =
    ConstraintH_Left
  | ConstraintH_Right
  | ConstraintH_LeftRight
  | ConstraintH_Center
  | ConstraintH_Scale

datatype constraint_v =
    ConstraintV_Top
  | ConstraintV_Bottom
  | ConstraintV_TopBottom
  | ConstraintV_Center
  | ConstraintV_Scale

record constraints =
  constraints_horizontal :: constraint_h
  constraints_vertical :: constraint_v

subsection \<open>Style sheets\<close>

datatype style_property =
    StyleProperty_Fill
  | StyleProperty_Fills
  | StyleProperty_Background
  | StyleProperty_BackgroundFills
  | StyleProperty_Strokes
  | StyleProperty_Opacity
  | StyleProperty_BlendMode
  | StyleProperty_Effects
  | StyleProperty_Blurs
  | StyleProperty_CornerRadius
  | StyleProperty_CornerRadii
  | StyleProperty_CornerSmoothing
  | StyleProperty_Typography
  | StyleProperty_FontFamily
  | StyleProperty_FontSize
  | StyleProperty_FontWeight
  | StyleProperty_FontItalic
  | StyleProperty_LineHeight
  | StyleProperty_LetterSpacing
  | StyleProperty_Color
  | StyleProperty_Align
  | StyleProperty_VerticalAlign
  | StyleProperty_AutoResize
  | StyleProperty_MaxLines
  | StyleProperty_Truncate
  | StyleProperty_ParagraphSpacing
  | StyleProperty_ParagraphIndent
  | StyleProperty_AutoLayout
  | StyleProperty_Layout
  | StyleProperty_Padding
  | StyleProperty_Gap
  | StyleProperty_Grid
  | StyleProperty_LayoutChild
  | StyleProperty_Constraints

record style_declaration =
  style_declaration_value :: json
  style_declaration_binding :: "variable_id option"

record style_rule =
  style_rule_id :: style_id
  style_rule_declarations :: "(style_property, style_declaration) fmap"

record style_registry =
  style_registry_rules :: "(style_id, style_rule) fmap"

record style_assignment =
  style_assignment_style_ids :: "style_id list"
  style_assignment_local_patch :: "(style_property, style_declaration) fmap"
  style_assignment_binding_overrides :: "(bound_prop, variable_id) fmap"

subsection \<open>Prototype interactions\<close>

record prototype_animation =
  prototype_animation_clip :: animation_clip_id
  prototype_animation_delay_ms :: u32

datatype trigger =
    Trigger_Click
  | Trigger_Drag
  | Trigger_Hover
  | Trigger_AfterDelay u32
  | Trigger_Key "string list"
  | Trigger_WhilePressing
  | Trigger_MouseEnter
  | Trigger_MouseLeave
  | Trigger_WhileHovering

datatype compare_op =
    CompareOp_Equal
  | CompareOp_NotEqual
  | CompareOp_Less
  | CompareOp_LessOrEqual
  | CompareOp_Greater
  | CompareOp_GreaterOrEqual

datatype condition =
    Condition_Compare variable_id compare_op var_value
  | Condition_All "condition list"
  | Condition_Any "condition list"
  | Condition_Not condition

datatype overlay_position =
    OverlayPosition_Center
  | OverlayPosition_Manual "f64 \<times> f64"
  | OverlayPosition_TopLeft
  | OverlayPosition_TopCenter
  | OverlayPosition_TopRight
  | OverlayPosition_BottomLeft
  | OverlayPosition_BottomCenter
  | OverlayPosition_BottomRight

record overlay_settings =
  overlay_settings_position :: overlay_position
  overlay_settings_background_dim :: bool
  overlay_settings_close_on_click_outside :: bool

datatype action =
    Action_Navigate node_id
  | Action_Back
  | Action_Close
  | Action_OpenOverlay node_id overlay_settings
  | Action_ScrollTo node_id
  | Action_SetVariable variable_id var_value
  | Action_AdjustVariable variable_id f64
  | Action_ToggleVariable variable_id
  | Action_CycleVariable variable_id
  | Action_Conditional "conditional_branch list" "action list"
  | Action_UpdateVariant component_id string
  | Action_OpenLink string
and conditional_branch =
  ConditionalBranch (conditional_branch_condition: condition) (conditional_branch_actions: "action list")

datatype direction =
    Direction_Left
  | Direction_Right
  | Direction_Up
  | Direction_Down

datatype easing =
    Easing_Linear
  | Easing_EaseIn
  | Easing_EaseOut
  | Easing_EaseInOut
  | Easing_CubicBezier f32 f32 f32 f32
  | Easing_Spring f32 f32 f32

datatype transition_style =
    TransitionStyle_Instant
  | TransitionStyle_Dissolve
  | TransitionStyle_SlideIn direction
  | TransitionStyle_Push direction
  | TransitionStyle_MoveIn direction
  | TransitionStyle_SmartAnimate
  | TransitionStyle_SlideOut direction
  | TransitionStyle_MoveOut direction
  | TransitionStyle_ScrollAnimate

record transition =
  transition_style :: transition_style
  transition_duration_ms :: u32
  transition_easing :: easing

record reaction =
  rx_id :: reaction_id
  rx_trigger :: trigger
  rx_action :: action
  rx_extra_actions :: "action list"
  rx_transition :: "transition option"
  rx_animation :: "prototype_animation option"

subsection \<open>Component instances\<close>

datatype override_value =
    OverrideValue_Text string
  | OverrideValue_Fills "fill list"
  | OverrideValue_Strokes "stroke list"
  | OverrideValue_Visible bool
  | OverrideValue_SwapInstance component_id
  | OverrideValue_Field json

record override_entry =
  ovr_target_path :: "node_id list"
  ovr_target_prop :: bound_prop
  ovr_value :: override_value

record derived_text =
  derived_text_content :: "string option"
  derived_text_font_size :: "f64 option"
  derived_text_line_height :: "f64 option"
  derived_text_line_height_auto_percent :: "f64 option"
  derived_text_letter_spacing :: "f64 option"
  derived_text_color :: "color option"
  derived_text_weight :: "u16 option"
  derived_text_family :: "string option"

record derived_override =
  dov_path :: "node_id list"
  dov_transform :: "transform2d option"
  dov_size :: "(f64 \<times> f64) option"
  dov_fills :: "fill list option"
  dov_path_data :: "path_data option"
  dov_stroke_path :: "path_data option"
  dov_stroke_weight :: "f64 option"
  dov_text :: "derived_text option"

record instance_node =
  inst_component :: component_id
  inst_overrides :: "override_entry list"
  inst_prop_values :: "(component_prop_id, var_value) fmap"
  inst_derived :: "derived_override list"
  inst_local_size :: "f64 \<times> f64"

subsection \<open>Node payloads\<close>

datatype boolean_op =
    BooleanOp_Union
  | BooleanOp_Subtract
  | BooleanOp_Intersect
  | BooleanOp_Exclude

datatype scroll_direction =
    ScrollDirection_None
  | ScrollDirection_Horizontal
  | ScrollDirection_Vertical
  | ScrollDirection_Both

datatype scroll_behavior =
    ScrollBehavior_Scrolls
  | ScrollBehavior_Fixed
  | ScrollBehavior_Sticky

record group_node =
  gn_local_size :: "(f64 \<times> f64) option"
  gn_clip_size :: "(f64 \<times> f64) option"
  gn_background :: "fill option"
  gn_background_fills :: "fill list"
  gn_grid :: "grid_layout option"
  gn_explicit_modes :: "(variable_collection_id, mode_id) fmap"
  gn_scrollable :: bool
  gn_scroll_direction :: "scroll_direction option"
  gn_scroll_offset :: "(f64 \<times> f64) option"
  gn_auto_layout :: "auto_layout option"
  gn_strokes :: "stroke list"
  gn_corner_radius :: "f64 option"
  gn_corner_radii :: "(f64 \<times> f64 \<times> f64 \<times> f64) option"
  gn_corner_smoothing :: f32

datatype parametric_shape =
    ParametricShape_Arc f64 f64 f64
  | ParametricShape_Star u32 f64
  | ParametricShape_Polygon u32

record vector_node =
  vn_path :: path_data
  vn_fills :: "fill list"
  vn_strokes :: "stroke list"
  vn_corner_radius :: "f64 option"
  vn_corner_radii :: "(f64 \<times> f64 \<times> f64 \<times> f64) option"
  vn_corner_smoothing :: f32
  vn_local_size :: "(f64 \<times> f64) option"
  vn_parametric :: "parametric_shape option"

record boolean_baked_geometry =
  boolean_baked_geometry_vector :: vector_node
  boolean_baked_geometry_source :: string
  boolean_baked_geometry_stroke_outline :: bool

record boolean_node =
  bn_op :: boolean_op
  bn_fills :: "fill list"
  bn_strokes :: "stroke list"
  bn_baked :: "boolean_baked_geometry option"

record text_node =
  tn_content :: string
  tn_local_size :: "f64 \<times> f64"
  tn_align :: text_align
  tn_vertical_align :: valign
  tn_style :: text_style
  tn_style_runs :: "text_style_run list"
  tn_auto_resize :: text_auto_resize
  tn_max_lines :: "u32 option"
  tn_truncate :: bool
  tn_paragraph_spacing :: f64
  tn_paragraph_indent :: f64

record text_path_start =
  text_path_start_segment :: u32
  text_path_start_position :: f64

datatype text_path_alignment =
    TextPathAlignment_Start
  | TextPathAlignment_Center
  | TextPathAlignment_End

datatype text_path_direction =
    TextPathDirection_Forward
  | TextPathDirection_Reverse

datatype text_path_side =
    TextPathSide_Default
  | TextPathSide_Flipped

record text_path_node =
  tp_path :: path_data
  tp_content :: string
  tp_style :: text_style
  tp_style_runs :: "text_style_run list"
  tp_start :: text_path_start
  tp_alignment :: text_path_alignment
  tp_direction :: text_path_direction
  tp_side :: text_path_side

record bitmap_node =
  bitmap_asset :: asset_id
  bitmap_natural_size :: "u32 \<times> u32"
  bitmap_local_size :: "f64 \<times> f64"
  bitmap_crop :: "(f32 \<times> f32 \<times> f32 \<times> f32) option"
  bitmap_fit :: image_fit_mode
  bitmap_tint :: "color option"

record video_node =
  video_asset :: asset_id
  video_natural_size :: "u32 \<times> u32"
  video_local_size :: "f64 \<times> f64"
  video_time_range_us :: "i64 \<times> i64"
  video_speed :: f32
  video_muted :: bool
  video_volume :: f32
  video_poster_frame_us :: "i64 option"
  video_poster :: "asset_id option"
  video_fit :: image_fit_mode

record audio_node =
  audio_asset :: asset_id
  audio_local_size :: "f64 \<times> f64"
  audio_time_range_us :: "i64 \<times> i64"
  audio_volume :: f32
  audio_muted :: bool
  audio_waveform_color :: color

record workflow_node =
  workflow_node_id :: workflow_node_id
  workflow_node_kind :: string
  workflow_node_position :: "f64 \<times> f64"
  workflow_node_params :: json

record link =
  link_id :: link_id
  link_from_node :: workflow_node_id
  link_from_port :: string
  link_to_node :: workflow_node_id
  link_to_port :: string

record node_graph =
  node_graph_nodes :: "(workflow_node_id, workflow_node) fmap"
  node_graph_links :: "link list"
  node_graph_output :: "workflow_node_id option"

record node_graph_node =
  ngn_local_size :: "f64 \<times> f64"
  ngn_graph :: node_graph
  ngn_preview :: "asset_id option"

record camera3d =
  camera3d_azimuth :: f32
  camera3d_elevation :: f32
  camera3d_distance :: f32
  camera3d_target :: "f32 \<times> f32 \<times> f32"
  camera3d_fov_deg :: f32

record model3d_node =
  m3d_asset :: asset_id
  m3d_local_size :: "f64 \<times> f64"
  m3d_camera :: camera3d
  m3d_overrides :: json

datatype generation_status =
    GenerationStatus_Pending
  | GenerationStatus_Running
  | GenerationStatus_Done
  | GenerationStatus_Failed

record ai_artifact_node =
  ai_local_size :: "f64 \<times> f64"
  ai_prompt :: string
  ai_model :: string
  ai_params :: json
  ai_inputs :: "node_id list"
  ai_lineage_parent :: "node_id option"
  ai_output :: "asset_id option"
  ai_status :: generation_status
  ai_seed :: "u64 option"

record embed_node =
  embed_local_size :: "f64 \<times> f64"
  embed_kind :: string
  embed_payload :: json

subsection \<open>The node\<close>

datatype mask_type =
    MaskType_Alpha
  | MaskType_Vector
  | MaskType_Luminance

datatype node_data =
    NodeData_Group group_node
  | NodeData_Vector vector_node
  | NodeData_Text text_node
  | NodeData_TextPath text_path_node
  | NodeData_Bitmap bitmap_node
  | NodeData_Video video_node
  | NodeData_Audio audio_node
  | NodeData_NodeGraph node_graph_node
  | NodeData_Model3d model3d_node
  | NodeData_AiArtifact ai_artifact_node
  | NodeData_Instance instance_node
  | NodeData_Boolean boolean_node
  | NodeData_Embed embed_node

record canvas_node =
  cn_id :: node_id
  cn_style_assignment :: style_assignment
  cn_parent :: "node_id option"
  cn_index :: index_key
  cn_name :: string
  cn_transform :: transform2d
  cn_constraints :: "constraints option"
  cn_opacity :: unit_interval
  cn_blend_mode :: blend_mode
  cn_effects :: "shadow list"
  cn_blurs :: "blur list"
  cn_flags :: node_flags
  cn_is_mask :: bool
  cn_mask_type :: mask_type
  cn_scroll_behavior :: scroll_behavior
  cn_data :: node_data
  cn_meta :: json
  cn_bindings :: "(bound_prop, variable_id) fmap"
  cn_reactions :: "reaction list"
  cn_layout_child :: "layout_child option"
  cn_editing :: "editing_rules option"

section \<open>Predicates on nodes\<close>

definition is_group :: "canvas_node \<Rightarrow> bool" where
  "is_group n = (case cn_data n of NodeData_Group _ \<Rightarrow> True | _ \<Rightarrow> False)"

definition is_boolean :: "canvas_node \<Rightarrow> bool" where
  "is_boolean n = (case cn_data n of NodeData_Boolean _ \<Rightarrow> True | _ \<Rightarrow> False)"

definition can_have_children :: "canvas_node \<Rightarrow> bool" where
  "can_have_children n \<longleftrightarrow> is_group n \<or> is_boolean n"

lemma can_have_children_cong:
  "cn_data m = cn_data n \<Longrightarrow> can_have_children m = can_have_children n"
  by (simp add: can_have_children_def is_group_def is_boolean_def)

fun default_name :: "node_data \<Rightarrow> string" where
  "default_name (NodeData_Group _) = ''Group''"
| "default_name (NodeData_Vector _) = ''Shape''"
| "default_name (NodeData_Text _) = ''Text''"
| "default_name (NodeData_TextPath _) = ''Text on Path''"
| "default_name (NodeData_Bitmap _) = ''Image''"
| "default_name (NodeData_Video _) = ''Video''"
| "default_name (NodeData_Audio _) = ''Audio''"
| "default_name (NodeData_NodeGraph _) = ''Node Graph''"
| "default_name (NodeData_Model3d _) = ''3D''"
| "default_name (NodeData_AiArtifact _) = ''AI''"
| "default_name (NodeData_Instance _) = ''Instance''"
| "default_name (NodeData_Boolean _) = ''Boolean''"
| "default_name (NodeData_Embed _) = ''Embed''"

definition style_assignment_default :: style_assignment where
  "style_assignment_default =
     \<lparr>style_assignment_style_ids = [], style_assignment_local_patch = fmempty,
      style_assignment_binding_overrides = fmempty\<rparr>"

definition canvas_node_new :: "node_id \<Rightarrow> node_data \<Rightarrow> canvas_node" where
  \<comment> \<open>\<open>CanvasNode::new\<close>, with the freshly minted id as its argument\<close>
  "canvas_node_new fresh d =
     \<lparr>cn_id = fresh, cn_style_assignment = style_assignment_default, cn_parent = None,
      cn_index = IndexKey_FIRST, cn_name = default_name d, cn_transform = Transform2D_IDENTITY,
      cn_constraints = None, cn_opacity = UnitInterval 0x3F800000, cn_blend_mode = BlendMode_Normal,
      cn_effects = [], cn_blurs = [], cn_flags = 0, cn_is_mask = False,
      cn_mask_type = MaskType_Alpha, cn_scroll_behavior = ScrollBehavior_Scrolls, cn_data = d,
      cn_meta = JNull, cn_bindings = fmempty, cn_reactions = [], cn_layout_child = None,
      cn_editing = None\<rparr>"

section \<open>Prototype actions and the variables they name\<close>

definition is_alias_of :: "variable_id \<Rightarrow> var_value \<Rightarrow> bool" where
  "is_alias_of v x = (case x of VarValue_Alias w \<Rightarrow> w = v | _ \<Rightarrow> False)"

fun condition_references :: "variable_id \<Rightarrow> condition \<Rightarrow> bool" where
  "condition_references v (Condition_Compare w _ x) = (w = v \<or> is_alias_of v x)"
| "condition_references v (Condition_All cs) = list_ex (condition_references v) cs"
| "condition_references v (Condition_Any cs) = list_ex (condition_references v) cs"
| "condition_references v (Condition_Not c) = condition_references v c"

fun action_references :: "variable_id \<Rightarrow> action \<Rightarrow> bool"
  and branch_references :: "variable_id \<Rightarrow> conditional_branch \<Rightarrow> bool" where
  "action_references v (Action_SetVariable w x) = (w = v \<or> is_alias_of v x)"
| "action_references v (Action_AdjustVariable w _) = (w = v)"
| "action_references v (Action_ToggleVariable w) = (w = v)"
| "action_references v (Action_CycleVariable w) = (w = v)"
| "action_references v (Action_Conditional bs other) =
     (list_ex (branch_references v) bs \<or> list_ex (action_references v) other)"
| "action_references v _ = False"
| "branch_references v (ConditionalBranch c as) =
     (condition_references v c \<or> list_ex (action_references v) as)"

definition reaction_actions :: "reaction \<Rightarrow> action list" where
  "reaction_actions r = rx_action r # rx_extra_actions r"

end
