(* ===== verification/Scene.thy ===== *)
theory Scene
  imports NodeTypes "HOL-Library.Option_ord" "HOL-Library.Product_Lexorder"
begin

text \<open>
  The scene graph storage of \<open>crates/fanta-doc/src/scene/graph.rs\<close>: the node map, the maintained
  child index, the derived caches, the revision counter, the geometry stamps and the change log,
  with one definition per method. Fallible methods return \<open>scene_error + result\<close>; each of them
  makes all its checks before its first write, so an error carries no new scene.

  \<^item> The process-wide atomics behind \<open>next_geometry_stamp\<close> and \<open>mint_scene_instance_id\<close> are two
    fields of the record, the values the next calls return.
  \<^item> The spatial index is derived data; the record keeps only whether one is present.
  \<^item> \<open>Ancestors\<close> and \<open>Descendants\<close> are loops over parent and child links. They take fuel, the number
    of nodes plus one, which \<open>SceneTree\<close> proves is enough on every scene that meets the invariant.
\<close>

section \<open>State\<close>

datatype scene_error =
    SceneError_NotFound node_id
  | SceneError_Duplicate node_id
  | SceneError_ParentMissing node_id
  | SceneError_ParentNotContainer node_id
  | SceneError_Cycle node_id node_id
  | SceneError_InvariantViolated string

datatype scene_change =
    SceneChange_Transform node_id
  | SceneChange_Node node_id
  | SceneChange_Structural
  | SceneChange_Unknown

record scene_delta =
  delta_transforms :: "node_id list"
  delta_nodes :: "node_id list"

definition SCENE_CHANGE_LOG_CAP :: nat where
  "SCENE_CHANGE_LOG_CAP = 16384"

definition SCENE_DELTA_MAX_NODES :: nat where
  "SCENE_DELTA_MAX_NODES = 2048"

type_synonym node_map = "(node_id, canvas_node) fmap"
type_synonym child_map = "(node_id option, node_id list) fmap"

record scene =
  sc_nodes :: node_map
  sc_child_index :: child_map
  sc_world_cache :: "(node_id, transform2d) fmap"
  sc_local_bounds_cache :: "(node_id, bounds option) fmap"
  sc_spatial_built :: bool
  sc_revision :: u64
  sc_node_stamps :: "(node_id, u64) fmap"
  sc_stamp_floor :: u64
  sc_removal_revision :: u64
  sc_instance_id :: u64
  sc_change_log :: "(u64 \<times> scene_change) list"
  sc_next_stamp :: u64
  sc_next_instance :: u64

definition scene_default :: "u64 \<Rightarrow> u64 \<Rightarrow> scene" where
  \<comment> \<open>\<open>Scene::default\<close>, given the two process-wide counters\<close>
  "scene_default stamp inst =
     \<lparr>sc_nodes = fmempty, sc_child_index = fmempty, sc_world_cache = fmempty,
      sc_local_bounds_cache = fmempty, sc_spatial_built = False, sc_revision = 0,
      sc_node_stamps = fmempty, sc_stamp_floor = 0, sc_removal_revision = 0,
      sc_instance_id = inst, sc_change_log = [], sc_next_stamp = stamp,
      sc_next_instance = inst + 1\<rparr>"

definition scene_clone :: "scene \<Rightarrow> scene \<times> scene" where
  \<comment> \<open>\<open>Clone\<close>: the original with the advanced process counter, and the copy\<close>
  "scene_clone s =
     (s\<lparr>sc_next_instance := sc_next_instance s + 1\<rparr>,
      s\<lparr>sc_spatial_built := False, sc_instance_id := sc_next_instance s, sc_change_log := [],
        sc_next_instance := sc_next_instance s + 1\<rparr>)"

definition scene_len :: "scene \<Rightarrow> nat" where
  "scene_len s = fcard (fmdom (sc_nodes s))"

definition scene_get :: "scene \<Rightarrow> node_id \<Rightarrow> canvas_node option" where
  "scene_get s i = fmlookup (sc_nodes s) i"

definition scene_contains :: "scene \<Rightarrow> node_id \<Rightarrow> bool" where
  "scene_contains s i = (fmlookup (sc_nodes s) i \<noteq> None)"

section \<open>Caches, change log and stamps\<close>

definition clear_derived_caches :: "scene \<Rightarrow> scene" where
  "clear_derived_caches s =
     s\<lparr>sc_world_cache := fmempty, sc_local_bounds_cache := fmempty, sc_spatial_built := False\<rparr>"

definition record_change :: "scene_change \<Rightarrow> scene \<Rightarrow> scene" where
  "record_change c s =
     (let r = sc_revision s + 1; log = sc_change_log s @ [(r, c)]
      in s\<lparr>sc_revision := r, sc_change_log := drop (length log - SCENE_CHANGE_LOG_CAP) log\<rparr>)"

definition next_geometry_stamp :: "scene \<Rightarrow> u64 \<times> scene" where
  "next_geometry_stamp s = (sc_next_stamp s, s\<lparr>sc_next_stamp := sc_next_stamp s + 1\<rparr>)"

definition touch_stamp :: "node_id \<Rightarrow> scene \<Rightarrow> scene" where
  "touch_stamp i s =
     (let (stamp, s') = next_geometry_stamp s
      in s'\<lparr>sc_node_stamps := fmupd i stamp (sc_node_stamps s')\<rparr>)"

definition touch_stamps :: "node_id list \<Rightarrow> scene \<Rightarrow> scene" where
  "touch_stamps is s = fold touch_stamp is s"

definition node_stamp :: "scene \<Rightarrow> node_id \<Rightarrow> u64" where
  "node_stamp s i =
     max (case fmlookup (sc_node_stamps s) i of None \<Rightarrow> 0 | Some st \<Rightarrow> st) (sc_stamp_floor s)"

section \<open>Child index\<close>

definition child_key :: "node_map \<Rightarrow> node_id \<Rightarrow> index_key option \<times> node_id" where
  \<comment> \<open>the total order of siblings: ascending \<open>IndexKey\<close>, ties broken by id; a node missing from
      the map sorts first\<close>
  "child_key ns i = (map_option cn_index (fmlookup ns i), i)"

definition sort_children :: "node_map \<Rightarrow> node_id list \<Rightarrow> node_id list" where
  "sort_children ns bucket = sort_key (child_key ns) bucket"

definition children_in :: "child_map \<Rightarrow> node_id option \<Rightarrow> node_id list" where
  "children_in ci p = (case fmlookup ci p of None \<Rightarrow> [] | Some b \<Rightarrow> b)"

definition children_of :: "scene \<Rightarrow> node_id option \<Rightarrow> node_id list" where
  "children_of s p = children_in (sc_child_index s) p"

definition scene_roots :: "scene \<Rightarrow> node_id list" where
  "scene_roots s = children_of s None"

definition bucket_insert :: "node_map \<Rightarrow> node_id option \<Rightarrow> node_id \<Rightarrow> child_map \<Rightarrow> child_map" where
  \<comment> \<open>\<open>binary_search_by\<close> on the sorted bucket gives the number of siblings with a smaller key\<close>
  "bucket_insert ns p i ci =
     (let bucket = children_in ci p;
          pos = length (takeWhile (\<lambda>x. child_key ns x < child_key ns i) bucket)
      in fmupd p (vec_insert pos i bucket) ci)"

definition bucket_remove :: "node_id option \<Rightarrow> node_id \<Rightarrow> child_map \<Rightarrow> child_map" where
  \<comment> \<open>the binary search and the linear scan it falls back to both find \<open>i\<close>'s own position\<close>
  "bucket_remove p i ci =
     (case fmlookup ci p of
        None \<Rightarrow> ci
      | Some bucket \<Rightarrow>
          (let bucket' = (case list_position (\<lambda>x. x = i) bucket of
                            None \<Rightarrow> bucket | Some pos \<Rightarrow> vec_remove pos bucket)
           in if bucket' = [] then fmdrop p ci else fmupd p bucket' ci))"

definition child_index_insert :: "node_id option \<Rightarrow> node_id \<Rightarrow> scene \<Rightarrow> scene" where
  "child_index_insert p i s = s\<lparr>sc_child_index := bucket_insert (sc_nodes s) p i (sc_child_index s)\<rparr>"

definition child_index_remove :: "node_id option \<Rightarrow> node_id \<Rightarrow> scene \<Rightarrow> scene" where
  "child_index_remove p i s = s\<lparr>sc_child_index := bucket_remove p i (sc_child_index s)\<rparr>"

definition child_list :: "node_map \<Rightarrow> node_id option \<Rightarrow> node_id list" where
  \<comment> \<open>the bucket of \<open>p\<close> derived from the parent fields of all nodes\<close>
  "child_list ns p =
     sort_children ns (map cn_id (filter (\<lambda>n. cn_parent n = p) (fm_values ns)))"

definition derived_child_index :: "node_map \<Rightarrow> child_map" where
  "derived_child_index ns =
     fmap_of_list (map (\<lambda>p. (p, child_list ns p)) (map cn_parent (fm_values ns)))"

definition rebuild_child_index :: "scene \<Rightarrow> scene" where
  "rebuild_child_index s =
     (let s1 = s\<lparr>sc_child_index := derived_child_index (sc_nodes s)\<rparr>;
          s2 = record_change SceneChange_Structural (clear_derived_caches s1);
          (stamp, s3) = next_geometry_stamp s2
      in s3\<lparr>sc_stamp_floor := stamp\<rparr>)"

section \<open>Traversal\<close>

fun ancestors_from :: "nat \<Rightarrow> node_map \<Rightarrow> node_id option \<Rightarrow> canvas_node list" where
  "ancestors_from 0 ns cursor = []"
| "ancestors_from (Suc fuel) ns cursor =
     (case cursor of
        None \<Rightarrow> []
      | Some i \<Rightarrow>
          (case fmlookup ns i of
             None \<Rightarrow> []
           | Some n \<Rightarrow> n # ancestors_from fuel ns (cn_parent n)))"

definition walk_fuel :: "node_map \<Rightarrow> nat" where
  "walk_fuel ns = Suc (fcard (fmdom ns))"

definition ancestors_of :: "scene \<Rightarrow> node_id \<Rightarrow> canvas_node list" where
  "ancestors_of s i =
     ancestors_from (walk_fuel (sc_nodes s)) (sc_nodes s)
       (Option.bind (fmlookup (sc_nodes s) i) cn_parent)"

fun descend :: "nat \<Rightarrow> child_map \<Rightarrow> node_id list \<Rightarrow> node_id list" where
  \<comment> \<open>\<open>Descendants::next\<close>; the head of the list is the top of the stack\<close>
  "descend 0 ci stack = []"
| "descend (Suc fuel) ci [] = []"
| "descend (Suc fuel) ci (i # stack) = i # descend fuel ci (children_in ci (Some i) @ stack)"

definition descendants_of :: "scene \<Rightarrow> node_id \<Rightarrow> node_id list" where
  "descendants_of s i = descend (walk_fuel (sc_nodes s)) (sc_child_index s) [i]"

definition subtree_stamp :: "scene \<Rightarrow> node_id \<Rightarrow> u64" where
  "subtree_stamp s i = fold max (map (node_stamp s) (descendants_of s i)) (sc_stamp_floor s)"

definition next_child_index :: "scene \<Rightarrow> node_id option \<Rightarrow> index_key" where
  \<comment> \<open>\<open>self.nodes[last]\<close> is present whenever the child index agrees with the node map\<close>
  "next_child_index s p =
     (case last_opt (children_of s p) of
        None \<Rightarrow> IndexKey_FIRST
      | Some l \<Rightarrow> index_after (cn_index (the (fmlookup (sc_nodes s) l))))"

section \<open>Insert and remove\<close>

definition check_parent :: "node_map \<Rightarrow> node_id option \<Rightarrow> scene_error option" where
  \<comment> \<open>the parent, where there is one, exists and is a container\<close>
  "check_parent ns parent =
     (case parent of
        None \<Rightarrow> None
      | Some p \<Rightarrow>
          (case fmlookup ns p of
             None \<Rightarrow> Some (SceneError_ParentMissing p)
           | Some pn \<Rightarrow>
               (if can_have_children pn then None else Some (SceneError_ParentNotContainer p))))"

definition touch_if_present :: "node_id option \<Rightarrow> scene \<Rightarrow> scene" where
  "touch_if_present parent s =
     (case parent of None \<Rightarrow> s | Some p \<Rightarrow> if scene_contains s p then touch_stamp p s else s)"

definition scene_insert :: "canvas_node \<Rightarrow> scene \<Rightarrow> scene_error + (node_id \<times> scene)" where
  "scene_insert n s =
     (if scene_contains s (cn_id n) then Inl (SceneError_Duplicate (cn_id n))
      else
        (case check_parent (sc_nodes s) (cn_parent n) of
           Some e \<Rightarrow> Inl e
         | None \<Rightarrow>
             (let s1 = s\<lparr>sc_nodes := fmupd (cn_id n) n (sc_nodes s)\<rparr>;
                  s2 = child_index_insert (cn_parent n) (cn_id n) s1;
                  s3 = record_change SceneChange_Structural (clear_derived_caches s2);
                  s4 = touch_stamp (cn_id n) s3;
                  s5 = (case cn_parent n of None \<Rightarrow> s4 | Some p \<Rightarrow> touch_stamp p s4)
              in Inr (cn_id n, s5))))"

definition remove_one :: "node_id \<Rightarrow> scene \<times> canvas_node option \<Rightarrow> scene \<times> canvas_node option" where
  \<comment> \<open>one turn of the loop of \<open>Scene::remove\<close>; the caller compares with the root\<close>
  "remove_one d st =
     (case fmlookup (sc_nodes (fst st)) d of
        None \<Rightarrow> st
      | Some removed \<Rightarrow>
          (let s1 = (fst st)\<lparr>sc_nodes := fmdrop d (sc_nodes (fst st))\<rparr>;
               s2 = child_index_remove (cn_parent removed) d s1
           in (s2\<lparr>sc_node_stamps := fmdrop d (sc_node_stamps s2)\<rparr>, Some removed)))"

fun remove_all :: "node_id \<Rightarrow> node_id list \<Rightarrow> scene \<times> canvas_node option \<Rightarrow> scene \<times> canvas_node option" where
  "remove_all root [] st = st"
| "remove_all root (d # ds) st =
     (let st' = remove_one d st
      in remove_all root ds (fst st', if d = root \<and> snd st' \<noteq> None then snd st' else snd st))"

definition scene_remove :: "node_id \<Rightarrow> scene \<Rightarrow> scene_error + (canvas_node \<times> scene)" where
  "scene_remove i s =
     (if \<not> scene_contains s i then Inl (SceneError_NotFound i)
      else
        (let (s1, root_removed) = remove_all i (descendants_of s i) (s, None);
             s2 = record_change SceneChange_Structural (clear_derived_caches s1);
             (stamp, s3) = next_geometry_stamp s2;
             s4 = s3\<lparr>sc_removal_revision := stamp\<rparr>;
             s5 = touch_if_present (Option.bind root_removed cn_parent) s4
         in (case root_removed of None \<Rightarrow> Inl (SceneError_NotFound i) | Some r \<Rightarrow> Inr (r, s5))))"

section \<open>Hierarchy edits\<close>

fun chain_hits :: "nat \<Rightarrow> node_map \<Rightarrow> node_id \<Rightarrow> node_id option \<Rightarrow> bool" where
  \<comment> \<open>the cycle check of \<open>set_parent\<close>: does the walk up from the cursor meet \<open>i\<close>\<close>
  "chain_hits 0 ns i cursor = False"
| "chain_hits (Suc fuel) ns i cursor =
     (case cursor of
        None \<Rightarrow> False
      | Some c \<Rightarrow> c = i \<or> chain_hits fuel ns i (Option.bind (fmlookup ns c) cn_parent))"

definition check_reparent :: "node_map \<Rightarrow> node_id \<Rightarrow> node_id option \<Rightarrow> scene_error option" where
  "check_reparent ns i new_parent =
     (case check_parent ns new_parent of
        Some e \<Rightarrow> Some e
      | None \<Rightarrow>
          (case new_parent of
             None \<Rightarrow> None
           | Some p \<Rightarrow> if chain_hits (walk_fuel ns) ns i (Some p) then Some (SceneError_Cycle i p) else None))"

definition scene_set_parent ::
  "node_id \<Rightarrow> node_id option \<Rightarrow> index_key \<Rightarrow> scene \<Rightarrow> scene_error + scene" where
  "scene_set_parent i new_parent new_index s =
     (case fmlookup (sc_nodes s) i of
        None \<Rightarrow> Inl (SceneError_NotFound i)
      | Some n \<Rightarrow>
          (case check_reparent (sc_nodes s) i new_parent of
             Some e \<Rightarrow> Inl e
           | None \<Rightarrow>
               (let s1 = child_index_remove (cn_parent n) i s;
                    s2 = s1\<lparr>sc_nodes :=
                           fmupd i (n\<lparr>cn_parent := new_parent, cn_index := new_index\<rparr>) (sc_nodes s1)\<rparr>;
                    s3 = child_index_insert new_parent i s2;
                    s4 = record_change SceneChange_Structural (clear_derived_caches s3);
                    s5 = touch_stamp i s4
                in Inr (touch_if_present new_parent (touch_if_present (cn_parent n) s5)))))"

definition scene_set_index :: "node_id \<Rightarrow> index_key \<Rightarrow> scene \<Rightarrow> scene_error + scene" where
  "scene_set_index i new_index s =
     (case fmlookup (sc_nodes s) i of
        None \<Rightarrow> Inl (SceneError_NotFound i)
      | Some n \<Rightarrow>
          (let s1 = child_index_remove (cn_parent n) i s;
               s2 = s1\<lparr>sc_nodes := fmupd i (n\<lparr>cn_index := new_index\<rparr>) (sc_nodes s1)\<rparr>;
               s3 = child_index_insert (cn_parent n) i s2;
               s4 = record_change SceneChange_Structural (clear_derived_caches s3);
               s5 = touch_stamp i s4
           in Inr (touch_if_present (cn_parent n) s5)))"

section \<open>Node edits\<close>

definition scene_update :: "node_id \<Rightarrow> (canvas_node \<Rightarrow> canvas_node) \<Rightarrow> scene \<Rightarrow> scene_error + scene" where
  \<comment> \<open>\<open>scene.get_mut(id).ok_or(NotFound(id))?\<close> followed by the caller's write through the reference\<close>
  "scene_update i f s =
     (case fmlookup (sc_nodes s) i of
        None \<Rightarrow> Inl (SceneError_NotFound i)
      | Some n \<Rightarrow>
          (let s1 = touch_stamp i (record_change (SceneChange_Node i) (clear_derived_caches s))
           in Inr (s1\<lparr>sc_nodes := fmupd i (f n) (sc_nodes s1)\<rparr>)))"

definition drop_world_cache_subtree :: "node_id \<Rightarrow> scene \<Rightarrow> scene" where
  "drop_world_cache_subtree i s =
     (if sc_world_cache s = fmempty then s
      else s\<lparr>sc_world_cache := fold fmdrop (descendants_of s i) (sc_world_cache s)\<rparr>)"

definition invalidate_transform_edit :: "node_id \<Rightarrow> scene \<Rightarrow> scene" where
  "invalidate_transform_edit i s =
     (let s1 = drop_world_cache_subtree i s;
          s2 = (if sc_local_bounds_cache s1 = fmempty then s1
                else s1\<lparr>sc_local_bounds_cache :=
                       fold fmdrop (map cn_id (ancestors_of s1 i)) (sc_local_bounds_cache s1)\<rparr>)
      in s2\<lparr>sc_spatial_built := False\<rparr>)"

definition invalidate_node_edit :: "node_id \<Rightarrow> scene \<Rightarrow> scene" where
  "invalidate_node_edit i s =
     (let s1 = drop_world_cache_subtree i s;
          s2 = (if sc_local_bounds_cache s1 = fmempty then s1
                else s1\<lparr>sc_local_bounds_cache :=
                       fold fmdrop (i # map cn_id (ancestors_of s1 i)) (sc_local_bounds_cache s1)\<rparr>)
      in s2\<lparr>sc_spatial_built := False\<rparr>)"

definition scene_patch_node :: "canvas_node \<Rightarrow> u64 \<Rightarrow> scene \<Rightarrow> scene_error + scene" where
  "scene_patch_node n stamp s =
     (case fmlookup (sc_nodes s) (cn_id n) of
        None \<Rightarrow> Inl (SceneError_NotFound (cn_id n))
      | Some existing \<Rightarrow>
          (if cn_parent existing \<noteq> cn_parent n \<or> cn_index existing \<noteq> cn_index n
           then Inl (SceneError_InvariantViolated ''patch_node: parent or z-index differs from the stored node'')
           else
             (let s1 = s\<lparr>sc_nodes := fmupd (cn_id n) n (sc_nodes s)\<rparr>;
                  s2 = record_change (SceneChange_Node (cn_id n)) (invalidate_node_edit (cn_id n) s1)
              in Inr (s2\<lparr>sc_node_stamps := fmupd (cn_id n) stamp (sc_node_stamps s2)\<rparr>))))"

definition scene_set_transform :: "node_id \<Rightarrow> transform2d \<Rightarrow> scene \<Rightarrow> scene_error + scene" where
  "scene_set_transform i t s =
     (let in_boolean = list_ex is_boolean (ancestors_of s i)
      in (case fmlookup (sc_nodes s) i of
            None \<Rightarrow> Inl (SceneError_NotFound i)
          | Some n \<Rightarrow>
              (let s1 = s\<lparr>sc_nodes := fmupd i (n\<lparr>cn_transform := t\<rparr>) (sc_nodes s)\<rparr>;
                   s2 = record_change (SceneChange_Transform i) (invalidate_transform_edit i s1)
               in Inr (if in_boolean
                       then touch_stamps (map cn_id (filter is_boolean (ancestors_of s2 i)))
                              (touch_stamp i s2)
                       else s2))))"

definition invalidate_world_cache :: "scene \<Rightarrow> scene" where
  "invalidate_world_cache s = record_change SceneChange_Unknown (clear_derived_caches s)"

section \<open>The diagnostic\<close>

definition validate_parents :: "node_map \<Rightarrow> bool" where
  "validate_parents ns = list_all (\<lambda>n. check_parent ns (cn_parent n) = None) (fm_values ns)"

fun validate_walk :: "nat \<Rightarrow> nat \<Rightarrow> node_map \<Rightarrow> node_id \<Rightarrow> nat \<Rightarrow> node_id option \<Rightarrow> bool" where
  \<comment> \<open>the inner loop of step 2: \<open>True\<close> when the walk up from the node ends at a root\<close>
  "validate_walk 0 max_depth ns i depth cursor = False"
| "validate_walk (Suc fuel) max_depth ns i depth cursor =
     (case cursor of
        None \<Rightarrow> True
      | Some p \<Rightarrow>
          (if depth > max_depth then False
           else if p = i then False
           else validate_walk fuel max_depth ns i (Suc depth) (Option.bind (fmlookup ns p) cn_parent)))"

definition validate_acyclic :: "node_map \<Rightarrow> bool" where
  "validate_acyclic ns =
     list_all (\<lambda>n. validate_walk (fcard (fmdom ns) + 3) (fcard (fmdom ns) + 1) ns (cn_id n) 0 (cn_parent n))
       (fm_values ns)"

definition scene_validate :: "scene \<Rightarrow> scene_error + unit" where
  \<comment> \<open>the messages name the step that failed; the source adds the ids of the first node it met\<close>
  "scene_validate s =
     (if \<not> validate_parents (sc_nodes s) then Inl (SceneError_InvariantViolated ''dangling or non-container parent'')
      else if \<not> validate_acyclic (sc_nodes s) then Inl (SceneError_InvariantViolated ''cycle detected'')
      else if fcard (fmdom (derived_child_index (sc_nodes s))) \<noteq> fcard (fmdom (sc_child_index s))
        then Inl (SceneError_InvariantViolated ''child index parent-set differs from storage'')
      else if list_all (\<lambda>n. fmlookup (sc_child_index s) (cn_parent n) = Some (child_list (sc_nodes s) (cn_parent n)))
                (fm_values (sc_nodes s))
        then Inr ()
      else Inl (SceneError_InvariantViolated ''child index mismatch''))"

end
