(* ===== verification/SceneInv.thy ===== *)
theory SceneInv
  imports Scene
begin

text \<open>
  The invariants \<open>crates/fanta-doc/src/scene/mod.rs\<close> states for the scene graph, over the node map
  and the child index of \<open>Scene\<close>, and the two facts every structural edit rests on: putting an
  absent node into the map and its bucket keeps the child index right, and so does taking one out.

  The order of siblings is stated once, in the locale \<open>keyed_order\<close>: a list sorted by an injective
  key is determined by its members, and the insertion position the code computes keeps it sorted.
\<close>

section \<open>Lists sorted by an injective key\<close>

locale keyed_order =
  fixes key :: "'a \<Rightarrow> 'b::linorder"
  assumes key_inj: "key x = key y \<Longrightarrow> x = y"
begin

definition ordered_bucket :: "'a set \<Rightarrow> 'a list \<Rightarrow> bool" where
  "ordered_bucket A b \<longleftrightarrow> sorted (map key b) \<and> distinct b \<and> set b = A"

lemma inj_on_key: "inj_on key A"
  by (rule inj_onI) (rule key_inj)

lemma ordered_bucket_unique:
  assumes "ordered_bucket A b" "ordered_bucket A c"
  shows "b = c"
proof -
  have "map key b = map key c"
    using assms by (intro sorted_distinct_set_unique)
      (auto simp: ordered_bucket_def distinct_map inj_on_key)
  then show ?thesis
    by (rule map_injective) (auto simp: inj_def intro: key_inj)
qed

lemma ordered_bucket_filter:
  "ordered_bucket A b \<Longrightarrow> ordered_bucket {x \<in> A. P x} (filter P b)"
  by (auto simp: ordered_bucket_def sorted_filter)

lemma ordered_bucket_sort:
  "distinct b \<Longrightarrow> ordered_bucket (set b) (sort_key key b)"
  by (simp add: ordered_bucket_def)

lemma takeWhile_split:
  "sorted (map key b) \<Longrightarrow> y \<in> set (dropWhile (\<lambda>x. key x < k) b) \<Longrightarrow> k \<le> key y"
proof (induction b)
  case (Cons a b)
  then show ?case by (cases "key a < k") (auto intro: order_trans)
qed simp

lemma ordered_bucket_insert:
  assumes b: "ordered_bucket A b" and new: "x \<notin> A"
  shows "ordered_bucket (insert x A)
           (vec_insert (length (takeWhile (\<lambda>y. key y < key x) b)) x b)"
proof -
  let ?l = "takeWhile (\<lambda>y. key y < key x) b" and ?r = "dropWhile (\<lambda>y. key y < key x) b"
  have split: "vec_insert (length ?l) x b = ?l @ x # ?r"
    by (metis vec_insert_def takeWhile_eq_take dropWhile_eq_drop)
  have lt: "\<And>y. y \<in> set ?l \<Longrightarrow> key y < key x" by (rule set_takeWhileD[THEN conjunct2])
  have ge: "\<And>y. y \<in> set ?r \<Longrightarrow> key x \<le> key y"
    using b by (intro takeWhile_split) (auto simp: ordered_bucket_def)
  have lr: "sorted (map key (?l @ ?r))" using b by (simp add: ordered_bucket_def)
  have "sorted (map key (?l @ x # ?r))"
    using lr lt ge unfolding map_append sorted_append
    by (auto simp: less_imp_le intro: order_trans)
  moreover have parts: "set b = set ?l \<union> set ?r" "distinct (?l @ x # ?r)"
  proof -
    show "set b = set ?l \<union> set ?r" by (metis set_append takeWhile_dropWhile_id)
    moreover have "distinct (?l @ ?r)" using b by (simp add: ordered_bucket_def)
    ultimately show "distinct (?l @ x # ?r)"
      using b new unfolding distinct_append by (auto simp: ordered_bucket_def)
  qed
  ultimately show ?thesis
    using b unfolding split ordered_bucket_def by (simp add: Un_commute)
qed

end

lemma child_key_inj: "child_key ns x = child_key ns y \<Longrightarrow> x = y"
  by (simp add: child_key_def)

interpretation sib: keyed_order "child_key ns" for ns
  by unfold_locales (rule child_key_inj)

section \<open>The invariants\<close>

definition keys_ok :: "node_map \<Rightarrow> bool" where
  \<comment> \<open>every node is stored under its own id\<close>
  "keys_ok ns \<longleftrightarrow> (\<forall>i n. fmlookup ns i = Some n \<longrightarrow> cn_id n = i)"

definition parents_ok :: "node_map \<Rightarrow> bool" where
  \<comment> \<open>1. every parent exists and is a container\<close>
  "parents_ok ns \<longleftrightarrow>
     (\<forall>i n p. fmlookup ns i = Some n \<longrightarrow> cn_parent n = Some p \<longrightarrow>
        (\<exists>pn. fmlookup ns p = Some pn \<and> can_have_children pn))"

definition parent_of :: "node_map \<Rightarrow> node_id \<Rightarrow> node_id option" where
  "parent_of ns i = Option.bind (fmlookup ns i) cn_parent"

definition parent_edges :: "node_map \<Rightarrow> (node_id \<times> node_id) set" where
  "parent_edges ns = {(p, i). parent_of ns i = Some p}"

definition forest_ok :: "node_map \<Rightarrow> bool" where
  \<comment> \<open>2. the parent relation has no cycle\<close>
  "forest_ok ns \<longleftrightarrow> acyclic (parent_edges ns)"

definition child_set :: "node_map \<Rightarrow> node_id option \<Rightarrow> node_id set" where
  "child_set ns p = {i. \<exists>n. fmlookup ns i = Some n \<and> cn_parent n = p}"

definition index_agrees :: "node_map \<Rightarrow> child_map \<Rightarrow> bool" where
  \<comment> \<open>3. every bucket lists exactly the children in sibling order, and no bucket is empty\<close>
  "index_agrees ns ci \<longleftrightarrow>
     (\<forall>p. sib.ordered_bucket ns (child_set ns p) (children_in ci p) \<and> fmlookup ci p \<noteq> Some [])"

definition scene_inv :: "scene \<Rightarrow> bool" where
  "scene_inv s \<longleftrightarrow>
     keys_ok (sc_nodes s) \<and> parents_ok (sc_nodes s) \<and> forest_ok (sc_nodes s) \<and>
     index_agrees (sc_nodes s) (sc_child_index s)"

lemma scene_invD:
  assumes "scene_inv s"
  shows "keys_ok (sc_nodes s)" "parents_ok (sc_nodes s)" "forest_ok (sc_nodes s)"
    "index_agrees (sc_nodes s) (sc_child_index s)"
  using assms by (simp_all add: scene_inv_def)

lemma keys_okD: "keys_ok ns \<Longrightarrow> fmlookup ns i = Some n \<Longrightarrow> cn_id n = i"
  by (simp add: keys_ok_def)

lemma parents_okE:
  assumes "parents_ok ns" "fmlookup ns i = Some n" "cn_parent n = Some p"
  obtains pn where "fmlookup ns p = Some pn" "can_have_children pn"
  using assms unfolding parents_ok_def by blast

lemma children_set:
  "index_agrees ns ci \<Longrightarrow> set (children_in ci p) = child_set ns p"
  by (simp add: index_agrees_def sib.ordered_bucket_def)

lemma children_distinct: "index_agrees ns ci \<Longrightarrow> distinct (children_in ci p)"
  by (simp add: index_agrees_def sib.ordered_bucket_def)

lemma child_set_Some: "i \<in> child_set ns (Some p) \<longleftrightarrow> parent_of ns i = Some p"
  by (auto simp: child_set_def parent_of_def bind_eq_Some_conv)

lemma child_set_edge: "i \<in> child_set ns (Some p) \<longleftrightarrow> (p, i) \<in> parent_edges ns"
  by (simp add: child_set_Some parent_edges_def)

lemma child_set_present: "i \<in> child_set ns p \<Longrightarrow> fmlookup ns i \<noteq> None"
  by (auto simp: child_set_def)

section \<open>Bucket updates keep the child index\<close>

lemma child_key_fmupd_other: "j \<noteq> i \<Longrightarrow> child_key (fmupd i n ns) j = child_key ns j"
  by (simp add: child_key_def)

lemma child_key_fmdrop_other: "j \<noteq> i \<Longrightarrow> child_key (fmdrop i ns) j = child_key ns j"
  by (simp add: child_key_def)

lemma ordered_bucket_cong:
  "(\<And>x. x \<in> A \<Longrightarrow> child_key ns x = child_key ms x) \<Longrightarrow>
     sib.ordered_bucket ns A b = sib.ordered_bucket ms A b"
proof -
  assume eq: "\<And>x. x \<in> A \<Longrightarrow> child_key ns x = child_key ms x"
  have "set b = A \<Longrightarrow> map (child_key ns) b = map (child_key ms) b" using eq by auto
  then show ?thesis unfolding sib.ordered_bucket_def by metis
qed

lemma child_set_fmdrop:
  "child_set (fmdrop i ns) p = {j \<in> child_set ns p. j \<noteq> i}"
  by (auto simp: child_set_def)

lemma child_set_fmupd:
  "child_set (fmupd i n ns) p =
     (if cn_parent n = p then insert i (child_set ns p) else {j \<in> child_set ns p. j \<noteq> i})"
  by (auto simp: child_set_def)

lemma children_bucket_insert:
  "children_in (bucket_insert ns p i ci) q =
     (if q = p then vec_insert (length (takeWhile (\<lambda>x. child_key ns x < child_key ns i) (children_in ci p))) i
                      (children_in ci p)
      else children_in ci q)"
  by (simp add: bucket_insert_def children_in_def Let_def)

lemma remove_position_filter:
  "distinct b \<Longrightarrow>
     (case list_position (\<lambda>x. x = i) b of None \<Rightarrow> b | Some pos \<Rightarrow> vec_remove pos b) =
     filter (\<lambda>x. x \<noteq> i) b"
proof (cases "list_position (\<lambda>x. x = i) b")
  case None
  then have "filter (\<lambda>x. x \<noteq> i) b = b" by (simp add: filter_id_conv)
  then show ?thesis unfolding None by simp
qed (simp add: vec_remove_position)

lemma bucket_remove_lookup:
  assumes "distinct (children_in ci p)"
  shows "fmlookup (bucket_remove p i ci) q =
    (if q = p then
       (if filter (\<lambda>x. x \<noteq> i) (children_in ci p) = [] \<and> fmlookup ci p \<noteq> None then None
        else map_option (filter (\<lambda>x. x \<noteq> i)) (fmlookup ci p))
     else fmlookup ci q)"
proof (cases "fmlookup ci p")
  case None
  then show ?thesis by (simp add: bucket_remove_def)
next
  case (Some b)
  with assms have "distinct b" by (simp add: children_in_def)
  with Some show ?thesis
    by (simp add: bucket_remove_def remove_position_filter children_in_def Let_def)
qed

lemma children_bucket_remove:
  "distinct (children_in ci p) \<Longrightarrow>
     children_in (bucket_remove p i ci) q =
       (if q = p then filter (\<lambda>x. x \<noteq> i) (children_in ci p) else children_in ci q)"
  by (auto simp: children_in_def bucket_remove_lookup split: option.splits)

lemma index_agrees_insert:
  assumes agree: "index_agrees ns ci" and new: "fmlookup ns i = None"
  shows "index_agrees (fmupd i n ns) (bucket_insert (fmupd i n ns) (cn_parent n) i ci)"
  unfolding index_agrees_def
proof (intro allI conjI)
  fix q
  let ?ns = "fmupd i n ns" and ?ci = "bucket_insert (fmupd i n ns) (cn_parent n) i ci"
  have absent: "\<And>p. i \<notin> child_set ns p" using new by (auto simp: child_set_def)
  have old: "sib.ordered_bucket ?ns (child_set ns p) (children_in ci p)" for p
  proof -
    have "sib.ordered_bucket ns (child_set ns p) (children_in ci p)"
      using agree by (simp add: index_agrees_def)
    then show ?thesis
      by (subst ordered_bucket_cong[of _ _ ns]) (use absent in \<open>auto intro: child_key_fmupd_other\<close>)
  qed
  show "sib.ordered_bucket ?ns (child_set ?ns q) (children_in ?ci q)"
  proof (cases "q = cn_parent n")
    case True
    have "sib.ordered_bucket ?ns (insert i (child_set ns q))
        (vec_insert (length (takeWhile (\<lambda>x. child_key ?ns x < child_key ?ns i) (children_in ci q))) i
          (children_in ci q))"
      using old absent by (rule sib.ordered_bucket_insert)
    with True show ?thesis by (simp add: children_bucket_insert child_set_fmupd)
  next
    case False
    moreover from False absent have "child_set ?ns q = child_set ns q"
      by (auto simp: child_set_fmupd)
    ultimately show ?thesis using old by (simp add: children_bucket_insert)
  qed
  show "fmlookup ?ci q \<noteq> Some []"
    using agree by (simp add: index_agrees_def bucket_insert_def vec_insert_def Let_def)
qed

lemma index_agrees_remove:
  assumes agree: "index_agrees ns ci" and old: "fmlookup ns i = Some n"
  shows "index_agrees (fmdrop i ns) (bucket_remove (cn_parent n) i ci)"
  unfolding index_agrees_def
proof (intro allI conjI)
  fix q
  let ?ns = "fmdrop i ns" and ?ci = "bucket_remove (cn_parent n) i ci"
  have dist: "distinct (children_in ci p)" for p using agree by (rule children_distinct)
  have kept: "sib.ordered_bucket ?ns (child_set ?ns p) (filter (\<lambda>x. x \<noteq> i) (children_in ci p))" for p
  proof -
    have "sib.ordered_bucket ns {j \<in> child_set ns p. j \<noteq> i} (filter (\<lambda>x. x \<noteq> i) (children_in ci p))"
      using agree by (intro sib.ordered_bucket_filter) (simp add: index_agrees_def)
    then show ?thesis unfolding child_set_fmdrop
      by (subst ordered_bucket_cong[of _ _ ns]) (auto intro: child_key_fmdrop_other)
  qed
  have other: "filter (\<lambda>x. x \<noteq> i) (children_in ci q) = children_in ci q" if "q \<noteq> cn_parent n"
  proof -
    have "i \<notin> child_set ns q" using that old by (auto simp: child_set_def)
    then show ?thesis using children_set[OF agree] by (auto simp: filter_id_conv)
  qed
  show "sib.ordered_bucket ?ns (child_set ?ns q) (children_in ?ci q)"
    using kept[of q] other dist by (cases "q = cn_parent n") (simp_all add: children_bucket_remove)
  show "fmlookup ?ci q \<noteq> Some []"
    using agree dist by (auto simp: index_agrees_def bucket_remove_lookup children_in_def split: option.splits)
qed

lemma index_agrees_replace:
  assumes agree: "index_agrees ns ci" and old: "fmlookup ns i = Some n"
    and same: "cn_parent m = cn_parent n" "cn_index m = cn_index n"
  shows "index_agrees (fmupd i m ns) ci"
proof -
  have "child_key (fmupd i m ns) j = child_key ns j" for j
    using old same by (cases "j = i") (simp_all add: child_key_def)
  then have keys: "child_key (fmupd i m ns) = child_key ns" by (rule ext)
  have "child_set (fmupd i m ns) p = child_set ns p" for p
    using old same by (auto simp: child_set_def)
  with agree show ?thesis by (simp add: index_agrees_def sib.ordered_bucket_def keys)
qed

lemma index_agrees_move:
  assumes agree: "index_agrees ns ci" and old: "fmlookup ns i = Some n"
  shows "index_agrees (fmupd i m ns) (bucket_insert (fmupd i m ns) (cn_parent m) i (bucket_remove (cn_parent n) i ci))"
proof -
  have "fmupd i m (fmdrop i ns) = fmupd i m ns" by (rule fmap_ext) simp
  with index_agrees_insert[OF index_agrees_remove[OF agree old], of i m] show ?thesis by simp
qed

lemma index_agrees_unique:
  assumes "index_agrees ns a" "index_agrees ns b"
  shows "a = b"
proof (rule fmap_ext)
  fix p
  have "children_in a p = children_in b p"
    using assms by (auto simp: index_agrees_def intro: sib.ordered_bucket_unique)
  with assms show "fmlookup a p = fmlookup b p"
    by (auto simp: index_agrees_def children_in_def split: option.splits)
qed

section \<open>The derived child index\<close>

lemma child_list_bucket:
  assumes "keys_ok ns"
  shows "sib.ordered_bucket ns (child_set ns p) (child_list ns p)"
proof -
  have ids: "map cn_id (fm_values ns) = fm_keys ns"
    using assms by (auto simp: fm_values_def keys_ok_def fmlookup_dom'_iff intro!: map_idI)
  have eq: "map cn_id (filter (\<lambda>n. cn_parent n = p) (fm_values ns)) =
            filter (\<lambda>i. cn_parent (the (fmlookup ns i)) = p) (fm_keys ns)"
  proof -
    have "map cn_id (filter (\<lambda>n. cn_parent n = p) (fm_values ns)) =
          map (cn_id \<circ> (\<lambda>k. the (fmlookup ns k))) (filter (\<lambda>i. cn_parent (the (fmlookup ns i)) = p) (fm_keys ns))"
      by (simp add: fm_values_def filter_map comp_def)
    also have "\<dots> = filter (\<lambda>i. cn_parent (the (fmlookup ns i)) = p) (fm_keys ns)"
      using assms by (auto simp: keys_ok_def fmlookup_dom'_iff intro!: map_idI)
    finally show ?thesis .
  qed
  have set: "set (filter (\<lambda>i. cn_parent (the (fmlookup ns i)) = p) (fm_keys ns)) = child_set ns p"
    by (auto simp: child_set_def fmlookup_dom'_iff)
  show ?thesis unfolding child_list_def sort_children_def eq
    by (metis sib.ordered_bucket_sort distinct_filter fm_keys_distinct set)
qed

lemma child_list_set: "keys_ok ns \<Longrightarrow> set (child_list ns p) = child_set ns p"
  using child_list_bucket by (simp add: sib.ordered_bucket_def)

lemma fmlookup_map_pairs:
  "fmlookup (fmap_of_list (map (\<lambda>p. (p, f p)) ps)) q = (if q \<in> set ps then Some (f q) else None)"
  by (induction ps) (auto simp: fmap_of_list.rep_eq)

lemma derived_lookup:
  "fmlookup (derived_child_index ns) p =
     (if child_set ns p = {} then None else Some (child_list ns p))"
proof -
  have "p \<in> set (map cn_parent (fm_values ns)) \<longleftrightarrow> child_set ns p \<noteq> {}"
    by (auto simp: child_set_def fm_values_set[of _ ns] image_iff Bex_def)
  then show ?thesis by (simp only: derived_child_index_def fmlookup_map_pairs) simp
qed

lemma index_agrees_derived:
  assumes "keys_ok ns"
  shows "index_agrees ns (derived_child_index ns)"
proof -
  have "children_in (derived_child_index ns) p = child_list ns p" for p
    using child_list_set[OF assms, of p] by (auto simp: children_in_def derived_lookup)
  moreover have "fmlookup (derived_child_index ns) p \<noteq> Some []" for p
    using child_list_set[OF assms, of p] by (auto simp: derived_lookup)
  ultimately show ?thesis using child_list_bucket[OF assms] by (simp add: index_agrees_def)
qed

lemma index_agrees_iff_derived:
  "keys_ok ns \<Longrightarrow> index_agrees ns ci \<longleftrightarrow> ci = derived_child_index ns"
  using index_agrees_unique index_agrees_derived by blast

end
