(* ===== verification/SceneTree.thy ===== *)
theory SceneTree
  imports SceneInv
begin

text \<open>
  The walks of \<open>scene/graph.rs\<close> on scenes that meet the invariant. Going up is stated once for any
  finite parent function, in the locale \<open>finite_parents\<close>: on an acyclic one, one step more than
  there are nodes with a parent visits every ancestor. Going down, the stack walk of
  \<open>Descendants\<close> visits exactly the subtree, each node once, parents before children, within the
  fuel of the model.
\<close>

section \<open>Walking up\<close>

locale finite_parents =
  fixes par :: "'n \<Rightarrow> 'n option"
  assumes finite_par: "finite {i. par i \<noteq> None}"
begin

definition edges :: "('n \<times> 'n) set" where
  "edges = {(p, i). par i = Some p}"

fun up :: "nat \<Rightarrow> 'n option \<Rightarrow> 'n list" where
  "up 0 c = []"
| "up (Suc n) c = (case c of None \<Rightarrow> [] | Some i \<Rightarrow> i # up n (par i))"

lemma up_None [simp]: "up n None = []"
  by (cases n) simp_all

lemma take_up: "n \<le> k \<Longrightarrow> take n (up k c) = up n c"
proof (induction n arbitrary: k c)
  case (Suc n)
  then obtain j where "k = Suc j" "n \<le> j" by (cases k) auto
  with Suc.IH[of j] show ?case by (cases c) simp_all
qed simp

lemma edge_iff: "(p, i) \<in> edges \<longleftrightarrow> par i = Some p"
  by (simp add: edges_def)

lemma up_reaches: "a \<in> set (up n (Some i)) \<Longrightarrow> (a, i) \<in> edges\<^sup>*"
proof (induction n arbitrary: i)
  case (Suc n)
  show ?case
  proof (cases "a = i")
    case False
    with Suc.prems obtain p where "par i = Some p" "a \<in> set (up n (Some p))"
      by (cases "par i") auto
    with Suc.IH show ?thesis by (meson edge_iff rtrancl.rtrancl_into_rtrancl)
  qed simp
qed simp

lemma reaches_up: "(a, i) \<in> edges\<^sup>* \<Longrightarrow> \<exists>n. a \<in> set (up n (Some i))"
proof (induction rule: rtrancl_induct)
  case base
  have "a \<in> set (up (Suc 0) (Some a))" by simp
  then show ?case by blast
next
  case (step y z)
  then obtain n where "a \<in> set (up n (Some y))" by blast
  moreover from step have "par z = Some y" by (simp add: edge_iff)
  ultimately have "a \<in> set (up (Suc n) (Some z))" by simp
  then show ?case by blast
qed

lemma up_distinct: "acyclic edges \<Longrightarrow> distinct (up n (Some i))"
proof (induction n arbitrary: i)
  case (Suc n)
  have "i \<notin> set (up n (par i))"
  proof
    assume mem: "i \<in> set (up n (par i))"
    then obtain p where p: "par i = Some p" by (cases "par i") auto
    with mem have "(i, p) \<in> edges\<^sup>*" using up_reaches by simp
    with p have "(i, i) \<in> edges\<^sup>+" by (meson edge_iff rtrancl_into_trancl1)
    with Suc.prems show False by (simp add: acyclic_def)
  qed
  with Suc show ?case by (cases "par i") simp_all
qed simp

lemma up_butlast: "set (butlast (up n (Some i))) \<subseteq> {i. par i \<noteq> None}"
proof (induction n arbitrary: i)
  case (Suc n)
  then show ?case by (cases "par i") auto
qed simp

lemma up_length:
  assumes "acyclic edges"
  shows "length (up n (Some i)) \<le> Suc (card {i. par i \<noteq> None})"
proof -
  have "length (butlast (up n (Some i))) = card (set (butlast (up n (Some i))))"
    using up_distinct[OF assms] by (metis distinct_butlast distinct_card)
  also have "\<dots> \<le> card {i. par i \<noteq> None}"
    using finite_par up_butlast by (rule card_mono)
  finally show ?thesis by simp
qed

lemma up_enough:
  assumes ac: "acyclic edges" and n: "Suc (card {i. par i \<noteq> None}) \<le> n"
  shows "set (up n (Some i)) = {a. (a, i) \<in> edges\<^sup>*}"
proof (intro set_eqI iffI; clarsimp)
  fix a assume "(a, i) \<in> edges\<^sup>*"
  then obtain k where k: "a \<in> set (up k (Some i))" using reaches_up by blast
  have "up k (Some i) = up (min k n) (Some i)"
    using up_length[OF ac, of k i] n take_up[of n k "Some i"] by (cases "k \<le> n") (auto simp: min_def)
  with k have "a \<in> set (take (min k n) (up n (Some i)))" by (simp add: take_up)
  then show "a \<in> set (up n (Some i))" by (rule in_set_takeD)
qed (rule up_reaches)

lemma up_stable:
  assumes ac: "acyclic edges" and n: "Suc (card {i. par i \<noteq> None}) \<le> n"
  shows "up (n + k) c = up n c"
proof (cases c)
  case (Some i)
  with up_length[OF ac, of "n + k" i] n take_up[of n "n + k" c] show ?thesis by simp
qed simp

end

lemma finite_parent_of: "finite {i. parent_of ns i \<noteq> None}"
proof (rule finite_subset)
  show "{i. parent_of ns i \<noteq> None} \<subseteq> fmdom' ns"
    by (auto simp: parent_of_def bind_eq_Some_conv intro: fmdom'I)
qed simp

interpretation anc: finite_parents "parent_of ns" for ns
  by unfold_locales (rule finite_parent_of)

lemma anc_edges [simp]: "anc.edges ns = parent_edges ns"
  by (simp add: anc.edges_def parent_edges_def)

lemma parents_card: "Suc (card {i. parent_of ns i \<noteq> None}) \<le> walk_fuel ns"
proof -
  have "{i. parent_of ns i \<noteq> None} \<subseteq> fset (fmdom ns)"
    by (auto simp: parent_of_def bind_eq_Some_conv intro: fmdomI)
  then have "card {i. parent_of ns i \<noteq> None} \<le> card (fset (fmdom ns))"
    by (intro card_mono) simp_all
  then show ?thesis by (simp add: walk_fuel_def fcard.rep_eq)
qed

lemma anc_enough:
  "forest_ok ns \<Longrightarrow> walk_fuel ns \<le> n \<Longrightarrow> set (anc.up ns n (Some i)) = {a. (a, i) \<in> (parent_edges ns)\<^sup>*}"
  using anc.up_enough[of ns n i] parents_card[of ns] by (simp add: forest_ok_def)

lemma chain_hits_up: "chain_hits n ns i c \<longleftrightarrow> i \<in> set (anc.up ns n c)"
  by (induction n arbitrary: c) (auto simp: parent_of_def[symmetric] split: option.splits)

lemma chain_hits_iff:
  "forest_ok ns \<Longrightarrow> chain_hits (walk_fuel ns) ns i (Some c) \<longleftrightarrow> (i, c) \<in> (parent_edges ns)\<^sup>*"
  by (simp add: chain_hits_up anc_enough)

lemma ancestors_from_up:
  assumes "parents_ok ns" "\<forall>i. c = Some i \<longrightarrow> fmlookup ns i \<noteq> None"
  shows "ancestors_from n ns c = map (\<lambda>i. the (fmlookup ns i)) (anc.up ns n c)"
  using assms(2)
proof (induction n arbitrary: c)
  case (Suc n)
  show ?case
  proof (cases c)
    case (Some i)
    with Suc.prems obtain m where m: "fmlookup ns i = Some m" by auto
    have "\<forall>p. cn_parent m = Some p \<longrightarrow> fmlookup ns p \<noteq> None"
      using parents_okE[OF assms(1) m] by (metis option.simps(3))
    moreover have "parent_of ns i = cn_parent m" using m by (simp add: parent_of_def)
    ultimately show ?thesis using Suc.IH[of "cn_parent m"] Some m by simp
  qed simp
qed simp

lemma bind_parent_present:
  "parents_ok ns \<Longrightarrow> \<forall>p. parent_of ns i = Some p \<longrightarrow> fmlookup ns p \<noteq> None"
  unfolding parent_of_def bind_eq_Some_conv by (metis parents_ok_def option.distinct(1))

lemma proper_ancestors:
  "forest_ok ns \<Longrightarrow> set (anc.up ns (walk_fuel ns) (parent_of ns i)) = {a. (a, i) \<in> (parent_edges ns)\<^sup>+}"
proof (cases "parent_of ns i")
  case None
  then have "\<And>a. (a, i) \<notin> parent_edges ns" by (simp add: parent_edges_def)
  then have "\<And>a. (a, i) \<notin> (parent_edges ns)\<^sup>+" by (meson tranclD2)
  with None show ?thesis by simp
next
  case (Some p)
  assume f: "forest_ok ns"
  have "(a, i) \<in> (parent_edges ns)\<^sup>+ \<longleftrightarrow> (a, p) \<in> (parent_edges ns)\<^sup>*" for a
  proof
    assume "(a, i) \<in> (parent_edges ns)\<^sup>+"
    then obtain q where "(a, q) \<in> (parent_edges ns)\<^sup>*" "(q, i) \<in> parent_edges ns" by (meson tranclD2)
    with Some show "(a, p) \<in> (parent_edges ns)\<^sup>*" by (simp add: parent_edges_def)
  next
    assume "(a, p) \<in> (parent_edges ns)\<^sup>*"
    moreover from Some have "(p, i) \<in> parent_edges ns" by (simp add: parent_edges_def)
    ultimately show "(a, i) \<in> (parent_edges ns)\<^sup>+" by (rule rtrancl_into_trancl1)
  qed
  with Some f show ?thesis by (simp add: anc_enough)
qed

lemma ancestors_of_set:
  assumes inv: "scene_inv s"
  shows "map cn_id (ancestors_of s i) = anc.up (sc_nodes s) (walk_fuel (sc_nodes s)) (parent_of (sc_nodes s) i)"
proof -
  let ?ns = "sc_nodes s"
  have "set (anc.up ?ns n c) \<subseteq> {j. fmlookup ?ns j \<noteq> None}"
    if "\<forall>j. c = Some j \<longrightarrow> fmlookup ?ns j \<noteq> None" for n c
    using that
  proof (induction n arbitrary: c)
    case (Suc n)
    then show ?case using bind_parent_present[OF scene_invD(2)[OF inv]] by (cases c) auto
  qed simp
  from this[OF bind_parent_present[OF scene_invD(2)[OF inv]]]
  have "\<And>j n. j \<in> set (anc.up ?ns n (parent_of ?ns i)) \<Longrightarrow> cn_id (the (fmlookup ?ns j)) = j"
    using keys_okD[OF scene_invD(1)[OF inv]] by fastforce
  moreover have "ancestors_of s i =
      map (\<lambda>j. the (fmlookup ?ns j)) (anc.up ?ns (walk_fuel ?ns) (parent_of ?ns i))"
    unfolding ancestors_of_def using ancestors_from_up[OF scene_invD(2)[OF inv] bind_parent_present[OF scene_invD(2)[OF inv], of i]]
    by (simp add: parent_of_def[symmetric])
  ultimately show ?thesis by (simp add: map_idI)
qed

section \<open>Walking down\<close>

definition below :: "node_map \<Rightarrow> node_id \<Rightarrow> node_id set" where
  "below ns i = {d. (i, d) \<in> (parent_edges ns)\<^sup>*}"

definition apart :: "node_map \<Rightarrow> node_id list \<Rightarrow> bool" where
  \<comment> \<open>no node of the stack lies below another\<close>
  "apart ns st \<longleftrightarrow> distinct st \<and> (\<forall>x \<in> set st. \<forall>y \<in> set st. (x, y) \<in> (parent_edges ns)\<^sup>* \<longrightarrow> x = y)"

lemma parent_edge_unique: "(p, i) \<in> parent_edges ns \<Longrightarrow> (q, i) \<in> parent_edges ns \<Longrightarrow> p = q"
  by (simp add: parent_edges_def)

lemma parent_edge_reach:
  assumes "(p, i) \<in> parent_edges ns" "(x, i) \<in> (parent_edges ns)\<^sup>*" "x \<noteq> i"
  shows "(x, p) \<in> (parent_edges ns)\<^sup>*"
  using assms parent_edge_unique by (metis rtranclE)

lemma below_unfold:
  "below ns i = insert i (\<Union>c \<in> child_set ns (Some i). below ns c)"
  unfolding below_def child_set_edge[abs_def]
  by (auto simp: child_set_edge elim: converse_rtranclE intro: converse_rtrancl_into_rtrancl)

lemma forest_irrefl: "forest_ok ns \<Longrightarrow> (p, i) \<in> parent_edges ns \<Longrightarrow> (i, p) \<notin> (parent_edges ns)\<^sup>*"
  unfolding forest_ok_def acyclic_def by (meson rtrancl_into_trancl1)

lemma apart_step:
  assumes f: "forest_ok ns" and ag: "index_agrees ns ci" and st: "apart ns (i # st)"
  shows "apart ns (children_in ci (Some i) @ st)"
    and "i \<notin> (\<Union>x \<in> set (children_in ci (Some i) @ st). below ns x)"
proof -
  let ?E = "parent_edges ns"
  have ch: "\<And>c. c \<in> set (children_in ci (Some i)) \<longleftrightarrow> (i, c) \<in> ?E"
    by (simp add: children_set[OF ag] child_set_edge)
  have st_i: "\<And>x. x \<in> set st \<Longrightarrow> (i, x) \<notin> ?E\<^sup>* \<and> (x, i) \<notin> ?E\<^sup>*"
    using st by (auto simp: apart_def)
  have cx: "(c, x) \<notin> ?E\<^sup>*" "(x, c) \<notin> ?E\<^sup>*" "c \<noteq> x" if "(i, c) \<in> ?E" "x \<in> set st" for c x
    using that st_i[OF that(2)] parent_edge_reach[OF that(1), of x]
    by (auto intro: converse_rtrancl_into_rtrancl)
  have cc: "c = d" if "(i, c) \<in> ?E" "(i, d) \<in> ?E" "(c, d) \<in> ?E\<^sup>*" for c d
    using that parent_edge_reach[OF that(2,3)] forest_irrefl[OF f that(1)] by blast
  show "apart ns (children_in ci (Some i) @ st)"
    unfolding apart_def set_append Un_iff ch distinct_append
    using st cx cc children_distinct[OF ag, of "Some i"] by (auto simp: apart_def ch) blast+
  show "i \<notin> (\<Union>x \<in> set (children_in ci (Some i) @ st). below ns x)"
    using st_i forest_irrefl[OF f] ch by (auto simp: below_def)
qed

lemma below_step:
  "index_agrees ns ci \<Longrightarrow>
     (\<Union>x \<in> set (i # st). below ns x) = insert i (\<Union>x \<in> set (children_in ci (Some i) @ st). below ns x)"
  using below_unfold[of ns i] by (auto simp: children_set)

lemma descend_exact:
  assumes "forest_ok ns" "index_agrees ns ci"
  shows "apart ns st \<Longrightarrow> finite (\<Union>x \<in> set st. below ns x) \<Longrightarrow> card (\<Union>x \<in> set st. below ns x) \<le> n \<Longrightarrow>
     set (descend n ci st) = (\<Union>x \<in> set st. below ns x) \<and> distinct (descend n ci st)"
proof (induction n arbitrary: st)
  case 0
  then have "(\<Union>x \<in> set st. below ns x) = {}" by (metis card_eq_0_iff le_zero_eq)
  then show ?case by simp
next
  case (Suc n)
  show ?case
  proof (cases st)
    case (Cons i st')
    let ?st = "children_in ci (Some i) @ st'"
    note step = apart_step[OF assms, of i st'] and sets = below_step[OF assms(2), of i st']
    have fin: "finite (\<Union>x \<in> set ?st. below ns x)"
      using Suc.prems(2) unfolding Cons sets by simp
    have "card (\<Union>x \<in> set ?st. below ns x) \<le> n"
      using Suc.prems(1,3) fin step(2) unfolding Cons sets by simp
    with Suc.IH[OF _ fin] Suc.prems(1) step
    have "set (descend n ci ?st) = (\<Union>x \<in> set ?st. below ns x) \<and> distinct (descend n ci ?st)"
      by (simp add: Cons)
    with Suc.prems(1) step(2) sets show ?thesis by (simp add: Cons)
  qed simp
qed

lemma below_present:
  assumes "d \<in> below ns i" "d \<noteq> i"
  shows "fmlookup ns d \<noteq> None"
  using assms unfolding below_def mem_Collect_eq
  by (metis (no_types, lifting) child_set_edge child_set_present rtranclE)

lemma below_finite [simp]: "finite (below ns i)"
  and below_card: "card (below ns i) \<le> walk_fuel ns"
proof -
  have sub: "below ns i \<subseteq> insert i (fset (fmdom ns))"
    using below_present by (fastforce intro: fmdomI)
  then show "finite (below ns i)" by (rule finite_subset) simp
  have "card (below ns i) \<le> card (insert i (fset (fmdom ns)))" using sub by (intro card_mono) simp_all
  then show "card (below ns i) \<le> walk_fuel ns"
    by (simp add: walk_fuel_def fcard.rep_eq card_insert_if split: if_splits)
qed

lemma apart_single: "apart ns [i]"
  by (simp add: apart_def)

lemma descendants_exact:
  assumes "scene_inv s"
  shows "set (descendants_of s i) = below (sc_nodes s) i" "distinct (descendants_of s i)"
  using descend_exact[OF scene_invD(3,4)[OF assms] apart_single, of i "walk_fuel (sc_nodes s)"] below_card
  by (simp_all add: descendants_of_def)

lemma descendants_head: "descendants_of s i = i # tl (descendants_of s i)"
  by (simp add: descendants_of_def walk_fuel_def)

subsection \<open>Pre-order\<close>

lemma descend_fuel: "length (descend n ci st) < n \<Longrightarrow> descend (n + k) ci st = descend n ci st"
proof (induction n arbitrary: st)
  case (Suc n)
  then show ?case by (cases st) simp_all
qed simp

lemma descend_append:
  "length (descend n ci xs) < n \<Longrightarrow>
     descend n ci (xs @ ys) = descend n ci xs @ descend (n - length (descend n ci xs)) ci ys"
proof (induction n arbitrary: xs)
  case (Suc n)
  show ?case
  proof (cases xs)
    case (Cons i xs')
    with Suc.prems have "length (descend n ci (children_in ci (Some i) @ xs')) < n" by simp
    from Suc.IH[OF this] Cons show ?thesis by simp
  qed simp
qed simp

end
