(* ===== verification/SceneEdit.thy ===== *)
theory SceneEdit
  imports SceneTree
begin

text \<open>
  What each mutator of \<open>scene/graph.rs\<close> does to the node map and the child index, and that every one
  of them keeps the invariant. The frame lemmas say which of the two fields the bookkeeping steps
  (caches, revision, log, stamps) leave alone: both.
\<close>

section \<open>Frames\<close>

lemma touch_stamp_frame [frame_simps]:
  "sc_nodes (touch_stamp i s) = sc_nodes s"
  "sc_child_index (touch_stamp i s) = sc_child_index s"
  "sc_world_cache (touch_stamp i s) = sc_world_cache s"
  "sc_revision (touch_stamp i s) = sc_revision s"
  "sc_change_log (touch_stamp i s) = sc_change_log s"
  by (simp_all add: touch_stamp_def next_geometry_stamp_def)

lemma touch_stamps_frame [frame_simps]:
  "sc_nodes (touch_stamps is s) = sc_nodes s"
  "sc_child_index (touch_stamps is s) = sc_child_index s"
  "sc_world_cache (touch_stamps is s) = sc_world_cache s"
  "sc_revision (touch_stamps is s) = sc_revision s"
  "sc_change_log (touch_stamps is s) = sc_change_log s"
  unfolding touch_stamps_def
  by (induction "is" arbitrary: s; simp add: frame_simps)+

lemma touch_if_present_frame [frame_simps]:
  "sc_nodes (touch_if_present p s) = sc_nodes s"
  "sc_child_index (touch_if_present p s) = sc_child_index s"
  "sc_world_cache (touch_if_present p s) = sc_world_cache s"
  "sc_revision (touch_if_present p s) = sc_revision s"
  "sc_change_log (touch_if_present p s) = sc_change_log s"
  by (simp_all add: touch_if_present_def frame_simps split: option.splits)

lemma record_change_frame [frame_simps]:
  "sc_nodes (record_change c s) = sc_nodes s"
  "sc_child_index (record_change c s) = sc_child_index s"
  "sc_world_cache (record_change c s) = sc_world_cache s"
  by (simp_all add: record_change_def Let_def)

lemma clear_derived_caches_frame [frame_simps]:
  "sc_nodes (clear_derived_caches s) = sc_nodes s"
  "sc_child_index (clear_derived_caches s) = sc_child_index s"
  "sc_world_cache (clear_derived_caches s) = fmempty"
  "sc_revision (clear_derived_caches s) = sc_revision s"
  "sc_change_log (clear_derived_caches s) = sc_change_log s"
  by (simp_all add: clear_derived_caches_def)

lemma drop_world_cache_frame [frame_simps]:
  "sc_nodes (drop_world_cache_subtree i s) = sc_nodes s"
  "sc_child_index (drop_world_cache_subtree i s) = sc_child_index s"
  by (simp_all add: drop_world_cache_subtree_def)

lemma invalidate_node_edit_frame [frame_simps]:
  "sc_nodes (invalidate_node_edit i s) = sc_nodes s"
  "sc_child_index (invalidate_node_edit i s) = sc_child_index s"
  by (simp_all add: invalidate_node_edit_def frame_simps Let_def)

lemma invalidate_transform_edit_frame [frame_simps]:
  "sc_nodes (invalidate_transform_edit i s) = sc_nodes s"
  "sc_child_index (invalidate_transform_edit i s) = sc_child_index s"
  by (simp_all add: invalidate_transform_edit_def frame_simps Let_def)

lemma child_index_insert_frame [frame_simps]:
  "sc_nodes (child_index_insert p i s) = sc_nodes s"
  "sc_child_index (child_index_insert p i s) = bucket_insert (sc_nodes s) p i (sc_child_index s)"
  by (simp_all add: child_index_insert_def)

lemma child_index_remove_frame [frame_simps]:
  "sc_nodes (child_index_remove p i s) = sc_nodes s"
  "sc_child_index (child_index_remove p i s) = bucket_remove p i (sc_child_index s)"
  by (simp_all add: child_index_remove_def)

section \<open>The node map under single edits\<close>

lemma check_parent_None:
  "check_parent ns parent = None \<longleftrightarrow>
     (\<forall>p. parent = Some p \<longrightarrow> (\<exists>pn. fmlookup ns p = Some pn \<and> can_have_children pn))"
  by (auto simp: check_parent_def split: option.splits)

lemma parent_of_fmupd:
  "parent_of (fmupd i n ns) j = (if j = i then cn_parent n else parent_of ns j)"
  by (simp add: parent_of_def)

lemma edges_fmupd:
  "parent_edges (fmupd i n ns) =
     {(p, j) \<in> parent_edges ns. j \<noteq> i} \<union> {(p, j). j = i \<and> cn_parent n = Some p}"
  by (auto simp: parent_edges_def parent_of_fmupd split: if_splits)

lemma keys_ok_fmupd: "keys_ok ns \<Longrightarrow> cn_id n = i \<Longrightarrow> keys_ok (fmupd i n ns)"
  by (simp add: keys_ok_def)

lemma keys_ok_fmfilter: "keys_ok ns \<Longrightarrow> keys_ok (fmfilter P ns)"
  by (simp add: keys_ok_def)

lemma parents_ok_fmupd:
  assumes "parents_ok ns" "check_parent ns (cn_parent n) = None" "cn_parent n \<noteq> Some i"
    and "can_have_children n \<or> child_set ns (Some i) = {}"
  shows "parents_ok (fmupd i n ns)"
  unfolding parents_ok_def
proof (intro allI impI)
  fix j m p
  assume m: "fmlookup (fmupd i n ns) j = Some m" and p: "cn_parent m = Some p"
  show "\<exists>pn. fmlookup (fmupd i n ns) p = Some pn \<and> can_have_children pn"
  proof (cases "j = i")
    case True
    with m p assms(2,3) show ?thesis by (auto simp: check_parent_None)
  next
    case False
    with m have jm: "fmlookup ns j = Some m" by simp
    with p have "j \<in> child_set ns (Some p)" by (auto simp: child_set_def)
    obtain pn where pn: "fmlookup ns p = Some pn" "can_have_children pn"
      using parents_okE[OF assms(1) jm p] by blast
    show ?thesis
    proof (cases "p = i")
      case True
      with \<open>j \<in> child_set ns (Some p)\<close> assms(4) show ?thesis by auto
    next
      case False
      with pn show ?thesis by simp
    qed
  qed
qed

lemma forest_ok_fmupd:
  assumes f: "forest_ok ns" and no: "\<And>p. cn_parent n = Some p \<Longrightarrow> (i, p) \<notin> (parent_edges ns)\<^sup>*"
  shows "forest_ok (fmupd i n ns)"
proof -
  let ?E = "{(p, j) \<in> parent_edges ns. j \<noteq> i}"
  have sub: "?E \<subseteq> parent_edges ns" by auto
  with f have E: "acyclic ?E" unfolding forest_ok_def by (rule acyclic_subset)
  show ?thesis
  proof (cases "cn_parent n")
    case None
    with E show ?thesis by (simp add: forest_ok_def edges_fmupd)
  next
    case (Some p)
    have "parent_edges (fmupd i n ns) = insert (p, i) ?E"
      using Some by (auto simp: edges_fmupd)
    moreover have "(i, p) \<notin> ?E\<^sup>*" using no[OF Some] rtrancl_mono[OF sub] by blast
    ultimately show ?thesis using E by (simp add: forest_ok_def acyclic_insert)
  qed
qed

lemma no_children_absent:
  assumes "parents_ok ns" "fmlookup ns i = None"
  shows "child_set ns (Some i) = {}"
proof -
  have "\<not> (fmlookup ns j = Some n \<and> cn_parent n = Some i)" for j n
    using assms parents_okE[OF assms(1), of j n i] by auto
  then show ?thesis by (auto simp: child_set_def)
qed

lemma absent_reaches:
  assumes "parents_ok ns" "fmlookup ns i = None" "(i, p) \<in> (parent_edges ns)\<^sup>*"
  shows "p = i"
  using assms(3)
proof (cases rule: converse_rtranclE)
  case (step y)
  with no_children_absent[OF assms(1,2)] show ?thesis by (auto simp: child_set_edge[symmetric])
qed simp

lemma node_map_inv_replace:
  assumes k: "keys_ok ns" and p: "parents_ok ns" and f: "forest_ok ns"
    and old: "fmlookup ns i = Some n" and same: "cn_parent m = cn_parent n" "cn_id m = cn_id n"
    and cont: "can_have_children m \<or> child_set ns (Some i) = {}"
  shows "keys_ok (fmupd i m ns)" "parents_ok (fmupd i m ns)" "forest_ok (fmupd i m ns)"
proof -
  have edge: "\<And>q. cn_parent m = Some q \<Longrightarrow> (q, i) \<in> parent_edges ns"
    using old same by (simp add: parent_edges_def parent_of_def)
  show "keys_ok (fmupd i m ns)" using k old same by (intro keys_ok_fmupd) (simp_all add: keys_okD)
  have "cn_parent m \<noteq> Some i" using edge forest_irrefl[OF f] by blast
  moreover have "check_parent ns (cn_parent m) = None"
    using p old same unfolding check_parent_None by (auto elim: parents_okE)
  ultimately show "parents_ok (fmupd i m ns)" using p cont by (intro parents_ok_fmupd) auto
  show "forest_ok (fmupd i m ns)"
    using f edge forest_irrefl[OF f] by (intro forest_ok_fmupd) auto
qed

lemma container_or_childless:
  assumes "parents_ok ns" "fmlookup ns i = Some n"
  shows "can_have_children n \<or> child_set ns (Some i) = {}"
proof (rule disjCI)
  assume "\<not> child_set ns (Some i) = {}"
  then obtain j m where "fmlookup ns j = Some m" "cn_parent m = Some i" by (auto simp: child_set_def)
  with assms show "can_have_children n" by (auto elim: parents_okE)
qed

section \<open>Insert\<close>

lemma scene_insert_ok:
  assumes "scene_insert n s = Inr (i, s')"
  shows "i = cn_id n" "fmlookup (sc_nodes s) i = None" "check_parent (sc_nodes s) (cn_parent n) = None"
    "sc_nodes s' = fmupd i n (sc_nodes s)"
    "sc_child_index s' = bucket_insert (sc_nodes s') (cn_parent n) i (sc_child_index s)"
    "sc_world_cache s' = fmempty"
  using assms
  by (auto simp: scene_insert_def scene_contains_def frame_simps Let_def split: if_splits option.splits)

lemma scene_insert_inv [inv_intros]:
  assumes inv: "scene_inv s" and ok: "scene_insert n s = Inr (i, s')"
  shows "scene_inv s'"
proof -
  note ins = scene_insert_ok[OF ok]
  have "cn_parent n \<noteq> Some i" using ins(2,3) by (auto simp: check_parent_None)
  then have "keys_ok (sc_nodes s')" "parents_ok (sc_nodes s')" "forest_ok (sc_nodes s')"
    using ins scene_invD[OF inv] no_children_absent[OF scene_invD(2)[OF inv] ins(2)]
      absent_reaches[OF scene_invD(2)[OF inv] ins(2)]
    by (auto intro!: keys_ok_fmupd parents_ok_fmupd forest_ok_fmupd)
  moreover have "index_agrees (sc_nodes s') (sc_child_index s')"
    using index_agrees_insert[OF scene_invD(4)[OF inv] ins(2), of n] ins by simp
  ultimately show ?thesis by (simp add: scene_inv_def)
qed

lemma scene_default_inv [inv_intros]: "scene_inv (scene_default a b)"
proof -
  have "parent_edges fmempty = {}" by (auto simp: parent_edges_def parent_of_def)
  then show ?thesis
    by (simp add: scene_inv_def scene_default_def keys_ok_def parents_ok_def forest_ok_def
        index_agrees_def children_in_def sib.ordered_bucket_def child_set_def acyclic_def)
qed

section \<open>Remove\<close>

lemma fmfilter_fmdrop:
  "fmfilter P (fmdrop i m) = fmfilter (\<lambda>k. k \<noteq> i \<and> P k) m"
  by (rule fmap_ext) simp

lemma remove_one_nodes:
  assumes "index_agrees (sc_nodes (fst st)) (sc_child_index (fst st))"
  shows "sc_nodes (fst (remove_one d st)) = fmdrop d (sc_nodes (fst st))"
    "index_agrees (sc_nodes (fst (remove_one d st))) (sc_child_index (fst (remove_one d st)))"
proof -
  show nodes: "sc_nodes (fst (remove_one d st)) = fmdrop d (sc_nodes (fst st))"
    by (cases "fmlookup (sc_nodes (fst st)) d")
      (simp_all add: remove_one_def child_index_remove_def fmdrop_absent Let_def)
  show "index_agrees (sc_nodes (fst (remove_one d st))) (sc_child_index (fst (remove_one d st)))"
  proof (cases "fmlookup (sc_nodes (fst st)) d")
    case None
    then have "remove_one d st = st" by (simp add: remove_one_def)
    with assms show ?thesis by simp
  next
    case (Some n)
    with index_agrees_remove[OF assms Some] show ?thesis
      by (simp add: remove_one_def child_index_remove_def Let_def)
  qed
qed

lemma remove_all_nodes:
  assumes "index_agrees (sc_nodes (fst st)) (sc_child_index (fst st))"
  shows "sc_nodes (fst (remove_all root ds st)) = fmfilter (\<lambda>k. k \<notin> set ds) (sc_nodes (fst st))"
    "index_agrees (sc_nodes (fst (remove_all root ds st))) (sc_child_index (fst (remove_all root ds st)))"
proof -
  have "sc_nodes (fst (remove_all root ds st)) = fmfilter (\<lambda>k. k \<notin> set ds) (sc_nodes (fst st)) \<and>
    index_agrees (sc_nodes (fst (remove_all root ds st))) (sc_child_index (fst (remove_all root ds st)))"
    using assms
  proof (induction ds arbitrary: st)
    case Nil
    then show ?case by (simp add: fmfilter_true)
  next
    case (Cons d ds)
    note one = remove_one_nodes[OF Cons.prems, of d]
    obtain x where st': "remove_all root (d # ds) st = remove_all root ds (fst (remove_one d st), x)"
      by (simp add: Let_def)
    show ?case
      using Cons.IH[of "(fst (remove_one d st), x)"] one unfolding st' fst_conv
      by (auto simp: fmfilter_fmdrop cong del: fmfilter_cong)
  qed
  then show "sc_nodes (fst (remove_all root ds st)) = fmfilter (\<lambda>k. k \<notin> set ds) (sc_nodes (fst st))"
    "index_agrees (sc_nodes (fst (remove_all root ds st))) (sc_child_index (fst (remove_all root ds st)))"
    by blast+
qed

lemma remove_all_kept: "root \<notin> set ds \<Longrightarrow> snd (remove_all root ds st) = snd st"
  by (induction ds arbitrary: st) (auto simp: Let_def)

lemma remove_all_root:
  assumes "fmlookup (sc_nodes s) r = Some n" "r \<notin> set ds"
  shows "snd (remove_all r (r # ds) (s, None)) = Some n"
  using assms by (simp add: remove_all_kept remove_one_def Let_def)

lemma scene_remove_ok:
  assumes inv: "scene_inv s" and root: "fmlookup (sc_nodes s) i = Some n"
  obtains s' where "scene_remove i s = Inr (n, s')"
    "sc_nodes s' = fmfilter (\<lambda>k. k \<notin> below (sc_nodes s) i) (sc_nodes s)"
    "index_agrees (sc_nodes s') (sc_child_index s')" "sc_world_cache s' = fmempty"
proof -
  let ?ds = "descendants_of s i"
  obtain s1 r where rem: "remove_all i ?ds (s, None) = (s1, r)" by (cases "remove_all i ?ds (s, None)")
  have "i \<notin> set (tl ?ds)"
    using descendants_exact(2)[OF inv, of i] by (subst (asm) descendants_head) simp
  then have r: "r = Some n"
    using remove_all_root[OF root] rem by (metis descendants_head snd_conv)
  have nodes: "sc_nodes s1 = fmfilter (\<lambda>k. k \<notin> below (sc_nodes s) i) (sc_nodes s)"
    and agree: "index_agrees (sc_nodes s1) (sc_child_index s1)"
    using remove_all_nodes[of "(s, None)" i ?ds, unfolded fst_conv, OF scene_invD(4)[OF inv]]
    unfolding rem fst_conv descendants_exact(1)[OF inv] by simp_all
  show ?thesis
  proof (rule that)
    show "scene_remove i s = Inr (n, touch_if_present (cn_parent n)
        ((record_change SceneChange_Structural (clear_derived_caches s1))
          \<lparr>sc_next_stamp := sc_next_stamp (record_change SceneChange_Structural (clear_derived_caches s1)) + 1,
           sc_removal_revision := sc_next_stamp (record_change SceneChange_Structural (clear_derived_caches s1))\<rparr>))"
      using root rem r by (simp add: scene_remove_def scene_contains_def next_geometry_stamp_def Let_def)
  qed (use nodes agree in \<open>simp_all add: frame_simps\<close>)
qed

lemma below_closed: "d \<in> below ns i \<Longrightarrow> parent_of ns j = Some d \<Longrightarrow> j \<in> below ns i"
  unfolding below_def by (auto simp: parent_edges_def intro: rtrancl_into_rtrancl)

lemma outside_below_inv:
  fixes i :: node_id
  assumes "keys_ok ns" "parents_ok ns" "forest_ok ns"
  defines "ms \<equiv> fmfilter (\<lambda>k. k \<notin> below ns i) ns"
  shows "keys_ok ms" "parents_ok ms" "forest_ok ms"
proof -
  show "keys_ok ms" unfolding ms_def using assms(1) by (rule keys_ok_fmfilter)
  show "parents_ok ms"
    unfolding parents_ok_def
  proof (intro allI impI)
    fix j n p assume "fmlookup ms j = Some n" and p: "cn_parent n = Some p"
    then have j: "fmlookup ns j = Some n" "j \<notin> below ns i" by (auto simp: ms_def split: if_splits)
    then have "p \<notin> below ns i" using below_closed[of p ns i j] p by (auto simp: parent_of_def)
    with parents_okE[OF assms(2) j(1) p] show "\<exists>pn. fmlookup ms p = Some pn \<and> can_have_children pn"
      by (auto simp: ms_def)
  qed
  have "parent_edges ms \<subseteq> parent_edges ns"
    by (auto simp: parent_edges_def parent_of_def ms_def bind_eq_Some_conv split: if_splits)
  with assms(3) show "forest_ok ms" unfolding forest_ok_def by (rule acyclic_subset)
qed

lemma scene_remove_inv [inv_intros]:
  assumes inv: "scene_inv s" and ok: "scene_remove i s = Inr (n, s')"
  shows "scene_inv s'" "fmlookup (sc_nodes s) i = Some n"
    "sc_nodes s' = fmfilter (\<lambda>k. k \<notin> below (sc_nodes s) i) (sc_nodes s)" "sc_world_cache s' = fmempty"
proof -
  from ok obtain m where m: "fmlookup (sc_nodes s) i = Some m"
    by (auto simp: scene_remove_def scene_contains_def split: if_splits)
  obtain s1 where s1: "scene_remove i s = Inr (m, s1)"
    "sc_nodes s1 = fmfilter (\<lambda>k. k \<notin> below (sc_nodes s) i) (sc_nodes s)"
    "index_agrees (sc_nodes s1) (sc_child_index s1)" "sc_world_cache s1 = fmempty"
    using scene_remove_ok[OF inv m] by blast
  have eq: "n = m" "s' = s1" using ok s1(1) by simp_all
  show "scene_inv s'" unfolding scene_inv_def eq
    using outside_below_inv[OF scene_invD(1-3)[OF inv], of i] s1 by simp
  show "fmlookup (sc_nodes s) i = Some n" using m eq by simp
  show "sc_nodes s' = fmfilter (\<lambda>k. k \<notin> below (sc_nodes s) i) (sc_nodes s)"
    "sc_world_cache s' = fmempty" using s1 eq by simp_all
qed

section \<open>Reparent and reorder\<close>

lemma scene_set_parent_ok:
  assumes "scene_set_parent i p x s = Inr s'"
  obtains n where "fmlookup (sc_nodes s) i = Some n" "check_reparent (sc_nodes s) i p = None"
    "sc_nodes s' = fmupd i (n\<lparr>cn_parent := p, cn_index := x\<rparr>) (sc_nodes s)"
    "sc_child_index s' = bucket_insert (sc_nodes s') p i (bucket_remove (cn_parent n) i (sc_child_index s))"
    "sc_world_cache s' = fmempty"
  using assms
  by (auto simp: scene_set_parent_def frame_simps Let_def split: option.splits)

lemma check_reparent_None:
  assumes "forest_ok ns"
  shows "check_reparent ns i p = None \<longleftrightarrow>
    check_parent ns p = None \<and> (\<forall>q. p = Some q \<longrightarrow> q \<notin> below ns i)"
  using chain_hits_iff[OF assms, of i]
  by (auto simp: check_reparent_def below_def split: option.splits if_splits)

lemma scene_set_parent_inv [inv_intros]:
  assumes inv: "scene_inv s" and ok: "scene_set_parent i p x s = Inr s'"
  shows "scene_inv s'"
proof -
  let ?ns = "sc_nodes s"
  obtain n where n: "fmlookup ?ns i = Some n" and chk: "check_reparent ?ns i p = None"
    and nodes: "sc_nodes s' = fmupd i (n\<lparr>cn_parent := p, cn_index := x\<rparr>) ?ns"
    and ci: "sc_child_index s' = bucket_insert (sc_nodes s') p i (bucket_remove (cn_parent n) i (sc_child_index s))"
    using scene_set_parent_ok[OF ok] by blast
  let ?m = "n\<lparr>cn_parent := p, cn_index := x\<rparr>"
  have chk': "check_parent ?ns p = None" "\<And>q. p = Some q \<Longrightarrow> q \<notin> below ?ns i"
    using chk check_reparent_None[OF scene_invD(3)[OF inv]] by auto
  have cont: "can_have_children n \<or> child_set ?ns (Some i) = {}"
    using container_or_childless[OF scene_invD(2)[OF inv] n] .
  have "keys_ok (sc_nodes s')"
    unfolding nodes using n scene_invD(1)[OF inv] by (intro keys_ok_fmupd) (simp_all add: keys_okD)
  moreover have "parents_ok (sc_nodes s')"
    unfolding nodes using chk' cont scene_invD(2)[OF inv]
      can_have_children_cong[of ?m n]
    by (intro parents_ok_fmupd) (auto simp: below_def)
  moreover have "forest_ok (sc_nodes s')"
    unfolding nodes using chk'(2) scene_invD(3)[OF inv] by (intro forest_ok_fmupd) (auto simp: below_def)
  moreover have "index_agrees (sc_nodes s') (sc_child_index s')"
    using index_agrees_move[OF scene_invD(4)[OF inv] n, of ?m] by (simp add: ci nodes)
  ultimately show ?thesis by (simp add: scene_inv_def)
qed

lemma scene_set_index_ok:
  assumes "scene_set_index i x s = Inr s'"
  obtains n where "fmlookup (sc_nodes s) i = Some n"
    "sc_nodes s' = fmupd i (n\<lparr>cn_index := x\<rparr>) (sc_nodes s)"
    "sc_child_index s' =
       bucket_insert (sc_nodes s') (cn_parent n) i (bucket_remove (cn_parent n) i (sc_child_index s))"
    "sc_world_cache s' = fmempty"
  using assms by (auto simp: scene_set_index_def frame_simps Let_def split: option.splits)

lemma scene_set_index_inv [inv_intros]:
  assumes inv: "scene_inv s" and ok: "scene_set_index i x s = Inr s'"
  shows "scene_inv s'"
proof -
  obtain n where n: "fmlookup (sc_nodes s) i = Some n"
    and nodes: "sc_nodes s' = fmupd i (n\<lparr>cn_index := x\<rparr>) (sc_nodes s)"
    and ci: "sc_child_index s' =
      bucket_insert (sc_nodes s') (cn_parent n) i (bucket_remove (cn_parent n) i (sc_child_index s))"
    using scene_set_index_ok[OF ok] by blast
  have "can_have_children (n\<lparr>cn_index := x\<rparr>) \<or> child_set (sc_nodes s) (Some i) = {}"
    using container_or_childless[OF scene_invD(2)[OF inv] n] can_have_children_cong[of "n\<lparr>cn_index := x\<rparr>" n]
    by simp
  then have "keys_ok (sc_nodes s')" "parents_ok (sc_nodes s')" "forest_ok (sc_nodes s')"
    unfolding nodes using node_map_inv_replace[OF scene_invD(1-3)[OF inv] n] by simp_all
  moreover have "index_agrees (sc_nodes s') (sc_child_index s')"
    using index_agrees_move[OF scene_invD(4)[OF inv] n, of "n\<lparr>cn_index := x\<rparr>"] by (simp add: ci nodes)
  ultimately show ?thesis by (simp add: scene_inv_def)
qed

section \<open>Edits of one node\<close>

lemma replace_inv:
  assumes inv: "scene_inv s" and n: "fmlookup (sc_nodes s) i = Some n"
    and nodes: "sc_nodes s' = fmupd i m (sc_nodes s)" and ci: "sc_child_index s' = sc_child_index s"
    and same: "cn_id m = cn_id n" "cn_parent m = cn_parent n" "cn_index m = cn_index n"
    and cont: "can_have_children m \<or> children_of s (Some i) = []"
  shows "scene_inv s'"
proof -
  have "can_have_children m \<or> child_set (sc_nodes s) (Some i) = {}"
    using cont children_set[OF scene_invD(4)[OF inv], of "Some i"] by (auto simp: children_of_def)
  then have "keys_ok (sc_nodes s')" "parents_ok (sc_nodes s')" "forest_ok (sc_nodes s')"
    unfolding nodes using node_map_inv_replace[OF scene_invD(1-3)[OF inv] n] same by simp_all
  with index_agrees_replace[OF scene_invD(4)[OF inv] n same(2,3)] show ?thesis
    by (simp add: scene_inv_def nodes ci)
qed

lemma container_keeps:
  assumes "scene_inv s" "fmlookup (sc_nodes s) i = Some n" "cn_data m = cn_data n"
  shows "can_have_children m \<or> children_of s (Some i) = []"
proof -
  have "can_have_children m = can_have_children n" using assms(3) by (rule can_have_children_cong)
  moreover have "child_set (sc_nodes s) (Some i) = set (children_of s (Some i))"
    unfolding children_of_def by (rule children_set[OF scene_invD(4)[OF assms(1)], symmetric])
  ultimately show ?thesis
    using container_or_childless[OF scene_invD(2)[OF assms(1)] assms(2)] by auto
qed

definition keeps_place :: "canvas_node \<Rightarrow> canvas_node \<Rightarrow> bool" where
  \<comment> \<open>a write that leaves the node where it is in the tree\<close>
  "keeps_place n m \<longleftrightarrow> cn_id m = cn_id n \<and> cn_parent m = cn_parent n \<and> cn_index m = cn_index n"

lemma scene_update_ok:
  assumes "scene_update i f s = Inr s'"
  obtains n where "fmlookup (sc_nodes s) i = Some n" "sc_nodes s' = fmupd i (f n) (sc_nodes s)"
    "sc_child_index s' = sc_child_index s" "sc_world_cache s' = fmempty"
  using assms by (auto simp: scene_update_def frame_simps Let_def split: option.splits)

lemma scene_update_inv [inv_intros]:
  assumes inv: "scene_inv s" and ok: "scene_update i f s = Inr s'"
    and f: "\<And>n. fmlookup (sc_nodes s) i = Some n \<Longrightarrow> keeps_place n (f n) \<and>
              (can_have_children (f n) \<or> children_of s (Some i) = [])"
  shows "scene_inv s'"
proof -
  obtain n where n: "fmlookup (sc_nodes s) i = Some n" and nodes: "sc_nodes s' = fmupd i (f n) (sc_nodes s)"
    and ci: "sc_child_index s' = sc_child_index s"
    using scene_update_ok[OF ok] by blast
  show ?thesis using f[OF n] by (intro replace_inv[OF inv n nodes ci]) (simp_all add: keeps_place_def)
qed

lemma scene_patch_node_ok:
  assumes "scene_patch_node m stamp s = Inr s'"
  obtains n where "fmlookup (sc_nodes s) (cn_id m) = Some n" "sc_nodes s' = fmupd (cn_id m) m (sc_nodes s)"
    "sc_child_index s' = sc_child_index s" "cn_parent m = cn_parent n" "cn_index m = cn_index n"
    "sc_world_cache s' =
      sc_world_cache (invalidate_node_edit (cn_id m) (s\<lparr>sc_nodes := fmupd (cn_id m) m (sc_nodes s)\<rparr>))"
  using assms by (auto simp: scene_patch_node_def frame_simps Let_def split: option.splits if_splits)

lemma scene_patch_node_inv [inv_intros]:
  assumes inv: "scene_inv s" and ok: "scene_patch_node m stamp s = Inr s'"
    and cont: "can_have_children m \<or> children_of s (Some (cn_id m)) = []"
  shows "scene_inv s'"
proof -
  obtain n where n: "fmlookup (sc_nodes s) (cn_id m) = Some n"
    and rest: "sc_nodes s' = fmupd (cn_id m) m (sc_nodes s)" "sc_child_index s' = sc_child_index s"
      "cn_parent m = cn_parent n" "cn_index m = cn_index n"
    using scene_patch_node_ok[OF ok] by blast
  show ?thesis
    using rest(3,4) cont keys_okD[OF scene_invD(1)[OF inv] n] by (intro replace_inv[OF inv n rest(1,2)]) simp_all
qed

lemma scene_set_transform_ok:
  assumes "scene_set_transform i t s = Inr s'"
  obtains n where "fmlookup (sc_nodes s) i = Some n"
    "sc_nodes s' = fmupd i (n\<lparr>cn_transform := t\<rparr>) (sc_nodes s)" "sc_child_index s' = sc_child_index s"
    "sc_world_cache s' =
      sc_world_cache (invalidate_transform_edit i (s\<lparr>sc_nodes := fmupd i (n\<lparr>cn_transform := t\<rparr>) (sc_nodes s)\<rparr>))"
  using assms by (auto simp: scene_set_transform_def frame_simps Let_def split: option.splits if_splits)

lemma scene_set_transform_inv [inv_intros]:
  assumes inv: "scene_inv s" and ok: "scene_set_transform i t s = Inr s'"
  shows "scene_inv s'"
proof -
  obtain n where n: "fmlookup (sc_nodes s) i = Some n"
    and rest: "sc_nodes s' = fmupd i (n\<lparr>cn_transform := t\<rparr>) (sc_nodes s)" "sc_child_index s' = sc_child_index s"
    using scene_set_transform_ok[OF ok] by blast
  show ?thesis using container_keeps[OF inv n] by (intro replace_inv[OF inv n rest]) simp_all
qed

lemma scene_inv_same:
  "scene_inv s \<Longrightarrow> sc_nodes s' = sc_nodes s \<Longrightarrow> sc_child_index s' = sc_child_index s \<Longrightarrow> scene_inv s'"
  by (simp add: scene_inv_def)

lemma rebuild_frame:
  "sc_nodes (rebuild_child_index s) = sc_nodes s"
  "sc_child_index (rebuild_child_index s) = derived_child_index (sc_nodes s)"
  "sc_world_cache (rebuild_child_index s) = fmempty"
  by (simp_all add: rebuild_child_index_def next_geometry_stamp_def frame_simps Let_def)

lemma rebuild_inv [inv_intros]:
  "keys_ok (sc_nodes s) \<Longrightarrow> parents_ok (sc_nodes s) \<Longrightarrow> forest_ok (sc_nodes s) \<Longrightarrow>
     scene_inv (rebuild_child_index s)"
  by (simp add: scene_inv_def rebuild_frame index_agrees_derived)

section \<open>A run of inserts\<close>

fun insert_all :: "canvas_node list \<Rightarrow> scene \<Rightarrow> scene_error + scene" where
  \<comment> \<open>\<open>for node in nodes { scene.insert(node)?; }\<close>\<close>
  "insert_all [] s = Inr s"
| "insert_all (n # ns) s =
     (case scene_insert n s of Inl e \<Rightarrow> Inl e | Inr (_, s') \<Rightarrow> insert_all ns s')"

lemma insert_all_inv: "scene_inv s \<Longrightarrow> insert_all ns s = Inr s' \<Longrightarrow> scene_inv s'"
  by (induction ns arbitrary: s) (auto split: sum.splits intro: scene_insert_inv)

lemma insert_all_nodes:
  "insert_all ns s = Inr s' \<Longrightarrow> sc_nodes s' = fold (\<lambda>n. fmupd (cn_id n) n) ns (sc_nodes s)"
proof (induction ns arbitrary: s)
  case (Cons n ns)
  then obtain i s1 where one: "scene_insert n s = Inr (i, s1)" and rest: "insert_all ns s1 = Inr s'"
    by (auto split: sum.splits)
  show ?case using Cons.IH[OF rest] scene_insert_ok(1,4)[OF one] by simp
qed simp

lemma scene_insert_succeeds:
  "fmlookup (sc_nodes s) (cn_id n) = None \<Longrightarrow> check_parent (sc_nodes s) (cn_parent n) = None \<Longrightarrow>
     \<exists>s'. scene_insert n s = Inr (cn_id n, s') \<and> sc_nodes s' = fmupd (cn_id n) n (sc_nodes s)"
  by (simp add: scene_insert_def scene_contains_def frame_simps Let_def split: option.splits)

end
