(* ===== verification/SampleScene.thy ===== *)
theory SampleScene
  imports SceneEdit
begin

text \<open>
  A small concrete scene, built with the model's own operations: a group at the root holding a
  second group and a leaf, and a leaf inside the second group. The properties of the scene graph,
  the operations and the history are instantiated on it.
\<close>

definition sample_group :: group_node where
  "sample_group =
     \<lparr>gn_local_size = None, gn_clip_size = None, gn_background = None, gn_background_fills = [],
      gn_grid = None, gn_explicit_modes = fmempty, gn_scrollable = False, gn_scroll_direction = None,
      gn_scroll_offset = None, gn_auto_layout = None, gn_strokes = [], gn_corner_radius = None,
      gn_corner_radii = None, gn_corner_smoothing = 0\<rparr>"

definition sample_embed :: embed_node where
  "sample_embed = \<lparr>embed_local_size = (0, 0), embed_kind = ''note'', embed_payload = JNull\<rparr>"

definition sample_key :: "f64 \<Rightarrow> index_key" where
  "sample_key b = IndexKey b"

definition sample_node :: "128 word \<Rightarrow> node_id option \<Rightarrow> f64 \<Rightarrow> node_data \<Rightarrow> canvas_node" where
  "sample_node w p k d = (canvas_node_new (Id w) d)\<lparr>cn_parent := p, cn_index := sample_key k\<rparr>"

definition sample_root :: canvas_node where
  "sample_root = sample_node 1 None 0x3FF0000000000000 (NodeData_Group sample_group)"

definition sample_inner :: canvas_node where
  "sample_inner = sample_node 2 (Some (Id 1)) 0x3FF0000000000000 (NodeData_Group sample_group)"

definition sample_leaf :: canvas_node where
  "sample_leaf = sample_node 3 (Some (Id 1)) 0x4000000000000000 (NodeData_Embed sample_embed)"

definition sample_deep :: canvas_node where
  "sample_deep = sample_node 4 (Some (Id 2)) 0x3FF0000000000000 (NodeData_Embed sample_embed)"

lemmas sample_node_defs =
  sample_root_def sample_inner_def sample_leaf_def sample_deep_def sample_node_def

lemma sample_ids [simp]:
  "cn_id sample_root = Id 1" "cn_id sample_inner = Id 2" "cn_id sample_leaf = Id 3" "cn_id sample_deep = Id 4"
  "cn_parent sample_root = None" "cn_parent sample_inner = Some (Id 1)"
  "cn_parent sample_leaf = Some (Id 1)" "cn_parent sample_deep = Some (Id 2)"
  by (simp_all add: sample_node_defs canvas_node_new_def)

lemma sample_containers [simp]:
  "can_have_children sample_root" "can_have_children sample_inner"
  "\<not> can_have_children sample_leaf" "\<not> can_have_children sample_deep"
  by (simp_all add: sample_node_defs canvas_node_new_def can_have_children_def is_group_def is_boolean_def)

definition sample_scene :: scene where
  "sample_scene =
     (case insert_all [sample_root, sample_inner, sample_leaf, sample_deep] (scene_default 1 0) of
        Inl _ \<Rightarrow> scene_default 1 0 | Inr s \<Rightarrow> s)"

lemma sample_scene_built:
  "insert_all [sample_root, sample_inner, sample_leaf, sample_deep] (scene_default 1 0) = Inr sample_scene"
proof -
  obtain s1 where s1: "scene_insert sample_root (scene_default 1 0) = Inr (Id 1, s1)"
    "sc_nodes s1 = fmupd (Id 1) sample_root fmempty"
    using scene_insert_succeeds[of "scene_default 1 0" sample_root]
    by (auto simp: scene_default_def check_parent_def)
  obtain s2 where s2: "scene_insert sample_inner s1 = Inr (Id 2, s2)"
    "sc_nodes s2 = fmupd (Id 2) sample_inner (sc_nodes s1)"
    using scene_insert_succeeds[of s1 sample_inner] by (auto simp: s1 check_parent_def)
  obtain s3 where s3: "scene_insert sample_leaf s2 = Inr (Id 3, s3)"
    "sc_nodes s3 = fmupd (Id 3) sample_leaf (sc_nodes s2)"
    using scene_insert_succeeds[of s2 sample_leaf] by (auto simp: s1 s2 check_parent_def)
  obtain s4 where s4: "scene_insert sample_deep s3 = Inr (Id 4, s4)"
    using scene_insert_succeeds[of s3 sample_deep] by (auto simp: s1 s2 s3 check_parent_def)
  show ?thesis by (simp add: sample_scene_def s1 s2 s3 s4)
qed

lemma sample_scene_inv [simp]: "scene_inv sample_scene"
  by (rule insert_all_inv[OF scene_default_inv sample_scene_built])

lemma sample_nodes:
  "sc_nodes sample_scene =
     fmupd (Id 4) sample_deep (fmupd (Id 3) sample_leaf (fmupd (Id 2) sample_inner (fmupd (Id 1) sample_root fmempty)))"
  using insert_all_nodes[OF sample_scene_built] by (simp add: scene_default_def)

lemma sample_lookup [simp]:
  "fmlookup (sc_nodes sample_scene) (Id 1) = Some sample_root"
  "fmlookup (sc_nodes sample_scene) (Id 2) = Some sample_inner"
  "fmlookup (sc_nodes sample_scene) (Id 3) = Some sample_leaf"
  "fmlookup (sc_nodes sample_scene) (Id 4) = Some sample_deep"
  by (simp_all add: sample_nodes)

end
