(* ===== verification/SceneProps.thy ===== *)
theory SceneProps
  imports SampleScene
begin

text \<open>
  The contract of the scene graph, over the lemmas of \<open>SceneTree\<close> and \<open>SceneEdit\<close>: the diagnostic
  accepts exactly the scenes that meet the invariant, the walks enumerate exactly the subtree in
  pre-order, removal takes exactly the subtree, reparenting is refused exactly when it must be, and
  no sequence of graph edits leaves the invariant.
\<close>

section \<open>The diagnostic\<close>

lemma validate_parents_iff: "validate_parents ns \<longleftrightarrow> parents_ok ns"
  by (auto simp: validate_parents_def list_all_iff fm_values_set check_parent_None parents_ok_def)

lemma validate_walk_avoids:
  "validate_walk f m ns i d c \<Longrightarrow> c = Some p \<Longrightarrow> (i, p) \<notin> (parent_edges ns)\<^sup>*"
proof (induction f arbitrary: d c p)
  case (Suc f)
  then have "p \<noteq> i" and rest: "validate_walk f m ns i (Suc d) (parent_of ns p)"
    by (auto simp: parent_of_def split: if_splits)
  show ?case
  proof
    assume "(i, p) \<in> (parent_edges ns)\<^sup>*"
    with \<open>p \<noteq> i\<close> obtain q where "(i, q) \<in> (parent_edges ns)\<^sup>*" "(q, p) \<in> parent_edges ns"
      by (metis rtranclE)
    with Suc.IH[OF rest, of q] show False by (simp add: parent_edges_def)
  qed
qed simp

lemma validate_walk_accepts:
  "i \<notin> set (anc.up ns f c) \<Longrightarrow> length (anc.up ns f c) < f \<Longrightarrow>
     d + length (anc.up ns f c) \<le> Suc m \<Longrightarrow> validate_walk f m ns i d c"
  by (induction f arbitrary: c d) (auto simp: parent_of_def[symmetric] split: option.splits)

lemma validate_acyclic_iff:
  assumes k: "keys_ok ns"
  shows "validate_acyclic ns \<longleftrightarrow> forest_ok ns"
proof
  assume v: "validate_acyclic ns"
  have "(i, i) \<notin> (parent_edges ns)\<^sup>+" for i
  proof
    assume "(i, i) \<in> (parent_edges ns)\<^sup>+"
    then obtain q where "(i, q) \<in> (parent_edges ns)\<^sup>*" "(q, i) \<in> parent_edges ns"
      by (meson tranclD2)
    then have q: "(i, q) \<in> (parent_edges ns)\<^sup>*" "parent_of ns i = Some q"
      by (simp_all add: parent_edges_def)
    then obtain n where n: "fmlookup ns i = Some n" "cn_parent n = Some q"
      by (auto simp: parent_of_def bind_eq_Some_conv)
    from v n(1) have "validate_walk (fcard (fmdom ns) + 3) (fcard (fmdom ns) + 1) ns (cn_id n) 0 (cn_parent n)"
      by (auto simp: validate_acyclic_def list_all_iff fm_values_set)
    from validate_walk_avoids[OF this n(2)] q(1) keys_okD[OF k n(1)] show False by simp
  qed
  then show "forest_ok ns" by (simp add: forest_ok_def acyclic_def)
next
  assume f: "forest_ok ns"
  have "validate_walk (fcard (fmdom ns) + 3) (fcard (fmdom ns) + 1) ns i 0 (parent_of ns i)" for i
  proof (rule validate_walk_accepts)
    let ?f = "fcard (fmdom ns) + 3"
    have "length (anc.up ns ?f (parent_of ns i)) \<le> walk_fuel ns"
    proof (cases "parent_of ns i")
      case (Some p)
      have "acyclic (anc.edges ns)" using f by (simp add: forest_ok_def)
      from anc.up_length[OF this, of ?f p] parents_card[of ns] Some show ?thesis by simp
    qed simp
    then show "length (anc.up ns ?f (parent_of ns i)) < ?f"
      "0 + length (anc.up ns ?f (parent_of ns i)) \<le> Suc (fcard (fmdom ns) + 1)"
      by (simp_all add: walk_fuel_def)
    show "i \<notin> set (anc.up ns ?f (parent_of ns i))"
    proof
      assume "i \<in> set (anc.up ns ?f (parent_of ns i))"
      then obtain p where p: "parent_of ns i = Some p" "i \<in> set (anc.up ns ?f (Some p))"
        by (cases "parent_of ns i") auto
      with anc.up_reaches[OF p(2)] forest_irrefl[OF f, of p i] show False by (simp add: parent_edges_def)
    qed
  qed
  moreover have "cn_parent n = parent_of ns (cn_id n)" if "fmlookup ns j = Some n" for j n
    using that keys_okD[OF k that] by (simp add: parent_of_def)
  ultimately show "validate_acyclic ns"
    by (auto simp: validate_acyclic_def list_all_iff fm_values_set)
qed

lemma derived_dom: "p |\<in>| fmdom (derived_child_index ns) \<longleftrightarrow> (\<exists>n \<in> set (fm_values ns). cn_parent n = p)"
proof -
  have "p |\<in>| fmdom (derived_child_index ns) \<longleftrightarrow> child_set ns p \<noteq> {}"
    by (simp add: fmlookup_dom_iff derived_lookup)
  then show ?thesis by (auto simp: child_set_def Bex_def fm_values_set)
qed

lemma index_check_iff:
  assumes k: "keys_ok ns"
  shows "fcard (fmdom (derived_child_index ns)) = fcard (fmdom ci) \<and>
      list_all (\<lambda>n. fmlookup ci (cn_parent n) = Some (child_list ns (cn_parent n))) (fm_values ns) \<longleftrightarrow>
    ci = derived_child_index ns" (is "?l = ?r")
proof
  let ?d = "derived_child_index ns"
  assume l: ?l
  have agree: "fmlookup ci p = fmlookup ?d p" if "p |\<in>| fmdom ?d" for p
  proof -
    from that obtain n where n: "n \<in> set (fm_values ns)" "cn_parent n = p" by (auto simp: derived_dom)
    with l have "fmlookup ci p = Some (child_list ns p)" by (auto simp: list_all_iff)
    moreover from that have "fmlookup ?d p = Some (child_list ns p)"
      by (auto simp: derived_lookup fmlookup_dom_iff split: if_splits)
    ultimately show ?thesis by simp
  qed
  have "fmdom ?d |\<subseteq>| fmdom ci" using agree by (auto simp: fmlookup_dom_iff)
  with l have "fmdom ?d = fmdom ci"
    by (metis fcard_seteq order_refl)
  with agree show ?r by (intro fmap_ext) (metis fmdom_notD)
next
  assume r: ?r
  have "child_set ns (cn_parent n) \<noteq> {}" if "n \<in> set (fm_values ns)" for n
    using that by (auto simp: fm_values_set child_set_def)
  with r show ?l by (simp add: list_all_iff derived_lookup)
qed

lemma validate_iff:
  assumes "keys_ok (sc_nodes s)"
  shows "scene_validate s = Inr () \<longleftrightarrow> scene_inv s"
  using assms index_check_iff[OF assms, of "sc_child_index s"]
  by (auto simp: scene_validate_def scene_inv_def validate_parents_iff validate_acyclic_iff
      index_agrees_iff_derived)

text \<open>
  C5. The diagnostic \<open>Scene::validate\<close> accepts a scene (whose nodes are stored under their own ids)
  exactly when the scene meets the module's three invariants: every parent is a present container,
  the parent relation has no cycle, and the child index lists every node's children in sibling order.
\<close>

theorem scene_validate_sound_complete:
  assumes "keys_ok (sc_nodes s)"
  shows "scene_validate s = Inr () \<longleftrightarrow>
    parents_ok (sc_nodes s) \<and> forest_ok (sc_nodes s) \<and> index_agrees (sc_nodes s) (sc_child_index s)"
  using validate_iff[OF assms] assms by (simp add: scene_inv_def)

theorem scene_validate_witness: "scene_validate sample_scene = Inr ()"
proof -
  note inv = scene_invD[OF sample_scene_inv]
  show ?thesis using scene_validate_sound_complete[OF inv(1)] inv by simp
qed

section \<open>Walks\<close>

lemma descend_prefix: "prefix (descend n ci xs) (descend n ci (xs @ ys))"
proof (induction n arbitrary: xs)
  case (Suc n)
  show ?case
  proof (cases xs)
    case (Cons i xs')
    have "prefix (descend n ci (children_in ci (Some i) @ xs')) (descend n ci ((children_in ci (Some i) @ xs') @ ys))"
      by (rule Suc.IH)
    with Cons show ?thesis by simp
  qed simp
qed simp

lemma descend_stable:
  assumes "length (descend m ci st) < m" "length (descend n ci st) < n"
  shows "descend m ci st = descend n ci st"
proof (cases "m \<le> n")
  case True
  with descend_fuel[OF assms(1), of "n - m"] show ?thesis by simp
next
  case False
  with descend_fuel[OF assms(2), of "m - n"] show ?thesis by simp
qed

lemma descend_concat:
  assumes d: "\<And>x. x \<in> set xs \<Longrightarrow> length (descend f ci [x]) < f"
  shows "length (descend m ci xs) < m \<Longrightarrow> descend m ci xs = concat (map (\<lambda>x. descend f ci [x]) xs)"
  using d
proof (induction xs arbitrary: m)
  case Nil
  then show ?case by (cases m) simp_all
next
  case (Cons x xs)
  have "length (descend m ci [x]) \<le> length (descend m ci (x # xs))"
    using prefix_length_le[OF descend_prefix[of m ci "[x]" xs]] by simp
  with Cons.prems(1) have x: "length (descend m ci [x]) < m" by simp
  have split: "descend m ci (x # xs) = descend m ci [x] @ descend (m - length (descend m ci [x])) ci xs"
    using descend_append[OF x, of xs] by simp
  with Cons.prems(1) have "length (descend (m - length (descend m ci [x])) ci xs) < m - length (descend m ci [x])"
    by simp
  from Cons.IH[OF this] Cons.prems(2) have
    "descend (m - length (descend m ci [x])) ci xs = concat (map (\<lambda>x. descend f ci [x]) xs)" by simp
  with split descend_stable[OF x, of f] Cons.prems(2) show ?case by simp
qed

lemma below_card_present:
  assumes "fmlookup ns i \<noteq> None"
  shows "card (below ns i) < walk_fuel ns"
proof -
  have "below ns i \<subseteq> fset (fmdom ns)" using below_present[of _ ns i] assms by (metis fmdomI option.exhaust subsetI)
  then have "card (below ns i) \<le> card (fset (fmdom ns))" by (intro card_mono) simp_all
  then show ?thesis by (simp add: walk_fuel_def fcard.rep_eq)
qed

lemma descendants_length:
  assumes "scene_inv s" "fmlookup (sc_nodes s) i \<noteq> None"
  shows "length (descendants_of s i) < walk_fuel (sc_nodes s)"
  using descendants_exact[OF assms(1), of i] below_card_present[OF assms(2)] by (metis distinct_card)

lemma descendants_unfold:
  assumes inv: "scene_inv s" and i: "fmlookup (sc_nodes s) i \<noteq> None"
  shows "descendants_of s i = i # concat (map (descendants_of s) (children_of s (Some i)))"
proof -
  let ?ns = "sc_nodes s" and ?ci = "sc_child_index s"
  obtain f where f: "walk_fuel ?ns = Suc f" by (simp add: walk_fuel_def)
  have eq: "descendants_of s i = i # descend f ?ci (children_in ?ci (Some i))"
    by (simp add: descendants_of_def f)
  have "length (descend f ?ci (children_in ?ci (Some i))) < f"
    using descendants_length[OF inv i] by (simp add: eq f)
  moreover have "length (descend (walk_fuel ?ns) ?ci [c]) < walk_fuel ?ns"
    if "c \<in> set (children_in ?ci (Some i))" for c
    using that children_set[OF scene_invD(4)[OF inv], of "Some i"] child_set_present[of c ?ns]
      descendants_length[OF inv, of c] by (simp add: descendants_of_def)
  ultimately have "descend f ?ci (children_in ?ci (Some i)) =
      concat (map (\<lambda>x. descend (walk_fuel ?ns) ?ci [x]) (children_in ?ci (Some i)))"
    by (rule descend_concat[rotated])
  then show ?thesis unfolding eq by (simp add: children_of_def descendants_of_def[abs_def])
qed

text \<open>
  C9. Within the fuel of the model, \<open>descendants_of\<close> is the pre-order walk: the node first, then the
  walks of its children in sibling order; it visits exactly the nodes from which the parent chain
  leads to the start, and none twice.
\<close>

theorem descendants_preorder:
  assumes "scene_inv s" "scene_contains s i"
  shows "descendants_of s i = i # concat (map (descendants_of s) (children_of s (Some i))) \<and>
    set (descendants_of s i) = {d. (i, d) \<in> (parent_edges (sc_nodes s))\<^sup>*} \<and>
    distinct (descendants_of s i)"
proof (intro conjI)
  show "descendants_of s i = i # concat (map (descendants_of s) (children_of s (Some i)))"
    using assms by (intro descendants_unfold) (simp_all add: scene_contains_def)
  show "set (descendants_of s i) = {d. (i, d) \<in> (parent_edges (sc_nodes s))\<^sup>*}"
    using descendants_exact(1)[OF assms(1)] by (simp only: below_def)
  show "distinct (descendants_of s i)" by (rule descendants_exact(2)[OF assms(1)])
qed

theorem descendants_preorder_witness:
  "descendants_of sample_scene (Id 1) =
     Id 1 # concat (map (descendants_of sample_scene) (children_of sample_scene (Some (Id 1)))) \<and>
   distinct (descendants_of sample_scene (Id 1))"
  by (intro conjI descendants_preorder[OF sample_scene_inv, THEN conjunct1]
      descendants_preorder[OF sample_scene_inv, THEN conjunct2, THEN conjunct2])
    (simp_all add: scene_contains_def)

text \<open>
  \<open>ancestors_of\<close> yields, nearest first, exactly the proper ancestors of a node, none twice: the
  fuel of the model cuts no chain short on a scene that meets the invariant.
\<close>

theorem ancestors_exact:
  assumes "scene_inv s"
  shows "set (map cn_id (ancestors_of s i)) = {a. (a, i) \<in> (parent_edges (sc_nodes s))\<^sup>+} \<and>
    distinct (map cn_id (ancestors_of s i)) \<and>
    head_opt (map cn_id (ancestors_of s i)) = parent_of (sc_nodes s) i"
proof -
  let ?ns = "sc_nodes s"
  have f: "forest_ok ?ns" using assms by (rule scene_invD)
  have "distinct (anc.up ?ns (walk_fuel ?ns) (parent_of ?ns i))"
    using f anc.up_distinct[of ?ns] by (cases "parent_of ?ns i") (simp_all add: forest_ok_def)
  moreover have "head_opt (anc.up ?ns (walk_fuel ?ns) (parent_of ?ns i)) = parent_of ?ns i"
    by (simp add: walk_fuel_def split: option.splits)
  ultimately show ?thesis
    unfolding ancestors_of_set[OF assms] using proper_ancestors[OF f, of i] by simp
qed

theorem ancestors_exact_witness: "head_opt (map cn_id (ancestors_of sample_scene (Id 4))) = Some (Id 2)"
  using ancestors_exact[OF sample_scene_inv, of "Id 4"] by (simp add: parent_of_def)

section \<open>Removal\<close>

text \<open>
  C6. Removing a node that is present always succeeds: it returns the stored node, deletes exactly
  the node and its descendants from the map, leaves every other node as it was, and the scene meets
  the invariant again.
\<close>

theorem scene_remove_exact:
  assumes inv: "scene_inv s" and n: "scene_get s i = Some n"
  shows "\<exists>s'. scene_remove i s = Inr (n, s') \<and> scene_inv s' \<and>
    (\<forall>j. scene_get s' j = (if j \<in> set (descendants_of s i) then None else scene_get s j))"
proof -
  obtain s' where s': "scene_remove i s = Inr (n, s')"
    using scene_remove_ok[OF inv] n by (metis scene_get_def)
  from scene_remove_inv[OF inv s'] descendants_exact(1)[OF inv, of i] s' show ?thesis
    by (auto simp: scene_get_def)
qed

theorem scene_remove_exact_witness:
  "\<exists>s'. scene_remove (Id 2) sample_scene = Inr (sample_inner, s') \<and> scene_inv s' \<and> scene_get s' (Id 2) = None"
proof -
  have "Id 2 \<in> set (descendants_of sample_scene (Id 2))" by (subst descendants_head) simp
  with scene_remove_exact[OF sample_scene_inv, of "Id 2" sample_inner] show ?thesis
    by (auto simp: scene_get_def)
qed

lemma scene_remove_undoes_insert:
  assumes inv: "scene_inv s" and ins: "scene_insert n s = Inr (i, s1)"
  shows "\<exists>s2. scene_remove i s1 = Inr (n, s2) \<and> sc_nodes s2 = sc_nodes s \<and>
    sc_child_index s2 = sc_child_index s"
proof -
  note ok = scene_insert_ok[OF ins]
  have inv1: "scene_inv s1" using inv ins by (rule scene_insert_inv)
  have "fmlookup (sc_nodes s1) i = Some n" by (simp add: ok(4))
  then obtain s2 where s2: "scene_remove i s1 = Inr (n, s2)" using scene_remove_ok[OF inv1] by blast
  note rem = scene_remove_inv[OF inv1 s2]
  have "cn_parent n \<noteq> Some i" using ok(2,3) by (auto simp: check_parent_None)
  then have "child_set (sc_nodes s1) (Some i) = {}"
    using no_children_absent[OF scene_invD(2)[OF inv] ok(2)] by (simp add: ok(4) child_set_fmupd)
  then have "below (sc_nodes s1) i = {i}" by (subst below_unfold) simp
  then have nodes: "sc_nodes s2 = sc_nodes s"
    using rem(3) ok(2) by (intro fmap_ext) (auto simp: ok(4))
  have "sc_child_index s2 = sc_child_index s"
    using scene_invD(4)[OF rem(1)] scene_invD(4)[OF inv] by (auto simp: nodes intro: index_agrees_unique)
  with s2 nodes show ?thesis by blast
qed

text \<open>
  Removing a node right after inserting it gives back the node and restores the node map and the
  child index exactly: the pair that \<open>InsertNode\<close> and its undo are made of.
\<close>

theorem remove_undoes_insert:
  assumes "scene_inv s" and "scene_insert n s = Inr (i, s1)"
  shows "\<exists>s2. scene_remove i s1 = Inr (n, s2) \<and> sc_nodes s2 = sc_nodes s \<and>
    sc_child_index s2 = sc_child_index s"
  using assms by (rule scene_remove_undoes_insert)

definition sample_new :: canvas_node where
  "sample_new = sample_node 9 (Some (Id 2)) 0x4000000000000000 (NodeData_Embed sample_embed)"

lemma sample_insert: "\<exists>s1. scene_insert sample_new sample_scene = Inr (Id 9, s1)"
proof -
  have "cn_id sample_new = Id 9" "cn_parent sample_new = Some (Id 2)"
    by (simp_all add: sample_new_def sample_node_def canvas_node_new_def)
  with scene_insert_succeeds[of sample_scene sample_new] show ?thesis
    by (auto simp: sample_nodes check_parent_def)
qed

theorem remove_undoes_insert_witness:
  "\<exists>s1 s2. scene_insert sample_new sample_scene = Inr (Id 9, s1) \<and>
     scene_remove (Id 9) s1 = Inr (sample_new, s2) \<and> sc_nodes s2 = sc_nodes sample_scene"
  using sample_insert remove_undoes_insert[OF sample_scene_inv] by blast

section \<open>Reparenting\<close>

lemma scene_set_parent_defined:
  "(\<exists>s'. scene_set_parent i p x s = Inr s') \<longleftrightarrow>
     scene_contains s i \<and> check_reparent (sc_nodes s) i p = None"
proof (cases "fmlookup (sc_nodes s) i")
  case None
  then show ?thesis by (simp add: scene_set_parent_def scene_contains_def)
next
  case (Some n)
  show ?thesis
  proof (cases "check_reparent (sc_nodes s) i p")
    case None
    with Some have "\<exists>s'. scene_set_parent i p x s = Inr s'"
      by (simp only: scene_set_parent_def option.case Let_def sum.inject) blast
    with None Some show ?thesis by (simp add: scene_contains_def)
  qed (simp add: scene_set_parent_def Some)
qed

text \<open>
  C7. \<open>set_parent\<close> succeeds exactly when the node is present, the new parent (if any) is a present
  container, and the new parent is not in the node's own subtree; the cycle check of the source,
  which walks up from the new parent, decides the last condition exactly.
\<close>

theorem scene_set_parent_accepts:
  assumes inv: "scene_inv s"
  shows "(\<exists>s'. scene_set_parent i p x s = Inr s') \<longleftrightarrow>
    scene_contains s i \<and>
    (case p of None \<Rightarrow> True
     | Some q \<Rightarrow> (\<exists>qn. scene_get s q = Some qn \<and> can_have_children qn) \<and> q \<notin> set (descendants_of s i))"
  unfolding scene_set_parent_defined check_reparent_None[OF scene_invD(3)[OF inv]] check_parent_None
    descendants_exact(1)[OF inv] scene_get_def
  by (cases p) auto

theorem scene_set_parent_accepts_witness:
  "\<not> (\<exists>s'. scene_set_parent (Id 1) (Some (Id 1)) IndexKey_FIRST sample_scene = Inr s')"
proof -
  have "Id 1 \<in> set (descendants_of sample_scene (Id 1))" by (subst descendants_head) simp
  then show ?thesis
    unfolding scene_set_parent_accepts[OF sample_scene_inv] option.case by blast
qed

text \<open>
  C8. A successful \<open>set_parent\<close> changes the parent and key of that one node and nothing else in the
  node map, lists it under the new parent at its place in the sibling order and no longer under any
  other, and keeps the invariant.
\<close>

theorem scene_set_parent_effect:
  assumes inv: "scene_inv s" and ok: "scene_set_parent i p x s = Inr s'"
  shows "scene_inv s' \<and>
    (\<forall>j. scene_get s' j = (if j = i then map_option (\<lambda>n. n\<lparr>cn_parent := p, cn_index := x\<rparr>) (scene_get s i)
                           else scene_get s j)) \<and>
    (\<forall>q. i \<in> set (children_of s' q) \<longleftrightarrow> q = p) \<and>
    sorted (map (child_key (sc_nodes s')) (children_of s' p))"
proof -
  have inv': "scene_inv s'" using inv ok by (rule scene_set_parent_inv)
  obtain n where n: "fmlookup (sc_nodes s) i = Some n"
    and nodes: "sc_nodes s' = fmupd i (n\<lparr>cn_parent := p, cn_index := x\<rparr>) (sc_nodes s)"
    using scene_set_parent_ok[OF ok] by blast
  have "i \<in> set (children_of s' q) \<longleftrightarrow> q = p" for q
    using children_set[OF scene_invD(4)[OF inv'], of q] by (auto simp: children_of_def child_set_def nodes)
  moreover have "sorted (map (child_key (sc_nodes s')) (children_of s' p))"
    using scene_invD(4)[OF inv'] by (simp add: index_agrees_def sib.ordered_bucket_def children_of_def)
  ultimately show ?thesis using inv' n nodes by (simp add: scene_get_def)
qed

lemma sample_move: "\<exists>s'. scene_set_parent (Id 3) None IndexKey_FIRST sample_scene = Inr s'"
  unfolding scene_set_parent_defined
  by (simp add: scene_contains_def check_reparent_def check_parent_def)

theorem scene_set_parent_effect_witness:
  "\<exists>s'. scene_set_parent (Id 3) None IndexKey_FIRST sample_scene = Inr s' \<and>
     Id 3 \<in> set (children_of s' None) \<and> Id 3 \<notin> set (children_of s' (Some (Id 1)))"
proof -
  obtain s' where s': "scene_set_parent (Id 3) None IndexKey_FIRST sample_scene = Inr s'"
    using sample_move by blast
  have "\<forall>q. Id 3 \<in> set (children_of s' q) \<longleftrightarrow> q = None"
    using scene_set_parent_effect[OF sample_scene_inv s'] by blast
  with s' show ?thesis by blast
qed

section \<open>Every reachable scene\<close>

text \<open>
  One step of a client of the graph. A write through \<open>get_mut\<close> or \<open>patch_node\<close> is constrained the way
  the operations of the engine constrain it: it leaves the node's id, parent and key alone, and keeps
  a node that has children a container.
\<close>

inductive scene_step :: "scene \<Rightarrow> scene \<Rightarrow> bool" where
  insert: "scene_insert n s = Inr (i, s') \<Longrightarrow> scene_step s s'"
| remove: "scene_remove i s = Inr (n, s') \<Longrightarrow> scene_step s s'"
| set_parent: "scene_set_parent i p x s = Inr s' \<Longrightarrow> scene_step s s'"
| set_index: "scene_set_index i x s = Inr s' \<Longrightarrow> scene_step s s'"
| update: "scene_update i f s = Inr s' \<Longrightarrow> scene_get s i = Some n \<Longrightarrow> keeps_place n (f n) \<Longrightarrow>
    can_have_children (f n) \<or> children_of s (Some i) = [] \<Longrightarrow> scene_step s s'"
| patch: "scene_patch_node m stamp s = Inr s' \<Longrightarrow>
    can_have_children m \<or> children_of s (Some (cn_id m)) = [] \<Longrightarrow> scene_step s s'"
| set_transform: "scene_set_transform i t s = Inr s' \<Longrightarrow> scene_step s s'"
| invalidate: "scene_step s (invalidate_world_cache s)"
| rebuild: "scene_step s (rebuild_child_index s)"
| clone: "scene_step s (snd (scene_clone s))"

inductive scene_reachable :: "scene \<Rightarrow> bool" where
  start: "scene_reachable (scene_default stamp inst)"
| step: "scene_reachable s \<Longrightarrow> scene_step s s' \<Longrightarrow> scene_reachable s'"

lemma scene_step_inv: "scene_step s s' \<Longrightarrow> scene_inv s \<Longrightarrow> scene_inv s'"
proof (induction rule: scene_step.induct)
  case (update i f s s' n)
  have "keeps_place m (f m) \<and> (can_have_children (f m) \<or> children_of s (Some i) = [])"
    if "fmlookup (sc_nodes s) i = Some m" for m
    using that update(2-4) by (simp add: scene_get_def)
  with update(5,1) show ?case by (rule scene_update_inv)
next
  case (invalidate s)
  then show ?case
    by (rule scene_inv_same) (simp_all add: invalidate_world_cache_def frame_simps)
next
  case (clone s)
  then show ?case by (rule scene_inv_same) (simp_all add: scene_clone_def)
next
  case (rebuild s)
  then show ?case using scene_invD by (blast intro: rebuild_inv)
qed (auto intro: inv_intros)

lemma scene_reachable_inv: "scene_reachable s \<Longrightarrow> scene_inv s"
  by (induction rule: scene_reachable.induct) (auto intro: scene_default_inv scene_step_inv)



end
