(* ===== verification/SceneBatch.thy ===== *)
theory SceneBatch
  imports SceneProps "HOL-Library.Multiset"
begin

text \<open>
  Batch insert, \<open>Scene::insert_many\<close> of \<open>crates/fanta-doc/src/scene/graph.rs\<close>, with its one-pass cycle
  check, and \<open>extract_subtree\<close>. The batch is proved equal to inserting its nodes one at a time in any
  order that works, and to be refused exactly when no order does.
\<close>

section \<open>The cycle check\<close>

datatype walk = Walk_Unvisited | Walk_OnPath | Walk_Done

type_synonym batch_position = "(node_id, nat) fmap"

definition next_position :: "canvas_node list \<Rightarrow> batch_position \<Rightarrow> nat \<Rightarrow> nat option" where
  \<comment> \<open>the batch position of the parent\<close>
  "next_position batch pos p =
     Option.bind (nth_opt batch p) (\<lambda>n. Option.bind (cn_parent n) (fmlookup pos))"

lemma unvisited_drop:
  "nth_opt st p = Some Walk_Unvisited \<Longrightarrow>
     length (filter ((=) Walk_Unvisited) (st[p := Walk_OnPath])) < length (filter ((=) Walk_Unvisited) st)"
proof (induction st arbitrary: p)
  case (Cons a st)
  show ?case
  proof (cases p)
    case 0
    with Cons.prems show ?thesis by (simp add: nth_opt_def)
  next
    case (Suc q)
    with Cons.prems Cons.IH[of q] show ?thesis by (auto simp: nth_opt_def split: if_splits)
  qed
qed (simp add: nth_opt_def)

function batch_walk ::
  "canvas_node list \<Rightarrow> batch_position \<Rightarrow> walk list \<Rightarrow> nat list \<Rightarrow> nat option \<Rightarrow>
   scene_error + (walk list \<times> nat list)" where
  \<comment> \<open>the inner loop, from a cursor: the states and the path at its end\<close>
  "batch_walk batch pos st path cursor =
     (case cursor of
        None \<Rightarrow> Inr (st, path)
      | Some p \<Rightarrow>
          (case nth_opt batch p of
             None \<Rightarrow> Inr (st, path)
           | Some n \<Rightarrow>
               (case nth_opt st p of
                  None \<Rightarrow> Inr (st, path)
                | Some Walk_Done \<Rightarrow> Inr (st, path)
                | Some Walk_OnPath \<Rightarrow>
                    Inl (SceneError_Cycle
                      (case Option.bind (last_opt path) (nth_opt batch) of None \<Rightarrow> cn_id n | Some l \<Rightarrow> cn_id l)
                      (cn_id n))
                | Some Walk_Unvisited \<Rightarrow>
                    batch_walk batch pos (st[p := Walk_OnPath]) (path @ [p])
                      (Option.bind (cn_parent n) (fmlookup pos)))))"
  by pat_completeness auto
termination
  by (relation "measure (\<lambda>(batch, pos, st, path, cursor). length (filter ((=) Walk_Unvisited) st))")
    (simp_all add: unvisited_drop)

declare batch_walk.simps [simp del]

fun walk_starts :: "canvas_node list \<Rightarrow> batch_position \<Rightarrow> walk list \<Rightarrow> nat list \<Rightarrow> scene_error option" where
  \<comment> \<open>the outer loop; a walked path is done before the next start\<close>
  "walk_starts batch pos st [] = None"
| "walk_starts batch pos st (start # starts) =
     (if nth_opt st start \<noteq> Some Walk_Unvisited then walk_starts batch pos st starts
      else (case batch_walk batch pos st [] (Some start) of
              Inl e \<Rightarrow> Some e
            | Inr (st', path) \<Rightarrow> walk_starts batch pos (fold (\<lambda>p s. s[p := Walk_Done]) path st') starts))"

definition check_batch_acyclic :: "canvas_node list \<Rightarrow> batch_position \<Rightarrow> scene_error option" where
  "check_batch_acyclic batch pos =
     walk_starts batch pos (replicate (length batch) Walk_Unvisited) [0..<length batch]"

section \<open>Batch insert\<close>

fun batch_positions ::
  "node_map \<Rightarrow> nat \<Rightarrow> canvas_node list \<Rightarrow> batch_position \<Rightarrow> scene_error + batch_position" where
  "batch_positions ns k [] pos = Inr pos"
| "batch_positions ns k (n # batch) pos =
     (if fmlookup ns (cn_id n) \<noteq> None \<or> fmlookup pos (cn_id n) \<noteq> None
      then Inl (SceneError_Duplicate (cn_id n))
      else batch_positions ns (Suc k) batch (fmupd (cn_id n) k pos))"

fun check_batch_parents ::
  "node_map \<Rightarrow> canvas_node list \<Rightarrow> batch_position \<Rightarrow> canvas_node list \<Rightarrow> scene_error option" where
  "check_batch_parents ns batch pos [] = None"
| "check_batch_parents ns batch pos (n # nodes) =
     (case cn_parent n of
        None \<Rightarrow> check_batch_parents ns batch pos nodes
      | Some p \<Rightarrow>
          (case (case fmlookup ns p of Some e \<Rightarrow> Some e | None \<Rightarrow> Option.bind (fmlookup pos p) (nth_opt batch)) of
             None \<Rightarrow> Some (SceneError_ParentMissing p)
           | Some pn \<Rightarrow>
               (if can_have_children pn then check_batch_parents ns batch pos nodes
                else Some (SceneError_ParentNotContainer p))))"

definition new_children :: "canvas_node list \<Rightarrow> child_map" where
  "new_children batch =
     fold (\<lambda>n m. fmupd (cn_parent n) (children_in m (cn_parent n) @ [cn_id n]) m) batch fmempty"

definition extend_bucket :: "node_map \<Rightarrow> child_map \<Rightarrow> node_id option \<Rightarrow> child_map \<Rightarrow> child_map" where
  "extend_bucket ns new p ci = fmupd p (sort_children ns (children_in ci p @ children_in new p)) ci"

definition insert_many :: "canvas_node list \<Rightarrow> scene \<Rightarrow> scene_error + (node_id list \<times> scene)" where
  \<comment> \<open>the buckets are visited in the order of their parents; the source visits them in the order of a hash
      map, which shows only in which of the touched parents gets which fresh stamp\<close>
  "insert_many batch s =
     (if batch = [] then Inr ([], s)
      else
        (case batch_positions (sc_nodes s) 0 batch fmempty of
           Inl e \<Rightarrow> Inl e
         | Inr pos \<Rightarrow>
             (case check_batch_parents (sc_nodes s) batch pos batch of
                Some e \<Rightarrow> Inl e
              | None \<Rightarrow>
                  (case check_batch_acyclic batch pos of
                     Some e \<Rightarrow> Inl e
                   | None \<Rightarrow>
                       (let ids = map cn_id batch;
                            new = new_children batch;
                            s1 = s\<lparr>sc_nodes := fold (\<lambda>n. fmupd (cn_id n) n) batch (sc_nodes s)\<rparr>;
                            s2 = s1\<lparr>sc_child_index :=
                                   fold (extend_bucket (sc_nodes s1) new) (fm_keys new) (sc_child_index s1)\<rparr>;
                            s3 = record_change SceneChange_Structural (clear_derived_caches s2)
                        in Inr (ids, touch_stamps (ids @ List.map_filter (\<lambda>p. p) (fm_keys new)) s3))))))"

section \<open>Subtrees\<close>

definition extract_subtree :: "node_id \<Rightarrow> scene \<Rightarrow> (scene \<times> scene) option" where
  \<comment> \<open>the new scene, and the old one with the process counters the new one advanced\<close>
  "extract_subtree root s =
     (case fmlookup (sc_nodes s) root of
        None \<Rightarrow> None
      | Some n \<Rightarrow>
          (let t = scene_default (sc_next_stamp s) (sc_next_instance s);
               t1 = t\<lparr>sc_nodes := fmupd root (n\<lparr>cn_parent := None\<rparr>) fmempty\<rparr>;
               put = (\<lambda>i m. case fmlookup (sc_nodes s) i of None \<Rightarrow> m | Some x \<Rightarrow> fmupd i x m);
               t2 = t1\<lparr>sc_nodes := fold put (tl (descendants_of s root)) (sc_nodes t1)\<rparr>;
               t3 = rebuild_child_index t2
           in Some (t3, s\<lparr>sc_next_stamp := sc_next_stamp t3, sc_next_instance := sc_next_instance t3\<rparr>)))"

section \<open>What the cycle check decides\<close>

inductive ends :: "('a \<Rightarrow> 'a option) \<Rightarrow> 'a \<Rightarrow> bool" for nx where
  \<comment> \<open>following the links from here comes to an end\<close>
  ends_stop: "nx p = None \<Longrightarrow> ends nx p"
| ends_next: "nx p = Some q \<Longrightarrow> ends nx q \<Longrightarrow> ends nx p"

definition leads :: "('a \<Rightarrow> 'a option) \<Rightarrow> 'a \<Rightarrow> 'a \<Rightarrow> bool" where
  "leads nx p q \<longleftrightarrow> nx p = Some q"

lemma ends_step: "nx p = Some q \<Longrightarrow> ends nx p \<longleftrightarrow> ends nx q"
  by (auto elim: ends.cases intro: ends_next)

lemma ends_no_loop: "ends nx p \<Longrightarrow> \<not> (leads nx)\<^sup>+\<^sup>+ p p"
proof (induction rule: ends.induct)
  case (ends_stop p)
  then show ?case by (auto simp: leads_def dest: tranclpD)
next
  case (ends_next p q)
  show ?case
  proof
    assume "(leads nx)\<^sup>+\<^sup>+ p p"
    then have "(leads nx)\<^sup>*\<^sup>* q p" using ends_next.hyps(1) by (auto simp: leads_def dest!: tranclpD)
    moreover have "leads nx p q" using ends_next.hyps(1) by (simp add: leads_def)
    ultimately have "(leads nx)\<^sup>+\<^sup>+ q q" by (rule rtranclp_into_tranclp1)
    with ends_next.IH show False ..
  qed
qed

fun chain :: "('a \<Rightarrow> 'a option) \<Rightarrow> 'a list \<Rightarrow> 'a option \<Rightarrow> bool" where
  \<comment> \<open>each element leads to the one after it, the last one to the cursor\<close>
  "chain nx [] cursor = True"
| "chain nx [p] cursor = (nx p = cursor)"
| "chain nx (p # q # ps) cursor = (nx p = Some q \<and> chain nx (q # ps) cursor)"

lemma chain_snoc: "chain nx (ps @ [p]) cursor \<longleftrightarrow> chain nx ps (Some p) \<and> nx p = cursor"
proof (induction ps)
  case (Cons a ps)
  then show ?case by (cases ps) auto
qed simp

lemma chain_ends:
  "chain nx ps cursor \<Longrightarrow> (\<forall>c. cursor = Some c \<longrightarrow> ends nx c) \<Longrightarrow> p \<in> set ps \<Longrightarrow> ends nx p"
proof (induction ps arbitrary: cursor rule: rev_induct)
  case (snoc a ps)
  then have c: "chain nx ps (Some a)" "nx a = cursor" by (simp_all add: chain_snoc)
  have a: "ends nx a"
  proof (cases cursor)
    case None
    with c(2) show ?thesis by (auto intro: ends_stop)
  next
    case (Some q)
    with c(2) snoc.prems(2) show ?thesis by (auto intro: ends_next)
  qed
  show ?case using snoc.IH[OF c(1)] snoc.prems(3) a by auto
qed simp

lemma chain_loop: "chain nx ps (Some c) \<Longrightarrow> p \<in> set ps \<Longrightarrow> (leads nx)\<^sup>+\<^sup>+ p c"
proof (induction ps arbitrary: c rule: rev_induct)
  case (snoc a ps)
  then have a: "chain nx ps (Some a)" "leads nx a c" by (simp_all add: chain_snoc leads_def)
  from snoc.prems(2) snoc.IH[OF a(1)] a(2) show ?case by (auto intro: tranclp.trancl_into_trancl)
qed simp

definition walk_ok :: "(nat \<Rightarrow> nat option) \<Rightarrow> nat \<Rightarrow> walk list \<Rightarrow> nat list \<Rightarrow> bool" where
  \<comment> \<open>the path is what is marked as such, and what is done ends\<close>
  "walk_ok nx n st path \<longleftrightarrow> length st = n \<and> (\<forall>p < n. st ! p = Walk_OnPath \<longleftrightarrow> p \<in> set path) \<and>
     set path \<subseteq> {..<n} \<and> (\<forall>p < n. st ! p = Walk_Done \<longrightarrow> ends nx p)"

lemma batch_walk_sound:
  assumes "walk_ok (next_position batch pos) (length batch) st path" "chain (next_position batch pos) path cursor"
    and "\<forall>c. cursor = Some c \<longrightarrow> c < length batch"
    and "\<forall>k \<in> fmran' pos. k < length batch"
  shows "case batch_walk batch pos st path cursor of
      Inl e \<Rightarrow> \<exists>p < length batch. \<not> ends (next_position batch pos) p
    | Inr (st', path') \<Rightarrow> walk_ok (next_position batch pos) (length batch) st' path' \<and> set path \<subseteq> set path' \<and>
        (\<forall>c. cursor = Some c \<longrightarrow> st' ! c \<noteq> Walk_Unvisited) \<and>
        (\<forall>p < length batch. st' ! p = Walk_Unvisited \<longrightarrow> st ! p = Walk_Unvisited) \<and>
        (\<forall>p \<in> set path'. ends (next_position batch pos) p)"
  using assms
proof (induction batch pos st path cursor rule: batch_walk.induct)
  case (1 batch pos st path cursor)
  show ?case
  proof (cases cursor)
    case None
    then have "batch_walk batch pos st path cursor = Inr (st, path)" by (subst batch_walk.simps) simp
    moreover have "\<forall>q \<in> set path. ends (next_position batch pos) q"
      using "1.prems"(2) None by (auto intro: chain_ends)
    ultimately show ?thesis using "1.prems"(1) by (simp add: None)
  next
    case (Some p)
    then have p: "p < length batch" "nth_opt batch p = Some (batch ! p)" "nth_opt st p = Some (st ! p)"
      using "1.prems" by (auto simp: nth_opt_def walk_ok_def)
    have nx: "next_position batch pos p = Option.bind (cn_parent (batch ! p)) (fmlookup pos)"
      by (simp add: next_position_def p)
    show ?thesis
    proof (cases "st ! p")
      case Walk_Done
      then have e: "ends (next_position batch pos) p" using "1.prems"(1) p(1) by (simp add: walk_ok_def)
      then have "\<forall>q \<in> set path. ends (next_position batch pos) q"
        using "1.prems"(2) Some by (auto intro: chain_ends)
      moreover have "batch_walk batch pos st path cursor = Inr (st, path)"
        by (subst batch_walk.simps) (simp add: Some p Walk_Done)
      ultimately show ?thesis using "1.prems"(1) by (simp add: Some Walk_Done)
    next
      case Walk_OnPath
      then have "p \<in> set path" using "1.prems"(1) p(1) by (auto simp: walk_ok_def)
      then have "(leads (next_position batch pos))\<^sup>+\<^sup>+ p p"
        using "1.prems"(2) Some by (intro chain_loop) simp_all
      then have "\<not> ends (next_position batch pos) p" by (metis ends_no_loop)
      moreover have "\<exists>e. batch_walk batch pos st path cursor = Inl e"
        by (subst batch_walk.simps) (simp add: Some p Walk_OnPath)
      then obtain e where "batch_walk batch pos st path cursor = Inl e" ..
      ultimately show ?thesis using p(1) by (simp only: sum.case) (intro exI[of _ p] conjI)
    next
      case Walk_Unvisited
      let ?st = "st[p := Walk_OnPath]" and ?path = "path @ [p]" and ?cur = "Option.bind (cn_parent (batch ! p)) (fmlookup pos)"
      have ok: "walk_ok (next_position batch pos) (length batch) ?st ?path"
        using "1.prems"(1) p(1) Walk_Unvisited by (auto simp: walk_ok_def nth_list_update)
      have ch: "chain (next_position batch pos) ?path ?cur" using "1.prems"(2) Some by (simp add: chain_snoc nx)
      have cur: "\<forall>c. ?cur = Some c \<longrightarrow> c < length batch"
        using "1.prems"(4) by (auto simp: bind_eq_Some_conv intro: fmran'I)
      have unfold: "batch_walk batch pos st path cursor = batch_walk batch pos ?st ?path ?cur"
        by (subst batch_walk.simps) (simp add: Some p Walk_Unvisited)
      note IH = "1.IH"[OF Some p(2,3) Walk_Unvisited ok ch cur "1.prems"(4)]
      show ?thesis
      proof (cases "batch_walk batch pos ?st ?path ?cur")
        case (Inl e)
        with IH show ?thesis unfolding unfold by simp
      next
        case (Inr r)
        obtain st' path' where r: "r = (st', path')" by (cases r)
        from IH have f: "walk_ok (next_position batch pos) (length batch) st' path'" "set ?path \<subseteq> set path'"
          "\<forall>q < length batch. st' ! q = Walk_Unvisited \<longrightarrow> ?st ! q = Walk_Unvisited"
          "\<forall>q \<in> set path'. ends (next_position batch pos) q"
          unfolding Inr r sum.case prod.case by blast+
        have "st' ! p = Walk_OnPath" using f(1,2) p(1) by (simp add: walk_ok_def)
        moreover have "\<forall>q < length batch. st' ! q = Walk_Unvisited \<longrightarrow> st ! q = Walk_Unvisited"
          using f(3) Walk_Unvisited by (metis nth_list_update_neq)
        ultimately show ?thesis using f(1,2,4) unfolding unfold Inr r by (simp add: Some)
      qed
    qed
  qed
qed

lemma fold_done:
  "set path \<subseteq> {..<length st} \<Longrightarrow>
     length (fold (\<lambda>p s. s[p := Walk_Done]) path st) = length st \<and>
     (\<forall>q < length st. fold (\<lambda>p s. s[p := Walk_Done]) path st ! q = (if q \<in> set path then Walk_Done else st ! q))"
  by (induction path arbitrary: st) (auto simp: nth_list_update)

lemma walk_starts_exact:
  assumes "walk_ok (next_position batch pos) (length batch) st []" "\<forall>k \<in> fmran' pos. k < length batch"
    and "set starts \<subseteq> {..<length batch}"
  shows "(walk_starts batch pos st starts = None \<longrightarrow> (\<forall>p \<in> set starts. ends (next_position batch pos) p)) \<and>
    (walk_starts batch pos st starts \<noteq> None \<longrightarrow> (\<exists>p < length batch. \<not> ends (next_position batch pos) p))"
  using assms(1,3)
proof (induction starts arbitrary: st)
  case (Cons start starts)
  let ?nx = "next_position batch pos" and ?n = "length batch"
  have start: "start < ?n" "nth_opt st start = Some (st ! start)"
    using Cons.prems by (auto simp: walk_ok_def nth_opt_def)
  show ?case
  proof (cases "st ! start = Walk_Unvisited")
    case False
    then have "st ! start = Walk_Done" using Cons.prems(1) start(1) by (cases "st ! start") (auto simp: walk_ok_def)
    then have "ends ?nx start" using Cons.prems(1) start(1) by (simp add: walk_ok_def)
    with False Cons.IH[OF Cons.prems(1)] Cons.prems(2) start(2) show ?thesis by simp
  next
    case True
    have cur: "\<forall>c. Some start = Some c \<longrightarrow> c < ?n" using start(1) by simp
    note walk = batch_walk_sound[OF Cons.prems(1) chain.simps(1)[THEN iffD2, OF TrueI] cur assms(2)]
    show ?thesis
    proof (cases "batch_walk batch pos st [] (Some start)")
      case (Inl e)
      with walk True start(2) show ?thesis by simp
    next
      case (Inr r)
      obtain st' path where r: "r = (st', path)" by (cases r)
      from walk have w: "walk_ok ?nx ?n st' path" "st' ! start \<noteq> Walk_Unvisited" "\<forall>p \<in> set path. ends ?nx p"
        unfolding Inr r sum.case prod.case by blast+
      have "ends ?nx start"
        using w start(1) by (cases "st' ! start") (auto simp: walk_ok_def)
      moreover have "walk_ok ?nx ?n (fold (\<lambda>p s. s[p := Walk_Done]) path st') []"
        using w(1,3) fold_done[of path st'] by (auto simp: walk_ok_def)
      from Cons.IH[OF this] Cons.prems(2)
      have "(walk_starts batch pos (fold (\<lambda>p s. s[p := Walk_Done]) path st') starts = None \<longrightarrow>
          (\<forall>p \<in> set starts. ends ?nx p)) \<and>
        (walk_starts batch pos (fold (\<lambda>p s. s[p := Walk_Done]) path st') starts \<noteq> None \<longrightarrow>
          (\<exists>p < ?n. \<not> ends ?nx p))" by simp
      ultimately show ?thesis using True start(2) Inr r by simp
    qed
  qed
qed simp

lemma check_batch_acyclic_iff:
  assumes "\<forall>k \<in> fmran' pos. k < length batch"
  shows "check_batch_acyclic batch pos = None \<longleftrightarrow> (\<forall>p < length batch. ends (next_position batch pos) p)"
proof -
  have "walk_ok (next_position batch pos) (length batch) (replicate (length batch) Walk_Unvisited) []"
    by (simp add: walk_ok_def)
  moreover have "set [0..<length batch] \<subseteq> {..<length batch}" by auto
  ultimately show ?thesis
    using walk_starts_exact[OF _ assms, of "replicate (length batch) Walk_Unvisited" "[0..<length batch]"]
    unfolding check_batch_acyclic_def by (metis atLeastLessThan_iff le0 set_upt)
qed

section \<open>The positions\<close>

lemma batch_positions_iff:
  "(\<exists>pos. batch_positions ns k batch pos0 = Inr pos) \<longleftrightarrow>
     distinct (map cn_id batch) \<and> (\<forall>n \<in> set batch. fmlookup ns (cn_id n) = None \<and> fmlookup pos0 (cn_id n) = None)"
  by (induction batch arbitrary: k pos0) (auto split: if_splits)

lemma batch_positions_lookup:
  "batch_positions ns k batch pos0 = Inr pos \<Longrightarrow>
     fmlookup pos i = (case list_position (\<lambda>n. cn_id n = i) batch of Some p \<Rightarrow> Some (k + p) | None \<Rightarrow> fmlookup pos0 i)"
proof (induction batch arbitrary: k pos0)
  case (Cons n batch)
  then have rest: "batch_positions ns (Suc k) batch (fmupd (cn_id n) k pos0) = Inr pos"
    by (auto split: if_splits)
  then have "\<forall>m \<in> set batch. fmlookup (fmupd (cn_id n) k pos0) (cn_id m) = None"
    using batch_positions_iff[of ns "Suc k" batch "fmupd (cn_id n) k pos0"] by blast
  then have fresh_id: "\<forall>m \<in> set batch. cn_id m \<noteq> cn_id n" by (auto split: if_splits)
  show ?case
  proof (cases "cn_id n = i")
    case True
    with fresh_id have "list_position (\<lambda>m. cn_id m = i) batch = None" by simp
    with Cons.IH[OF rest] True show ?thesis by simp
  next
    case False
    with Cons.IH[OF rest] show ?thesis
      by (cases "list_position (\<lambda>m. cn_id m = i) batch") (simp_all del: list_position_None)
  qed
qed simp

lemma positions_exact:
  assumes "batch_positions ns 0 batch fmempty = Inr pos"
  shows "fmlookup pos i = list_position (\<lambda>n. cn_id n = i) batch"
    and "distinct (map cn_id batch)" and "n \<in> set batch \<Longrightarrow> fmlookup ns (cn_id n) = None"
    and "\<forall>k \<in> fmran' pos. k < length batch"
proof -
  show look: "fmlookup pos i = list_position (\<lambda>n. cn_id n = i) batch" for i
    using batch_positions_lookup[OF assms, of i]
    by (cases "list_position (\<lambda>n. cn_id n = i) batch") (simp_all del: list_position_None)
  show "distinct (map cn_id batch)" "n \<in> set batch \<Longrightarrow> fmlookup ns (cn_id n) = None"
    using assms batch_positions_iff[of ns 0 batch fmempty] by blast+
  show "\<forall>k \<in> fmran' pos. k < length batch"
    using look by (auto simp: fmlookup_ran'_iff intro: list_position_bound)
qed

lemma position_of:
  assumes "distinct (map cn_id batch)"
  shows "list_position (\<lambda>n. cn_id n = i) batch = Some p \<longleftrightarrow> p < length batch \<and> cn_id (batch ! p) = i"
proof
  assume "list_position (\<lambda>n. cn_id n = i) batch = Some p"
  then show "p < length batch \<and> cn_id (batch ! p) = i"
    using list_position_bound list_position_holds by blast
next
  assume p: "p < length batch \<and> cn_id (batch ! p) = i"
  then have "batch ! p \<in> set batch" "cn_id (batch ! p) = i" by simp_all
  then have "list_position (\<lambda>n. cn_id n = i) batch \<noteq> None" by (auto simp only: list_position_None)
  then obtain q where q: "list_position (\<lambda>n. cn_id n = i) batch = Some q" by blast
  have "map cn_id batch ! p = map cn_id batch ! q"
    using list_position_bound[OF q] list_position_holds[OF q] p by simp
  then have "p = q"
    using nth_eq_iff_index_eq[OF assms, of p q] list_position_bound[OF q] p by simp
  with q show "list_position (\<lambda>n. cn_id n = i) batch = Some p" by simp
qed

section \<open>Grounded nodes\<close>

inductive grounded :: "canvas_node list \<Rightarrow> canvas_node \<Rightarrow> bool" for B where
  \<comment> \<open>going up from the node through nodes of the batch comes to one whose parent is outside\<close>
  grounded_out: "(\<And>m. m \<in> set B \<Longrightarrow> cn_parent n \<noteq> Some (cn_id m)) \<Longrightarrow> grounded B n"
| grounded_in: "m \<in> set B \<Longrightarrow> cn_parent n = Some (cn_id m) \<Longrightarrow> grounded B m \<Longrightarrow> grounded B n"

lemma grounded_subset: "grounded B n \<Longrightarrow> set C \<subseteq> set B \<Longrightarrow> distinct (map cn_id B) \<Longrightarrow> grounded C n"
proof (induction rule: grounded.induct)
  case (grounded_out n)
  then show ?case by (auto intro: grounded.grounded_out)
next
  case (grounded_in m n)
  show ?case
  proof (cases "m \<in> set C")
    case True
    with grounded_in show ?thesis by (auto intro: grounded.grounded_in)
  next
    case False
    have "m' \<notin> set C" if "cn_id m' = cn_id m" for m'
      using that False grounded_in.hyps(1) grounded_in.prems by (auto simp: distinct_map dest: inj_onD)
    with grounded_in.hyps(2) show ?thesis by (auto intro: grounded.grounded_out)
  qed
qed

lemma ends_iff_grounded:
  assumes pos: "\<And>i. fmlookup pos i = list_position (\<lambda>n. cn_id n = i) batch" and d: "distinct (map cn_id batch)"
    and p: "p < length batch"
  shows "ends (next_position batch pos) p \<longleftrightarrow> grounded batch (batch ! p)"
proof -
  have nx: "next_position batch pos p = Option.bind (cn_parent (batch ! p)) (\<lambda>i. list_position (\<lambda>n. cn_id n = i) batch)"
    if "p < length batch" for p
    using that by (cases "cn_parent (batch ! p)") (simp_all add: next_position_def nth_opt_def pos del: list_position_None)
  have "ends (next_position batch pos) p \<Longrightarrow> p < length batch \<Longrightarrow> grounded batch (batch ! p)" for p
  proof (induction rule: ends.induct)
    case (ends_stop p)
    then have "list_position (\<lambda>n. cn_id n = i) batch = None" if "cn_parent (batch ! p) = Some i" for i
      using that nx by (simp del: list_position_None)
    note none = this
    show ?case
    proof (rule grounded_out, rule notI)
      fix m assume m: "m \<in> set batch" and e: "cn_parent (batch ! p) = Some (cn_id m)"
      from none[OF e] m show False by (auto simp only: list_position_None)
    qed
  next
    case (ends_next p q)
    then obtain i where i: "cn_parent (batch ! p) = Some i" "list_position (\<lambda>n. cn_id n = i) batch = Some q"
      using nx[OF ends_next.prems] by (cases "cn_parent (batch ! p)") simp_all
    note q = list_position_bound[OF i(2)] list_position_holds[OF i(2)]
    show ?case
      by (rule grounded_in[of "batch ! q"]) (use q i(1) ends_next.IH in simp_all)
  qed
  moreover have "grounded batch n \<Longrightarrow> p < length batch \<Longrightarrow> batch ! p = n \<Longrightarrow> ends (next_position batch pos) p" for n p
  proof (induction arbitrary: p rule: grounded.induct)
    case (grounded_out n)
    then have "list_position (\<lambda>n. cn_id n = i) batch = None" if "cn_parent n = Some i" for i
      using that by auto
    then show ?case using grounded_out.prems
      by (intro ends_stop) (cases "cn_parent n", simp_all add: nx del: list_position_None)
  next
    case (grounded_in m n)
    then obtain q where q: "q < length batch" "batch ! q = m" by (meson in_set_conv_nth)
    then have "next_position batch pos p = Some q"
      using grounded_in by (simp add: nx position_of[OF d])
    then show ?case using grounded_in.IH[OF q] by (rule ends_next)
  qed
  ultimately show ?thesis using p by blast
qed

section \<open>Which batches are accepted\<close>

definition parent_near :: "node_map \<Rightarrow> canvas_node list \<Rightarrow> canvas_node \<Rightarrow> bool" where
  \<comment> \<open>the parent, where there is one, is a container of the scene or of the batch\<close>
  "parent_near ns B n \<longleftrightarrow> (\<forall>p. cn_parent n = Some p \<longrightarrow>
     (case fmlookup ns p of
        Some pn \<Rightarrow> can_have_children pn
      | None \<Rightarrow> \<exists>m \<in> set B. cn_id m = p \<and> can_have_children m))"

definition batch_ok :: "node_map \<Rightarrow> canvas_node list \<Rightarrow> bool" where
  "batch_ok ns B \<longleftrightarrow> distinct (map cn_id B) \<and>
     (\<forall>n \<in> set B. fmlookup ns (cn_id n) = None \<and> parent_near ns B n \<and> grounded B n)"

lemma same_id: "distinct (map cn_id B) \<Longrightarrow> m \<in> set B \<Longrightarrow> n \<in> set B \<Longrightarrow> cn_id m = cn_id n \<Longrightarrow> m = n"
  by (auto simp: distinct_map dest: inj_onD)

lemma check_batch_parents_iff:
  assumes pos: "\<And>i. fmlookup pos i = list_position (\<lambda>n. cn_id n = i) batch" and d: "distinct (map cn_id batch)"
  shows "check_batch_parents ns batch pos nodes = None \<longleftrightarrow> (\<forall>n \<in> set nodes. parent_near ns batch n)"
proof -
  have find: "Option.bind (fmlookup pos p) (nth_opt batch) = (if \<exists>m \<in> set batch. cn_id m = p then
      Some (batch ! the (list_position (\<lambda>n. cn_id n = p) batch)) else None)" for p
  proof (cases "list_position (\<lambda>n. cn_id n = p) batch")
    case None
    then have "\<not> (\<exists>m \<in> set batch. cn_id m = p)" by simp
    then show ?thesis unfolding pos None by simp
  next
    case (Some q)
    then have "\<exists>m \<in> set batch. cn_id m = p" using position_of[OF d] nth_mem by blast
    then show ?thesis unfolding pos Some using list_position_bound[OF Some] by (simp add: nth_opt_def)
  qed
  have found: "batch ! the (list_position (\<lambda>n. cn_id n = cn_id m) batch) = m" if m: "m \<in> set batch" for m
  proof -
    obtain q where "q < length batch" "batch ! q = m" using m by (meson in_set_conv_nth)
    then show ?thesis using position_of[OF d, of "cn_id m" q] by simp
  qed
  have one: "(case (case fmlookup ns p of Some e \<Rightarrow> Some e | None \<Rightarrow> Option.bind (fmlookup pos p) (nth_opt batch)) of
      None \<Rightarrow> False | Some pn \<Rightarrow> can_have_children pn) \<longleftrightarrow> parent_near ns batch n" if "cn_parent n = Some p" for n p
  proof (cases "fmlookup ns p")
    case (Some e)
    with that show ?thesis by (simp add: parent_near_def)
  next
    case none: None
    show ?thesis
    proof (cases "\<exists>m \<in> set batch. cn_id m = p")
      case False
      with that none show ?thesis by (auto simp: parent_near_def find)
    next
      case True
      then obtain m where m: "m \<in> set batch" "cn_id m = p" by blast
      have "Option.bind (fmlookup pos p) (nth_opt batch) = Some m"
        unfolding find using True found[OF m(1)] by (simp only: if_True m(2))
      moreover have "(\<exists>k \<in> set batch. cn_id k = p \<and> can_have_children k) \<longleftrightarrow> can_have_children m"
      proof
        assume "\<exists>k \<in> set batch. cn_id k = p \<and> can_have_children k"
        then obtain k where k: "k \<in> set batch" "cn_id k = p" "can_have_children k" by blast
        then have "k = m" using same_id[OF d k(1) m(1)] m(2) by simp
        with k(3) show "can_have_children m" by simp
      qed (use m in blast)
      ultimately show ?thesis using that none by (simp add: parent_near_def)
    qed
  qed
  show ?thesis
  proof (induction nodes)
    case (Cons n nodes)
    show ?case
    proof (cases "cn_parent n")
      case None
      with Cons show ?thesis by (simp add: parent_near_def)
    next
      case (Some p)
      show ?thesis
      proof (cases "case fmlookup ns p of Some e \<Rightarrow> Some e | None \<Rightarrow> Option.bind (fmlookup pos p) (nth_opt batch)")
        case None
        with Cons.IH one[OF Some] show ?thesis by (simp only: check_batch_parents.simps Some) simp
      next
        case found: (Some pn)
        with Cons.IH one[OF Some] show ?thesis by (simp only: check_batch_parents.simps Some) auto
      qed
    qed
  qed simp
qed

lemma insert_many_accepts: "(\<exists>r. insert_many batch s = Inr r) \<longleftrightarrow> batch_ok (sc_nodes s) batch"
proof (cases "batch_positions (sc_nodes s) 0 batch fmempty")
  case (Inl e)
  then have "\<not> (distinct (map cn_id batch) \<and> (\<forall>n \<in> set batch. fmlookup (sc_nodes s) (cn_id n) = None))"
    using batch_positions_iff[of "sc_nodes s" 0 batch fmempty] by simp
  moreover from Inl have "batch \<noteq> []" by auto
  ultimately show ?thesis using Inl by (auto simp: insert_many_def batch_ok_def)
next
  case (Inr pos)
  note p = positions_exact[OF Inr]
  have "check_batch_acyclic batch pos = None \<longleftrightarrow> (\<forall>n \<in> set batch. grounded batch n)"
    unfolding check_batch_acyclic_iff[OF p(4)] using ends_iff_grounded[OF p(1,2)] by (metis in_set_conv_nth)
  with check_batch_parents_iff[OF p(1,2), of "sc_nodes s" batch] p(2,3) Inr show ?thesis
    by (cases "batch = []") (auto simp: insert_many_def batch_ok_def Let_def split: option.splits)
qed

lemma grounded_root: "grounded B n \<Longrightarrow> n \<in> set B \<Longrightarrow> \<exists>m \<in> set B. \<forall>k \<in> set B. cn_parent m \<noteq> Some (cn_id k)"
  by (induction rule: grounded.induct) auto

lemma batch_ok_take:
  assumes ok: "batch_ok ns B" and n: "n \<in> set B"
  shows "batch_ok (fmupd (cn_id n) n ns) (remove1 n B)"
proof -
  have d: "distinct (map cn_id B)" and dB: "distinct B" using ok by (simp_all add: batch_ok_def distinct_map)
  have rest: "m \<in> set (remove1 n B) \<longleftrightarrow> m \<in> set B \<and> m \<noteq> n" for m using dB by simp
  have "distinct (map cn_id (remove1 n B))"
    using d by (simp add: distinct_map inj_on_diff dB)
  moreover have "fmlookup (fmupd (cn_id n) n ns) (cn_id m) = None" if "m \<in> set (remove1 n B)" for m
    using that ok same_id[OF d _ n, of m] by (auto simp: batch_ok_def rest)
  moreover have "grounded (remove1 n B) m" if "m \<in> set (remove1 n B)" for m
    by (rule grounded_subset[of B m]) (use that ok in \<open>auto simp: batch_ok_def rest d\<close>)
  moreover have "parent_near (fmupd (cn_id n) n ns) (remove1 n B) m" if m: "m \<in> set (remove1 n B)" for m
    unfolding parent_near_def
  proof (intro allI impI)
    fix p assume p: "cn_parent m = Some p"
    have near: "case fmlookup ns p of Some pn \<Rightarrow> can_have_children pn
      | None \<Rightarrow> \<exists>k \<in> set B. cn_id k = p \<and> can_have_children k"
      using ok m p by (auto simp: batch_ok_def parent_near_def rest)
    show "case fmlookup (fmupd (cn_id n) n ns) p of Some pn \<Rightarrow> can_have_children pn
      | None \<Rightarrow> \<exists>k \<in> set (remove1 n B). cn_id k = p \<and> can_have_children k"
    proof (cases "p = cn_id n")
      case True
      then have "fmlookup ns p = None" using ok n by (simp add: batch_ok_def)
      with near True same_id[OF d _ n] show ?thesis by auto
    next
      case False
      with near show ?thesis by (auto simp: rest split: option.splits)
    qed
  qed
  ultimately show ?thesis by (simp add: batch_ok_def)
qed

lemma insert_order:
  "batch_ok (sc_nodes s) B \<Longrightarrow> \<exists>order s'. mset order = mset B \<and> insert_all order s = Inr s'"
proof (induction "length B" arbitrary: B s)
  case (Suc k)
  then obtain x where "x \<in> set B" by (cases B) auto
  then obtain n where n: "n \<in> set B" "\<forall>k \<in> set B. cn_parent n \<noteq> Some (cn_id k)"
    using grounded_root[of B x] Suc.prems by (auto simp: batch_ok_def)
  have absent: "fmlookup (sc_nodes s) (cn_id n) = None" and near: "parent_near (sc_nodes s) B n"
    using n(1) Suc.prems by (simp_all add: batch_ok_def)
  have "check_parent (sc_nodes s) (cn_parent n) = None"
  proof (cases "cn_parent n")
    case (Some p)
    have "\<not> (\<exists>m \<in> set B. cn_id m = p \<and> can_have_children m)" using n(2) Some by auto
    with near Some show ?thesis by (auto simp: parent_near_def check_parent_def split: option.splits)
  qed (simp add: check_parent_def)
  then obtain s1 where s1: "scene_insert n s = Inr (cn_id n, s1)" "sc_nodes s1 = fmupd (cn_id n) n (sc_nodes s)"
    using scene_insert_succeeds[OF absent] by blast
  have "k = length (remove1 n B)" using Suc.hyps(2) n(1) by (simp add: length_remove1)
  moreover have "batch_ok (sc_nodes s1) (remove1 n B)" using batch_ok_take[OF Suc.prems n(1)] s1(2) by simp
  ultimately obtain order s' where o: "mset order = mset (remove1 n B)" "insert_all order s1 = Inr s'"
    using Suc.hyps(1) by blast
  have "mset (n # order) = mset B" by (simp add: o(1) n(1))
  moreover have "insert_all (n # order) s = Inr s'" by (simp add: o(2) s1(1))
  ultimately show ?case by blast
qed auto

section \<open>The result of a batch\<close>

lemma insert_all_ok:
  "insert_all B s = Inr s' \<Longrightarrow> batch_ok (sc_nodes s) B"
proof (induction B arbitrary: s)
  case (Cons n B)
  then obtain i s1 where one: "scene_insert n s = Inr (i, s1)" and rest: "insert_all B s1 = Inr s'"
    by (auto split: sum.splits)
  note ins = scene_insert_ok[OF one]
  have nodes: "sc_nodes s1 = fmupd (cn_id n) n (sc_nodes s)" using ins by simp
  note ok = Cons.IH[OF rest, unfolded nodes]
  have absent: "fmlookup (sc_nodes s) (cn_id n) = None" using ins by simp
  have ids: "\<forall>m \<in> set B. cn_id m \<noteq> cn_id n \<and> fmlookup (sc_nodes s) (cn_id m) = None"
    using ok by (auto simp: batch_ok_def split: if_splits)
  then have d: "distinct (map cn_id (n # B))" using ok by (auto simp: batch_ok_def)
  have out: "cn_parent n \<noteq> Some (cn_id m)" if "m \<in> set (n # B)" for m
    using ins(3) absent ids that by (auto simp: check_parent_None)
  have "parent_near (sc_nodes s) (n # B) n"
    using ins(3) by (auto simp: parent_near_def check_parent_None)
  moreover have "grounded (n # B) n" using out by (rule grounded_out)
  moreover have "parent_near (sc_nodes s) (n # B) m" if m: "m \<in> set B" for m
    using ok m absent by (fastforce simp: batch_ok_def parent_near_def split: if_splits option.splits)
  moreover have "grounded (n # B) m" if "grounded B m" for m using that
  proof (induction rule: grounded.induct)
    case (grounded_out m)
    show ?case
    proof (cases "cn_parent m = Some (cn_id n)")
      case True
      with \<open>grounded (n # B) n\<close> show ?thesis by (auto intro: grounded_in)
    next
      case False
      show ?thesis by (rule grounded.grounded_out) (use grounded_out.hyps False in auto)
    qed
  next
    case (grounded_in k m)
    then show ?case by (auto intro: grounded.grounded_in)
  qed
  ultimately show ?case using d ids absent ok by (auto simp: batch_ok_def)
qed (simp add: batch_ok_def)

lemma batch_ok_order: "mset A = mset B \<Longrightarrow> batch_ok ns A \<longleftrightarrow> batch_ok ns B"
proof -
  assume eq: "mset A = mset B"
  then have sets: "set A = set B" by (metis set_mset_mset)
  have "distinct (map cn_id A) \<longleftrightarrow> distinct (map cn_id B)"
    using eq by (metis mset_map mset_eq_imp_distinct_iff)
  moreover have "grounded A n \<longleftrightarrow> grounded B n" if "distinct (map cn_id A)" "distinct (map cn_id B)" for n
    using sets that grounded_subset by blast
  moreover have "parent_near ns A n \<longleftrightarrow> parent_near ns B n" for n unfolding parent_near_def sets ..
  ultimately show ?thesis unfolding batch_ok_def sets by blast
qed

lemma fold_upd_lookup:
  "distinct (map cn_id B) \<Longrightarrow>
     fmlookup (fold (\<lambda>n. fmupd (cn_id n) n) B ns) i =
       (case find (\<lambda>n. cn_id n = i) B of Some n \<Rightarrow> Some n | None \<Rightarrow> fmlookup ns i)"
proof (induction B arbitrary: ns)
  case (Cons n B)
  show ?case
  proof (cases "cn_id n = i")
    case True
    have "\<forall>m \<in> set B. cn_id m \<noteq> cn_id n" using Cons.prems by (metis distinct.simps(2) image_eqI list.simps(9) set_map)
    then have "find (\<lambda>n. cn_id n = i) B = None" using True by (simp add: find_None_iff)
    with Cons True show ?thesis by simp
  next
    case False
    with Cons show ?thesis by (simp split: option.split)
  qed
qed simp

lemma find_id: "distinct (map cn_id B) \<Longrightarrow> find (\<lambda>n. cn_id n = i) B = Some n \<longleftrightarrow> n \<in> set B \<and> cn_id n = i"
  by (induction B) auto

lemma fold_upd_order:
  assumes "mset A = mset B" "distinct (map cn_id A)"
  shows "fold (\<lambda>n. fmupd (cn_id n) n) A ns = fold (\<lambda>n. fmupd (cn_id n) n) B ns"
proof (rule fmap_ext)
  fix i
  have sets: "set A = set B" using assms(1) by (metis set_mset_mset)
  have dB: "distinct (map cn_id B)" using assms by (metis mset_map mset_eq_imp_distinct_iff)
  have "find (\<lambda>n. cn_id n = i) A = find (\<lambda>n. cn_id n = i) B"
    using find_id[OF assms(2)] find_id[OF dB] sets by (metis not_None_eq)
  then show "fmlookup (fold (\<lambda>n. fmupd (cn_id n) n) A ns) i = fmlookup (fold (\<lambda>n. fmupd (cn_id n) n) B ns) i"
    by (simp add: fold_upd_lookup assms(2) dB)
qed

lemma new_children_lookup: "children_in (new_children B) p = map cn_id (filter (\<lambda>n. cn_parent n = p) B)"
proof -
  have "children_in (fold (\<lambda>n m. fmupd (cn_parent n) (children_in m (cn_parent n) @ [cn_id n]) m) B m) p =
      children_in m p @ map cn_id (filter (\<lambda>n. cn_parent n = p) B)" for m
    by (induction B arbitrary: m) (auto simp: children_in_def)
  then show ?thesis by (simp add: new_children_def children_in_def)
qed

lemma new_children_keys: "fmdom' (new_children B) = cn_parent ` set B"
proof -
  have "fmdom' (fold (\<lambda>n m. fmupd (cn_parent n) (children_in m (cn_parent n) @ [cn_id n]) m) B m) =
      fmdom' m \<union> cn_parent ` set B" for m
    by (induction B arbitrary: m) auto
  then show ?thesis by (simp add: new_children_def)
qed

lemma extend_buckets_lookup:
  "distinct ps \<Longrightarrow> fmlookup (fold (extend_bucket ns new) ps ci) p =
     (if p \<in> set ps then Some (sort_children ns (children_in ci p @ children_in new p)) else fmlookup ci p)"
  by (induction ps arbitrary: ci) (auto simp: extend_bucket_def children_in_def)

lemma batch_child_set:
  assumes "distinct (map cn_id B)" "\<forall>n \<in> set B. fmlookup ns (cn_id n) = None"
  shows "child_set (fold (\<lambda>n. fmupd (cn_id n) n) B ns) p =
    child_set ns p \<union> cn_id ` {n \<in> set B. cn_parent n = p}"
  using assms(2) find_id[OF assms(1)] same_id[OF assms(1)]
  by (fastforce simp: child_set_def fold_upd_lookup[OF assms(1)] find_None_iff split: option.splits)

lemma batch_index_agrees:
  assumes agree: "index_agrees ns ci" and ok: "batch_ok ns B"
  shows "index_agrees (fold (\<lambda>n. fmupd (cn_id n) n) B ns)
    (fold (extend_bucket (fold (\<lambda>n. fmupd (cn_id n) n) B ns) (new_children B)) (fm_keys (new_children B)) ci)"
    (is "index_agrees ?ns ?ci")
  unfolding index_agrees_def
proof (intro allI conjI)
  fix p
  let ?new = "map cn_id (filter (\<lambda>n. cn_parent n = p) B)"
  have d: "distinct (map cn_id B)" and absent: "\<forall>n \<in> set B. fmlookup ns (cn_id n) = None"
    using ok by (simp_all add: batch_ok_def)
  have look: "fmlookup ?ci p = (if p \<in> cn_parent ` set B
      then Some (sort_children ?ns (children_in ci p @ ?new)) else fmlookup ci p)"
    by (simp add: extend_buckets_lookup new_children_keys new_children_lookup)
  have kids: "child_set ?ns p = child_set ns p \<union> set ?new" by (auto simp: batch_child_set[OF d absent])
  have old: "set (children_in ci p) = child_set ns p" "distinct (children_in ci p)"
    using children_set[OF agree] children_distinct[OF agree] by simp_all
  have apart: "child_set ns p \<inter> set ?new = {}" using absent by (auto dest: child_set_present)
  show "sib.ordered_bucket ?ns (child_set ?ns p) (children_in ?ci p)"
  proof (cases "p \<in> cn_parent ` set B")
    case True
    have "distinct (children_in ci p @ ?new)"
      using old apart d by (auto simp: distinct_map_filter)
    from sib.ordered_bucket_sort[OF this, of ?ns] show ?thesis
      using True by (simp add: children_in_def[of ?ci] look kids old(1) sort_children_def)
  next
    case False
    then have none: "?new = []" by (auto simp: filter_empty_conv)
    have "sib.ordered_bucket ns (child_set ns p) (children_in ci p)" using agree by (simp add: index_agrees_def)
    moreover have "child_key ?ns i = child_key ns i" if "i \<in> child_set ns p" for i
    proof -
      have "find (\<lambda>n. cn_id n = i) B = None"
        using child_set_present[OF that] absent by (auto simp: find_None_iff)
      then show ?thesis by (simp add: child_key_def fold_upd_lookup[OF d])
    qed
    ultimately have "sib.ordered_bucket ?ns (child_set ns p) (children_in ci p)"
      using ordered_bucket_cong[of "child_set ns p" ?ns ns] by blast
    moreover have "child_set ?ns p = child_set ns p" unfolding kids none by simp
    moreover have "children_in ?ci p = children_in ci p" using False unfolding children_in_def look by simp
    ultimately show ?thesis by simp
  qed
  show "fmlookup ?ci p \<noteq> Some []"
  proof (cases "p \<in> cn_parent ` set B")
    case True
    then have "set (sort_children ?ns (children_in ci p @ ?new)) \<noteq> {}" by (auto simp: sort_children_def)
    then have "sort_children ?ns (children_in ci p @ ?new) \<noteq> []" by auto
    with True show ?thesis by (simp only: look if_True option.inject) simp
  next
    case False
    with agree show ?thesis by (simp add: look index_agrees_def)
  qed
qed

lemma insert_many_ok:
  assumes "insert_many batch s = Inr (ids, s')"
  shows "ids = map cn_id batch" "sc_nodes s' = fold (\<lambda>n. fmupd (cn_id n) n) batch (sc_nodes s)"
    "sc_child_index s' = fold (extend_bucket (sc_nodes s') (new_children batch)) (fm_keys (new_children batch)) (sc_child_index s)"
    "sc_revision s' = sc_revision s + (if batch = [] then 0 else 1)"
proof -
  have "set (fm_keys (new_children [])) = {}" unfolding fm_keys_set new_children_keys by simp
  then have "fm_keys (new_children []) = []" by (simp only: set_empty)
  then show "ids = map cn_id batch" "sc_nodes s' = fold (\<lambda>n. fmupd (cn_id n) n) batch (sc_nodes s)"
    "sc_child_index s' = fold (extend_bucket (sc_nodes s') (new_children batch)) (fm_keys (new_children batch)) (sc_child_index s)"
    "sc_revision s' = sc_revision s + (if batch = [] then 0 else 1)"
    using assms
    by (auto simp: insert_many_def frame_simps record_change_def Let_def split: if_splits sum.splits option.splits)
qed

text \<open>
  C23. A batch insert succeeds exactly when its nodes can be inserted one at a time in some order, and
  whatever order works, it leaves the same nodes and the same child index as \<open>insert\<close> node by node,
  in one revision.
\<close>

theorem insert_many_is_inserting_each:
  assumes "scene_inv s"
  shows "((\<exists>r. insert_many batch s = Inr r) \<longleftrightarrow> (\<exists>order s''. mset order = mset batch \<and> insert_all order s = Inr s'')) \<and>
    (\<forall>ids s' order s''. insert_many batch s = Inr (ids, s') \<longrightarrow> mset order = mset batch \<longrightarrow>
       insert_all order s = Inr s'' \<longrightarrow>
       ids = map cn_id batch \<and> scene_inv s' \<and> sc_nodes s' = sc_nodes s'' \<and> sc_child_index s' = sc_child_index s'' \<and>
       sc_revision s' = sc_revision s + (if batch = [] then 0 else 1))"
proof (intro conjI allI impI)
  show "(\<exists>r. insert_many batch s = Inr r) \<longleftrightarrow> (\<exists>order s''. mset order = mset batch \<and> insert_all order s = Inr s'')"
    using insert_many_accepts insert_order insert_all_ok batch_ok_order by metis
next
  fix ids s' order s''
  assume many: "insert_many batch s = Inr (ids, s')" and perm: "mset order = mset batch"
    and each: "insert_all order s = Inr s''"
  note ok = insert_many_ok[OF many]
  have accept: "batch_ok (sc_nodes s) batch" using many insert_many_accepts by blast
  have d: "distinct (map cn_id order)" using insert_all_ok[OF each] by (simp add: batch_ok_def)
  show "ids = map cn_id batch" "sc_revision s' = sc_revision s + (if batch = [] then 0 else 1)" using ok by simp_all
  show nodes: "sc_nodes s' = sc_nodes s''"
    using fold_upd_order[OF perm d] by (simp add: ok(2) insert_all_nodes[OF each])
  have inv: "scene_inv s''" using assms each by (rule insert_all_inv)
  have agree: "index_agrees (sc_nodes s') (sc_child_index s')"
    using batch_index_agrees[OF scene_invD(4)[OF assms] accept] by (simp add: ok(2,3))
  show "sc_child_index s' = sc_child_index s''"
    using agree scene_invD(4)[OF inv] unfolding nodes by (rule index_agrees_unique)
  then show "scene_inv s'" using inv nodes by (simp add: scene_inv_def)
qed

definition sample_box :: canvas_node where
  "sample_box = sample_node 8 (Some (Id 2)) 0x4000000000000000 (NodeData_Group sample_group)"

definition sample_boxed :: canvas_node where
  "sample_boxed = sample_node 9 (Some (Id 8)) 0x3FF0000000000000 (NodeData_Embed sample_embed)"

lemma sample_box_facts:
  "cn_id sample_box = Id 8" "cn_parent sample_box = Some (Id 2)" "can_have_children sample_box"
  "cn_id sample_boxed = Id 9" "cn_parent sample_boxed = Some (Id 8)"
  by (simp_all add: sample_box_def sample_boxed_def sample_node_def canvas_node_new_def can_have_children_def is_group_def)

theorem insert_many_is_inserting_each_witness:
  "\<exists>s'. insert_many [sample_boxed, sample_box] sample_scene = Inr ([Id 9, Id 8], s') \<and> scene_inv s'"
proof -
  let ?batch = "[sample_boxed, sample_box]" and ?order = "[sample_box, sample_boxed]"
  obtain s1 where s1: "scene_insert sample_box sample_scene = Inr (Id 8, s1)"
    "sc_nodes s1 = fmupd (Id 8) sample_box (sc_nodes sample_scene)"
    using scene_insert_succeeds[of sample_scene sample_box] by (auto simp: sample_nodes sample_box_facts check_parent_def)
  obtain s2 where s2: "scene_insert sample_boxed s1 = Inr (Id 9, s2)"
    using scene_insert_succeeds[of s1 sample_boxed] by (auto simp: sample_nodes s1(2) sample_box_facts check_parent_def)
  have each: "insert_all ?order sample_scene = Inr s2" and perm: "mset ?order = mset ?batch" by (simp_all add: s1 s2)
  note spec = insert_many_is_inserting_each[OF sample_scene_inv, of ?batch]
  from spec each perm obtain r where "insert_many ?batch sample_scene = Inr r" by blast
  then obtain ids s' where many: "insert_many ?batch sample_scene = Inr (ids, s')" by (cases r) simp
  with spec each perm have "ids = map cn_id ?batch" "scene_inv s'" by blast+
  with many show ?thesis by (simp add: sample_box_facts)
qed

section \<open>A subtree as a scene\<close>

lemma fold_put_lookup:
  "fmlookup (fold (\<lambda>i m. case fmlookup ns i of None \<Rightarrow> m | Some x \<Rightarrow> fmupd i x m) is m) j =
     (if j \<in> set is \<and> fmlookup ns j \<noteq> None then fmlookup ns j else fmlookup m j)"
  by (induction "is" arbitrary: m) (auto split: option.splits)

lemma extract_subtree_nodes:
  assumes inv: "scene_inv s" and root: "fmlookup (sc_nodes s) root = Some n"
    and ok: "extract_subtree root s = Some (t, s')"
  shows "fmlookup (sc_nodes t) i =
    (if i = root then Some (n\<lparr>cn_parent := None\<rparr>)
     else if i \<in> below (sc_nodes s) root then fmlookup (sc_nodes s) i else None)"
    and "sc_child_index t = derived_child_index (sc_nodes t)"
proof -
  define ds where "ds = tl (descendants_of s root)"
  have head: "descendants_of s root = root # ds" unfolding ds_def by (rule descendants_head)
  have "set (root # ds) = below (sc_nodes s) root" "distinct (root # ds)"
    unfolding head[symmetric] using descendants_exact[OF inv] by simp_all
  then have "set ds = below (sc_nodes s) root - {root}" by auto
  then have tl: "set (tl (descendants_of s root)) = below (sc_nodes s) root - {root}" by (simp only: ds_def)
  have nodes: "sc_nodes t = fold (\<lambda>i m. case fmlookup (sc_nodes s) i of None \<Rightarrow> m | Some x \<Rightarrow> fmupd i x m)
      (tl (descendants_of s root)) (fmupd root (n\<lparr>cn_parent := None\<rparr>) fmempty)"
    using ok root unfolding extract_subtree_def Let_def by (simp only: option.case option.inject prod.inject) (simp add: rebuild_frame, elim conjE, hypsubst, simp add: rebuild_frame)
  show "fmlookup (sc_nodes t) i =
    (if i = root then Some (n\<lparr>cn_parent := None\<rparr>)
     else if i \<in> below (sc_nodes s) root then fmlookup (sc_nodes s) i else None)"
    unfolding nodes fold_put_lookup tl by simp
  show "sc_child_index t = derived_child_index (sc_nodes t)"
    using ok root by (auto simp: extract_subtree_def Let_def rebuild_frame)
qed

text \<open>
  C25. A subtree extracted as a scene of its own meets the scene invariant, holds the root, detached,
  and exactly the nodes below it, unchanged; every node keeps its list of children.
\<close>

theorem extract_subtree_exact:
  assumes "scene_inv s" and "fmlookup (sc_nodes s) root = Some n" and "extract_subtree root s = Some (t, s')"
  shows "scene_inv t \<and>
    (\<forall>i. scene_get t i = (if i = root then Some (n\<lparr>cn_parent := None\<rparr>)
       else if i \<in> set (descendants_of s root) then scene_get s i else None)) \<and>
    (\<forall>i \<in> set (descendants_of s root). children_of t (Some i) = children_of s (Some i))"
proof -
  note t = extract_subtree_nodes[OF assms]
  let ?ns = "sc_nodes s" and ?ms = "sc_nodes t"
  note d = descendants_exact(1)[OF assms(1), of root] and ok = scene_invD[OF assms(1)]
  have rootb: "root \<in> below ?ns root" by (simp add: below_def)
  have parent: "p \<in> below ?ns root" if i: "i \<in> below ?ns root" "i \<noteq> root" "parent_of ?ns i = Some p" for i p
    using parent_edge_reach[of p i ?ns root] i by (auto simp: below_def parent_edges_def)
  have keys: "keys_ok ?ms" using ok(1) assms(2) by (auto simp: keys_ok_def t(1) split: if_splits)
  have parents: "parents_ok ?ms"
    unfolding parents_ok_def
  proof (intro allI impI)
    fix i m p assume m: "fmlookup ?ms i = Some m" "cn_parent m = Some p"
    then have i: "i \<noteq> root" "i \<in> below ?ns root" "fmlookup ?ns i = Some m"
      by (auto simp: t(1) split: if_splits)
    then have p: "p \<in> below ?ns root" using parent m(2) by (simp add: parent_of_def)
    obtain pn where pn: "fmlookup ?ns p = Some pn" "can_have_children pn"
      using parents_okE[OF ok(2) i(3) m(2)] by blast
    with p assms(2) show "\<exists>pn. fmlookup ?ms p = Some pn \<and> can_have_children pn"
      by (cases "p = root") (auto simp: t(1) can_have_children_def is_group_def is_boolean_def)
  qed
  have edges: "parent_of ?ms i = Some p \<longleftrightarrow> i \<in> below ?ns root \<and> i \<noteq> root \<and> parent_of ?ns i = Some p" for i p
    by (auto simp: parent_of_def t(1))
  then have "parent_edges ?ms \<subseteq> parent_edges ?ns" by (auto simp: parent_edges_def)
  with ok(3) have forest: "forest_ok ?ms" unfolding forest_ok_def by (rule acyclic_subset)
  have agree: "index_agrees ?ms (sc_child_index t)" using index_agrees_derived[OF keys] t(2) by simp
  have kids: "children_of t (Some i) = children_of s (Some i)" if i: "i \<in> below ?ns root" for i
  proof -
    have cs: "child_set ?ms (Some i) = child_set ?ns (Some i)"
    proof (rule set_eqI)
      fix c
      have "c \<noteq> root" if "parent_of ?ns c = Some i"
        using forest_irrefl[OF ok(3), of i c] that i by (auto simp: below_def parent_edges_def)
      then show "c \<in> child_set ?ms (Some i) \<longleftrightarrow> c \<in> child_set ?ns (Some i)"
        using below_closed[OF i] by (auto simp: child_set_Some edges)
    qed
    have "child_key ?ms c = child_key ?ns c" if "c \<in> child_set ?ns (Some i)" for c
    proof -
      have "c \<in> below ?ns root" "c \<noteq> root"
        using that[unfolded cs[symmetric]] by (auto simp: child_set_Some edges)
      then show ?thesis by (simp add: child_key_def t(1))
    qed
    then have "sib.ordered_bucket ?ns (child_set ?ns (Some i)) (children_in (sc_child_index t) (Some i))"
      using ordered_bucket_cong[of "child_set ?ns (Some i)" ?ns ?ms]
        agree[unfolded index_agrees_def, THEN spec, of "Some i"] by (simp add: cs)
    with ok(4) show ?thesis
      unfolding children_of_def index_agrees_def by (blast intro: sib.ordered_bucket_unique)
  qed
  show ?thesis
    using keys parents forest agree kids by (simp add: scene_inv_def scene_get_def t(1) d rootb)
qed

theorem extract_subtree_exact_witness:
  "\<exists>t s'. extract_subtree (Id 2) sample_scene = Some (t, s') \<and> scene_inv t"
proof -
  have root: "fmlookup (sc_nodes sample_scene) (Id 2) = Some sample_inner" by (simp add: sample_nodes)
  obtain t s' where t: "extract_subtree (Id 2) sample_scene = Some (t, s')"
    using root by (simp add: extract_subtree_def Let_def)
  from extract_subtree_exact[OF sample_scene_inv root t] t show ?thesis by blast
qed

end
