(* ===== verification/SceneChanges.thy ===== *)
theory SceneChanges
  imports SceneBatch
begin

text \<open>
  The change log as its readers see it: \<open>Scene::changes_since\<close> of \<open>crates/fanta-doc/src/scene/graph.rs\<close>.
  A copy of the scene taken at some revision is brought up to date node by node from the answer; what
  makes that safe is that the answer names every node that changed since, or is refused.
\<close>

section \<open>The query\<close>

definition sort_dedup :: "node_id list \<Rightarrow> node_id list" where
  "sort_dedup xs = remdups_adj (sort xs)"

fun collect_changes ::
  "u64 \<Rightarrow> (u64 \<times> scene_change) list \<Rightarrow> u64 option \<Rightarrow> node_id list \<Rightarrow> node_id list \<Rightarrow>
   (u64 option \<times> node_id list \<times> node_id list) option" where
  \<comment> \<open>the loop over the log, newest entry first\<close>
  "collect_changes revision [] oldest ts ns = Some (oldest, ts, ns)"
| "collect_changes revision ((r, c) # log) oldest ts ns =
     (if r \<le> revision then Some (oldest, ts, ns)
      else
        (let next = (\<lambda>ts ns.
           if length ts + length ns > SCENE_DELTA_MAX_NODES
           then (let ts' = sort_dedup ts; ns' = sort_dedup ns
                 in if length ts' + length ns' > SCENE_DELTA_MAX_NODES then None
                    else collect_changes revision log (Some r) ts' ns')
           else collect_changes revision log (Some r) ts ns)
         in (case c of
               SceneChange_Transform i \<Rightarrow> next (ts @ [i]) ns
             | SceneChange_Node i \<Rightarrow> next ts (ns @ [i])
             | SceneChange_Structural \<Rightarrow> None
             | SceneChange_Unknown \<Rightarrow> None)))"

definition changes_since :: "u64 \<Rightarrow> scene \<Rightarrow> scene_delta option" where
  "changes_since revision s =
     (if revision = sc_revision s then Some \<lparr>delta_transforms = [], delta_nodes = []\<rparr>
      else
        (case collect_changes revision (rev (sc_change_log s)) None [] [] of
           None \<Rightarrow> None
         | Some (oldest, ts, ns) \<Rightarrow>
             (if oldest \<noteq> Some (revision + 1) then None
              else
                (let ns' = sort_dedup ns;
                     ts' = filter (\<lambda>i. i \<notin> set ns') (sort_dedup ts)
                 in if length ts' + length ns' > SCENE_DELTA_MAX_NODES then None
                    else if list_ex (\<lambda>i. fmlookup (sc_nodes s) i = None) (ts' @ ns') then None
                    else Some \<lparr>delta_transforms = ts', delta_nodes = ns'\<rparr>))))"

section \<open>Edits and what they log\<close>

inductive logged_edit :: "scene_change \<Rightarrow> scene \<Rightarrow> scene \<Rightarrow> bool" where
  \<comment> \<open>an edit of the graph with the change its documentation says it logs\<close>
  log_insert: "scene_insert n s = Inr (i, s') \<Longrightarrow> logged_edit SceneChange_Structural s s'"
| log_insert_many: "insert_many (n # ns) s = Inr (ids, s') \<Longrightarrow> logged_edit SceneChange_Structural s s'"
| log_remove: "scene_remove i s = Inr (n, s') \<Longrightarrow> logged_edit SceneChange_Structural s s'"
| log_set_parent: "scene_set_parent i p x s = Inr s' \<Longrightarrow> logged_edit SceneChange_Structural s s'"
| log_set_index: "scene_set_index i x s = Inr s' \<Longrightarrow> logged_edit SceneChange_Structural s s'"
| log_rebuild: "logged_edit SceneChange_Structural s (rebuild_child_index s)"
| log_update: "scene_update i f s = Inr s' \<Longrightarrow> logged_edit (SceneChange_Node i) s s'"
| log_patch: "scene_patch_node m stamp s = Inr s' \<Longrightarrow> logged_edit (SceneChange_Node (cn_id m)) s s'"
| log_transform: "scene_set_transform i t s = Inr s' \<Longrightarrow> logged_edit (SceneChange_Transform i) s s'"
| log_unknown: "logged_edit SceneChange_Unknown s (invalidate_world_cache s)"

inductive edit_run :: "scene \<Rightarrow> scene_change list \<Rightarrow> scene \<Rightarrow> bool" for s where
  edit_none: "edit_run s [] s"
| edit_more: "edit_run s cs t \<Longrightarrow> logged_edit c t u \<Longrightarrow> edit_run s (cs @ [c]) u"

lemma record_change_log:
  "sc_revision (record_change c s) = sc_revision s + 1"
  "sc_change_log (record_change c s) =
     (let log = sc_change_log s @ [(sc_revision s + 1, c)] in drop (length log - SCENE_CHANGE_LOG_CAP) log)"
  by (simp_all add: record_change_def Let_def)

definition logs :: "scene_change \<Rightarrow> scene \<Rightarrow> scene \<Rightarrow> bool" where
  "logs c s s' \<longleftrightarrow> sc_revision s' = sc_revision (record_change c s) \<and>
     sc_change_log s' = sc_change_log (record_change c s)"

lemma logs_frames:
  "sc_revision (child_index_insert p i s) = sc_revision s" "sc_change_log (child_index_insert p i s) = sc_change_log s"
  "sc_revision (child_index_remove p i s) = sc_revision s" "sc_change_log (child_index_remove p i s) = sc_change_log s"
  "sc_revision (drop_world_cache_subtree i s) = sc_revision s"
  "sc_change_log (drop_world_cache_subtree i s) = sc_change_log s"
  by (simp_all add: child_index_insert_def child_index_remove_def drop_world_cache_subtree_def)

lemma invalidate_logs:
  "sc_revision (invalidate_node_edit i s) = sc_revision s" "sc_change_log (invalidate_node_edit i s) = sc_change_log s"
  "sc_revision (invalidate_transform_edit i s) = sc_revision s"
  "sc_change_log (invalidate_transform_edit i s) = sc_change_log s"
  by (simp_all add: invalidate_node_edit_def invalidate_transform_edit_def logs_frames Let_def)

lemma remove_one_logs:
  "sc_revision (fst (remove_one d st)) = sc_revision (fst st)"
  "sc_change_log (fst (remove_one d st)) = sc_change_log (fst st)"
  by (simp_all add: remove_one_def logs_frames Let_def split: option.split)

lemma remove_all_logs:
  "sc_revision (fst (remove_all root ds st)) = sc_revision (fst st)"
  "sc_change_log (fst (remove_all root ds st)) = sc_change_log (fst st)"
  by (induction ds arbitrary: st) (simp_all add: remove_one_logs Let_def)

lemmas all_log_frames = frame_simps logs_frames invalidate_logs record_change_log

lemma logged_edit_logs: "logged_edit c s s' \<Longrightarrow> logs c s s'"
proof (induction rule: logged_edit.induct)
  case (log_remove i s n s')
  obtain s1 r where s1: "remove_all i (descendants_of s i) (s, None) = (s1, r)" by fastforce
  have "sc_revision s1 = sc_revision s" "sc_change_log s1 = sc_change_log s"
    using remove_all_logs[of i "descendants_of s i" "(s, None)"] by (simp_all add: s1)
  with log_remove show ?case
    by (auto simp: logs_def scene_remove_def s1 next_geometry_stamp_def all_log_frames Let_def
        split: if_splits option.splits)
qed (auto simp: logs_def scene_insert_def insert_many_def scene_set_parent_def scene_set_index_def
    rebuild_child_index_def next_geometry_stamp_def scene_update_def scene_patch_node_def scene_set_transform_def
    invalidate_world_cache_def all_log_frames Let_def split: if_splits option.splits sum.splits)

section \<open>The log of a run\<close>

definition log_ok :: "scene \<Rightarrow> bool" where
  \<comment> \<open>the entries carry consecutive revisions up to the current one, and fit the window\<close>
  "log_ok s \<longleftrightarrow> length (sc_change_log s) \<le> SCENE_CHANGE_LOG_CAP \<and>
     (\<forall>k < length (sc_change_log s).
        unat (fst (sc_change_log s ! k)) + (length (sc_change_log s) - 1 - k) = unat (sc_revision s))"

definition log_entries :: "u64 \<Rightarrow> scene_change list \<Rightarrow> (u64 \<times> scene_change) list" where
  "log_entries r cs = map (\<lambda>k. (r + of_nat (Suc k), cs ! k)) [0..<length cs]"

lemma log_entries_snoc: "log_entries r (cs @ [c]) = log_entries r cs @ [(r + of_nat (Suc (length cs)), c)]"
  by (simp add: log_entries_def nth_append)

lemma length_log_entries [simp]: "length (log_entries r cs) = length cs"
  by (simp add: log_entries_def)

lemma drop_window: "drop (length (drop (length xs - n) xs @ [y]) - n) (drop (length xs - n) xs @ [y]) =
    drop (length (xs @ [y]) - n) (xs @ [y])"
  by (cases "length xs \<le> n") (auto simp: Suc_diff_le drop_Suc tl_drop)

lemma edit_run_log:
  assumes "edit_run s cs s'" "length (sc_change_log s) \<le> SCENE_CHANGE_LOG_CAP"
  shows "sc_revision s' = sc_revision s + of_nat (length cs) \<and>
    sc_change_log s' = drop (length (sc_change_log s @ log_entries (sc_revision s) cs) - SCENE_CHANGE_LOG_CAP)
      (sc_change_log s @ log_entries (sc_revision s) cs)"
  using assms
proof (induction rule: edit_run.induct)
  case edit_none
  then show ?case by (simp add: log_entries_def)
next
  case (edit_more cs t c u)
  let ?full = "sc_change_log s @ log_entries (sc_revision s) cs"
  have l: "sc_revision u = sc_revision t + 1"
    "sc_change_log u = drop (length (sc_change_log t @ [(sc_revision t + 1, c)]) - SCENE_CHANGE_LOG_CAP)
       (sc_change_log t @ [(sc_revision t + 1, c)])"
    using logged_edit_logs[OF edit_more.hyps(2)] by (simp_all add: logs_def record_change_log Let_def)
  have rev: "sc_revision t = sc_revision s + of_nat (length cs)"
    and log: "sc_change_log t = drop (length ?full - SCENE_CHANGE_LOG_CAP) ?full"
    using edit_more.IH[OF edit_more.prems] by simp_all
  have next_rev: "sc_revision t + 1 = sc_revision s + of_nat (Suc (length cs))" by (simp add: rev)
  have "sc_change_log u = drop (length (?full @ [(sc_revision t + 1, c)]) - SCENE_CHANGE_LOG_CAP)
      (?full @ [(sc_revision t + 1, c)])"
    unfolding l(2) log by (rule drop_window)
  then have "sc_change_log u = drop (length (?full @ [(sc_revision s + of_nat (Suc (length cs)), c)]) - SCENE_CHANGE_LOG_CAP)
      (?full @ [(sc_revision s + of_nat (Suc (length cs)), c)])" unfolding next_rev .
  then show ?case unfolding log_entries_snoc using l(1) next_rev by (simp only: append_assoc length_append_singleton)
qed

section \<open>What the loop collects\<close>

definition transforms_in :: "scene_change set \<Rightarrow> node_id set" where
  "transforms_in C = {i. SceneChange_Transform i \<in> C}"

definition nodes_in :: "scene_change set \<Rightarrow> node_id set" where
  "nodes_in C = {i. SceneChange_Node i \<in> C}"

definition by_node :: "scene_change set \<Rightarrow> bool" where
  "by_node C \<longleftrightarrow> SceneChange_Structural \<notin> C \<and> SceneChange_Unknown \<notin> C"

lemma in_sets [simp]:
  "transforms_in {} = {}" "nodes_in {} = {}" "by_node {}"
  "transforms_in (insert (SceneChange_Transform i) C) = insert i (transforms_in C)"
  "nodes_in (insert (SceneChange_Transform i) C) = nodes_in C"
  "transforms_in (insert (SceneChange_Node i) C) = transforms_in C"
  "nodes_in (insert (SceneChange_Node i) C) = insert i (nodes_in C)"
  "by_node (insert (SceneChange_Transform i) C) = by_node C" "by_node (insert (SceneChange_Node i) C) = by_node C"
  "\<not> by_node (insert SceneChange_Structural C)" "\<not> by_node (insert SceneChange_Unknown C)"
  by (auto simp: transforms_in_def nodes_in_def by_node_def)

lemma sort_dedup_set [simp]: "set (sort_dedup xs) = set xs"
  by (simp add: sort_dedup_def)

lemma sort_dedup_distinct [simp]: "distinct (sort_dedup xs)" "sorted (sort_dedup xs)"
  by (simp_all add: sort_dedup_def remdups_adj_sorted)

lemma collect_old: "\<forall>e \<in> set old. fst e \<le> revision \<Longrightarrow>
    collect_changes revision old oldest ts ns = Some (oldest, ts, ns)"
  by (cases old) auto

lemma collect_next:
  assumes "collect_changes revision ((r, c) # log) oldest ts ns = Some x" "revision < r"
  shows "case c of
      SceneChange_Transform i \<Rightarrow> \<exists>ts1 ns1. set ts1 = insert i (set ts) \<and> set ns1 = set ns \<and>
        collect_changes revision log (Some r) ts1 ns1 = Some x
    | SceneChange_Node i \<Rightarrow> \<exists>ts1 ns1. set ts1 = set ts \<and> set ns1 = insert i (set ns) \<and>
        collect_changes revision log (Some r) ts1 ns1 = Some x
    | _ \<Rightarrow> False"
proof (cases c)
  case (SceneChange_Transform i)
  show ?thesis
  proof (cases "length (ts @ [i]) + length ns > SCENE_DELTA_MAX_NODES")
    case True
    with assms show ?thesis unfolding SceneChange_Transform scene_change.case
      by - (rule exI[where x = "sort_dedup (ts @ [i])"], rule exI[where x = "sort_dedup ns"], simp add: Let_def split: if_splits)
  next
    case False
    with assms show ?thesis unfolding SceneChange_Transform scene_change.case
      by - (rule exI[where x = "ts @ [i]"], rule exI[where x = ns], simp add: Let_def split: if_splits)
  qed
next
  case (SceneChange_Node i)
  show ?thesis
  proof (cases "length ts + length (ns @ [i]) > SCENE_DELTA_MAX_NODES")
    case True
    with assms show ?thesis unfolding SceneChange_Node scene_change.case
      by - (rule exI[where x = "sort_dedup ts"], rule exI[where x = "sort_dedup (ns @ [i])"], simp add: Let_def split: if_splits)
  next
    case False
    with assms show ?thesis unfolding SceneChange_Node scene_change.case
      by - (rule exI[where x = ts], rule exI[where x = "ns @ [i]"], simp add: Let_def split: if_splits)
  qed
qed (use assms in \<open>simp_all add: Let_def not_le[symmetric]\<close>)

lemma collect_sound:
  "collect_changes revision (L @ old) oldest ts ns = Some (oldest', ts', ns') \<Longrightarrow>
   \<forall>e \<in> set L. revision < fst e \<Longrightarrow> \<forall>e \<in> set old. fst e \<le> revision \<Longrightarrow>
     oldest' = (if L = [] then oldest else Some (fst (last L))) \<and> by_node (snd ` set L) \<and>
     set ts' = set ts \<union> transforms_in (snd ` set L) \<and> set ns' = set ns \<union> nodes_in (snd ` set L)"
proof (induction L arbitrary: oldest ts ns)
  case Nil
  then show ?case by (simp add: collect_old)
next
  case (Cons e L)
  obtain r c where e: "e = (r, c)" by (cases e)
  have newer: "revision < r" using Cons.prems(2) by (simp add: e)
  note step = collect_next[OF Cons.prems(1)[unfolded e append_Cons] newer]
  show ?case
  proof (cases c)
    case (SceneChange_Transform i)
    with step obtain ts1 ns1 where "set ts1 = insert i (set ts)" "set ns1 = set ns"
      "collect_changes revision (L @ old) (Some r) ts1 ns1 = Some (oldest', ts', ns')" by auto
    with Cons.IH[of "Some r" ts1 ns1] Cons.prems(2,3) show ?thesis
      by (auto simp: e SceneChange_Transform)
  next
    case (SceneChange_Node i)
    with step obtain ts1 ns1 where "set ts1 = set ts" "set ns1 = insert i (set ns)"
      "collect_changes revision (L @ old) (Some r) ts1 ns1 = Some (oldest', ts', ns')" by auto
    with Cons.IH[of "Some r" ts1 ns1] Cons.prems(2,3) show ?thesis
      by (auto simp: e SceneChange_Node)
  qed (use step in simp_all)
qed

lemma collect_complete:
  "by_node (snd ` set L) \<Longrightarrow> \<forall>e \<in> set L. revision < fst e \<Longrightarrow> \<forall>e \<in> set old. fst e \<le> revision \<Longrightarrow>
   card (set ts \<union> transforms_in (snd ` set L)) + card (set ns \<union> nodes_in (snd ` set L)) \<le> SCENE_DELTA_MAX_NODES \<Longrightarrow>
     collect_changes revision (L @ old) oldest ts ns \<noteq> None"
proof (induction L arbitrary: oldest ts ns)
  case Nil
  then show ?case by (simp add: collect_old)
next
  case (Cons e L)
  obtain r c where e: "e = (r, c)" by (cases e)
  have fin: "finite (transforms_in (snd ` set L))" "finite (nodes_in (snd ` set L))"
    by (auto simp: transforms_in_def nodes_in_def inj_def
        intro!: finite_vimageI[of "snd ` set L" SceneChange_Transform, unfolded vimage_def]
          finite_vimageI[of "snd ` set L" SceneChange_Node, unfolded vimage_def])
  have room: "length (sort_dedup ts1) + length (sort_dedup ns1) \<le> SCENE_DELTA_MAX_NODES"
    if "set ts1 \<union> transforms_in (snd ` set L) = set ts \<union> transforms_in (snd ` set (e # L))"
      "set ns1 \<union> nodes_in (snd ` set L) = set ns \<union> nodes_in (snd ` set (e # L))" for ts1 ns1
  proof -
    have "card (set ts1) \<le> card (set ts \<union> transforms_in (snd ` set (e # L)))"
      "card (set ns1) \<le> card (set ns \<union> nodes_in (snd ` set (e # L)))"
      unfolding that[symmetric] using fin by (intro card_mono; simp)+
    moreover have "length (sort_dedup ts1) = card (set ts1)" "length (sort_dedup ns1) = card (set ns1)"
      using distinct_card[OF sort_dedup_distinct(1)] by (metis sort_dedup_set)+
    ultimately show ?thesis using Cons.prems(4) by linarith
  qed
  show ?case
  proof (cases c)
    case (SceneChange_Transform i)
    have IH: "collect_changes revision (L @ old) (Some r) ts1 ns1 \<noteq> None"
      if "set ts1 = insert i (set ts)" "set ns1 = set ns" for ts1 ns1
      using Cons.IH[of ts1 ns1] Cons.prems that by (simp add: e SceneChange_Transform)
    show ?thesis
      using room[of "ts @ [i]" ns] IH[of "ts @ [i]" ns] IH[of "sort_dedup (ts @ [i])" "sort_dedup ns"] Cons.prems(2)
      by (auto simp: e SceneChange_Transform Let_def not_le[symmetric])
  next
    case (SceneChange_Node i)
    have IH: "collect_changes revision (L @ old) (Some r) ts1 ns1 \<noteq> None"
      if "set ts1 = set ts" "set ns1 = insert i (set ns)" for ts1 ns1
      using Cons.IH[of ts1 ns1] Cons.prems that by (simp add: e SceneChange_Node)
    show ?thesis
      using room[of ts "ns @ [i]"] IH[of ts "ns @ [i]"] IH[of "sort_dedup ts" "sort_dedup (ns @ [i])"] Cons.prems(2)
      by (auto simp: e SceneChange_Node Let_def not_le[symmetric])
  qed (use Cons.prems(1) e in auto)
qed

section \<open>What an edit changes\<close>

definition same_but_transform :: "canvas_node option \<Rightarrow> canvas_node option \<Rightarrow> bool" where
  "same_but_transform a b \<longleftrightarrow>
     (case (a, b) of (Some n, Some m) \<Rightarrow> \<exists>t. m = n\<lparr>cn_transform := t\<rparr> | (None, None) \<Rightarrow> True | _ \<Rightarrow> False)"

lemma same_but_transform_refl: "same_but_transform a a"
proof (cases a)
  case (Some n)
  then show ?thesis unfolding same_but_transform_def by (auto intro!: exI[of _ "cn_transform n"])
qed (simp add: same_but_transform_def)

lemma same_but_transform_trans:
  "same_but_transform a b \<Longrightarrow> same_but_transform b c \<Longrightarrow> same_but_transform a c"
  by (auto simp: same_but_transform_def split: option.splits)

lemma logged_edit_effect:
  assumes "logged_edit c s s'" "by_node {c}"
  shows "sc_child_index s' = sc_child_index s \<and> fmdom (sc_nodes s') = fmdom (sc_nodes s) \<and>
    transforms_in {c} \<union> nodes_in {c} \<subseteq> fmdom' (sc_nodes s) \<and>
    (\<forall>i. i \<notin> nodes_in {c} \<longrightarrow> same_but_transform (scene_get s i) (scene_get s' i)) \<and>
    (\<forall>i. i \<notin> transforms_in {c} \<longrightarrow> i \<notin> nodes_in {c} \<longrightarrow> scene_get s' i = scene_get s i)"
  using assms
proof (induction rule: logged_edit.induct)
  case (log_update i f s s')
  from log_update.hyps obtain n where "fmlookup (sc_nodes s) i = Some n" "sc_nodes s' = fmupd i (f n) (sc_nodes s)"
    "sc_child_index s' = sc_child_index s" by (rule scene_update_ok)
  then show ?case
    by (auto simp: scene_get_def same_but_transform_refl finsert_absorb intro: fmdomI fmdom'I)
next
  case (log_patch m stamp s s')
  from log_patch.hyps obtain n where "fmlookup (sc_nodes s) (cn_id m) = Some n"
    "sc_nodes s' = fmupd (cn_id m) m (sc_nodes s)" "sc_child_index s' = sc_child_index s"
    by (rule scene_patch_node_ok)
  then show ?case
    by (auto simp: scene_get_def same_but_transform_refl finsert_absorb intro: fmdomI fmdom'I)
next
  case (log_transform i t s s')
  from log_transform.hyps obtain n where n: "fmlookup (sc_nodes s) i = Some n"
    "sc_nodes s' = fmupd i (n\<lparr>cn_transform := t\<rparr>) (sc_nodes s)" "sc_child_index s' = sc_child_index s"
    by (rule scene_set_transform_ok)
  have "same_but_transform (scene_get s j) (scene_get s' j)" for j
    using n same_but_transform_refl by (cases "j = i") (auto simp: scene_get_def same_but_transform_def)
  with n show ?case by (auto simp: scene_get_def finsert_absorb intro: fmdomI fmdom'I)
qed simp_all

lemma edit_run_effect:
  assumes "edit_run s cs s'" "by_node (set cs)"
  shows "sc_child_index s' = sc_child_index s \<and> fmdom (sc_nodes s') = fmdom (sc_nodes s) \<and>
    transforms_in (set cs) \<union> nodes_in (set cs) \<subseteq> fmdom' (sc_nodes s) \<and>
    (\<forall>i. i \<notin> nodes_in (set cs) \<longrightarrow> same_but_transform (scene_get s i) (scene_get s' i)) \<and>
    (\<forall>i. i \<notin> transforms_in (set cs) \<longrightarrow> i \<notin> nodes_in (set cs) \<longrightarrow> scene_get s' i = scene_get s i)"
  using assms
proof (induction rule: edit_run.induct)
  case edit_none
  then show ?case by (simp add: same_but_transform_refl)
next
  case (edit_more cs t c u)
  have parts: "by_node (set cs)" "by_node {c}" using edit_more.prems by (auto simp: by_node_def)
  have sets: "transforms_in (set (cs @ [c])) = transforms_in (set cs) \<union> transforms_in {c}"
    "nodes_in (set (cs @ [c])) = nodes_in (set cs) \<union> nodes_in {c}"
    by (auto simp: transforms_in_def nodes_in_def)
  note a = edit_more.IH[OF parts(1)] and b = logged_edit_effect[OF edit_more.hyps(2) parts(2)]
  have dom: "fmdom' (sc_nodes t) = fmdom' (sc_nodes s)" using a by (simp add: fmdom'_alt_def)
  have "same_but_transform (scene_get s i) (scene_get u i)" if "i \<notin> nodes_in (set cs) \<union> nodes_in {c}" for i
    using a b that same_but_transform_trans[of "scene_get s i" "scene_get t i" "scene_get u i"] by blast
  then show ?case unfolding sets using a b dom by simp
qed

section \<open>Properties\<close>

lemma entries_newer:
  assumes "unat r + length cs < 2 ^ 64" "e \<in> set (log_entries r cs)"
  shows "r < fst e"
proof -
  obtain k where k: "k < length cs" "fst e = r + of_nat (Suc k)"
    using assms(2) by (auto simp: log_entries_def)
  have "unat (of_nat (Suc k) :: u64) = Suc k" using k(1) assms(1) by (subst unat_of_nat) simp
  then have "unat (r + of_nat (Suc k)) = unat r + Suc k"
    using k(1) assms(1) by (subst unat_add_lem[THEN iffD1]) simp_all
  with k(2) show ?thesis by (simp add: word_less_nat_alt)
qed

lemma log_tail:
  assumes "edit_run s cs s'" "log_ok s"
  obtains old where "rev (sc_change_log s') =
      rev (drop (length cs - SCENE_CHANGE_LOG_CAP) (log_entries (sc_revision s) cs)) @ old"
    "\<forall>e \<in> set old. fst e \<le> sc_revision s"
proof -
  let ?log = "sc_change_log s"
  let ?old = "drop (length ?log + length cs - SCENE_CHANGE_LOG_CAP) ?log"
  have win: "length ?log \<le> SCENE_CHANGE_LOG_CAP" using assms(2) by (simp add: log_ok_def)
  then have y: "length ?log + length cs - SCENE_CHANGE_LOG_CAP - length ?log = length cs - SCENE_CHANGE_LOG_CAP" by simp
  have "sc_change_log s' = ?old @ drop (length cs - SCENE_CHANGE_LOG_CAP) (log_entries (sc_revision s) cs)"
    using edit_run_log[OF assms(1) win] by (simp add: y)
  moreover have "fst e \<le> sc_revision s" if e: "e \<in> set ?old" for e
  proof -
    obtain k where "k < length ?log" "?log ! k = e" using in_set_dropD[OF e] by (meson in_set_conv_nth)
    with assms(2) have "unat (fst e) + (length ?log - 1 - k) = unat (sc_revision s)" by (auto simp: log_ok_def)
    then show ?thesis by (simp add: word_le_nat_alt)
  qed
  ultimately show ?thesis by (intro that[of "rev ?old"]) simp_all
qed

lemma entries_changes: "snd ` set (log_entries r cs) = set cs"
  by (force simp: log_entries_def in_set_conv_nth)

lemma first_revision:
  assumes "y < length cs" "unat r + length cs < 2 ^ 64"
  shows "fst (hd (drop y (log_entries r cs))) = r + 1 \<longleftrightarrow> y = 0"
proof -
  have u: "unat (of_nat (Suc y) :: u64) = Suc y" using assms by (subst unat_of_nat) simp
  have "of_nat (Suc y) = (1 :: u64) \<longleftrightarrow> y = 0"
    using arg_cong[of "of_nat (Suc y) :: u64" 1 unat] u by auto
  moreover have "fst (hd (drop y (log_entries r cs))) = r + of_nat (Suc y)"
    using assms(1) by (simp add: log_entries_def hd_drop_conv_nth)
  ultimately show ?thesis by (metis add_left_cancel)
qed

text \<open>
  C24. A delta is safe to patch from and is given whenever it can be: with the copy taken at revision
  \<open>r\<close>, every node the answer leaves out is as it was, one it lists under transforms differs in its
  transform alone, no node came or went and no sibling moved; the lists are sorted and disjoint. If
  only node edits happened, within the log window and the node limit, there is an answer.
\<close>

theorem changes_since_exact:
  assumes run: "edit_run s cs s'" and log: "log_ok s" and wrap: "unat (sc_revision s) + length cs < 2 ^ 64"
  shows "(\<forall>d. changes_since (sc_revision s) s' = Some d \<longrightarrow>
      sc_child_index s' = sc_child_index s \<and> fmdom (sc_nodes s') = fmdom (sc_nodes s) \<and>
      (\<forall>i. i \<notin> set (delta_nodes d) \<longrightarrow> same_but_transform (scene_get s i) (scene_get s' i)) \<and>
      (\<forall>i. i \<notin> set (delta_transforms d) \<longrightarrow> i \<notin> set (delta_nodes d) \<longrightarrow> scene_get s' i = scene_get s i) \<and>
      sorted (delta_nodes d) \<and> sorted (delta_transforms d) \<and>
      distinct (delta_nodes d @ delta_transforms d)) \<and>
    (length cs \<le> SCENE_CHANGE_LOG_CAP \<longrightarrow> by_node (set cs) \<longrightarrow>
      card (transforms_in (set cs)) + card (nodes_in (set cs)) \<le> SCENE_DELTA_MAX_NODES \<longrightarrow>
      changes_since (sc_revision s) s' \<noteq> None)"
proof (cases "cs = []")
  case True
  with run have "s' = s" by (auto elim: edit_run.cases)
  then show ?thesis by (auto simp: changes_since_def same_but_transform_refl)
next
  case False
  let ?r = "sc_revision s" and ?y = "length cs - SCENE_CHANGE_LOG_CAP"
  let ?E = "log_entries ?r cs"
  let ?L = "rev (drop ?y ?E)"
  have win: "length (sc_change_log s) \<le> SCENE_CHANGE_LOG_CAP" using log by (simp add: log_ok_def)
  have "unat (of_nat (length cs) :: u64) = length cs" using wrap by (subst unat_of_nat) simp
  then have "(of_nat (length cs) :: u64) \<noteq> 0" using False by (metis length_0_conv unat_0)
  then have ne: "?r \<noteq> sc_revision s'" using edit_run_log[OF run win] by simp
  obtain old where tail: "rev (sc_change_log s') = ?L @ old" and old: "\<forall>e \<in> set old. fst e \<le> ?r"
    using run log by (rule log_tail)
  have newer: "\<forall>e \<in> set ?L. ?r < fst e" using entries_newer[OF wrap] by (auto dest: in_set_dropD)
  have y: "?y < length cs" using False by (cases cs) (simp_all add: SCENE_CHANGE_LOG_CAP_def)
  then have L: "?L \<noteq> []" "last ?L = hd (drop ?y ?E)" by (simp_all add: last_rev)
  note first = first_revision[OF y wrap]
  show ?thesis
  proof (intro conjI allI impI)
    assume small: "length cs \<le> SCENE_CHANGE_LOG_CAP" and bn: "by_node (set cs)"
      and room: "card (transforms_in (set cs)) + card (nodes_in (set cs)) \<le> SCENE_DELTA_MAX_NODES"
    have all: "snd ` set ?L = set cs" using small by (simp add: entries_changes)
    have "collect_changes ?r (?L @ old) None [] [] \<noteq> None"
      using bn room newer old by (intro collect_complete) (simp_all only: all set_simps Un_empty_left list.set)
    then obtain o' ts ns where c: "collect_changes ?r (?L @ old) None [] [] = Some (o', ts, ns)" by auto
    note snd = collect_sound[OF c newer old]
    have o': "o' = Some (?r + 1)" using snd L first small by simp
    have sets: "set ts = transforms_in (set cs)" "set ns = nodes_in (set cs)" using snd unfolding all by simp_all
    have "length (sort_dedup ts) = card (transforms_in (set cs))" "length (sort_dedup ns) = card (nodes_in (set cs))"
      using distinct_card[OF sort_dedup_distinct(1)] sets by (metis sort_dedup_set)+
    then have "length (filter (\<lambda>i. i \<notin> set (sort_dedup ns)) (sort_dedup ts)) + length (sort_dedup ns) \<le> SCENE_DELTA_MAX_NODES"
      using room length_filter_le[of "\<lambda>i. i \<notin> set (sort_dedup ns)" "sort_dedup ts"] by linarith
    moreover have present: "\<exists>n. fmlookup (sc_nodes s') i = Some n"
      if "i \<in> transforms_in (set cs) \<union> nodes_in (set cs)" for i
    proof -
      have "i \<in> fmdom' (sc_nodes s')" using edit_run_effect[OF run bn] that by (auto simp: fmdom'_alt_def)
      then show ?thesis by (simp add: fmlookup_dom'_iff)
    qed
    have "\<not> list_ex (\<lambda>i. fmlookup (sc_nodes s') i = None)
        (filter (\<lambda>i. i \<notin> set (sort_dedup ns)) (sort_dedup ts) @ sort_dedup ns)"
      using present by (auto simp: list_ex_iff sets)
    ultimately show "changes_since ?r s' \<noteq> None"
      unfolding changes_since_def tail c using ne by (simp add: o' Let_def not_less)
  next
    fix d assume d: "changes_since ?r s' = Some d"
    then obtain o' ts ns where c: "collect_changes ?r (?L @ old) None [] [] = Some (o', ts, ns)"
      using ne by (auto simp: changes_since_def tail split: option.splits)
    note snd = collect_sound[OF c newer old]
    from d have o': "o' = Some (?r + 1)" and delta: "delta_nodes d = sort_dedup ns"
      "delta_transforms d = filter (\<lambda>i. i \<notin> set (sort_dedup ns)) (sort_dedup ts)"
      using ne by (auto simp: changes_since_def tail c Let_def split: if_splits)
    have "?y = 0" using snd o' L first by simp
    then have all: "snd ` set ?L = set cs" by (simp add: entries_changes)
    have sets: "set ts = transforms_in (set cs)" "set ns = nodes_in (set cs)" and bn: "by_node (set cs)"
      using snd unfolding all by simp_all
    note eff = edit_run_effect[OF run bn]
    show "sc_child_index s' = sc_child_index s" "fmdom (sc_nodes s') = fmdom (sc_nodes s)" using eff by simp_all
    fix i
    show "i \<notin> set (delta_nodes d) \<Longrightarrow> same_but_transform (scene_get s i) (scene_get s' i)"
      using eff by (simp add: delta sets)
    show "i \<notin> set (delta_transforms d) \<Longrightarrow> i \<notin> set (delta_nodes d) \<Longrightarrow> scene_get s' i = scene_get s i"
      using eff by (simp add: delta sets)
    show "sorted (delta_nodes d)" "sorted (delta_transforms d)" "distinct (delta_nodes d @ delta_transforms d)"
      by (auto simp: delta sorted_filter[of "\<lambda>x. x", simplified])
  qed
qed

definition sample_saved :: scene where
  \<comment> \<open>the sample scene with its log emptied\<close>
  "sample_saved = sample_scene\<lparr>sc_revision := 0, sc_change_log := []\<rparr>"

theorem changes_since_exact_witness:
  "\<exists>s' d. scene_set_transform (Id 3) Transform2D_IDENTITY sample_saved = Inr s' \<and> changes_since 0 s' = Some d \<and>
     sc_child_index s' = sc_child_index sample_saved"
proof -
  obtain s' where s': "scene_set_transform (Id 3) Transform2D_IDENTITY sample_saved = Inr s'"
    by (simp add: scene_set_transform_def sample_saved_def sample_nodes Let_def)
  have run: "edit_run sample_saved [SceneChange_Transform (Id 3)] s'"
    using edit_more[OF edit_none log_transform[OF s']] by simp
  have log: "log_ok sample_saved" by (simp add: log_ok_def sample_saved_def)
  have "unat (sc_revision sample_saved) + length [SceneChange_Transform (Id 3)] < 2 ^ 64" by (simp add: sample_saved_def)
  note spec = changes_since_exact[OF run log this]
  have "length [SceneChange_Transform (Id 3)] \<le> SCENE_CHANGE_LOG_CAP" "by_node (set [SceneChange_Transform (Id 3)])"
    "card (transforms_in (set [SceneChange_Transform (Id 3)])) + card (nodes_in (set [SceneChange_Transform (Id 3)]))
       \<le> SCENE_DELTA_MAX_NODES"
    by (simp_all add: SCENE_CHANGE_LOG_CAP_def SCENE_DELTA_MAX_NODES_def)
  with spec obtain d where "changes_since (sc_revision sample_saved) s' = Some d" by blast
  moreover from this spec have "sc_child_index s' = sc_child_index sample_saved" by blast
  moreover have "sc_revision sample_saved = 0" by (simp add: sample_saved_def)
  ultimately show ?thesis using s' by auto
qed

end
