(* ===== verification/RegistryTypes.thy ===== *)
theory RegistryTypes
  imports NodeTypes
begin

text \<open>
  The document-level registries of \<open>crates/fanta-doc/src\<close>: design variables (\<open>variables.rs\<close>),
  component masters and sets (\<open>component.rs\<close>), animation clips (\<open>motion.rs\<close>), prototype flows and
  the presentation device (\<open>doc.rs\<close>), with the lookups their types carry.
\<close>

subsection \<open>Variables\<close>

record var_mode =
  mode_id :: mode_id
  mode_name :: string

datatype variable_scope =
    VariableScope_AllFills
  | VariableScope_StrokeColor
  | VariableScope_CornerRadius
  | VariableScope_WidthHeight
  | VariableScope_Opacity
  | VariableScope_TextContent
  | VariableScope_Unknown

record variable =
  var_id :: variable_id
  var_collection :: variable_collection_id
  var_name :: string
  var_ty :: variable_type
  var_values_by_mode :: "(mode_id, var_value) fmap"
  var_scopes :: "variable_scope list"
  var_options :: "string list"

record variable_collection =
  vcoll_id :: variable_collection_id
  vcoll_name :: string
  vcoll_modes :: "var_mode list"
  vcoll_default_mode :: mode_id
  vcoll_variable_order :: "variable_id list"

record variable_registry =
  vreg_collections :: "(variable_collection_id, variable_collection) fmap"
  vreg_variables :: "(variable_id, variable) fmap"

subsection \<open>Components\<close>

datatype component_prop_kind =
    ComponentPropKind_Bool
  | ComponentPropKind_Text
  | ComponentPropKind_Number
  | ComponentPropKind_Color
  | ComponentPropKind_InstanceSwap
  | ComponentPropKind_Variant string

datatype component_prop_formatter =
    ComponentPropFormatter_Auto
  | ComponentPropFormatter_Field
  | ComponentPropFormatter_Slider

record prop_binding_target =
  prop_binding_target_path :: "node_id list"
  prop_binding_target_prop :: bound_prop

record component_prop_def =
  cprop_id :: component_prop_id
  cprop_name :: string
  cprop_kind :: component_prop_kind
  cprop_formatter :: component_prop_formatter
  cprop_default :: var_value
  cprop_bindings :: "prop_binding_target list"

record variant_axis =
  variant_axis_name :: string
  variant_axis_values :: "string list"

record component_set =
  cset_id :: component_id
  cset_name :: string
  cset_axes :: "variant_axis list"
  cset_members :: "component_id list"
  cset_default_variant :: component_id
  cset_root :: "node_id option"

record component_set_membership =
  component_set_membership_set :: component_id
  component_set_membership_axis_values :: "(string, string) fmap"

record component_def =
  cdef_id :: component_id
  cdef_root :: node_id
  cdef_name :: string
  cdef_variant_of :: "component_set_membership option"
  cdef_props :: "component_prop_def list"
  cdef_rev :: u64
  cdef_preview_rev :: u64

record component_library =
  clib_defs :: "(component_id, component_def) fmap"
  clib_sets :: "(component_id, component_set) fmap"

subsection \<open>Motion\<close>

datatype motion_property =
    MotionProperty_Bound bound_prop
  | MotionProperty_PositionX
  | MotionProperty_PositionY
  | MotionProperty_Rotation
  | MotionProperty_ScaleX
  | MotionProperty_ScaleY

record motion_target =
  mtarget_node :: node_id
  mtarget_property :: motion_property

datatype interpolation =
    Interpolation_Linear
  | Interpolation_Hold

record keyframe =
  kf_id :: keyframe_id
  kf_time_ms :: u32
  kf_value :: resolved_var_value
  kf_interpolation :: interpolation
  kf_easing :: easing

record animation_track =
  track_id :: animation_track_id
  track_target :: motion_target
  track_keyframes :: "(keyframe_id, keyframe) fmap"

datatype loop_mode =
    LoopMode_Once
  | LoopMode_Repeat
  | LoopMode_PingPong

record clip_settings =
  cs_fps :: "u16 option"
  cs_loop_mode :: loop_mode
  cs_scope :: "node_id option"
  cs_background :: "color option"
  cs_transform_origins :: "(node_id, (f64 \<times> f64)) fmap"

record animation_clip =
  clip_id :: animation_clip_id
  clip_name :: string
  clip_duration_ms :: u32
  clip_settings :: clip_settings
  clip_tracks :: "(animation_track_id, animation_track) fmap"

record motion_library =
  mlib_clips :: "(animation_clip_id, animation_clip) fmap"

subsection \<open>Flows\<close>

record flow =
  flow_name :: string
  flow_start :: node_id

record presentation_config =
  pres_device_size :: "(f64 \<times> f64) option"
  pres_preset :: "string option"
  pres_landscape :: bool
  pres_frame_color :: "color option"

section \<open>Lookups and constructors\<close>

definition vreg_new :: variable_registry where
  "vreg_new = \<lparr>vreg_collections = fmempty, vreg_variables = fmempty\<rparr>"

definition vreg_variable :: "variable_registry \<Rightarrow> variable_id \<Rightarrow> variable option" where
  "vreg_variable r i = fmlookup (vreg_variables r) i"

definition vreg_collection_of :: "variable_registry \<Rightarrow> variable_id \<Rightarrow> variable_collection option" where
  "vreg_collection_of r i =
     (case fmlookup (vreg_variables r) i of
        None \<Rightarrow> None | Some v \<Rightarrow> fmlookup (vreg_collections r) (var_collection v))"

definition has_mode :: "variable_collection \<Rightarrow> mode_id \<Rightarrow> bool" where
  "has_mode c m = list_ex (\<lambda>x. mode_id x = m) (vcoll_modes c)"

definition value_for_mode :: "variable \<Rightarrow> mode_id \<Rightarrow> var_value option" where
  "value_for_mode v m = fmlookup (var_values_by_mode v) m"

definition clib_new :: component_library where
  "clib_new = \<lparr>clib_defs = fmempty, clib_sets = fmempty\<rparr>"

definition component_def_new :: "component_id \<Rightarrow> node_id \<Rightarrow> string \<Rightarrow> component_def" where
  "component_def_new i root name =
     \<lparr>cdef_id = i, cdef_root = root, cdef_name = name, cdef_variant_of = None, cdef_props = [],
      cdef_rev = 0, cdef_preview_rev = 0\<rparr>"

definition mlib_new :: motion_library where
  "mlib_new = \<lparr>mlib_clips = fmempty\<rparr>"

lemma has_mode_iff: "has_mode c m \<longleftrightarrow> m \<in> mode_id ` set (vcoll_modes c)"
  by (auto simp: has_mode_def list_ex_iff)

end
