(* ===== verification/OpTypes.thy ===== *)
theory OpTypes
  imports RegistryTypes Scene
begin

text \<open>
  The operation type of \<open>crates/fanta-doc/src/op/operation.rs\<close>, one constructor per variant with the
  fields in source order, and the bundle of document slices \<open>OpCtx\<close> of \<open>op/ctx.rs\<close> an operation
  reads and writes. Boxes are transparent.
\<close>

section \<open>Operations\<close>

datatype mode_scope =
    ModeScope_Doc
  | ModeScope_Frame node_id

datatype (plugins only: code) operation =
    Operation_SetPages "node_id list" "node_id list"
  | Operation_CreateNode canvas_node
  | Operation_DeleteSubtree "canvas_node list"
  | Operation_SetPageRegistry "node_id list" "node_id list" "node_id option" "node_id option"
  | Operation_Reparent node_id "node_id option" index_key "node_id option" index_key
  | Operation_SetIndex node_id index_key index_key
  | Operation_SetTransform node_id transform2d transform2d
  | Operation_SetName node_id string string
  | Operation_SetMeta node_id json json
  | Operation_SetOpacity node_id unit_interval unit_interval
  | Operation_SetBlendMode node_id blend_mode blend_mode
  | Operation_SetEffects node_id "shadow list" "shadow list"
  | Operation_SetBlurs node_id "blur list" "blur list"
  | Operation_SetFlags node_id node_flags node_flags
  | Operation_SetMask node_id bool bool
  | Operation_SetMaskType node_id mask_type mask_type
  | Operation_SetLayoutChild node_id "layout_child option" "layout_child option"
  | Operation_SetConstraints node_id "constraints option" "constraints option"
  | Operation_SetEditingRules node_id "editing_rules option" "editing_rules option"
  | Operation_ReplaceData node_id node_data node_data
  | Operation_CreateInstance canvas_node
  | Operation_DefineComponent component_def
  | Operation_DeleteComponent component_id component_def
  | Operation_SetComponentProps component_id "component_prop_def list" "component_prop_def list"
  | Operation_SetComponentName component_id string string
  | Operation_DefineComponentSet component_set
  | Operation_DeleteComponentSet component_id component_set
  | Operation_SetVariantMembership component_id "component_set_membership option" "component_set_membership option"
  | Operation_SetComponentSet component_id component_set component_set
  | Operation_SetInstanceOverride node_id nat "override_entry option" "override_entry option"
  | Operation_SwapInstance node_id component_id component_id
  | Operation_SetInstanceProp node_id component_prop_id "var_value option" "var_value option"
  | Operation_DetachInstance node_id node_data node_data "canvas_node list"
  | Operation_CreateVariableCollection variable_collection
  | Operation_DeleteVariableCollection variable_collection_id variable_collection
  | Operation_AddMode variable_collection_id var_mode
  | Operation_RemoveMode variable_collection_id nat var_mode
  | Operation_SetCollectionDefaultMode variable_collection_id mode_id mode_id
  | Operation_CreateVariable variable
  | Operation_DeleteVariable variable_id variable "nat option"
  | Operation_SetVariableValue variable_id mode_id "var_value option" "var_value option"
  | Operation_RenameVariable variable_id string string
  | Operation_SetVariableOptions variable_id "string list" "string list"
  | Operation_RenameVariableCollection variable_collection_id string string
  | Operation_RenameMode variable_collection_id mode_id string string
  | Operation_BindProperty node_id bound_prop "variable_id option" variable_id
  | Operation_UnbindProperty node_id bound_prop variable_id node_data node_data unit_interval unit_interval node_flags node_flags
  | Operation_SetActiveMode mode_scope variable_collection_id "mode_id option" "mode_id option"
  | Operation_CreateAnimationClip animation_clip
  | Operation_DeleteAnimationClip animation_clip_id animation_clip
  | Operation_SetAnimationClipName animation_clip_id string string
  | Operation_SetAnimationClipDuration animation_clip_id u32 u32
  | Operation_SetAnimationClipSettings animation_clip_id clip_settings clip_settings
  | Operation_SetAnimationTrack animation_clip_id animation_track_id "animation_track option" "animation_track option"
  | Operation_SetKeyframe animation_clip_id animation_track_id motion_target keyframe_id "keyframe option" "keyframe option"
  | Operation_AddReaction node_id reaction
  | Operation_RemoveReaction node_id nat reaction
  | Operation_SetReaction node_id nat reaction reaction
  | Operation_SetFlowStart "node_id option" "node_id option"
  | Operation_SetFlows "flow list" "flow list"
  | Operation_SetPresentation "presentation_config option" "presentation_config option"

section \<open>The slices an operation may touch\<close>

record op_ctx =
  oc_scene :: scene
  oc_pages :: "node_id list"
  oc_active_page :: "node_id option"
  oc_components :: component_library
  oc_variables :: variable_registry
  oc_active_modes :: "(variable_collection_id, mode_id) fmap"
  oc_motion :: motion_library
  oc_flow_start :: "node_id option"
  oc_flows :: "flow list"
  oc_presentation :: "presentation_config option"

section \<open>Metadata\<close>

definition common_clip_target :: "animation_clip \<Rightarrow> node_id option" where
  "common_clip_target c =
     (case map (\<lambda>t. mtarget_node (track_target t)) (fm_values (clip_tracks c)) of
        [] \<Rightarrow> None
      | first # rest \<Rightarrow> if list_all (\<lambda>n. n = first) rest then Some first else None)"

definition primary_target :: "operation \<Rightarrow> node_id option" where
  "primary_target op =
    (case op of
      Operation_CreateNode n \<Rightarrow> Some (cn_id n)
    | Operation_Reparent i _ _ _ _ \<Rightarrow> Some i
    | Operation_SetIndex i _ _ \<Rightarrow> Some i
    | Operation_SetTransform i _ _ \<Rightarrow> Some i
    | Operation_SetName i _ _ \<Rightarrow> Some i
    | Operation_SetMeta i _ _ \<Rightarrow> Some i
    | Operation_SetOpacity i _ _ \<Rightarrow> Some i
    | Operation_SetBlendMode i _ _ \<Rightarrow> Some i
    | Operation_SetEffects i _ _ \<Rightarrow> Some i
    | Operation_SetBlurs i _ _ \<Rightarrow> Some i
    | Operation_SetFlags i _ _ \<Rightarrow> Some i
    | Operation_SetMask i _ _ \<Rightarrow> Some i
    | Operation_SetMaskType i _ _ \<Rightarrow> Some i
    | Operation_SetLayoutChild i _ _ \<Rightarrow> Some i
    | Operation_SetConstraints i _ _ \<Rightarrow> Some i
    | Operation_SetEditingRules i _ _ \<Rightarrow> Some i
    | Operation_ReplaceData i _ _ \<Rightarrow> Some i
    | Operation_CreateInstance n \<Rightarrow> Some (cn_id n)
    | Operation_SetInstanceOverride i _ _ _ \<Rightarrow> Some i
    | Operation_SwapInstance i _ _ \<Rightarrow> Some i
    | Operation_SetInstanceProp i _ _ _ \<Rightarrow> Some i
    | Operation_DetachInstance i _ _ _ \<Rightarrow> Some i
    | Operation_BindProperty i _ _ _ \<Rightarrow> Some i
    | Operation_UnbindProperty i _ _ _ _ _ _ _ _ \<Rightarrow> Some i
    | Operation_CreateAnimationClip c \<Rightarrow> common_clip_target c
    | Operation_DeleteAnimationClip _ c \<Rightarrow> common_clip_target c
    | Operation_SetAnimationTrack _ _ ov nv \<Rightarrow> map_option (\<lambda>t. mtarget_node (track_target t)) (case nv of Some t \<Rightarrow> Some t | None \<Rightarrow> ov)
    | Operation_SetKeyframe _ _ t _ _ _ \<Rightarrow> Some (mtarget_node t)
    | Operation_AddReaction i _ \<Rightarrow> Some i
    | Operation_RemoveReaction i _ _ \<Rightarrow> Some i
    | Operation_SetReaction i _ _ _ \<Rightarrow> Some i
    | _ \<Rightarrow> None)"

definition operation_label :: "operation \<Rightarrow> string" where
  "operation_label op =
    (case op of
      Operation_SetPages _ _ \<Rightarrow> ''Reorder pages''
    | Operation_CreateNode _ \<Rightarrow> ''Create''
    | Operation_DeleteSubtree _ \<Rightarrow> ''Delete''
    | Operation_SetPageRegistry _ _ _ _ \<Rightarrow> ''Pages''
    | Operation_Reparent _ _ _ _ _ \<Rightarrow> ''Move''
    | Operation_SetIndex _ _ _ \<Rightarrow> ''Reorder''
    | Operation_SetTransform _ _ _ \<Rightarrow> ''Transform''
    | Operation_SetName _ _ _ \<Rightarrow> ''Rename''
    | Operation_SetMeta _ _ _ \<Rightarrow> ''Edit''
    | Operation_SetOpacity _ _ _ \<Rightarrow> ''Opacity''
    | Operation_SetBlendMode _ _ _ \<Rightarrow> ''Blend''
    | Operation_SetEffects _ _ _ \<Rightarrow> ''Shadow''
    | Operation_SetBlurs _ _ _ \<Rightarrow> ''Blur''
    | Operation_SetFlags _ _ _ \<Rightarrow> ''Flags''
    | Operation_SetMask _ _ _ \<Rightarrow> ''Mask''
    | Operation_SetMaskType _ _ _ \<Rightarrow> ''Mask type''
    | Operation_SetLayoutChild _ _ _ \<Rightarrow> ''Layout Child''
    | Operation_SetConstraints _ _ _ \<Rightarrow> ''Constraints''
    | Operation_SetEditingRules _ _ _ \<Rightarrow> ''Editing Rules''
    | Operation_ReplaceData _ _ _ \<Rightarrow> ''Edit''
    | Operation_CreateInstance _ \<Rightarrow> ''Insert Instance''
    | Operation_DefineComponent _ \<Rightarrow> ''Create Component''
    | Operation_DeleteComponent _ _ \<Rightarrow> ''Delete Component''
    | Operation_SetComponentProps _ _ _ \<Rightarrow> ''Edit Component Props''
    | Operation_SetComponentName _ _ _ \<Rightarrow> ''Rename Component''
    | Operation_DefineComponentSet _ \<Rightarrow> ''Create Variant Set''
    | Operation_DeleteComponentSet _ _ \<Rightarrow> ''Delete Variant Set''
    | Operation_SetVariantMembership _ _ _ \<Rightarrow> ''Set Variant''
    | Operation_SetComponentSet _ _ _ \<Rightarrow> ''Edit Variant Set''
    | Operation_SetInstanceOverride _ _ _ _ \<Rightarrow> ''Override''
    | Operation_SwapInstance _ _ _ \<Rightarrow> ''Swap Instance''
    | Operation_SetInstanceProp _ _ _ _ \<Rightarrow> ''Set Property''
    | Operation_DetachInstance _ _ _ _ \<Rightarrow> ''Detach Instance''
    | Operation_CreateVariableCollection _ \<Rightarrow> ''Create Collection''
    | Operation_DeleteVariableCollection _ _ \<Rightarrow> ''Delete Collection''
    | Operation_AddMode _ _ \<Rightarrow> ''Add Mode''
    | Operation_RemoveMode _ _ _ \<Rightarrow> ''Remove Mode''
    | Operation_SetCollectionDefaultMode _ _ _ \<Rightarrow> ''Set Default Mode''
    | Operation_CreateVariable _ \<Rightarrow> ''Create Variable''
    | Operation_DeleteVariable _ _ _ \<Rightarrow> ''Delete Variable''
    | Operation_SetVariableValue _ _ _ _ \<Rightarrow> ''Set Variable''
    | Operation_RenameVariable _ _ _ \<Rightarrow> ''Rename Variable''
    | Operation_SetVariableOptions _ _ _ \<Rightarrow> ''Variable Options''
    | Operation_RenameVariableCollection _ _ _ \<Rightarrow> ''Rename Collection''
    | Operation_RenameMode _ _ _ _ \<Rightarrow> ''Rename Mode''
    | Operation_BindProperty _ _ _ _ \<Rightarrow> ''Bind''
    | Operation_UnbindProperty _ _ _ _ _ _ _ _ _ \<Rightarrow> ''Unbind''
    | Operation_SetActiveMode _ _ _ _ \<Rightarrow> ''Set Mode''
    | Operation_CreateAnimationClip _ \<Rightarrow> ''Create Animation''
    | Operation_DeleteAnimationClip _ _ \<Rightarrow> ''Delete Animation''
    | Operation_SetAnimationClipName _ _ _ \<Rightarrow> ''Rename Animation''
    | Operation_SetAnimationClipDuration _ _ _ \<Rightarrow> ''Animation Duration''
    | Operation_SetAnimationClipSettings _ _ _ \<Rightarrow> ''Animation Settings''
    | Operation_SetAnimationTrack _ _ _ _ \<Rightarrow> ''Edit Animation Track''
    | Operation_SetKeyframe _ _ _ _ _ _ \<Rightarrow> ''Edit Keyframe''
    | Operation_AddReaction _ _ \<Rightarrow> ''Add Interaction''
    | Operation_RemoveReaction _ _ _ \<Rightarrow> ''Remove Interaction''
    | Operation_SetReaction _ _ _ _ \<Rightarrow> ''Edit Interaction''
    | Operation_SetFlowStart _ _ \<Rightarrow> ''Set Flow Start''
    | Operation_SetFlows _ _ \<Rightarrow> ''Edit Prototype Flows''
    | Operation_SetPresentation _ _ \<Rightarrow> ''Set Presentation'')"

end
