(* ===== verification/OpApply.thy ===== *)
theory OpApply
  imports OpTypes
begin

text \<open>
  \<open>Operation::run\<close> of \<open>crates/fanta-doc/src/op/apply.rs\<close>, the one match behind \<open>apply\<close> and
  \<open>revert\<close>, with its private helpers, and \<open>OpCtx::bump_revs\<close> of \<open>op/ctx.rs\<close> with the component
  library's revision bumps. An operation returns its result together with the slices as it leaves
  them, because two arms can fail after their first write.
\<close>

section \<open>Results\<close>

datatype dir = Dir_Apply | Dir_Revert

definition dir_pick :: "dir \<Rightarrow> 'a \<Rightarrow> 'a \<Rightarrow> 'a" where
  "dir_pick d old new = (case d of Dir_Apply \<Rightarrow> new | Dir_Revert \<Rightarrow> old)"

lemma dir_pick_simps [simp]: "dir_pick Dir_Apply old new = new" "dir_pick Dir_Revert old new = old"
  by (simp_all add: dir_pick_def)

type_synonym op_result = "(scene_error + unit) \<times> op_ctx"

definition op_ok :: "op_ctx \<Rightarrow> op_result" where
  "op_ok c = (Inr (), c)"

definition op_err :: "scene_error \<Rightarrow> op_ctx \<Rightarrow> op_result" where
  "op_err e c = (Inl e, c)"

definition scene_op :: "(scene \<Rightarrow> scene_error + scene) \<Rightarrow> op_ctx \<Rightarrow> op_result" where
  \<comment> \<open>a fallible scene method that leaves the scene alone on error\<close>
  "scene_op f c =
     (case f (oc_scene c) of Inl e \<Rightarrow> op_err e c | Inr s \<Rightarrow> op_ok (c\<lparr>oc_scene := s\<rparr>))"

definition edit_node :: "node_id \<Rightarrow> (canvas_node \<Rightarrow> canvas_node) \<Rightarrow> op_ctx \<Rightarrow> op_result" where
  "edit_node i f c = scene_op (scene_update i f) c"

definition edit_variable :: "variable_id \<Rightarrow> (variable \<Rightarrow> variable) \<Rightarrow> op_ctx \<Rightarrow> op_result" where
  "edit_variable i f c =
     op_ok (c\<lparr>oc_variables := (oc_variables c)\<lparr>vreg_variables := fm_modify i f (vreg_variables (oc_variables c))\<rparr>\<rparr>)"

definition edit_collection ::
  "variable_collection_id \<Rightarrow> (variable_collection \<Rightarrow> variable_collection) \<Rightarrow> op_ctx \<Rightarrow> op_ctx" where
  "edit_collection i f c =
     c\<lparr>oc_variables := (oc_variables c)\<lparr>vreg_collections := fm_modify i f (vreg_collections (oc_variables c))\<rparr>\<rparr>"

definition put_collection :: "variable_collection_id \<Rightarrow> variable_collection option \<Rightarrow> op_ctx \<Rightarrow> op_ctx" where
  "put_collection i v c =
     c\<lparr>oc_variables := (oc_variables c)\<lparr>vreg_collections := fm_put i v (vreg_collections (oc_variables c))\<rparr>\<rparr>"

definition put_variable :: "variable_id \<Rightarrow> variable option \<Rightarrow> op_ctx \<Rightarrow> op_ctx" where
  "put_variable i v c =
     c\<lparr>oc_variables := (oc_variables c)\<lparr>vreg_variables := fm_put i v (vreg_variables (oc_variables c))\<rparr>\<rparr>"

definition put_def :: "component_id \<Rightarrow> component_def option \<Rightarrow> op_ctx \<Rightarrow> op_ctx" where
  "put_def i v c = c\<lparr>oc_components := (oc_components c)\<lparr>clib_defs := fm_put i v (clib_defs (oc_components c))\<rparr>\<rparr>"

definition edit_def :: "component_id \<Rightarrow> (component_def \<Rightarrow> component_def) \<Rightarrow> op_ctx \<Rightarrow> op_ctx" where
  "edit_def i f c = c\<lparr>oc_components := (oc_components c)\<lparr>clib_defs := fm_modify i f (clib_defs (oc_components c))\<rparr>\<rparr>"

definition put_set :: "component_id \<Rightarrow> component_set option \<Rightarrow> op_ctx \<Rightarrow> op_ctx" where
  "put_set i v c = c\<lparr>oc_components := (oc_components c)\<lparr>clib_sets := fm_put i v (clib_sets (oc_components c))\<rparr>\<rparr>"

definition put_clip :: "animation_clip_id \<Rightarrow> animation_clip option \<Rightarrow> op_ctx \<Rightarrow> op_ctx" where
  "put_clip i v c = c\<lparr>oc_motion := (oc_motion c)\<lparr>mlib_clips := fm_put i v (mlib_clips (oc_motion c))\<rparr>\<rparr>"

definition edit_clip :: "animation_clip_id \<Rightarrow> (animation_clip \<Rightarrow> animation_clip) \<Rightarrow> op_ctx \<Rightarrow> op_ctx" where
  "edit_clip i f c = c\<lparr>oc_motion := (oc_motion c)\<lparr>mlib_clips := fm_modify i f (mlib_clips (oc_motion c))\<rparr>\<rparr>"

section \<open>Pages\<close>

definition root_group :: "canvas_node \<Rightarrow> bool" where
  "root_group n \<longleftrightarrow> cn_parent n = None \<and> is_group n"

fun check_pages :: "scene \<Rightarrow> node_id list \<Rightarrow> node_id list \<Rightarrow> scene_error option" where
  \<comment> \<open>the loop of \<open>SetPages\<close>; the second argument holds the ids already seen\<close>
  "check_pages s seen [] = None"
| "check_pages s seen (i # is) =
     (case scene_get s i of
        None \<Rightarrow> Some (SceneError_NotFound i)
      | Some n \<Rightarrow>
          (if \<not> root_group n \<or> i \<in> set seen
           then Some (SceneError_InvariantViolated ''pages must be unique root containers'')
           else check_pages s (i # seen) is))"

fun check_page_registry :: "scene \<Rightarrow> node_id list \<Rightarrow> node_id list \<Rightarrow> scene_error option" where
  \<comment> \<open>the loop of \<open>SetPageRegistry\<close>, which looks for duplicates first\<close>
  "check_page_registry s seen [] = None"
| "check_page_registry s seen (i # is) =
     (if i \<in> set seen then Some (SceneError_InvariantViolated ''duplicate page root'')
      else
        (case scene_get s i of
           None \<Rightarrow> Some (SceneError_NotFound i)
         | Some n \<Rightarrow>
             (if \<not> root_group n
              then Some (SceneError_InvariantViolated ''page root must be a root-level group'')
              else check_page_registry s (i # seen) is)))"

definition is_master_root :: "component_library \<Rightarrow> node_id \<Rightarrow> bool" where
  "is_master_root lib i = list_ex (\<lambda>d. cdef_root d = i) (fm_values (clib_defs lib))"

definition set_pages :: "node_id list \<Rightarrow> op_ctx \<Rightarrow> op_result" where
  "set_pages pages c =
     (case check_pages (oc_scene c) [] pages of
        Some e \<Rightarrow> op_err e c
      | None \<Rightarrow>
          (let c1 = c\<lparr>oc_pages := pages\<rparr>;
               dangling = (case oc_active_page c1 of
                             None \<Rightarrow> False
                           | Some a \<Rightarrow> a \<notin> set pages \<and> \<not> is_master_root (oc_components c1) a)
           in op_ok (if dangling then c1\<lparr>oc_active_page := head_opt pages\<rparr> else c1)))"

definition set_page_registry :: "node_id list \<Rightarrow> node_id option \<Rightarrow> op_ctx \<Rightarrow> op_result" where
  "set_page_registry pages active c =
     (case check_page_registry (oc_scene c) [] pages of
        Some e \<Rightarrow> op_err e c
      | None \<Rightarrow>
          (if (case active of
                 None \<Rightarrow> False
               | Some a \<Rightarrow> \<not> scene_contains (oc_scene c) a \<or>
                           (a \<notin> set pages \<and> \<not> is_master_root (oc_components c) a))
           then op_err (SceneError_InvariantViolated ''invalid active page root'') c
           else op_ok (c\<lparr>oc_pages := pages, oc_active_page := active\<rparr>)))"

section \<open>Scene structure\<close>

definition insert_node :: "canvas_node \<Rightarrow> scene \<Rightarrow> scene_error + scene" where
  "insert_node n s = (case scene_insert n s of Inl e \<Rightarrow> Inl e | Inr (_, s') \<Rightarrow> Inr s')"

definition remove_node :: "node_id \<Rightarrow> scene \<Rightarrow> scene_error + scene" where
  "remove_node i s = (case scene_remove i s of Inl e \<Rightarrow> Inl e | Inr (_, s') \<Rightarrow> Inr s')"

fun insert_each :: "canvas_node list \<Rightarrow> op_ctx \<Rightarrow> op_result" where
  \<comment> \<open>\<open>for n in nodes { ctx.scene.insert(n.clone())?; }\<close>: the nodes before the failing one stay\<close>
  "insert_each [] c = op_ok c"
| "insert_each (n # ns) c =
     (case insert_node n (oc_scene c) of
        Inl e \<Rightarrow> op_err e c
      | Inr s \<Rightarrow> insert_each ns (c\<lparr>oc_scene := s\<rparr>))"

definition remove_if_present :: "node_id \<Rightarrow> scene \<Rightarrow> scene" where
  \<comment> \<open>\<open>let _ = ctx.scene.remove(id)\<close>\<close>
  "remove_if_present i s = (case remove_node i s of Inl _ \<Rightarrow> s | Inr s' \<Rightarrow> s')"

definition delete_subtree :: "canvas_node list \<Rightarrow> op_ctx \<Rightarrow> op_result" where
  "delete_subtree snapshot c =
     (case head_opt snapshot of
        None \<Rightarrow> op_err (SceneError_InvariantViolated ''empty delete snapshot'') c
      | Some r \<Rightarrow> scene_op (remove_node (cn_id r)) c)"

definition detach_instance :: "dir \<Rightarrow> node_id \<Rightarrow> node_data \<Rightarrow> node_data \<Rightarrow> canvas_node list \<Rightarrow> op_ctx \<Rightarrow> op_result" where
  "detach_instance d i old new expanded c =
     (case d of
        Dir_Apply \<Rightarrow>
          (case edit_node i (\<lambda>n. n\<lparr>cn_data := new\<rparr>) c of
             (Inl e, c1) \<Rightarrow> (Inl e, c1)
           | (Inr _, c1) \<Rightarrow> insert_each expanded c1)
      | Dir_Revert \<Rightarrow>
          (let s1 = fold (\<lambda>n. remove_if_present (cn_id n)) (rev expanded) (oc_scene c)
           in edit_node i (\<lambda>n. n\<lparr>cn_data := old\<rparr>) (c\<lparr>oc_scene := s1\<rparr>)))"

section \<open>Instance fields\<close>

definition with_instance :: "(instance_node \<Rightarrow> instance_node) \<Rightarrow> canvas_node \<Rightarrow> canvas_node" where
  "with_instance f n =
     (case cn_data n of NodeData_Instance inst \<Rightarrow> n\<lparr>cn_data := NodeData_Instance (f inst)\<rparr> | _ \<Rightarrow> n)"

definition put_override :: "nat \<Rightarrow> override_entry option \<Rightarrow> instance_node \<Rightarrow> instance_node" where
  "put_override index v inst =
     (let ovs = inst_overrides inst
      in inst\<lparr>inst_overrides :=
           (case v of
              Some ov \<Rightarrow> (if index < length ovs then ovs[index := ov] else ovs @ [ov])
            | None \<Rightarrow> (if index < length ovs then vec_remove index ovs else ovs))\<rparr>)"

definition set_instance_override :: "node_id \<Rightarrow> nat \<Rightarrow> override_entry option \<Rightarrow> op_ctx \<Rightarrow> op_result" where
  "set_instance_override i index v c = edit_node i (with_instance (put_override index v)) c"

definition set_instance_component :: "node_id \<Rightarrow> component_id \<Rightarrow> op_ctx \<Rightarrow> op_result" where
  "set_instance_component i cid c =
     edit_node i (with_instance (\<lambda>inst. inst\<lparr>inst_component := cid\<rparr>)) c"

definition set_instance_prop :: "node_id \<Rightarrow> component_prop_id \<Rightarrow> var_value option \<Rightarrow> op_ctx \<Rightarrow> op_result" where
  "set_instance_prop i p v c =
     edit_node i (with_instance (\<lambda>inst. inst\<lparr>inst_prop_values := fm_put p v (inst_prop_values inst)\<rparr>)) c"

section \<open>Modes\<close>

definition pin_mode :: "variable_collection_id \<Rightarrow> mode_id option \<Rightarrow> canvas_node \<Rightarrow> canvas_node" where
  "pin_mode coll v n =
     (case cn_data n of
        NodeData_Group g \<Rightarrow>
          n\<lparr>cn_data := NodeData_Group (g\<lparr>gn_explicit_modes := fm_put coll v (gn_explicit_modes g)\<rparr>)\<rparr>
      | _ \<Rightarrow> n)"

definition set_active_mode ::
  "mode_scope \<Rightarrow> variable_collection_id \<Rightarrow> mode_id option \<Rightarrow> op_ctx \<Rightarrow> op_result" where
  "set_active_mode scope coll v c =
     (case scope of
        ModeScope_Doc \<Rightarrow> op_ok (c\<lparr>oc_active_modes := fm_put coll v (oc_active_modes c)\<rparr>)
      | ModeScope_Frame node \<Rightarrow> edit_node node (pin_mode coll v) c)"

definition mode_zero :: mode_id where
  "mode_zero = Id 0"

definition push_mode :: "var_mode \<Rightarrow> variable_collection \<Rightarrow> variable_collection" where
  "push_mode m c =
     (let c1 = (if vcoll_modes c = [] then c\<lparr>vcoll_default_mode := mode_id m\<rparr> else c)
      in c1\<lparr>vcoll_modes := vcoll_modes c1 @ [m]\<rparr>)"

definition pop_mode :: "variable_collection \<Rightarrow> variable_collection" where
  "pop_mode c =
     (let c1 = c\<lparr>vcoll_modes := butlast (vcoll_modes c)\<rparr>
      in if vcoll_modes c1 = [] then c1\<lparr>vcoll_default_mode := mode_zero\<rparr> else c1)"

definition drop_mode :: "nat \<Rightarrow> variable_collection \<Rightarrow> variable_collection" where
  "drop_mode index c =
     (if index < length (vcoll_modes c) then c\<lparr>vcoll_modes := vec_remove index (vcoll_modes c)\<rparr> else c)"

definition restore_mode :: "nat \<Rightarrow> var_mode \<Rightarrow> variable_collection \<Rightarrow> variable_collection" where
  "restore_mode index m c =
     c\<lparr>vcoll_modes := vec_insert (min index (length (vcoll_modes c))) m (vcoll_modes c)\<rparr>"

fun rename_first :: "mode_id \<Rightarrow> string \<Rightarrow> var_mode list \<Rightarrow> var_mode list" where
  \<comment> \<open>\<open>modes.iter_mut().find(|m| m.id == *mode)\<close>\<close>
  "rename_first i name [] = []"
| "rename_first i name (m # ms) =
     (if mode_id m = i then m\<lparr>mode_name := name\<rparr> # ms else m # rename_first i name ms)"

definition set_default_mode :: "variable_collection_id \<Rightarrow> mode_id \<Rightarrow> op_ctx \<Rightarrow> op_result" where
  "set_default_mode coll m c =
     (if fmlookup (vreg_collections (oc_variables c)) coll = None
      then op_err (SceneError_InvariantViolated ''collection is missing'') c
      else op_ok (edit_collection coll (\<lambda>x. x\<lparr>vcoll_default_mode := m\<rparr>) c))"

section \<open>Variables\<close>

definition order_push :: "variable_id \<Rightarrow> variable_collection \<Rightarrow> variable_collection" where
  "order_push v c =
     (if v \<in> set (vcoll_variable_order c) then c
      else c\<lparr>vcoll_variable_order := vcoll_variable_order c @ [v]\<rparr>)"

definition order_drop :: "variable_id \<Rightarrow> variable_collection \<Rightarrow> variable_collection" where
  "order_drop v c = c\<lparr>vcoll_variable_order := filter (\<lambda>x. x \<noteq> v) (vcoll_variable_order c)\<rparr>"

definition order_insert :: "nat \<Rightarrow> variable_id \<Rightarrow> variable_collection \<Rightarrow> variable_collection" where
  "order_insert index v c =
     (if v \<in> set (vcoll_variable_order c) then c
      else c\<lparr>vcoll_variable_order :=
             vec_insert (min index (length (vcoll_variable_order c))) v (vcoll_variable_order c)\<rparr>)"

definition create_variable :: "dir \<Rightarrow> variable \<Rightarrow> op_ctx \<Rightarrow> op_result" where
  "create_variable d v c =
     op_ok (case d of
        Dir_Apply \<Rightarrow> edit_collection (var_collection v) (order_push (var_id v)) (put_variable (var_id v) (Some v) c)
      | Dir_Revert \<Rightarrow> edit_collection (var_collection v) (order_drop (var_id v)) (put_variable (var_id v) None c))"

definition delete_variable :: "dir \<Rightarrow> variable_id \<Rightarrow> variable \<Rightarrow> nat option \<Rightarrow> op_ctx \<Rightarrow> op_result" where
  "delete_variable d i v order_index c =
     op_ok (case d of
        Dir_Apply \<Rightarrow> edit_collection (var_collection v) (order_drop i) (put_variable i None c)
      | Dir_Revert \<Rightarrow>
          (case order_index of
             None \<Rightarrow> put_variable i (Some v) c
           | Some index \<Rightarrow> edit_collection (var_collection v) (order_insert index i) (put_variable i (Some v) c)))"

section \<open>Bindings\<close>

definition bind_property :: "dir \<Rightarrow> bound_prop \<Rightarrow> variable_id option \<Rightarrow> variable_id \<Rightarrow> canvas_node \<Rightarrow> canvas_node" where
  "bind_property d p old new n =
     (case d of
        Dir_Apply \<Rightarrow> n\<lparr>cn_bindings := fmupd p new (cn_bindings n)\<rparr>
      | Dir_Revert \<Rightarrow> n\<lparr>cn_bindings := fm_put p old (cn_bindings n)\<rparr>)"

section \<open>Motion\<close>

definition put_track :: "animation_track_id \<Rightarrow> animation_track option \<Rightarrow> animation_clip \<Rightarrow> animation_clip" where
  "put_track t v clip =
     clip\<lparr>clip_tracks := fm_put t (map_option (\<lambda>x. x\<lparr>track_id := t\<rparr>) v) (clip_tracks clip)\<rparr>"

definition put_keyframe :: "keyframe_id \<Rightarrow> keyframe option \<Rightarrow> animation_track \<Rightarrow> animation_track" where
  "put_keyframe k v t =
     t\<lparr>track_keyframes := fm_put k (map_option (\<lambda>x. x\<lparr>kf_id := k\<rparr>) v) (track_keyframes t)\<rparr>"

definition set_keyframe ::
  "animation_clip_id \<Rightarrow> animation_track_id \<Rightarrow> motion_target \<Rightarrow> keyframe_id \<Rightarrow> keyframe option \<Rightarrow> op_ctx \<Rightarrow> op_result" where
  "set_keyframe clip track target k v c =
     (case Option.bind (fmlookup (mlib_clips (oc_motion c)) clip) (\<lambda>cl. fmlookup (clip_tracks cl) track) of
        None \<Rightarrow> op_ok c
      | Some t \<Rightarrow>
          (if track_target t \<noteq> target
           then op_err (SceneError_InvariantViolated ''animation track target mismatch'') c
           else op_ok (edit_clip clip
                  (\<lambda>cl. cl\<lparr>clip_tracks := fm_modify track (put_keyframe k v) (clip_tracks cl)\<rparr>) c)))"

section \<open>Reactions\<close>

definition push_reaction :: "dir \<Rightarrow> reaction \<Rightarrow> canvas_node \<Rightarrow> canvas_node" where
  "push_reaction d r n =
     (case d of
        Dir_Apply \<Rightarrow> n\<lparr>cn_reactions := cn_reactions n @ [r]\<rparr>
      | Dir_Revert \<Rightarrow> n\<lparr>cn_reactions := butlast (cn_reactions n)\<rparr>)"

definition take_reaction :: "dir \<Rightarrow> nat \<Rightarrow> reaction \<Rightarrow> canvas_node \<Rightarrow> canvas_node" where
  "take_reaction d index r n =
     (case d of
        Dir_Apply \<Rightarrow>
          (if index < length (cn_reactions n) then n\<lparr>cn_reactions := vec_remove index (cn_reactions n)\<rparr> else n)
      | Dir_Revert \<Rightarrow>
          n\<lparr>cn_reactions := vec_insert (min index (length (cn_reactions n))) r (cn_reactions n)\<rparr>)"

definition write_reaction :: "nat \<Rightarrow> reaction \<Rightarrow> canvas_node \<Rightarrow> canvas_node" where
  "write_reaction index r n =
     (if index < length (cn_reactions n) then n\<lparr>cn_reactions := (cn_reactions n)[index := r]\<rparr> else n)"


section \<open>The shared body\<close>

primrec op_run :: "operation \<Rightarrow> dir \<Rightarrow> op_ctx \<Rightarrow> op_result" where
  "op_run (Operation_SetPages old new) d c = set_pages (dir_pick d old new) c"
| "op_run (Operation_CreateNode n) d c =
     (case d of Dir_Apply \<Rightarrow> scene_op (insert_node n) c | Dir_Revert \<Rightarrow> scene_op (remove_node (cn_id n)) c)"
| "op_run (Operation_DeleteSubtree snapshot) d c =
     (case d of Dir_Apply \<Rightarrow> delete_subtree snapshot c | Dir_Revert \<Rightarrow> insert_each snapshot c)"
| "op_run (Operation_SetPageRegistry old_pages new_pages old_active new_active) d c =
     set_page_registry (dir_pick d old_pages new_pages) (dir_pick d old_active new_active) c"
| "op_run (Operation_Reparent i old_parent old_index new_parent new_index) d c =
     scene_op (scene_set_parent i (dir_pick d old_parent new_parent) (dir_pick d old_index new_index)) c"
| "op_run (Operation_SetIndex i old new) d c = scene_op (scene_set_index i (dir_pick d old new)) c"
| "op_run (Operation_SetTransform i old new) d c = scene_op (scene_set_transform i (dir_pick d old new)) c"
| "op_run (Operation_SetName i old new) d c = edit_node i (\<lambda>n. n\<lparr>cn_name := dir_pick d old new\<rparr>) c"
| "op_run (Operation_SetMeta i old new) d c = edit_node i (\<lambda>n. n\<lparr>cn_meta := dir_pick d old new\<rparr>) c"
| "op_run (Operation_SetOpacity i old new) d c = edit_node i (\<lambda>n. n\<lparr>cn_opacity := dir_pick d old new\<rparr>) c"
| "op_run (Operation_SetBlendMode i old new) d c = edit_node i (\<lambda>n. n\<lparr>cn_blend_mode := dir_pick d old new\<rparr>) c"
| "op_run (Operation_SetEffects i old new) d c = edit_node i (\<lambda>n. n\<lparr>cn_effects := dir_pick d old new\<rparr>) c"
| "op_run (Operation_SetBlurs i old new) d c = edit_node i (\<lambda>n. n\<lparr>cn_blurs := dir_pick d old new\<rparr>) c"
| "op_run (Operation_SetFlags i old new) d c = edit_node i (\<lambda>n. n\<lparr>cn_flags := dir_pick d old new\<rparr>) c"
| "op_run (Operation_SetMask i old new) d c = edit_node i (\<lambda>n. n\<lparr>cn_is_mask := dir_pick d old new\<rparr>) c"
| "op_run (Operation_SetMaskType i old new) d c = edit_node i (\<lambda>n. n\<lparr>cn_mask_type := dir_pick d old new\<rparr>) c"
| "op_run (Operation_SetLayoutChild i old new) d c = edit_node i (\<lambda>n. n\<lparr>cn_layout_child := dir_pick d old new\<rparr>) c"
| "op_run (Operation_SetConstraints i old new) d c = edit_node i (\<lambda>n. n\<lparr>cn_constraints := dir_pick d old new\<rparr>) c"
| "op_run (Operation_SetEditingRules i old new) d c = edit_node i (\<lambda>n. n\<lparr>cn_editing := dir_pick d old new\<rparr>) c"
| "op_run (Operation_ReplaceData i old new) d c = edit_node i (\<lambda>n. n\<lparr>cn_data := dir_pick d old new\<rparr>) c"
| "op_run (Operation_CreateInstance n) d c =
     (case d of Dir_Apply \<Rightarrow> scene_op (insert_node n) c | Dir_Revert \<Rightarrow> scene_op (remove_node (cn_id n)) c)"
| "op_run (Operation_DefineComponent def) d c =
     op_ok (put_def (cdef_id def) (dir_pick d None (Some def)) c)"
| "op_run (Operation_DeleteComponent i def) d c = op_ok (put_def i (dir_pick d (Some def) None) c)"
| "op_run (Operation_SetComponentProps i old new) d c =
     op_ok (edit_def i (\<lambda>x. x\<lparr>cdef_props := dir_pick d old new\<rparr>) c)"
| "op_run (Operation_SetComponentName i old new) d c =
     op_ok (edit_def i (\<lambda>x. x\<lparr>cdef_name := dir_pick d old new\<rparr>) c)"
| "op_run (Operation_DefineComponentSet st) d c =
     op_ok (put_set (cset_id st) (dir_pick d None (Some st)) c)"
| "op_run (Operation_DeleteComponentSet i st) d c = op_ok (put_set i (dir_pick d (Some st) None) c)"
| "op_run (Operation_SetVariantMembership i old new) d c =
     op_ok (edit_def i (\<lambda>x. x\<lparr>cdef_variant_of := dir_pick d old new\<rparr>) c)"
| "op_run (Operation_SetComponentSet i old new) d c = op_ok (put_set i (Some (dir_pick d old new)) c)"
| "op_run (Operation_SetInstanceOverride i index old new) d c = set_instance_override i index (dir_pick d old new) c"
| "op_run (Operation_SwapInstance i old new) d c = set_instance_component i (dir_pick d old new) c"
| "op_run (Operation_SetInstanceProp i p old new) d c = set_instance_prop i p (dir_pick d old new) c"
| "op_run (Operation_DetachInstance i old new expanded) d c = detach_instance d i old new expanded c"
| "op_run (Operation_CreateVariableCollection coll) d c =
     op_ok (put_collection (vcoll_id coll) (dir_pick d None (Some coll)) c)"
| "op_run (Operation_DeleteVariableCollection i coll) d c =
     op_ok (put_collection i (dir_pick d (Some coll) None) c)"
| "op_run (Operation_AddMode i m) d c =
     op_ok (edit_collection i (case d of Dir_Apply \<Rightarrow> push_mode m | Dir_Revert \<Rightarrow> pop_mode) c)"
| "op_run (Operation_RemoveMode i index m) d c =
     op_ok (edit_collection i (case d of Dir_Apply \<Rightarrow> drop_mode index | Dir_Revert \<Rightarrow> restore_mode index m) c)"
| "op_run (Operation_SetCollectionDefaultMode i old new) d c = set_default_mode i (dir_pick d old new) c"
| "op_run (Operation_CreateVariable v) d c = create_variable d v c"
| "op_run (Operation_DeleteVariable i v order_index) d c = delete_variable d i v order_index c"
| "op_run (Operation_SetVariableValue i m old new) d c =
     edit_variable i (\<lambda>v. v\<lparr>var_values_by_mode := fm_put m (dir_pick d old new) (var_values_by_mode v)\<rparr>) c"
| "op_run (Operation_RenameVariable i old new) d c = edit_variable i (\<lambda>v. v\<lparr>var_name := dir_pick d old new\<rparr>) c"
| "op_run (Operation_SetVariableOptions i old new) d c =
     edit_variable i (\<lambda>v. v\<lparr>var_options := dir_pick d old new\<rparr>) c"
| "op_run (Operation_RenameVariableCollection i old new) d c =
     op_ok (edit_collection i (\<lambda>x. x\<lparr>vcoll_name := dir_pick d old new\<rparr>) c)"
| "op_run (Operation_RenameMode i m old new) d c =
     op_ok (edit_collection i (\<lambda>x. x\<lparr>vcoll_modes := rename_first m (dir_pick d old new) (vcoll_modes x)\<rparr>) c)"
| "op_run (Operation_BindProperty i p old new) d c = edit_node i (bind_property d p old new) c"
| "op_run (Operation_UnbindProperty i p v old_data new_data old_op new_op old_fl new_fl) d c =
     edit_node i (\<lambda>n. n\<lparr>cn_bindings := fm_put p (dir_pick d (Some v) None) (cn_bindings n),
       cn_data := dir_pick d old_data new_data, cn_opacity := dir_pick d old_op new_op,
       cn_flags := dir_pick d old_fl new_fl\<rparr>) c"
| "op_run (Operation_SetActiveMode scope coll old new) d c = set_active_mode scope coll (dir_pick d old new) c"
| "op_run (Operation_CreateAnimationClip clip) d c =
     op_ok (put_clip (clip_id clip) (dir_pick d None (Some clip)) c)"
| "op_run (Operation_DeleteAnimationClip i clip) d c = op_ok (put_clip i (dir_pick d (Some clip) None) c)"
| "op_run (Operation_SetAnimationClipName i old new) d c =
     op_ok (edit_clip i (\<lambda>x. x\<lparr>clip_name := dir_pick d old new\<rparr>) c)"
| "op_run (Operation_SetAnimationClipDuration i old new) d c =
     op_ok (edit_clip i (\<lambda>x. x\<lparr>clip_duration_ms := dir_pick d old new\<rparr>) c)"
| "op_run (Operation_SetAnimationClipSettings i old new) d c =
     op_ok (edit_clip i (\<lambda>x. x\<lparr>clip_settings := dir_pick d old new\<rparr>) c)"
| "op_run (Operation_SetAnimationTrack i t old new) d c =
     op_ok (edit_clip i (put_track t (dir_pick d old new)) c)"
| "op_run (Operation_SetKeyframe i t target k old new) d c = set_keyframe i t target k (dir_pick d old new) c"
| "op_run (Operation_AddReaction i r) d c = edit_node i (push_reaction d r) c"
| "op_run (Operation_RemoveReaction i index r) d c = edit_node i (take_reaction d index r) c"
| "op_run (Operation_SetReaction i index old new) d c = edit_node i (write_reaction index (dir_pick d old new)) c"
| "op_run (Operation_SetFlowStart old new) d c = op_ok (c\<lparr>oc_flow_start := dir_pick d old new\<rparr>)"
| "op_run (Operation_SetFlows old new) d c = op_ok (c\<lparr>oc_flows := dir_pick d old new\<rparr>)"
| "op_run (Operation_SetPresentation old new) d c = op_ok (c\<lparr>oc_presentation := dir_pick d old new\<rparr>)"

definition op_apply :: "operation \<Rightarrow> op_ctx \<Rightarrow> op_result" where
  "op_apply op c = op_run op Dir_Apply c"

definition op_revert :: "operation \<Rightarrow> op_ctx \<Rightarrow> op_result" where
  "op_revert op c = op_run op Dir_Revert c"

section \<open>Revision bumps\<close>

definition bump_containing_defs ::
  "scene \<Rightarrow> node_id list \<Rightarrow> (component_def \<Rightarrow> component_def) \<Rightarrow> component_library \<Rightarrow> component_library" where
  \<comment> \<open>the chain of every touched node, itself included; both early returns leave the library alone\<close>
  "bump_containing_defs s is bump lib =
     (let chain = concat (map (\<lambda>i. i # map cn_id (ancestors_of s i)) is)
      in lib\<lparr>clib_defs := fmmap (\<lambda>d. if cdef_root d \<in> set chain then bump d else d) (clib_defs lib)\<rparr>)"

definition bump_rev :: "component_def \<Rightarrow> component_def" where
  "bump_rev d = d\<lparr>cdef_rev := cdef_rev d + 1\<rparr>"

definition bump_preview :: "component_def \<Rightarrow> component_def" where
  "bump_preview d = d\<lparr>cdef_preview_rev := cdef_preview_rev d + 1\<rparr>"

definition bump_rev_for_nodes :: "scene \<Rightarrow> node_id list \<Rightarrow> component_library \<Rightarrow> component_library" where
  "bump_rev_for_nodes s is lib = bump_containing_defs s is bump_rev lib"

definition bump_rev_for_node :: "scene \<Rightarrow> node_id \<Rightarrow> component_library \<Rightarrow> component_library" where
  "bump_rev_for_node s i lib = bump_rev_for_nodes s [i] lib"

definition bump_preview_for_nodes :: "scene \<Rightarrow> node_id list \<Rightarrow> component_library \<Rightarrow> component_library" where
  "bump_preview_for_nodes s is lib = bump_containing_defs s is bump_preview lib"

definition bump_roots :: "(node_id \<Rightarrow> bool) \<Rightarrow> component_library \<Rightarrow> component_library" where
  \<comment> \<open>the loop over \<open>defs.values_mut()\<close> that \<open>bump_revs\<close> writes out twice\<close>
  "bump_roots hit lib =
     lib\<lparr>clib_defs := fmmap (\<lambda>d. if hit (cdef_root d) then bump_rev d else d) (clib_defs lib)\<rparr>"

definition reparent_chain :: "scene \<Rightarrow> node_id list \<Rightarrow> node_id list" where
  "reparent_chain s anchors =
     concat (map (\<lambda>a. a # map cn_id (ancestors_of s a)) (filter (scene_contains s) anchors))"

definition present_or_parent :: "scene \<Rightarrow> canvas_node \<Rightarrow> node_id option" where
  "present_or_parent s n =
     (if scene_contains s (cn_id n) then Some (cn_id n)
      else (case cn_parent n of None \<Rightarrow> None | Some p \<Rightarrow> if scene_contains s p then Some p else None))"

definition bump_for_operation :: "operation \<Rightarrow> scene \<Rightarrow> component_library \<Rightarrow> component_library" where
  "bump_for_operation op s lib =
     (case op of
        Operation_SetComponentProps cid _ _ \<Rightarrow>
          (case fmlookup (clib_defs lib) cid of
             None \<Rightarrow> lib | Some d \<Rightarrow> bump_rev_for_node s (cdef_root d) lib)
      | Operation_SetComponentSet i _ _ \<Rightarrow>
          (let roots = (case fmlookup (clib_sets lib) i of
                          None \<Rightarrow> []
                        | Some st \<Rightarrow> List.map_filter (\<lambda>m. map_option cdef_root (fmlookup (clib_defs lib) m)) (cset_members st))
           in fold (bump_rev_for_node s) roots lib)
      | Operation_Reparent i old_parent _ new_parent _ \<Rightarrow>
          (let chain = reparent_chain s (List.map_filter id [Some i, old_parent, new_parent])
           in bump_roots (\<lambda>r. r \<in> set chain) lib)
      | Operation_CreateNode n \<Rightarrow>
          (case present_or_parent s n of None \<Rightarrow> lib | Some a \<Rightarrow> bump_rev_for_node s a lib)
      | Operation_CreateInstance n \<Rightarrow>
          (case present_or_parent s n of None \<Rightarrow> lib | Some a \<Rightarrow> bump_rev_for_node s a lib)
      | Operation_DeleteSubtree snapshot \<Rightarrow>
          (case head_opt snapshot of
             None \<Rightarrow> lib
           | Some root \<Rightarrow>
               (let chain = (case present_or_parent s root of
                               None \<Rightarrow> [] | Some a \<Rightarrow> a # map cn_id (ancestors_of s a))
                in bump_roots (\<lambda>r. list_ex (\<lambda>n. cn_id n = r) snapshot \<or> r \<in> set chain) lib))
      | _ \<Rightarrow> (case primary_target op of None \<Rightarrow> lib | Some n \<Rightarrow> bump_rev_for_node s n lib))"

definition bump_revs :: "operation \<Rightarrow> op_ctx \<Rightarrow> op_ctx" where
  "bump_revs op c =
     (if clib_defs (oc_components c) = fmempty then c
      else c\<lparr>oc_components := bump_for_operation op (oc_scene c) (oc_components c)\<rparr>)"

end
