(* ===== verification/OpSame.thy ===== *)
theory OpSame
  imports OpApply SceneProps
begin

text \<open>
  What a document is worth to the user, as an equivalence on the slices: the node map, the child
  index and every registry, but not the derived caches, the scene's revision, log and stamps, nor the
  revision counters of component masters, which only tell caches to refresh. Every operation, in
  either direction, takes equivalent slices to equivalent slices with the same result.
\<close>

section \<open>Equivalent scenes\<close>

definition scene_same :: "scene \<Rightarrow> scene \<Rightarrow> bool" where
  "scene_same s t \<longleftrightarrow> sc_nodes s = sc_nodes t \<and> sc_child_index s = sc_child_index t"

named_theorems same_intros \<open>operations respect the equivalence\<close>

lemma scene_same_refl [simp]: "scene_same s s"
  by (simp add: scene_same_def)

lemma scene_same_sym: "scene_same s t \<Longrightarrow> scene_same t s"
  by (simp add: scene_same_def)

lemma scene_same_trans: "scene_same s t \<Longrightarrow> scene_same t u \<Longrightarrow> scene_same s u"
  by (simp add: scene_same_def)

lemma scene_same_inv: "scene_same s t \<Longrightarrow> scene_inv s = scene_inv t"
  by (simp add: scene_same_def scene_inv_def)

lemma scene_same_get: "scene_same s t \<Longrightarrow> scene_get s = scene_get t"
  by (rule ext) (simp add: scene_same_def scene_get_def)

lemma scene_same_contains: "scene_same s t \<Longrightarrow> scene_contains s = scene_contains t"
  by (rule ext) (simp add: scene_same_def scene_contains_def)

lemma scene_same_descendants: "scene_same s t \<Longrightarrow> descendants_of s = descendants_of t"
  by (rule ext) (simp add: scene_same_def descendants_of_def)

lemma scene_same_ancestors: "scene_same s t \<Longrightarrow> ancestors_of s = ancestors_of t"
  by (rule ext) (simp add: scene_same_def ancestors_of_def)

lemma scene_same_ok: "rel_sum (=) scene_same (Inr s) (Inr t) = scene_same s t"
  by simp

lemma insert_same [same_intros]:
  assumes "scene_same s t"
  shows "rel_sum (=) scene_same (insert_node n s) (insert_node n t)"
proof (cases "scene_insert n s")
  case (Inl e)
  with assms have "scene_insert n t = Inl e"
    by (auto simp: scene_insert_def scene_contains_def scene_same_def Let_def split: if_splits option.splits)
  with Inl show ?thesis by (simp add: insert_node_def)
next
  case (Inr r)
  obtain i s' where s': "scene_insert n s = Inr (i, s')" using Inr by (cases r) simp
  note ok = scene_insert_ok[OF s']
  have "fmlookup (sc_nodes t) (cn_id n) = None" "check_parent (sc_nodes t) (cn_parent n) = None"
    using ok assms by (simp_all add: scene_same_def)
  then obtain t' where t': "scene_insert n t = Inr (cn_id n, t')"
    using scene_insert_succeeds by blast
  with s' ok scene_insert_ok[OF t'] assms show ?thesis by (simp add: insert_node_def scene_same_def)
qed

lemma remove_all_same:
  "sc_nodes s = sc_nodes t \<Longrightarrow> sc_child_index s = sc_child_index t \<Longrightarrow>
     snd (remove_all r ds (s, x)) = snd (remove_all r ds (t, x)) \<and>
     scene_same (fst (remove_all r ds (s, x))) (fst (remove_all r ds (t, x)))"
proof (induction ds arbitrary: s t x)
  case (Cons d ds)
  let ?s = "remove_one d (s, x)" and ?t = "remove_one d (t, x)"
  have one: "sc_nodes (fst ?s) = sc_nodes (fst ?t)" "sc_child_index (fst ?s) = sc_child_index (fst ?t)"
    "snd ?s = snd ?t"
    using Cons.prems by (auto simp: remove_one_def child_index_remove_def Let_def split: option.splits)
  define y where "y = (if d = r \<and> snd ?t \<noteq> None then snd ?t else x)"
  have "remove_all r (d # ds) (s, x) = remove_all r ds (fst ?s, y)"
    "remove_all r (d # ds) (t, x) = remove_all r ds (fst ?t, y)"
    by (simp_all only: y_def remove_all.simps Let_def one(3) snd_conv)
  then show ?case using Cons.IH[OF one(1,2)] by simp
qed (simp add: scene_same_def)

lemma scene_same_closing:
  "scene_same s t \<Longrightarrow>
     scene_same (touch_if_present p (f (record_change c (clear_derived_caches s))))
                (touch_if_present q (g (record_change d (clear_derived_caches t))))"
  if "\<And>s. sc_nodes (f s) = sc_nodes s \<and> sc_child_index (f s) = sc_child_index s"
    "\<And>s. sc_nodes (g s) = sc_nodes s \<and> sc_child_index (g s) = sc_child_index s"
  using that by (simp add: scene_same_def frame_simps)

lemma remove_same [same_intros]:
  assumes "scene_same s t"
  shows "rel_sum (=) scene_same (remove_node i s) (remove_node i t)"
proof -
  obtain s1 r where s1: "remove_all i (descendants_of s i) (s, None) = (s1, r)"
    by (cases "remove_all i (descendants_of s i) (s, None)")
  obtain t1 q where t1: "remove_all i (descendants_of s i) (t, None) = (t1, q)"
    by (cases "remove_all i (descendants_of s i) (t, None)")
  have rq: "r = q" and st: "scene_same s1 t1"
    using remove_all_same[of s t i "descendants_of s i" None] assms s1 t1 by (simp_all add: scene_same_def)
  show ?thesis
    using st s1 t1 scene_same_contains[OF assms]
    unfolding remove_node_def scene_remove_def scene_same_descendants[OF assms, symmetric] rq
    by (auto simp: next_geometry_stamp_def frame_simps scene_same_def Let_def split: option.splits)
qed

lemma set_parent_same [same_intros]:
  assumes "scene_same s t"
  shows "rel_sum (=) scene_same (scene_set_parent i p x s) (scene_set_parent i p x t)"
  using assms
  by (auto simp: scene_set_parent_def scene_same_def frame_simps Let_def split: option.splits)

lemma set_index_same [same_intros]:
  assumes "scene_same s t"
  shows "rel_sum (=) scene_same (scene_set_index i x s) (scene_set_index i x t)"
  using assms
  by (auto simp: scene_set_index_def scene_same_def frame_simps Let_def split: option.splits)

lemma set_transform_same [same_intros]:
  assumes "scene_same s t"
  shows "rel_sum (=) scene_same (scene_set_transform i x s) (scene_set_transform i x t)"
  using assms scene_same_ancestors[OF assms]
  by (auto simp: scene_set_transform_def scene_same_def frame_simps Let_def split: option.splits)

lemma update_same [same_intros]:
  assumes "scene_same s t"
  shows "rel_sum (=) scene_same (scene_update i f s) (scene_update i f t)"
  using assms by (auto simp: scene_update_def scene_same_def frame_simps Let_def split: option.splits)

section \<open>Equivalent slices\<close>

definition strip_def :: "component_def \<Rightarrow> component_def" where
  "strip_def d = d\<lparr>cdef_rev := 0, cdef_preview_rev := 0\<rparr>"

definition strip_lib :: "component_library \<Rightarrow> component_library" where
  "strip_lib lib = lib\<lparr>clib_defs := fmmap strip_def (clib_defs lib)\<rparr>"

definition ctx_same :: "op_ctx \<Rightarrow> op_ctx \<Rightarrow> bool" where
  "ctx_same c c' \<longleftrightarrow>
     scene_same (oc_scene c) (oc_scene c') \<and> oc_pages c = oc_pages c' \<and>
     oc_active_page c = oc_active_page c' \<and>
     strip_lib (oc_components c) = strip_lib (oc_components c') \<and>
     oc_variables c = oc_variables c' \<and> oc_active_modes c = oc_active_modes c' \<and>
     oc_motion c = oc_motion c' \<and> oc_flow_start c = oc_flow_start c' \<and>
     oc_flows c = oc_flows c' \<and> oc_presentation c = oc_presentation c'"

definition result_same :: "op_result \<Rightarrow> op_result \<Rightarrow> bool" where
  "result_same r r' \<longleftrightarrow> fst r = fst r' \<and> ctx_same (snd r) (snd r')"

lemma ctx_same_refl [simp]: "ctx_same c c"
  by (simp add: ctx_same_def)

lemma ctx_same_sym: "ctx_same c c' \<Longrightarrow> ctx_same c' c"
  by (simp add: ctx_same_def scene_same_def)

lemma ctx_same_trans: "ctx_same a b \<Longrightarrow> ctx_same b c \<Longrightarrow> ctx_same a c"
  by (simp add: ctx_same_def scene_same_def)

lemma ctx_same_scene: "ctx_same c c' \<Longrightarrow> scene_same (oc_scene c) (oc_scene c')"
  by (simp add: ctx_same_def)

lemma strip_lib_defs: "strip_lib a = strip_lib b \<Longrightarrow> fmmap strip_def (clib_defs a) = fmmap strip_def (clib_defs b)"
  unfolding strip_lib_def by (metis component_library.select_convs(1) component_library.update_convs(1)
      component_library.surjective)

lemma strip_lib_sets: "strip_lib a = strip_lib b \<Longrightarrow> clib_sets a = clib_sets b"
  by (cases a; cases b) (simp add: strip_lib_def)

lemma strip_libI:
  "fmmap strip_def (clib_defs a) = fmmap strip_def (clib_defs b) \<Longrightarrow> clib_sets a = clib_sets b \<Longrightarrow>
     strip_lib a = strip_lib b"
  by (cases a; cases b) (simp add: strip_lib_def)

lemma result_same_ok: "ctx_same c c' \<Longrightarrow> result_same (op_ok c) (op_ok c')"
  by (simp add: result_same_def op_ok_def)

lemma result_same_err: "ctx_same c c' \<Longrightarrow> result_same (op_err e c) (op_err e c')"
  by (simp add: result_same_def op_err_def)

lemma scene_op_same:
  assumes f: "\<And>s t. scene_same s t \<Longrightarrow> rel_sum (=) scene_same (f s) (f t)" and c: "ctx_same c c'"
  shows "result_same (scene_op f c) (scene_op f c')"
proof -
  from f[OF ctx_same_scene[OF c]] show ?thesis
    using c by (cases "f (oc_scene c)"; cases "f (oc_scene c')")
      (auto simp: scene_op_def result_same_def op_ok_def op_err_def ctx_same_def)
qed

lemma edit_node_same: "ctx_same c c' \<Longrightarrow> result_same (edit_node i f c) (edit_node i f c')"
  unfolding edit_node_def by (rule scene_op_same[OF update_same])

lemma fmmap_fm_put: "fmmap f (fm_put k v m) = fm_put k (map_option f v) (fmmap f m)"
  by (rule fmap_ext) (simp add: fmlookup_fm_put)

lemma fmmap_fm_modify:
  "(\<And>v. f (g v) = h (f v)) \<Longrightarrow> fmmap f (fm_modify k g m) = fm_modify k h (fmmap f m)"
  by (rule fmap_ext) (simp add: fmlookup_fm_modify option.map_comp comp_def)

lemma put_def_same: "ctx_same c c' \<Longrightarrow> ctx_same (put_def i v c) (put_def i v c')"
  by (auto simp: ctx_same_def put_def_def fmmap_fm_put intro!: strip_libI dest: strip_lib_defs strip_lib_sets)

lemma edit_def_same:
  assumes f: "\<And>d. strip_def (f d) = f (strip_def d)" and c: "ctx_same c c'"
  shows "ctx_same (edit_def i f c) (edit_def i f c')"
  using c unfolding ctx_same_def edit_def_def
  by (auto simp: fmmap_fm_modify[of strip_def f f, OF f] intro!: strip_libI dest: strip_lib_defs strip_lib_sets)

lemma put_set_same: "ctx_same c c' \<Longrightarrow> ctx_same (put_set i v c) (put_set i v c')"
  by (auto simp: ctx_same_def put_set_def intro!: strip_libI dest: strip_lib_defs strip_lib_sets)

lemma field_writes_same:
  "ctx_same c c' \<Longrightarrow> ctx_same (put_collection i v c) (put_collection i v c')"
  "ctx_same c c' \<Longrightarrow> ctx_same (edit_collection i g c) (edit_collection i g c')"
  "ctx_same c c' \<Longrightarrow> ctx_same (put_variable j w c) (put_variable j w c')"
  "ctx_same c c' \<Longrightarrow> ctx_same (put_clip k x c) (put_clip k x c')"
  "ctx_same c c' \<Longrightarrow> ctx_same (edit_clip k h c) (edit_clip k h c')"
  by (simp_all add: ctx_same_def put_collection_def edit_collection_def put_variable_def put_clip_def edit_clip_def)

lemma edit_variable_same: "ctx_same c c' \<Longrightarrow> result_same (edit_variable i f c) (edit_variable i f c')"
  by (auto simp: edit_variable_def ctx_same_def intro!: result_same_ok)

lemma fm_values_fmmap: "fm_values (fmmap f m) = map f (fm_values m)"
  by (auto simp: fm_values_def fm_keys_def fmlookup_dom_iff sorted_list_of_fset.rep_eq)

lemma is_master_root_same:
  assumes "ctx_same c c'"
  shows "is_master_root (oc_components c) = is_master_root (oc_components c')"
proof -
  have "is_master_root lib i = list_ex (\<lambda>d. cdef_root d = i) (fm_values (fmmap strip_def (clib_defs lib)))" for lib i
    by (simp add: is_master_root_def fm_values_fmmap list_ex_iff strip_def_def)
  moreover have "fmmap strip_def (clib_defs (oc_components c)) = fmmap strip_def (clib_defs (oc_components c'))"
    using assms by (intro strip_lib_defs) (simp add: ctx_same_def)
  ultimately show ?thesis by (intro ext) simp
qed

lemma check_pages_same: "scene_get s = scene_get t \<Longrightarrow> check_pages s seen is = check_pages t seen is"
  by (induction "is" arbitrary: seen) (simp_all split: option.splits)

lemma check_page_registry_same:
  "scene_get s = scene_get t \<Longrightarrow> check_page_registry s seen is = check_page_registry t seen is"
  by (induction "is" arbitrary: seen) (simp_all split: option.splits)

lemma set_pages_same:
  assumes c: "ctx_same c c'"
  shows "result_same (set_pages ps c) (set_pages ps c')"
proof -
  have "check_pages (oc_scene c) [] ps = check_pages (oc_scene c') [] ps"
    using scene_same_get[OF ctx_same_scene[OF c]] by (rule check_pages_same)
  moreover have "oc_active_page c = oc_active_page c'" using c by (simp add: ctx_same_def)
  moreover have "ctx_same (c\<lparr>oc_pages := ps\<rparr>) (c'\<lparr>oc_pages := ps\<rparr>)"
    "ctx_same (c\<lparr>oc_pages := ps, oc_active_page := a\<rparr>) (c'\<lparr>oc_pages := ps, oc_active_page := a\<rparr>)" for a
    using c by (simp_all add: ctx_same_def)
  ultimately show ?thesis
    using c is_master_root_same[OF c]
    by (auto simp: set_pages_def Let_def intro: result_same_ok result_same_err split: option.splits)
qed

lemma set_page_registry_same:
  assumes c: "ctx_same c c'"
  shows "result_same (set_page_registry ps a c) (set_page_registry ps a c')"
proof -
  have "check_page_registry (oc_scene c) [] ps = check_page_registry (oc_scene c') [] ps"
    using scene_same_get[OF ctx_same_scene[OF c]] by (rule check_page_registry_same)
  moreover have "ctx_same (c\<lparr>oc_pages := ps, oc_active_page := a\<rparr>) (c'\<lparr>oc_pages := ps, oc_active_page := a\<rparr>)"
    using c by (simp add: ctx_same_def)
  ultimately show ?thesis
    using c is_master_root_same[OF c] scene_same_contains[OF ctx_same_scene[OF c]]
    by (auto simp: set_page_registry_def intro: result_same_ok result_same_err split: option.splits)
qed

lemma insert_each_same: "ctx_same c c' \<Longrightarrow> result_same (insert_each ns c) (insert_each ns c')"
proof (induction ns arbitrary: c c')
  case (Cons n ns)
  from insert_same[OF ctx_same_scene[OF Cons.prems], of n] show ?case
  proof (cases rule: rel_sum.cases)
    case (1 a b)
    with Cons.prems show ?thesis by (simp add: result_same_err)
  next
    case (2 s t)
    then have "ctx_same (c\<lparr>oc_scene := s\<rparr>) (c'\<lparr>oc_scene := t\<rparr>)"
      using Cons.prems by (simp add: ctx_same_def)
    with Cons.IH 2 show ?thesis by simp
  qed
qed (simp add: result_same_ok)

lemma remove_if_present_same: "scene_same s t \<Longrightarrow> scene_same (remove_if_present i s) (remove_if_present i t)"
  using remove_same[of s t i] by (auto simp: remove_if_present_def elim!: rel_sum.cases)

lemma fold_remove_same:
  "scene_same s t \<Longrightarrow>
     scene_same (fold (\<lambda>n. remove_if_present (cn_id n)) ns s) (fold (\<lambda>n. remove_if_present (cn_id n)) ns t)"
  by (induction ns arbitrary: s t) (simp_all add: remove_if_present_same)

lemma detach_same:
  assumes c: "ctx_same c c'"
  shows "result_same (detach_instance d i old new ex c) (detach_instance d i old new ex c')"
proof (cases d)
  case Dir_Apply
  obtain r1 c1 where 1: "edit_node i (\<lambda>n. n\<lparr>cn_data := new\<rparr>) c = (r1, c1)" by fastforce
  obtain r2 c2 where 2: "edit_node i (\<lambda>n. n\<lparr>cn_data := new\<rparr>) c' = (r2, c2)" by fastforce
  have "r1 = r2" "ctx_same c1 c2"
    using edit_node_same[OF c, of i "\<lambda>n. n\<lparr>cn_data := new\<rparr>"] by (simp_all add: 1 2 result_same_def)
  with insert_each_same[of c1 c2 ex] show ?thesis
    by (cases r2) (auto simp: Dir_Apply detach_instance_def 1 2 result_same_def)
next
  case Dir_Revert
  let ?s = "\<lambda>c. fold (\<lambda>n. remove_if_present (cn_id n)) (rev ex) (oc_scene c)"
  have "ctx_same (c\<lparr>oc_scene := ?s c\<rparr>) (c'\<lparr>oc_scene := ?s c'\<rparr>)"
    using c fold_remove_same[OF ctx_same_scene[OF c]] by (simp add: ctx_same_def)
  then show ?thesis by (simp add: Dir_Revert detach_instance_def edit_node_same)
qed

lemma create_variable_same: "ctx_same c c' \<Longrightarrow> result_same (create_variable d v c) (create_variable d v c')"
  unfolding create_variable_def by (cases d) (auto intro!: result_same_ok field_writes_same)

lemma delete_variable_same:
  "ctx_same c c' \<Longrightarrow> result_same (delete_variable d i v oi c) (delete_variable d i v oi c')"
  unfolding delete_variable_def
  by (cases d) (auto intro!: result_same_ok field_writes_same split: option.splits)

lemma set_default_mode_same:
  "ctx_same c c' \<Longrightarrow> result_same (set_default_mode i m c) (set_default_mode i m c')"
  using field_writes_same(2)[of c c' i "\<lambda>x. x\<lparr>vcoll_default_mode := m\<rparr>"]
  by (auto simp: set_default_mode_def ctx_same_def intro: result_same_ok result_same_err)

lemma set_active_mode_same:
  assumes "ctx_same c c'"
  shows "result_same (set_active_mode sc i m c) (set_active_mode sc i m c')"
proof (cases sc)
  case ModeScope_Doc
  have "ctx_same (c\<lparr>oc_active_modes := fm_put i m (oc_active_modes c)\<rparr>)
          (c'\<lparr>oc_active_modes := fm_put i m (oc_active_modes c')\<rparr>)"
    using assms by (simp add: ctx_same_def)
  then show ?thesis by (simp add: set_active_mode_def ModeScope_Doc result_same_ok)
qed (simp add: set_active_mode_def edit_node_same assms)

lemma set_keyframe_same:
  assumes "ctx_same c c'"
  shows "result_same (set_keyframe i t tg k v c) (set_keyframe i t tg k v c')"
proof -
  have "oc_motion c = oc_motion c'" using assms by (simp add: ctx_same_def)
  with assms show ?thesis
    by (auto simp: set_keyframe_def intro!: result_same_ok result_same_err field_writes_same(5)
        split: option.splits)
qed

lemma delete_subtree_same: "ctx_same c c' \<Longrightarrow> result_same (delete_subtree ns c) (delete_subtree ns c')"
  by (auto simp: delete_subtree_def intro: result_same_err scene_op_same[OF remove_same] split: option.splits)

lemma slot_writes_same:
  "ctx_same c c' \<Longrightarrow> ctx_same (c\<lparr>oc_flow_start := a\<rparr>) (c'\<lparr>oc_flow_start := a\<rparr>)"
  "ctx_same c c' \<Longrightarrow> ctx_same (c\<lparr>oc_flows := b\<rparr>) (c'\<lparr>oc_flows := b\<rparr>)"
  "ctx_same c c' \<Longrightarrow> ctx_same (c\<lparr>oc_presentation := p\<rparr>) (c'\<lparr>oc_presentation := p\<rparr>)"
  by (simp_all add: ctx_same_def)

lemma strip_commutes:
  "strip_def (d\<lparr>cdef_props := ps\<rparr>) = strip_def d\<lparr>cdef_props := ps\<rparr>"
  "strip_def (d\<lparr>cdef_name := nm\<rparr>) = strip_def d\<lparr>cdef_name := nm\<rparr>"
  "strip_def (d\<lparr>cdef_variant_of := v\<rparr>) = strip_def d\<lparr>cdef_variant_of := v\<rparr>"
  by (simp_all add: strip_def_def)

lemma op_run_same:
  assumes "ctx_same c c'"
  shows "result_same (op_run op d c) (op_run op d c')"
  using assms
  by (cases op; cases d)
    (simp_all add: result_same_ok set_pages_same set_page_registry_same insert_each_same detach_same
      create_variable_same delete_variable_same set_default_mode_same set_active_mode_same
      set_keyframe_same delete_subtree_same slot_writes_same edit_node_same edit_variable_same
      put_def_same put_set_same field_writes_same edit_def_same strip_commutes
      set_instance_override_def set_instance_component_def set_instance_prop_def
      scene_op_same[OF insert_same] scene_op_same[OF remove_same] scene_op_same[OF set_parent_same]
      scene_op_same[OF set_index_same] scene_op_same[OF set_transform_same])

section \<open>Revision bumps change nothing else\<close>

lemma fmmap_strip_bump:
  "(\<And>d. strip_def (f d) = strip_def d) \<Longrightarrow> fmmap strip_def (fmmap f m) = fmmap strip_def m"
  by (rule fmap_ext) (simp add: option.map_comp comp_def)

lemma strip_bump_nodes: "strip_lib (bump_rev_for_nodes s is lib) = strip_lib lib"
  by (rule strip_libI)
    (simp_all add: bump_rev_for_nodes_def bump_containing_defs_def fmmap_strip_bump bump_rev_def strip_def_def Let_def)

lemma strip_bump_node: "strip_lib (bump_rev_for_node s i lib) = strip_lib lib"
  by (simp add: bump_rev_for_node_def strip_bump_nodes)

lemma strip_bump_roots: "strip_lib (bump_roots h lib) = strip_lib lib"
  by (rule strip_libI) (simp_all add: bump_roots_def fmmap_strip_bump bump_rev_def strip_def_def)

lemma strip_bump_fold: "strip_lib (fold (bump_rev_for_node s) is lib) = strip_lib lib"
  by (induction "is" arbitrary: lib) (simp_all add: strip_bump_node)

lemma strip_bump_operation: "strip_lib (bump_for_operation op s lib) = strip_lib lib"
  unfolding bump_for_operation_def
  by (cases op) (simp_all add: strip_bump_node strip_bump_roots strip_bump_fold Let_def split: option.splits)

lemma bump_revs_same: "ctx_same (bump_revs op c) c"
  by (simp add: bump_revs_def ctx_same_def strip_bump_operation)

end
