(* ===== verification/OpReverse.thy ===== *)
theory OpReverse
  imports OpSame
begin

text \<open>
  Reverting an operation undoes it. The comment on \<open>Operation\<close> says that each variant carries the
  values it replaces; \<open>old_matches\<close> says that they are the ones the document holds, which is how every
  caller builds an operation. On slices whose scene meets its invariant, an operation whose old values
  match and that applies can be reverted, and gives back equivalent slices.
\<close>

section \<open>Old values\<close>

definition node_was :: "node_id \<Rightarrow> (canvas_node \<Rightarrow> bool) \<Rightarrow> op_ctx \<Rightarrow> bool" where
  "node_was i P c = (case scene_get (oc_scene c) i of None \<Rightarrow> True | Some n \<Rightarrow> P n)"

definition page_root_ok :: "op_ctx \<Rightarrow> node_id list \<Rightarrow> node_id option \<Rightarrow> bool" where
  \<comment> \<open>the active page is one of the pages or a component master\<close>
  "page_root_ok c pages active =
     (case active of None \<Rightarrow> True | Some a \<Rightarrow> a \<in> set pages \<or> is_master_root (oc_components c) a)"

definition subtree_snapshot :: "scene \<Rightarrow> node_id \<Rightarrow> canvas_node list" where
  \<comment> \<open>\<open>descendants_of(root).filter_map(|id| scene.get(id).cloned()).collect()\<close>, as every caller builds it\<close>
  "subtree_snapshot s i = List.map_filter (scene_get s) (descendants_of s i)"

definition instance_was :: "(instance_node \<Rightarrow> bool) \<Rightarrow> canvas_node \<Rightarrow> bool" where
  "instance_was P n = (case cn_data n of NodeData_Instance inst \<Rightarrow> P inst | _ \<Rightarrow> True)"

definition override_was :: "nat \<Rightarrow> override_entry option \<Rightarrow> override_entry option \<Rightarrow> instance_node \<Rightarrow> bool" where
  \<comment> \<open>the slot holds the old value; an added override is appended, a removed one is the last\<close>
  "override_was index old new inst \<longleftrightarrow>
     nth_opt (inst_overrides inst) index = old \<and>
     (old = None \<and> new \<noteq> None \<longrightarrow> index = length (inst_overrides inst)) \<and>
     (old \<noteq> None \<and> new = None \<longrightarrow> Suc index = length (inst_overrides inst))"

definition collection_was :: "variable_collection_id \<Rightarrow> (variable_collection \<Rightarrow> bool) \<Rightarrow> op_ctx \<Rightarrow> bool" where
  "collection_was i P c =
     (case fmlookup (vreg_collections (oc_variables c)) i of None \<Rightarrow> True | Some x \<Rightarrow> P x)"

definition variable_was :: "variable_id \<Rightarrow> (variable \<Rightarrow> bool) \<Rightarrow> op_ctx \<Rightarrow> bool" where
  "variable_was i P c = (case fmlookup (vreg_variables (oc_variables c)) i of None \<Rightarrow> True | Some x \<Rightarrow> P x)"

definition def_was :: "component_id \<Rightarrow> (component_def \<Rightarrow> bool) \<Rightarrow> op_ctx \<Rightarrow> bool" where
  "def_was i P c = (case fmlookup (clib_defs (oc_components c)) i of None \<Rightarrow> True | Some x \<Rightarrow> P x)"

definition clip_was :: "animation_clip_id \<Rightarrow> (animation_clip \<Rightarrow> bool) \<Rightarrow> op_ctx \<Rightarrow> bool" where
  "clip_was i P c = (case fmlookup (mlib_clips (oc_motion c)) i of None \<Rightarrow> True | Some x \<Rightarrow> P x)"

definition track_was :: "animation_track_id \<Rightarrow> animation_track option \<Rightarrow> animation_clip \<Rightarrow> bool" where
  "track_was t old cl \<longleftrightarrow> fmlookup (clip_tracks cl) t = old \<and> (case old of None \<Rightarrow> True | Some x \<Rightarrow> track_id x = t)"

definition keyframe_was :: "animation_track_id \<Rightarrow> keyframe_id \<Rightarrow> keyframe option \<Rightarrow> animation_clip \<Rightarrow> bool" where
  "keyframe_was t k old cl =
     (case fmlookup (clip_tracks cl) t of
        None \<Rightarrow> True
      | Some tr \<Rightarrow> fmlookup (track_keyframes tr) k = old \<and>
                   (case old of None \<Rightarrow> True | Some x \<Rightarrow> kf_id x = k))"

definition pin_was :: "variable_collection_id \<Rightarrow> mode_id option \<Rightarrow> canvas_node \<Rightarrow> bool" where
  "pin_was coll old n =
     (case cn_data n of NodeData_Group g \<Rightarrow> fmlookup (gn_explicit_modes g) coll = old | _ \<Rightarrow> True)"

definition first_mode_named :: "mode_id \<Rightarrow> string \<Rightarrow> variable_collection \<Rightarrow> bool" where
  "first_mode_named m name x =
     (case find (\<lambda>y. mode_id y = m) (vcoll_modes x) of None \<Rightarrow> True | Some y \<Rightarrow> mode_name y = name)"

primrec old_matches :: "operation \<Rightarrow> op_ctx \<Rightarrow> bool" where
  "old_matches (Operation_SetPages old new) c =
     (oc_pages c = old \<and> check_pages (oc_scene c) [] old = None \<and>
      page_root_ok c old (oc_active_page c) \<and> page_root_ok c new (oc_active_page c))"
| "old_matches (Operation_CreateNode n) c = True"
| "old_matches (Operation_DeleteSubtree snapshot) c =
     (case snapshot of [] \<Rightarrow> True | r # _ \<Rightarrow> snapshot = subtree_snapshot (oc_scene c) (cn_id r))"
| "old_matches (Operation_SetPageRegistry old_pages new_pages old_active new_active) c =
     (oc_pages c = old_pages \<and> oc_active_page c = old_active \<and>
      check_page_registry (oc_scene c) [] old_pages = None \<and> page_root_ok c old_pages old_active \<and>
      (case old_active of None \<Rightarrow> True | Some a \<Rightarrow> scene_contains (oc_scene c) a))"
| "old_matches (Operation_Reparent i old_parent old_index new_parent new_index) c =
     node_was i (\<lambda>n. cn_parent n = old_parent \<and> cn_index n = old_index) c"
| "old_matches (Operation_SetIndex i old new) c = node_was i (\<lambda>n. cn_index n = old) c"
| "old_matches (Operation_SetTransform i old new) c = node_was i (\<lambda>n. cn_transform n = old) c"
| "old_matches (Operation_SetName i old new) c = node_was i (\<lambda>n. cn_name n = old) c"
| "old_matches (Operation_SetMeta i old new) c = node_was i (\<lambda>n. cn_meta n = old) c"
| "old_matches (Operation_SetOpacity i old new) c = node_was i (\<lambda>n. cn_opacity n = old) c"
| "old_matches (Operation_SetBlendMode i old new) c = node_was i (\<lambda>n. cn_blend_mode n = old) c"
| "old_matches (Operation_SetEffects i old new) c = node_was i (\<lambda>n. cn_effects n = old) c"
| "old_matches (Operation_SetBlurs i old new) c = node_was i (\<lambda>n. cn_blurs n = old) c"
| "old_matches (Operation_SetFlags i old new) c = node_was i (\<lambda>n. cn_flags n = old) c"
| "old_matches (Operation_SetMask i old new) c = node_was i (\<lambda>n. cn_is_mask n = old) c"
| "old_matches (Operation_SetMaskType i old new) c = node_was i (\<lambda>n. cn_mask_type n = old) c"
| "old_matches (Operation_SetLayoutChild i old new) c = node_was i (\<lambda>n. cn_layout_child n = old) c"
| "old_matches (Operation_SetConstraints i old new) c = node_was i (\<lambda>n. cn_constraints n = old) c"
| "old_matches (Operation_SetEditingRules i old new) c = node_was i (\<lambda>n. cn_editing n = old) c"
| "old_matches (Operation_ReplaceData i old new) c = node_was i (\<lambda>n. cn_data n = old) c"
| "old_matches (Operation_CreateInstance n) c = True"
| "old_matches (Operation_DefineComponent def) c = (fmlookup (clib_defs (oc_components c)) (cdef_id def) = None)"
| "old_matches (Operation_DeleteComponent i def) c =
     (map_option strip_def (fmlookup (clib_defs (oc_components c)) i) = Some (strip_def def))"
| "old_matches (Operation_SetComponentProps i old new) c = def_was i (\<lambda>x. cdef_props x = old) c"
| "old_matches (Operation_SetComponentName i old new) c = def_was i (\<lambda>x. cdef_name x = old) c"
| "old_matches (Operation_DefineComponentSet st) c = (fmlookup (clib_sets (oc_components c)) (cset_id st) = None)"
| "old_matches (Operation_DeleteComponentSet i st) c = (fmlookup (clib_sets (oc_components c)) i = Some st)"
| "old_matches (Operation_SetVariantMembership i old new) c = def_was i (\<lambda>x. cdef_variant_of x = old) c"
| "old_matches (Operation_SetComponentSet i old new) c = (fmlookup (clib_sets (oc_components c)) i = Some old)"
| "old_matches (Operation_SetInstanceOverride i index old new) c =
     node_was i (instance_was (override_was index old new)) c"
| "old_matches (Operation_SwapInstance i old new) c =
     node_was i (instance_was (\<lambda>inst. inst_component inst = old)) c"
| "old_matches (Operation_SetInstanceProp i p old new) c =
     node_was i (instance_was (\<lambda>inst. fmlookup (inst_prop_values inst) p = old)) c"
| "old_matches (Operation_DetachInstance i old new expanded) c =
     (node_was i (\<lambda>n. cn_data n = old) c \<and> children_of (oc_scene c) (Some i) = [])"
| "old_matches (Operation_CreateVariableCollection coll) c =
     (fmlookup (vreg_collections (oc_variables c)) (vcoll_id coll) = None)"
| "old_matches (Operation_DeleteVariableCollection i coll) c =
     (fmlookup (vreg_collections (oc_variables c)) i = Some coll)"
| "old_matches (Operation_AddMode i m) c =
     collection_was i (\<lambda>x. vcoll_modes x = [] \<longrightarrow> vcoll_default_mode x = mode_zero) c"
| "old_matches (Operation_RemoveMode i index m) c =
     collection_was i (\<lambda>x. nth_opt (vcoll_modes x) index = Some m) c"
| "old_matches (Operation_SetCollectionDefaultMode i old new) c = collection_was i (\<lambda>x. vcoll_default_mode x = old) c"
| "old_matches (Operation_CreateVariable v) c =
     (fmlookup (vreg_variables (oc_variables c)) (var_id v) = None \<and>
      collection_was (var_collection v) (\<lambda>x. var_id v \<notin> set (vcoll_variable_order x)) c)"
| "old_matches (Operation_DeleteVariable i v order_index) c =
     (fmlookup (vreg_variables (oc_variables c)) i = Some v \<and>
      collection_was (var_collection v)
        (\<lambda>x. distinct (vcoll_variable_order x) \<and>
             list_position (\<lambda>y. y = i) (vcoll_variable_order x) = order_index) c)"
| "old_matches (Operation_SetVariableValue i m old new) c =
     variable_was i (\<lambda>v. fmlookup (var_values_by_mode v) m = old) c"
| "old_matches (Operation_RenameVariable i old new) c = variable_was i (\<lambda>v. var_name v = old) c"
| "old_matches (Operation_SetVariableOptions i old new) c = variable_was i (\<lambda>v. var_options v = old) c"
| "old_matches (Operation_RenameVariableCollection i old new) c = collection_was i (\<lambda>x. vcoll_name x = old) c"
| "old_matches (Operation_RenameMode i m old new) c = collection_was i (first_mode_named m old) c"
| "old_matches (Operation_BindProperty i p old new) c = node_was i (\<lambda>n. fmlookup (cn_bindings n) p = old) c"
| "old_matches (Operation_UnbindProperty i p v old_data new_data old_op new_op old_fl new_fl) c =
     node_was i (\<lambda>n. fmlookup (cn_bindings n) p = Some v \<and> cn_data n = old_data \<and>
       cn_opacity n = old_op \<and> cn_flags n = old_fl) c"
| "old_matches (Operation_SetActiveMode scope coll old new) c =
     (case scope of
        ModeScope_Doc \<Rightarrow> fmlookup (oc_active_modes c) coll = old
      | ModeScope_Frame node \<Rightarrow> node_was node (pin_was coll old) c)"
| "old_matches (Operation_CreateAnimationClip clip) c = (fmlookup (mlib_clips (oc_motion c)) (clip_id clip) = None)"
| "old_matches (Operation_DeleteAnimationClip i clip) c = (fmlookup (mlib_clips (oc_motion c)) i = Some clip)"
| "old_matches (Operation_SetAnimationClipName i old new) c = clip_was i (\<lambda>x. clip_name x = old) c"
| "old_matches (Operation_SetAnimationClipDuration i old new) c = clip_was i (\<lambda>x. clip_duration_ms x = old) c"
| "old_matches (Operation_SetAnimationClipSettings i old new) c = clip_was i (\<lambda>x. clip_settings x = old) c"
| "old_matches (Operation_SetAnimationTrack i t old new) c = clip_was i (track_was t old) c"
| "old_matches (Operation_SetKeyframe i t target k old new) c = clip_was i (keyframe_was t k old) c"
| "old_matches (Operation_AddReaction i r) c = True"
| "old_matches (Operation_RemoveReaction i index r) c =
     node_was i (\<lambda>n. nth_opt (cn_reactions n) index = Some r) c"
| "old_matches (Operation_SetReaction i index old new) c =
     node_was i (\<lambda>n. index < length (cn_reactions n) \<longrightarrow> cn_reactions n ! index = old) c"
| "old_matches (Operation_SetFlowStart old new) c = (oc_flow_start c = old)"
| "old_matches (Operation_SetFlows old new) c = (oc_flows c = old)"
| "old_matches (Operation_SetPresentation old new) c = (oc_presentation c = old)"

section \<open>Undoing scene edits\<close>

definition undone :: "op_result \<Rightarrow> op_ctx \<Rightarrow> bool" where
  \<comment> \<open>the revert succeeded and gave the slices back\<close>
  "undone r c \<longleftrightarrow> fst r = Inr () \<and> ctx_same (snd r) c"

lemma undone_ok: "ctx_same c' c \<Longrightarrow> undone (op_ok c') c"
  by (simp add: undone_def op_ok_def)

lemma scene_op_ok:
  assumes "scene_op f c = (Inr (), c1)"
  obtains s where "f (oc_scene c) = Inr s" "c1 = c\<lparr>oc_scene := s\<rparr>"
  using assms by (auto simp: scene_op_def op_ok_def op_err_def split: sum.splits)

lemma scene_op_undone:
  assumes ok: "scene_op f c = (Inr (), c1)"
    and bk: "\<And>s. f (oc_scene c) = Inr s \<Longrightarrow> \<exists>s'. g s = Inr s' \<and> scene_same s' (oc_scene c)"
  shows "undone (scene_op g c1) c"
proof -
  obtain s where s: "f (oc_scene c) = Inr s" and c1: "c1 = c\<lparr>oc_scene := s\<rparr>" using scene_op_ok[OF ok] .
  obtain s' where "g s = Inr s'" "scene_same s' (oc_scene c)" using bk[OF s] by blast
  then show ?thesis by (simp add: c1 scene_op_def op_ok_def undone_def ctx_same_def)
qed

lemma scene_update_total:
  "fmlookup (sc_nodes s) i = Some n \<Longrightarrow>
     \<exists>s'. scene_update i f s = Inr s' \<and> sc_nodes s' = fmupd i (f n) (sc_nodes s) \<and>
       sc_child_index s' = sc_child_index s"
  by (simp add: scene_update_def frame_simps Let_def)

lemma edit_node_undone:
  assumes ok: "edit_node i f c = (Inr (), c1)" and bk: "node_was i (\<lambda>n. g (f n) = n) c"
  shows "undone (edit_node i g c1) c"
  using ok unfolding edit_node_def
proof (rule scene_op_undone)
  fix s assume "scene_update i f (oc_scene c) = Inr s"
  then obtain n where n: "fmlookup (sc_nodes (oc_scene c)) i = Some n"
    and s: "sc_nodes s = fmupd i (f n) (sc_nodes (oc_scene c))" "sc_child_index s = sc_child_index (oc_scene c)"
    by (rule scene_update_ok)
  have "fmlookup (sc_nodes s) i = Some (f n)" by (simp add: s)
  from scene_update_total[OF this, of g] obtain s' where "scene_update i g s = Inr s'"
    "sc_nodes s' = fmupd i (g (f n)) (sc_nodes s)" "sc_child_index s' = sc_child_index s" by blast
  moreover have "g (f n) = n" using bk n by (simp add: node_was_def scene_get_def)
  ultimately show "\<exists>s'. scene_update i g s = Inr s' \<and> scene_same s' (oc_scene c)"
    using s n by (auto simp: scene_same_def fmupd_same)
qed

lemma set_transform_total:
  "fmlookup (sc_nodes s) i = Some n \<Longrightarrow>
     \<exists>s'. scene_set_transform i t s = Inr s' \<and> sc_nodes s' = fmupd i (n\<lparr>cn_transform := t\<rparr>) (sc_nodes s) \<and>
       sc_child_index s' = sc_child_index s"
  by (simp add: scene_set_transform_def frame_simps Let_def)

lemma set_transform_undone:
  assumes ok: "scene_op (scene_set_transform i new) c = (Inr (), c1)" and old: "node_was i (\<lambda>n. cn_transform n = old) c"
  shows "undone (scene_op (scene_set_transform i old) c1) c"
  using ok
proof (rule scene_op_undone)
  fix s assume "scene_set_transform i new (oc_scene c) = Inr s"
  then obtain n where n: "fmlookup (sc_nodes (oc_scene c)) i = Some n"
    and s: "sc_nodes s = fmupd i (n\<lparr>cn_transform := new\<rparr>) (sc_nodes (oc_scene c))"
      "sc_child_index s = sc_child_index (oc_scene c)"
    by (rule scene_set_transform_ok)
  have "fmlookup (sc_nodes s) i = Some (n\<lparr>cn_transform := new\<rparr>)" by (simp add: s)
  from set_transform_total[OF this, of old] obtain s' where "scene_set_transform i old s = Inr s'"
    "sc_nodes s' = fmupd i (n\<lparr>cn_transform := old\<rparr>) (sc_nodes s)" "sc_child_index s' = sc_child_index s" by auto
  moreover have "n\<lparr>cn_transform := old\<rparr> = n" using old n by (simp add: node_was_def scene_get_def)
  ultimately show "\<exists>s'. scene_set_transform i old s = Inr s' \<and> scene_same s' (oc_scene c)"
    using s n by (auto simp: scene_same_def fmupd_same)
qed

lemma same_nodes_same:
  "scene_inv s \<Longrightarrow> scene_inv t \<Longrightarrow> sc_nodes s = sc_nodes t \<Longrightarrow> scene_same s t"
  using index_agrees_unique scene_invD(4) by (auto simp: scene_same_def) metis

lemma set_index_total:
  "fmlookup (sc_nodes s) i = Some n \<Longrightarrow>
     \<exists>s'. scene_set_index i x s = Inr s' \<and> sc_nodes s' = fmupd i (n\<lparr>cn_index := x\<rparr>) (sc_nodes s)"
  by (simp add: scene_set_index_def frame_simps Let_def)

lemma set_index_undone:
  assumes inv: "scene_inv (oc_scene c)" and ok: "scene_op (scene_set_index i new) c = (Inr (), c1)"
    and old: "node_was i (\<lambda>n. cn_index n = old) c"
  shows "undone (scene_op (scene_set_index i old) c1) c"
  using ok
proof (rule scene_op_undone)
  fix s assume step: "scene_set_index i new (oc_scene c) = Inr s"
  then obtain n where n: "fmlookup (sc_nodes (oc_scene c)) i = Some n"
    and s: "sc_nodes s = fmupd i (n\<lparr>cn_index := new\<rparr>) (sc_nodes (oc_scene c))"
    by (rule scene_set_index_ok)
  have "fmlookup (sc_nodes s) i = Some (n\<lparr>cn_index := new\<rparr>)" by (simp add: s)
  from set_index_total[OF this, of old] obtain s' where s': "scene_set_index i old s = Inr s'"
    "sc_nodes s' = fmupd i (n\<lparr>cn_index := old\<rparr>) (sc_nodes s)" by auto
  have "n\<lparr>cn_index := old\<rparr> = n" using old n by (simp add: node_was_def scene_get_def)
  then have "sc_nodes s' = sc_nodes (oc_scene c)" using s s' n by (simp add: fmupd_same)
  moreover have "scene_inv s'" using scene_set_index_inv[OF scene_set_index_inv[OF inv step] s'(1)] .
  ultimately show "\<exists>s'. scene_set_index i old s = Inr s' \<and> scene_same s' (oc_scene c)"
    using s' inv same_nodes_same by blast
qed

lemma below_fmupd: "below (fmupd i m ns) i \<subseteq> below ns i"
proof
  fix d assume "d \<in> below (fmupd i m ns) i"
  then have "(i, d) \<in> (parent_edges (fmupd i m ns))\<^sup>*" by (simp add: below_def)
  then have "(i, d) \<in> (parent_edges ns)\<^sup>*"
  proof (induction rule: rtrancl_induct)
    case (step y z)
    then show ?case
      by (cases "z = i") (auto simp: edges_fmupd intro: rtrancl_into_rtrancl)
  qed simp
  then show "d \<in> below ns i" by (simp add: below_def)
qed

lemma parent_outside_below:
  assumes "forest_ok ns" "fmlookup ns i = Some n" "cn_parent n = Some p"
  shows "p \<notin> below ns i"
proof -
  have "(p, i) \<in> parent_edges ns" using assms by (simp add: parent_edges_def parent_of_def)
  from forest_irrefl[OF assms(1) this] show ?thesis by (simp add: below_def)
qed

lemma parents_ok_check: "parents_ok ns \<Longrightarrow> fmlookup ns i = Some n \<Longrightarrow> check_parent ns (cn_parent n) = None"
  by (auto simp: check_parent_None parents_ok_def)

lemma check_parent_fmupd:
  assumes "check_parent ns p = None" "fmlookup ns i = Some n" "can_have_children m = can_have_children n"
  shows "check_parent (fmupd i m ns) p = None"
  using assms by (auto simp: check_parent_None)

lemma set_parent_total:
  assumes "fmlookup (sc_nodes s) i = Some n" "check_reparent (sc_nodes s) i p = None"
  shows "\<exists>s'. scene_set_parent i p x s = Inr s' \<and>
    sc_nodes s' = fmupd i (n\<lparr>cn_parent := p, cn_index := x\<rparr>) (sc_nodes s)"
proof -
  have "\<exists>s'. scene_set_parent i p x s = Inr s'"
    using assms by (simp only: scene_set_parent_defined scene_contains_def) simp
  then obtain s' where s': "scene_set_parent i p x s = Inr s'" by blast
  then obtain m where "fmlookup (sc_nodes s) i = Some m"
    "sc_nodes s' = fmupd i (m\<lparr>cn_parent := p, cn_index := x\<rparr>) (sc_nodes s)"
    by (rule scene_set_parent_ok)
  with s' assms show ?thesis by simp
qed

lemma set_parent_undone:
  assumes inv: "scene_inv (oc_scene c)" and ok: "scene_op (scene_set_parent i p x) c = (Inr (), c1)"
    and old: "node_was i (\<lambda>n. cn_parent n = op \<and> cn_index n = ox) c"
  shows "undone (scene_op (scene_set_parent i op ox) c1) c"
  using ok
proof (rule scene_op_undone)
  let ?ns = "sc_nodes (oc_scene c)"
  fix s assume step: "scene_set_parent i p x (oc_scene c) = Inr s"
  then obtain n where n: "fmlookup ?ns i = Some n"
    and s: "sc_nodes s = fmupd i (n\<lparr>cn_parent := p, cn_index := x\<rparr>) ?ns"
    by (rule scene_set_parent_ok)
  have op: "cn_parent n = op" "cn_index n = ox" using old n by (simp_all add: node_was_def scene_get_def)
  have inv1: "scene_inv s" using inv step by (rule scene_set_parent_inv)
  have "check_parent ?ns op = None"
    using parents_ok_check[OF scene_invD(2)[OF inv] n] op by simp
  then have "check_parent (sc_nodes s) op = None"
    unfolding s using n by (rule check_parent_fmupd) (rule can_have_children_cong, simp)
  moreover have "q \<notin> below (sc_nodes s) i" if "op = Some q" for q
    using parent_outside_below[OF scene_invD(3)[OF inv] n, of q] below_fmupd that op unfolding s by blast
  ultimately have "check_reparent (sc_nodes s) i op = None"
    by (simp add: check_reparent_None[OF scene_invD(3)[OF inv1]])
  moreover have "fmlookup (sc_nodes s) i = Some (n\<lparr>cn_parent := p, cn_index := x\<rparr>)" by (simp add: s)
  ultimately obtain s' where s': "scene_set_parent i op ox s = Inr s'"
    "sc_nodes s' = fmupd i (n\<lparr>cn_parent := op, cn_index := ox\<rparr>) (sc_nodes s)"
    using set_parent_total[of s i "n\<lparr>cn_parent := p, cn_index := x\<rparr>" op ox] by auto
  have "n\<lparr>cn_parent := op, cn_index := ox\<rparr> = n" using op by simp
  then have "sc_nodes s' = ?ns" using s s' n by (simp add: fmupd_same)
  moreover have "scene_inv s'" using scene_set_parent_inv[OF inv1 s'(1)] .
  ultimately show "\<exists>s'. scene_set_parent i op ox s = Inr s' \<and> scene_same s' (oc_scene c)"
    using s' inv same_nodes_same by blast
qed

lemma insert_remove_back:
  assumes inv: "scene_inv s" and ins: "insert_node n s = Inr s1"
  shows "\<exists>s2. remove_node (cn_id n) s1 = Inr s2 \<and> scene_same s2 s"
proof -
  obtain i where i: "scene_insert n s = Inr (i, s1)" using ins by (auto simp: insert_node_def split: sum.splits)
  from scene_remove_undoes_insert[OF inv i] scene_insert_ok(1)[OF i] show ?thesis
    by (auto simp: remove_node_def scene_same_def)
qed

lemma insert_node_inv: "scene_inv s \<Longrightarrow> insert_node n s = Inr s1 \<Longrightarrow> scene_inv s1"
  by (auto simp: insert_node_def split: sum.splits intro: scene_insert_inv)

lemma create_undone:
  assumes inv: "scene_inv (oc_scene c)" and ok: "scene_op (insert_node n) c = (Inr (), c1)"
  shows "undone (scene_op (remove_node (cn_id n)) c1) c"
  using ok insert_remove_back[OF inv] by (rule scene_op_undone)

subsection \<open>Subtrees\<close>

fun insertable :: "node_map \<Rightarrow> canvas_node list \<Rightarrow> bool" where
  \<comment> \<open>inserting the nodes one after another succeeds\<close>
  "insertable ns [] = True"
| "insertable ns (n # l) \<longleftrightarrow>
     fmlookup ns (cn_id n) = None \<and> check_parent ns (cn_parent n) = None \<and> insertable (fmupd (cn_id n) n ns) l"

definition put_nodes :: "canvas_node list \<Rightarrow> node_map \<Rightarrow> node_map" where
  "put_nodes l ns = fold (\<lambda>n. fmupd (cn_id n) n) l ns"

lemma insert_each_insertable:
  "scene_inv (oc_scene c) \<Longrightarrow> insertable (sc_nodes (oc_scene c)) l \<Longrightarrow>
     \<exists>s. insert_each l c = op_ok (c\<lparr>oc_scene := s\<rparr>) \<and> scene_inv s \<and> sc_nodes s = put_nodes l (sc_nodes (oc_scene c))"
proof (induction l arbitrary: c)
  case Nil
  have "c = c\<lparr>oc_scene := oc_scene c\<rparr>" by simp
  with Nil show ?case by (auto simp: put_nodes_def intro: exI[of _ "oc_scene c"])
next
  case (Cons n l)
  obtain s1 where s1: "scene_insert n (oc_scene c) = Inr (cn_id n, s1)"
    "sc_nodes s1 = fmupd (cn_id n) n (sc_nodes (oc_scene c))"
    using scene_insert_succeeds[of "oc_scene c" n] Cons.prems(2) by auto
  have "scene_inv s1" using Cons.prems(1) s1(1) by (rule scene_insert_inv)
  with Cons.IH[of "c\<lparr>oc_scene := s1\<rparr>"] Cons.prems(2) s1 show ?case
    by (auto simp: insert_node_def put_nodes_def)
qed

lemma insert_each_ok_nodes:
  "scene_inv (oc_scene c) \<Longrightarrow> insert_each l c = (Inr (), c1) \<Longrightarrow>
     c1 = c\<lparr>oc_scene := oc_scene c1\<rparr> \<and> scene_inv (oc_scene c1) \<and>
     scene_same (fold (\<lambda>n. remove_if_present (cn_id n)) (rev l) (oc_scene c1)) (oc_scene c)"
proof (induction l arbitrary: c)
  case (Cons n l)
  from Cons.prems(2) obtain s1 where s1: "insert_node n (oc_scene c) = Inr s1"
    and rest: "insert_each l (c\<lparr>oc_scene := s1\<rparr>) = (Inr (), c1)"
    by (auto simp: op_err_def split: sum.splits)
  have "scene_inv s1" using Cons.prems(1) s1 by (rule insert_node_inv)
  with Cons.IH[OF _ rest] have IH: "c1 = (c\<lparr>oc_scene := s1\<rparr>)\<lparr>oc_scene := oc_scene c1\<rparr>" "scene_inv (oc_scene c1)"
    "scene_same (fold (\<lambda>n. remove_if_present (cn_id n)) (rev l) (oc_scene c1)) s1" by simp_all
  obtain s2 where s2: "remove_node (cn_id n) s1 = Inr s2" "scene_same s2 (oc_scene c)"
    using insert_remove_back[OF Cons.prems(1) s1] by blast
  have "scene_same (remove_if_present (cn_id n) (fold (\<lambda>n. remove_if_present (cn_id n)) (rev l) (oc_scene c1)))
      (remove_if_present (cn_id n) s1)"
    using IH(3) by (rule remove_if_present_same)
  moreover have "scene_same (remove_if_present (cn_id n) s1) (oc_scene c)"
    using s2 by (simp add: remove_if_present_def)
  ultimately have "scene_same (fold (\<lambda>n. remove_if_present (cn_id n)) (rev (n # l)) (oc_scene c1)) (oc_scene c)"
    by (simp add: scene_same_def)
  with IH show ?case by simp
qed (simp add: op_ok_def)

lemma descend_parent_before:
  "descend n ci st = xs @ d # ys \<Longrightarrow> d \<in> set st \<or> (\<exists>p \<in> set xs. d \<in> set (children_in ci (Some p)))"
proof (induction n arbitrary: st xs)
  case (Suc n)
  show ?case
  proof (cases st)
    case (Cons i st')
    with Suc.prems have eq: "i # descend n ci (children_in ci (Some i) @ st') = xs @ d # ys" by simp
    show ?thesis
    proof (cases xs)
      case Nil
      with eq Cons show ?thesis by simp
    next
      case (Cons x xs')
      with eq have x: "x = i" and "descend n ci (children_in ci (Some i) @ st') = xs' @ d # ys" by auto
      from Suc.IH[OF this(2)] show ?thesis using \<open>st = i # st'\<close> Cons x by auto
    qed
  qed (use Suc.prems in simp)
qed simp

lemma parent_before:
  assumes inv: "scene_inv s" and split: "descendants_of s r = xs @ d # ys"
    and n: "fmlookup (sc_nodes s) d = Some n" and p: "cn_parent n = Some p"
  shows "p \<notin> set (d # ys)"
proof -
  have dist: "distinct (xs @ d # ys)" using descendants_exact(2)[OF inv, of r] by (simp only: split)
  have dp: "parent_of (sc_nodes s) d = Some p" using n p by (simp add: parent_of_def)
  from descend_parent_before[of "walk_fuel (sc_nodes s)" "sc_child_index s" "[r]" xs d ys] split
  consider "d = r" | q where "q \<in> set xs" "d \<in> set (children_in (sc_child_index s) (Some q))"
    by (auto simp: descendants_of_def)
  then show ?thesis
  proof cases
    case 1
    have "p \<notin> set (descendants_of s r)"
      using parent_outside_below[OF scene_invD(3)[OF inv] n p] descendants_exact(1)[OF inv, of r] 1 by simp
    then show ?thesis by (simp add: split)
  next
    case 2
    then have "q = p" using children_set[OF scene_invD(4)[OF inv], of "Some q"] dp by (simp add: child_set_Some)
    with 2 dist show ?thesis by auto
  qed
qed

lemma fmfilter_restore:
  "fmlookup ns d = Some n \<Longrightarrow> d \<notin> set ys \<Longrightarrow>
     fmupd d n (fmfilter (\<lambda>k. k \<notin> set (d # ys)) ns) = fmfilter (\<lambda>k. k \<notin> set ys) ns"
  by (rule fmap_ext) auto

lemma snapshot_insertable:
  assumes inv: "scene_inv s" and r: "fmlookup (sc_nodes s) r \<noteq> None"
  shows "descendants_of s r = xs @ ys \<Longrightarrow>
    insertable (fmfilter (\<lambda>k. k \<notin> set ys) (sc_nodes s)) (List.map_filter (scene_get s) ys) \<and>
    put_nodes (List.map_filter (scene_get s) ys) (fmfilter (\<lambda>k. k \<notin> set ys) (sc_nodes s)) = sc_nodes s"
proof (induction ys arbitrary: xs)
  case Nil
  then show ?case by (simp add: put_nodes_def List.map_filter_simps fmfilter_true)
next
  case (Cons d ys)
  let ?ns = "sc_nodes s"
  have "d \<in> below ?ns r" using Cons.prems descendants_exact(1)[OF inv, of r] by auto
  then obtain n where n: "fmlookup ?ns d = Some n" using r below_present[of d ?ns r] by (cases "d = r") auto
  have id: "cn_id n = d" using keys_okD[OF scene_invD(1)[OF inv] n] .
  have dist: "d \<notin> set ys" using descendants_exact(2)[OF inv, of r] by (simp add: Cons.prems)
  have "check_parent ?ns (cn_parent n) = None" using parents_ok_check[OF scene_invD(2)[OF inv] n] .
  then have "check_parent (fmfilter (\<lambda>k. k \<notin> set (d # ys)) ?ns) (cn_parent n) = None"
    using parent_before[OF inv Cons.prems n] by (auto simp: check_parent_None)
  moreover have "fmupd d n (fmfilter (\<lambda>k. k \<notin> set (d # ys)) ?ns) = fmfilter (\<lambda>k. k \<notin> set ys) ?ns"
    using n dist by (rule fmfilter_restore)
  moreover note Cons.IH[of "xs @ [d]"] Cons.prems n id
  ultimately show ?case by (simp add: List.map_filter_simps scene_get_def put_nodes_def)
qed

lemma delete_undone:
  assumes inv: "scene_inv (oc_scene c)" and ok: "delete_subtree snapshot c = (Inr (), c1)"
    and old: "case snapshot of [] \<Rightarrow> True | r # _ \<Rightarrow> snapshot = subtree_snapshot (oc_scene c) (cn_id r)"
  shows "undone (insert_each snapshot c1) c"
proof -
  let ?s = "oc_scene c"
  obtain r where r: "head_opt snapshot = Some r" "scene_op (remove_node (cn_id r)) c = (Inr (), c1)"
    using ok by (auto simp: delete_subtree_def op_err_def split: option.splits)
  then have snap: "snapshot = subtree_snapshot ?s (cn_id r)" using old by (cases snapshot) simp_all
  obtain s1 where s1: "remove_node (cn_id r) ?s = Inr s1" "c1 = c\<lparr>oc_scene := s1\<rparr>"
    using r(2) by (rule scene_op_ok)
  obtain n where rem: "scene_remove (cn_id r) ?s = Inr (n, s1)"
    using s1(1) by (auto simp: remove_node_def split: sum.splits)
  note rm = scene_remove_inv[OF inv rem]
  have nodes: "sc_nodes s1 = fmfilter (\<lambda>k. k \<notin> set (descendants_of ?s (cn_id r))) (sc_nodes ?s)"
    using rm(3) by (simp add: descendants_exact(1)[OF inv])
  have "insertable (sc_nodes (oc_scene c1)) snapshot \<and> put_nodes snapshot (sc_nodes (oc_scene c1)) = sc_nodes ?s"
    using snapshot_insertable[OF inv, of "cn_id r" "[]"] rm(2) nodes snap
    by (simp add: subtree_snapshot_def s1(2))
  with insert_each_insertable[of c1 snapshot] rm(1) obtain s2 where
    s2: "insert_each snapshot c1 = op_ok (c1\<lparr>oc_scene := s2\<rparr>)" "scene_inv s2" "sc_nodes s2 = sc_nodes ?s"
    by (auto simp: s1(2))
  have "scene_same s2 ?s" using s2(2) inv s2(3) by (rule same_nodes_same)
  then show ?thesis using s2(1) s1(2) by (auto intro!: undone_ok simp: ctx_same_def)
qed

lemma edit_node_ok:
  assumes "edit_node i f c = (Inr (), c1)"
  obtains n where "fmlookup (sc_nodes (oc_scene c)) i = Some n" "c1 = c\<lparr>oc_scene := oc_scene c1\<rparr>"
    "sc_nodes (oc_scene c1) = fmupd i (f n) (sc_nodes (oc_scene c))"
    "sc_child_index (oc_scene c1) = sc_child_index (oc_scene c)"
    "scene_update i f (oc_scene c) = Inr (oc_scene c1)"
proof -
  obtain s where s: "scene_update i f (oc_scene c) = Inr s" "c1 = c\<lparr>oc_scene := s\<rparr>"
    using assms unfolding edit_node_def by (rule scene_op_ok)
  from s(1) obtain n where "fmlookup (sc_nodes (oc_scene c)) i = Some n"
    "sc_nodes s = fmupd i (f n) (sc_nodes (oc_scene c))" "sc_child_index s = sc_child_index (oc_scene c)"
    by (rule scene_update_ok)
  with s that show ?thesis by simp
qed

lemma undone_trans: "result_same r r' \<Longrightarrow> undone r' c \<Longrightarrow> undone r c"
  by (auto simp: undone_def result_same_def intro: ctx_same_trans)

lemma detach_undone:
  assumes inv: "scene_inv (oc_scene c)" and ok: "detach_instance Dir_Apply i old new ex c = (Inr (), c2)"
    and was: "node_was i (\<lambda>n. cn_data n = old) c" and leaf: "children_of (oc_scene c) (Some i) = []"
  shows "undone (detach_instance Dir_Revert i old new ex c2) c"
proof -
  let ?f = "\<lambda>n. n\<lparr>cn_data := new\<rparr>" and ?g = "\<lambda>n. n\<lparr>cn_data := old\<rparr>"
  obtain c1 where c1: "edit_node i ?f c = (Inr (), c1)" and ins: "insert_each ex c1 = (Inr (), c2)"
    using ok by (auto simp: detach_instance_def split: prod.splits sum.splits)
  obtain n where n: "fmlookup (sc_nodes (oc_scene c)) i = Some n"
    and upd: "scene_update i ?f (oc_scene c) = Inr (oc_scene c1)"
    using edit_node_ok[OF c1] by metis
  have "scene_inv (oc_scene c1)" by (rule scene_update_inv[OF inv upd]) (simp add: keeps_place_def leaf)
  from insert_each_ok_nodes[OF this ins] have c2: "c2 = c1\<lparr>oc_scene := oc_scene c2\<rparr>"
    "scene_same (fold (\<lambda>n. remove_if_present (cn_id n)) (rev ex) (oc_scene c2)) (oc_scene c1)" by blast+
  let ?s = "fold (\<lambda>n. remove_if_present (cn_id n)) (rev ex) (oc_scene c2)"
  have "ctx_same (c2\<lparr>oc_scene := ?s\<rparr>) c1"
    by (subst c2(1)) (use c2(2) in \<open>simp add: ctx_same_def\<close>)
  then have "result_same (edit_node i ?g (c2\<lparr>oc_scene := ?s\<rparr>)) (edit_node i ?g c1)" by (rule edit_node_same)
  moreover have "undone (edit_node i ?g c1) c"
    by (rule edit_node_undone[OF c1]) (use was n in \<open>simp add: node_was_def scene_get_def\<close>)
  ultimately show ?thesis by (auto simp: detach_instance_def intro: undone_trans)
qed

end
