(* ===== verification/OpUndo.thy ===== *)
theory OpUndo
  imports OpReverse
begin

text \<open>
  Undo for every variant: the inverse of each registry write and each field write, put together into
  the theorem that reverting undoes applying, and the cases where the source falls short of its own
  comments.
\<close>

section \<open>Registry writes\<close>

lemma put_def_undone:
  assumes "map_option strip_def (fmlookup (clib_defs (oc_components c)) i) = map_option strip_def old"
  shows "ctx_same (put_def i old (put_def i new c)) c"
proof -
  have "fmmap strip_def (fm_put i old (clib_defs (oc_components c))) = fmmap strip_def (clib_defs (oc_components c))"
    using assms by (intro fmap_ext) (auto simp: fmlookup_fm_put)
  then show ?thesis by (auto simp: ctx_same_def put_def_def intro!: strip_libI)
qed

lemma edit_def_undone:
  assumes "def_was i (\<lambda>x. g (f x) = x) c"
  shows "edit_def i g (edit_def i f c) = c"
proof -
  have "fm_modify i (g \<circ> f) (clib_defs (oc_components c)) = clib_defs (oc_components c)"
    using assms by (intro fm_modify_id) (simp add: def_was_def)
  then show ?thesis by (simp add: edit_def_def)
qed

lemma put_set_undone:
  "fmlookup (clib_sets (oc_components c)) i = old \<Longrightarrow> put_set i old (put_set i new c) = c"
  by (simp add: put_set_def fm_put_same)

lemma put_collection_undone:
  "fmlookup (vreg_collections (oc_variables c)) i = old \<Longrightarrow> put_collection i old (put_collection i new c) = c"
  by (simp add: put_collection_def fm_put_same)

lemma put_clip_undone:
  "fmlookup (mlib_clips (oc_motion c)) i = old \<Longrightarrow> put_clip i old (put_clip i new c) = c"
  by (simp add: put_clip_def fm_put_same)

lemma edit_collection_undone:
  assumes "collection_was i (\<lambda>x. g (f x) = x) c"
  shows "edit_collection i g (edit_collection i f c) = c"
proof -
  have "fm_modify i (g \<circ> f) (vreg_collections (oc_variables c)) = vreg_collections (oc_variables c)"
    using assms by (intro fm_modify_id) (simp add: collection_was_def)
  then show ?thesis by (simp add: edit_collection_def)
qed

lemma edit_variable_undone:
  assumes ok: "edit_variable i f c = (Inr (), c1)" and was: "variable_was i (\<lambda>x. g (f x) = x) c"
  shows "undone (edit_variable i g c1) c"
proof -
  have "fm_modify i (g \<circ> f) (vreg_variables (oc_variables c)) = vreg_variables (oc_variables c)"
    using was by (intro fm_modify_id) (simp add: variable_was_def)
  then have "edit_variable i g c1 = op_ok c"
    using ok by (auto simp: edit_variable_def op_ok_def)
  then show ?thesis by (simp add: undone_ok)
qed

lemma edit_clip_undone:
  assumes "clip_was i (\<lambda>x. g (f x) = x) c"
  shows "edit_clip i g (edit_clip i f c) = c"
proof -
  have "fm_modify i (g \<circ> f) (mlib_clips (oc_motion c)) = mlib_clips (oc_motion c)"
    using assms by (intro fm_modify_id) (simp add: clip_was_def)
  then show ?thesis by (simp add: edit_clip_def)
qed

lemma collection_was_mono: "collection_was i P c \<Longrightarrow> (\<And>x. P x \<Longrightarrow> Q x) \<Longrightarrow> collection_was i Q c"
  by (simp add: collection_was_def split: option.splits)

lemma clip_was_mono: "clip_was i P c \<Longrightarrow> (\<And>x. P x \<Longrightarrow> Q x) \<Longrightarrow> clip_was i Q c"
  by (simp add: clip_was_def split: option.splits)

lemma node_was_mono: "node_was i P c \<Longrightarrow> (\<And>x. P x \<Longrightarrow> Q x) \<Longrightarrow> node_was i Q c"
  by (simp add: node_was_def split: option.splits)

section \<open>Writes inside a value\<close>

lemma pop_push_mode:
  "(vcoll_modes x = [] \<longrightarrow> vcoll_default_mode x = mode_zero) \<Longrightarrow> pop_mode (push_mode m x) = x"
  by (simp add: pop_mode_def push_mode_def)

lemma restore_drop_mode: "nth_opt (vcoll_modes x) index = Some m \<Longrightarrow> restore_mode index m (drop_mode index x) = x"
proof -
  assume "nth_opt (vcoll_modes x) index = Some m"
  then have k: "index < length (vcoll_modes x)" "vcoll_modes x ! index = m"
    by (simp_all add: nth_opt_def split: if_splits)
  have "min index (length (vec_remove index (vcoll_modes x))) = index"
    using k(1) by (simp add: length_vec_remove)
  with vec_insert_remove[OF k(1)] k show ?thesis by (simp add: restore_mode_def drop_mode_def)
qed

lemma rename_first_back:
  "(case find (\<lambda>y. mode_id y = m) l of None \<Rightarrow> True | Some y \<Rightarrow> mode_name y = old) \<Longrightarrow>
     rename_first m old (rename_first m new l) = l"
  by (induction l) (auto split: if_splits)

lemma rename_mode_back:
  "first_mode_named m old x \<Longrightarrow>
     (x\<lparr>vcoll_modes := rename_first m new (vcoll_modes x)\<rparr>)
       \<lparr>vcoll_modes := rename_first m old (vcoll_modes (x\<lparr>vcoll_modes := rename_first m new (vcoll_modes x)\<rparr>))\<rparr> = x"
  by (simp add: first_mode_named_def rename_first_back)

lemma filter_absent: "x \<notin> set xs \<Longrightarrow> filter (\<lambda>y. y \<noteq> x) xs = xs"
  by (induction xs) auto

lemma order_drop_push:
  "v \<notin> set (vcoll_variable_order x) \<Longrightarrow> order_drop v (order_push v x) = x"
  by (simp add: order_drop_def order_push_def filter_absent)

lemma order_insert_drop:
  assumes "distinct (vcoll_variable_order x)" "list_position (\<lambda>y. y = v) (vcoll_variable_order x) = Some k"
  shows "order_insert k v (order_drop v x) = x"
proof -
  let ?l = "vcoll_variable_order x"
  have k: "k < length ?l" "?l ! k = v" using assms(2) list_position_bound list_position_holds by fastforce+
  have f: "filter (\<lambda>y. y \<noteq> v) ?l = vec_remove k ?l" using vec_remove_position[OF assms] by simp
  have notin: "v \<notin> set (vec_remove k ?l)" unfolding f[symmetric] by simp
  have "min k (length (vec_remove k ?l)) = k" using k(1) by (simp add: length_vec_remove)
  moreover have "vec_insert k v (vec_remove k ?l) = ?l" using vec_insert_remove[OF k(1)] by (simp add: k(2))
  ultimately show ?thesis by (simp add: order_insert_def order_drop_def f notin)
qed

lemma order_drop_absent: "list_position (\<lambda>y. y = v) (vcoll_variable_order x) = None \<Longrightarrow> order_drop v x = x"
  by (simp add: order_drop_def filter_id_conv)

lemma put_override_back:
  assumes "override_was index old new inst"
  shows "put_override index old (put_override index new inst) = inst"
proof -
  let ?l = "inst_overrides inst"
  have was: "nth_opt ?l index = old" "old = None \<Longrightarrow> new \<noteq> None \<Longrightarrow> index = length ?l"
    "old \<noteq> None \<Longrightarrow> new = None \<Longrightarrow> Suc index = length ?l"
    using assms by (auto simp: override_was_def)
  show ?thesis
  proof (cases "index < length ?l")
    case True
    then have old: "old = Some (?l ! index)" using was(1) by (simp add: nth_opt_def)
    show ?thesis
    proof (cases new)
      case None
      then have "Suc index = length ?l" using was(3) old by simp
      then have "vec_remove index ?l = take index ?l" "take index ?l @ [?l ! index] = ?l"
        by (simp_all add: vec_remove_def flip: take_Suc_conv_app_nth[OF True])
      with None True show ?thesis by (simp add: put_override_def old Let_def)
    qed (use True in \<open>simp add: put_override_def old Let_def\<close>)
  next
    case False
    then have "old = None" using was(1) by (simp add: nth_opt_def)
    with was(2) False show ?thesis
      by (cases new) (simp_all add: put_override_def vec_remove_def Let_def)
  qed
qed

lemma with_instance_back:
  assumes "instance_was (\<lambda>inst. g (f inst) = inst) n"
  shows "with_instance g (with_instance f n) = n"
  using assms by (cases "cn_data n") (simp_all add: with_instance_def instance_was_def)

lemma instance_was_mono: "instance_was P n \<Longrightarrow> (\<And>x. P x \<Longrightarrow> Q x) \<Longrightarrow> instance_was Q n"
  by (cases "cn_data n") (simp_all add: instance_was_def)

lemma pin_mode_back:
  assumes "pin_was coll old n"
  shows "pin_mode coll old (pin_mode coll new n) = n"
  using assms by (cases "cn_data n") (simp_all add: pin_mode_def pin_was_def fm_put_same)

lemma bind_back:
  "fmlookup (cn_bindings n) p = old \<Longrightarrow> bind_property Dir_Revert p old new (bind_property Dir_Apply p old new n) = n"
  by (simp add: bind_property_def fm_put_same fmap_ext fmlookup_fm_put)

lemma push_reaction_back: "push_reaction Dir_Revert r (push_reaction Dir_Apply r n) = n"
  by (simp add: push_reaction_def)

lemma take_reaction_back:
  "nth_opt (cn_reactions n) index = Some r \<Longrightarrow> take_reaction Dir_Revert index r (take_reaction Dir_Apply index r n) = n"
proof -
  assume "nth_opt (cn_reactions n) index = Some r"
  then have k: "index < length (cn_reactions n)" "cn_reactions n ! index = r"
    by (simp_all add: nth_opt_def split: if_splits)
  have "min index (length (vec_remove index (cn_reactions n))) = index"
    using k(1) by (simp add: length_vec_remove)
  with vec_insert_remove[OF k(1)] k show ?thesis by (simp add: take_reaction_def)
qed

lemma write_reaction_back:
  "(index < length (cn_reactions n) \<longrightarrow> cn_reactions n ! index = old) \<Longrightarrow>
     write_reaction index old (write_reaction index new n) = n"
  by (simp add: write_reaction_def list_update_same_conv)

lemma put_track_back: "track_was t old cl \<Longrightarrow> put_track t old (put_track t new cl) = cl"
  by (cases old) (simp_all add: put_track_def track_was_def fm_put_same)

lemma put_keyframe_back:
  "fmlookup (track_keyframes tr) k = old \<Longrightarrow> (case old of None \<Rightarrow> True | Some x \<Rightarrow> kf_id x = k) \<Longrightarrow>
     put_keyframe k old (put_keyframe k new tr) = tr"
  by (cases old) (simp_all add: put_keyframe_def fm_put_same)

section \<open>Every variant\<close>

named_theorems undo_rules \<open>reverting one kind of operation undoes it\<close>

lemma undo_field [undo_rules]:
  "edit_node i f c = (Inr (), c1) \<Longrightarrow> node_was i P c \<Longrightarrow> (\<And>n. P n \<Longrightarrow> g (f n) = n) \<Longrightarrow>
     undone (edit_node i g c1) c"
  by (rule edit_node_undone) (auto intro: node_was_mono)

lemma undo_push_reaction:
  "edit_node i (push_reaction Dir_Apply r) c = (Inr (), c1) \<Longrightarrow> undone (edit_node i (push_reaction Dir_Revert r) c1) c"
  by (rule edit_node_undone) (auto simp: node_was_def push_reaction_back split: option.splits)

lemma with_instance_back_if:
  "instance_was P n \<Longrightarrow> (\<And>inst. P inst \<Longrightarrow> g (f inst) = inst) \<Longrightarrow> with_instance g (with_instance f n) = n"
  by (auto intro!: with_instance_back elim: instance_was_mono)

lemma undo_variable [undo_rules]:
  "edit_variable i f c = (Inr (), c1) \<Longrightarrow> variable_was i P c \<Longrightarrow> (\<And>x. P x \<Longrightarrow> g (f x) = x) \<Longrightarrow>
     undone (edit_variable i g c1) c"
  by (rule edit_variable_undone) (auto simp: variable_was_def split: option.splits)

lemma undo_def [undo_rules]:
  "op_ok (edit_def i f c) = (Inr (), c1) \<Longrightarrow> def_was i P c \<Longrightarrow> (\<And>x. P x \<Longrightarrow> g (f x) = x) \<Longrightarrow>
     undone (op_ok (edit_def i g c1)) c"
  using edit_def_undone[of i g f c] by (auto simp: op_ok_def def_was_def undone_def split: option.splits)

lemma undo_collection [undo_rules]:
  "op_ok (edit_collection i f c) = (Inr (), c1) \<Longrightarrow> collection_was i P c \<Longrightarrow> (\<And>x. P x \<Longrightarrow> g (f x) = x) \<Longrightarrow>
     undone (op_ok (edit_collection i g c1)) c"
  using edit_collection_undone[of i g f c] by (auto simp: op_ok_def collection_was_def undone_def split: option.splits)

lemma undo_clip [undo_rules]:
  "op_ok (edit_clip i f c) = (Inr (), c1) \<Longrightarrow> clip_was i P c \<Longrightarrow> (\<And>x. P x \<Longrightarrow> g (f x) = x) \<Longrightarrow>
     undone (op_ok (edit_clip i g c1)) c"
  using edit_clip_undone[of i g f c] by (auto simp: op_ok_def clip_was_def undone_def split: option.splits)

lemma undo_put_def [undo_rules]:
  "op_ok (put_def i v c) = (Inr (), c1) \<Longrightarrow>
     map_option strip_def (fmlookup (clib_defs (oc_components c)) i) = map_option strip_def old \<Longrightarrow>
     undone (op_ok (put_def i old c1)) c"
  using put_def_undone[of c i old v] by (auto simp: op_ok_def undone_def)

lemma undo_put_set [undo_rules]:
  "op_ok (put_set i v c) = (Inr (), c1) \<Longrightarrow> fmlookup (clib_sets (oc_components c)) i = old \<Longrightarrow>
     undone (op_ok (put_set i old c1)) c"
  using put_set_undone[of c i old v] by (auto simp: op_ok_def undone_def)

lemma undo_put_collection [undo_rules]:
  "op_ok (put_collection i v c) = (Inr (), c1) \<Longrightarrow> fmlookup (vreg_collections (oc_variables c)) i = old \<Longrightarrow>
     undone (op_ok (put_collection i old c1)) c"
  using put_collection_undone[of c i old v] by (auto simp: op_ok_def undone_def)

lemma undo_put_clip [undo_rules]:
  "op_ok (put_clip i v c) = (Inr (), c1) \<Longrightarrow> fmlookup (mlib_clips (oc_motion c)) i = old \<Longrightarrow>
     undone (op_ok (put_clip i old c1)) c"
  using put_clip_undone[of c i old v] by (auto simp: op_ok_def undone_def)

lemma undo_create_variable:
  assumes ok: "create_variable Dir_Apply v c = (Inr (), c1)"
    and new: "fmlookup (vreg_variables (oc_variables c)) (var_id v) = None"
    and order: "collection_was (var_collection v) (\<lambda>x. var_id v \<notin> set (vcoll_variable_order x)) c"
  shows "undone (create_variable Dir_Revert v c1) c"
proof -
  let ?R = "oc_variables c"
  have "fm_modify (var_collection v) (order_drop (var_id v) \<circ> order_push (var_id v)) (vreg_collections ?R) = vreg_collections ?R"
    using order by (intro fm_modify_id) (simp add: collection_was_def order_drop_push)
  moreover have "fm_put (var_id v) None (vreg_variables ?R) = vreg_variables ?R"
    using new by (rule fm_put_same)
  ultimately have "create_variable Dir_Revert v c1 = op_ok c"
    using ok by (auto simp: create_variable_def op_ok_def edit_collection_def put_variable_def)
  then show ?thesis by (simp add: undone_ok)
qed

lemma undo_delete_variable:
  assumes ok: "delete_variable Dir_Apply i v oi c = (Inr (), c1)"
    and old: "fmlookup (vreg_variables (oc_variables c)) i = Some v"
    and order: "collection_was (var_collection v)
        (\<lambda>x. distinct (vcoll_variable_order x) \<and> list_position (\<lambda>y. y = i) (vcoll_variable_order x) = oi) c"
  shows "undone (delete_variable Dir_Revert i v oi c1) c"
proof -
  let ?R = "oc_variables c"
  let ?g = "case oi of None \<Rightarrow> (\<lambda>x. x) | Some k \<Rightarrow> order_insert k i"
  have "fm_modify (var_collection v) (?g \<circ> order_drop i) (vreg_collections ?R) = vreg_collections ?R"
    using order by (intro fm_modify_id)
      (auto simp: collection_was_def order_insert_drop order_drop_absent split: option.splits)
  moreover have "fm_put i (Some v) (vreg_variables ?R) = vreg_variables ?R" using old by (rule fm_put_same)
  ultimately have "delete_variable Dir_Revert i v oi c1 = op_ok c"
    using ok by (cases oi) (auto simp: delete_variable_def op_ok_def edit_collection_def put_variable_def comp_def)
  then show ?thesis by (simp add: undone_ok)
qed

lemma undo_default_mode:
  assumes ok: "set_default_mode i new c = (Inr (), c1)" and old: "collection_was i (\<lambda>x. vcoll_default_mode x = old) c"
  shows "undone (set_default_mode i old c1) c"
proof -
  have c1: "c1 = edit_collection i (\<lambda>x. x\<lparr>vcoll_default_mode := new\<rparr>) c"
    and present: "fmlookup (vreg_collections (oc_variables c)) i \<noteq> None"
    using ok by (auto simp: set_default_mode_def op_ok_def op_err_def split: if_splits)
  have "edit_collection i (\<lambda>x. x\<lparr>vcoll_default_mode := old\<rparr>) c1 = c"
    unfolding c1 using old by (intro edit_collection_undone) (auto elim: collection_was_mono)
  moreover have "fmlookup (vreg_collections (oc_variables c1)) i \<noteq> None"
    using present by (simp add: c1 edit_collection_def fmlookup_fm_modify)
  ultimately have "set_default_mode i old c1 = op_ok c" by (auto simp: set_default_mode_def)
  then show ?thesis by (simp add: undone_ok)
qed

lemma undo_keyframe:
  assumes ok: "set_keyframe i t tg k new c = (Inr (), c1)" and old: "clip_was i (keyframe_was t k old) c"
  shows "undone (set_keyframe i t tg k old c1) c"
proof (cases "Option.bind (fmlookup (mlib_clips (oc_motion c)) i) (\<lambda>cl. fmlookup (clip_tracks cl) t)")
  case None
  then show ?thesis using ok by (auto simp: set_keyframe_def op_ok_def undone_def)
next
  case (Some tr)
  let ?f = "\<lambda>v cl. cl\<lparr>clip_tracks := fm_modify t (put_keyframe k v) (clip_tracks cl)\<rparr>"
  from Some obtain cl where cl: "fmlookup (mlib_clips (oc_motion c)) i = Some cl" "fmlookup (clip_tracks cl) t = Some tr"
    by (auto simp: bind_eq_Some_conv)
  have tg: "track_target tr = tg" and c1: "c1 = edit_clip i (?f new) c"
    using ok Some by (auto simp: set_keyframe_def op_ok_def op_err_def split: if_splits)
  have kf: "put_keyframe k old (put_keyframe k new tr) = tr"
    using old cl by (intro put_keyframe_back) (simp_all add: clip_was_def keyframe_was_def)
  have "?f old (?f new cl) = cl"
    using kf cl(2) fm_modify_id[of "clip_tracks cl" t "put_keyframe k old \<circ> put_keyframe k new"] by simp
  then have "edit_clip i (?f old) c1 = c"
    unfolding c1 using cl(1) by (intro edit_clip_undone) (simp add: clip_was_def)
  moreover have "Option.bind (fmlookup (mlib_clips (oc_motion c1)) i) (\<lambda>cl. fmlookup (clip_tracks cl) t) = Some (put_keyframe k new tr)"
    using cl by (simp add: c1 edit_clip_def fmlookup_fm_modify)
  moreover have "track_target (put_keyframe k new tr) = tg" using tg by (simp add: put_keyframe_def)
  ultimately show ?thesis by (simp add: set_keyframe_def undone_ok)
qed

lemma check_pages_cong: "c' = c\<lparr>oc_pages := ps, oc_active_page := a\<rparr> \<Longrightarrow> oc_scene c' = oc_scene c"
  by simp

lemma undo_pages:
  assumes ok: "set_pages new c = (Inr (), c1)" and old: "old_matches (Operation_SetPages old new) c"
  shows "undone (set_pages old c1) c"
proof -
  have keep: "(case oc_active_page c of None \<Rightarrow> False
      | Some a \<Rightarrow> a \<notin> set ps \<and> \<not> is_master_root (oc_components c) a) = False" if "page_root_ok c ps (oc_active_page c)" for ps
    using that by (auto simp: page_root_ok_def split: option.splits)
  have "c1 = c\<lparr>oc_pages := new\<rparr>"
    using ok old keep[of new]
    by (auto simp: set_pages_def op_ok_def op_err_def Let_def split: option.splits if_splits)
  then have "set_pages old c1 = op_ok c"
    using old keep[of old] by (auto simp: set_pages_def Let_def split: option.splits)
  then show ?thesis by (simp add: undone_ok)
qed

lemma undo_page_registry:
  assumes ok: "set_page_registry np na c = (Inr (), c1)"
    and old: "old_matches (Operation_SetPageRegistry ops np oa na) c"
  shows "undone (set_page_registry ops oa c1) c"
proof -
  have "c1 = c\<lparr>oc_pages := np, oc_active_page := na\<rparr>"
    using ok by (auto simp: set_page_registry_def op_ok_def op_err_def split: option.splits if_splits)
  moreover have "c\<lparr>oc_pages := ops, oc_active_page := oa\<rparr> = c" using old by auto
  moreover have "set_page_registry ops oa (c\<lparr>oc_pages := np, oc_active_page := na\<rparr>) =
      op_ok (c\<lparr>oc_pages := ops, oc_active_page := oa\<rparr>)"
    using old by (auto simp: set_page_registry_def page_root_ok_def split: option.splits)
  ultimately have "set_page_registry ops oa c1 = op_ok c" by simp
  then show ?thesis by (simp add: undone_ok)
qed

lemma undo_active_mode:
  assumes ok: "set_active_mode scope coll new c = (Inr (), c1)"
    and old: "old_matches (Operation_SetActiveMode scope coll old new) c"
  shows "undone (set_active_mode scope coll old c1) c"
proof (cases scope)
  case ModeScope_Doc
  with ok old have "set_active_mode scope coll old c1 = op_ok c"
    by (auto simp: set_active_mode_def op_ok_def fm_put_same)
  then show ?thesis by (simp add: undone_ok)
next
  case (ModeScope_Frame node)
  with ok old show ?thesis
    by (auto simp: set_active_mode_def intro: undo_field pin_mode_back)
qed

lemma undo_slots:
  "op_ok (c\<lparr>oc_flow_start := x\<rparr>) = (Inr (), c1) \<Longrightarrow> undone (op_ok (c1\<lparr>oc_flow_start := oc_flow_start c\<rparr>)) c"
  "op_ok (c\<lparr>oc_flows := y\<rparr>) = (Inr (), c1) \<Longrightarrow> undone (op_ok (c1\<lparr>oc_flows := oc_flows c\<rparr>)) c"
  "op_ok (c\<lparr>oc_presentation := z\<rparr>) = (Inr (), c1) \<Longrightarrow>
     undone (op_ok (c1\<lparr>oc_presentation := oc_presentation c\<rparr>)) c"
  by (auto simp: op_ok_def undone_def)

lemma fm_put_self [simp]: "fm_put k (fmlookup m k) m = m"
  by (rule fm_put_same) simp

lemmas undo_cases =
  undo_pages undo_page_registry undo_active_mode undo_keyframe undo_default_mode
  undo_delete_variable undo_create_variable undo_push_reaction undo_slots

lemmas undo_values =
  with_instance_back_if put_override_back bind_back take_reaction_back write_reaction_back put_track_back
  pop_push_mode restore_drop_mode rename_mode_back fm_put_same

lemma revert_undoes:
  assumes inv: "scene_inv (oc_scene c)" and old: "old_matches op c" and ok: "op_apply op c = (Inr (), c1)"
  shows "undone (op_revert op c1) c"
  using old ok unfolding op_apply_def op_revert_def
  apply (cases op)
  apply (simp_all add: set_instance_override_def set_instance_component_def set_instance_prop_def del: old_matches.simps(1,4,48))
  apply (auto intro: undo_cases create_undone[OF inv] delete_undone[OF inv]
       set_parent_undone[OF inv] set_index_undone[OF inv] set_transform_undone detach_undone[OF inv])
  apply (auto elim!: undo_rules intro: undo_values simp: fm_put_same)
  done

end
