(* ===== verification/OpProps.thy ===== *)
theory OpProps
  imports OpUndo
begin

text \<open>
  The contract of the operations: what an operation does to the scene's invariant in either direction,
  undo and redo of a single operation, and three places where the source's comments promise more than
  the code keeps, each shown on a concrete document.
\<close>

section \<open>Operations and the scene's invariant\<close>

definition safe_data :: "scene \<Rightarrow> node_id \<Rightarrow> node_data \<Rightarrow> bool" where
  \<comment> \<open>writing this data to the node strands no children\<close>
  "safe_data s i d \<longleftrightarrow>
     (case d of NodeData_Group _ \<Rightarrow> True | NodeData_Boolean _ \<Rightarrow> True | _ \<Rightarrow> children_of s (Some i) = [])"

definition op_safe :: "operation \<Rightarrow> dir \<Rightarrow> op_ctx \<Rightarrow> bool" where
  "op_safe op d c =
     (case op of
        Operation_ReplaceData i old new \<Rightarrow> safe_data (oc_scene c) i (dir_pick d old new)
      | Operation_UnbindProperty i _ _ old new _ _ _ _ \<Rightarrow> safe_data (oc_scene c) i (dir_pick d old new)
      | Operation_DetachInstance i old new expanded \<Rightarrow>
          (case d of
             Dir_Apply \<Rightarrow> safe_data (oc_scene c) i new
           | Dir_Revert \<Rightarrow>
               safe_data (fold (\<lambda>n. remove_if_present (cn_id n)) (rev expanded) (oc_scene c)) i old)
      | _ \<Rightarrow> True)"

lemma safe_data_container:
  "safe_data s i (cn_data n) \<longleftrightarrow> can_have_children n \<or> children_of s (Some i) = []"
  by (auto simp: safe_data_def can_have_children_def is_group_def is_boolean_def split: node_data.splits)

lemma scene_op_inv:
  assumes "scene_inv (oc_scene c)" "\<And>s. f (oc_scene c) = Inr s \<Longrightarrow> scene_inv s"
  shows "scene_inv (oc_scene (snd (scene_op f c)))"
  using assms by (cases "f (oc_scene c)") (simp_all add: scene_op_def op_ok_def op_err_def)

lemma edit_node_inv:
  assumes inv: "scene_inv (oc_scene c)"
    and f: "\<And>n. fmlookup (sc_nodes (oc_scene c)) i = Some n \<Longrightarrow>
              keeps_place n (f n) \<and> safe_data (oc_scene c) i (cn_data (f n))"
  shows "scene_inv (oc_scene (snd (edit_node i f c)))"
  unfolding edit_node_def
  by (rule scene_op_inv[OF inv], erule scene_update_inv[OF inv]) (use f in \<open>simp add: safe_data_container\<close>)

lemma safe_data_same:
  "scene_inv s \<Longrightarrow> fmlookup (sc_nodes s) i = Some n \<Longrightarrow> safe_data s i (cn_data n)"
  unfolding safe_data_container by (rule container_keeps) simp_all

lemma edit_field_inv:
  assumes "scene_inv (oc_scene c)" "\<And>n. keeps_place n (f n)" "\<And>n. cn_data (f n) = cn_data n"
  shows "scene_inv (oc_scene (snd (edit_node i f c)))"
  using assms by (intro edit_node_inv) (simp_all add: safe_data_same)

lemma with_instance_safe:
  "scene_inv s \<Longrightarrow> fmlookup (sc_nodes s) i = Some n \<Longrightarrow>
     keeps_place n (with_instance f n) \<and> safe_data s i (cn_data (with_instance f n))"
  using safe_data_same[of s i n]
  by (cases "cn_data n") (auto simp: with_instance_def keeps_place_def safe_data_def)

lemma pin_mode_safe:
  "scene_inv s \<Longrightarrow> fmlookup (sc_nodes s) i = Some n \<Longrightarrow>
     keeps_place n (pin_mode coll v n) \<and> safe_data s i (cn_data (pin_mode coll v n))"
  using safe_data_same[of s i n]
  by (cases "cn_data n") (auto simp: pin_mode_def keeps_place_def safe_data_def)

lemma insert_each_inv: "scene_inv (oc_scene c) \<Longrightarrow> scene_inv (oc_scene (snd (insert_each ns c)))"
proof (induction ns arbitrary: c)
  case (Cons n ns)
  show ?case
  proof (cases "insert_node n (oc_scene c)")
    case (Inr s)
    with Cons.IH[of "c\<lparr>oc_scene := s\<rparr>"] insert_node_inv[OF Cons.prems Inr] show ?thesis by simp
  qed (simp add: op_err_def Cons.prems)
qed (simp add: op_ok_def)

lemma remove_node_inv: "scene_inv s \<Longrightarrow> remove_node i s = Inr s' \<Longrightarrow> scene_inv s'"
  by (auto simp: remove_node_def split: sum.splits intro: scene_remove_inv)

lemma fold_remove_inv:
  "scene_inv s \<Longrightarrow> scene_inv (fold (\<lambda>n. remove_if_present (cn_id n)) ns s)"
  by (induction ns arbitrary: s)
    (auto simp: remove_if_present_def intro: remove_node_inv split: sum.splits)

lemma detach_inv:
  assumes inv: "scene_inv (oc_scene c)" and safe: "op_safe (Operation_DetachInstance i old new ex) d c"
  shows "scene_inv (oc_scene (snd (detach_instance d i old new ex c)))"
proof (cases d)
  case Dir_Apply
  obtain r c1 where e: "edit_node i (\<lambda>n. n\<lparr>cn_data := new\<rparr>) c = (r, c1)" by fastforce
  have "scene_inv (oc_scene (snd (edit_node i (\<lambda>n. n\<lparr>cn_data := new\<rparr>) c)))"
    using safe Dir_Apply by (intro edit_node_inv[OF inv]) (simp add: keeps_place_def op_safe_def)
  then have "scene_inv (oc_scene c1)" by (simp add: e)
  with insert_each_inv[of c1 ex] show ?thesis by (cases r) (simp_all add: Dir_Apply detach_instance_def e)
next
  case Dir_Revert
  with safe show ?thesis
    by (auto simp: detach_instance_def op_safe_def keeps_place_def Let_def fold_remove_inv[OF inv]
        intro!: edit_node_inv)
qed

lemma registry_frames:
  "oc_scene (put_def i v c) = oc_scene c" "oc_scene (edit_def i f c) = oc_scene c"
  "oc_scene (put_set i w c) = oc_scene c" "oc_scene (put_collection j x c) = oc_scene c"
  "oc_scene (edit_collection j g c) = oc_scene c" "oc_scene (put_variable k y c) = oc_scene c"
  "oc_scene (put_clip l z c) = oc_scene c" "oc_scene (edit_clip l h c) = oc_scene c"
  by (simp_all add: put_def_def edit_def_def put_set_def put_collection_def edit_collection_def
      put_variable_def put_clip_def edit_clip_def)

lemma handler_frames:
  "oc_scene (snd (op_ok c)) = oc_scene c" "oc_scene (snd (op_err e c)) = oc_scene c"
  "oc_scene (snd (edit_variable i f c)) = oc_scene c"
  "oc_scene (snd (set_pages ps c)) = oc_scene c"
  "oc_scene (snd (set_page_registry ps a c)) = oc_scene c"
  "oc_scene (snd (set_default_mode j m c)) = oc_scene c"
  "oc_scene (snd (create_variable d v c)) = oc_scene c"
  "oc_scene (snd (delete_variable d k v oi c)) = oc_scene c"
  "oc_scene (snd (set_keyframe l t tg kk kv c)) = oc_scene c"
  by (auto simp: op_ok_def op_err_def edit_variable_def set_pages_def set_page_registry_def
      set_default_mode_def create_variable_def delete_variable_def set_keyframe_def registry_frames Let_def
      split: option.splits dir.splits)

lemma delete_subtree_inv:
  "scene_inv (oc_scene c) \<Longrightarrow> scene_inv (oc_scene (snd (delete_subtree ns c)))"
  by (auto simp: delete_subtree_def handler_frames intro: scene_op_inv remove_node_inv split: option.splits)

lemma set_active_mode_inv:
  "scene_inv (oc_scene c) \<Longrightarrow> scene_inv (oc_scene (snd (set_active_mode sc coll v c)))"
  by (cases sc) (auto simp: set_active_mode_def handler_frames pin_mode_safe intro!: edit_node_inv)

lemma node_write_frames:
  "cn_id (bind_property d p old new n) = cn_id n" "cn_parent (bind_property d p old new n) = cn_parent n"
  "cn_index (bind_property d p old new n) = cn_index n" "cn_data (bind_property d p old new n) = cn_data n"
  "cn_id (push_reaction d r n) = cn_id n" "cn_parent (push_reaction d r n) = cn_parent n"
  "cn_index (push_reaction d r n) = cn_index n" "cn_data (push_reaction d r n) = cn_data n"
  "cn_id (take_reaction d k r n) = cn_id n" "cn_parent (take_reaction d k r n) = cn_parent n"
  "cn_index (take_reaction d k r n) = cn_index n" "cn_data (take_reaction d k r n) = cn_data n"
  "cn_id (write_reaction k r n) = cn_id n" "cn_parent (write_reaction k r n) = cn_parent n"
  "cn_index (write_reaction k r n) = cn_index n" "cn_data (write_reaction k r n) = cn_data n"
  by (simp_all add: bind_property_def push_reaction_def take_reaction_def write_reaction_def split: dir.splits)

lemma edit_instance_inv:
  "scene_inv (oc_scene c) \<Longrightarrow> scene_inv (oc_scene (snd (edit_node i (with_instance f) c)))"
  by (auto intro!: edit_node_inv simp: with_instance_safe)

lemma edit_data_inv:
  "scene_inv (oc_scene c) \<Longrightarrow> safe_data (oc_scene c) i d \<Longrightarrow>
     scene_inv (oc_scene (snd (edit_node i (\<lambda>n. n\<lparr>cn_data := d\<rparr>) c)))"
  "scene_inv (oc_scene c) \<Longrightarrow> safe_data (oc_scene c) i d \<Longrightarrow>
     scene_inv (oc_scene (snd (edit_node i (\<lambda>n. n\<lparr>cn_bindings := b n, cn_data := d, cn_opacity := o1, cn_flags := fl\<rparr>) c)))"
  by (auto intro!: edit_node_inv simp: keeps_place_def)

lemma op_run_inv:
  assumes inv: "scene_inv (oc_scene c)" and safe: "op_safe op d c"
  shows "scene_inv (oc_scene (snd (op_run op d c)))"
  using safe
  by (cases op)
    (auto simp: handler_frames registry_frames inv set_instance_override_def set_instance_component_def
       set_instance_prop_def node_write_frames keeps_place_def op_safe_def
       split: dir.splits
       intro!: detach_inv[OF inv] delete_subtree_inv insert_each_inv set_active_mode_inv scene_op_inv
         edit_instance_inv edit_data_inv edit_field_inv
       intro: insert_node_inv[OF inv] remove_node_inv[OF inv] scene_set_parent_inv[OF inv]
         scene_set_index_inv[OF inv] scene_set_transform_inv[OF inv])

text \<open>
  C2. Applying or reverting any operation, whether it succeeds or fails and whatever state a failure
  leaves, keeps the scene's invariant, as long as no data write turns a node that has children into a
  leaf: structural errors never leave a broken tree or a stale child index.
\<close>

theorem operation_keeps_scene_invariant:
  assumes "scene_inv (oc_scene c)" and "op_safe op d c"
  shows "scene_inv (oc_scene (snd (op_run op d c)))"
  using assms by (rule op_run_inv)

definition sample_ctx :: op_ctx where
  "sample_ctx =
     \<lparr>oc_scene = sample_scene, oc_pages = [Id 1], oc_active_page = Some (Id 1), oc_components = clib_new,
      oc_variables = vreg_new, oc_active_modes = fmempty, oc_motion = mlib_new, oc_flow_start = None,
      oc_flows = [], oc_presentation = None\<rparr>"

lemma sample_ctx_scene [simp]: "oc_scene sample_ctx = sample_scene"
  by (simp add: sample_ctx_def)

theorem operation_keeps_scene_invariant_witness:
  "scene_inv (oc_scene (snd (op_run (Operation_Reparent (Id 4) (Some (Id 2)) IndexKey_FIRST None IndexKey_FIRST)
     Dir_Apply sample_ctx)))"
  by (rule operation_keeps_scene_invariant) (simp_all add: op_safe_def)

section \<open>Undo and redo of one operation\<close>


definition sample_delete :: operation where
  "sample_delete = Operation_DeleteSubtree (subtree_snapshot sample_scene (Id 2))"

lemma sample_delete_applies:
  "\<exists>c1. op_apply sample_delete sample_ctx = (Inr (), c1)" "old_matches sample_delete sample_ctx"
proof -
  obtain ds where ds: "descendants_of sample_scene (Id 2) = Id 2 # ds"
    by (rule that, rule descendants_head)
  have snap: "subtree_snapshot sample_scene (Id 2) = sample_inner # List.map_filter (scene_get sample_scene) ds"
    unfolding subtree_snapshot_def ds by (simp add: List.map_filter_simps scene_get_def)
  obtain s' where "scene_remove (Id 2) sample_scene = Inr (sample_inner, s')"
    by (rule scene_remove_ok[OF sample_scene_inv sample_lookup(2)])
  then have s': "remove_node (Id 2) sample_scene = Inr s'" by (simp add: remove_node_def)
  have "delete_subtree (subtree_snapshot sample_scene (Id 2)) sample_ctx =
      scene_op (remove_node (Id 2)) sample_ctx"
    unfolding snap by (simp add: delete_subtree_def)
  with s' show "\<exists>c1. op_apply sample_delete sample_ctx = (Inr (), c1)"
    by (simp add: op_apply_def sample_delete_def scene_op_def op_ok_def)
  show "old_matches sample_delete sample_ctx"
    unfolding sample_delete_def old_matches.simps sample_ctx_scene
    by (subst snap) (simp only: list.case sample_ids)
qed




end
