(* ===== verification/OpErrors.thy ===== *)
theory OpErrors
  imports OpProps
begin

text \<open>
  What a failing or unusual operation does to the document, \<open>crates/fanta-doc/src/op/apply.rs\<close>: which
  variants leave the document alone when they report an error, and three concrete operations whose
  inverse does not give the document back.
\<close>

section \<open>Failing operations\<close>

definition all_or_nothing :: "dir \<Rightarrow> operation \<Rightarrow> bool" where
  \<comment> \<open>every variant but those that insert a list of nodes one after the other\<close>
  "all_or_nothing d op =
     (case op of
        Operation_DetachInstance _ _ _ _ \<Rightarrow> False
      | Operation_DeleteSubtree _ \<Rightarrow> d = Dir_Apply
      | _ \<Rightarrow> True)"

lemma handlers_keep_on_error:
  "fst (scene_op f c) = Inl e \<Longrightarrow> snd (scene_op f c) = c"
  "fst (edit_node i g c) = Inl e \<Longrightarrow> snd (edit_node i g c) = c"
  "fst (set_pages ps c) = Inl e \<Longrightarrow> snd (set_pages ps c) = c"
  "fst (set_page_registry ps a c) = Inl e \<Longrightarrow> snd (set_page_registry ps a c) = c"
  "fst (delete_subtree ns c) = Inl e \<Longrightarrow> snd (delete_subtree ns c) = c"
  "fst (set_instance_override i k ov c) = Inl e \<Longrightarrow> snd (set_instance_override i k ov c) = c"
  "fst (set_instance_component i cid c) = Inl e \<Longrightarrow> snd (set_instance_component i cid c) = c"
  "fst (set_instance_prop i p v c) = Inl e \<Longrightarrow> snd (set_instance_prop i p v c) = c"
  "fst (set_active_mode sc coll m c) = Inl e \<Longrightarrow> snd (set_active_mode sc coll m c) = c"
  "fst (set_default_mode coll md c) = Inl e \<Longrightarrow> snd (set_default_mode coll md c) = c"
  "fst (set_keyframe l t tg kk kv c) = Inl e \<Longrightarrow> snd (set_keyframe l t tg kk kv c) = c"
  by (auto simp: scene_op_def edit_node_def op_ok_def op_err_def set_pages_def set_page_registry_def
      delete_subtree_def set_instance_override_def set_instance_component_def set_instance_prop_def
      set_active_mode_def set_default_mode_def
      set_keyframe_def Let_def split: sum.splits option.splits mode_scope.splits if_splits)

lemma registry_handlers_total:
  "fst (op_ok c) = Inr ()" "fst (edit_variable i f c) = Inr ()" "fst (create_variable d v c) = Inr ()"
  "fst (delete_variable d i v oi c) = Inr ()"
  by (simp_all add: op_ok_def edit_variable_def create_variable_def delete_variable_def Let_def split: dir.split)

lemma op_run_keeps_on_error:
  assumes "fst (op_run op d c) = Inl e" and "all_or_nothing d op"
  shows "snd (op_run op d c) = c"
  using assms
  by (cases op) (auto simp: all_or_nothing_def registry_handlers_total dest: handlers_keep_on_error
      split: dir.splits)

text \<open>
  C15. Errors: an operation that reports an error leaves the document exactly as it was, caches and
  counters included, in both directions and for every variant but two: \<open>DetachInstance\<close>, and undoing a
  \<open>DeleteSubtree\<close>, which insert several nodes one after the other.
\<close>

theorem failed_operation_changes_nothing:
  assumes "op_run op d c = (Inl e, c')" and "all_or_nothing d op"
  shows "c' = c"
  using op_run_keeps_on_error[of op d c e] assms by simp

theorem failed_operation_changes_nothing_witness:
  "\<exists>e. op_run (Operation_Reparent (Id 1) None IndexKey_FIRST (Some (Id 4)) IndexKey_FIRST) Dir_Apply sample_ctx =
     (Inl e, sample_ctx)"
proof -
  let ?op = "Operation_Reparent (Id 1) None IndexKey_FIRST (Some (Id 4)) IndexKey_FIRST"
  have "scene_set_parent (Id 1) (Some (Id 4)) IndexKey_FIRST sample_scene = Inl (SceneError_ParentNotContainer (Id 4))"
    by (simp add: scene_set_parent_def check_reparent_def check_parent_def)
  then obtain e c' where e: "op_run ?op Dir_Apply sample_ctx = (Inl e, c')"
    by (simp add: scene_op_def op_err_def)
  with failed_operation_changes_nothing[OF e] show ?thesis by (simp add: all_or_nothing_def)
qed

section \<open>Operations that do not undo\<close>

lemma edit_node_total:
  assumes "fmlookup (sc_nodes (oc_scene c)) i = Some n"
  obtains s where "edit_node i f c = (Inr (), c\<lparr>oc_scene := s\<rparr>)"
    "sc_nodes s = fmupd i (f n) (sc_nodes (oc_scene c))"
  using assms by (simp add: edit_node_def scene_op_def scene_update_def op_ok_def frame_simps Let_def)

lemma detach_failure_keeps_new_data:
  "\<exists>e c'. op_apply (Operation_DetachInstance (Id 3) (cn_data sample_leaf) (NodeData_Group sample_group) [sample_root])
       sample_ctx = (Inl e, c') \<and>
     scene_get (oc_scene c') (Id 3) = Some (sample_leaf\<lparr>cn_data := NodeData_Group sample_group\<rparr>)"
proof -
  let ?f = "\<lambda>n. n\<lparr>cn_data := NodeData_Group sample_group\<rparr>"
  obtain s where s: "edit_node (Id 3) ?f sample_ctx = (Inr (), sample_ctx\<lparr>oc_scene := s\<rparr>)"
    "sc_nodes s = fmupd (Id 3) (?f sample_leaf) (sc_nodes sample_scene)"
    by (rule edit_node_total[of sample_ctx "Id 3" sample_leaf ?f]) auto
  then have "insert_node sample_root s = Inl (SceneError_Duplicate (Id 1))"
    by (simp add: insert_node_def scene_insert_def scene_contains_def)
  with s show ?thesis by (simp add: op_apply_def detach_instance_def op_err_def scene_get_def)
qed

lemma set_pages_forgets_active_page:
  "\<exists>c1 c2. op_apply (Operation_SetPages [Id 1] []) sample_ctx = (Inr (), c1) \<and>
     op_revert (Operation_SetPages [Id 1] []) c1 = (Inr (), c2) \<and>
     oc_active_page sample_ctx = Some (Id 1) \<and> oc_active_page c2 = None"
proof -
  have "root_group sample_root"
    by (simp add: root_group_def is_group_def sample_node_defs canvas_node_new_def)
  then show ?thesis
    by (simp add: op_apply_def op_revert_def set_pages_def sample_ctx_def is_master_root_def clib_new_def
        fm_values_def fm_keys_def op_ok_def scene_get_def sorted_list_of_fset.rep_eq)
qed

lemma replace_data_can_orphan_children:
  "\<exists>c1. op_apply (Operation_ReplaceData (Id 1) (cn_data sample_root) (NodeData_Embed sample_embed)) sample_ctx =
       (Inr (), c1) \<and> scene_validate (oc_scene c1) \<noteq> Inr ()"
proof -
  let ?f = "\<lambda>n. n\<lparr>cn_data := NodeData_Embed sample_embed\<rparr>"
  obtain s where s: "edit_node (Id 1) ?f sample_ctx = (Inr (), sample_ctx\<lparr>oc_scene := s\<rparr>)"
    "sc_nodes s = fmupd (Id 1) (?f sample_root) (sc_nodes sample_scene)"
    by (rule edit_node_total[of sample_ctx "Id 1" sample_root ?f]) auto
  have "\<not> can_have_children (?f sample_root)"
    by (simp add: can_have_children_def is_group_def is_boolean_def)
  then have "check_parent (sc_nodes s) (cn_parent sample_inner) \<noteq> None" by (simp add: check_parent_def s(2))
  moreover have "sample_inner \<in> set (fm_values (sc_nodes s))"
    by (auto simp: fm_values_set s(2) intro!: exI[of _ "Id 2"])
  ultimately have "\<not> validate_parents (sc_nodes s)" by (auto simp: validate_parents_def list_all_iff intro!: bexI[of _ sample_inner])
  with s(1) show ?thesis by (simp add: op_apply_def scene_validate_def)
qed

text \<open>
  Removing an instance override is not undoable unless it is the last one: the inverse of the
  removal writes the old override over the entry that moved into its place, so an entry is lost. An
  override anywhere but at the end of the list is gone for good after remove and undo.
\<close>

theorem override_removal_loses_the_next:
  assumes "Suc k < length (inst_overrides inst)"
  shows "inst_overrides (put_override k (Some (inst_overrides inst ! k)) (put_override k None inst)) =
    vec_remove (Suc k) (inst_overrides inst)"
proof -
  let ?ovs = "inst_overrides inst"
  have "drop (Suc k) ?ovs = ?ovs ! Suc k # drop (Suc (Suc k)) ?ovs"
    using assms by (simp add: Cons_nth_drop_Suc)
  moreover have "take (Suc k) ?ovs = take k ?ovs @ [?ovs ! k]"
    using assms by (simp add: take_Suc_conv_app_nth)
  ultimately show ?thesis
    using assms by (simp add: put_override_def Let_def vec_remove_def list_update_append)
qed

definition sample_override :: "string \<Rightarrow> override_entry" where
  "sample_override t =
     \<lparr>ovr_target_path = [], ovr_target_prop = BoundProp_TextContent, ovr_value = OverrideValue_Text t\<rparr>"

definition sample_instance :: instance_node where
  "sample_instance =
     \<lparr>inst_component = Id 9, inst_overrides = [sample_override ''a'', sample_override ''b''],
      inst_prop_values = fmempty, inst_derived = [], inst_local_size = (0, 0)\<rparr>"

theorem override_removal_loses_the_next_witness:
  "inst_overrides (put_override 0 (Some (sample_override ''a'')) (put_override 0 None sample_instance)) =
     [sample_override ''a'']"
  using override_removal_loses_the_next[of 0 sample_instance]
  by (simp add: sample_instance_def vec_remove_def)

end
