(* ===== verification/HistoryModel.thy ===== *)
theory HistoryModel
  imports OpProps
begin

text \<open>
  Undo and redo: the \<open>Transaction\<close> and \<open>History\<close> of \<open>crates/fanta-doc/src/history.rs\<close>, every method
  that moves or replays operations, and the journal events of \<open>journal.rs\<close> they send. The two stacks
  are lists with the top last, as the source's vectors; the journal channel is the list of events sent
  to it while a sink is installed.

  What a replay needs from operations is stated in the locale \<open>reversible\<close>: an equivalence that
  applying and reverting respect, and that reverting undoes a valid application. Everything about
  whole transactions and stacks is proved there, from these laws alone.
\<close>

section \<open>Operations as the history runs them\<close>

definition do_op :: "operation \<Rightarrow> op_ctx \<Rightarrow> op_result" where
  \<comment> \<open>\<open>op.apply(ctx)?; ctx.bump_revs(op);\<close>\<close>
  "do_op op c = (case op_apply op c of (Inl e, c') \<Rightarrow> (Inl e, c') | (Inr _, c') \<Rightarrow> (Inr (), bump_revs op c'))"

definition undo_op :: "operation \<Rightarrow> op_ctx \<Rightarrow> op_result" where
  \<comment> \<open>\<open>op.revert(ctx)?; ctx.bump_revs(op);\<close>\<close>
  "undo_op op c = (case op_revert op c of (Inl e, c') \<Rightarrow> (Inl e, c') | (Inr _, c') \<Rightarrow> (Inr (), bump_revs op c'))"

fun run_each :: "(operation \<Rightarrow> op_ctx \<Rightarrow> op_result) \<Rightarrow> operation list \<Rightarrow> op_ctx \<Rightarrow> op_result" where
  \<comment> \<open>a loop over operations that stops at the first error, keeping what it has done\<close>
  "run_each f [] c = op_ok c"
| "run_each f (op # ops) c = (case f op c of (Inl e, c') \<Rightarrow> (Inl e, c') | (Inr _, c') \<Rightarrow> run_each f ops c')"

definition valid_op :: "operation \<Rightarrow> op_ctx \<Rightarrow> bool" where
  \<comment> \<open>the state an operation was built for\<close>
  "valid_op op c \<longleftrightarrow> scene_inv (oc_scene c) \<and> old_matches op c"

section \<open>What replay needs from operations\<close>

locale reversible =
  fixes app :: "'op \<Rightarrow> 'st \<Rightarrow> ('e + unit) \<times> 'st"
    and rvt :: "'op \<Rightarrow> 'st \<Rightarrow> ('e + unit) \<times> 'st"
    and same :: "'st \<Rightarrow> 'st \<Rightarrow> bool"
    and valid :: "'op \<Rightarrow> 'st \<Rightarrow> bool"
  assumes same_refl: "same s s"
    and same_sym: "same s t \<Longrightarrow> same t s"
    and same_trans: "same s t \<Longrightarrow> same t u \<Longrightarrow> same s u"
    and app_cong: "same s t \<Longrightarrow> fst (app op s) = fst (app op t) \<and> same (snd (app op s)) (snd (app op t))"
    and rvt_cong: "same s t \<Longrightarrow> fst (rvt op s) = fst (rvt op t) \<and> same (snd (rvt op s)) (snd (rvt op t))"
    and rvt_app: "valid op s \<Longrightarrow> app op s = (Inr (), t) \<Longrightarrow> fst (rvt op t) = Inr () \<and> same (snd (rvt op t)) s"
begin

fun each :: "('op \<Rightarrow> 'st \<Rightarrow> ('e + unit) \<times> 'st) \<Rightarrow> 'op list \<Rightarrow> 'st \<Rightarrow> ('e + unit) \<times> 'st" where
  "each f [] s = (Inr (), s)"
| "each f (op # ops) s = (case f op s of (Inl e, s') \<Rightarrow> (Inl e, s') | (Inr _, s') \<Rightarrow> each f ops s')"

lemma each_cong:
  assumes f: "\<And>op s t. same s t \<Longrightarrow> fst (f op s) = fst (f op t) \<and> same (snd (f op s)) (snd (f op t))"
  shows "same s t \<Longrightarrow> fst (each f ops s) = fst (each f ops t) \<and> same (snd (each f ops s)) (snd (each f ops t))"
proof (induction ops arbitrary: s t)
  case (Cons op ops)
  obtain r s' where s': "f op s = (r, s')" by fastforce
  obtain q t' where t': "f op t = (q, t')" by fastforce
  from f[OF Cons.prems, of op] have "r = q" "same s' t'" by (simp_all add: s' t')
  with Cons.IH[of s' t'] show ?case by (cases q) (auto simp: s' t')
qed simp

lemma each_append:
  "each f (xs @ ys) s = (case each f xs s of (Inl e, s') \<Rightarrow> (Inl e, s') | (Inr _, s') \<Rightarrow> each f ys s')"
  by (induction xs arbitrary: s) (simp_all split: prod.splits sum.splits)

inductive valid_run :: "'op list \<Rightarrow> 'st \<Rightarrow> 'st \<Rightarrow> bool" where
  \<comment> \<open>each operation was valid where it was applied; states are taken up to the equivalence\<close>
  none: "same s t \<Longrightarrow> valid_run [] s t"
| more: "same s s1 \<Longrightarrow> valid op s1 \<Longrightarrow> app op s1 = (Inr (), s2) \<Longrightarrow> valid_run ops s2 t \<Longrightarrow>
    valid_run (op # ops) s t"

lemma valid_run_left: "valid_run ops s t \<Longrightarrow> same s' s \<Longrightarrow> valid_run ops s' t"
  by (cases rule: valid_run.cases, assumption) (auto intro: valid_run.intros same_trans)

lemma valid_run_right: "valid_run ops s t \<Longrightarrow> same t t' \<Longrightarrow> valid_run ops s t'"
  by (induction rule: valid_run.induct) (auto intro: valid_run.intros same_trans)

lemma valid_run_snoc:
  "valid_run ops s t \<Longrightarrow> same t t1 \<Longrightarrow> valid op t1 \<Longrightarrow> app op t1 = (Inr (), u) \<Longrightarrow> valid_run (ops @ [op]) s u"
proof (induction rule: valid_run.induct)
  case (none s t)
  then have "same s t1" by (blast intro: same_trans)
  from valid_run.more[OF this none(3,4) valid_run.none[OF same_refl]] show ?case by simp
next
  case (more s s1 op' s2 ops t)
  from valid_run.more[OF more.hyps(1-3) more.IH[OF more.prems]] show ?case by simp
qed

lemma app_run:
  "valid_run ops s t \<Longrightarrow> same s' s \<Longrightarrow> fst (each app ops s') = Inr () \<and> same (snd (each app ops s')) t"
proof (induction arbitrary: s' rule: valid_run.induct)
  case (none s t)
  then show ?case by (auto intro: same_trans)
next
  case (more s s1 op s2 ops t)
  have "same s' s1" using more.prems more.hyps(1) by (rule same_trans)
  from app_cong[OF this, of op] more.hyps(3)
  obtain u where u: "app op s' = (Inr (), u)" "same u s2" by (cases "app op s'") simp
  from more.IH[OF u(2)] show ?case by (simp add: u(1))
qed

lemma rvt_run:
  "valid_run ops s t \<Longrightarrow> same t' t \<Longrightarrow>
     fst (each rvt (rev ops) t') = Inr () \<and> same (snd (each rvt (rev ops) t')) s"
proof (induction arbitrary: t' rule: valid_run.induct)
  case (none s t)
  then show ?case by (auto intro: same_trans same_sym)
next
  case (more s s1 op s2 ops t)
  obtain u where u: "each rvt (rev ops) t' = (Inr (), u)" "same u s2"
    using more.IH[OF more.prems] by (cases "each rvt (rev ops) t'") simp
  from rvt_cong[OF u(2), of op] rvt_app[OF more.hyps(2,3)]
  have "fst (rvt op u) = Inr ()" "same (snd (rvt op u)) s1" by (auto intro: same_trans)
  then obtain v where v: "rvt op u = (Inr (), v)" "same v s" using more.hyps(1)
    by (cases "rvt op u") (auto intro: same_trans same_sym)
  show ?case by (simp add: each_append u(1) v)
qed

lemma valid_run_append: "valid_run (xs @ ys) s t \<Longrightarrow> \<exists>u. valid_run xs s u \<and> valid_run ys u t"
proof (induction xs arbitrary: s)
  case Nil
  then show ?case by (auto intro: valid_run.none same_refl)
next
  case (Cons op xs)
  from Cons.prems show ?case
    by (cases rule: valid_run.cases) (auto dest!: Cons.IH intro: valid_run.more)
qed

lemma rvt_tail:
  assumes "valid_run ops s t"
  shows "\<exists>u. each rvt (rev (drop n ops)) t = (Inr (), u) \<and> valid_run (take n ops) s u"
proof -
  from assms have "valid_run (take n ops @ drop n ops) s t" by simp
  then obtain m where m: "valid_run (take n ops) s m" "valid_run (drop n ops) m t"
    by (blast dest: valid_run_append)
  obtain u where "each rvt (rev (drop n ops)) t = (Inr (), u)" "same u m"
    using rvt_run[OF m(2) same_refl] by (cases "each rvt (rev (drop n ops)) t") simp
  with m(1) show ?thesis by (blast intro: valid_run_right same_sym)
qed

inductive past :: "'op list list \<Rightarrow> 'st list \<Rightarrow> 'st \<Rightarrow> bool" where
  \<comment> \<open>the undo stack, oldest first, led through these states to the last one\<close>
  start: "past [] [] s"
| done_tx: "past us ss s \<Longrightarrow> valid_run ops s t \<Longrightarrow> past (us @ [ops]) (ss @ [s]) t"

inductive future :: "'op list list \<Rightarrow> 'st list \<Rightarrow> 'st \<Rightarrow> bool" where
  \<comment> \<open>the redo stack, next one last, leads from this state through the listed ones\<close>
  stop: "future [] [] s"
| next_tx: "valid_run ops s t \<Longrightarrow> future rs ss t \<Longrightarrow> future (rs @ [ops]) (ss @ [t]) s"

inductive_cases past_snocE: "past (us @ [ops]) ss t"
inductive_cases future_snocE: "future (rs @ [ops]) ss s"

lemma past_length: "past us ss s \<Longrightarrow> length ss = length us"
  by (induction rule: past.induct) simp_all

lemma future_length: "future rs ss s \<Longrightarrow> length ss = length rs"
  by (induction rule: future.induct) simp_all

lemma past_same: "past us ss s \<Longrightarrow> same s t \<Longrightarrow> past us ss t"
  by (cases rule: past.cases, assumption) (auto intro: past.intros valid_run_right)

lemma future_same: "future rs ss s \<Longrightarrow> same s t \<Longrightarrow> future rs ss t"
  by (cases rule: future.cases, assumption) (auto intro: future.intros valid_run_left same_sym)

lemma past_drop: "past us ss s \<Longrightarrow> past (drop k us) (drop k ss) s"
proof (induction rule: past.induct)
  case (done_tx us ss s ops t)
  then have len: "length ss = length us" by (blast dest: past_length)
  show ?case
  proof (cases "k \<le> length us")
    case True
    with done_tx len show ?thesis by (auto intro: past.done_tx)
  qed (simp add: len past.start)
qed (simp add: past.start)

lemma undo_step:
  assumes "past (us @ [ops]) ss s" "future rs fs s" "same s t"
  obtains s0 ss0 s' where "ss = ss0 @ [s0]" "each rvt (rev ops) t = (Inr (), s')" "same s' s0"
    "past us ss0 s0" "future (rs @ [ops]) (fs @ [s]) s0"
proof -
  obtain s0 ss0 where p: "ss = ss0 @ [s0]" "past us ss0 s0" and run: "valid_run ops s0 s"
    using assms(1) by (rule past_snocE) auto
  obtain s' where s': "each rvt (rev ops) t = (Inr (), s')" "same s' s0"
    using rvt_run[OF run same_sym[OF assms(3)]] by (cases "each rvt (rev ops) t") simp
  from that[OF p(1) s' p(2) future.next_tx[OF run assms(2)]] show ?thesis .
qed

lemma redo_step:
  assumes "past us ss s" "future (rs @ [ops]) fs s" "same s t"
  obtains u fs0 s' where "fs = fs0 @ [u]" "each app ops t = (Inr (), s')" "same s' u"
    "past (us @ [ops]) (ss @ [s]) u" "future rs fs0 u"
proof -
  obtain u fs0 where run: "valid_run ops s u" and f: "fs = fs0 @ [u]" "future rs fs0 u"
    using assms(2) by (rule future_snocE) auto
  obtain s' where s': "each app ops t = (Inr (), s')" "same s' u"
    using app_run[OF run same_sym[OF assms(3)]] by (cases "each app ops t") simp
  from that[OF f(1) s' past.done_tx[OF assms(1) run] f(2)] show ?thesis .
qed

end

subsection \<open>The operations meet the laws\<close>

lemma do_op_same:
  assumes "ctx_same c c'"
  shows "result_same (do_op op c) (do_op op c')"
proof -
  obtain r1 c1 where 1: "op_apply op c = (r1, c1)" by fastforce
  obtain r2 c2 where 2: "op_apply op c' = (r2, c2)" by fastforce
  have "r1 = r2" "ctx_same c1 c2"
    using op_run_same[OF assms, of op Dir_Apply] 1 2 by (simp_all add: op_apply_def result_same_def)
  moreover have "ctx_same (bump_revs op c1) (bump_revs op c2)" if "ctx_same c1 c2"
    using that bump_revs_same ctx_same_sym ctx_same_trans by blast
  ultimately show ?thesis by (cases r2) (simp_all add: do_op_def 1 2 result_same_def)
qed

lemma undo_op_same:
  assumes "ctx_same c c'"
  shows "result_same (undo_op op c) (undo_op op c')"
proof -
  obtain r1 c1 where 1: "op_revert op c = (r1, c1)" by fastforce
  obtain r2 c2 where 2: "op_revert op c' = (r2, c2)" by fastforce
  have "r1 = r2" "ctx_same c1 c2"
    using op_run_same[OF assms, of op Dir_Revert] 1 2 by (simp_all add: op_revert_def result_same_def)
  moreover have "ctx_same (bump_revs op c1) (bump_revs op c2)" if "ctx_same c1 c2"
    using that bump_revs_same ctx_same_sym ctx_same_trans by blast
  ultimately show ?thesis by (cases r2) (simp_all add: undo_op_def 1 2 result_same_def)
qed

lemma undo_do_op:
  assumes "valid_op op c" "do_op op c = (Inr (), c1)"
  shows "fst (undo_op op c1) = Inr () \<and> ctx_same (snd (undo_op op c1)) c"
proof -
  obtain c2 where c2: "op_apply op c = (Inr (), c2)" "c1 = bump_revs op c2"
    using assms(2) by (auto simp: do_op_def split: prod.splits sum.splits)
  have "undone (op_revert op c2) c"
    using assms(1) by (intro revert_undoes[OF _ _ c2(1)]) (simp_all add: valid_op_def)
  then obtain c3 where c3: "op_revert op c2 = (Inr (), c3)" "ctx_same c3 c"
    by (cases "op_revert op c2") (auto simp: undone_def)
  have "undo_op op c2 = (Inr (), bump_revs op c3)" by (simp add: undo_op_def c3(1))
  moreover have "result_same (undo_op op c1) (undo_op op c2)"
    unfolding c2(2) by (rule undo_op_same[OF bump_revs_same])
  moreover have "ctx_same (bump_revs op c3) c" using bump_revs_same c3(2) by (rule ctx_same_trans)
  ultimately show ?thesis by (auto simp: result_same_def intro: ctx_same_trans)
qed

interpretation hist: reversible do_op undo_op ctx_same valid_op
proof
  show "fst (do_op op s) = fst (do_op op t) \<and> ctx_same (snd (do_op op s)) (snd (do_op op t))"
    if "ctx_same s t" for s t op
    using do_op_same[OF that] by (simp add: result_same_def)
  show "fst (undo_op op s) = fst (undo_op op t) \<and> ctx_same (snd (undo_op op s)) (snd (undo_op op t))"
    if "ctx_same s t" for s t op
    using undo_op_same[OF that] by (simp add: result_same_def)
qed (auto intro: ctx_same_sym ctx_same_trans dest: undo_do_op)

lemma run_each_hist: "run_each f ops c = hist.each f ops c"
  by (induction ops arbitrary: c) (simp_all add: op_ok_def split: prod.splits sum.splits)

section \<open>The stacks\<close>

record transaction =
  tx_label :: string
  tx_ops :: "operation list"

datatype journal_event =
    JournalEvent_Commit transaction
  | JournalEvent_Amend transaction
  | JournalEvent_Undo transaction
  | JournalEvent_Redo transaction

record history =
  h_undo :: "transaction list"
  h_redo :: "transaction list"
  h_max_depth :: nat
  h_open :: "transaction option"
  h_sink :: bool
  h_journal :: "journal_event list"
  h_edit_generation :: u64

type_synonym 'a hist_result = "(scene_error + 'a) \<times> history \<times> op_ctx"

definition transaction_new :: "string \<Rightarrow> transaction" where
  "transaction_new label = \<lparr>tx_label = label, tx_ops = []\<rparr>"

definition transaction_push :: "operation \<Rightarrow> transaction \<Rightarrow> transaction" where
  "transaction_push op tx =
     (let tx1 = (if tx_label tx = [] then tx\<lparr>tx_label := operation_label op\<rparr> else tx)
      in tx1\<lparr>tx_ops := tx_ops tx1 @ [op]\<rparr>)"

definition history_default :: history where
  "history_default =
     \<lparr>h_undo = [], h_redo = [], h_max_depth = 500, h_open = None, h_sink = False, h_journal = [],
      h_edit_generation = 0\<rparr>"

definition history_with_max_depth :: "nat \<Rightarrow> history" where
  "history_with_max_depth d = history_default\<lparr>h_max_depth := d\<rparr>"

definition history_clone :: "history \<Rightarrow> history" where
  \<comment> \<open>\<open>Clone\<close>: the copy has no sink, hence no channel\<close>
  "history_clone h = h\<lparr>h_sink := False, h_journal := []\<rparr>"

definition set_journal_sink :: "bool \<Rightarrow> history \<Rightarrow> history" where
  \<comment> \<open>a new sink is a new channel\<close>
  "set_journal_sink b h = h\<lparr>h_sink := b, h_journal := []\<rparr>"

definition emit :: "journal_event \<Rightarrow> history \<Rightarrow> history" where
  "emit ev h = (if h_sink h then h\<lparr>h_journal := h_journal h @ [ev]\<rparr> else h)"

definition push_undo :: "transaction \<Rightarrow> history \<Rightarrow> history" where
  "push_undo tx h =
     (let undo = h_undo h @ [tx]
      in h\<lparr>h_undo := (if length undo > h_max_depth h then drop (length undo - h_max_depth h) undo else undo)\<rparr>)"

definition bump_generation :: "bool \<Rightarrow> history \<Rightarrow> history" where
  "bump_generation b h = (if b then h\<lparr>h_edit_generation := h_edit_generation h + 1\<rparr> else h)"

definition commit_transaction :: "transaction \<Rightarrow> history \<Rightarrow> history" where
  \<comment> \<open>emit, push and clear the redo stack, as four places of the source do\<close>
  "commit_transaction tx h = (push_undo tx (emit (JournalEvent_Commit tx) h))\<lparr>h_redo := []\<rparr>"

definition history_commit :: "history \<Rightarrow> history" where
  "history_commit h =
     (case h_open h of
        None \<Rightarrow> h
      | Some tx \<Rightarrow>
          (let h1 = h\<lparr>h_open := None\<rparr>
           in if tx_ops tx = [] then h1 else commit_transaction tx h1))"

definition history_begin :: "string \<Rightarrow> history \<Rightarrow> history" where
  "history_begin label h =
     (if h_open h \<noteq> None then history_commit h else h)\<lparr>h_open := Some (transaction_new label)\<rparr>"

definition set_open_label :: "string \<Rightarrow> history \<Rightarrow> bool \<times> history" where
  "set_open_label label h =
     (case h_open h of
        None \<Rightarrow> (False, h)
      | Some tx \<Rightarrow> (True, h\<lparr>h_open := Some (tx\<lparr>tx_label := label\<rparr>)\<rparr>))"

fun rollback_ops :: "nat \<Rightarrow> operation list \<Rightarrow> op_ctx \<Rightarrow> (scene_error + unit) \<times> operation list \<times> op_ctx" where
  \<comment> \<open>the loop of \<open>rollback_open_to\<close> over the operations, last first; an operation is popped before it
      is reverted\<close>
  "rollback_ops len [] c = (Inr (), [], c)"
| "rollback_ops len (op # ops) c =
     (if length (op # ops) > len
      then (case undo_op op c of
              (Inl e, c') \<Rightarrow> (Inl e, ops, c')
            | (Inr _, c') \<Rightarrow> rollback_ops len ops c')
      else (Inr (), op # ops, c))"

definition history_rollback_open_to :: "nat \<Rightarrow> history \<Rightarrow> op_ctx \<Rightarrow> unit hist_result" where
  "history_rollback_open_to len h c =
     (case h_open h of
        None \<Rightarrow> (Inr (), h, c)
      | Some tx \<Rightarrow>
          (let h1 = bump_generation (length (tx_ops tx) > len) h;
               (r, ops, c') = rollback_ops len (rev (tx_ops tx)) c
           in (r, h1\<lparr>h_open := Some (tx\<lparr>tx_ops := rev ops\<rparr>)\<rparr>, c')))"

definition history_abort_with :: "history \<Rightarrow> op_ctx \<Rightarrow> unit hist_result" where
  "history_abort_with h c =
     (case h_open h of
        None \<Rightarrow> (Inr (), h, c)
      | Some tx \<Rightarrow>
          (let h1 = bump_generation (tx_ops tx \<noteq> []) (h\<lparr>h_open := None\<rparr>);
               (r, c') = run_each undo_op (rev (tx_ops tx)) c
           in (r, h1, c')))"

definition history_apply :: "operation \<Rightarrow> history \<Rightarrow> op_ctx \<Rightarrow> unit hist_result" where
  "history_apply op h c =
     (case do_op op c of
        (Inl e, c') \<Rightarrow> (Inl e, h, c')
      | (Inr _, c') \<Rightarrow>
          (let h1 = bump_generation True h
           in (Inr (),
               (case h_open h1 of
                  Some tx \<Rightarrow> h1\<lparr>h_open := Some (transaction_push op tx)\<rparr>
                | None \<Rightarrow> commit_transaction (transaction_push op (transaction_new (operation_label op))) h1),
               c')))"

definition record_applied_transaction :: "transaction \<Rightarrow> history \<Rightarrow> history" where
  "record_applied_transaction tx h =
     (let h1 = bump_generation (tx_ops tx \<noteq> []) h;
          h2 = (case h_open h1 of
                  None \<Rightarrow> h1
                | Some open_tx \<Rightarrow>
                    (if tx_ops open_tx = [] then h1\<lparr>h_open := None\<rparr>
                     else commit_transaction open_tx (h1\<lparr>h_open := None\<rparr>)))
      in if tx_ops tx = [] then h2 else commit_transaction tx h2)"

definition history_apply_transaction :: "transaction \<Rightarrow> history \<Rightarrow> op_ctx \<Rightarrow> unit hist_result" where
  "history_apply_transaction tx h c =
     (let h1 = (if h_open h \<noteq> None then history_commit h else h)
      in if tx_ops tx = [] then (Inr (), h1, c)
         else (case run_each do_op (tx_ops tx) c of
                 (Inl e, c') \<Rightarrow> (Inl e, h1, c')
               | (Inr _, c') \<Rightarrow> (Inr (), record_applied_transaction tx h1, c')))"

definition history_undo :: "history \<Rightarrow> op_ctx \<Rightarrow> bool hist_result" where
  "history_undo h c =
     (let h1 = (if h_open h \<noteq> None then history_commit h else h)
      in if h_undo h1 = [] then (Inr False, h1, c)
         else
           (let tx = last (h_undo h1); h2 = h1\<lparr>h_undo := butlast (h_undo h1)\<rparr>
            in (case run_each undo_op (rev (tx_ops tx)) c of
                  (Inl e, c') \<Rightarrow> (Inl e, h2, c')
                | (Inr _, c') \<Rightarrow>
                    (let h3 = emit (JournalEvent_Undo tx) (bump_generation True h2)
                     in (Inr True, h3\<lparr>h_redo := h_redo h3 @ [tx]\<rparr>, c')))))"

definition history_redo :: "history \<Rightarrow> op_ctx \<Rightarrow> bool hist_result" where
  "history_redo h c =
     (if h_redo h = [] then (Inr False, h, c)
      else
        (let tx = last (h_redo h); h1 = h\<lparr>h_redo := butlast (h_redo h)\<rparr>
         in (case run_each do_op (tx_ops tx) c of
               (Inl e, c') \<Rightarrow> (Inl e, h1, c')
             | (Inr _, c') \<Rightarrow>
                 (Inr True, push_undo tx (emit (JournalEvent_Redo tx) (bump_generation True h1)), c'))))"

definition next_undo_transaction :: "history \<Rightarrow> transaction option" where
  "next_undo_transaction h =
     (case h_open h of
        Some tx \<Rightarrow> if tx_ops tx = [] then last_opt (h_undo h) else Some tx
      | None \<Rightarrow> last_opt (h_undo h))"

definition next_redo_transaction :: "history \<Rightarrow> transaction option" where
  "next_redo_transaction h = last_opt (h_redo h)"

end
