(* ===== verification/HistoryProps.thy ===== *)
theory HistoryProps
  imports HistoryModel
begin

text \<open>
  What the history stands for: a line of documents with a current one, the \<open>timeline\<close>. Editing cuts
  the future and appends, undo and redo move along it, and the depth bound drops the oldest
  documents. The relation \<open>implements\<close> ties the two stacks of operations and the live document to a
  timeline, and one lemma per method of \<open>history.rs\<close> says which moves of the timeline it makes. The
  session-level properties are in \<open>EditSession\<close>.
\<close>

section \<open>The abstract timeline\<close>

record timeline =
  tl_past :: "op_ctx list"
  tl_now :: op_ctx
  tl_future :: "op_ctx list"

definition keep_last :: "nat \<Rightarrow> 'a list \<Rightarrow> 'a list" where
  "keep_last n xs = drop (length xs - n) xs"

definition tl_edit :: "nat \<Rightarrow> op_ctx \<Rightarrow> timeline \<Rightarrow> timeline" where
  "tl_edit n c t = \<lparr>tl_past = keep_last n (tl_past t @ [tl_now t]), tl_now = c, tl_future = []\<rparr>"

definition tl_undo :: "timeline \<Rightarrow> timeline" where
  "tl_undo t =
     (if tl_past t = [] then t
      else \<lparr>tl_past = butlast (tl_past t), tl_now = last (tl_past t), tl_future = tl_future t @ [tl_now t]\<rparr>)"

definition tl_redo :: "nat \<Rightarrow> timeline \<Rightarrow> timeline" where
  "tl_redo n t =
     (if tl_future t = [] then t
      else \<lparr>tl_past = keep_last n (tl_past t @ [tl_now t]), tl_now = last (tl_future t),
            tl_future = butlast (tl_future t)\<rparr>)"

definition implements :: "timeline \<Rightarrow> history \<Rightarrow> op_ctx \<Rightarrow> bool" where
  \<comment> \<open>the stacks run along the timeline; the open gesture leads from its present to the document\<close>
  "implements t h c \<longleftrightarrow>
     hist.past (map tx_ops (h_undo h)) (tl_past t) (tl_now t) \<and>
     hist.future (map tx_ops (h_redo h)) (tl_future t) (tl_now t) \<and>
     (case h_open h of None \<Rightarrow> ctx_same (tl_now t) c | Some tx \<Rightarrow> hist.valid_run (tx_ops tx) (tl_now t) c)"

lemma implements_fresh:
  "h_undo h = [] \<Longrightarrow> h_redo h = [] \<Longrightarrow> h_open h = None \<Longrightarrow>
     implements \<lparr>tl_past = [], tl_now = c, tl_future = []\<rparr> h c"
  by (simp add: implements_def hist.past.start hist.future.stop)

lemma keep_last_length: "length (keep_last n xs) \<le> n"
  by (simp add: keep_last_def)

lemma keep_last_all: "length xs \<le> n \<Longrightarrow> keep_last n xs = xs"
  by (simp add: keep_last_def)

lemma keep_last_map: "keep_last n (map f xs) = map f (keep_last n xs)"
  by (simp add: keep_last_def drop_map)

lemma past_keep_last: "hist.past us ss s \<Longrightarrow> hist.past (keep_last n us) (keep_last n ss) s"
  using hist.past_length[of us ss s] hist.past_drop[of us ss s] by (simp add: keep_last_def)

section \<open>What each method leaves alone\<close>

lemma bump_generation_frame [frame_simps]:
  "h_undo (bump_generation b h) = h_undo h" "h_redo (bump_generation b h) = h_redo h"
  "h_open (bump_generation b h) = h_open h" "h_max_depth (bump_generation b h) = h_max_depth h"
  "h_sink (bump_generation b h) = h_sink h" "h_journal (bump_generation b h) = h_journal h"
  by (simp_all add: bump_generation_def)

lemma emit_frame [frame_simps]:
  "h_undo (emit ev h) = h_undo h" "h_redo (emit ev h) = h_redo h" "h_open (emit ev h) = h_open h"
  "h_max_depth (emit ev h) = h_max_depth h" "h_sink (emit ev h) = h_sink h"
  by (simp_all add: emit_def)

lemma push_undo_frame [frame_simps]:
  "h_redo (push_undo tx h) = h_redo h" "h_open (push_undo tx h) = h_open h"
  "h_max_depth (push_undo tx h) = h_max_depth h" "h_sink (push_undo tx h) = h_sink h"
  "h_journal (push_undo tx h) = h_journal h"
  by (simp_all add: push_undo_def Let_def)

lemma commit_transaction_frame [frame_simps]:
  "h_redo (commit_transaction tx h) = []" "h_open (commit_transaction tx h) = h_open h"
  "h_max_depth (commit_transaction tx h) = h_max_depth h" "h_sink (commit_transaction tx h) = h_sink h"
  by (simp_all add: commit_transaction_def frame_simps)

lemma push_undo_stack: "h_undo (push_undo tx h) = keep_last (h_max_depth h) (h_undo h @ [tx])"
  by (simp add: push_undo_def keep_last_def Let_def)

lemma commit_transaction_stack:
  "h_undo (commit_transaction tx h) = keep_last (h_max_depth h) (h_undo h @ [tx])"
  by (simp add: commit_transaction_def push_undo_stack emit_def)

lemma history_commit_frame [simp]:
  "h_open (history_commit h) = None" "h_max_depth (history_commit h) = h_max_depth h"
  "h_sink (history_commit h) = h_sink h"
  by (simp_all add: history_commit_def frame_simps Let_def split: option.split)

lemma transaction_push_ops [simp]: "tx_ops (transaction_push op tx) = tx_ops tx @ [op]"
  by (simp add: transaction_push_def Let_def)

lemma transaction_new_ops [simp]: "tx_ops (transaction_new label) = []"
  by (simp add: transaction_new_def)

section \<open>The moves each method makes\<close>

lemma push_undo_past:
  assumes "hist.past (map tx_ops (h_undo h)) ss s" "hist.valid_run (tx_ops tx) s t"
  shows "hist.past (map tx_ops (h_undo (push_undo tx h))) (keep_last (h_max_depth h) (ss @ [s])) t"
  using past_keep_last[OF hist.past.done_tx[OF assms], of "h_max_depth h"]
  by (simp add: push_undo_stack flip: keep_last_map)

lemma commit_transaction_implements:
  assumes "hist.past (map tx_ops (h_undo h)) (tl_past t) (tl_now t)"
    and "hist.valid_run (tx_ops tx) (tl_now t) c" "h_open h = None"
  shows "implements (tl_edit (h_max_depth h) c t) (commit_transaction tx h) c"
  using push_undo_past[OF assms(1,2)] assms(3)
  by (simp add: implements_def tl_edit_def frame_simps commit_transaction_stack push_undo_stack
      hist.future.stop)

definition settled :: "history \<Rightarrow> op_ctx \<Rightarrow> timeline \<Rightarrow> timeline" where
  \<comment> \<open>the timeline once the open gesture is committed\<close>
  "settled h c t =
     (case h_open h of
        None \<Rightarrow> t
      | Some tx \<Rightarrow> if tx_ops tx = [] then t else tl_edit (h_max_depth h) c t)"

lemma history_commit_implements:
  assumes "implements t h c"
  shows "implements (settled h c t) (history_commit h) c"
proof (cases "h_open h")
  case None
  with assms show ?thesis by (simp add: history_commit_def settled_def)
next
  case (Some tx)
  with assms have t: "hist.past (map tx_ops (h_undo h)) (tl_past t) (tl_now t)"
    "hist.future (map tx_ops (h_redo h)) (tl_future t) (tl_now t)"
    "hist.valid_run (tx_ops tx) (tl_now t) c"
    by (simp_all add: implements_def)
  show ?thesis
  proof (cases "tx_ops tx = []")
    case True
    with t Some show ?thesis
      by (auto simp: history_commit_def settled_def implements_def elim: hist.valid_run.cases)
  next
    case False
    with t Some commit_transaction_implements[of "h\<lparr>h_open := None\<rparr>" t tx c] show ?thesis
      by (simp add: history_commit_def settled_def)
  qed
qed

abbreviation committed :: "history \<Rightarrow> history" where
  "committed h \<equiv> if h_open h \<noteq> None then history_commit h else h"

lemma committed_is_commit: "committed h = history_commit h"
  by (simp add: history_commit_def)

lemma implements_closed:
  "h_open h = None \<Longrightarrow> implements t h c \<longleftrightarrow>
     hist.past (map tx_ops (h_undo h)) (tl_past t) (tl_now t) \<and>
     hist.future (map tx_ops (h_redo h)) (tl_future t) (tl_now t) \<and> ctx_same (tl_now t) c"
  by (simp add: implements_def)

lemma history_begin_implements:
  assumes "implements t h c"
  shows "implements (settled h c t) (history_begin label h) c"
  using history_commit_implements[OF assms]
  unfolding history_begin_def committed_is_commit
  by (simp add: implements_def hist.valid_run.none)

lemma single_valid_run: "valid_op op c \<Longrightarrow> do_op op c = (Inr (), c') \<Longrightarrow> hist.valid_run [op] c c'"
  by (rule hist.valid_run.more[OF ctx_same_refl _ _ hist.valid_run.none[OF ctx_same_refl]])

lemma history_apply_implements:
  assumes t: "implements t h c" and v: "valid_op op c" and step: "history_apply op h c = (Inr (), h', c')"
  shows "implements (if h_open h = None then tl_edit (h_max_depth h) c' t else t) h' c'"
proof -
  have op: "do_op op c = (Inr (), c')"
    using step by (auto simp: history_apply_def Let_def split: prod.splits sum.splits)
  show ?thesis
  proof (cases "h_open h")
    case None
    let ?tx = "transaction_push op (transaction_new (operation_label op))"
    have h': "h' = commit_transaction ?tx (bump_generation True h)"
      using step op None by (simp add: history_apply_def frame_simps Let_def)
    have "hist.valid_run (tx_ops ?tx) (tl_now t) c'"
      using hist.valid_run_left[OF single_valid_run[OF v op]] t None by (simp add: implements_def)
    with t None show ?thesis unfolding h'
      using commit_transaction_implements[of "bump_generation True h" t ?tx c']
      by (simp add: implements_closed frame_simps)
  next
    case (Some tx)
    have h': "h' = (bump_generation True h)\<lparr>h_open := Some (transaction_push op tx)\<rparr>"
      using step op Some by (simp add: history_apply_def frame_simps Let_def)
    have "hist.valid_run (tx_ops tx) (tl_now t) c" using t Some by (simp add: implements_def)
    then have "hist.valid_run (tx_ops tx @ [op]) (tl_now t) c'"
      using ctx_same_refl v op by (rule hist.valid_run_snoc)
    with t Some show ?thesis unfolding h' implements_def by (simp add: frame_simps)
  qed
qed

lemma set_open_label_implements: "implements t h c \<Longrightarrow> implements t (snd (set_open_label label h)) c"
  by (auto simp: set_open_label_def implements_def split: option.split)

lemma history_abort_implements:
  assumes t: "implements t h c"
  obtains h' c' where "history_abort_with h c = (Inr (), h', c')" "implements t h' c'"
    "h_open h' = None" "h_undo h' = h_undo h" "h_redo h' = h_redo h" "h_max_depth h' = h_max_depth h"
    "h_sink h' = h_sink h" "h_journal h' = h_journal h"
proof (cases "h_open h")
  case None
  with t that show ?thesis by (simp add: history_abort_with_def)
next
  case (Some tx)
  then have run: "hist.valid_run (tx_ops tx) (tl_now t) c" using t by (simp add: implements_def)
  obtain c' where c': "run_each undo_op (rev (tx_ops tx)) c = (Inr (), c')" "ctx_same c' (tl_now t)"
    using hist.rvt_run[OF run ctx_same_refl]
    by (cases "run_each undo_op (rev (tx_ops tx)) c") (simp add: run_each_hist)
  let ?h = "bump_generation (tx_ops tx \<noteq> []) (h\<lparr>h_open := None\<rparr>)"
  have "history_abort_with h c = (Inr (), ?h, c')"
    by (simp add: history_abort_with_def Some c'(1) Let_def)
  moreover have "implements t ?h c'"
    using t c'(2) by (simp add: implements_def frame_simps ctx_same_sym)
  ultimately show ?thesis by (rule that) (simp_all add: frame_simps)
qed

lemma rollback_ops_run:
  "run_each undo_op (take (length ops - len) ops) c = (Inr (), c') \<Longrightarrow>
     rollback_ops len ops c = (Inr (), drop (length ops - len) ops, c')"
proof (induction ops arbitrary: c)
  case (Cons op ops)
  show ?case
  proof (cases "length (op # ops) > len")
    case True
    then have n: "length (op # ops) - len = Suc (length ops - len)" by auto
    from Cons.prems[unfolded n] obtain c1 where "undo_op op c = (Inr (), c1)"
      "run_each undo_op (take (length ops - len) ops) c1 = (Inr (), c')"
      by (auto split: prod.splits sum.splits)
    with Cons.IH[of c1] True show ?thesis by (simp add: n del: length_Cons) (simp add: n[simplified])
  next
    case False
    with Cons.prems show ?thesis by (simp add: op_ok_def)
  qed
qed (simp add: op_ok_def)

lemma history_rollback_implements:
  assumes t: "implements t h c"
  obtains h' c' where "history_rollback_open_to len h c = (Inr (), h', c')" "implements t h' c'"
    "h_undo h' = h_undo h" "h_redo h' = h_redo h" "h_max_depth h' = h_max_depth h"
    "h_sink h' = h_sink h" "h_journal h' = h_journal h"
proof (cases "h_open h")
  case None
  with t that show ?thesis by (simp add: history_rollback_open_to_def)
next
  case (Some tx)
  then have run: "hist.valid_run (tx_ops tx) (tl_now t) c" using t by (simp add: implements_def)
  obtain c' where c': "run_each undo_op (rev (drop len (tx_ops tx))) c = (Inr (), c')"
    "hist.valid_run (take len (tx_ops tx)) (tl_now t) c'"
    using hist.rvt_tail[OF run] by (auto simp: run_each_hist)
  have "rollback_ops len (rev (tx_ops tx)) c = (Inr (), rev (take len (tx_ops tx)), c')"
    using rollback_ops_run[of "rev (tx_ops tx)" len c c'] c'(1)
    by (cases "len \<le> length (tx_ops tx)") (simp_all add: rev_drop rev_take)
  then have "history_rollback_open_to len h c =
      (Inr (), (bump_generation (length (tx_ops tx) > len) h)\<lparr>h_open := Some (tx\<lparr>tx_ops := take len (tx_ops tx)\<rparr>)\<rparr>, c')"
    by (simp add: history_rollback_open_to_def Some Let_def)
  moreover have "implements t
      ((bump_generation (length (tx_ops tx) > len) h)\<lparr>h_open := Some (tx\<lparr>tx_ops := take len (tx_ops tx)\<rparr>)\<rparr>) c'"
    using t c'(2) by (simp add: implements_def frame_simps)
  ultimately show ?thesis by (rule that) (simp_all add: frame_simps)
qed

lemma history_undo_implements:
  assumes t: "implements t h c"
  obtains h' c' where "history_undo h c = (Inr (tl_past (settled h c t) \<noteq> []), h', c')"
    "implements (tl_undo (settled h c t)) h' c'" "h_open h' = None" "h_max_depth h' = h_max_depth h"
proof -
  let ?h = "history_commit h" and ?t = "settled h c t"
  have st: "hist.past (map tx_ops (h_undo ?h)) (tl_past ?t) (tl_now ?t)"
    "hist.future (map tx_ops (h_redo ?h)) (tl_future ?t) (tl_now ?t)" "ctx_same (tl_now ?t) c"
    using history_commit_implements[OF t] by (simp_all add: implements_closed)
  have len: "length (tl_past ?t) = length (h_undo ?h)" using hist.past_length[OF st(1)] by simp
  show ?thesis
  proof (cases "h_undo ?h = []")
    case True
    then have "history_undo h c = (Inr False, ?h, c)"
      unfolding history_undo_def committed_is_commit by (simp add: Let_def)
    moreover have "tl_past ?t = []" using True len by simp
    ultimately show ?thesis using st history_commit_implements[OF t] that by (simp add: tl_undo_def)
  next
    case False
    define tx where "tx = last (h_undo ?h)"
    define rest where "rest = butlast (h_undo ?h)"
    have split: "h_undo ?h = rest @ [tx]" using False by (simp add: tx_def rest_def)
    have "hist.past (map tx_ops rest @ [tx_ops tx]) (tl_past ?t) (tl_now ?t)"
      using st(1) by (simp only: split) simp
    from this st(2,3) obtain s0 ss0 c' where p: "tl_past ?t = ss0 @ [s0]"
      and c': "run_each undo_op (rev (tx_ops tx)) c = (Inr (), c')" "ctx_same c' s0"
      and st': "hist.past (map tx_ops rest) ss0 s0"
      "hist.future (map tx_ops (h_redo ?h) @ [tx_ops tx]) (tl_future ?t @ [tl_now ?t]) s0"
      by (rule hist.undo_step) (simp add: run_each_hist)
    let ?h3 = "emit (JournalEvent_Undo tx) (bump_generation True (?h\<lparr>h_undo := rest\<rparr>))"
    let ?h' = "?h3\<lparr>h_redo := h_redo ?h3 @ [tx]\<rparr>"
    have "history_undo h c = (Inr True, ?h', c')"
      unfolding history_undo_def committed_is_commit Let_def using False c'(1)
      by (simp only: tx_def[symmetric] rest_def[symmetric] if_False prod.case sum.case)
    moreover have "implements (tl_undo ?t) ?h' c'"
      using st' ctx_same_sym[OF c'(2)] by (simp add: implements_closed frame_simps tl_undo_def p)
    ultimately show ?thesis using p that by (simp add: frame_simps)
  qed
qed

lemma history_redo_implements:
  assumes t: "implements t h c" and closed: "h_open h = None"
  obtains h' c' where "history_redo h c = (Inr (tl_future t \<noteq> []), h', c')"
    "implements (tl_redo (h_max_depth h) t) h' c'" "h_open h' = None" "h_max_depth h' = h_max_depth h"
proof -
  have st: "hist.past (map tx_ops (h_undo h)) (tl_past t) (tl_now t)"
    "hist.future (map tx_ops (h_redo h)) (tl_future t) (tl_now t)" "ctx_same (tl_now t) c"
    using t closed by (simp_all add: implements_closed)
  have len: "length (tl_future t) = length (h_redo h)" using hist.future_length[OF st(2)] by simp
  show ?thesis
  proof (cases "h_redo h = []")
    case True
    then have "history_redo h c = (Inr False, h, c)" by (simp add: history_redo_def)
    moreover have "tl_future t = []" using True len by simp
    ultimately show ?thesis using t closed by (intro that[of h c]) (simp_all add: tl_redo_def)
  next
    case False
    define tx where "tx = last (h_redo h)"
    define rest where "rest = butlast (h_redo h)"
    have split: "h_redo h = rest @ [tx]" using False by (simp add: tx_def rest_def)
    have "hist.future (map tx_ops rest @ [tx_ops tx]) (tl_future t) (tl_now t)"
      using st(2) by (simp only: split) simp
    then obtain u fs0 where f: "tl_future t = fs0 @ [u]" "hist.future (map tx_ops rest) fs0 u"
      and run: "hist.valid_run (tx_ops tx) (tl_now t) u"
      by (rule hist.future_snocE) auto
    obtain c' where c': "run_each do_op (tx_ops tx) c = (Inr (), c')" "ctx_same c' u"
      using hist.app_run[OF run ctx_same_sym[OF st(3)]]
      by (cases "run_each do_op (tx_ops tx) c") (simp add: run_each_hist)
    let ?h1 = "emit (JournalEvent_Redo tx) (bump_generation True (h\<lparr>h_redo := rest\<rparr>))"
    have "history_redo h c = (Inr True, push_undo tx ?h1, c')"
      using False c'(1) by (simp add: history_redo_def Let_def flip: tx_def rest_def)
    moreover have "hist.past (map tx_ops (h_undo (push_undo tx ?h1)))
        (keep_last (h_max_depth h) (tl_past t @ [tl_now t])) u"
      using push_undo_past[of ?h1 "tl_past t" "tl_now t" tx u] st(1) run by (simp add: frame_simps)
    then have "implements (tl_redo (h_max_depth h) t) (push_undo tx ?h1) c'"
      using f closed ctx_same_sym[OF c'(2)] by (simp add: implements_closed frame_simps tl_redo_def)
    ultimately show ?thesis using f closed that by (simp add: frame_simps)
  qed
qed

lemma record_applied_implements:
  assumes t: "implements t h b" and run: "hist.valid_run (tx_ops tx) b c" and ne: "tx_ops tx \<noteq> []"
  shows "implements (tl_edit (h_max_depth h) c (settled h b t)) (record_applied_transaction tx h) c"
proof -
  have rec: "record_applied_transaction tx h = commit_transaction tx (history_commit (bump_generation True h))"
    using ne by (simp add: record_applied_transaction_def history_commit_def Let_def frame_simps
        split: option.split)
  have t': "implements t (bump_generation True h) b" using t by (simp add: implements_def frame_simps)
  have same: "settled (bump_generation True h) b t = settled h b t"
    by (cases "h_open h") (simp_all add: settled_def frame_simps)
  let ?h = "history_commit (bump_generation True h)" and ?t = "settled h b t"
  from history_commit_implements[OF t'] have st: "hist.past (map tx_ops (h_undo ?h)) (tl_past ?t) (tl_now ?t)"
    "ctx_same (tl_now ?t) b"
    by (simp_all add: implements_closed same)
  from commit_transaction_implements[OF st(1) hist.valid_run_left[OF run st(2)]]
  show ?thesis by (simp add: rec frame_simps)
qed

lemma history_apply_transaction_implements:
  assumes t: "implements t h c" and run: "hist.valid_run (tx_ops tx) c u" and ne: "tx_ops tx \<noteq> []"
  obtains c' where "history_apply_transaction tx h c =
      (Inr (), record_applied_transaction tx (history_commit h), c')" "ctx_same c' u"
    "implements (tl_edit (h_max_depth h) c' (settled h c t)) (record_applied_transaction tx (history_commit h)) c'"
proof -
  obtain c' where c': "run_each do_op (tx_ops tx) c = (Inr (), c')" "ctx_same c' u"
    using hist.app_run[OF run ctx_same_refl]
    by (cases "run_each do_op (tx_ops tx) c") (simp add: run_each_hist)
  have "history_apply_transaction tx h c = (Inr (), record_applied_transaction tx (history_commit h), c')"
    using ne c'(1) unfolding history_apply_transaction_def committed_is_commit by (simp add: Let_def)
  moreover have "implements (tl_edit (h_max_depth h) c' (settled h c t))
      (record_applied_transaction tx (history_commit h)) c'"
    using record_applied_implements[OF history_commit_implements[OF t]
        hist.valid_run_right[OF run ctx_same_sym[OF c'(2)]] ne]
    by (simp add: settled_def[of "history_commit h"])
  ultimately show ?thesis using c'(2) that by blast
qed

end
