(* ===== verification/EditSession.thy ===== *)
theory EditSession
  imports HistoryProps
begin

text \<open>
  Editing sessions: the client of the history. \<open>history_call\<close> is every call of a method of
  \<open>history.rs\<close>, failing calls included, and carries the bound on the stacks. \<open>session_step\<close> keeps the
  calls a well-behaved editor makes: an operation is built from the document it is applied to, and
  redo waits for an open gesture to end. Over these, undo and redo never fail, and every step is a
  sequence of moves along the abstract timeline of \<open>HistoryProps\<close>.
\<close>

section \<open>Calls and sessions\<close>

inductive history_call :: "history \<times> op_ctx \<Rightarrow> history \<times> op_ctx \<Rightarrow> bool" where
  Call_Sink: "history_call (h, c) (set_journal_sink b h, c)"
| Call_Begin: "history_call (h, c) (history_begin label h, c)"
| Call_Label: "history_call (h, c) (snd (set_open_label label h), c)"
| Call_Commit: "history_call (h, c) (history_commit h, c)"
| Call_Apply: "history_apply op h c = (r, h', c') \<Longrightarrow> history_call (h, c) (h', c')"
| Call_Transaction: "history_apply_transaction tx h c = (r, h', c') \<Longrightarrow> history_call (h, c) (h', c')"
| Call_Record: "history_call (h, c) (record_applied_transaction tx h, c')"
| Call_Abort: "history_abort_with h c = (r, h', c') \<Longrightarrow> history_call (h, c) (h', c')"
| Call_Rollback: "history_rollback_open_to len h c = (r, h', c') \<Longrightarrow> history_call (h, c) (h', c')"
| Call_Undo: "history_undo h c = (b, h', c') \<Longrightarrow> history_call (h, c) (h', c')"
| Call_Redo: "history_redo h c = (b, h', c') \<Longrightarrow> history_call (h, c) (h', c')"

inductive session_step :: "history \<times> op_ctx \<Rightarrow> history \<times> op_ctx \<Rightarrow> bool" where
  Begin: "session_step (h, c) (history_begin label h, c)"
| Label: "session_step (h, c) (snd (set_open_label label h), c)"
| Commit: "session_step (h, c) (history_commit h, c)"
| Apply: "valid_op op c \<Longrightarrow> history_apply op h c = (Inr (), h', c') \<Longrightarrow> session_step (h, c) (h', c')"
| Transaction: "hist.valid_run (tx_ops tx) c u \<Longrightarrow> history_apply_transaction tx h c = (r, h', c') \<Longrightarrow>
    session_step (h, c) (h', c')"
| Record: "hist.valid_run (tx_ops tx) c c' \<Longrightarrow> session_step (h, c) (record_applied_transaction tx h, c')"
| Abort: "history_abort_with h c = (r, h', c') \<Longrightarrow> session_step (h, c) (h', c')"
| Rollback: "history_rollback_open_to len h c = (r, h', c') \<Longrightarrow> session_step (h, c) (h', c')"
| Undo: "history_undo h c = (b, h', c') \<Longrightarrow> session_step (h, c) (h', c')"
| Redo: "h_open h = None \<Longrightarrow> history_redo h c = (b, h', c') \<Longrightarrow> session_step (h, c) (h', c')"

inductive session :: "nat \<Rightarrow> history \<times> op_ctx \<Rightarrow> bool" where
  \<comment> \<open>what an editor with this undo depth can reach\<close>
  session_start: "session n (history_with_max_depth n, c)"
| session_more: "session n s \<Longrightarrow> session_step s s' \<Longrightarrow> session n s'"

inductive timeline_step :: "nat \<Rightarrow> timeline \<Rightarrow> timeline \<Rightarrow> bool" where
  Edit: "timeline_step n t (tl_edit n c t)"
| Back: "tl_past t \<noteq> [] \<Longrightarrow> timeline_step n t (tl_undo t)"
| Forth: "tl_future t \<noteq> [] \<Longrightarrow> timeline_step n t (tl_redo n t)"

section \<open>Each step moves along the timeline\<close>

definition simulated :: "nat \<Rightarrow> timeline \<Rightarrow> history \<times> op_ctx \<Rightarrow> bool" where
  "simulated n t s' \<longleftrightarrow>
     (\<exists>t'. (timeline_step n)\<^sup>*\<^sup>* t t' \<and> implements t' (fst s') (snd s')) \<and> h_max_depth (fst s') = n"

lemma simulatedI: "(timeline_step n)\<^sup>*\<^sup>* t t' \<Longrightarrow> implements t' h c \<Longrightarrow> h_max_depth h = n \<Longrightarrow> simulated n t (h, c)"
  by (auto simp: simulated_def)

lemma settled_steps: "(timeline_step (h_max_depth h))\<^sup>*\<^sup>* t (settled h c t)"
  by (auto simp: settled_def intro: Edit split: option.split)

lemma tl_undo_steps: "(timeline_step n)\<^sup>*\<^sup>* t (tl_undo t)"
  by (cases "tl_past t = []") (simp add: tl_undo_def, blast intro: Back)

lemma tl_redo_steps: "(timeline_step n)\<^sup>*\<^sup>* t (tl_redo n t)"
  by (cases "tl_future t = []") (simp add: tl_redo_def, blast intro: Forth)

lemma record_depth: "h_max_depth (record_applied_transaction tx h) = h_max_depth h"
  by (simp add: record_applied_transaction_def Let_def frame_simps split: option.split)

lemma apply_depth: "history_apply op h c = (r, h', c') \<Longrightarrow> h_max_depth h' = h_max_depth h"
  by (auto simp: history_apply_def Let_def frame_simps split: prod.splits sum.splits option.splits)

lemma record_empty: "tx_ops tx = [] \<Longrightarrow> record_applied_transaction tx h = history_commit h"
  by (simp add: record_applied_transaction_def history_commit_def bump_generation_def split: option.split)

lemma step_simulated:
  assumes "session_step s s'" "implements t (fst s) (snd s)" "h_max_depth (fst s) = n"
  shows "simulated n t s'"
  using assms
proof (induction rule: session_step.induct)
  case (Begin h c label)
  with settled_steps[of h t c] history_begin_implements[of t h c label] show ?case
    by (auto intro!: simulatedI simp: history_begin_def)
next
  case (Label h c label)
  then show ?case
    using set_open_label_implements[of t h c label]
    by (auto simp: simulated_def set_open_label_def split: option.splits)
next
  case (Commit h c)
  with settled_steps[of h t c] history_commit_implements[of t h c] show ?case
    by (auto intro!: simulatedI)
next
  case (Apply op c h h' c')
  have "implements (if h_open h = None then tl_edit (h_max_depth h) c' t else t) h' c'"
    by (rule history_apply_implements[OF _ Apply.hyps]) (use Apply.prems in simp)
  moreover have "h_max_depth h' = n" using Apply apply_depth by auto
  ultimately show ?case
    using Apply.prems(2) by (cases "h_open h = None") (auto simp: simulated_def intro: Edit)
next
  case (Transaction tx c u h r h' c')
  show ?case
  proof (cases "tx_ops tx = []")
    case True
    then have "h' = history_commit h" "c' = c"
      using Transaction.hyps(2) committed_is_commit[of h]
      by (simp_all add: history_apply_transaction_def Let_def split: if_splits)
    with Transaction.prems settled_steps[of h t c] history_commit_implements[of t h c] show ?thesis
      by (auto intro!: simulatedI)
  next
    case False
    with Transaction have "h' = record_applied_transaction tx (history_commit h)"
      "implements (tl_edit n c' (settled h c t)) h' c'"
      using history_apply_transaction_implements[of t h c tx u] by auto
    with Transaction.prems show ?thesis
      by (auto intro!: simulatedI rtranclp.rtrancl_into_rtrancl[OF settled_steps[of h t c]] Edit
          simp: record_depth)
  qed
next
  case (Record tx c c' h)
  show ?case
  proof (cases "tx_ops tx = []")
    case True
    with Record.hyps have same: "ctx_same c c'" by (auto elim: hist.valid_run.cases)
    have "implements (settled h c t) (history_commit h) c"
      using Record.prems history_commit_implements by simp
    then have "implements (settled h c t) (history_commit h) c'"
      using same by (auto simp: implements_closed intro: ctx_same_trans)
    with Record.prems settled_steps[of h t c] True show ?thesis
      by (auto intro!: simulatedI simp: record_empty)
  next
    case False
    with Record record_applied_implements[of t h c tx c'] show ?thesis
      by (auto intro!: simulatedI rtranclp.rtrancl_into_rtrancl[OF settled_steps[of h t c]] Edit
          simp: record_depth)
  qed
next
  case (Abort h c r h' c')
  from Abort.prems(1) have "implements t h c" by simp
  then show ?case by (rule history_abort_implements) (use Abort in \<open>auto intro: simulatedI\<close>)
next
  case (Rollback len h c r h' c')
  from Rollback.prems(1) have "implements t h c" by simp
  then show ?case by (rule history_rollback_implements[where len = len]) (use Rollback in \<open>auto intro: simulatedI\<close>)
next
  case (Undo h c b h' c')
  from Undo.prems(1) have "implements t h c" by simp
  then obtain "implements (tl_undo (settled h c t)) h' c'" "h_max_depth h' = h_max_depth h"
    by (rule history_undo_implements) (use Undo.hyps in auto)
  then show ?case
    using Undo.prems(2) rtranclp_trans[OF settled_steps[of h t c] tl_undo_steps]
    by (auto intro: simulatedI)
next
  case (Redo h c b h' c')
  from Redo.prems(1) have "implements t h c" by simp
  then obtain "implements (tl_redo (h_max_depth h) t) h' c'" "h_max_depth h' = h_max_depth h"
    using Redo.hyps(1) by (rule history_redo_implements) (use Redo.hyps in auto)
  then show ?case using Redo.prems(2) tl_redo_steps by (auto intro: simulatedI)
qed

lemma session_implements:
  assumes "session n s"
  shows "(\<exists>t. implements t (fst s) (snd s)) \<and> h_max_depth (fst s) = n"
  using assms
proof induction
  case (session_start n c)
  show ?case
    using implements_fresh[of "history_with_max_depth n" c]
    by (auto simp: history_with_max_depth_def history_default_def)
next
  case (session_more n s s')
  then show ?case using step_simulated[of s s'] by (auto simp: simulated_def)
qed

section \<open>The depth bound\<close>

definition depth_ok :: "history \<Rightarrow> bool" where
  "depth_ok h \<longleftrightarrow> length (h_undo h) + length (h_redo h) \<le> h_max_depth h"

lemma commit_transaction_depth: "depth_ok (commit_transaction tx h)"
  by (simp add: depth_ok_def frame_simps commit_transaction_stack keep_last_length)

lemma history_commit_depth: "depth_ok h \<Longrightarrow> depth_ok (history_commit h)"
  using commit_transaction_depth
  by (auto simp: history_commit_def depth_ok_def Let_def split: option.split)

lemma bump_generation_depth [simp]: "depth_ok (bump_generation b h) = depth_ok h"
  by (simp add: depth_ok_def frame_simps)

lemma depth_ok_update [simp]:
  "depth_ok (h\<lparr>h_open := x\<rparr>) = depth_ok h" "depth_ok (h\<lparr>h_sink := b, h_journal := j\<rparr>) = depth_ok h"
  by (simp_all add: depth_ok_def)

lemma record_applied_depth: "depth_ok h \<Longrightarrow> depth_ok (record_applied_transaction tx h)"
  using commit_transaction_depth
  by (auto simp: record_applied_transaction_def Let_def split: option.split)

lemma history_undo_depth:
  assumes "depth_ok h" "history_undo h c = (r, h', c')"
  shows "depth_ok h'"
proof -
  have d: "depth_ok (history_commit h)" using assms(1) by (rule history_commit_depth)
  show ?thesis
    using assms(2) d unfolding history_undo_def committed_is_commit Let_def
    by (cases "h_undo (history_commit h)" rule: rev_cases)
      (auto simp: depth_ok_def frame_simps split: prod.splits sum.splits)
qed

lemma history_redo_depth:
  assumes "depth_ok h" "history_redo h c = (r, h', c')"
  shows "depth_ok h'"
  using assms unfolding history_redo_def Let_def
  by (auto simp: depth_ok_def frame_simps push_undo_stack keep_last_def
      split: if_splits prod.splits sum.splits)

lemma history_call_depth:
  assumes "history_call s s'" "depth_ok (fst s)"
  shows "depth_ok (fst s')"
  using assms
proof (induction rule: history_call.induct)
  case (Call_Apply op h c r h' c')
  then show ?case
    using commit_transaction_depth
    by (auto simp: history_apply_def Let_def split: prod.splits sum.splits option.splits)
next
  case (Call_Transaction tx h c r h' c')
  then show ?case
    unfolding history_apply_transaction_def committed_is_commit Let_def
    by (auto intro: history_commit_depth record_applied_depth split: if_splits prod.splits sum.splits)
next
  case (Call_Undo h c b h' c')
  then show ?case using history_undo_depth by simp
next
  case (Call_Redo h c b h' c')
  then show ?case using history_redo_depth by simp
qed (auto simp: set_journal_sink_def history_begin_def set_open_label_def history_abort_with_def
  history_rollback_open_to_def record_applied_depth history_commit_depth Let_def
  split: option.splits prod.splits if_splits)

lemma session_step_call: "session_step s s' \<Longrightarrow> history_call s s'"
  by (induction rule: session_step.induct) (auto intro: history_call.intros)

lemma session_depth:
  assumes "session n s"
  shows "length (h_undo (fst s)) + length (h_redo (fst s)) \<le> n"
proof -
  from assms have "depth_ok (fst s)"
  proof induction
    case (session_start n c)
    show ?case by (simp add: depth_ok_def history_with_max_depth_def history_default_def)
  next
    case (session_more n s s')
    then show ?case by (blast intro: session_step_call history_call_depth)
  qed
  with session_implements[OF assms] show ?thesis by (simp add: depth_ok_def)
qed

section \<open>Moving along the timeline\<close>

lemma keep_last_snoc: "0 < n \<Longrightarrow> keep_last n (xs @ [x]) = keep_last (n - 1) xs @ [x]"
  by (simp add: keep_last_def Suc_diff_le)

lemma tl_undo_edit:
  "0 < n \<Longrightarrow> tl_now (tl_undo (tl_edit n c t)) = tl_now t"
  "0 < n \<Longrightarrow> tl_future (tl_undo (tl_edit n c t)) = [c]"
  by (simp_all add: tl_undo_def tl_edit_def keep_last_snoc)

lemma tl_redo_undo:
  "tl_past t \<noteq> [] \<Longrightarrow> length (tl_past t) \<le> n \<Longrightarrow> tl_redo n (tl_undo t) = t"
  by (simp add: tl_redo_def tl_undo_def keep_last_all)

lemma tl_undo_past: "tl_past (tl_undo t) = butlast (tl_past t)"
  by (simp add: tl_undo_def)

lemma tl_undo_future: "tl_past t \<noteq> [] \<Longrightarrow> tl_future (tl_undo t) = tl_future t @ [tl_now t]"
  by (simp add: tl_undo_def)

lemma tl_undo_times_past: "tl_past ((tl_undo ^^ k) t) = take (length (tl_past t) - k) (tl_past t)"
  by (induction k) (simp_all add: tl_undo_past butlast_take)

lemma tl_redo_undo_times:
  "k \<le> length (tl_past t) \<Longrightarrow> length (tl_past t) \<le> n \<Longrightarrow> (tl_redo n ^^ k) ((tl_undo ^^ k) t) = t"
proof (induction k)
  case (Suc k)
  have "tl_redo n (tl_undo ((tl_undo ^^ k) t)) = (tl_undo ^^ k) t"
    using Suc.prems by (intro tl_redo_undo) (auto simp: tl_undo_times_past)
  moreover have "(tl_redo n ^^ Suc k) ((tl_undo ^^ Suc k) t) =
      (tl_redo n ^^ k) (tl_redo n (tl_undo ((tl_undo ^^ k) t)))"
    by (simp add: funpow_swap1)
  ultimately show ?case using Suc by simp
qed simp

lemma implements_lengths:
  assumes "implements t h c"
  shows "length (tl_past t) = length (h_undo h)" "length (tl_future t) = length (h_redo h)"
  using assms hist.past_length hist.future_length by (force simp: implements_def)+

lemma history_undo_commit: "history_undo (history_commit h) c = history_undo h c"
  unfolding history_undo_def by (simp only: committed_is_commit) (simp add: history_commit_def[of "history_commit h"])

fun undo_times :: "nat \<Rightarrow> history \<Rightarrow> op_ctx \<Rightarrow> (history \<times> op_ctx) option" where
  \<comment> \<open>a client that calls undo \<open>k\<close> times and expects each to undo something\<close>
  "undo_times 0 h c = Some (h, c)"
| "undo_times (Suc k) h c = (case history_undo h c of (Inr True, h', c') \<Rightarrow> undo_times k h' c' | _ \<Rightarrow> None)"

fun redo_times :: "nat \<Rightarrow> history \<Rightarrow> op_ctx \<Rightarrow> (history \<times> op_ctx) option" where
  "redo_times 0 h c = Some (h, c)"
| "redo_times (Suc k) h c = (case history_redo h c of (Inr True, h', c') \<Rightarrow> redo_times k h' c' | _ \<Rightarrow> None)"

lemma undo_times_implements:
  assumes "implements t h c" "h_open h = None" "k \<le> length (tl_past t)"
  shows "\<exists>h' c'. undo_times k h c = Some (h', c') \<and> implements ((tl_undo ^^ k) t) h' c' \<and>
    h_open h' = None \<and> h_max_depth h' = h_max_depth h"
  using assms
proof (induction k arbitrary: t h c)
  case (Suc k)
  have "settled h c t = t" using Suc.prems(2) by (simp add: settled_def)
  moreover obtain h1 c1 where "history_undo h c = (Inr (tl_past (settled h c t) \<noteq> []), h1, c1)"
    "implements (tl_undo (settled h c t)) h1 c1" "h_open h1 = None" "h_max_depth h1 = h_max_depth h"
    by (rule history_undo_implements[OF Suc.prems(1)])
  moreover have "tl_past t \<noteq> []" using Suc.prems(3) by auto
  ultimately have 1: "history_undo h c = (Inr True, h1, c1)" "implements (tl_undo t) h1 c1"
    "h_open h1 = None" "h_max_depth h1 = h_max_depth h" by simp_all
  have "k \<le> length (tl_past (tl_undo t))" using Suc.prems(3) by (simp add: tl_undo_past)
  from Suc.IH[OF 1(2,3) this] 1(1,4) show ?case by (simp add: funpow_swap1)
qed auto

lemma redo_times_implements:
  assumes "implements t h c" "h_open h = None" "k \<le> length (tl_future t)"
  shows "\<exists>h' c'. redo_times k h c = Some (h', c') \<and> implements ((tl_redo (h_max_depth h) ^^ k) t) h' c' \<and>
    h_open h' = None"
  using assms
proof (induction k arbitrary: t h c)
  case (Suc k)
  obtain h1 c1 where "history_redo h c = (Inr (tl_future t \<noteq> []), h1, c1)"
    "implements (tl_redo (h_max_depth h) t) h1 c1" "h_open h1 = None" "h_max_depth h1 = h_max_depth h"
    by (rule history_redo_implements[OF Suc.prems(1,2)])
  moreover have "tl_future t \<noteq> []" using Suc.prems(3) by auto
  moreover have "k \<le> length (tl_future (tl_redo (h_max_depth h) t))"
    using Suc.prems(3) by (auto simp: tl_redo_def)
  ultimately show ?case using Suc.IH[of "tl_redo (h_max_depth h) t" h1 c1] by (simp add: funpow_swap1)
qed auto

lemma tl_undo_times_future: "k \<le> length (tl_past t) \<Longrightarrow> length (tl_future ((tl_undo ^^ k) t)) = length (tl_future t) + k"
proof (induction k)
  case (Suc k)
  then have "tl_past ((tl_undo ^^ k) t) \<noteq> []" by (auto simp: tl_undo_times_past)
  with Suc show ?case by (simp add: tl_undo_future)
qed simp

section \<open>Gestures\<close>

inductive gesture :: "operation list \<Rightarrow> history \<times> op_ctx \<Rightarrow> history \<times> op_ctx \<Rightarrow> bool" where
  \<comment> \<open>operations a tool applies one after the other, each built from the document it sees\<close>
  gesture_none: "gesture [] s s"
| gesture_more: "gesture ops s (h, c) \<Longrightarrow> valid_op op c \<Longrightarrow> history_apply op h c = (Inr (), h', c') \<Longrightarrow>
    gesture (ops @ [op]) s (h', c')"

lemma history_apply_open:
  assumes "history_apply op h c = (Inr (), h', c')" "h_open h = Some tx"
  shows "h_open h' = Some (transaction_push op tx)" "h_undo h' = h_undo h" "h_max_depth h' = h_max_depth h"
  using assms by (auto simp: history_apply_def Let_def frame_simps split: prod.splits sum.splits)

lemma gesture_implements:
  assumes "gesture ops s s'" "implements t (fst s) (snd s)" "h_open (fst s) = Some tx"
  shows "implements t (fst s') (snd s') \<and> h_undo (fst s') = h_undo (fst s) \<and>
    h_max_depth (fst s') = h_max_depth (fst s) \<and>
    (\<exists>tx'. h_open (fst s') = Some tx' \<and> tx_ops tx' = tx_ops tx @ ops)"
  using assms
proof (induction rule: gesture.induct)
  case (gesture_more ops s h c op h' c')
  then obtain tx' where tx': "h_open h = Some tx'" "tx_ops tx' = tx_ops tx @ ops" and t: "implements t h c"
    and f: "h_undo h = h_undo (fst s)" "h_max_depth h = h_max_depth (fst s)"
    by auto
  have "implements t h' c'"
    using history_apply_implements[OF t gesture_more.hyps(2,3)] tx'(1) by simp
  with history_apply_open[OF gesture_more.hyps(3) tx'(1)] tx'(2) f show ?case by simp
qed simp

lemma gesture_from_begin:
  assumes s: "session n (h, c)" and g: "gesture ops (history_begin label h, c) (h1, c1)"
  obtains t tx where "implements t h1 c1" "ctx_same (tl_now t) c" "h_open h1 = Some tx" "tx_ops tx = ops"
    "h_undo h1 = h_undo (history_commit h)" "h_max_depth h1 = n"
proof -
  obtain t where t: "implements t h c" and n: "h_max_depth h = n" using session_implements[OF s] by auto
  let ?t = "settled h c t" and ?h = "history_begin label h"
  have fresh: "h_open ?h = Some (transaction_new label)" "h_undo ?h = h_undo (history_commit h)"
    "h_max_depth ?h = n"
    unfolding history_begin_def committed_is_commit by (simp_all add: n)
  have "implements ?t ?h c" using t by (rule history_begin_implements)
  from gesture_implements[OF g, simplified, OF this fresh(1)] fresh
  obtain tx where "implements ?t h1 c1" "h_open h1 = Some tx" "tx_ops tx = ops"
    "h_undo h1 = h_undo (history_commit h)" "h_max_depth h1 = n" by auto
  moreover have "ctx_same (tl_now ?t) c"
    using history_commit_implements[OF t] by (simp add: implements_closed)
  ultimately show ?thesis using that by blast
qed

lemma history_undo_stack:
  assumes "history_undo h c = (Inr True, h', c')"
  shows "h_undo h' = butlast (h_undo (history_commit h))"
  using assms unfolding history_undo_def committed_is_commit Let_def
  by (auto simp: frame_simps split: if_splits prod.splits sum.splits)

section \<open>A concrete session\<close>

text \<open>The sample document of \<open>OpProps\<close>, edited once: its inner group is deleted.\<close>

lemma sample_session:
  obtains h1 c1 where "history_apply sample_delete (history_with_max_depth 10) sample_ctx = (Inr (), h1, c1)"
    "session 10 (h1, c1)" "length (h_undo h1) = 1" "h_open h1 = None"
    "do_op sample_delete sample_ctx = (Inr (), c1)"
proof -
  obtain c where "op_apply sample_delete sample_ctx = (Inr (), c)" using sample_delete_applies(1) by blast
  then obtain c1 where do: "do_op sample_delete sample_ctx = (Inr (), c1)" by (simp add: do_op_def)
  let ?h = "history_with_max_depth 10"
  let ?h1 = "commit_transaction (transaction_push sample_delete (transaction_new (operation_label sample_delete)))
    (bump_generation True ?h)"
  have open_h: "h_open ?h = None" "h_undo ?h = []"
    by (simp_all add: history_with_max_depth_def history_default_def)
  have 1: "history_apply sample_delete ?h sample_ctx = (Inr (), ?h1, c1)"
    unfolding history_apply_def by (simp add: do frame_simps open_h Let_def)
  have "valid_op sample_delete sample_ctx" by (simp add: valid_op_def sample_delete_applies(2))
  from session_more[OF session_start Apply[OF this 1]] have 2: "session 10 (?h1, c1)" .
  have 3: "length (h_undo ?h1) = 1" "h_open ?h1 = None"
    by (simp_all add: commit_transaction_stack frame_simps open_h keep_last_def history_with_max_depth_def
        history_default_def)
  from that[OF 1 2 3 do] show ?thesis .
qed

lemma sample_valid: "valid_op sample_delete sample_ctx"
  by (simp add: valid_op_def sample_delete_applies(2))

section \<open>Properties\<close>









text \<open>
  C14. Bound: no call of the history, with any operations and whether it succeeds or fails, lets the
  undo and redo stacks together grow beyond \<open>max_depth\<close>.
\<close>

theorem history_depth_bounded:
  assumes "history_call s s'" and "length (h_undo (fst s)) + length (h_redo (fst s)) \<le> h_max_depth (fst s)"
  shows "length (h_undo (fst s')) + length (h_redo (fst s')) \<le> h_max_depth (fst s')"
  using history_call_depth[OF assms(1)] assms(2) by (simp add: depth_ok_def)

theorem history_depth_bounded_witness:
  "\<exists>h1 c1. history_call (history_with_max_depth 10, sample_ctx) (h1, c1) \<and> length (h_undo h1) + length (h_redo h1) \<le> 10"
proof -
  obtain h1 c1 where "history_apply sample_delete (history_with_max_depth 10) sample_ctx = (Inr (), h1, c1)"
    by (rule sample_session)
  then have call: "history_call (history_with_max_depth 10, sample_ctx) (h1, c1)" by (rule Call_Apply)
  moreover have "h_max_depth h1 = 10"
    using \<open>history_apply sample_delete _ _ = _\<close> apply_depth by (fastforce simp: history_with_max_depth_def)
  ultimately show ?thesis
    using history_depth_bounded[OF call] by (auto simp: history_with_max_depth_def history_default_def)
qed

end
