(* ===== verification/Selections.thy ===== *)
theory Selections
  imports Ids "HOL-Library.FSet"
begin

text \<open>
  The selection, \<open>crates/fanta-doc/src/selection.rs\<close>: an ordered list without duplicates, a shadow
  hash set that answers membership, and the anchor of shift-clicks. The list and the set must stay in
  lockstep through every operation and through the persisted form, which drops the set.
\<close>

section \<open>State and operations\<close>

record selection =
  sel_items :: "node_id list"
  sel_index :: "node_id fset"
  sel_anchor :: "node_id option"

record selection_wire =
  wire_items :: "node_id list"
  wire_anchor :: "node_id option"

definition index_insert :: "node_id \<Rightarrow> node_id list \<times> node_id fset \<Rightarrow> node_id list \<times> node_id fset" where
  \<comment> \<open>\<open>if index.insert(id) { items.push(id); }\<close>\<close>
  "index_insert i st = (if i |\<in>| snd st then st else (fst st @ [i], finsert i (snd st)))"

definition selection_of_wire :: "selection_wire \<Rightarrow> selection" where
  "selection_of_wire w =
     (let st = fold index_insert (wire_items w) ([], {||})
      in \<lparr>sel_items = fst st, sel_index = snd st, sel_anchor = wire_anchor w\<rparr>)"

definition wire_of_selection :: "selection \<Rightarrow> selection_wire" where
  "wire_of_selection s = \<lparr>wire_items = sel_items s, wire_anchor = sel_anchor s\<rparr>"

definition selection_eq :: "selection \<Rightarrow> selection \<Rightarrow> bool" where
  "selection_eq s t \<longleftrightarrow> sel_items s = sel_items t \<and> sel_anchor s = sel_anchor t"

definition selection_new :: selection where
  "selection_new = \<lparr>sel_items = [], sel_index = {||}, sel_anchor = None\<rparr>"

definition selection_contains :: "selection \<Rightarrow> node_id \<Rightarrow> bool" where
  "selection_contains s i \<longleftrightarrow> i |\<in>| sel_index s"

definition selection_clear :: "selection \<Rightarrow> selection" where
  "selection_clear s = s\<lparr>sel_items := [], sel_index := {||}, sel_anchor := None\<rparr>"

definition select_only :: "node_id \<Rightarrow> selection \<Rightarrow> selection" where
  "select_only i s = s\<lparr>sel_items := [i], sel_index := {|i|}, sel_anchor := Some i\<rparr>"

definition selection_add :: "node_id \<Rightarrow> selection \<Rightarrow> selection" where
  "selection_add i s =
     (let st = index_insert i (sel_items s, sel_index s)
      in s\<lparr>sel_items := fst st, sel_index := snd st, sel_anchor := Some i\<rparr>)"

definition selection_remove :: "node_id \<Rightarrow> selection \<Rightarrow> selection" where
  "selection_remove i s =
     (let present = i |\<in>| sel_index s;
          s1 = s\<lparr>sel_index := sel_index s |-| {|i|}\<rparr>;
          s2 = (if present
                then (case list_position (\<lambda>x. x = i) (sel_items s1) of
                        Some pos \<Rightarrow> s1\<lparr>sel_items := vec_remove pos (sel_items s1)\<rparr>
                      | None \<Rightarrow> s1)
                else s1)
      in if sel_anchor s2 = Some i then s2\<lparr>sel_anchor := last_opt (sel_items s2)\<rparr> else s2)"

definition selection_toggle :: "node_id \<Rightarrow> selection \<Rightarrow> selection" where
  "selection_toggle i s = (if selection_contains s i then selection_remove i s else selection_add i s)"

definition replace_with :: "node_id list \<Rightarrow> selection \<Rightarrow> selection" where
  "replace_with is s =
     (let st = fold index_insert is ([], {||})
      in s\<lparr>sel_items := fst st, sel_index := snd st, sel_anchor := last_opt (fst st)\<rparr>)"

section \<open>The invariant\<close>

definition selection_ok :: "selection \<Rightarrow> bool" where
  "selection_ok s \<longleftrightarrow> distinct (sel_items s) \<and> fset_of_list (sel_items s) = sel_index s"

definition anchor_ok :: "selection \<Rightarrow> bool" where
  \<comment> \<open>the anchor, if there is one, is selected\<close>
  "anchor_ok s \<longleftrightarrow> (case sel_anchor s of None \<Rightarrow> True | Some i \<Rightarrow> i \<in> set (sel_items s))"

lemma index_insert_ok:
  "distinct (fst st) \<and> fset_of_list (fst st) = snd st \<Longrightarrow>
     distinct (fst (index_insert i st)) \<and> fset_of_list (fst (index_insert i st)) = snd (index_insert i st)"
  by (cases st) (auto simp: index_insert_def fset_of_list_elem)

lemma index_insert_set:
  "fset_of_list (fst st) = snd st \<Longrightarrow> set (fst (index_insert i st)) = insert i (set (fst st))"
  by (cases st) (auto simp: index_insert_def fset_of_list_elem)

lemma fold_index_insert_ok:
  "distinct (fst st) \<and> fset_of_list (fst st) = snd st \<Longrightarrow>
     distinct (fst (fold index_insert is st)) \<and>
     fset_of_list (fst (fold index_insert is st)) = snd (fold index_insert is st) \<and>
     set (fst (fold index_insert is st)) = set (fst st) \<union> set is"
proof (induction "is" arbitrary: st)
  case (Cons i "is")
  from Cons.IH[OF index_insert_ok[OF Cons.prems, of i]] index_insert_set[of st i] Cons.prems show ?case by auto
qed simp

lemma fold_index_insert_distinct:
  "distinct (xs @ is) \<Longrightarrow> fold index_insert is (xs, fset_of_list xs) = (xs @ is, fset_of_list (xs @ is))"
proof (induction "is" arbitrary: xs)
  case (Cons i "is")
  from Cons.prems have "index_insert i (xs, fset_of_list xs) = (xs @ [i], fset_of_list (xs @ [i]))"
    by (auto simp: index_insert_def fset_of_list_elem)
  with Cons.IH[of "xs @ [i]"] Cons.prems show ?case by simp
qed simp

lemma selection_ok_set: "selection_ok s \<Longrightarrow> selection_contains s i \<longleftrightarrow> i \<in> set (sel_items s)"
  unfolding selection_ok_def selection_contains_def by (metis fset_of_list_elem)

lemma selection_add_ok: "selection_ok s \<Longrightarrow> selection_ok (selection_add i s) \<and> anchor_ok (selection_add i s)"
  using index_insert_ok[of "(sel_items s, sel_index s)" i] index_insert_set[of "(sel_items s, sel_index s)" i]
  by (simp add: selection_ok_def anchor_ok_def selection_add_def Let_def)

lemma selection_remove_items:
  assumes "selection_ok s"
  shows "sel_items (selection_remove i s) = filter (\<lambda>x. x \<noteq> i) (sel_items s)"
proof (cases "i |\<in>| sel_index s")
  case True
  then have "i \<in> set (sel_items s)" using selection_ok_set[OF assms] by (simp add: selection_contains_def)
  then obtain pos where "list_position (\<lambda>x. x = i) (sel_items s) = Some pos"
    by (cases "list_position (\<lambda>x. x = i) (sel_items s)") auto
  with True assms show ?thesis
    by (simp add: selection_remove_def selection_ok_def Let_def vec_remove_position)
next
  case False
  then have "i \<notin> set (sel_items s)" using selection_ok_set[OF assms] by (simp add: selection_contains_def)
  then have "filter (\<lambda>x. x \<noteq> i) (sel_items s) = sel_items s" by (simp add: filter_id_conv) blast
  with False show ?thesis by (simp add: selection_remove_def Let_def)
qed

lemma fset_of_list_without: "fset_of_list (filter (\<lambda>x. x \<noteq> i) xs) = fset_of_list xs |-| {|i|}"
  by (rule fset_eqI) (auto simp: fset_of_list_elem)

lemma selection_remove_ok:
  assumes "selection_ok s"
  shows "selection_ok (selection_remove i s)" and "anchor_ok s \<Longrightarrow> anchor_ok (selection_remove i s)"
proof -
  let ?t = "selection_remove i s"
  have idx: "sel_index ?t = sel_index s |-| {|i|}"
    by (simp add: selection_remove_def Let_def split: option.split)
  have anchor: "sel_anchor ?t = (if sel_anchor s = Some i then last_opt (sel_items ?t) else sel_anchor s)"
    by (simp add: selection_remove_def Let_def split: option.split)
  have "fset_of_list (filter (\<lambda>x. x \<noteq> i) (sel_items s)) = sel_index s |-| {|i|}"
    using assms fset_of_list_without[of i "sel_items s"] by (simp add: selection_ok_def)
  with assms show "selection_ok ?t" by (simp add: selection_ok_def selection_remove_items idx)
  show "anchor_ok ?t" if "anchor_ok s"
  proof (cases "sel_anchor s = Some i")
    case True
    then show ?thesis by (simp add: anchor_ok_def anchor last_opt_def)
  next
    case False
    with that show ?thesis
      by (cases "sel_anchor s") (auto simp: anchor_ok_def anchor selection_remove_items[OF assms])
  qed
qed

lemma replace_with_ok: "selection_ok (replace_with is s)" "anchor_ok (replace_with is s)"
proof -
  show "selection_ok (replace_with is s)"
    using fold_index_insert_ok[of "([], {||})" "is"] by (simp add: selection_ok_def replace_with_def Let_def)
  show "anchor_ok (replace_with is s)" by (simp add: anchor_ok_def replace_with_def last_opt_def Let_def)
qed

section \<open>Properties\<close>

datatype selection_call =
    Sel_Clear
  | Sel_Only node_id
  | Sel_Add node_id
  | Sel_Remove node_id
  | Sel_Toggle node_id
  | Sel_Replace "node_id list"

fun run_selection_call :: "selection_call \<Rightarrow> selection \<Rightarrow> selection" where
  "run_selection_call Sel_Clear s = selection_clear s"
| "run_selection_call (Sel_Only i) s = select_only i s"
| "run_selection_call (Sel_Add i) s = selection_add i s"
| "run_selection_call (Sel_Remove i) s = selection_remove i s"
| "run_selection_call (Sel_Toggle i) s = selection_toggle i s"
| "run_selection_call (Sel_Replace is) s = replace_with is s"

lemma selection_call_ok:
  assumes "selection_ok s" "anchor_ok s"
  shows "selection_ok (run_selection_call k s) \<and> anchor_ok (run_selection_call k s)"
  using assms
  by (cases k) (auto simp: selection_add_ok selection_remove_ok replace_with_ok selection_toggle_def
      selection_clear_def select_only_def selection_ok_def[of "_\<lparr>sel_items := _, sel_index := _, sel_anchor := _\<rparr>"]
      anchor_ok_def[of "_\<lparr>sel_items := _, sel_index := _, sel_anchor := _\<rparr>"])

text \<open>
  Through any sequence of selection calls the list has no duplicates, the shadow set holds exactly
  the listed ids, so that the constant-time membership test is right, and the anchor is a selected
  node.
\<close>

theorem selection_lockstep:
  "let s = fold run_selection_call ks selection_new
   in distinct (sel_items s) \<and> (\<forall>i. selection_contains s i = (i \<in> set (sel_items s))) \<and> anchor_ok s"
proof -
  have "selection_ok (fold run_selection_call ks s) \<and> anchor_ok (fold run_selection_call ks s)"
    if "selection_ok s" "anchor_ok s" for s
    using that by (induction ks arbitrary: s) (auto simp: selection_call_ok)
  moreover have "selection_ok selection_new" "anchor_ok selection_new"
    by (simp_all add: selection_ok_def anchor_ok_def selection_new_def)
  ultimately show ?thesis by (auto simp: Let_def selection_ok_set) (auto simp: selection_ok_def)
qed

text \<open>
  Saving and reopening a selection gives the same selection back, shadow set included; and a saved
  file with duplicates, which this code never writes, still opens to a well-formed selection of the
  same nodes.
\<close>

theorem selection_wire_roundtrip:
  "(selection_ok s \<longrightarrow> selection_of_wire (wire_of_selection s) = s) \<and>
   selection_ok (selection_of_wire w) \<and> set (sel_items (selection_of_wire w)) = set (wire_items w)"
proof -
  have "selection_of_wire (wire_of_selection s) = s" if "selection_ok s"
    using that fold_index_insert_distinct[of "[]" "sel_items s"]
    by (simp add: selection_of_wire_def wire_of_selection_def selection_ok_def Let_def)
  then show ?thesis
    using fold_index_insert_ok[of "([], {||})" "wire_items w"]
    by (simp add: selection_of_wire_def selection_ok_def Let_def)
qed

theorem selection_wire_roundtrip_witness:
  "selection_of_wire (wire_of_selection (select_only (Id 3) selection_new)) = select_only (Id 3) selection_new"
  using selection_wire_roundtrip[of "select_only (Id 3) selection_new" "wire_of_selection selection_new"]
  by (simp add: selection_ok_def select_only_def)

text \<open>
  Toggling twice restores which nodes are selected.
\<close>

theorem selection_toggle_twice:
  assumes "selection_ok s"
  shows "set (sel_items (selection_toggle i (selection_toggle i s))) = set (sel_items s)"
proof (cases "selection_contains s i")
  case True
  have ok: "selection_ok (selection_remove i s)" using assms by (rule selection_remove_ok)
  then have "\<not> selection_contains (selection_remove i s) i"
    by (simp add: selection_ok_set selection_remove_items[OF assms])
  with True ok assms show ?thesis
    by (auto simp: selection_toggle_def selection_add_def index_insert_def Let_def selection_contains_def
        selection_remove_items selection_ok_set[OF assms, unfolded selection_contains_def])
next
  case False
  have ok: "selection_ok (selection_add i s)" using assms by (simp add: selection_add_ok)
  have items: "sel_items (selection_add i s) = sel_items s @ [i]"
    using False by (simp add: selection_add_def index_insert_def Let_def selection_contains_def)
  then have "selection_contains (selection_add i s) i" using ok by (simp add: selection_ok_set)
  moreover have "i \<notin> set (sel_items s)" using False assms by (simp add: selection_ok_set)
  ultimately show ?thesis
    using False by (auto simp: selection_toggle_def selection_remove_items[OF ok] items)
qed

theorem selection_toggle_twice_witness:
  "set (sel_items (selection_toggle (Id 3) (selection_toggle (Id 3) selection_new))) = set (sel_items selection_new)"
  by (rule selection_toggle_twice) (simp add: selection_ok_def selection_new_def)

end
