(* ===== verification/VarResolve.thy ===== *)
theory VarResolve
  imports SampleScene RegistryTypes
begin

text \<open>
  Variable and mode resolution, \<open>crates/fanta-doc/src/resolve/variables.rs\<close>: the mode in force for a
  collection at a node, and the chase of a variable through aliases to a concrete value. The chase
  terminates because every turn adds a registered variable to the visited list. It is compared with
  the chain of aliases it follows, and shown to respect the declared types.
\<close>

section \<open>The mode in force\<close>

definition pinned_mode :: "variable_collection \<Rightarrow> canvas_node \<Rightarrow> mode_id option" where
  "pinned_mode coll n =
     (case cn_data n of
        NodeData_Group g \<Rightarrow>
          (case fmlookup (gn_explicit_modes g) (vcoll_id coll) of
             Some m \<Rightarrow> if has_mode coll m then Some m else None
           | None \<Rightarrow> None)
      | _ \<Rightarrow> None)"

fun first_pin :: "variable_collection \<Rightarrow> canvas_node list \<Rightarrow> mode_id option" where
  \<comment> \<open>the loop over the ancestors\<close>
  "first_pin coll [] = None"
| "first_pin coll (n # ns) = (case pinned_mode coll n of Some m \<Rightarrow> Some m | None \<Rightarrow> first_pin coll ns)"

definition resolve_effective_mode ::
  "scene \<Rightarrow> node_id \<Rightarrow> variable_collection \<Rightarrow> (variable_collection_id, mode_id) fmap \<Rightarrow> mode_id" where
  "resolve_effective_mode s i coll active =
     (case Option.bind (scene_get s i) (pinned_mode coll) of
        Some m \<Rightarrow> m
      | None \<Rightarrow>
          (case first_pin coll (ancestors_of s i) of
             Some m \<Rightarrow> m
           | None \<Rightarrow>
               (case fmlookup active (vcoll_id coll) of
                  Some m \<Rightarrow> if has_mode coll m then m else vcoll_default_mode coll
                | None \<Rightarrow> vcoll_default_mode coll)))"

section \<open>The chase\<close>

definition effective_value ::
  "variable_registry \<Rightarrow> scene \<Rightarrow> node_id \<Rightarrow> (variable_collection_id, mode_id) fmap \<Rightarrow> variable_id \<Rightarrow> var_value option" where
  \<comment> \<open>the middle of \<open>resolve_var\<close>: the variable's own value in the mode in force, before aliases\<close>
  "effective_value reg s i active v =
     (case vreg_variable reg v of
        None \<Rightarrow> None
      | Some x \<Rightarrow>
          (case fmlookup (vreg_collections reg) (var_collection x) of
             None \<Rightarrow> None
           | Some coll \<Rightarrow>
               (if vcoll_modes coll = [] then None
                else
                  (case value_for_mode x (resolve_effective_mode s i coll active) of
                     Some y \<Rightarrow> Some y
                   | None \<Rightarrow> value_for_mode x (vcoll_default_mode coll)))))"

lemma effective_value_known: "effective_value reg s i active v = Some y \<Longrightarrow> v |\<in>| fmdom (vreg_variables reg)"
  by (auto simp: effective_value_def vreg_variable_def intro: fmdomI split: option.splits)

function resolve_var ::
  "variable_registry \<Rightarrow> scene \<Rightarrow> node_id \<Rightarrow> (variable_collection_id, mode_id) fmap \<Rightarrow> variable_id \<Rightarrow>
     variable_id list \<Rightarrow> resolved_var_value option" where
  "resolve_var reg s i active v visited =
     (if v \<in> set visited then None
      else
        (case effective_value reg s i active v of
           None \<Rightarrow> None
         | Some (VarValue_Alias w) \<Rightarrow> resolve_var reg s i active w (visited @ [v])
         | Some y \<Rightarrow> as_resolved y))"
  by pat_completeness auto

termination
proof (relation "measure (\<lambda>(reg, s, i, active, v, visited).
    fcard (fmdom (vreg_variables reg) |-| fset_of_list visited))", goal_cases)
  case (2 reg s i active v visited y w)
  have "v |\<in>| fmdom (vreg_variables reg)" using 2 effective_value_known by blast
  moreover have "v |\<notin>| fset_of_list visited" using 2(1) by (simp add: fset_of_list_elem)
  ultimately have "v |\<in>| fmdom (vreg_variables reg) |-| fset_of_list visited" by simp
  then have "fcard ((fmdom (vreg_variables reg) |-| fset_of_list visited) |-| {|v|}) <
      fcard (fmdom (vreg_variables reg) |-| fset_of_list visited)"
    by (rule fcard_fminus1_less)
  moreover have "fmdom (vreg_variables reg) |-| fset_of_list (visited @ [v]) =
      (fmdom (vreg_variables reg) |-| fset_of_list visited) |-| {|v|}"
    by (rule fset_eqI) (auto simp: fset_of_list_elem)
  ultimately show ?case by (simp only: in_measure case_prod_conv)
qed simp

declare resolve_var.simps [simp del]

definition resolve_bound_value ::
  "variable_registry \<Rightarrow> scene \<Rightarrow> node_id \<Rightarrow> (variable_collection_id, mode_id) fmap \<Rightarrow> variable_id \<Rightarrow>
     resolved_var_value option" where
  "resolve_bound_value reg s i active v = resolve_var reg s i active v []"

section \<open>Alias chains\<close>

inductive alias_step ::
  "variable_registry \<Rightarrow> scene \<Rightarrow> node_id \<Rightarrow> (variable_collection_id, mode_id) fmap \<Rightarrow> variable_id \<Rightarrow> variable_id \<Rightarrow> bool"
  for reg s i active where
  "effective_value reg s i active v = Some (VarValue_Alias w) \<Longrightarrow> alias_step reg s i active v w"

inductive_simps alias_step_iff: "alias_step reg s i active v w"

lemma resolve_var_step:
  "v \<notin> set visited \<Longrightarrow> alias_step reg s i active v w \<Longrightarrow>
     resolve_var reg s i active v visited = resolve_var reg s i active w (visited @ [v])"
  by (simp add: resolve_var.simps[of reg s i active v] alias_step_iff)

lemma resolve_var_stop:
  "v \<notin> set visited \<Longrightarrow> effective_value reg s i active v = Some (to_var_value r) \<Longrightarrow>
     resolve_var reg s i active v visited = Some r"
  by (cases r) (simp_all add: resolve_var.simps[of reg s i active v])

lemma resolve_var_sound:
  "resolve_var reg s i active v visited = Some r \<Longrightarrow>
     \<exists>w. (alias_step reg s i active)\<^sup>*\<^sup>* v w \<and> effective_value reg s i active w = Some (to_var_value r)"
proof (induction reg s i active v visited rule: resolve_var.induct)
  case (1 reg s i active v visited)
  from "1.prems" have v: "v \<notin> set visited" by (auto simp: resolve_var.simps[of reg s i active v] split: if_splits)
  show ?case
  proof (cases "effective_value reg s i active v")
    case None
    with "1.prems" v show ?thesis by (simp add: resolve_var.simps[of reg s i active v])
  next
    case (Some y)
    show ?thesis
    proof (cases "\<exists>w. y = VarValue_Alias w")
      case True
      then obtain w where w: "y = VarValue_Alias w" by blast
      have step: "alias_step reg s i active v w" using Some w by (simp add: alias_step_iff)
      have "resolve_var reg s i active w (visited @ [v]) = Some r"
        using "1.prems" resolve_var_step[OF v step] by simp
      from "1.IH"[OF v Some w this] step show ?thesis by (blast intro: converse_rtranclp_into_rtranclp)
    next
      case False
      then have "as_resolved y = Some r"
        using "1.prems" v Some by (cases y) (simp_all add: resolve_var.simps[of reg s i active v])
      with Some show ?thesis by (auto simp: as_resolved_Some)
    qed
  qed
qed

lemma alias_step_functional: "alias_step reg s i active v w \<Longrightarrow> alias_step reg s i active v u \<Longrightarrow> w = u"
  by (simp add: alias_step_iff)

lemma concrete_no_step:
  "effective_value reg s i active v = Some (to_var_value r) \<Longrightarrow> \<not> alias_step reg s i active v w"
  by (cases r) (simp_all add: alias_step_iff)

lemma ending_chain_acyclic:
  assumes "(alias_step reg s i active)\<^sup>*\<^sup>* v w" "effective_value reg s i active w = Some (to_var_value r)"
  shows "\<not> (alias_step reg s i active)\<^sup>+\<^sup>+ v v"
  using assms
proof (induction rule: converse_rtranclp_induct)
  case base
  then show ?case by (blast dest: tranclpD concrete_no_step)
next
  case (step v u)
  show ?case
  proof
    assume "(alias_step reg s i active)\<^sup>+\<^sup>+ v v"
    then have "(alias_step reg s i active)\<^sup>*\<^sup>* u v"
      using step.hyps(1) by (blast dest: tranclpD alias_step_functional)
    from this step.hyps(1) have "(alias_step reg s i active)\<^sup>+\<^sup>+ u u" by (rule rtranclp_into_tranclp1)
    with step show False by blast
  qed
qed

lemma resolve_var_complete:
  assumes "(alias_step reg s i active)\<^sup>*\<^sup>* v w" "effective_value reg s i active w = Some (to_var_value r)"
    and "\<forall>u \<in> set visited. (alias_step reg s i active)\<^sup>+\<^sup>+ u v"
  shows "resolve_var reg s i active v visited = Some r"
  using assms
proof (induction arbitrary: visited rule: converse_rtranclp_induct)
  case base
  then have "w \<notin> set visited" using ending_chain_acyclic[OF rtranclp.rtrancl_refl base(1)] by blast
  with base show ?case by (simp add: resolve_var_stop)
next
  case (step v u)
  have chain: "(alias_step reg s i active)\<^sup>*\<^sup>* v w" using step.hyps by (rule converse_rtranclp_into_rtranclp)
  have v: "v \<notin> set visited" using ending_chain_acyclic[OF chain step.prems(1)] step.prems(2) by blast
  have "\<forall>x \<in> set (visited @ [v]). (alias_step reg s i active)\<^sup>+\<^sup>+ x u"
    using step.prems(2) step.hyps(1) by (auto intro: tranclp.trancl_into_trancl)
  from step.IH[OF step.prems(1) this] resolve_var_step[OF v step.hyps(1)] show ?case by simp
qed

section \<open>Declared types\<close>

definition value_typed :: "variable_registry \<Rightarrow> variable_type \<Rightarrow> var_value \<Rightarrow> bool" where
  \<comment> \<open>a concrete value of the type, or an alias to a variable of the type\<close>
  "value_typed reg ty y =
     (case y of
        VarValue_Alias w \<Rightarrow> (case vreg_variable reg w of None \<Rightarrow> True | Some z \<Rightarrow> var_ty z = ty)
      | _ \<Rightarrow> var_value_variable_type y = Some ty)"

definition registry_typed :: "variable_registry \<Rightarrow> bool" where
  "registry_typed reg =
     list_all (\<lambda>x. list_all (value_typed reg (var_ty x)) (fm_values (var_values_by_mode x)))
       (fm_values (vreg_variables reg))"

lemma effective_value_typed:
  assumes "registry_typed reg" "effective_value reg s i active v = Some y" "vreg_variable reg v = Some x"
  shows "value_typed reg (var_ty x) y"
proof -
  from assms(2,3) have "\<exists>m. fmlookup (var_values_by_mode x) m = Some y"
    by (auto simp: effective_value_def value_for_mode_def split: option.splits if_splits)
  then have "y \<in> set (fm_values (var_values_by_mode x))" by (simp add: fm_values_set)
  moreover have "x \<in> set (fm_values (vreg_variables reg))"
    using assms(3) by (auto simp: fm_values_set vreg_variable_def)
  ultimately show ?thesis using assms(1) by (auto simp: registry_typed_def list_all_iff)
qed

lemma alias_step_typed:
  "registry_typed reg \<Longrightarrow> alias_step reg s i active v w \<Longrightarrow> vreg_variable reg v = Some x \<Longrightarrow>
     vreg_variable reg w = Some z \<Longrightarrow> var_ty z = var_ty x"
  using effective_value_typed[of reg s i active v "VarValue_Alias w" x]
  by (simp add: alias_step_iff value_typed_def)

lemma chain_typed:
  assumes "(alias_step reg s i active)\<^sup>*\<^sup>* v w" "registry_typed reg" "vreg_variable reg v = Some x"
    "effective_value reg s i active w = Some y"
  shows "value_typed reg (var_ty x) y"
  using assms
proof (induction arbitrary: x rule: converse_rtranclp_induct)
  case base
  then show ?case by (blast intro: effective_value_typed)
next
  case (step v u)
  from step.hyps(2) step.prems(3) have "\<exists>z. vreg_variable reg u = Some z"
    by (cases rule: converse_rtranclpE) (auto simp: alias_step_iff effective_value_def split: option.splits)
  then obtain z where z: "vreg_variable reg u = Some z" by blast
  from step.IH[OF step.prems(1) z step.prems(3)] alias_step_typed[OF step.prems(1) step.hyps(1) step.prems(2) z]
  show ?case by simp
qed

section \<open>A sample registry\<close>

text \<open>Two string variables in one collection: \<open>b\<close> holds a text, \<open>a\<close> is an alias of \<open>b\<close>.\<close>

definition sample_collection :: variable_collection where
  "sample_collection =
     \<lparr>vcoll_id = Id 1, vcoll_name = ''Theme'', vcoll_modes = [\<lparr>mode_id = Id 1, mode_name = ''Light''\<rparr>],
      vcoll_default_mode = Id 1, vcoll_variable_order = [Id 1, Id 2]\<rparr>"

definition sample_variable :: "128 word \<Rightarrow> var_value \<Rightarrow> variable" where
  "sample_variable k y =
     \<lparr>var_id = Id k, var_collection = Id 1, var_name = ''v'', var_ty = VariableType_String,
      var_values_by_mode = fmupd (Id 1) y fmempty, var_scopes = [], var_options = []\<rparr>"

definition sample_registry :: variable_registry where
  "sample_registry =
     \<lparr>vreg_collections = fmupd (Id 1) sample_collection fmempty,
      vreg_variables = fmupd (Id 1) (sample_variable 1 (VarValue_Alias (Id 2)))
        (fmupd (Id 2) (sample_variable 2 (VarValue_String ''hi'')) fmempty)\<rparr>"

lemma sample_values:
  "effective_value sample_registry sample_scene (Id 0) fmempty (Id 1) = Some (VarValue_Alias (Id 2))"
  "effective_value sample_registry sample_scene (Id 0) fmempty (Id 2) = Some (VarValue_String ''hi'')"
  by (simp_all add: effective_value_def vreg_variable_def sample_registry_def sample_variable_def
      sample_collection_def value_for_mode_def split: option.split)

lemma sample_registry_typed: "registry_typed sample_registry"
  by (auto simp: registry_typed_def list_all_iff fm_values_set sample_registry_def sample_variable_def
      value_typed_def vreg_variable_def split: if_splits)

lemma sample_resolves:
  "resolve_bound_value sample_registry sample_scene (Id 0) fmempty (Id 1) = Some (ResolvedVarValue_String ''hi'')"
  by (simp add: resolve_bound_value_def resolve_var.simps sample_values)

section \<open>Properties\<close>

text \<open>
  C26. Resolving a variable, with its visited list as cycle guard, gives a value exactly when the chain
  of aliases from it, each read in the mode in force for its own collection, reaches a variable
  whose value is concrete, and then gives that value. It is total: a cycle or a dangling end gives
  no value.
\<close>

theorem resolve_bound_value_exact:
  "resolve_bound_value reg s i active v = Some r \<longleftrightarrow>
     (\<exists>w. (alias_step reg s i active)\<^sup>*\<^sup>* v w \<and> effective_value reg s i active w = Some (to_var_value r))"
  using resolve_var_sound[of reg s i active v "[]" r] resolve_var_complete[of reg s i active v _ r "[]"]
  by (auto simp: resolve_bound_value_def)

text \<open>
  C27. Types: in a registry whose values have their variable's declared type, aliases included, a
  variable only ever resolves to a value of its declared type, at every node and in every mode.
\<close>

theorem resolve_bound_value_typed:
  assumes "registry_typed reg" and "vreg_variable reg v = Some x"
    and "resolve_bound_value reg s i active v = Some r"
  shows "resolved_variable_type r = var_ty x"
proof -
  obtain w where "(alias_step reg s i active)\<^sup>*\<^sup>* v w" "effective_value reg s i active w = Some (to_var_value r)"
    using resolve_var_sound[of reg s i active v "[]" r] assms(3) by (auto simp: resolve_bound_value_def)
  from chain_typed[OF this(1) assms(1,2) this(2)] show ?thesis
    by (cases r) (simp_all add: value_typed_def)
qed

theorem resolve_bound_value_typed_witness:
  "resolved_variable_type (ResolvedVarValue_String ''hi'') = var_ty (sample_variable 1 (VarValue_Alias (Id 2)))"
  by (rule resolve_bound_value_typed[OF sample_registry_typed _ sample_resolves])
    (simp add: vreg_variable_def sample_registry_def)

text \<open>
  The mode in force is the one pinned by the nearest node on the way up, the node itself first; a
  pinned or active mode that the collection no longer has is skipped, so that as long as the default
  mode is one of the collection's, the mode in force is too.
\<close>

theorem effective_mode_nearest:
  assumes "has_mode coll (vcoll_default_mode coll)"
  shows "has_mode coll (resolve_effective_mode s i coll active) \<and>
    (\<forall>before n after m. scene_get s i = Some h \<longrightarrow> h # ancestors_of s i = before @ n # after \<longrightarrow>
       (\<forall>b \<in> set before. pinned_mode coll b = None) \<longrightarrow> pinned_mode coll n = Some m \<longrightarrow>
       resolve_effective_mode s i coll active = m)"
proof
  have pin: "has_mode coll m" if "pinned_mode coll n = Some m" for n m
    using that by (auto simp: pinned_mode_def split: node_data.splits option.splits if_splits)
  have first: "has_mode coll m" if "first_pin coll ns = Some m" for ns m
    using that pin by (induction ns) (auto split: option.splits)
  show "has_mode coll (resolve_effective_mode s i coll active)"
    using assms pin first by (auto simp: resolve_effective_mode_def bind_eq_Some_conv split: option.splits)
next
  have skip: "first_pin coll (before @ n # after) = Some m"
    if "\<forall>b \<in> set before. pinned_mode coll b = None" "pinned_mode coll n = Some m" for before n after m
    using that by (induction before) auto
  have self: "resolve_effective_mode s i coll active = m"
    if "scene_get s i = Some h" "first_pin coll (h # ancestors_of s i) = Some m" for m
    using that by (auto simp: resolve_effective_mode_def split: option.splits)
  show "\<forall>before n after m. scene_get s i = Some h \<longrightarrow> h # ancestors_of s i = before @ n # after \<longrightarrow>
      (\<forall>b \<in> set before. pinned_mode coll b = None) \<longrightarrow> pinned_mode coll n = Some m \<longrightarrow>
      resolve_effective_mode s i coll active = m"
    using skip self by metis
qed

theorem effective_mode_nearest_witness:
  "has_mode sample_collection (resolve_effective_mode sample_scene (Id 4) sample_collection (fmupd (Id 1) (Id 9) fmempty))"
  using effective_mode_nearest[of sample_collection sample_scene "Id 4" "fmupd (Id 1) (Id 9) fmempty"]
  by (simp add: sample_collection_def has_mode_def)

end
