(* ===== verification/Floats.thy ===== *)
theory Floats
  imports DesignTypes
begin

text \<open>
  The binary32 side of the floats the document stores, on bit patterns as in \<open>IndexKeys\<close>: the casts
  \<open>as f32\<close> and \<open>f64::from\<close>, and \<open>UnitInterval::new\<close> of \<open>crates/fanta-doc/src/style.rs\<close>, which keeps
  every opacity within \<open>0.0..=1.0\<close>.
\<close>

section \<open>binary32 on bit patterns\<close>

definition f32_neg :: "f32 \<Rightarrow> bool" where
  "f32_neg w = bit w 31"

definition f32_bits :: "f32 \<Rightarrow> nat" where
  "f32_bits w = unat w mod 2 ^ 31"

definition f32_pack :: "bool \<Rightarrow> nat \<Rightarrow> f32" where
  "f32_pack s b = (if s then word_of_nat (2 ^ 31 + b) else word_of_nat b)"

definition inf32_bits :: nat where
  "inf32_bits = 255 * 2 ^ 23"

definition one32_bits :: nat where
  "one32_bits = 127 * 2 ^ 23"

definition f32_is_nan :: "f32 \<Rightarrow> bool" where
  "f32_is_nan w \<longleftrightarrow> inf32_bits < f32_bits w"

definition f32_nan :: f32 where
  "f32_nan = f32_pack False (inf32_bits + 2 ^ 22)"

definition round32_bits :: "nat \<Rightarrow> nat" where
  \<comment> \<open>field pattern of \<open>n\<close> units of \<open>2^-1074\<close>; a unit of \<open>2^-149\<close>, the least binary32, is \<open>2^925\<close> of them\<close>
  "round32_bits n =
     (let s = max 925 (bit_length n - 24) in min inf32_bits ((s - 925) * 2 ^ 23 + half_even s n))"

definition f64_as_f32 :: "f64 \<Rightarrow> f32" where
  \<comment> \<open>\<open>value as f32\<close>\<close>
  "f64_as_f32 w =
     (if f64_is_nan w then f32_nan
      else if \<not> f64_is_finite w then f32_pack (f64_neg w) inf32_bits
      else f32_pack (f64_neg w) (round32_bits (mag_of_bits (f64_bits w))))"

definition mag_of_bits32 :: "nat \<Rightarrow> nat" where
  "mag_of_bits32 b = (if b < 2 ^ 23 then b else (2 ^ 23 + b mod 2 ^ 23) * 2 ^ (b div 2 ^ 23 - 1))"

definition f64_from_f32 :: "f32 \<Rightarrow> f64" where
  \<comment> \<open>\<open>f64::from\<close>, which is exact\<close>
  "f64_from_f32 w =
     (if f32_is_nan w then f64_nan
      else if f32_bits w = inf32_bits then f64_pack (f32_neg w) inf_bits
      else f64_pack (f32_neg w) (round_bits 0 (mag_of_bits32 (f32_bits w) * 2 ^ 925)))"

section \<open>UnitInterval\<close>

definition f32_clamp_unit :: "f32 \<Rightarrow> f32" where
  \<comment> \<open>\<open>v.clamp(0.0, 1.0)\<close>, two comparisons; \<open>-0.0 < 0.0\<close> is false\<close>
  "f32_clamp_unit v =
     (let v1 = (if f32_neg v \<and> f32_bits v \<noteq> 0 then 0 else v)
      in if \<not> f32_neg v1 \<and> one32_bits < f32_bits v1 then f32_pack False one32_bits else v1)"

definition unit_interval_new :: "f32 \<Rightarrow> unit_interval" where
  "unit_interval_new v = UnitInterval (if f32_is_nan v then 0 else f32_clamp_unit v)"

definition unit_interval_get :: "unit_interval \<Rightarrow> f32" where
  "unit_interval_get u = (case u of UnitInterval v \<Rightarrow> v)"

definition within_unit :: "f32 \<Rightarrow> bool" where
  \<comment> \<open>zero of either sign, or a positive value up to one\<close>
  "within_unit v \<longleftrightarrow> f32_bits v = 0 \<or> (\<not> f32_neg v \<and> f32_bits v \<le> one32_bits)"

lemma f32_zero [simp]: "f32_bits 0 = 0" "\<not> f32_neg 0"
  by (simp_all add: f32_bits_def f32_neg_def)

lemma f32_one: "f32_bits (f32_pack False one32_bits) = one32_bits" "\<not> f32_neg (f32_pack False one32_bits)"
  by (simp_all add: f32_bits_def f32_neg_def f32_pack_def one32_bits_def)

lemma unit_interval_within: "within_unit (unit_interval_get (unit_interval_new v))"
  by (auto simp: unit_interval_new_def unit_interval_get_def f32_clamp_unit_def within_unit_def f32_one Let_def)

end
