(* ===== verification/Binding.thy ===== *)
theory Binding
  imports Floats NodeTypes
begin

text \<open>
  Property addresses, \<open>crates/fanta-doc/src/binding.rs\<close>: which property a \<open>BoundProp\<close> names on a node,
  the type it takes, reading it as a typed value and writing a resolved value into it. Variable
  substitution, instance overrides and motion all write nodes through \<open>apply_resolved\<close>. A mutable
  slot of the source is an update function here; the JSON probe \<open>read_literal\<close> is not modelled.
\<close>

unbundle bit_operations_syntax

section \<open>Paint slots\<close>

definition list_modify :: "nat \<Rightarrow> ('a \<Rightarrow> 'a) \<Rightarrow> 'a list \<Rightarrow> 'a list" where
  \<comment> \<open>a write through \<open>get_mut(i)\<close>\<close>
  "list_modify i f xs = (if i < length xs then xs[i := f (xs ! i)] else xs)"

definition fill_solid_color :: "fill \<Rightarrow> color option" where
  "fill_solid_color x = (case x of Fill_Solid c _ \<Rightarrow> Some c | _ \<Rightarrow> None)"

definition fill_image_asset :: "fill \<Rightarrow> asset_id option" where
  "fill_image_asset x = (case x of Fill_Image a _ _ _ _ _ _ _ \<Rightarrow> Some a | _ \<Rightarrow> None)"

definition image_adjust_default :: image_adjust where
  "image_adjust_default =
     \<lparr>image_adjust_exposure = 0, image_adjust_contrast = 0, image_adjust_saturation = 0,
      image_adjust_temperature = 0, image_adjust_tint = 0, image_adjust_highlights = 0,
      image_adjust_shadows = 0\<rparr>"

definition fill_set_image_asset :: "asset_id \<Rightarrow> fill \<Rightarrow> fill" where
  "fill_set_image_asset a x =
     (case x of
        Fill_Image _ m op crop sc rot bl adj \<Rightarrow> Fill_Image a m op crop sc rot bl adj
      | _ \<Rightarrow> Fill_Image a ImageFitMode_Fill 0x3F800000 None None None BlendMode_Normal image_adjust_default)"

definition fill_set_solid_color :: "color \<Rightarrow> fill \<Rightarrow> fill" where
  "fill_set_solid_color c x =
     (case x of Fill_Solid _ bl \<Rightarrow> Fill_Solid c bl | _ \<Rightarrow> Fill_Solid c BlendMode_Normal)"

definition fill_color :: "fill option \<Rightarrow> color option" where
  "fill_color x = Option.bind x fill_solid_color"

definition group_fill :: "group_node \<Rightarrow> nat \<Rightarrow> fill option" where
  "group_fill g i =
     (case gn_background g of
        Some b \<Rightarrow> if i = 0 then Some b else nth_opt (gn_background_fills g) (i - 1)
      | None \<Rightarrow> nth_opt (gn_background_fills g) i)"

definition group_fill_mut :: "nat \<Rightarrow> (fill \<Rightarrow> fill) \<Rightarrow> group_node \<Rightarrow> group_node" where
  "group_fill_mut i f g =
     (case gn_background g of
        Some b \<Rightarrow>
          (if i = 0 then g\<lparr>gn_background := Some (f b)\<rparr>
           else g\<lparr>gn_background_fills := list_modify (i - 1) f (gn_background_fills g)\<rparr>)
      | None \<Rightarrow> g\<lparr>gn_background_fills := list_modify i f (gn_background_fills g)\<rparr>)"

definition node_fill :: "canvas_node \<Rightarrow> nat \<Rightarrow> fill option" where
  "node_fill n i =
     (case cn_data n of
        NodeData_Vector v \<Rightarrow> nth_opt (vn_fills v) i
      | NodeData_Boolean b \<Rightarrow> nth_opt (bn_fills b) i
      | NodeData_Group g \<Rightarrow> group_fill g i
      | _ \<Rightarrow> None)"

definition fills_mut :: "nat \<Rightarrow> (fill \<Rightarrow> fill) \<Rightarrow> node_data \<Rightarrow> node_data" where
  "fills_mut i f d =
     (case d of
        NodeData_Vector v \<Rightarrow> NodeData_Vector (v\<lparr>vn_fills := list_modify i f (vn_fills v)\<rparr>)
      | NodeData_Boolean b \<Rightarrow> NodeData_Boolean (b\<lparr>bn_fills := list_modify i f (bn_fills b)\<rparr>)
      | NodeData_Group g \<Rightarrow> NodeData_Group (group_fill_mut i f g)
      | _ \<Rightarrow> d)"

definition node_fill_mut :: "nat \<Rightarrow> (fill \<Rightarrow> fill) \<Rightarrow> canvas_node \<Rightarrow> bool \<times> canvas_node" where
  \<comment> \<open>the write through \<open>node_fill_mut\<close>, and whether the slot exists\<close>
  "node_fill_mut i f n =
     (case node_fill n i of None \<Rightarrow> (False, n) | Some _ \<Rightarrow> (True, n\<lparr>cn_data := fills_mut i f (cn_data n)\<rparr>))"

section \<open>Strokes, text and clip size\<close>

definition data_strokes :: "node_data \<Rightarrow> stroke list option" where
  "data_strokes d =
     (case d of
        NodeData_Vector v \<Rightarrow> Some (vn_strokes v)
      | NodeData_Group g \<Rightarrow> Some (gn_strokes g)
      | NodeData_Boolean b \<Rightarrow> Some (bn_strokes b)
      | _ \<Rightarrow> None)"

definition data_stroke :: "node_data \<Rightarrow> nat \<Rightarrow> stroke option" where
  \<comment> \<open>\<open>strokes().and_then(|s| s.get(index))\<close>\<close>
  "data_stroke d i = Option.bind (data_strokes d) (\<lambda>ss. nth_opt ss i)"

definition strokes_mut :: "(stroke list \<Rightarrow> stroke list) \<Rightarrow> node_data \<Rightarrow> node_data" where
  "strokes_mut f d =
     (case d of
        NodeData_Vector v \<Rightarrow> NodeData_Vector (v\<lparr>vn_strokes := f (vn_strokes v)\<rparr>)
      | NodeData_Group g \<Rightarrow> NodeData_Group (g\<lparr>gn_strokes := f (gn_strokes g)\<rparr>)
      | NodeData_Boolean b \<Rightarrow> NodeData_Boolean (b\<lparr>bn_strokes := f (bn_strokes b)\<rparr>)
      | _ \<Rightarrow> d)"

definition stroke_mut :: "nat \<Rightarrow> (stroke \<Rightarrow> stroke) \<Rightarrow> canvas_node \<Rightarrow> bool \<times> canvas_node" where
  "stroke_mut i f n =
     (case data_stroke (cn_data n) i of
        None \<Rightarrow> (False, n)
      | Some _ \<Rightarrow> (True, n\<lparr>cn_data := strokes_mut (list_modify i f) (cn_data n)\<rparr>))"

definition stroke_color :: "canvas_node \<Rightarrow> nat \<Rightarrow> color option" where
  "stroke_color n i = Option.bind (data_stroke (cn_data n) i) (\<lambda>st. fill_solid_color (stroke_paint st))"

definition clip_size :: "canvas_node \<Rightarrow> (f64 \<times> f64) option" where
  "clip_size n = (case cn_data n of NodeData_Group g \<Rightarrow> gn_clip_size g | _ \<Rightarrow> None)"

definition clip_size_mut :: "(f64 \<times> f64 \<Rightarrow> f64 \<times> f64) \<Rightarrow> canvas_node \<Rightarrow> bool \<times> canvas_node" where
  "clip_size_mut f n =
     (case cn_data n of
        NodeData_Group g \<Rightarrow>
          (case gn_clip_size g of
             None \<Rightarrow> (False, n)
           | Some sz \<Rightarrow> (True, n\<lparr>cn_data := NodeData_Group (g\<lparr>gn_clip_size := Some (f sz)\<rparr>)\<rparr>))
      | _ \<Rightarrow> (False, n))"

definition runs_set_color :: "color \<Rightarrow> text_style_run list \<Rightarrow> text_style_run list" where
  "runs_set_color c = map (\<lambda>r. r\<lparr>text_style_run_style := (text_style_run_style r)\<lparr>ts_color := c\<rparr>\<rparr>)"

definition text_set_glyph_color :: "color \<Rightarrow> text_node \<Rightarrow> text_node" where
  "text_set_glyph_color c t =
     t\<lparr>tn_style := (tn_style t)\<lparr>ts_color := c\<rparr>, tn_style_runs := runs_set_color c (tn_style_runs t)\<rparr>"

definition text_path_set_glyph_color :: "color \<Rightarrow> text_path_node \<Rightarrow> text_path_node" where
  "text_path_set_glyph_color c t =
     t\<lparr>tp_style := (tp_style t)\<lparr>ts_color := c\<rparr>, tp_style_runs := runs_set_color c (tp_style_runs t)\<rparr>"

definition node_fill_color :: "canvas_node \<Rightarrow> nat \<Rightarrow> color option" where
  "node_fill_color n i =
     (case cn_data n of
        NodeData_Vector v \<Rightarrow> fill_color (nth_opt (vn_fills v) i)
      | NodeData_Boolean b \<Rightarrow> fill_color (nth_opt (bn_fills b) i)
      | NodeData_Group g \<Rightarrow> fill_color (group_fill g i)
      | NodeData_Text t \<Rightarrow> if i = 0 then Some (ts_color (tn_style t)) else None
      | NodeData_TextPath t \<Rightarrow> if i = 0 then Some (ts_color (tp_style t)) else None
      | _ \<Rightarrow> None)"

definition set_node_fill_color :: "canvas_node \<Rightarrow> nat \<Rightarrow> color \<Rightarrow> bool \<times> canvas_node" where
  "set_node_fill_color n i c =
     (case cn_data n of
        NodeData_Text t \<Rightarrow>
          if i = 0 then (True, n\<lparr>cn_data := NodeData_Text (text_set_glyph_color c t)\<rparr>) else (False, n)
      | NodeData_TextPath t \<Rightarrow>
          if i = 0 then (True, n\<lparr>cn_data := NodeData_TextPath (text_path_set_glyph_color c t)\<rparr>) else (False, n)
      | _ \<Rightarrow> node_fill_mut i (fill_set_solid_color c) n)"

section \<open>Property addresses\<close>

definition HIDDEN :: node_flags where
  "HIDDEN = 2"

definition flag_contains :: "node_flags \<Rightarrow> node_flags \<Rightarrow> bool" where
  "flag_contains fl b \<longleftrightarrow> fl AND b = b"

definition flag_set :: "node_flags \<Rightarrow> bool \<Rightarrow> node_flags \<Rightarrow> node_flags" where
  "flag_set b on fl = (if on then fl OR b else fl AND NOT b)"

fun prop_variable_type :: "bound_prop \<Rightarrow> variable_type" where
  "prop_variable_type (BoundProp_FillColor _) = VariableType_Color"
| "prop_variable_type (BoundProp_StrokeColor _) = VariableType_Color"
| "prop_variable_type (BoundProp_StrokeWidth _) = VariableType_Float"
| "prop_variable_type BoundProp_CornerRadius = VariableType_Float"
| "prop_variable_type BoundProp_Opacity = VariableType_Float"
| "prop_variable_type BoundProp_ClipWidth = VariableType_Float"
| "prop_variable_type BoundProp_ClipHeight = VariableType_Float"
| "prop_variable_type BoundProp_Visible = VariableType_Boolean"
| "prop_variable_type BoundProp_TextContent = VariableType_String"
| "prop_variable_type BoundProp_TextStyle = VariableType_Typography"
| "prop_variable_type (BoundProp_ImageFill _) = VariableType_Image"

definition accepts_variable_type :: "bound_prop \<Rightarrow> variable_type \<Rightarrow> bool" where
  "accepts_variable_type p ty \<longleftrightarrow>
     prop_variable_type p = ty \<or> (p = BoundProp_TextContent \<and> ty = VariableType_Enum)"

fun applies_to :: "bound_prop \<Rightarrow> canvas_node \<Rightarrow> bool" where
  "applies_to (BoundProp_FillColor i) n =
     (case cn_data n of
        NodeData_Vector v \<Rightarrow> nth_opt (vn_fills v) (unat i) \<noteq> None
      | NodeData_Boolean b \<Rightarrow> nth_opt (bn_fills b) (unat i) \<noteq> None
      | NodeData_Group g \<Rightarrow> group_fill g (unat i) \<noteq> None
      | NodeData_Text _ \<Rightarrow> i = 0
      | NodeData_TextPath _ \<Rightarrow> i = 0
      | _ \<Rightarrow> False)"
| "applies_to (BoundProp_StrokeColor i) n = (data_stroke (cn_data n) (unat i) \<noteq> None)"
| "applies_to (BoundProp_StrokeWidth i) n = (data_stroke (cn_data n) (unat i) \<noteq> None)"
| "applies_to BoundProp_CornerRadius n =
     (case cn_data n of NodeData_Vector _ \<Rightarrow> True | NodeData_Group _ \<Rightarrow> True | _ \<Rightarrow> False)"
| "applies_to BoundProp_Opacity n = True"
| "applies_to BoundProp_Visible n = True"
| "applies_to BoundProp_TextContent n =
     (case cn_data n of NodeData_Text _ \<Rightarrow> True | NodeData_TextPath _ \<Rightarrow> True | _ \<Rightarrow> False)"
| "applies_to BoundProp_TextStyle n =
     (case cn_data n of NodeData_Text _ \<Rightarrow> True | NodeData_TextPath _ \<Rightarrow> True | _ \<Rightarrow> False)"
| "applies_to BoundProp_ClipWidth n = (clip_size n \<noteq> None)"
| "applies_to BoundProp_ClipHeight n = (clip_size n \<noteq> None)"
| "applies_to (BoundProp_ImageFill i) n = (node_fill n (unat i) \<noteq> None)"

fun read_resolved :: "bound_prop \<Rightarrow> canvas_node \<Rightarrow> resolved_var_value option" where
  "read_resolved (BoundProp_FillColor i) n = map_option ResolvedVarValue_Color (node_fill_color n (unat i))"
| "read_resolved (BoundProp_StrokeColor i) n = map_option ResolvedVarValue_Color (stroke_color n (unat i))"
| "read_resolved (BoundProp_StrokeWidth i) n =
     map_option (\<lambda>st. ResolvedVarValue_Float (stroke_width st)) (data_stroke (cn_data n) (unat i))"
| "read_resolved BoundProp_CornerRadius n =
     (case cn_data n of
        NodeData_Vector v \<Rightarrow> map_option ResolvedVarValue_Float (vn_corner_radius v)
      | NodeData_Group g \<Rightarrow> map_option ResolvedVarValue_Float (gn_corner_radius g)
      | _ \<Rightarrow> None)"
| "read_resolved BoundProp_Opacity n =
     Some (ResolvedVarValue_Float (f64_from_f32 (unit_interval_get (cn_opacity n))))"
| "read_resolved BoundProp_Visible n = Some (ResolvedVarValue_Boolean (\<not> flag_contains (cn_flags n) HIDDEN))"
| "read_resolved BoundProp_TextContent n =
     (case cn_data n of
        NodeData_Text t \<Rightarrow> Some (ResolvedVarValue_String (tn_content t))
      | NodeData_TextPath t \<Rightarrow> Some (ResolvedVarValue_String (tp_content t))
      | _ \<Rightarrow> None)"
| "read_resolved BoundProp_TextStyle n =
     (case cn_data n of
        NodeData_Text t \<Rightarrow> Some (ResolvedVarValue_TextStyle (tn_style t))
      | NodeData_TextPath t \<Rightarrow> Some (ResolvedVarValue_TextStyle (tp_style t))
      | _ \<Rightarrow> None)"
| "read_resolved BoundProp_ClipWidth n = map_option (\<lambda>sz. ResolvedVarValue_Float (fst sz)) (clip_size n)"
| "read_resolved BoundProp_ClipHeight n = map_option (\<lambda>sz. ResolvedVarValue_Float (snd sz)) (clip_size n)"
| "read_resolved (BoundProp_ImageFill i) n =
     map_option (\<lambda>x. ResolvedVarValue_Image (fill_image_asset x)) (node_fill n (unat i))"

definition set_corner_radius :: "f64 \<Rightarrow> canvas_node \<Rightarrow> bool \<times> canvas_node" where
  "set_corner_radius r n =
     (case cn_data n of
        NodeData_Vector v \<Rightarrow> (True, n\<lparr>cn_data := NodeData_Vector (v\<lparr>vn_corner_radius := Some r\<rparr>)\<rparr>)
      | NodeData_Group g \<Rightarrow> (True, n\<lparr>cn_data := NodeData_Group (g\<lparr>gn_corner_radius := Some r\<rparr>)\<rparr>)
      | _ \<Rightarrow> (False, n))"

definition set_text_content :: "string \<Rightarrow> canvas_node \<Rightarrow> bool \<times> canvas_node" where
  "set_text_content s n =
     (case cn_data n of
        NodeData_Text t \<Rightarrow> (True, n\<lparr>cn_data := NodeData_Text (t\<lparr>tn_content := s\<rparr>)\<rparr>)
      | NodeData_TextPath t \<Rightarrow> (True, n\<lparr>cn_data := NodeData_TextPath (t\<lparr>tp_content := s\<rparr>)\<rparr>)
      | _ \<Rightarrow> (False, n))"

definition set_text_style :: "text_style \<Rightarrow> canvas_node \<Rightarrow> bool \<times> canvas_node" where
  "set_text_style s n =
     (case cn_data n of
        NodeData_Text t \<Rightarrow> (True, n\<lparr>cn_data := NodeData_Text (t\<lparr>tn_style := s\<rparr>)\<rparr>)
      | NodeData_TextPath t \<Rightarrow> (True, n\<lparr>cn_data := NodeData_TextPath (t\<lparr>tp_style := s\<rparr>)\<rparr>)
      | _ \<Rightarrow> (False, n))"

fun apply_resolved :: "bound_prop \<Rightarrow> canvas_node \<Rightarrow> resolved_var_value \<Rightarrow> bool \<times> canvas_node" where
  "apply_resolved (BoundProp_FillColor i) n v =
     (case v of ResolvedVarValue_Color c \<Rightarrow> set_node_fill_color n (unat i) c | _ \<Rightarrow> (False, n))"
| "apply_resolved (BoundProp_StrokeColor i) n v =
     (case v of
        ResolvedVarValue_Color c \<Rightarrow>
          stroke_mut (unat i) (\<lambda>st. st\<lparr>stroke_paint := fill_set_solid_color c (stroke_paint st)\<rparr>) n
      | _ \<Rightarrow> (False, n))"
| "apply_resolved (BoundProp_StrokeWidth i) n v =
     (case v of
        ResolvedVarValue_Float x \<Rightarrow> stroke_mut (unat i) (\<lambda>st. st\<lparr>stroke_width := x\<rparr>) n
      | _ \<Rightarrow> (False, n))"
| "apply_resolved BoundProp_CornerRadius n v =
     (case v of ResolvedVarValue_Float x \<Rightarrow> set_corner_radius x n | _ \<Rightarrow> (False, n))"
| "apply_resolved BoundProp_Opacity n v =
     (case v of
        ResolvedVarValue_Float x \<Rightarrow> (True, n\<lparr>cn_opacity := unit_interval_new (f64_as_f32 x)\<rparr>)
      | _ \<Rightarrow> (False, n))"
| "apply_resolved BoundProp_Visible n v =
     (case v of
        ResolvedVarValue_Boolean b \<Rightarrow> (True, n\<lparr>cn_flags := flag_set HIDDEN (\<not> b) (cn_flags n)\<rparr>)
      | _ \<Rightarrow> (False, n))"
| "apply_resolved BoundProp_TextContent n v =
     (case v of
        ResolvedVarValue_String s \<Rightarrow> set_text_content s n
      | ResolvedVarValue_Enum s \<Rightarrow> set_text_content s n
      | _ \<Rightarrow> (False, n))"
| "apply_resolved BoundProp_TextStyle n v =
     (case v of ResolvedVarValue_TextStyle s \<Rightarrow> set_text_style s n | _ \<Rightarrow> (False, n))"
| "apply_resolved BoundProp_ClipWidth n v =
     (case v of ResolvedVarValue_Float x \<Rightarrow> clip_size_mut (\<lambda>sz. (x, snd sz)) n | _ \<Rightarrow> (False, n))"
| "apply_resolved BoundProp_ClipHeight n v =
     (case v of ResolvedVarValue_Float x \<Rightarrow> clip_size_mut (\<lambda>sz. (fst sz, x)) n | _ \<Rightarrow> (False, n))"
| "apply_resolved (BoundProp_ImageFill i) n v =
     (case v of
        ResolvedVarValue_Image (Some a) \<Rightarrow> node_fill_mut (unat i) (fill_set_image_asset a) n
      | _ \<Rightarrow> (False, n))"

section \<open>Slots hold what is written\<close>

lemma nth_opt_list_modify: "nth_opt (list_modify i f xs) i = map_option f (nth_opt xs i)"
  by (simp add: nth_opt_def list_modify_def)

lemma fill_color_set [simp]: "fill_solid_color (fill_set_solid_color c x) = Some c"
  by (cases x) (simp_all add: fill_solid_color_def fill_set_solid_color_def)

lemma fill_asset_set [simp]: "fill_image_asset (fill_set_image_asset a x) = Some a"
  by (cases x) (simp_all add: fill_image_asset_def fill_set_image_asset_def)

lemma group_fill_mut_same: "group_fill (group_fill_mut i f g) i = map_option f (group_fill g i)"
  by (cases "gn_background g") (simp_all add: group_fill_def group_fill_mut_def nth_opt_list_modify)

lemma node_fill_mut_True:
  assumes "node_fill_mut i f n = (True, n')"
  shows "\<exists>x. node_fill n i = Some x \<and> node_fill n' i = Some (f x)"
  using assms
  by (auto simp: node_fill_mut_def node_fill_def fills_mut_def nth_opt_list_modify group_fill_mut_same
      split: option.splits node_data.splits)

lemma node_fill_color_paint:
  "(\<forall>t. cn_data n \<noteq> NodeData_Text t) \<Longrightarrow> (\<forall>t. cn_data n \<noteq> NodeData_TextPath t) \<Longrightarrow>
     node_fill_color n i = fill_color (node_fill n i)"
  by (cases "cn_data n") (simp_all add: node_fill_color_def node_fill_def fill_color_def)

lemma stroke_mut_True:
  assumes "stroke_mut i f n = (True, n')"
  shows "\<exists>x. data_stroke (cn_data n) i = Some x \<and> data_stroke (cn_data n') i = Some (f x)"
  using assms
  by (auto simp: stroke_mut_def data_stroke_def data_strokes_def strokes_mut_def nth_opt_list_modify
      split: option.splits node_data.splits)

lemma clip_size_mut_True:
  assumes "clip_size_mut f n = (True, n')"
  shows "\<exists>x. clip_size n = Some x \<and> clip_size n' = Some (f x)"
  using assms by (auto simp: clip_size_mut_def clip_size_def split: option.splits node_data.splits)

lemma flag_set_contains [simp]: "flag_contains (flag_set HIDDEN b fl) HIDDEN = b"
proof (cases b)
  case True
  have "(fl OR HIDDEN) AND HIDDEN = HIDDEN" by (rule bit_word_eqI) (auto simp: bit_simps)
  with True show ?thesis by (simp add: flag_contains_def flag_set_def)
next
  case False
  have "(fl AND NOT HIDDEN) AND HIDDEN = 0" by (rule bit_word_eqI) (auto simp: bit_simps)
  with False show ?thesis by (simp add: flag_contains_def flag_set_def) (simp add: HIDDEN_def)
qed

section \<open>Properties\<close>

definition stored_value :: "bound_prop \<Rightarrow> resolved_var_value \<Rightarrow> resolved_var_value" where
  \<comment> \<open>what a property keeps of a value: opacity is narrowed and clamped, an enum option becomes text\<close>
  "stored_value p v =
     (case (p, v) of
        (BoundProp_Opacity, ResolvedVarValue_Float x) \<Rightarrow>
          ResolvedVarValue_Float (f64_from_f32 (unit_interval_get (unit_interval_new (f64_as_f32 x))))
      | (BoundProp_TextContent, ResolvedVarValue_Enum s) \<Rightarrow> ResolvedVarValue_String s
      | _ \<Rightarrow> v)"

lemmas slot_defs = set_node_fill_color_def node_fill_mut_def stroke_mut_def clip_size_mut_def
  set_corner_radius_def set_text_content_def set_text_style_def

lemma index_zero [simp]: "unat (i :: u16) = 0 \<longleftrightarrow> i = 0"
  by (simp add: unat_eq_0)

lemma fill_slot_written:
  "set_node_fill_color n i c = (True, n') \<Longrightarrow> node_fill_color n' i = Some c"
  by (cases "cn_data n")
    (auto simp: set_node_fill_color_def node_fill_mut_def node_fill_def fills_mut_def node_fill_color_def
      fill_color_def nth_opt_list_modify group_fill_mut_same text_set_glyph_color_def
      text_path_set_glyph_color_def split: option.splits if_splits)

lemma fill_slot_lands:
  "fst (set_node_fill_color n (unat i) c) = applies_to (BoundProp_FillColor i) n"
  "fst (node_fill_mut (unat i) f n) = applies_to (BoundProp_ImageFill i) n"
  "fst (stroke_mut (unat i) g n) = applies_to (BoundProp_StrokeColor i) n"
  "fst (clip_size_mut h n) = applies_to BoundProp_ClipWidth n"
  "fst (set_corner_radius x n) = applies_to BoundProp_CornerRadius n"
  "fst (set_text_content s n) = applies_to BoundProp_TextContent n"
  "fst (set_text_style ts n) = applies_to BoundProp_TextStyle n"
  by (auto simp: slot_defs node_fill_def clip_size_def split: node_data.splits option.splits)

lemma fill_slot_misses:
  "fst (set_node_fill_color n i c) \<or> snd (set_node_fill_color n i c) = n"
  "fst (node_fill_mut i f n) \<or> snd (node_fill_mut i f n) = n"
  "fst (stroke_mut i g n) \<or> snd (stroke_mut i g n) = n"
  "fst (clip_size_mut h n) \<or> snd (clip_size_mut h n) = n"
  "fst (set_corner_radius x n) \<or> snd (set_corner_radius x n) = n"
  "fst (set_text_content s n) \<or> snd (set_text_content s n) = n"
  "fst (set_text_style ts n) \<or> snd (set_text_style ts n) = n"
  by (auto simp: slot_defs split: node_data.splits option.splits)

lemma apply_resolved_value_cases:
  "fst (apply_resolved p n v) \<Longrightarrow> accepts_variable_type p (resolved_variable_type v) \<and> v \<noteq> ResolvedVarValue_Image None"
  by (cases p) (auto simp: accepts_variable_type_def split: resolved_var_value.splits option.splits)

lemma apply_resolved_accepted:
  "accepts_variable_type p (resolved_variable_type v) \<Longrightarrow> v \<noteq> ResolvedVarValue_Image None \<Longrightarrow>
     fst (apply_resolved p n v) = applies_to p n"
  by (cases p; cases v) (auto simp: accepts_variable_type_def fill_slot_lands simp del: not_None_eq split: option.splits)

text \<open>
  A write lands exactly when the property exists on the node, the value has a type the property
  takes and is not the absent image; otherwise the node is left as it was.
\<close>

theorem apply_resolved_lands:
  "(fst (apply_resolved p n v) =
      (applies_to p n \<and> accepts_variable_type p (resolved_variable_type v) \<and> v \<noteq> ResolvedVarValue_Image None)) \<and>
    (fst (apply_resolved p n v) \<or> snd (apply_resolved p n v) = n)"
proof
  show "fst (apply_resolved p n v) =
      (applies_to p n \<and> accepts_variable_type p (resolved_variable_type v) \<and> v \<noteq> ResolvedVarValue_Image None)"
    using apply_resolved_value_cases[of p n v] apply_resolved_accepted[of p v n] by auto
  show "fst (apply_resolved p n v) \<or> snd (apply_resolved p n v) = n"
    by (cases p) (auto simp: fill_slot_misses split: resolved_var_value.split option.split)
qed

text \<open>
  What is written is what is read: after a write that lands, \<open>read_resolved\<close> gives the value back,
  narrowed to \<open>0..=1\<close> for an opacity and as text for an enum option.
\<close>

theorem apply_then_read:
  assumes "apply_resolved p n v = (True, n')"
  shows "read_resolved p n' = Some (stored_value p v)"
  using assms
  by (cases p)
    (auto simp: stored_value_def fill_slot_written stroke_color_def set_corner_radius_def
      set_text_content_def set_text_style_def
      dest!: stroke_mut_True clip_size_mut_True node_fill_mut_True
      split: resolved_var_value.splits option.splits node_data.splits)

definition sample_box :: canvas_node where
  "sample_box = canvas_node_new (Id 1) (NodeData_Group
     \<lparr>gn_local_size = None, gn_clip_size = Some (0, 0), gn_background = None,
      gn_background_fills = [Fill_Solid \<lparr>color_r = 1, color_g = 2, color_b = 3, color_a = 4\<rparr> BlendMode_Multiply],
      gn_grid = None, gn_explicit_modes = fmempty, gn_scrollable = False, gn_scroll_direction = None,
      gn_scroll_offset = None, gn_auto_layout = None, gn_strokes = [], gn_corner_radius = None,
      gn_corner_radii = None, gn_corner_smoothing = 0\<rparr>)"

theorem apply_then_read_witness:
  "\<exists>n'. apply_resolved (BoundProp_ImageFill 0) sample_box (ResolvedVarValue_Image (Some (Id 7))) = (True, n') \<and>
     read_resolved (BoundProp_ImageFill 0) n' = Some (ResolvedVarValue_Image (Some (Id 7)))"
proof -
  obtain n' where n': "apply_resolved (BoundProp_ImageFill 0) sample_box (ResolvedVarValue_Image (Some (Id 7))) = (True, n')"
    by (simp add: sample_box_def canvas_node_new_def node_fill_mut_def node_fill_def group_fill_def nth_opt_def)
  with apply_then_read[OF n'] show ?thesis by (simp add: stored_value_def)
qed

text \<open>
  Types: a value read from a property always has the type the property declares, and can only be
  read where the property applies.
\<close>

theorem read_resolved_typed:
  assumes "read_resolved p n = Some r"
  shows "resolved_variable_type r = prop_variable_type p \<and> applies_to p n"
  using assms
  by (cases p) (auto simp: node_fill_color_def fill_color_def stroke_color_def node_fill_def clip_size_def
      split: node_data.splits if_splits option.splits bind_splits)

theorem read_resolved_typed_witness:
  "read_resolved (BoundProp_ImageFill 0) sample_box = Some (ResolvedVarValue_Image None) \<and>
     applies_to (BoundProp_ImageFill 0) sample_box"
  using read_resolved_typed[of "BoundProp_ImageFill 0" sample_box "ResolvedVarValue_Image None"]
  by (simp add: sample_box_def canvas_node_new_def node_fill_def group_fill_def nth_opt_def fill_image_asset_def)

end
