(* ===== verification/DocModel.thy ===== *)
theory DocModel
  imports EditSession Selections VarResolve Binding
begin

text \<open>
  The document, \<open>crates/fanta-doc/src/doc.rs\<close>: its fields, the page registry, the methods that drive
  the history, and the builders of the transactions that add a mode, remove a mode and delete a
  variable. The ten fields that an \<open>OpCtx\<close> borrows are one field here, so that borrowing them is
  reading that field and the end of the borrow is writing it back. The clock is a parameter.
\<close>

section \<open>Fields\<close>

definition SCHEMA_VERSION :: u32 where
  "SCHEMA_VERSION = 4"

datatype project_asset_kind =
    ProjectAssetKind_Image
  | ProjectAssetKind_Svg
  | ProjectAssetKind_Video
  | ProjectAssetKind_Audio

record project_asset =
  project_asset_name :: string
  project_asset_kind :: project_asset_kind

record doc_metadata =
  md_title :: string
  md_created_at :: i64
  md_modified_at :: i64
  md_author :: "string option"

record viewport =
  viewport_center :: "f64 \<times> f64"
  viewport_zoom :: f64

record doc =
  doc_id :: doc_id
  doc_schema_version :: u32
  doc_metadata :: doc_metadata
  doc_asset_library :: "(asset_id, project_asset) fmap"
  doc_pending_layout :: "node_id fset"
  doc_selection :: selection
  doc_history :: history
  doc_viewport :: viewport
  doc_styles :: style_registry
  doc_slices :: op_ctx

abbreviation doc_pages :: "doc \<Rightarrow> node_id list" where
  "doc_pages d \<equiv> oc_pages (doc_slices d)"

abbreviation doc_active_page :: "doc \<Rightarrow> node_id option" where
  "doc_active_page d \<equiv> oc_active_page (doc_slices d)"

definition metadata_default :: "i64 \<Rightarrow> doc_metadata" where
  "metadata_default now =
     \<lparr>md_title = ''Untitled'', md_created_at = now, md_modified_at = now, md_author = None\<rparr>"

definition viewport_default :: viewport where
  "viewport_default = \<lparr>viewport_center = (0, 0), viewport_zoom = f64_one\<rparr>"

definition doc_new :: "doc_id \<Rightarrow> i64 \<Rightarrow> scene \<Rightarrow> doc" where
  \<comment> \<open>the fresh id, the clock and \<open>Scene::new()\<close>, which draws from the process counters, are arguments\<close>
  "doc_new fresh now s =
     \<lparr>doc_id = fresh, doc_schema_version = SCHEMA_VERSION, doc_metadata = metadata_default now,
      doc_asset_library = fmempty, doc_pending_layout = {||}, doc_selection = selection_new,
      doc_history = history_default, doc_viewport = viewport_default,
      doc_styles = \<lparr>style_registry_rules = fmempty\<rparr>,
      doc_slices =
        \<lparr>oc_scene = s, oc_pages = [], oc_active_page = None, oc_components = clib_new,
         oc_variables = vreg_new, oc_active_modes = fmempty, oc_motion = mlib_new,
         oc_flow_start = None, oc_flows = [], oc_presentation = None\<rparr>\<rparr>"

definition clone_for_persist :: "doc \<Rightarrow> doc" where
  \<comment> \<open>\<open>Scene::clone\<close> included\<close>
  "clone_for_persist d =
     d\<lparr>doc_selection := selection_new, doc_history := history_default,
       doc_slices := (doc_slices d)\<lparr>oc_scene := snd (scene_clone (oc_scene (doc_slices d)))\<rparr>\<rparr>"

section \<open>Pages\<close>

definition set_pages_field :: "node_id list \<Rightarrow> node_id option \<Rightarrow> doc \<Rightarrow> doc" where
  "set_pages_field ps a d = d\<lparr>doc_slices := (doc_slices d)\<lparr>oc_pages := ps, oc_active_page := a\<rparr>\<rparr>"

definition add_page :: "node_id \<Rightarrow> doc \<Rightarrow> doc" where
  "add_page root d =
     (let ps = (if root \<in> set (doc_pages d) then doc_pages d else doc_pages d @ [root]);
          a = (if doc_active_page d = None then Some root else doc_active_page d)
      in set_pages_field ps a d)"

definition is_component_root :: "doc \<Rightarrow> node_id \<Rightarrow> bool" where
  "is_component_root d i = is_master_root (oc_components (doc_slices d)) i"

definition set_active_page :: "node_id option \<Rightarrow> doc \<Rightarrow> bool \<times> doc" where
  "set_active_page page d =
     (case page of
        Some i \<Rightarrow>
          (if i \<in> set (doc_pages d) \<or> is_component_root d i
           then (doc_active_page d \<noteq> Some i, set_pages_field (doc_pages d) (Some i) d)
           else (False, d))
      | None \<Rightarrow> (doc_active_page d \<noteq> None, set_pages_field (doc_pages d) None d))"

definition remove_page :: "node_id \<Rightarrow> doc \<Rightarrow> nat option \<times> doc" where
  "remove_page page d =
     (case list_position (\<lambda>p. p = page) (doc_pages d) of
        None \<Rightarrow> (None, d)
      | Some idx \<Rightarrow>
          (let ps = vec_remove idx (doc_pages d);
               a = (if doc_active_page d = Some page
                    then (case nth_opt ps idx of Some p \<Rightarrow> Some p | None \<Rightarrow> last_opt ps)
                    else doc_active_page d)
           in (Some idx, set_pages_field ps a d)))"

definition insert_page_at :: "nat \<Rightarrow> node_id \<Rightarrow> doc \<Rightarrow> doc" where
  "insert_page_at index page d =
     (if page \<in> set (doc_pages d) then d
      else set_pages_field (vec_insert (min index (length (doc_pages d))) page (doc_pages d)) (doc_active_page d) d)"

definition page_name :: "doc \<Rightarrow> node_id \<Rightarrow> string option" where
  "page_name d i = map_option cn_name (scene_get (oc_scene (doc_slices d)) i)"

section \<open>Edits through the history\<close>

definition with_history :: "(history \<Rightarrow> op_ctx \<Rightarrow> 'a hist_result) \<Rightarrow> doc \<Rightarrow> (scene_error + 'a) \<times> doc" where
  \<comment> \<open>build the \<open>OpCtx\<close>, call the method, end the borrow\<close>
  "with_history f d =
     (case f (doc_history d) (doc_slices d) of
        (r, h, c) \<Rightarrow> (r, d\<lparr>doc_history := h, doc_slices := c\<rparr>))"

definition stamp_modified :: "i64 \<Rightarrow> doc \<Rightarrow> doc" where
  "stamp_modified now d = d\<lparr>doc_metadata := (doc_metadata d)\<lparr>md_modified_at := now\<rparr>\<rparr>"

definition doc_apply :: "i64 \<Rightarrow> operation \<Rightarrow> doc \<Rightarrow> (scene_error + unit) \<times> doc" where
  "doc_apply now op d =
     (case with_history (history_apply op) d of
        (Inl e, d') \<Rightarrow> (Inl e, d')
      | (Inr _, d') \<Rightarrow> (Inr (), stamp_modified now d'))"

definition doc_apply_transaction :: "i64 \<Rightarrow> transaction \<Rightarrow> doc \<Rightarrow> (scene_error + unit) \<times> doc" where
  "doc_apply_transaction now tx d =
     (case with_history (history_apply_transaction tx) d of
        (Inl e, d') \<Rightarrow> (Inl e, d')
      | (Inr _, d') \<Rightarrow> (Inr (), stamp_modified now d'))"

definition doc_abort_transaction :: "doc \<Rightarrow> (scene_error + unit) \<times> doc" where
  "doc_abort_transaction d = with_history history_abort_with d"

definition doc_rollback_open_transaction :: "nat \<Rightarrow> doc \<Rightarrow> (scene_error + unit) \<times> doc" where
  "doc_rollback_open_transaction len d = with_history (history_rollback_open_to len) d"

definition doc_undo :: "i64 \<Rightarrow> doc \<Rightarrow> (scene_error + bool) \<times> doc" where
  "doc_undo now d =
     (case with_history history_undo d of
        (Inl e, d') \<Rightarrow> (Inl e, d')
      | (Inr did, d') \<Rightarrow> (Inr did, if did then stamp_modified now d' else d'))"

definition doc_redo :: "i64 \<Rightarrow> doc \<Rightarrow> (scene_error + bool) \<times> doc" where
  "doc_redo now d =
     (case with_history history_redo d of
        (Inl e, d') \<Rightarrow> (Inl e, d')
      | (Inr did, d') \<Rightarrow> (Inr did, if did then stamp_modified now d' else d'))"

section \<open>Transactions over variables\<close>

definition text_style_default :: text_style where
  "text_style_default =
     \<lparr>ts_font_family = ''Inter'', ts_size_px = 0x4030000000000000, ts_weight = 400, ts_italic = False,
      ts_underline = False, ts_strikethrough = False,
      ts_color = \<lparr>color_r = 0, color_g = 0, color_b = 0, color_a = 255\<rparr>, ts_letter_spacing = 0,
      ts_line_height = 0x3FF3333333333333, ts_line_height_auto_percent = None, ts_font_variations = []\<rparr>"

fun default_variable_value :: "variable_type \<Rightarrow> var_value" where
  "default_variable_value VariableType_Color =
     VarValue_Color \<lparr>color_r = 0, color_g = 0, color_b = 0, color_a = 255\<rparr>"
| "default_variable_value VariableType_Float = VarValue_Float 0"
| "default_variable_value VariableType_String = VarValue_String []"
| "default_variable_value VariableType_Boolean = VarValue_Boolean False"
| "default_variable_value VariableType_Typography = VarValue_TextStyle text_style_default"
| "default_variable_value VariableType_Enum = VarValue_Enum []"
| "default_variable_value VariableType_Image = VarValue_Image None"

definition push_all :: "operation list \<Rightarrow> transaction \<Rightarrow> transaction" where
  "push_all ops tx = fold transaction_push ops tx"

definition variables_of :: "op_ctx \<Rightarrow> variable_collection_id \<Rightarrow> variable list" where
  "variables_of c coll =
     filter (\<lambda>v. var_collection v = coll) (fm_values (vreg_variables (oc_variables c)))"

definition new_mode_value :: "variable_collection \<Rightarrow> mode_id \<Rightarrow> variable \<Rightarrow> operation" where
  \<comment> \<open>the loop body of \<open>add_mode_transaction\<close>\<close>
  "new_mode_value coll m v =
     Operation_SetVariableValue (var_id v) m (fmlookup (var_values_by_mode v) m)
       (Some (case fmlookup (var_values_by_mode v) (vcoll_default_mode coll) of
                Some y \<Rightarrow> y | None \<Rightarrow> default_variable_value (var_ty v)))"

definition add_mode_transaction ::
  "variable_collection_id \<Rightarrow> var_mode \<Rightarrow> doc \<Rightarrow> scene_error + transaction" where
  "add_mode_transaction cid m d =
     (case fmlookup (vreg_collections (oc_variables (doc_slices d))) cid of
        None \<Rightarrow> Inl (SceneError_InvariantViolated ''collection is missing'')
      | Some coll \<Rightarrow>
          (if has_mode coll (mode_id m) then Inl (SceneError_InvariantViolated ''mode already exists'')
           else
             Inr (push_all
               ((if vcoll_modes coll = [] \<and> vcoll_default_mode coll \<noteq> from_u128 0
                 then [Operation_SetCollectionDefaultMode cid (vcoll_default_mode coll) (from_u128 0)] else []) @
                Operation_AddMode cid m #
                map (new_mode_value coll (mode_id m)) (variables_of (doc_slices d) cid))
               (transaction_new ''Add Mode''))))"

definition find_mode :: "mode_id \<Rightarrow> variable_collection \<Rightarrow> (nat \<times> var_mode) option" where
  \<comment> \<open>\<open>modes.iter().enumerate().find(..)\<close>\<close>
  "find_mode m coll =
     (case list_position (\<lambda>x. mode_id x = m) (vcoll_modes coll) of
        None \<Rightarrow> None | Some k \<Rightarrow> Some (k, vcoll_modes coll ! k))"

definition scene_walk :: "scene \<Rightarrow> node_id list" where
  \<comment> \<open>\<open>for root in scene.roots() { for id in scene.descendants_of(root) { .. } }\<close>\<close>
  "scene_walk s = concat (map (descendants_of s) (scene_roots s))"

definition clear_mode_value :: "mode_id \<Rightarrow> variable \<Rightarrow> operation option" where
  "clear_mode_value m v =
     map_option (\<lambda>y. Operation_SetVariableValue (var_id v) m (Some y) None) (fmlookup (var_values_by_mode v) m)"

definition clear_pin :: "variable_collection_id \<Rightarrow> mode_id \<Rightarrow> scene \<Rightarrow> node_id \<Rightarrow> operation option" where
  "clear_pin cid m s i =
     (case map_option cn_data (scene_get s i) of
        Some (NodeData_Group g) \<Rightarrow>
          (if fmlookup (gn_explicit_modes g) cid = Some m
           then Some (Operation_SetActiveMode (ModeScope_Frame i) cid (Some m) None) else None)
      | _ \<Rightarrow> None)"

definition remove_mode_transaction ::
  "variable_collection_id \<Rightarrow> mode_id \<Rightarrow> doc \<Rightarrow> scene_error + transaction" where
  "remove_mode_transaction cid m d =
     (let c = doc_slices d in
      case fmlookup (vreg_collections (oc_variables c)) cid of
        None \<Rightarrow> Inl (SceneError_InvariantViolated ''collection is missing'')
      | Some coll \<Rightarrow>
          (case find_mode m coll of
             None \<Rightarrow> Inl (SceneError_InvariantViolated ''mode is missing'')
           | Some (index, md) \<Rightarrow>
               Inr (push_all
                 (List.map_filter (clear_mode_value m) (variables_of c cid) @
                  (if fmlookup (oc_active_modes c) cid = Some m
                   then [Operation_SetActiveMode ModeScope_Doc cid (Some m) None] else []) @
                  List.map_filter (clear_pin cid m (oc_scene c)) (scene_walk (oc_scene c)) @
                  (if vcoll_default_mode coll = m
                   then [Operation_SetCollectionDefaultMode cid m
                           (case find (\<lambda>x. mode_id x \<noteq> m) (vcoll_modes coll) of
                              Some x \<Rightarrow> mode_id x | None \<Rightarrow> from_u128 0)] else []) @
                  [Operation_RemoveMode cid index md])
                 (transaction_new ''Delete Mode''))))"

end
