(* ===== verification/DocProps.thy ===== *)
theory DocProps
  imports DocModel OpErrors
begin

text \<open>
  Properties of the document: the page registry stays consistent, removing and re-inserting a page is
  a round trip, and undo through the document restores what an edit changed and nothing else.
\<close>

section \<open>Pages\<close>

definition pages_ok :: "doc \<Rightarrow> bool" where
  "pages_ok d \<longleftrightarrow> distinct (doc_pages d) \<and>
     (case doc_active_page d of None \<Rightarrow> True | Some a \<Rightarrow> a \<in> set (doc_pages d) \<or> is_component_root d a)"

lemma set_pages_field_frame [simp]:
  "doc_pages (set_pages_field ps a d) = ps" "doc_active_page (set_pages_field ps a d) = a"
  "is_component_root (set_pages_field ps a d) = is_component_root d"
  "set_pages_field qs b (set_pages_field ps a d) = set_pages_field qs b d"
  "set_pages_field (doc_pages d) (doc_active_page d) d = d"
  by (simp_all add: set_pages_field_def is_component_root_def fun_eq_iff)

lemma set_pages_field_same: "doc_active_page d = a \<Longrightarrow> set_pages_field (doc_pages d) a d = d"
  by (simp add: set_pages_field_def)

datatype page_call =
    Page_Add node_id
  | Page_SetActive "node_id option"
  | Page_Remove node_id
  | Page_InsertAt nat node_id

fun run_page_call :: "page_call \<Rightarrow> doc \<Rightarrow> doc" where
  "run_page_call (Page_Add i) d = add_page i d"
| "run_page_call (Page_SetActive p) d = snd (set_active_page p d)"
| "run_page_call (Page_Remove i) d = snd (remove_page i d)"
| "run_page_call (Page_InsertAt k i) d = insert_page_at k i d"

lemma remove_page_pages:
  assumes "pages_ok d" "list_position (\<lambda>p. p = i) (doc_pages d) = Some k"
  shows "vec_remove k (doc_pages d) = filter (\<lambda>p. p \<noteq> i) (doc_pages d)"
  using assms by (simp add: pages_ok_def vec_remove_position)

lemma pages_ok_field:
  "pages_ok (set_pages_field ps a d) \<longleftrightarrow> distinct ps \<and>
     (case a of None \<Rightarrow> True | Some i \<Rightarrow> i \<in> set ps \<or> is_component_root d i)"
  by (cases a) (simp_all add: pages_ok_def)

lemma slot_member: "nth_opt ps k = Some a \<Longrightarrow> a \<in> set ps" "last_opt ps = Some a \<Longrightarrow> a \<in> set ps"
  by (auto simp: nth_opt_def last_opt_def split: if_splits)

lemma remove_page_ok:
  assumes ok: "pages_ok d"
  shows "pages_ok (snd (remove_page i d))"
proof (cases "list_position (\<lambda>p. p = i) (doc_pages d)")
  case None
  with ok show ?thesis by (simp add: remove_page_def del: list_position_None)
next
  case (Some k)
  have ps: "vec_remove k (doc_pages d) = filter (\<lambda>p. p \<noteq> i) (doc_pages d)"
    using ok Some by (rule remove_page_pages)
  have d: "distinct (filter (\<lambda>p. p \<noteq> i) (doc_pages d))" using ok by (simp add: pages_ok_def)
  show ?thesis
  proof (cases "doc_active_page d = Some i")
    case True
    with Some d show ?thesis
      by (auto simp: remove_page_def Let_def pages_ok_field ps
          dest: slot_member[of "filter (\<lambda>p. p \<noteq> i) (doc_pages d)"] split: option.split)
  next
    case False
    with Some d ok show ?thesis
      by (auto simp: remove_page_def Let_def pages_ok_field ps pages_ok_def[of d] split: option.splits)
  qed
qed

lemma insert_page_at_ok: "pages_ok d \<Longrightarrow> pages_ok (insert_page_at k i d)"
  by (auto simp: insert_page_at_def pages_ok_field pages_ok_def[of d] distinct_vec_insert split: option.splits)

lemma add_page_ok: "pages_ok d \<Longrightarrow> pages_ok (add_page i d)"
  by (auto simp: add_page_def pages_ok_field pages_ok_def[of d] Let_def split: option.splits)

lemma set_active_page_ok: "pages_ok d \<Longrightarrow> pages_ok (snd (set_active_page p d))"
  by (auto simp: set_active_page_def pages_ok_field pages_ok_def[of d] split: option.splits)

lemma run_page_call_ok: "pages_ok d \<Longrightarrow> pages_ok (run_page_call k d)"
  by (cases k) (simp_all add: remove_page_ok insert_page_at_ok add_page_ok set_active_page_ok)

text \<open>
  C22. The page registry never lists a page twice, and the active page is always none, a listed page or
  the root of a component master, through any sequence of registry calls.
\<close>

theorem page_registry_consistent:
  assumes "pages_ok d"
  shows "distinct (doc_pages (fold run_page_call ks d)) \<and>
    (case doc_active_page (fold run_page_call ks d) of
       None \<Rightarrow> True
     | Some a \<Rightarrow> a \<in> set (doc_pages (fold run_page_call ks d)) \<or> is_component_root (fold run_page_call ks d) a)"
proof -
  have "pages_ok (fold run_page_call ks d)"
    using assms by (induction ks arbitrary: d) (simp_all add: run_page_call_ok)
  then show ?thesis by (simp add: pages_ok_def)
qed

definition sample_doc :: doc where
  "sample_doc =
     (doc_new (Id 1) 0 (scene_default 1 0))\<lparr>doc_history := history_with_max_depth 10, doc_slices := sample_ctx\<rparr>"

lemma sample_doc_parts [simp]:
  "doc_slices sample_doc = sample_ctx" "doc_history sample_doc = history_with_max_depth 10"
  by (simp_all add: sample_doc_def)

lemma sample_doc_pages: "pages_ok sample_doc"
  by (simp add: pages_ok_def sample_ctx_def)

theorem page_registry_consistent_witness:
  "distinct (doc_pages (fold run_page_call [Page_Add (Id 2), Page_Remove (Id 1)] sample_doc))"
  using page_registry_consistent[OF sample_doc_pages] by blast

text \<open>
  Inserting a removed page at the position \<open>remove_page\<close> reported, and making the page that was
  active the active one again, gives the document back exactly.
\<close>

theorem insert_page_undoes_remove:
  assumes "pages_ok d" and "remove_page i d = (Some k, d1)"
  shows "snd (set_active_page (doc_active_page d) (insert_page_at k i d1)) = d"
proof -
  from assms(2) have pos: "list_position (\<lambda>p. p = i) (doc_pages d) = Some k"
    by (auto simp: remove_page_def Let_def split: option.splits)
  obtain a where d1: "d1 = set_pages_field (vec_remove k (doc_pages d)) a d"
    using assms(2) pos by (auto simp: remove_page_def Let_def)
  have k: "k < length (doc_pages d)" "doc_pages d ! k = i"
    using list_position_bound[OF pos] list_position_holds[OF pos] by simp_all
  have "i \<notin> set (vec_remove k (doc_pages d))" using remove_page_pages[OF assms(1) pos] by simp
  then have "insert_page_at k i d1 = set_pages_field (vec_insert k i (vec_remove k (doc_pages d))) a d"
    using k(1) by (simp add: insert_page_at_def d1 length_vec_remove)
  also have "vec_insert k i (vec_remove k (doc_pages d)) = doc_pages d"
    using vec_insert_remove[OF k(1)] k(2) by simp
  finally have ins: "insert_page_at k i d1 = set_pages_field (doc_pages d) a d" .
  show ?thesis
    using assms(1) by (auto simp: ins set_active_page_def pages_ok_def set_pages_field_same split: option.splits)
qed

theorem insert_page_undoes_remove_witness:
  "snd (set_active_page (Some (Id 1)) (insert_page_at 0 (Id 1) (snd (remove_page (Id 1) sample_doc)))) = sample_doc"
proof -
  have "remove_page (Id 1) sample_doc = (Some 0, snd (remove_page (Id 1) sample_doc))"
    by (simp add: remove_page_def Let_def sample_ctx_def)
  from insert_page_undoes_remove[OF sample_doc_pages this] show ?thesis by (simp add: sample_ctx_def)
qed

lemma active_page_outside_pages:
  "\<exists>d. pages_ok d \<and> fst (set_active_page (Some (Id 2)) d) \<and>
     doc_active_page (snd (set_active_page (Some (Id 2)) d)) = Some (Id 2) \<and> Id 2 \<notin> set (doc_pages d)"
proof -
  let ?lib = "clib_new\<lparr>clib_defs := fmupd (Id 5) (component_def_new (Id 5) (Id 2) ''Button'') fmempty\<rparr>"
  let ?d = "sample_doc\<lparr>doc_slices := sample_ctx\<lparr>oc_components := ?lib\<rparr>\<rparr>"
  have "is_component_root ?d (Id 2)"
    by (auto simp: is_component_root_def is_master_root_def list_ex_iff fm_values_set component_def_new_def
        intro!: bexI[of _ "component_def_new (Id 5) (Id 2) ''Button''"])
  then show ?thesis
    by (intro exI[of _ ?d]) (simp add: set_active_page_def pages_ok_def sample_ctx_def)
qed

section \<open>Undo through the document\<close>

text \<open>
  \<open>Doc::undo\<close> right after \<open>Doc::apply\<close> gives back everything the operation could touch, and
  leaves the rest of the document alone but for the history and the modification time.
\<close>

theorem doc_undo_restores:
  assumes "session n (doc_history d, doc_slices d)" and "0 < n" and "h_open (doc_history d) = None"
    and "valid_op op (doc_slices d)" and "doc_apply now op d = (Inr (), d1)"
  shows "\<exists>d2. doc_undo later d1 = (Inr True, d2) \<and> ctx_same (doc_slices d2) (doc_slices d) \<and>
    d2 = d\<lparr>doc_history := doc_history d2, doc_slices := doc_slices d2,
           doc_metadata := (doc_metadata d)\<lparr>md_modified_at := later\<rparr>\<rparr>"
proof -
  obtain h1 c1 where a: "history_apply op (doc_history d) (doc_slices d) = (Inr (), h1, c1)"
    and d1: "d1 = stamp_modified now (d\<lparr>doc_history := h1, doc_slices := c1\<rparr>)"
    using assms(5) by (auto simp: doc_apply_def with_history_def split: prod.splits sum.splits)
  obtain t where t: "implements t (doc_history d) (doc_slices d)" and n: "h_max_depth (doc_history d) = n"
    using session_implements[OF assms(1)] by auto
  let ?e = "tl_edit n c1 t"
  have e: "implements ?e h1 c1" using history_apply_implements[OF t assms(4) a] assms(3) n by simp
  have open1: "h_open h1 = None"
    using a assms(3) by (auto simp: history_apply_def Let_def frame_simps split: prod.splits sum.splits)
  then have s: "settled h1 c1 ?e = ?e" by (simp add: settled_def)
  have past: "tl_past ?e \<noteq> []" using assms(2) by (simp add: tl_edit_def keep_last_snoc)
  obtain h2 c2 where u: "history_undo h1 c1 = (Inr True, h2, c2)" "implements (tl_undo ?e) h2 c2" "h_open h2 = None"
    by (rule history_undo_implements[OF e]) (simp add: s past)
  have "ctx_same c2 (doc_slices d)"
    using u(2,3) t assms(3) tl_undo_edit(1)[OF assms(2), of c1 t]
    by (auto simp: implements_closed intro: ctx_same_sym ctx_same_trans)
  moreover have "doc_undo later d1 = (Inr True, stamp_modified later (d1\<lparr>doc_history := h2, doc_slices := c2\<rparr>))"
    by (simp add: doc_undo_def with_history_def d1 stamp_modified_def u(1))
  ultimately show ?thesis by (auto simp: d1 stamp_modified_def)
qed

theorem doc_undo_restores_witness:
  "\<exists>d1 d2. doc_apply 5 sample_delete sample_doc = (Inr (), d1) \<and> doc_undo 6 d1 = (Inr True, d2) \<and>
     ctx_same (doc_slices d2) sample_ctx"
proof -
  obtain h1 c1 where a: "history_apply sample_delete (history_with_max_depth 10) sample_ctx = (Inr (), h1, c1)"
    by (rule sample_session)
  obtain d1 where d1: "doc_apply 5 sample_delete sample_doc = (Inr (), d1)"
    by (simp add: doc_apply_def with_history_def a)
  have "session 10 (doc_history sample_doc, doc_slices sample_doc)" by (simp add: session_start)
  from doc_undo_restores[OF this _ _ _ d1, of 6] sample_valid d1 show ?thesis
    by (auto simp: history_with_max_depth_def history_default_def)
qed

end
