(* ===== verification/ModeTransactions.thy ===== *)
theory ModeTransactions
  imports DocProps
begin

text \<open>
  The transactions \<open>Doc\<close> builds over variable modes: running the one that adds a mode succeeds, gives
  every variable of the collection a value for it, and is a valid run, so undo takes it back.
\<close>

section \<open>Running registry operations\<close>

definition registry_ids :: "variable_registry \<Rightarrow> bool" where
  \<comment> \<open>the maps are keyed by the ids of their values, as loading checks\<close>
  "registry_ids reg = list_all (\<lambda>i. map_option var_id (fmlookup (vreg_variables reg) i) = Some i)
     (fm_keys (vreg_variables reg))"

lemma registry_idsD: "registry_ids reg \<Longrightarrow> fmlookup (vreg_variables reg) i = Some v \<Longrightarrow> var_id v = i"
  unfolding registry_ids_def list_all_iff fm_keys_set by (drule bspec[of _ _ i]) (auto intro: fmdom'I)

lemma bump_revs_registry: "oc_variables (bump_revs op c) = oc_variables c" "oc_scene (bump_revs op c) = oc_scene c"
  by (simp_all add: bump_revs_def)

lemma push_all_ops: "tx_ops (push_all ops tx) = tx_ops tx @ ops"
  unfolding push_all_def by (induction ops arbitrary: tx) simp_all

lemma do_op_total:
  assumes "op_apply op c = op_ok c1"
  shows "do_op op c = (Inr (), bump_revs op c1)"
  using assms by (simp add: do_op_def op_ok_def)

lemma run_valid_step:
  assumes "valid_op op c" "do_op op c = (Inr (), c1)" "hist.valid_run ops c1 c2" "run_each do_op ops c1 = (Inr (), c2)"
  shows "hist.valid_run (op # ops) c c2 \<and> run_each do_op (op # ops) c = (Inr (), c2)"
  using assms hist.valid_run.more[OF ctx_same_refl assms(1-3)] by simp

definition put_value :: "mode_id \<Rightarrow> var_value \<Rightarrow> variable \<Rightarrow> variable" where
  "put_value m y v = v\<lparr>var_values_by_mode := fmupd m y (var_values_by_mode v)\<rparr>"

definition mode_seed :: "variable_collection \<Rightarrow> variable \<Rightarrow> var_value" where
  \<comment> \<open>the value of the default mode, or the one of the type\<close>
  "mode_seed coll v =
     (case fmlookup (var_values_by_mode v) (vcoll_default_mode coll) of
        Some y \<Rightarrow> y | None \<Rightarrow> default_variable_value (var_ty v))"

lemma do_set_value:
  fixes c i m old y
  defines "op \<equiv> Operation_SetVariableValue i m old (Some y)"
  shows "\<exists>c1. do_op op c = (Inr (), c1) \<and> oc_scene c1 = oc_scene c \<and>
    vreg_collections (oc_variables c1) = vreg_collections (oc_variables c) \<and>
    vreg_variables (oc_variables c1) = fm_modify i (put_value m y) (vreg_variables (oc_variables c))"
proof -
  let ?c1 = "c\<lparr>oc_variables := (oc_variables c)\<lparr>vreg_variables :=
      fm_modify i (put_value m y) (vreg_variables (oc_variables c))\<rparr>\<rparr>"
  have "op_apply op c = op_ok ?c1"
    by (simp add: op_def op_apply_def edit_variable_def put_value_def[abs_def] fm_put_def)
  from do_op_total[OF this] show ?thesis by (simp add: bump_revs_registry)
qed

lemma run_set_values:
  assumes "scene_inv (oc_scene c)" "distinct (map var_id vs)"
    and "\<forall>v \<in> set vs. fmlookup (vreg_variables (oc_variables c)) (var_id v) = Some v"
  shows "\<exists>c'. hist.valid_run (map (new_mode_value coll m) vs) c c' \<and>
    run_each do_op (map (new_mode_value coll m) vs) c = (Inr (), c') \<and>
    vreg_collections (oc_variables c') = vreg_collections (oc_variables c) \<and>
    (\<forall>i. i \<notin> var_id ` set vs \<longrightarrow>
       fmlookup (vreg_variables (oc_variables c')) i = fmlookup (vreg_variables (oc_variables c)) i) \<and>
    (\<forall>v \<in> set vs. fmlookup (vreg_variables (oc_variables c')) (var_id v) = Some (put_value m (mode_seed coll v) v))"
  using assms
proof (induction vs arbitrary: c)
  case Nil
  show ?case by (auto simp: op_ok_def intro!: hist.valid_run.none)
next
  case (Cons v vs)
  let ?y = "mode_seed coll v" and ?old = "fmlookup (var_values_by_mode v) m"
  have op: "new_mode_value coll m v = Operation_SetVariableValue (var_id v) m ?old (Some ?y)"
    by (simp add: new_mode_value_def mode_seed_def)
  have v: "fmlookup (vreg_variables (oc_variables c)) (var_id v) = Some v" using Cons.prems(3) by simp
  have valid: "valid_op (new_mode_value coll m v) c"
    using Cons.prems(1) v by (simp add: valid_op_def op variable_was_def)
  obtain c1 where c1: "do_op (new_mode_value coll m v) c = (Inr (), c1)" "oc_scene c1 = oc_scene c"
    "vreg_collections (oc_variables c1) = vreg_collections (oc_variables c)"
    "vreg_variables (oc_variables c1) = fm_modify (var_id v) (put_value m ?y) (vreg_variables (oc_variables c))"
    using do_set_value[of "var_id v" m ?old ?y c] by (auto simp: op)
  have rest: "\<forall>u \<in> set vs. fmlookup (vreg_variables (oc_variables c1)) (var_id u) = Some u"
  proof
    fix u assume u: "u \<in> set vs"
    then have "var_id u \<noteq> var_id v" using Cons.prems(2) by (metis distinct.simps(2) image_eqI list.map(2) set_map)
    with u Cons.prems(3) show "fmlookup (vreg_variables (oc_variables c1)) (var_id u) = Some u"
      by (simp add: c1(4) fmlookup_fm_modify)
  qed
  obtain c' where c': "hist.valid_run (map (new_mode_value coll m) vs) c1 c'"
    "run_each do_op (map (new_mode_value coll m) vs) c1 = (Inr (), c')"
    "vreg_collections (oc_variables c') = vreg_collections (oc_variables c1)"
    "\<forall>i. i \<notin> var_id ` set vs \<longrightarrow>
       fmlookup (vreg_variables (oc_variables c')) i = fmlookup (vreg_variables (oc_variables c1)) i"
    "\<forall>u \<in> set vs. fmlookup (vreg_variables (oc_variables c')) (var_id u) = Some (put_value m (mode_seed coll u) u)"
    using Cons.IH[of c1, OF _ _ rest] Cons.prems(1,2) c1(2) by (auto simp only: list.map distinct.simps)
  have "var_id v \<notin> var_id ` set vs" using Cons.prems(2) by simp
  then have "fmlookup (vreg_variables (oc_variables c')) (var_id v) = Some (put_value m ?y v)"
    using c'(4) v by (simp add: c1(4) fmlookup_fm_modify)
  moreover have "\<forall>i. i \<notin> var_id ` set (v # vs) \<longrightarrow>
      fmlookup (vreg_variables (oc_variables c')) i = fmlookup (vreg_variables (oc_variables c)) i"
    using c'(4) by (auto simp: c1(4) fmlookup_fm_modify)
  ultimately have post: "\<forall>i. i \<notin> var_id ` set (v # vs) \<longrightarrow>
       fmlookup (vreg_variables (oc_variables c')) i = fmlookup (vreg_variables (oc_variables c)) i"
    "\<forall>u \<in> set (v # vs). fmlookup (vreg_variables (oc_variables c')) (var_id u) = Some (put_value m (mode_seed coll u) u)"
    using c'(5) by auto
  show ?case
    using run_valid_step[OF valid c1(1) c'(1,2)] post c'(3) c1(3)
    by (intro exI[of _ c'] conjI) (simp_all only: list.map)
qed

lemma variables_of_facts:
  assumes "registry_ids (oc_variables c)"
  shows "distinct (map var_id (variables_of c cid))"
    and "v \<in> set (variables_of c cid) \<longleftrightarrow>
      fmlookup (vreg_variables (oc_variables c)) (var_id v) = Some v \<and> var_collection v = cid"
proof -
  let ?vars = "vreg_variables (oc_variables c)"
  have "map var_id (fm_values ?vars) = fm_keys ?vars"
    using registry_idsD[OF assms] by (auto simp: fm_values_def fmlookup_dom'_iff intro!: map_idI)
  then have "distinct (map var_id (fm_values ?vars))" by simp
  then show "distinct (map var_id (variables_of c cid))"
    by (simp add: variables_of_def distinct_map_filter)
  show "v \<in> set (variables_of c cid) \<longleftrightarrow> fmlookup ?vars (var_id v) = Some v \<and> var_collection v = cid"
    using registry_idsD[OF assms] by (auto simp: variables_of_def fm_values_set)
qed

section \<open>Adding a mode\<close>

definition add_mode_head :: "variable_collection_id \<Rightarrow> var_mode \<Rightarrow> variable_collection \<Rightarrow> operation list" where
  "add_mode_head cid m coll =
     (if vcoll_modes coll = [] \<and> vcoll_default_mode coll \<noteq> from_u128 0
      then [Operation_SetCollectionDefaultMode cid (vcoll_default_mode coll) (from_u128 0)] else []) @
     [Operation_AddMode cid m]"

lemma add_mode_ops:
  assumes "add_mode_transaction cid m d = Inr tx"
  obtains coll where "fmlookup (vreg_collections (oc_variables (doc_slices d))) cid = Some coll"
    "tx_ops tx = add_mode_head cid m coll @ map (new_mode_value coll (mode_id m)) (variables_of (doc_slices d) cid)"
  using assms
  by (auto simp: add_mode_transaction_def add_mode_head_def push_all_ops split: option.splits if_splits)

lemma do_default_mode:
  assumes "fmlookup (vreg_collections (oc_variables c)) cid = Some coll"
  shows "\<exists>c1. do_op (Operation_SetCollectionDefaultMode cid old new) c = (Inr (), c1) \<and> oc_scene c1 = oc_scene c \<and>
    vreg_variables (oc_variables c1) = vreg_variables (oc_variables c) \<and>
    fmlookup (vreg_collections (oc_variables c1)) cid = Some (coll\<lparr>vcoll_default_mode := new\<rparr>)"
proof -
  have "op_apply (Operation_SetCollectionDefaultMode cid old new) c =
      op_ok (edit_collection cid (\<lambda>x. x\<lparr>vcoll_default_mode := new\<rparr>) c)"
    using assms by (simp add: op_apply_def set_default_mode_def)
  from do_op_total[OF this] show ?thesis
    using assms by (simp add: bump_revs_registry edit_collection_def fmlookup_fm_modify)
qed

lemma do_add_mode:
  assumes "fmlookup (vreg_collections (oc_variables c)) cid = Some coll"
  shows "\<exists>c1. do_op (Operation_AddMode cid m) c = (Inr (), c1) \<and> oc_scene c1 = oc_scene c \<and>
    vreg_variables (oc_variables c1) = vreg_variables (oc_variables c) \<and>
    fmlookup (vreg_collections (oc_variables c1)) cid = Some (push_mode m coll)"
proof -
  have "op_apply (Operation_AddMode cid m) c = op_ok (edit_collection cid (push_mode m) c)"
    by (simp add: op_apply_def)
  from do_op_total[OF this] show ?thesis
    using assms by (simp add: bump_revs_registry edit_collection_def fmlookup_fm_modify)
qed

lemma run_add_mode_head:
  assumes inv: "scene_inv (oc_scene c)" and coll: "fmlookup (vreg_collections (oc_variables c)) cid = Some coll"
  shows "\<exists>c1 coll1. hist.valid_run (add_mode_head cid m coll) c c1 \<and> oc_scene c1 = oc_scene c \<and>
    vreg_variables (oc_variables c1) = vreg_variables (oc_variables c) \<and>
    fmlookup (vreg_collections (oc_variables c1)) cid = Some coll1 \<and> has_mode coll1 (mode_id m)"
proof -
  have add: "\<exists>c1. hist.valid_run [Operation_AddMode cid m] b c1 \<and> oc_scene c1 = oc_scene b \<and>
      vreg_variables (oc_variables c1) = vreg_variables (oc_variables b) \<and>
      fmlookup (vreg_collections (oc_variables c1)) cid = Some (push_mode m x)"
    if b: "fmlookup (vreg_collections (oc_variables b)) cid = Some x" "oc_scene b = oc_scene c"
      "vcoll_modes x = [] \<longrightarrow> vcoll_default_mode x = mode_zero" for b x
  proof -
    obtain c1 where c1: "do_op (Operation_AddMode cid m) b = (Inr (), c1)" "oc_scene c1 = oc_scene b"
      "vreg_variables (oc_variables c1) = vreg_variables (oc_variables b)"
      "fmlookup (vreg_collections (oc_variables c1)) cid = Some (push_mode m x)"
      using do_add_mode[OF b(1)] by blast
    have "valid_op (Operation_AddMode cid m) b"
      using inv b by (simp add: valid_op_def collection_was_def)
    from single_valid_run[OF this c1(1)] c1 show ?thesis by blast
  qed
  have mode: "has_mode (push_mode m x) (mode_id m)" for x
    by (simp add: push_mode_def has_mode_def Let_def)
  show ?thesis
  proof (cases "vcoll_modes coll = [] \<and> vcoll_default_mode coll \<noteq> from_u128 0")
    case False
    then have "vcoll_modes coll = [] \<longrightarrow> vcoll_default_mode coll = mode_zero" by (auto simp: mode_zero_def from_u128_def)
    with add[OF coll refl] obtain c1 where "hist.valid_run [Operation_AddMode cid m] c c1" "oc_scene c1 = oc_scene c"
      "vreg_variables (oc_variables c1) = vreg_variables (oc_variables c)"
      "fmlookup (vreg_collections (oc_variables c1)) cid = Some (push_mode m coll)" by blast
    moreover have "add_mode_head cid m coll = [Operation_AddMode cid m]" using False by (auto simp: add_mode_head_def)
    ultimately show ?thesis using mode by auto
  next
    case True
    let ?op = "Operation_SetCollectionDefaultMode cid (vcoll_default_mode coll) (from_u128 0)"
    obtain b where b: "do_op ?op c = (Inr (), b)" "oc_scene b = oc_scene c"
      "vreg_variables (oc_variables b) = vreg_variables (oc_variables c)"
      "fmlookup (vreg_collections (oc_variables b)) cid = Some (coll\<lparr>vcoll_default_mode := from_u128 0\<rparr>)"
      using do_default_mode[OF coll] by blast
    have v: "valid_op ?op c" using inv coll by (simp add: valid_op_def collection_was_def)
    obtain c1 where c1: "hist.valid_run [Operation_AddMode cid m] b c1" "oc_scene c1 = oc_scene b"
      "vreg_variables (oc_variables c1) = vreg_variables (oc_variables b)"
      "fmlookup (vreg_collections (oc_variables c1)) cid = Some (push_mode m (coll\<lparr>vcoll_default_mode := from_u128 0\<rparr>))"
      using add[OF b(4) b(2)] by (auto simp: mode_zero_def from_u128_def)
    from hist.valid_run.more[OF ctx_same_refl v b(1) c1(1)] c1(2-4) b(2,3) mode True
    show ?thesis by (auto simp: add_mode_head_def)
  qed
qed

section \<open>A transaction through the document\<close>

lemma valid_run_join: "hist.valid_run xs s t \<Longrightarrow> hist.valid_run ys t u \<Longrightarrow> hist.valid_run (xs @ ys) s u"
  by (induction rule: hist.valid_run.induct) (auto intro: hist.valid_run.more hist.valid_run_left)

lemma doc_transaction_undone:
  assumes s: "session n (doc_history d, doc_slices d)" and n: "0 < n" and closed: "h_open (doc_history d) = None"
    and run: "hist.valid_run (tx_ops tx) (doc_slices d) u" and ne: "tx_ops tx \<noteq> []"
  obtains d1 d2 where "doc_apply_transaction now tx d = (Inr (), d1)"
    "run_each do_op (tx_ops tx) (doc_slices d) = (Inr (), doc_slices d1)"
    "doc_undo later d1 = (Inr True, d2)" "ctx_same (doc_slices d2) (doc_slices d)"
proof -
  obtain t where t: "implements t (doc_history d) (doc_slices d)" and m: "h_max_depth (doc_history d) = n"
    using session_implements[OF s] by auto
  let ?h1 = "record_applied_transaction tx (history_commit (doc_history d))" and ?t = "settled (doc_history d) (doc_slices d) t"
  obtain c1 where c1: "history_apply_transaction tx (doc_history d) (doc_slices d) = (Inr (), ?h1, c1)"
    "implements (tl_edit n c1 ?t) ?h1 c1"
    using history_apply_transaction_implements[OF t run ne] unfolding m by blast
  have each: "run_each do_op (tx_ops tx) (doc_slices d) = (Inr (), c1)"
    using c1(1) ne by (auto simp: history_apply_transaction_def Let_def split: prod.splits sum.splits)
  have open1: "h_open ?h1 = None"
    using ne by (simp add: record_applied_transaction_def Let_def frame_simps split: option.split)
  let ?e = "tl_edit n c1 ?t"
  have st: "settled ?h1 c1 ?e = ?e" using open1 by (simp add: settled_def)
  have past: "tl_past ?e \<noteq> []" using n by (simp add: tl_edit_def keep_last_snoc)
  obtain h2 c2 where u: "history_undo ?h1 c1 = (Inr True, h2, c2)" "implements (tl_undo ?e) h2 c2" "h_open h2 = None"
    by (rule history_undo_implements[OF c1(2)]) (simp add: st past)
  have "ctx_same c2 (doc_slices d)"
    using u(2,3) t closed tl_undo_edit(1)[OF n, of c1 t]
    by (auto simp: implements_closed settled_def intro: ctx_same_sym ctx_same_trans)
  with that[of "stamp_modified now (d\<lparr>doc_history := ?h1, doc_slices := c1\<rparr>)"] c1(1) u(1) each
  show ?thesis by (simp add: doc_apply_transaction_def doc_undo_def with_history_def stamp_modified_def)
qed

text \<open>
  The transaction \<open>add_mode_transaction\<close> builds runs without error; after it the collection has the
  mode, every variable of the collection has for it the value it has in the default mode, or the
  default of its type, every other variable is untouched, and undo gives the document back.
\<close>

theorem add_mode_transaction_effect:
  assumes "session n (doc_history d, doc_slices d)" and "0 < n" and "h_open (doc_history d) = None"
    and "scene_inv (oc_scene (doc_slices d))" and "registry_ids (oc_variables (doc_slices d))"
    and "fmlookup (vreg_collections (oc_variables (doc_slices d))) cid = Some coll"
    and "add_mode_transaction cid m d = Inr tx"
  shows "\<exists>d1 d2. doc_apply_transaction now tx d = (Inr (), d1) \<and>
    (\<exists>coll1. fmlookup (vreg_collections (oc_variables (doc_slices d1))) cid = Some coll1 \<and> has_mode coll1 (mode_id m)) \<and>
    (\<forall>i. fmlookup (vreg_variables (oc_variables (doc_slices d1))) i =
       map_option (\<lambda>v. if var_collection v = cid then put_value (mode_id m) (mode_seed coll v) v else v)
         (fmlookup (vreg_variables (oc_variables (doc_slices d))) i)) \<and>
    doc_undo later d1 = (Inr True, d2) \<and> ctx_same (doc_slices d2) (doc_slices d)"
proof -
  let ?c = "doc_slices d" and ?vs = "variables_of (doc_slices d) cid" and ?m = "mode_id m"
  have ops: "tx_ops tx = add_mode_head cid m coll @ map (new_mode_value coll ?m) ?vs"
    using add_mode_ops[OF assms(7)] assms(6) by (metis option.inject)
  obtain b coll1 where b: "hist.valid_run (add_mode_head cid m coll) ?c b" "oc_scene b = oc_scene ?c"
    "vreg_variables (oc_variables b) = vreg_variables (oc_variables ?c)"
    "fmlookup (vreg_collections (oc_variables b)) cid = Some coll1" "has_mode coll1 ?m"
    using run_add_mode_head[OF assms(4,6)] by blast
  note vs = variables_of_facts[OF assms(5), where cid = cid]
  have have_vs: "\<forall>v \<in> set ?vs. fmlookup (vreg_variables (oc_variables b)) (var_id v) = Some v"
    using vs(2) b(3) by simp
  obtain u where u: "hist.valid_run (map (new_mode_value coll ?m) ?vs) b u"
    "vreg_collections (oc_variables u) = vreg_collections (oc_variables b)"
    "\<forall>i. i \<notin> var_id ` set ?vs \<longrightarrow>
       fmlookup (vreg_variables (oc_variables u)) i = fmlookup (vreg_variables (oc_variables b)) i"
    "\<forall>v \<in> set ?vs. fmlookup (vreg_variables (oc_variables u)) (var_id v) = Some (put_value ?m (mode_seed coll v) v)"
    using run_set_values[OF _ vs(1) have_vs, where coll = coll and m = ?m] assms(4) b(2) by auto
  have run: "hist.valid_run (tx_ops tx) ?c u" unfolding ops using b(1) u(1) by (rule valid_run_join)
  have ne: "tx_ops tx \<noteq> []" by (simp add: ops add_mode_head_def)
  obtain d1 d2 where d: "doc_apply_transaction now tx d = (Inr (), d1)"
    "run_each do_op (tx_ops tx) ?c = (Inr (), doc_slices d1)"
    "doc_undo later d1 = (Inr True, d2)" "ctx_same (doc_slices d2) ?c"
    by (rule doc_transaction_undone[OF assms(1-3) run ne])
  have "ctx_same (doc_slices d1) u" using hist.app_run[OF run ctx_same_refl] d(2) by (simp add: run_each_hist)
  then have reg: "oc_variables (doc_slices d1) = oc_variables u" by (simp add: ctx_same_def)
  have "fmlookup (vreg_variables (oc_variables u)) i =
      map_option (\<lambda>v. if var_collection v = cid then put_value ?m (mode_seed coll v) v else v)
        (fmlookup (vreg_variables (oc_variables ?c)) i)" for i
  proof (cases "i \<in> var_id ` set ?vs")
    case True
    then obtain v where v: "v \<in> set ?vs" "i = var_id v" by blast
    then have "fmlookup (vreg_variables (oc_variables ?c)) i = Some v" "var_collection v = cid" using vs(2) by simp_all
    with u(4) v show ?thesis by simp
  next
    case False
    then have "var_collection v \<noteq> cid" if "fmlookup (vreg_variables (oc_variables ?c)) i = Some v" for v
      using vs(2)[of v] registry_idsD[OF assms(5) that] that by force
    with u(3) b(3) False show ?thesis
      by (cases "fmlookup (vreg_variables (oc_variables ?c)) i") simp_all
  qed
  then show ?thesis using d b(4,5) u(2) by (intro exI[of _ d1] exI[of _ d2]) (simp add: reg)
qed

definition sample_mode_doc :: doc where
  "sample_mode_doc = sample_doc\<lparr>doc_slices := sample_ctx\<lparr>oc_variables := sample_registry\<rparr>\<rparr>"

lemma sample_mode_doc_parts:
  "doc_slices sample_mode_doc = sample_ctx\<lparr>oc_variables := sample_registry\<rparr>"
  "doc_history sample_mode_doc = history_with_max_depth 10"
  by (simp_all add: sample_mode_doc_def)

lemma sample_registry_ids: "registry_ids sample_registry"
  by (auto simp: registry_ids_def list_all_iff fm_keys_set sample_registry_def sample_variable_def)

theorem add_mode_transaction_effect_witness:
  "\<exists>tx d1 d2. add_mode_transaction (Id 1) \<lparr>mode_id = Id 2, mode_name = ''Dark''\<rparr> sample_mode_doc = Inr tx \<and>
     doc_apply_transaction 5 tx sample_mode_doc = (Inr (), d1) \<and>
     map_option (\<lambda>v. value_for_mode v (Id 2)) (fmlookup (vreg_variables (oc_variables (doc_slices d1))) (Id 2)) =
       Some (Some (VarValue_String ''hi'')) \<and>
     doc_undo 6 d1 = (Inr True, d2) \<and> ctx_same (doc_slices d2) (doc_slices sample_mode_doc)"
proof -
  let ?m = "\<lparr>mode_id = Id 2, mode_name = ''Dark''\<rparr> :: var_mode"
  have coll: "fmlookup (vreg_collections (oc_variables (doc_slices sample_mode_doc))) (Id 1) = Some sample_collection"
    by (simp add: sample_mode_doc_parts sample_registry_def)
  obtain tx where tx: "add_mode_transaction (Id 1) ?m sample_mode_doc = Inr tx"
    unfolding add_mode_transaction_def coll by (simp add: sample_collection_def has_mode_def)
  have s: "session 10 (doc_history sample_mode_doc, doc_slices sample_mode_doc)"
    by (simp add: sample_mode_doc_parts session_start)
  have closed: "h_open (doc_history sample_mode_doc) = None"
    by (simp add: sample_mode_doc_parts history_with_max_depth_def history_default_def)
  have inv: "scene_inv (oc_scene (doc_slices sample_mode_doc))" by (simp add: sample_mode_doc_parts sample_scene_inv)
  have ids: "registry_ids (oc_variables (doc_slices sample_mode_doc))"
    by (simp add: sample_mode_doc_parts sample_registry_ids)
  obtain d1 d2 where d: "doc_apply_transaction 5 tx sample_mode_doc = (Inr (), d1)"
    "\<forall>i. fmlookup (vreg_variables (oc_variables (doc_slices d1))) i =
       map_option (\<lambda>v. if var_collection v = Id 1 then put_value (mode_id ?m) (mode_seed sample_collection v) v else v)
         (fmlookup (vreg_variables (oc_variables (doc_slices sample_mode_doc))) i)"
    "doc_undo 6 d1 = (Inr True, d2)" "ctx_same (doc_slices d2) (doc_slices sample_mode_doc)"
    using add_mode_transaction_effect[OF s zero_less_numeral closed inv ids coll tx, of 5 6] by blast
  have "map_option (\<lambda>v. value_for_mode v (Id 2)) (fmlookup (vreg_variables (oc_variables (doc_slices d1))) (Id 2)) =
      Some (Some (VarValue_String ''hi''))"
    using d(2) by (simp add: sample_mode_doc_parts sample_registry_def sample_variable_def put_value_def mode_seed_def sample_collection_def value_for_mode_def)
  with tx d show ?thesis by blast
qed

end
