(* ===== verification/Journal.thy ===== *)
theory Journal
  imports DocModel
begin

text \<open>
  The session journal: the records of \<open>crates/fanta-doc/src/journal.rs\<close>, how an event of the history
  becomes a recorded step, the replay loop and the snapshot comparison of \<open>replay.rs\<close>, and the event
  loop of \<open>HeadlessDocument\<close> (\<open>crates/fanta-headless/src/document.rs\<close>). \<open>serde_json::to_value\<close> on
  operations, the clock and the wall-clock stamps are parameters; error messages of the replay are
  kept as values, before they are formatted.
\<close>

section \<open>Recorded steps\<close>

datatype provenance =
    Provenance_Input string json
  | Provenance_Rpc string json
  | Provenance_Gesture string json
  | Provenance_Undo
  | Provenance_Redo
  | Provenance_Replay
  | Provenance_Unknown

record recorded_step =
  step_seq :: u64
  step_revision :: u64
  step_provenance :: provenance
  step_label :: string
  step_ops :: "operation list"
  step_ts_ms :: u64

definition u64_saturating_succ :: "u64 \<Rightarrow> u64" where
  "u64_saturating_succ n = (if n = - 1 then n else n + 1)"

definition record_step ::
  "recorded_step list \<Rightarrow> provenance \<Rightarrow> transaction \<Rightarrow> u64 \<Rightarrow> u64 \<Rightarrow> recorded_step list" where
  \<comment> \<open>the push at the end of \<open>JournalEvent::record\<close>\<close>
  "record_step steps p tx revision ts =
     steps @
       [\<lparr>step_seq = (case last_opt steps of None \<Rightarrow> 0 | Some s \<Rightarrow> u64_saturating_succ (step_seq s)),
         step_revision = revision, step_provenance = p, step_label = tx_label tx, step_ops = tx_ops tx,
         step_ts_ms = ts\<rparr>]"

definition amend_step ::
  "(operation list \<Rightarrow> string + json) \<Rightarrow> recorded_step list \<Rightarrow> transaction \<Rightarrow> u64 \<Rightarrow> string + recorded_step list" where
  \<comment> \<open>the \<open>Amend\<close> arm; the comparison stops at the first disjunct that holds\<close>
  "amend_step to_value steps tx revision =
     (case last_opt steps of
        None \<Rightarrow> Inl ''layout amendment has no preceding commit''
      | Some prev \<Rightarrow>
          (let refuse = Inl ''layout amendment does not extend the preceding commit''
           in if step_provenance prev \<in> {Provenance_Undo, Provenance_Redo} \<or> step_label prev \<noteq> tx_label tx \<or>
                 length (tx_ops tx) < length (step_ops prev)
              then refuse
              else (case to_value (step_ops prev) of
                  Inl e \<Rightarrow> Inl e
                | Inr a \<Rightarrow>
                    (case to_value (take (length (step_ops prev)) (tx_ops tx)) of
                       Inl e \<Rightarrow> Inl e
                     | Inr b \<Rightarrow>
                         (if a \<noteq> b then refuse
                          else Inr (butlast steps @ [prev\<lparr>step_ops := tx_ops tx, step_revision := revision\<rparr>]))))))"

definition event_record ::
  "(operation list \<Rightarrow> string + json) \<Rightarrow> journal_event \<Rightarrow> recorded_step list \<Rightarrow> provenance \<Rightarrow> u64 \<Rightarrow> u64 \<Rightarrow>
   string + recorded_step list" where
  "event_record to_value ev steps p revision ts =
     (case ev of
        JournalEvent_Commit tx \<Rightarrow> Inr (record_step steps p tx revision ts)
      | JournalEvent_Undo tx \<Rightarrow> Inr (record_step steps Provenance_Undo tx revision ts)
      | JournalEvent_Redo tx \<Rightarrow> Inr (record_step steps Provenance_Redo tx revision ts)
      | JournalEvent_Amend tx \<Rightarrow> amend_step to_value steps tx revision)"

type_synonym event_note = "provenance \<times> u64 \<times> u64"

fun record_events ::
  "(operation list \<Rightarrow> string + json) \<Rightarrow> (journal_event \<times> event_note) list \<Rightarrow> recorded_step list \<Rightarrow>
   string + recorded_step list" where
  \<comment> \<open>a recorder that drains the channel, each event with what its caller knows of it\<close>
  "record_events to_value [] steps = Inr steps"
| "record_events to_value ((ev, p, revision, ts) # evs) steps =
     (case event_record to_value ev steps p revision ts of
        Inl e \<Rightarrow> Inl e
      | Inr steps' \<Rightarrow> record_events to_value evs steps')"

section \<open>Replay\<close>

datatype replay_error =
    ReplayError_Undo u64 scene_error
  | ReplayError_Redo u64 scene_error
  | ReplayError_Apply u64 scene_error

definition replay_step :: "i64 \<Rightarrow> recorded_step \<Rightarrow> doc \<Rightarrow> (replay_error + unit) \<times> doc" where
  "replay_step now st d =
     (case step_provenance st of
        Provenance_Undo \<Rightarrow>
          (case doc_undo now d of
             (Inl e, d') \<Rightarrow> (Inl (ReplayError_Undo (step_seq st) e), d')
           | (Inr _, d') \<Rightarrow> (Inr (), d'))
      | Provenance_Redo \<Rightarrow>
          (case doc_redo now d of
             (Inl e, d') \<Rightarrow> (Inl (ReplayError_Redo (step_seq st) e), d')
           | (Inr _, d') \<Rightarrow> (Inr (), d'))
      | _ \<Rightarrow>
          (case doc_apply_transaction now \<lparr>tx_label = step_label st, tx_ops = step_ops st\<rparr> d of
             (Inl e, d') \<Rightarrow> (Inl (ReplayError_Apply (step_seq st) e), d')
           | (Inr _, d') \<Rightarrow> (Inr (), d')))"

fun replay_steps :: "(nat \<Rightarrow> i64) \<Rightarrow> recorded_step list \<Rightarrow> nat \<Rightarrow> doc \<Rightarrow> (replay_error + nat) \<times> doc" where
  \<comment> \<open>the loop of \<open>replay_ops\<close> with its count of steps applied; the clock is read once per step\<close>
  "replay_steps clock [] applied d = (Inr applied, d)"
| "replay_steps clock (st # steps) applied d =
     (case replay_step (clock applied) st d of
        (Inl e, d') \<Rightarrow> (Inl e, d')
      | (Inr _, d') \<Rightarrow> replay_steps clock steps (applied + 1) d')"

definition history_reopen :: "history \<Rightarrow> history" where
  \<comment> \<open>a history saved with its document and loaded again: the skipped fields are at their defaults\<close>
  "history_reopen h = h\<lparr>h_open := None, h_sink := False, h_journal := [], h_edit_generation := 0\<rparr>"

section \<open>The headless document's journal\<close>

record headless_journal =
  headless_events :: "journal_event list"
  headless_transactions :: "transaction list"
  headless_ops :: "operation list"

definition drain_event :: "journal_event \<Rightarrow> transaction list \<Rightarrow> transaction list" where
  "drain_event ev txs =
     (case ev of
        JournalEvent_Commit tx \<Rightarrow> txs @ [tx]
      | JournalEvent_Redo tx \<Rightarrow> txs @ [tx]
      | JournalEvent_Amend tx \<Rightarrow> (if txs = [] then [tx] else butlast txs @ [tx])
      | JournalEvent_Undo _ \<Rightarrow> butlast txs)"

definition drain_journal :: "headless_journal \<Rightarrow> headless_journal" where
  "drain_journal j =
     (let txs = fold drain_event (headless_events j) (headless_transactions j);
          j1 = j\<lparr>headless_events := [], headless_transactions := txs\<rparr>
      in if headless_events j = [] then j1 else j1\<lparr>headless_ops := concat (map tx_ops txs)\<rparr>)"

end
