(* ===== verification/JournalProps.thy ===== *)
theory JournalProps
  imports Journal ModeTransactions
begin

text \<open>
  What the journal is for: a recording, replayed on the document it was started from, ends at the
  document the session ended at, with the same undo and redo stacks; and the flat list of operations
  the headless document keeps rebuilds its document in one run.
\<close>

section \<open>Events and the methods that send them\<close>

lemma emit_journal: "h_journal (emit ev h) = h_journal h @ (if h_sink h then [ev] else [])"
  by (simp add: emit_def)

lemma commit_transaction_journal:
  "h_journal (commit_transaction tx h) = h_journal h @ (if h_sink h then [JournalEvent_Commit tx] else [])"
  by (simp add: commit_transaction_def frame_simps emit_journal)

lemma undo_moves:
  assumes "history_undo h c = (Inr True, h', c')" and "h_open h = None"
  shows "h_undo h \<noteq> [] \<and> h_undo h' = butlast (h_undo h) \<and> h_redo h' = h_redo h @ [last (h_undo h)] \<and>
    h_open h' = None \<and> h_max_depth h' = h_max_depth h \<and> h_sink h' = h_sink h \<and>
    h_journal h' = h_journal h @ (if h_sink h then [JournalEvent_Undo (last (h_undo h))] else [])"
  using assms
  by (auto simp: history_undo_def Let_def frame_simps emit_journal split: prod.splits sum.splits if_splits)

lemma redo_moves:
  assumes "history_redo h c = (Inr True, h', c')"
  shows "h_redo h \<noteq> [] \<and> h_redo h' = butlast (h_redo h) \<and>
    h_undo h' = keep_last (h_max_depth h) (h_undo h @ [last (h_redo h)]) \<and>
    h_open h' = h_open h \<and> h_max_depth h' = h_max_depth h \<and> h_sink h' = h_sink h \<and>
    h_journal h' = h_journal h @ (if h_sink h then [JournalEvent_Redo (last (h_redo h))] else [])"
  using assms
  by (auto simp: history_redo_def Let_def frame_simps emit_journal push_undo_stack bump_generation_def
      split: prod.splits sum.splits if_splits)

lemma no_undo: "history_undo h c = (Inr False, h', c') \<Longrightarrow> h_open h = None \<Longrightarrow> h' = h \<and> c' = c"
  by (auto simp: history_undo_def Let_def split: prod.splits sum.splits if_splits)

lemma no_redo: "history_redo h c = (Inr False, h', c') \<Longrightarrow> h' = h \<and> c' = c"
  by (auto simp: history_redo_def Let_def split: prod.splits sum.splits if_splits)

lemma commit_transaction_fields:
  "h_undo (commit_transaction tx h) = keep_last (h_max_depth h) (h_undo h @ [tx])"
  "h_redo (commit_transaction tx h) = []" "h_open (commit_transaction tx h) = h_open h"
  "h_max_depth (commit_transaction tx h) = h_max_depth h" "h_sink (commit_transaction tx h) = h_sink h"
  by (simp_all add: commit_transaction_stack frame_simps)

lemma record_is_commit:
  "tx_ops tx \<noteq> [] \<Longrightarrow>
     record_applied_transaction tx h = commit_transaction tx (history_commit (bump_generation True h))"
  by (simp add: record_applied_transaction_def history_commit_def Let_def frame_simps split: option.split)

section \<open>The replayed history\<close>

inductive replayed :: "history \<times> op_ctx \<Rightarrow> journal_event list \<Rightarrow> history \<times> op_ctx \<Rightarrow> bool" for s0 where
  \<comment> \<open>what replaying these events one by one leads to\<close>
  replayed_none: "replayed s0 [] s0"
| replayed_commit: "replayed s0 evs (h, c) \<Longrightarrow> history_apply_transaction tx h c = (Inr (), h', c') \<Longrightarrow>
    replayed s0 (evs @ [JournalEvent_Commit tx]) (h', c')"
| replayed_undo: "replayed s0 evs (h, c) \<Longrightarrow> history_undo h c = (Inr b, h', c') \<Longrightarrow>
    replayed s0 (evs @ [JournalEvent_Undo tx]) (h', c')"
| replayed_redo: "replayed s0 evs (h, c) \<Longrightarrow> history_redo h c = (Inr b, h', c') \<Longrightarrow>
    replayed s0 (evs @ [JournalEvent_Redo tx]) (h', c')"

definition mirror :: "history \<times> op_ctx \<Rightarrow> op_ctx \<Rightarrow> transaction list \<Rightarrow> transaction list \<Rightarrow> nat \<Rightarrow>
    journal_event list \<Rightarrow> bool" where
  \<comment> \<open>replaying the events gives these stacks and, up to caches, this document\<close>
  "mirror s0 s us rs n evs \<longleftrightarrow>
     (\<exists>h c. replayed s0 evs (h, c) \<and> h_undo h = us \<and> h_redo h = rs \<and> h_open h = None \<and> h_max_depth h = n \<and>
        ctx_same s c)"

lemma mirrorE:
  fixes t :: timeline
  assumes "mirror s0 (tl_now t) us rs n evs" "hist.past (map tx_ops us) (tl_past t) (tl_now t)"
    "hist.future (map tx_ops rs) (tl_future t) (tl_now t)"
  obtains h c where "replayed s0 evs (h, c)" "implements t h c" "h_undo h = us" "h_redo h = rs"
    "h_open h = None" "h_max_depth h = n" "ctx_same (tl_now t) c"
  using assms by (auto simp: mirror_def implements_closed)

lemma mirror_commit:
  fixes t :: timeline
  assumes "mirror s0 (tl_now t) us rs n evs" "hist.past (map tx_ops us) (tl_past t) (tl_now t)"
    "hist.future (map tx_ops rs) (tl_future t) (tl_now t)"
    and run: "hist.valid_run (tx_ops tx) (tl_now t) c" and ne: "tx_ops tx \<noteq> []"
  shows "mirror s0 c (keep_last n (us @ [tx])) [] n (evs @ [JournalEvent_Commit tx])"
proof -
  obtain h b where h: "replayed s0 evs (h, b)" "implements t h b" "h_undo h = us" "h_redo h = rs"
    "h_open h = None" "h_max_depth h = n" "ctx_same (tl_now t) b"
    using assms(1-3) by (rule mirrorE)
  obtain c' where c': "history_apply_transaction tx h b =
      (Inr (), record_applied_transaction tx (history_commit h), c')" "ctx_same c' c"
    by (rule history_apply_transaction_implements[OF h(2) hist.valid_run_left[OF run ctx_same_sym[OF h(7)]] ne])
  have closed: "history_commit h = h" using h(5) by (simp add: history_commit_def)
  have "history_commit (bump_generation True h) = bump_generation True h"
    using h(5) by (simp add: history_commit_def frame_simps)
  then have "record_applied_transaction tx (history_commit h) = commit_transaction tx (bump_generation True h)"
    by (simp add: closed record_is_commit[OF ne])
  with replayed_commit[OF h(1) c'(1)] c'(2) h(3,5,6) show ?thesis
    unfolding mirror_def
    by (intro exI[of _ "commit_transaction tx (bump_generation True h)"] exI[of _ c'] conjI)
      (auto simp: commit_transaction_fields frame_simps ctx_same_sym)
qed

lemma mirror_undo:
  fixes t :: timeline
  assumes "mirror s0 (tl_now t) us rs n evs" "hist.past (map tx_ops us) (tl_past t) (tl_now t)"
    "hist.future (map tx_ops rs) (tl_future t) (tl_now t)" and ne: "us \<noteq> []"
  shows "mirror s0 (tl_now (tl_undo t)) (butlast us) (rs @ [last us]) n (evs @ [JournalEvent_Undo tx])"
proof -
  obtain h b where h: "replayed s0 evs (h, b)" "implements t h b" "h_undo h = us" "h_redo h = rs"
    "h_open h = None" "h_max_depth h = n" "ctx_same (tl_now t) b"
    using assms(1-3) by (rule mirrorE)
  have st: "settled h b t = t" using h(5) by (simp add: settled_def)
  have past: "tl_past t \<noteq> []" using hist.past_length[OF assms(2)] ne by auto
  obtain h' b' where u: "history_undo h b = (Inr True, h', b')" "implements (tl_undo t) h' b'" "h_open h' = None"
    by (rule history_undo_implements[OF h(2)]) (simp add: st past)
  from undo_moves[OF u(1) h(5)] replayed_undo[OF h(1) u(1), of tx] u(2,3) h(3,4,6) show ?thesis
    unfolding mirror_def by (intro exI[of _ h'] exI[of _ b'] conjI) (auto simp: implements_closed)
qed

lemma mirror_redo:
  fixes t :: timeline
  assumes "mirror s0 (tl_now t) us rs n evs" "hist.past (map tx_ops us) (tl_past t) (tl_now t)"
    "hist.future (map tx_ops rs) (tl_future t) (tl_now t)" and ne: "rs \<noteq> []"
  shows "mirror s0 (tl_now (tl_redo n t)) (keep_last n (us @ [last rs])) (butlast rs) n (evs @ [JournalEvent_Redo tx])"
proof -
  obtain h b where h: "replayed s0 evs (h, b)" "implements t h b" "h_undo h = us" "h_redo h = rs"
    "h_open h = None" "h_max_depth h = n" "ctx_same (tl_now t) b"
    using assms(1-3) by (rule mirrorE)
  have future: "tl_future t \<noteq> []" using hist.future_length[OF assms(3)] ne by auto
  obtain h' b' where u: "history_redo h b = (Inr True, h', b')" "implements (tl_redo n t) h' b'" "h_open h' = None"
    by (rule history_redo_implements[OF h(2,5)]) (simp add: future h(6))
  from redo_moves[OF u(1)] replayed_redo[OF h(1) u(1), of tx] u(2,3) h(3,4,6) show ?thesis
    unfolding mirror_def by (intro exI[of _ h'] exI[of _ b'] conjI) (auto simp: implements_closed)
qed

section \<open>Recorders\<close>

text \<open>
  A recorder reads the events and keeps a relation to the current document of the timeline and the two
  stacks. Its laws are that a commit, an undo and a redo keep the relation; a session of any length
  then does.
\<close>

definition recording ::
  "(op_ctx \<Rightarrow> transaction list \<Rightarrow> transaction list \<Rightarrow> nat \<Rightarrow> journal_event list \<Rightarrow> bool) \<Rightarrow>
   timeline \<Rightarrow> history \<Rightarrow> op_ctx \<Rightarrow> bool" where
  \<comment> \<open>the history stands for the timeline, records, and what it has sent fits its stacks\<close>
  "recording P t h c \<longleftrightarrow> implements t h c \<and> h_sink h \<and>
     P (tl_now t) (h_undo h) (h_redo h) (h_max_depth h) (h_journal h)"

locale recorder =
  fixes P :: "op_ctx \<Rightarrow> transaction list \<Rightarrow> transaction list \<Rightarrow> nat \<Rightarrow> journal_event list \<Rightarrow> bool"
  assumes P_commit: "P (tl_now t) us rs n evs \<Longrightarrow> hist.past (map tx_ops us) (tl_past t) (tl_now t) \<Longrightarrow>
      hist.future (map tx_ops rs) (tl_future t) (tl_now t) \<Longrightarrow> hist.valid_run (tx_ops tx) (tl_now t) c \<Longrightarrow>
      tx_ops tx \<noteq> [] \<Longrightarrow> P c (keep_last n (us @ [tx])) [] n (evs @ [JournalEvent_Commit tx])"
    and P_undo: "P (tl_now t) us rs n evs \<Longrightarrow> hist.past (map tx_ops us) (tl_past t) (tl_now t) \<Longrightarrow>
      hist.future (map tx_ops rs) (tl_future t) (tl_now t) \<Longrightarrow> us \<noteq> [] \<Longrightarrow>
      P (tl_now (tl_undo t)) (butlast us) (rs @ [last us]) n (evs @ [JournalEvent_Undo (last us)])"
    and P_redo: "P (tl_now t) us rs n evs \<Longrightarrow> hist.past (map tx_ops us) (tl_past t) (tl_now t) \<Longrightarrow>
      hist.future (map tx_ops rs) (tl_future t) (tl_now t) \<Longrightarrow> rs \<noteq> [] \<Longrightarrow>
      P (tl_now (tl_redo n t)) (keep_last n (us @ [last rs])) (butlast rs) n (evs @ [JournalEvent_Redo (last rs)])"
begin

lemma recordingD:
  assumes "recording P t h c"
  shows "implements t h c" "h_sink h" "P (tl_now t) (h_undo h) (h_redo h) (h_max_depth h) (h_journal h)"
    "hist.past (map tx_ops (h_undo h)) (tl_past t) (tl_now t)"
    "hist.future (map tx_ops (h_redo h)) (tl_future t) (tl_now t)"
  using assms by (simp_all add: recording_def implements_def)

lemma recording_frame:
  assumes "recording P t h c" "implements t h' c'" "h_undo h' = h_undo h" "h_redo h' = h_redo h"
    "h_max_depth h' = h_max_depth h" "h_sink h' = h_sink h" "h_journal h' = h_journal h"
  shows "recording P t h' c'"
  using assms by (simp add: recording_def)

lemma recording_edit:
  assumes r: "recording P t h b" and "h_open h' = None" "hist.valid_run (tx_ops tx) (tl_now t) c" "tx_ops tx \<noteq> []"
    and f: "h_undo h' = h_undo h" "h_redo h' = h_redo h" "h_max_depth h' = h_max_depth h" "h_sink h' = h_sink h"
      "h_journal h' = h_journal h"
  shows "recording P (tl_edit (h_max_depth h) c t) (commit_transaction tx h') c"
proof -
  note d = recordingD[OF r]
  have "implements (tl_edit (h_max_depth h) c t) (commit_transaction tx h') c"
    using commit_transaction_implements[of h' t tx c] d(4) assms(2,3) f(1,3) by simp
  with P_commit[OF d(3-5) assms(3,4)] d(2) show ?thesis
    by (simp add: recording_def commit_transaction_fields commit_transaction_journal f tl_edit_def)
qed

lemma recording_commit:
  assumes r: "recording P t h c"
  shows "recording P (settled h c t) (history_commit h) c"
proof (cases "h_open h")
  case None
  with r show ?thesis by (simp add: history_commit_def settled_def)
next
  case (Some tx)
  show ?thesis
  proof (cases "tx_ops tx = []")
    case True
    then have "settled h c t = t" "history_commit h = h\<lparr>h_open := None\<rparr>"
      using Some by (simp_all add: settled_def history_commit_def)
    with history_commit_implements[OF recordingD(1)[OF r]] recording_frame[OF r] show ?thesis by simp
  next
    case False
    have "hist.valid_run (tx_ops tx) (tl_now t) c" using recordingD(1)[OF r] Some by (simp add: implements_def)
    with recording_edit[OF r, of "h\<lparr>h_open := None\<rparr>" tx c] Some False show ?thesis
      by (simp add: history_commit_def settled_def)
  qed
qed

lemma recording_bump: "recording P t h c \<Longrightarrow> recording P t (bump_generation b h) c"
  by (simp add: recording_def implements_def bump_generation_def)

lemma recording_apply:
  assumes r: "recording P t h c" and v: "valid_op op c" and a: "history_apply op h c = (Inr (), h', c')"
  shows "\<exists>t'. recording P t' h' c'"
proof -
  have op: "do_op op c = (Inr (), c')"
    using a by (auto simp: history_apply_def Let_def split: prod.splits sum.splits)
  note imp = history_apply_implements[OF recordingD(1)[OF r] v a]
  show ?thesis
  proof (cases "h_open h")
    case (Some tx)
    with a op have "h' = (bump_generation True h)\<lparr>h_open := Some (transaction_push op tx)\<rparr>"
      by (auto simp: history_apply_def Let_def frame_simps)
    with imp Some recording_frame[OF r, of h' c'] show ?thesis by (auto simp: frame_simps)
  next
    case None
    let ?tx = "transaction_push op (transaction_new (operation_label op))"
    have h': "h' = commit_transaction ?tx (bump_generation True h)"
      using a op None by (auto simp: history_apply_def Let_def frame_simps)
    have "ctx_same (tl_now t) c" using recordingD(1)[OF r] None by (simp add: implements_closed)
    then have "hist.valid_run (tx_ops ?tx) (tl_now t) c'"
      using hist.valid_run_left[OF single_valid_run[OF v op]] by simp
    from recording_edit[OF r _ this, of "bump_generation True h"] None
    have "recording P (tl_edit (h_max_depth h) c' t) h' c'" by (simp add: h' frame_simps)
    then show ?thesis ..
  qed
qed

lemma recording_record:
  assumes r: "recording P t h b" and run: "hist.valid_run (tx_ops tx) b c"
  shows "\<exists>t'. recording P t' (record_applied_transaction tx h) c"
proof (cases "tx_ops tx = []")
  case True
  with run have "ctx_same b c" by (auto elim: hist.valid_run.cases)
  with recording_commit[OF r] have "recording P (settled h b t) (history_commit h) c"
    by (auto simp: recording_def implements_closed intro: ctx_same_trans)
  then show ?thesis by (auto simp: record_empty[OF True])
next
  case False
  let ?h = "history_commit (bump_generation True h)" and ?t = "settled (bump_generation True h) b t"
  have r': "recording P ?t ?h b" by (rule recording_commit[OF recording_bump[OF r]])
  then have "ctx_same (tl_now ?t) b" using recordingD(1)[OF r'] by (simp add: implements_closed)
  from recording_edit[OF r' _ hist.valid_run_left[OF run this] False, of ?h]
  have "recording P (tl_edit (h_max_depth ?h) c ?t) (commit_transaction tx ?h) c" by simp
  then show ?thesis by (auto simp: record_is_commit[OF False])
qed

lemma recording_transaction:
  assumes r: "recording P t h c" and run: "hist.valid_run (tx_ops tx) c u"
    and a: "history_apply_transaction tx h c = (q, h', c')"
  shows "\<exists>t'. recording P t' h' c'"
proof (cases "tx_ops tx = []")
  case True
  with a committed_is_commit[of h] have "h' = history_commit h" "c' = c"
    by (simp_all add: history_apply_transaction_def Let_def split: if_splits)
  with recording_commit[OF r] show ?thesis by auto
next
  case False
  obtain c1 where c1: "history_apply_transaction tx h c =
      (Inr (), record_applied_transaction tx (history_commit h), c1)" "ctx_same c1 u"
    by (rule history_apply_transaction_implements[OF recordingD(1)[OF r] run False])
  have "hist.valid_run (tx_ops tx) c c1" using run ctx_same_sym[OF c1(2)] by (rule hist.valid_run_right)
  from recording_record[OF recording_commit[OF r] this] show ?thesis using a c1(1) by simp
qed

lemma recording_undo:
  assumes r: "recording P t h c" and u: "history_undo h c = (q, h', c')"
  shows "\<exists>t'. recording P t' h' c'"
proof -
  let ?h = "history_commit h" and ?t = "settled h c t"
  have r': "recording P ?t ?h c" by (rule recording_commit[OF r])
  have again: "history_commit ?h = ?h" by (simp add: history_commit_def[of ?h])
  have u': "history_undo ?h c = (q, h', c')"
    using u unfolding history_undo_def committed_is_commit by (simp only: again)
  have open': "h_open ?h = None" by simp
  have st: "settled ?h c ?t = ?t" by (simp add: settled_def)
  obtain h2 c2 where h2: "history_undo ?h c = (Inr (tl_past ?t \<noteq> []), h2, c2)" "implements (tl_undo ?t) h2 c2"
    by (rule history_undo_implements[OF recordingD(1)[OF r'], unfolded st])
  then have eq: "q = Inr (tl_past ?t \<noteq> [])" "h2 = h'" "c2 = c'" using u' by simp_all
  show ?thesis
  proof (cases "tl_past ?t = []")
    case True
    with u' eq(1) no_undo[OF _ open', of c h' c'] r' show ?thesis by auto
  next
    case False
    with u' eq(1) undo_moves[OF _ open', of c h' c']
    have m: "h_undo ?h \<noteq> [] \<and> h_undo h' = butlast (h_undo ?h) \<and> h_redo h' = h_redo ?h @ [last (h_undo ?h)] \<and>
      h_open h' = None \<and> h_max_depth h' = h_max_depth ?h \<and> h_sink h' = h_sink ?h \<and>
      h_journal h' = h_journal ?h @ (if h_sink ?h then [JournalEvent_Undo (last (h_undo ?h))] else [])" by simp
    from P_undo[OF recordingD(3-5)[OF r']] m h2(2) eq recordingD(2)[OF r'] show ?thesis
      by (intro exI[of _ "tl_undo ?t"]) (simp add: recording_def del: history_commit_frame)
  qed
qed

lemma recording_redo:
  assumes r: "recording P t h c" and closed: "h_open h = None" and u: "history_redo h c = (q, h', c')"
  shows "\<exists>t'. recording P t' h' c'"
proof -
  obtain h2 c2 where h2: "history_redo h c = (Inr (tl_future t \<noteq> []), h2, c2)"
    "implements (tl_redo (h_max_depth h) t) h2 c2"
    by (rule history_redo_implements[OF recordingD(1)[OF r] closed])
  then have eq: "q = Inr (tl_future t \<noteq> [])" "h2 = h'" "c2 = c'" using u by simp_all
  show ?thesis
  proof (cases "tl_future t = []")
    case True
    with u eq(1) no_redo[of h c h' c'] r show ?thesis by auto
  next
    case False
    with u eq(1) redo_moves[of h c h' c'] P_redo[OF recordingD(3-5)[OF r]] h2(2) eq(2,3) recordingD(2)[OF r]
    show ?thesis by (intro exI[of _ "tl_redo (h_max_depth h) t"]) (simp add: recording_def)
  qed
qed

lemma recording_step:
  assumes "session_step s s'" "recording P t (fst s) (snd s)"
  shows "\<exists>t'. recording P t' (fst s') (snd s')"
  using assms
proof (induction rule: session_step.induct)
  case (Begin h c label)
  then have r: "recording P (settled h c t) (history_commit h) c" using recording_commit by simp
  have "history_begin label h = (history_commit h)\<lparr>h_open := Some (transaction_new label)\<rparr>"
    unfolding history_begin_def committed_is_commit by simp
  with recording_frame[OF r, of "history_begin label h" c] history_begin_implements[of t h c label]
    recordingD(1)[of t h c] Begin show ?case by auto
next
  case (Label h c label)
  with recording_frame[of t h c "snd (set_open_label label h)" c] set_open_label_implements[of t h c label]
    recordingD(1)[of t h c] show ?case
    by (auto simp: set_open_label_def split: option.splits)
next
  case (Abort h c r h' c')
  obtain h2 c2 where "history_abort_with h c = (Inr (), h2, c2)" "implements t h2 c2" "h_undo h2 = h_undo h"
    "h_redo h2 = h_redo h" "h_max_depth h2 = h_max_depth h" "h_sink h2 = h_sink h" "h_journal h2 = h_journal h"
    using history_abort_implements[of t h c] recordingD(1)[of t h c] Abort.prems by (metis fst_conv snd_conv)
  with Abort recording_frame[of t h c h2 c2] show ?case by auto
next
  case (Rollback len h c r h' c')
  obtain h2 c2 where "history_rollback_open_to len h c = (Inr (), h2, c2)" "implements t h2 c2" "h_undo h2 = h_undo h"
    "h_redo h2 = h_redo h" "h_max_depth h2 = h_max_depth h" "h_sink h2 = h_sink h" "h_journal h2 = h_journal h"
    using history_rollback_implements[of t h c len] recordingD(1)[of t h c] Rollback.prems by (metis fst_conv snd_conv)
  with Rollback recording_frame[of t h c h2 c2] show ?case by auto
qed (auto intro: recording_commit recording_apply recording_transaction recording_record recording_undo recording_redo)

end

interpretation mir: recorder "mirror s0" for s0
  by unfold_locales (rule mirror_commit mirror_undo mirror_redo; assumption)+

section \<open>Replaying what was recorded\<close>

inductive recorded_session :: "nat \<Rightarrow> history \<times> op_ctx \<Rightarrow> history \<times> op_ctx \<Rightarrow> bool" for n where
  \<comment> \<open>a recorder is attached between two gestures of a session, which then goes on\<close>
  rec_start: "session n (h, c) \<Longrightarrow> h_open h = None \<Longrightarrow> recorded_session n (h, c) (set_journal_sink True h, c)"
| rec_more: "recorded_session n s0 s \<Longrightarrow> session_step s s' \<Longrightarrow> recorded_session n s0 s'"

lemma replayed_no_amend: "replayed s0 evs s \<Longrightarrow> JournalEvent_Amend tx \<notin> set evs"
  by (induction rule: replayed.induct) auto

definition step_for :: "journal_event \<Rightarrow> recorded_step \<Rightarrow> bool" where
  "step_for ev st =
     (case ev of
        JournalEvent_Commit tx \<Rightarrow> step_provenance st \<notin> {Provenance_Undo, Provenance_Redo} \<and>
          step_label st = tx_label tx \<and> step_ops st = tx_ops tx
      | JournalEvent_Undo tx \<Rightarrow> step_provenance st = Provenance_Undo
      | JournalEvent_Redo tx \<Rightarrow> step_provenance st = Provenance_Redo
      | JournalEvent_Amend _ \<Rightarrow> False)"

lemma record_events_steps:
  assumes "\<forall>ev \<in> fst ` set evs. \<forall>tx. ev \<noteq> JournalEvent_Amend tx"
    and "\<forall>x \<in> set evs. fst (snd x) \<notin> {Provenance_Undo, Provenance_Redo}"
  shows "\<exists>new. record_events to_value evs steps = Inr (steps @ new) \<and> list_all2 step_for (map fst evs) new"
  using assms
proof (induction evs arbitrary: steps)
  case (Cons x evs)
  obtain ev p revision ts where x: "x = (ev, p, revision, ts)" by (cases x) auto
  obtain st where st: "event_record to_value ev steps p revision ts = Inr (steps @ [st])" "step_for ev st"
    using Cons.prems by (cases ev) (auto simp: x event_record_def record_step_def step_for_def)
  from Cons.IH[of "steps @ [st]"] Cons.prems obtain new where
    "record_events to_value evs (steps @ [st]) = Inr ((steps @ [st]) @ new)" "list_all2 step_for (map fst evs) new"
    by auto
  with st show ?case by (intro exI[of _ "st # new"]) (simp add: x)
qed simp

lemma replay_steps_append:
  "replay_steps clock (xs @ ys) k d =
     (case replay_steps clock xs k d of (Inl e, d') \<Rightarrow> (Inl e, d') | (Inr m, d') \<Rightarrow> replay_steps clock ys m d')"
  by (induction xs arbitrary: k d) (simp_all split: prod.splits sum.splits)

lemma replay_step_for:
  assumes "step_for ev st"
    and "case ev of
        JournalEvent_Commit tx \<Rightarrow> \<exists>r. history_apply_transaction tx (doc_history d) (doc_slices d) = (Inr r, h, c)
      | JournalEvent_Undo _ \<Rightarrow> \<exists>r. history_undo (doc_history d) (doc_slices d) = (Inr r, h, c)
      | JournalEvent_Redo _ \<Rightarrow> \<exists>r. history_redo (doc_history d) (doc_slices d) = (Inr r, h, c)
      | JournalEvent_Amend _ \<Rightarrow> False"
  shows "\<exists>d'. replay_step now st d = (Inr (), d') \<and> doc_history d' = h \<and> doc_slices d' = c"
proof (cases ev)
  case (JournalEvent_Commit tx)
  then have tx: "\<lparr>tx_label = step_label st, tx_ops = step_ops st\<rparr> = tx"
    and p: "step_provenance st \<notin> {Provenance_Undo, Provenance_Redo}"
    using assms(1) by (simp_all add: step_for_def)
  have "doc_apply_transaction now tx d = (Inr (), stamp_modified now (d\<lparr>doc_history := h, doc_slices := c\<rparr>))"
    using assms(2) JournalEvent_Commit by (auto simp: doc_apply_transaction_def with_history_def)
  with p have "replay_step now st d = (Inr (), stamp_modified now (d\<lparr>doc_history := h, doc_slices := c\<rparr>))"
    unfolding replay_step_def tx by (cases "step_provenance st") simp_all
  then show ?thesis by (simp add: stamp_modified_def)
qed (use assms in \<open>auto simp: step_for_def replay_step_def doc_undo_def doc_redo_def with_history_def
    stamp_modified_def\<close>)

lemma replay_snoc:
  assumes "list_all2 step_for (evs @ [ev]) steps"
    and "\<And>steps. list_all2 step_for evs steps \<Longrightarrow>
      \<exists>d. replay_steps clock steps 0 d0 = (Inr (length steps), d) \<and> (doc_history d, doc_slices d) = (h, c)"
    and "case ev of
        JournalEvent_Commit tx \<Rightarrow> \<exists>r. history_apply_transaction tx h c = (Inr r, h', c')
      | JournalEvent_Undo _ \<Rightarrow> \<exists>r. history_undo h c = (Inr r, h', c')
      | JournalEvent_Redo _ \<Rightarrow> \<exists>r. history_redo h c = (Inr r, h', c')
      | JournalEvent_Amend _ \<Rightarrow> False"
  shows "\<exists>d. replay_steps clock steps 0 d0 = (Inr (length steps), d) \<and> (doc_history d, doc_slices d) = (h', c')"
proof -
  obtain init st where s: "steps = init @ [st]" "list_all2 step_for evs init" "step_for ev st"
    using assms(1) by (auto simp: list_all2_append1 list_all2_Cons1)
  obtain d where d: "replay_steps clock init 0 d0 = (Inr (length init), d)" "doc_history d = h" "doc_slices d = c"
    using assms(2)[OF s(2)] by auto
  obtain d' where "replay_step (clock (length init)) st d = (Inr (), d')" "doc_history d' = h'" "doc_slices d' = c'"
    using replay_step_for[OF s(3), of d h' c' "clock (length init)"] assms(3) d(2,3) by auto
  with d(1) show ?thesis by (auto simp: s(1) replay_steps_append)
qed

lemma replay_follows:
  assumes "replayed (doc_history d0, doc_slices d0) evs s" "list_all2 step_for evs steps"
  shows "\<exists>d. replay_steps clock steps 0 d0 = (Inr (length steps), d) \<and> (doc_history d, doc_slices d) = s"
  using assms
proof (induction arbitrary: steps rule: replayed.induct)
  case (replayed_commit evs h c tx h' c')
  from replay_snoc[OF replayed_commit.prems replayed_commit.IH] replayed_commit.hyps(2) show ?case by simp
next
  case (replayed_undo evs h c b h' c' tx)
  from replay_snoc[OF replayed_undo.prems replayed_undo.IH] replayed_undo.hyps(2) show ?case by simp
next
  case (replayed_redo evs h c b h' c' tx)
  from replay_snoc[OF replayed_redo.prems replayed_redo.IH] replayed_redo.hyps(2) show ?case by simp
qed simp

lemma recorded_start:
  assumes "session n (h0, c0)" "h_open h0 = None"
  obtains t where "implements t h0 c0" "h_max_depth h0 = n"
  using session_implements[OF assms(1)] by auto

lemma set_journal_sink_implements: "implements t h c \<Longrightarrow> implements t (set_journal_sink b h) c"
  by (simp add: implements_def set_journal_sink_def)


lemma sample_recording:
  obtains h c where "recorded_session 10 (history_with_max_depth 10, sample_ctx) (h, c)" "h_open h = None"
    "length (h_journal h) = 1"
proof -
  let ?h = "history_with_max_depth 10" and ?tx = "transaction_push sample_delete (transaction_new (operation_label sample_delete))"
  let ?s = "set_journal_sink True ?h"
  obtain h1 c1 where "do_op sample_delete sample_ctx = (Inr (), c1)" by (rule sample_session)
  then have a: "history_apply sample_delete ?s sample_ctx = (Inr (), commit_transaction ?tx (bump_generation True ?s), c1)"
    by (simp add: history_apply_def Let_def frame_simps set_journal_sink_def history_with_max_depth_def history_default_def)
  have "recorded_session 10 (?h, sample_ctx) (?s, sample_ctx)"
    by (rule rec_start[OF session_start]) (simp add: history_with_max_depth_def history_default_def)
  from rec_more[OF this Apply[OF sample_valid a]] show ?thesis
    by (rule that) (simp_all add: commit_transaction_fields commit_transaction_journal frame_simps set_journal_sink_def
        history_with_max_depth_def history_default_def)
qed


section \<open>The headless journal\<close>

definition kept :: "op_ctx \<Rightarrow> op_ctx \<Rightarrow> transaction list \<Rightarrow> transaction list \<Rightarrow> nat \<Rightarrow> journal_event list \<Rightarrow> bool" where
  \<comment> \<open>the drained transactions end with the undo stack and lead from the opened document to this one\<close>
  "kept c0 s us rs n evs \<longleftrightarrow>
     suffix us (fold drain_event evs []) \<and> hist.valid_run (concat (map tx_ops (fold drain_event evs []))) c0 s"

lemma keep_last_suffix: "suffix us txs \<Longrightarrow> suffix (keep_last n (us @ [tx])) (txs @ [tx])"
  unfolding keep_last_def by (rule suffix_order.trans[OF suffix_drop]) simp

lemma kept_push:
  assumes "kept c0 s us rs n evs" "hist.valid_run (tx_ops tx) s c" "drain_event ev = (\<lambda>txs. txs @ [tx])"
  shows "kept c0 c (keep_last n (us @ [tx])) rs' n (evs @ [ev])"
  using assms(1,2) keep_last_suffix[of us "fold drain_event evs []" n tx]
  by (auto simp: kept_def assms(3) simp del: suffix_snoc intro: valid_run_join)

lemma drain_push:
  "drain_event (JournalEvent_Commit tx) = (\<lambda>txs. txs @ [tx])" "drain_event (JournalEvent_Redo tx) = (\<lambda>txs. txs @ [tx])"
  "drain_event (JournalEvent_Undo tx) = butlast"
  by (simp_all add: drain_event_def fun_eq_iff)

lemma kept_undo:
  fixes t :: timeline
  assumes k: "kept c0 (tl_now t) us rs n evs" and past: "hist.past (map tx_ops us) (tl_past t) (tl_now t)"
    and ne: "us \<noteq> []"
  shows "kept c0 (tl_now (tl_undo t)) (butlast us) rs' n (evs @ [JournalEvent_Undo tx])"
proof -
  let ?txs = "fold drain_event evs []"
  define u0 where "u0 = butlast us"
  define u where "u = last us"
  have us: "us = u0 @ [u]" using ne by (simp add: u0_def u_def)
  obtain p where txs: "?txs = p @ u0 @ [u]" using k by (auto simp: kept_def us suffix_def)
  obtain s0 ss0 where s0: "tl_past t = ss0 @ [s0]" "hist.valid_run (tx_ops u) s0 (tl_now t)"
    using past by (simp add: us) (erule hist.past_snocE, auto)
  have "hist.valid_run (concat (map tx_ops (p @ u0)) @ tx_ops u) c0 (tl_now t)" using k by (simp add: kept_def txs)
  then obtain v where v: "hist.valid_run (concat (map tx_ops (p @ u0))) c0 v" "hist.valid_run (tx_ops u) v (tl_now t)"
    using hist.valid_run_append by blast
  have "ctx_same v s0"
    using hist.rvt_run[OF v(2) ctx_same_refl] hist.rvt_run[OF s0(2) ctx_same_refl]
    by (blast intro: ctx_same_sym ctx_same_trans)
  with v(1) have "hist.valid_run (concat (map tx_ops (p @ u0))) c0 s0" by (rule hist.valid_run_right)
  then show ?thesis
    by (simp add: kept_def drain_push txs tl_undo_def s0(1) us butlast_append suffix_def)
qed

lemma kept_redo:
  fixes t :: timeline
  assumes k: "kept c0 (tl_now t) us rs n evs" and future: "hist.future (map tx_ops rs) (tl_future t) (tl_now t)"
    and ne: "rs \<noteq> []"
  shows "kept c0 (tl_now (tl_redo n t)) (keep_last n (us @ [last rs])) (butlast rs) n (evs @ [JournalEvent_Redo (last rs)])"
proof -
  have "rs = butlast rs @ [last rs]" using ne by simp
  then have "hist.future (map tx_ops (butlast rs) @ [tx_ops (last rs)]) (tl_future t) (tl_now t)"
    using future by (metis list.simps(8,9) map_append)
  then obtain u fs where "tl_future t = fs @ [u]" "hist.valid_run (tx_ops (last rs)) (tl_now t) u"
    by (rule hist.future_snocE) auto
  with kept_push[OF k, of "last rs" u "JournalEvent_Redo (last rs)"] show ?thesis
    by (simp add: drain_push tl_redo_def)
qed

interpretation flat: recorder "kept c0" for c0
proof
  fix t :: timeline and us rs n evs c and tx :: transaction
  assume "kept c0 (tl_now t) us rs n evs" "hist.valid_run (tx_ops tx) (tl_now t) c"
  from kept_push[OF this drain_push(1)] show "kept c0 c (keep_last n (us @ [tx])) [] n (evs @ [JournalEvent_Commit tx])" .
qed (rule kept_undo kept_redo; assumption)+



end
