(* ===== verification/JsonValues.thy ===== *)
theory JsonValues
  imports DesignTypes "HOL-Library.List_Lexorder" "HOL-Library.Char_ord"
begin

text \<open>
  JSON values as \<open>serde_json\<close> documents them: equality, which compares objects as maps whatever the
  order of their members, lookup along a path of keys, and insertion and removal of members. The
  values \<open>serde_json\<close> can hold have distinct keys and finite floats (\<open>json_ok\<close>); on these equality is
  an equivalence. The order of strings is that of their bytes.
\<close>

section \<open>Equality\<close>

definition f64_eq :: "f64 \<Rightarrow> f64 \<Rightarrow> bool" where
  \<comment> \<open>\<open>==\<close> on \<open>f64\<close>\<close>
  "f64_eq a b \<longleftrightarrow> \<not> f64_is_nan a \<and> \<not> f64_is_nan b \<and> (a = b \<or> f64_bits a = 0 \<and> f64_bits b = 0)"

fun json_number_eq :: "json_number \<Rightarrow> json_number \<Rightarrow> bool" where
  "json_number_eq (PosInt a) (PosInt b) \<longleftrightarrow> a = b"
| "json_number_eq (NegInt a) (NegInt b) \<longleftrightarrow> a = b"
| "json_number_eq (Float a) (Float b) \<longleftrightarrow> f64_eq a b"
| "json_number_eq _ _ \<longleftrightarrow> False"

lemma json_member_size: "map_of m k = Some v \<Longrightarrow> size v < size (JObject m)"
proof (induction m)
  case (Cons kv m)
  show ?case
  proof (cases "fst kv = k")
    case True
    with Cons.prems show ?thesis by (cases kv) simp
  next
    case False
    with Cons.prems Cons.IH show ?thesis by (cases kv) simp
  qed
qed simp

lemma json_item_size: "x \<in> set xs \<Longrightarrow> size x < size (JArray xs)"
  by (induction xs) auto

lemma json_zip_size: "(x, y) \<in> set (zip xs ys) \<Longrightarrow> size x < size (JArray xs)"
  by (blast dest: set_zip_leftD intro: json_item_size)

lemma json_pair_size: "(k, v) \<in> set m \<Longrightarrow> size v < size (JObject m)"
  by (induction m) auto

function json_eq :: "json \<Rightarrow> json \<Rightarrow> bool" where
  \<comment> \<open>\<open>PartialEq for Value\<close>; an object is equal to another when they have as many members and every
      member of the one is equal to the other's member of that name\<close>
  "json_eq a b =
     (case (a, b) of
        (JNull, JNull) \<Rightarrow> True
      | (JBool x, JBool y) \<Rightarrow> x = y
      | (JNumber x, JNumber y) \<Rightarrow> json_number_eq x y
      | (JString x, JString y) \<Rightarrow> x = y
      | (JArray xs, JArray ys) \<Rightarrow> length xs = length ys \<and> list_all (\<lambda>(x, y). json_eq x y) (zip xs ys)
      | (JObject m, JObject n) \<Rightarrow>
          length m = length n \<and>
          list_all (\<lambda>(k, v). case map_of n k of None \<Rightarrow> False | Some w \<Rightarrow> json_eq v w) m
      | _ \<Rightarrow> False)"
  by pat_completeness auto
termination
  by (relation "measure (size \<circ> fst)")
    (auto dest: json_zip_size json_pair_size simp del: json.size)

declare json_eq.simps [simp del]

lemma json_eq_simps [simp]:
  "json_eq JNull JNull"
  "json_eq (JBool x) (JBool y) \<longleftrightarrow> x = y"
  "json_eq (JNumber c) (JNumber d) \<longleftrightarrow> json_number_eq c d"
  "json_eq (JString s) (JString t) \<longleftrightarrow> s = t"
  "json_eq (JArray xs) (JArray ys) \<longleftrightarrow> list_all2 json_eq xs ys"
  "json_eq (JObject m) (JObject n) \<longleftrightarrow>
     length m = length n \<and>
     list_all (\<lambda>(k, v). case map_of n k of None \<Rightarrow> False | Some w \<Rightarrow> json_eq v w) m"
  by (simp_all add: json_eq.simps list_all2_iff list_all_iff case_prod_beta)

lemma json_eq_shape:
  "json_eq JNull b \<longleftrightarrow> b = JNull"
  "json_eq (JBool x) b \<longleftrightarrow> b = JBool x"
  "json_eq (JNumber c) b \<longleftrightarrow> (\<exists>d. b = JNumber d \<and> json_number_eq c d)"
  "json_eq (JString s) b \<longleftrightarrow> b = JString s"
  "json_eq (JArray xs) b \<longleftrightarrow> (\<exists>ys. b = JArray ys \<and> list_all2 json_eq xs ys)"
  "json_eq (JObject m) b \<Longrightarrow> \<exists>n. b = JObject n"
  by (cases b; auto simp: json_eq.simps list_all2_iff list_all_iff)+

section \<open>Values that \<open>serde_json\<close> holds\<close>

function json_ok :: "json \<Rightarrow> bool" where
  "json_ok v =
     (case v of
        JNumber (Float f) \<Rightarrow> f64_is_finite f
      | JArray xs \<Rightarrow> list_all json_ok xs
      | JObject m \<Rightarrow> distinct (map fst m) \<and> list_all (\<lambda>(k, w). json_ok w) m
      | _ \<Rightarrow> True)"
  by pat_completeness auto
termination
  by (relation "measure size") (auto dest: json_item_size json_pair_size simp del: json.size)

declare json_ok.simps [simp del]

lemma json_ok_simps [simp]:
  "json_ok JNull" "json_ok (JBool b)" "json_ok (JString s)"
  "json_ok (JNumber (PosInt p))" "json_ok (JNumber (NegInt i))"
  "json_ok (JNumber (Float f)) \<longleftrightarrow> f64_is_finite f"
  "json_ok (JArray xs) \<longleftrightarrow> list_all json_ok xs"
  "json_ok (JObject m) \<longleftrightarrow> distinct (map fst m) \<and> list_all (\<lambda>(k, w). json_ok w) m"
  by (subst json_ok.simps, simp)+

definition json_opt_ok :: "json option \<Rightarrow> bool" where
  "json_opt_ok v \<longleftrightarrow> (case v of None \<Rightarrow> True | Some w \<Rightarrow> json_ok w)"

definition json_opt_eq :: "json option \<Rightarrow> json option \<Rightarrow> bool" where
  \<comment> \<open>\<open>==\<close> on \<open>Option<&Value>\<close>\<close>
  "json_opt_eq a b \<longleftrightarrow> rel_option json_eq a b"

lemma json_opt_simps [simp]:
  "json_opt_eq None None" "\<not> json_opt_eq None (Some v)" "\<not> json_opt_eq (Some v) None"
  "json_opt_eq (Some v) (Some w) \<longleftrightarrow> json_eq v w"
  "json_opt_ok None" "json_opt_ok (Some v) \<longleftrightarrow> json_ok v"
  by (simp_all add: json_opt_eq_def json_opt_ok_def)

lemma json_member_ok: "json_ok (JObject m) \<Longrightarrow> json_opt_ok (map_of m k)"
  by (cases "map_of m k") (auto dest: map_of_SomeD simp: list_all_iff)

lemma json_eq_objects:
  assumes "distinct (map fst m)" "distinct (map fst n)"
  shows "json_eq (JObject m) (JObject n) \<longleftrightarrow> (\<forall>k. json_opt_eq (map_of m k) (map_of n k))"
    (is "?eq \<longleftrightarrow> ?maps")
proof
  assume eq: ?eq
  have some: "json_opt_eq (map_of m k) (map_of n k)" if "k \<in> fst ` set m" for k
  proof -
    from that obtain v where v: "(k, v) \<in> set m" by force
    then have "map_of m k = Some v" using assms(1) by simp
    moreover from eq v obtain w where "map_of n k = Some w" "json_eq v w"
      by (force simp: list_all_iff split: option.splits)
    ultimately show ?thesis by simp
  qed
  have sub: "fst ` set m \<subseteq> fst ` set n"
  proof
    fix k assume "k \<in> fst ` set m"
    from some[OF this] this show "k \<in> fst ` set n"
      by (metis json_opt_simps(3) map_of_eq_None_iff not_None_eq)
  qed
  have "card (fst ` set m) = length m" "card (fst ` set n) = length n"
    using distinct_card[OF assms(1)] distinct_card[OF assms(2)] by simp_all
  with eq sub have same: "fst ` set m = fst ` set n" by (intro card_subset_eq) simp_all
  show ?maps
  proof
    fix k
    show "json_opt_eq (map_of m k) (map_of n k)"
    proof (cases "k \<in> fst ` set m")
      case False
      with same have "map_of m k = None" "map_of n k = None" by (simp_all add: map_of_eq_None_iff)
      then show ?thesis by simp
    qed (rule some)
  qed
next
  assume maps: ?maps
  have "k \<in> fst ` set m \<longleftrightarrow> k \<in> fst ` set n" for k
  proof -
    have "map_of m k = None \<longleftrightarrow> map_of n k = None"
      using spec[OF maps, of k] by (cases "map_of m k"; cases "map_of n k") simp_all
    then show ?thesis by (auto simp: map_of_eq_None_iff)
  qed
  then have "fst ` set m = fst ` set n" by blast
  then have "length m = length n" using distinct_card[OF assms(1)] distinct_card[OF assms(2)] by simp
  moreover have "case map_of n k of None \<Rightarrow> False | Some w \<Rightarrow> json_eq v w" if "(k, v) \<in> set m" for k v
  proof -
    have "map_of m k = Some v" using assms(1) that by simp
    with spec[OF maps, of k] show ?thesis by (cases "map_of n k") simp_all
  qed
  ultimately show ?eq by (auto simp: list_all_iff)
qed

lemma f64_eq_trans: "f64_eq a b \<Longrightarrow> f64_eq b c \<Longrightarrow> f64_eq a c"
  by (auto simp: f64_eq_def)

lemma json_number_eq_trans:
  "json_number_eq a b \<Longrightarrow> json_number_eq b c \<Longrightarrow> json_number_eq a c"
  by (cases a; cases b; cases c) (auto dest: f64_eq_trans)

lemma json_number_eq_sym: "json_number_eq a b \<Longrightarrow> json_number_eq b a"
  by (cases a; cases b) (auto simp: f64_eq_def)

lemma json_eq_refl [simp]: "json_ok v \<Longrightarrow> json_eq v v"
proof (induction v)
  case (JNumber c)
  then show ?case by (cases c) (auto simp: f64_eq_def f64_finite_not_nan)
next
  case (JArray xs)
  then show ?case by (auto simp: list_all_iff intro!: list.rel_refl_strong)
next
  case (JObject m)
  have "json_opt_eq (map_of m k) (map_of m k)" for k
  proof (cases "map_of m k")
    case (Some v)
    then have v: "(k, v) \<in> set m" by (rule map_of_SomeD)
    with JObject.prems have "json_ok v" by (auto simp: list_all_iff)
    with JObject.IH[OF v] Some show ?thesis by simp
  qed simp
  then show ?case using json_eq_objects JObject.prems by (simp del: json_eq_simps)
qed simp_all

lemma json_opt_eq_refl [simp]: "json_opt_ok v \<Longrightarrow> json_opt_eq v v"
  by (cases v) simp_all

lemma json_eq_trans:
  "json_eq a b \<Longrightarrow> json_eq b c \<Longrightarrow> json_ok a \<Longrightarrow> json_ok b \<Longrightarrow> json_ok c \<Longrightarrow> json_eq a c"
proof (induction a arbitrary: b c)
  case (JArray xs)
  then obtain ys zs where ys: "b = JArray ys" "list_all2 json_eq xs ys"
    and zs: "c = JArray zs" "list_all2 json_eq ys zs"
    by (auto simp: json_eq_shape)
  have "list_all2 json_eq xs zs"
  proof (rule list_all2_all_nthI)
    show "length xs = length zs" using ys(2) zs(2) by (auto dest!: list_all2_lengthD)
  next
    fix i assume i: "i < length xs"
    then have "length ys = length xs" "length zs = length xs"
      using ys(2) zs(2) by (auto dest!: list_all2_lengthD)
    then have "json_eq (xs ! i) (ys ! i)" "json_eq (ys ! i) (zs ! i)"
      "json_ok (xs ! i)" "json_ok (ys ! i)" "json_ok (zs ! i)"
      using i JArray.prems ys zs by (simp_all add: list_all_length list_all2_nthD)
    then show "json_eq (xs ! i) (zs ! i)" by (rule JArray.IH[OF nth_mem[OF i]])
  qed
  then show ?case by (simp add: zs)
next
  case (JObject m)
  from JObject.prems(1,2) obtain n r where n: "b = JObject n" and r: "c = JObject r"
    by (metis json_eq_shape(6))
  have d: "distinct (map fst m)" "distinct (map fst n)" "distinct (map fst r)"
    using JObject.prems n r by simp_all
  have "json_opt_eq (map_of m k) (map_of r k)" for k
  proof -
    have 1: "json_opt_eq (map_of m k) (map_of n k)" "json_opt_eq (map_of n k) (map_of r k)"
      using JObject.prems(1,2) json_eq_objects d unfolding n r by blast+
    have 2: "json_opt_ok (map_of m k)" "json_opt_ok (map_of n k)" "json_opt_ok (map_of r k)"
      using JObject.prems(3-5) unfolding n r by (blast intro: json_member_ok)+
    show ?thesis
    proof (cases "map_of m k")
      case (Some v)
      then have "(k, v) \<in> set m" by (rule map_of_SomeD)
      moreover from 1 Some obtain w u where w: "map_of n k = Some w" "map_of r k = Some u"
        by (cases "map_of n k"; cases "map_of r k") simp_all
      ultimately have "json_eq v u" using 1 2 Some by (intro JObject.IH[of "(k, v)" v w u]) simp_all
      with w Some show ?thesis by simp
    qed (use 1 in \<open>cases "map_of n k"; cases "map_of r k"; simp\<close>)
  qed
  then have "\<forall>k. json_opt_eq (map_of m k) (map_of r k)" by (rule allI)
  then show ?case unfolding r by (rule iffD2[OF json_eq_objects[OF d(1,3)]])
next
  case (JNumber x)
  from JNumber.prems(1,2) obtain y z where "b = JNumber y" "c = JNumber z"
    "json_number_eq x y" "json_number_eq y z"
    by (auto simp: json_eq_shape(3))
  then show ?case by (auto intro: json_number_eq_trans)
qed (simp_all add: json_eq_shape(1-4))

lemma json_eq_sym: "json_eq a b \<Longrightarrow> json_ok a \<Longrightarrow> json_ok b \<Longrightarrow> json_eq b a"
proof (induction a arbitrary: b)
  case (JArray xs)
  then obtain ys where ys: "b = JArray ys" "list_all2 json_eq xs ys"
    by (auto simp: json_eq_shape)
  have "list_all2 json_eq ys xs"
  proof (rule list_all2_all_nthI)
    show "length ys = length xs" using ys(2) by (auto dest!: list_all2_lengthD)
  next
    fix i assume "i < length ys"
    then have i: "i < length xs" "length ys = length xs"
      using ys(2) by (auto dest!: list_all2_lengthD)
    then show "json_eq (ys ! i) (xs ! i)"
      using JArray.IH[OF nth_mem[OF i(1)], of "ys ! i"] JArray.prems ys
      by (simp add: list_all_length list_all2_nthD)
  qed
  then show ?case by (simp add: ys)
next
  case (JObject m)
  from JObject.prems(1) obtain n where n: "b = JObject n" by (metis json_eq_shape(6))
  have d: "distinct (map fst m)" "distinct (map fst n)" using JObject.prems n by simp_all
  have "json_opt_eq (map_of n k) (map_of m k)" for k
  proof -
    have 1: "json_opt_eq (map_of m k) (map_of n k)"
      using JObject.prems(1) json_eq_objects d unfolding n by blast
    have 2: "json_opt_ok (map_of m k)" "json_opt_ok (map_of n k)"
      using JObject.prems(2,3) unfolding n by (blast intro: json_member_ok)+
    show ?thesis
    proof (cases "map_of m k")
      case (Some v)
      then have "(k, v) \<in> set m" by (rule map_of_SomeD)
      from JObject.IH[OF this] 1 2 Some show ?thesis by (cases "map_of n k") auto
    qed (use 1 in \<open>cases "map_of n k"; simp\<close>)
  qed
  then have "\<forall>k. json_opt_eq (map_of n k) (map_of m k)" by (rule allI)
  then show ?case unfolding n by (rule iffD2[OF json_eq_objects[OF d(2,1)]])
qed (auto simp: json_eq_shape(1-5) dest: json_number_eq_sym)

lemma json_opt_eq_trans:
  "json_opt_eq a b \<Longrightarrow> json_opt_eq b c \<Longrightarrow> json_opt_ok a \<Longrightarrow> json_opt_ok b \<Longrightarrow> json_opt_ok c \<Longrightarrow> json_opt_eq a c"
  by (cases a; cases b; cases c) (auto intro: json_eq_trans)

lemma json_opt_eq_sym: "json_opt_eq a b \<Longrightarrow> json_opt_ok a \<Longrightarrow> json_opt_ok b \<Longrightarrow> json_opt_eq b a"
  by (cases a; cases b) (auto intro: json_eq_sym)

section \<open>Lookup, insertion and removal\<close>

definition json_member :: "json option \<Rightarrow> string \<Rightarrow> json option" where
  \<comment> \<open>\<open>value.get(key)\<close>, through an \<open>Option\<close>\<close>
  "json_member v k = (case v of Some (JObject m) \<Rightarrow> map_of m k | _ \<Rightarrow> None)"

definition json_at :: "json option \<Rightarrow> string list \<Rightarrow> json option" where
  \<comment> \<open>the value at a path of keys\<close>
  "json_at v p = foldl json_member v p"

definition jmap_insert :: "string \<Rightarrow> json \<Rightarrow> (string \<times> json) list \<Rightarrow> (string \<times> json) list" where
  \<comment> \<open>\<open>Map::insert\<close>: in place when the key is present, else at the end\<close>
  "jmap_insert k v m =
     (if k \<in> fst ` set m then map (\<lambda>(k', w). if k' = k then (k', v) else (k', w)) m else m @ [(k, v)])"

definition jmap_remove :: "string \<Rightarrow> (string \<times> json) list \<Rightarrow> (string \<times> json) list" where
  \<comment> \<open>\<open>Map::remove\<close>, which swaps the last member into the free place\<close>
  "jmap_remove k m =
     (case list_position (\<lambda>(k', w). k' = k) m of
        None \<Rightarrow> m
      | Some i \<Rightarrow> butlast (m[i := last m]))"

fun json_as_i64 :: "json \<Rightarrow> i64 option" where
  \<comment> \<open>\<open>Value::as_i64\<close>\<close>
  "json_as_i64 (JNumber (PosInt n)) = (if unat n < 2 ^ 63 then Some n else None)"
| "json_as_i64 (JNumber (NegInt i)) = Some i"
| "json_as_i64 _ = None"

definition json_of_i64 :: "i64 \<Rightarrow> json" where
  \<comment> \<open>\<open>Value::from(i64)\<close>\<close>
  "json_of_i64 i = JNumber (if 0 \<le> sint i then PosInt i else NegInt i)"

lemma json_at_simps [simp]: "json_at v [] = v" "json_at v (k # p) = json_at (json_member v k) p"
  by (simp_all add: json_at_def)

lemma json_member_simps [simp]:
  "json_member None k = None" "json_member (Some (JObject m)) k = map_of m k"
  "json_member (Some JNull) k = None" "json_member (Some (JBool b)) k = None"
  "json_member (Some (JNumber c)) k = None" "json_member (Some (JString s)) k = None"
  "json_member (Some (JArray xs)) k = None"
  by (simp_all add: json_member_def)

lemma json_at_None [simp]: "json_at None p = None"
  by (induction p) simp_all

lemma json_at_append [simp]: "json_at v (p @ q) = json_at (json_at v p) q"
  by (simp add: json_at_def)

lemma json_opt_member_ok: "json_opt_ok v \<Longrightarrow> json_opt_ok (json_member v k)"
  by (auto simp: json_member_def intro: json_member_ok split: option.splits json.splits)

lemma json_at_ok: "json_opt_ok v \<Longrightarrow> json_opt_ok (json_at v p)"
  by (induction p arbitrary: v) (simp_all add: json_opt_member_ok)

lemma json_member_eq:
  assumes "json_opt_eq a b" "json_opt_ok a" "json_opt_ok b"
  shows "json_opt_eq (json_member a k) (json_member b k)"
proof (cases "\<exists>m. a = Some (JObject m)")
  case True
  then obtain m where m: "a = Some (JObject m)" by blast
  with assms(1) obtain n where n: "b = Some (JObject n)"
    by (cases b) (auto dest: json_eq_shape(6))
  from assms m n have "json_eq (JObject m) (JObject n)" "distinct (map fst m)" "distinct (map fst n)"
    by simp_all
  then show ?thesis using json_eq_objects m n by simp
next
  case False
  then have "json_member a k = None" by (simp add: json_member_def split: option.splits json.splits)
  moreover have "json_member b k = None"
  proof (rule ccontr)
    assume "json_member b k \<noteq> None"
    then obtain n where n: "b = Some (JObject n)"
      by (auto simp: json_member_def split: option.splits json.splits)
    with json_opt_eq_sym[OF assms] obtain w where "a = Some w" "json_eq (JObject n) w" by (cases a) auto
    with False json_eq_shape(6) show False by blast
  qed
  ultimately show ?thesis by simp
qed

lemma json_at_eq:
  "json_opt_eq a b \<Longrightarrow> json_opt_ok a \<Longrightarrow> json_opt_ok b \<Longrightarrow> json_opt_eq (json_at a p) (json_at b p)"
  by (induction p arbitrary: a b) (simp_all add: json_member_eq json_opt_member_ok)

lemma map_of_jmap_update:
  "map_of (map (\<lambda>(k', w). if k' = k then (k', v) else (k', w)) m) j =
     (if j = k then map_option (\<lambda>_. v) (map_of m k) else map_of m j)"
  by (induction m) auto

lemma map_of_jmap_insert [simp]: "map_of (jmap_insert k v m) = (map_of m)(k \<mapsto> v)"
proof (cases "k \<in> fst ` set m")
  case True
  then obtain w where "map_of m k = Some w" using map_of_eq_None_iff by (metis not_None_eq)
  with True show ?thesis by (simp add: jmap_insert_def map_of_jmap_update fun_eq_iff)
next
  case False
  then have "map_of m k = None" by (simp add: map_of_eq_None_iff)
  with False show ?thesis by (auto simp: jmap_insert_def map_add_def fun_eq_iff split: option.splits)
qed

lemma distinct_jmap_insert:
  assumes "distinct (map fst m)"
  shows "distinct (map fst (jmap_insert k v m))"
proof -
  have "map fst (map (\<lambda>(k', w). if k' = k then (k', v) else (k', w)) m) = map fst m"
    by (induction m) auto
  with assms show ?thesis by (cases "k \<in> fst ` set m") (simp_all only: jmap_insert_def if_True if_False, simp)
qed

lemma map_of_jmap_remove:
  assumes "distinct (map fst m)"
  shows "map_of (jmap_remove k m) = (map_of m)(k := None)"
proof (cases "list_position (\<lambda>(k', w). k' = k) m")
  case None
  then have "map_of m k = None" by (auto simp: map_of_eq_None_iff)
  moreover have "jmap_remove k m = m" unfolding jmap_remove_def None by simp
  ultimately show ?thesis by (auto simp: fun_eq_iff)
next
  case (Some i)
  then have i: "i < length m" "fst (m ! i) = k"
    using list_position_bound list_position_holds by (fastforce simp: case_prod_beta)+
  then obtain ys z where m: "m = ys @ [z]" by (cases m rule: rev_cases) auto
  show ?thesis
  proof (cases "i = length ys")
    case True
    then have "jmap_remove k m = ys" using Some m by (simp add: jmap_remove_def)
    moreover have "fst z = k" using True i m by simp
    moreover have "map_of ys k = None" using calculation assms m by (auto simp: map_of_eq_None_iff)
    ultimately show ?thesis using m
      by (cases z) (auto simp: fun_eq_iff map_add_def split: option.splits)
  next
    case False
    with i m have j: "i < length ys" by simp
    then have rm: "jmap_remove k m = ys[i := z]"
      using Some m by (simp add: jmap_remove_def list_update_append)
    obtain as c bs where ys: "ys = as @ c # bs" "length as = i"
      using j by (metis id_take_nth_drop length_take min.absorb4)
    then have c: "fst c = k" using i m by (simp add: nth_append)
    have upd: "ys[i := z] = as @ z # bs" using ys by (metis list_update_length)
    have d: "distinct (map fst (as @ z # bs))" using assms m ys by auto
    have "map_of (as @ z # bs) j = Some v \<longleftrightarrow> j \<noteq> k \<and> map_of m j = Some v" for j v
      unfolding map_of_eq_Some_iff[OF d] map_of_eq_Some_iff[OF assms]
      using c d assms by (auto simp: m ys(1) image_iff)
    then have "map_of (as @ z # bs) j = ((map_of m)(k := None)) j" for j
      by (cases "map_of (as @ z # bs) j"; cases "map_of m j") (auto split: if_splits)
    then show ?thesis unfolding rm upd by (rule ext)
  qed
qed

lemma distinct_jmap_remove:
  assumes "distinct (map fst m)"
  shows "distinct (map fst (jmap_remove k m))"
proof (cases "list_position (\<lambda>(k', w). k' = k) m")
  case None
  then have "jmap_remove k m = m" unfolding jmap_remove_def None by simp
  with assms show ?thesis by simp
next
  case (Some i)
  then have i: "i < length m" by (rule list_position_bound)
  then obtain ys z where m: "m = ys @ [z]" by (cases m rule: rev_cases) auto
  show ?thesis
  proof (cases "i = length ys")
    case True
    then show ?thesis using Some m assms by (simp add: jmap_remove_def)
  next
    case False
    with i m have j: "i < length ys" by simp
    then have "jmap_remove k m = ys[i := z]"
      using Some m by (simp add: jmap_remove_def list_update_append)
    moreover have "map fst (ys[i := z]) = (map fst ys)[i := fst z]" by (simp add: map_update)
    ultimately show ?thesis using assms m by (simp add: distinct_list_update)
  qed
qed

end
