(* ===== verification/DocMerge.thy ===== *)
theory DocMerge
  imports JsonValues
begin

text \<open>
  The three-way merge of concurrent edits, \<open>crates/fanta-format/src/project/merge.rs\<close>: the recursive
  merge of whole documents with its conflict paths, what \<open>merge_docs\<close> does to presence state and
  timestamps, and the merge of one artifact's header and node map with its structured conflicts.
  The accumulated conflict vector is the second result here. \<open>merge_docs\<close> is modelled between the
  serialization of the three documents and the loading of the result.

  What the two recursive merges have in common is the locale \<open>three_way\<close>: the three early returns and
  what is left, a conflict or a descent into the members. That no edit is lost is proved there once.
\<close>

section \<open>The recursive merges\<close>

definition merge_keys ::
  "(string \<times> json) list \<Rightarrow> (string \<times> json) list \<Rightarrow> (string \<times> json) list \<Rightarrow> string list" where
  \<comment> \<open>\<open>keys.sort(); keys.dedup()\<close>\<close>
  "merge_keys om tm bm = remdups_adj (sort (map fst om @ map fst tm @ map fst bm))"

definition push_key :: "string \<Rightarrow> string \<Rightarrow> string" where
  "push_key path key = (if path = '''' then key else path @ ''/'' @ key)"

definition conflict_label :: "string \<Rightarrow> string" where
  "conflict_label path = (if path = '''' then ''(document)'' else path)"

definition members_of :: "json option \<Rightarrow> (string \<times> json) list" where
  \<comment> \<open>\<open>base.and_then(Value::as_object).unwrap_or(&empty)\<close>\<close>
  "members_of v = (case v of Some (JObject m) \<Rightarrow> m | _ \<Rightarrow> [])"

definition keep_present :: "(string \<times> json option \<times> 'c list) list \<Rightarrow> json option \<times> 'c list" where
  \<comment> \<open>the end of the loop over keys: absent members are left out, conflicts are in order\<close>
  "keep_present rs =
     (Some (JObject (List.map_filter (\<lambda>(k, v, _). map_option (Pair k) v) rs)),
      concat (map (\<lambda>(_, _, cs). cs) rs))"

definition side_size :: "json option \<Rightarrow> nat" where
  "side_size v = (case v of None \<Rightarrow> 0 | Some w \<Rightarrow> Suc (size w))"

lemma side_size_member [simp]: "side_size (map_of om k) < side_size (Some (JObject om))"
  using json_member_size[of om k] by (cases "map_of om k") (simp_all del: json.size add: side_size_def)

function merge_value ::
  "json option \<Rightarrow> json option \<Rightarrow> json option \<Rightarrow> string \<Rightarrow> json option \<times> string list" where
  "merge_value base ours theirs path =
     (if json_opt_eq ours theirs then (ours, [])
      else if json_opt_eq ours base then (theirs, [])
      else if json_opt_eq theirs base then (ours, [])
      else (case (ours, theirs) of
              (Some (JObject om), Some (JObject tm)) \<Rightarrow>
                (let bm = members_of base
                 in keep_present (map (\<lambda>k. (k, merge_value (map_of bm k) (map_of om k) (map_of tm k)
                                               (push_key path k)))
                                    (merge_keys om tm bm)))
            | _ \<Rightarrow> (ours, [conflict_label path])))"
  by pat_completeness auto
termination
  by (relation "measure (\<lambda>(base, ours, theirs, path). side_size ours)") (auto simp del: json.size)

datatype json_path_segment = JsonPathSegment_Key string | JsonPathSegment_Index nat

datatype presence_value = PresenceValue_Missing | PresenceValue_Present json

definition presence_from_option :: "json option \<Rightarrow> presence_value" where
  "presence_from_option v =
     (case v of Some w \<Rightarrow> PresenceValue_Present w | None \<Rightarrow> PresenceValue_Missing)"

record raw_conflict =
  rc_path :: "json_path_segment list"
  rc_base :: presence_value
  rc_ours :: presence_value
  rc_theirs :: presence_value

definition raw_conflict_new ::
  "json_path_segment list \<Rightarrow> json option \<Rightarrow> json option \<Rightarrow> json option \<Rightarrow> raw_conflict" where
  "raw_conflict_new path base ours theirs =
     \<lparr>rc_path = path, rc_base = presence_from_option base, rc_ours = presence_from_option ours,
      rc_theirs = presence_from_option theirs\<rparr>"

function merge_value_structured ::
  "json option \<Rightarrow> json option \<Rightarrow> json option \<Rightarrow> json_path_segment list \<Rightarrow>
   json option \<times> raw_conflict list" where
  "merge_value_structured base ours theirs path =
     (if json_opt_eq ours theirs then (ours, [])
      else if json_opt_eq ours base then (theirs, [])
      else if json_opt_eq theirs base then (ours, [])
      else (case (base, ours, theirs) of
              (Some (JObject bm), Some (JObject om), Some (JObject tm)) \<Rightarrow>
                keep_present (map (\<lambda>k. (k, merge_value_structured (map_of bm k) (map_of om k) (map_of tm k)
                                             (path @ [JsonPathSegment_Key k])))
                                (merge_keys om tm bm))
            | _ \<Rightarrow> (ours, [raw_conflict_new path base ours theirs])))"
  by pat_completeness auto
termination
  by (relation "measure (\<lambda>(base, ours, theirs, path). side_size ours)") (auto simp del: json.size)

declare merge_value.simps [simp del] merge_value_structured.simps [simp del]

lemma merge_keys_set [simp]: "set (merge_keys om tm bm) = fst ` set om \<union> fst ` set tm \<union> fst ` set bm"
  by (auto simp: merge_keys_def)

lemma map_of_keep_present:
  "map_of (List.map_filter (\<lambda>(k, v, _). map_option (Pair k) v) (map (\<lambda>k. (k, f k)) ks)) k =
     (if k \<in> set ks then fst (f k) else None)"
proof (induction ks)
  case (Cons j ks)
  then show ?case by (cases "fst (f j)") (auto simp: List.map_filter_simps case_prod_beta)
qed (simp add: List.map_filter_simps)

lemma keep_present_conflicts:
  "snd (keep_present (map (\<lambda>k. (k, f k)) ks)) = concat (map (snd \<circ> f) ks)"
  by (simp add: keep_present_def comp_def case_prod_beta)

section \<open>What both merges promise\<close>

definition three_way_at ::
  "json option \<Rightarrow> json option \<Rightarrow> json option \<Rightarrow> json option \<Rightarrow> string list \<Rightarrow> bool" where
  \<comment> \<open>at this path the side that changed wins, and agreement is kept\<close>
  "three_way_at base ours theirs merged q \<longleftrightarrow>
     (json_opt_eq (json_at ours q) (json_at base q) \<longrightarrow> json_opt_eq (json_at merged q) (json_at theirs q)) \<and>
     (json_opt_eq (json_at theirs q) (json_at base q) \<longrightarrow> json_opt_eq (json_at merged q) (json_at ours q)) \<and>
     (json_opt_eq (json_at ours q) (json_at theirs q) \<longrightarrow> json_opt_eq (json_at merged q) (json_at ours q))"

definition disputed_at ::
  "json option \<Rightarrow> json option \<Rightarrow> json option \<Rightarrow> string list \<Rightarrow> bool" where
  \<comment> \<open>both sides changed the value at this path, and differently\<close>
  "disputed_at base ours theirs q \<longleftrightarrow>
     \<not> json_opt_eq (json_at ours q) (json_at theirs q) \<and>
     \<not> json_opt_eq (json_at ours q) (json_at base q) \<and>
     \<not> json_opt_eq (json_at theirs q) (json_at base q)"

locale three_way =
  fixes merge :: "json option \<Rightarrow> json option \<Rightarrow> json option \<Rightarrow> 'p \<Rightarrow> json option \<times> 'c list"
    and down :: "'p \<Rightarrow> string \<Rightarrow> 'p"
    and mark :: "'p \<Rightarrow> json option \<Rightarrow> json option \<Rightarrow> json option \<Rightarrow> 'c"
  assumes agree: "json_opt_eq u v \<Longrightarrow> merge b u v p = (u, [])"
    and ours_unchanged: "\<not> json_opt_eq u v \<Longrightarrow> json_opt_eq u b \<Longrightarrow> merge b u v p = (v, [])"
    and theirs_unchanged:
      "\<not> json_opt_eq u v \<Longrightarrow> \<not> json_opt_eq u b \<Longrightarrow> json_opt_eq v b \<Longrightarrow> merge b u v p = (u, [])"
    and both_changed:
      "disputed_at b u v [] \<Longrightarrow>
         merge b u v p = (u, [mark p b u v]) \<or>
         (\<exists>om. u = Some (JObject om)) \<and>
         (\<forall>k. json_member (fst (merge b u v p)) k =
                fst (merge (json_member b k) (json_member u k) (json_member v k) (down p k))) \<and>
         set (snd (merge b u v p)) =
           (\<Union>k. set (snd (merge (json_member b k) (json_member u k) (json_member v k) (down p k))))"
begin

lemma cases_of_merge:
  obtains (same) "json_opt_eq u v" "merge b u v p = (u, [])"
  | (take_theirs) "\<not> json_opt_eq u v" "json_opt_eq u b" "merge b u v p = (v, [])"
  | (take_ours) "\<not> json_opt_eq u v" "\<not> json_opt_eq u b" "json_opt_eq v b" "merge b u v p = (u, [])"
  | (conflict) "disputed_at b u v []" "merge b u v p = (u, [mark p b u v])"
  | (descend) om where "disputed_at b u v []" "u = Some (JObject om)"
      "\<And>k. json_member (fst (merge b u v p)) k =
             fst (merge (json_member b k) (json_member u k) (json_member v k) (down p k))"
      "set (snd (merge b u v p)) =
         (\<Union>k. set (snd (merge (json_member b k) (json_member u k) (json_member v k) (down p k))))"
proof (cases "disputed_at b u v []")
  case True
  from both_changed[OF this, of p] show ?thesis
  proof (elim disjE conjE exE)
    assume "merge b u v p = (u, [mark p b u v])"
    with True show ?thesis by (rule conflict)
  next
    fix om
    assume "u = Some (JObject om)"
      "\<forall>k. json_member (fst (merge b u v p)) k =
             fst (merge (json_member b k) (json_member u k) (json_member v k) (down p k))"
      "set (snd (merge b u v p)) =
         (\<Union>k. set (snd (merge (json_member b k) (json_member u k) (json_member v k) (down p k))))"
    with True show ?thesis by (intro descend) simp_all
  qed
next
  case False
  then consider "json_opt_eq u v" | "\<not> json_opt_eq u v" "json_opt_eq u b"
    | "\<not> json_opt_eq u v" "\<not> json_opt_eq u b" "json_opt_eq v b"
    by (auto simp: disputed_at_def)
  then show ?thesis
  proof cases
    case 1
    from 1 agree[OF 1] show ?thesis by (rule same)
  next
    case 2
    from 2 ours_unchanged[OF 2] show ?thesis by (rule take_theirs)
  next
    case 3
    from 3 theirs_unchanged[OF 3] show ?thesis by (rule take_ours)
  qed
qed

lemma no_lost_update:
  assumes "json_opt_ok b" "json_opt_ok u" "json_opt_ok v"
    and "\<And>r s. q = r @ s \<Longrightarrow>
           mark (foldl down p r) (json_at b r) (json_at u r) (json_at v r) \<notin> set (snd (merge b u v p))"
  shows "three_way_at b u v (fst (merge b u v p)) q"
  using assms
proof (induction q arbitrary: b u v p)
  case Nil
  note ok = Nil.prems(1-3)
  show ?case
  proof (cases rule: cases_of_merge[of u v b p])
    case conflict
    with Nil.prems(4)[of "[]" "[]"] show ?thesis by simp
  qed (use ok in \<open>auto simp: three_way_at_def disputed_at_def
         dest: json_opt_eq_sym intro: json_opt_eq_trans\<close>)
next
  case (Cons k q)
  note ok = Cons.prems(1-3)
  note at = ok[THEN json_at_ok, of "k # q"]
  show ?case
  proof (cases rule: cases_of_merge[of u v b p])
    case same
    then have "json_opt_eq (json_at u (k # q)) (json_at v (k # q))" using ok by (intro json_at_eq)
    with same(2) at show ?thesis
      unfolding three_way_at_def by (auto dest: json_opt_eq_refl)
  next
    case take_theirs
    then have "json_opt_eq (json_at u (k # q)) (json_at b (k # q))" using ok by (intro json_at_eq)
    with take_theirs(3) at show ?thesis
      unfolding three_way_at_def by (metis fst_conv json_opt_eq_refl json_opt_eq_sym json_opt_eq_trans)
  next
    case take_ours
    then have "json_opt_eq (json_at v (k # q)) (json_at b (k # q))" using ok by (intro json_at_eq)
    with take_ours(4) at show ?thesis
      unfolding three_way_at_def by (metis fst_conv json_opt_eq_refl json_opt_eq_sym json_opt_eq_trans)
  next
    case conflict
    with Cons.prems(4)[of "[]" "k # q"] show ?thesis by simp
  next
    case descend
    let ?m = "merge (json_member b k) (json_member u k) (json_member v k) (down p k)"
    have "three_way_at (json_member b k) (json_member u k) (json_member v k) (fst ?m) q"
    proof (rule Cons.IH)
      fix r s assume "q = r @ s"
      from Cons.prems(4)[of "k # r" s] this descend(4)
      show "mark (foldl down (down p k) r) (json_at (json_member b k) r) (json_at (json_member u k) r)
              (json_at (json_member v k) r) \<notin> set (snd ?m)"
        by auto
    qed (use ok in \<open>simp_all add: json_opt_member_ok\<close>)
    then show ?thesis by (simp add: three_way_at_def descend(3))
  qed
qed

lemma conflicts_are_disputed:
  assumes "c \<in> set (snd (merge b u v p))"
  shows "\<exists>r. c = mark (foldl down p r) (json_at b r) (json_at u r) (json_at v r) \<and>
             disputed_at b u v r \<and> json_at (fst (merge b u v p)) r = json_at u r"
  using assms
proof (induction "side_size u" arbitrary: b u v p rule: less_induct)
  case less
  show ?case
  proof (cases rule: cases_of_merge[of u v b p])
    case conflict
    with less.prems show ?thesis by (intro exI[of _ "[]"]) simp
  next
    case (descend om)
    let ?m = "\<lambda>k. merge (json_member b k) (json_member u k) (json_member v k) (down p k)"
    from less.prems descend(4) obtain k where "c \<in> set (snd (?m k))" by auto
    moreover have "side_size (json_member u k) < side_size u" using descend(2) by simp
    ultimately obtain r where
      r: "c = mark (foldl down (down p k) r) (json_at (json_member b k) r) (json_at (json_member u k) r)
             (json_at (json_member v k) r)"
        "disputed_at (json_member b k) (json_member u k) (json_member v k) r"
        "json_at (fst (?m k)) r = json_at (json_member u k) r"
      using less.hyps by metis
    then show ?thesis by (intro exI[of _ "k # r"]) (simp add: disputed_at_def descend(3))
  qed (use less.prems in auto)
qed

end

lemma merge_keys_absent:
  assumes "k \<notin> set (merge_keys om tm bm)"
  shows "map_of om k = None" "map_of tm k = None" "map_of bm k = None"
  using assms by (simp_all add: map_of_eq_None_iff)

interpretation docs: three_way merge_value push_key "\<lambda>p b u v. conflict_label p"
proof unfold_locales
  fix b u v :: "json option" and p :: string
  assume d: "disputed_at b u v []"
  note eq = merge_value.simps[of b u v p]
  show "merge_value b u v p = (u, [conflict_label p]) \<or>
     (\<exists>om. u = Some (JObject om)) \<and>
     (\<forall>k. json_member (fst (merge_value b u v p)) k =
        fst (merge_value (json_member b k) (json_member u k) (json_member v k) (push_key p k))) \<and>
     set (snd (merge_value b u v p)) =
       (\<Union>k. set (snd (merge_value (json_member b k) (json_member u k) (json_member v k) (push_key p k))))"
  proof (cases "\<exists>om tm. u = Some (JObject om) \<and> v = Some (JObject tm)")
    case True
    then obtain om tm where uv: "u = Some (JObject om)" "v = Some (JObject tm)" by blast
    have b: "map_of (members_of b) = json_member b"
      by (auto simp: members_of_def json_member_def fun_eq_iff split: option.splits json.splits)
    let ?f = "\<lambda>k. merge_value (json_member b k) (map_of om k) (map_of tm k) (push_key p k)"
    let ?ks = "merge_keys om tm (members_of b)"
    have m: "merge_value b u v p = keep_present (map (\<lambda>k. (k, ?f k)) ?ks)"
      using d unfolding eq by (simp add: uv b disputed_at_def Let_def del: json_opt_simps json_eq_simps)
    have none: "?f k = (None, [])" if "k \<notin> set ?ks" for k
      using merge_keys_absent[OF that] by (simp add: b[symmetric] merge_value.simps)
    have "json_member (fst (merge_value b u v p)) k = fst (?f k)" for k
      using none[of k] unfolding m by (simp add: keep_present_def map_of_keep_present del: merge_keys_set)
    moreover have "set (snd (merge_value b u v p)) = (\<Union>k. set (snd (?f k)))"
      using none unfolding m keep_present_conflicts by (fastforce simp del: merge_keys_set)
    ultimately show ?thesis using uv by simp
  next
    case False
    with d have "merge_value b u v p = (u, [conflict_label p])"
      unfolding eq by (auto simp: disputed_at_def split: option.split json.split)
    then show ?thesis by simp
  qed
qed (simp_all add: merge_value.simps)

interpretation artifacts: three_way merge_value_structured "\<lambda>p k. p @ [JsonPathSegment_Key k]" raw_conflict_new
proof unfold_locales
  fix b u v :: "json option" and p :: "json_path_segment list"
  assume d: "disputed_at b u v []"
  note eq = merge_value_structured.simps[of b u v p]
  let ?p = "\<lambda>k. p @ [JsonPathSegment_Key k]"
  show "merge_value_structured b u v p = (u, [raw_conflict_new p b u v]) \<or>
     (\<exists>om. u = Some (JObject om)) \<and>
     (\<forall>k. json_member (fst (merge_value_structured b u v p)) k =
        fst (merge_value_structured (json_member b k) (json_member u k) (json_member v k) (?p k))) \<and>
     set (snd (merge_value_structured b u v p)) =
       (\<Union>k. set (snd (merge_value_structured (json_member b k) (json_member u k) (json_member v k) (?p k))))"
  proof (cases "\<exists>bm om tm. b = Some (JObject bm) \<and> u = Some (JObject om) \<and> v = Some (JObject tm)")
    case True
    then obtain bm om tm where
      uv: "b = Some (JObject bm)" "u = Some (JObject om)" "v = Some (JObject tm)" by blast
    let ?f = "\<lambda>k. merge_value_structured (map_of bm k) (map_of om k) (map_of tm k) (?p k)"
    let ?ks = "merge_keys om tm bm"
    have m: "merge_value_structured b u v p = keep_present (map (\<lambda>k. (k, ?f k)) ?ks)"
      using d unfolding eq by (simp add: uv disputed_at_def del: json_opt_simps json_eq_simps)
    have none: "?f k = (None, [])" if "k \<notin> set ?ks" for k
      using merge_keys_absent[OF that] by (simp add: merge_value_structured.simps)
    have "json_member (fst (merge_value_structured b u v p)) k = fst (?f k)" for k
      using none[of k] unfolding m by (simp add: keep_present_def map_of_keep_present del: merge_keys_set)
    moreover have "set (snd (merge_value_structured b u v p)) = (\<Union>k. set (snd (?f k)))"
      using none unfolding m keep_present_conflicts by (fastforce simp del: merge_keys_set)
    ultimately show ?thesis using uv by simp
  next
    case False
    with d have "merge_value_structured b u v p = (u, [raw_conflict_new p b u v])"
      unfolding eq by (auto simp: disputed_at_def split: option.split json.split)
    then show ?thesis by simp
  qed
qed (simp_all add: merge_value_structured.simps)

end
