(* ===== verification/MergeProps.thy ===== *)
theory MergeProps
  imports DocMerge
begin

text \<open>
  The callers of the recursive merges in \<open>crates/fanta-format/src/project/merge.rs\<close>, \<open>merge_artifact\<close>
  and the JSON half of \<open>merge_docs\<close>, and their contract: outside the reported conflicts every edit of
  either side is in the result, and every reported conflict is one, with our value kept.
\<close>

section \<open>One artifact\<close>

datatype artifact_address =
    ArtifactAddress_Artifact "json_path_segment list"
  | ArtifactAddress_Header "json_path_segment list"
  | ArtifactAddress_Node string "json_path_segment list"

record property_conflict =
  pc_address :: artifact_address
  pc_base :: presence_value
  pc_ours :: presence_value
  pc_theirs :: presence_value

record node_map_edition =
  nme_header :: json
  nme_nodes :: "(string \<times> json) list"

record artifact_merge =
  am_header :: json
  am_nodes :: "(string \<times> json) list"
  am_property_conflicts :: "property_conflict list"
  am_conflicts :: "string list"

fun nat_digits :: "nat \<Rightarrow> string" where
  \<comment> \<open>\<open>usize::to_string\<close>\<close>
  "nat_digits n = (if n < 10 then [char_of (48 + n)] else nat_digits (n div 10) @ [char_of (48 + n mod 10)])"

declare nat_digits.simps [simp del]

fun legacy_segment :: "json_path_segment \<Rightarrow> string" where
  "legacy_segment (JsonPathSegment_Key key) = ''/'' @ key"
| "legacy_segment (JsonPathSegment_Index i) = ''/'' @ nat_digits i"

fun legacy_path :: "artifact_address \<Rightarrow> string" where
  "legacy_path (ArtifactAddress_Artifact path) = ''(artifact)'' @ concat (map legacy_segment path)"
| "legacy_path (ArtifactAddress_Header path) = ''header'' @ concat (map legacy_segment path)"
| "legacy_path (ArtifactAddress_Node i path) = ''nodes/'' @ i @ concat (map legacy_segment path)"

fun conflict_address :: "json_path_segment list \<Rightarrow> artifact_address" where
  "conflict_address (JsonPathSegment_Key scope # path) =
     (if scope = ''header'' then ArtifactAddress_Header path
      else if scope = ''nodes''
      then (case path of
              JsonPathSegment_Key i # rest \<Rightarrow> ArtifactAddress_Node i rest
            | _ \<Rightarrow> ArtifactAddress_Artifact (JsonPathSegment_Key scope # path))
      else ArtifactAddress_Artifact (JsonPathSegment_Key scope # path))"
| "conflict_address path = ArtifactAddress_Artifact path"

definition into_artifact_conflict :: "raw_conflict \<Rightarrow> property_conflict" where
  "into_artifact_conflict c =
     \<lparr>pc_address = conflict_address (rc_path c), pc_base = rc_base c, pc_ours = rc_ours c,
      pc_theirs = rc_theirs c\<rparr>"

definition node_map_to_value :: "node_map_edition \<Rightarrow> json" where
  "node_map_to_value e = JObject [(''header'', nme_header e), (''nodes'', JObject (nme_nodes e))]"

definition value_to_node_map :: "json \<Rightarrow> (json \<times> (string \<times> json) list) option" where
  "value_to_node_map v =
     (case v of
        JObject m \<Rightarrow>
          Some (case map_of m ''header'' of None \<Rightarrow> JNull | Some h \<Rightarrow> h, members_of (map_of m ''nodes''))
      | _ \<Rightarrow> None)"

definition merge_artifact ::
  "node_map_edition \<Rightarrow> node_map_edition \<Rightarrow> node_map_edition \<Rightarrow> artifact_merge" where
  "merge_artifact base ours theirs =
     (let base_v = node_map_to_value base; ours_v = node_map_to_value ours;
          theirs_v = node_map_to_value theirs;
          (merged, raw) = merge_value_structured (Some base_v) (Some ours_v) (Some theirs_v) [];
          merged_v = (case merged of None \<Rightarrow> ours_v | Some v \<Rightarrow> v);
          (header, nodes) = (case value_to_node_map merged_v of
                               None \<Rightarrow> (nme_header ours, nme_nodes ours) | Some hn \<Rightarrow> hn);
          conflicts = map into_artifact_conflict raw
      in \<lparr>am_header = header, am_nodes = nodes, am_property_conflicts = conflicts,
          am_conflicts = map (legacy_path \<circ> pc_address) conflicts\<rparr>)"

definition artifact_is_clean :: "artifact_merge \<Rightarrow> bool" where
  "artifact_is_clean m \<longleftrightarrow> am_property_conflicts m = []"

definition edition_ok :: "node_map_edition \<Rightarrow> bool" where
  "edition_ok e \<longleftrightarrow> json_ok (nme_header e) \<and> json_ok (JObject (nme_nodes e))"

definition edition_value :: "node_map_edition \<Rightarrow> json option" where
  "edition_value e = Some (node_map_to_value e)"

definition merged_edition :: "artifact_merge \<Rightarrow> node_map_edition" where
  "merged_edition m = \<lparr>nme_header = am_header m, nme_nodes = am_nodes m\<rparr>"

fun address_segments :: "artifact_address \<Rightarrow> json_path_segment list" where
  \<comment> \<open>the path in the edition that an address stands for\<close>
  "address_segments (ArtifactAddress_Artifact path) = path"
| "address_segments (ArtifactAddress_Header path) = JsonPathSegment_Key ''header'' # path"
| "address_segments (ArtifactAddress_Node i path) =
     JsonPathSegment_Key ''nodes'' # JsonPathSegment_Key i # path"

lemma address_segments_conflict [simp]: "address_segments (conflict_address path) = path"
  by (cases path rule: conflict_address.cases) (auto split: list.splits json_path_segment.splits)

lemma foldl_keys: "foldl (\<lambda>p k. p @ [JsonPathSegment_Key k]) p q = p @ map JsonPathSegment_Key q"
  by (induction q arbitrary: p) simp_all

lemma edition_value_ok: "edition_ok e \<Longrightarrow> json_opt_ok (edition_value e)"
  by (simp add: edition_ok_def edition_value_def node_map_to_value_def)

lemma header_nodes_keys:
  "merge_keys [(''header'', a), (''nodes'', b)] [(''header'', c), (''nodes'', d)]
     [(''header'', e), (''nodes'', f)] = [''header'', ''nodes'']"
  by (simp add: merge_keys_def)

lemma merge_value_structured_present:
  "\<exists>w. fst (merge_value_structured (Some b) (Some u) (Some v) p) = Some w"
  by (subst merge_value_structured.simps) (auto simp: keep_present_def split: json.splits)

lemma merge_value_structured_object:
  "\<exists>m. fst (merge_value_structured (Some (JObject b)) (Some (JObject u)) (Some (JObject v)) p) = Some (JObject m)"
  by (subst merge_value_structured.simps) (simp add: keep_present_def)

lemma merged_artifact_value:
  "\<exists>h n. fst (merge_value_structured (edition_value b) (edition_value u) (edition_value v) []) =
     Some (JObject [(''header'', h), (''nodes'', JObject n)])"
proof (cases rule: artifacts.cases_of_merge[of "edition_value u" "edition_value v" "edition_value b" "[]"])
  case (descend om)
  let ?f = "\<lambda>b u v k. merge_value_structured (Some b) (Some u) (Some v) [JsonPathSegment_Key k]"
  obtain h where h: "fst (?f (nme_header b) (nme_header u) (nme_header v) ''header'') = Some h"
    using merge_value_structured_present by blast
  obtain n where
    n: "fst (?f (JObject (nme_nodes b)) (JObject (nme_nodes u)) (JObject (nme_nodes v)) ''nodes'') = Some (JObject n)"
    using merge_value_structured_object by blast
  show ?thesis
    using descend(1) h n unfolding merge_value_structured.simps[of "edition_value b"]
    by (simp add: edition_value_def node_map_to_value_def disputed_at_def header_nodes_keys keep_present_def
        List.map_filter_simps case_prod_beta del: json_opt_simps json_eq_simps)
qed (auto simp: edition_value_def node_map_to_value_def disputed_at_def)

lemma merged_edition_value:
  "edition_value (merged_edition (merge_artifact b u v)) =
     fst (merge_value_structured (edition_value b) (edition_value u) (edition_value v) [])"
  "am_property_conflicts (merge_artifact b u v) =
     map into_artifact_conflict (snd (merge_value_structured (edition_value b) (edition_value u) (edition_value v) []))"
  using merged_artifact_value[of b u v]
  by (auto simp: merge_artifact_def merged_edition_def edition_value_def[symmetric] value_to_node_map_def
      members_of_def Let_def split: prod.split)
     (simp add: edition_value_def node_map_to_value_def)

text \<open>
  C29. The merge of two concurrent editions of an artifact loses no edit: at every path in the header or
  the nodes that no reported conflict lies on or above, a value only one side changed is that side's,
  and a value the sides agree on is kept; every reported conflict names a path where both sides differ
  from the base and from each other, carries the three values found there, and keeps ours.
\<close>
theorem artifact_merge_keeps_edits:
  assumes "edition_ok base" "edition_ok ours" "edition_ok theirs"
  shows "(\<forall>q. (\<forall>c \<in> set (am_property_conflicts (merge_artifact base ours theirs)).
               \<forall>r s. q = r @ s \<longrightarrow> address_segments (pc_address c) \<noteq> map JsonPathSegment_Key r) \<longrightarrow>
            three_way_at (edition_value base) (edition_value ours) (edition_value theirs)
              (edition_value (merged_edition (merge_artifact base ours theirs))) q) \<and>
         (\<forall>c \<in> set (am_property_conflicts (merge_artifact base ours theirs)).
            \<exists>r. address_segments (pc_address c) = map JsonPathSegment_Key r \<and>
                disputed_at (edition_value base) (edition_value ours) (edition_value theirs) r \<and>
                pc_base c = presence_from_option (json_at (edition_value base) r) \<and>
                pc_ours c = presence_from_option (json_at (edition_value ours) r) \<and>
                pc_theirs c = presence_from_option (json_at (edition_value theirs) r) \<and>
                json_at (edition_value (merged_edition (merge_artifact base ours theirs))) r =
                  json_at (edition_value ours) r)"
proof -
  let ?b = "edition_value base" and ?u = "edition_value ours" and ?v = "edition_value theirs"
  let ?raw = "snd (merge_value_structured ?b ?u ?v [])"
  note ok = assms[THEN edition_value_ok]
  have "three_way_at ?b ?u ?v (fst (merge_value_structured ?b ?u ?v [])) q"
    if free: "\<And>c r s. c \<in> set ?raw \<Longrightarrow> q = r @ s \<Longrightarrow> rc_path c \<noteq> map JsonPathSegment_Key r" for q
  proof (rule artifacts.no_lost_update[OF ok])
    fix r s assume q: "q = r @ s"
    show "raw_conflict_new (foldl (\<lambda>p k. p @ [JsonPathSegment_Key k]) [] r)
        (json_at ?b r) (json_at ?u r) (json_at ?v r) \<notin> set ?raw" (is "?c \<notin> _")
    proof
      assume "?c \<in> set ?raw"
      from free[OF this q] show False by (simp add: foldl_keys raw_conflict_new_def)
    qed
  qed
  moreover have "\<exists>r. rc_path c = map JsonPathSegment_Key r \<and> disputed_at ?b ?u ?v r \<and>
      rc_base c = presence_from_option (json_at ?b r) \<and> rc_ours c = presence_from_option (json_at ?u r) \<and>
      rc_theirs c = presence_from_option (json_at ?v r) \<and>
      json_at (fst (merge_value_structured ?b ?u ?v [])) r = json_at ?u r" if "c \<in> set ?raw" for c
    using artifacts.conflicts_are_disputed[OF that] by (auto simp: foldl_keys raw_conflict_new_def)
  ultimately show ?thesis
    unfolding merged_edition_value by (fastforce simp: into_artifact_conflict_def)
qed

definition sample_edition :: "string \<Rightarrow> string \<Rightarrow> string \<Rightarrow> node_map_edition" where
  "sample_edition x y z =
     \<lparr>nme_header = JObject [], nme_nodes =
        [(''n'', JObject [(''x'', JString x), (''y'', JString y), (''z'', JString z)])]\<rparr>"

lemma sample_edition_ok: "edition_ok (sample_edition x y z)"
  by (simp add: edition_ok_def sample_edition_def)

lemma sample_conflicts:
  "map pc_address (am_property_conflicts
     (merge_artifact (sample_edition ''a'' ''a'' ''a'') (sample_edition ''b'' ''a'' ''b'')
        (sample_edition ''a'' ''c'' ''c''))) =
     [ArtifactAddress_Node ''n'' [JsonPathSegment_Key ''z'']]"
  by (simp add: merge_artifact_def sample_edition_def node_map_to_value_def merge_value_structured.simps
      merge_keys_def keep_present_def into_artifact_conflict_def raw_conflict_new_def List.map_filter_simps Let_def
      value_to_node_map_def members_of_def)

theorem artifact_merge_keeps_edits_witness:
  "three_way_at (edition_value (sample_edition ''a'' ''a'' ''a''))
     (edition_value (sample_edition ''b'' ''a'' ''b'')) (edition_value (sample_edition ''a'' ''c'' ''c''))
     (edition_value (merged_edition
       (merge_artifact (sample_edition ''a'' ''a'' ''a'') (sample_edition ''b'' ''a'' ''b'')
          (sample_edition ''a'' ''c'' ''c'')))) [''nodes'', ''n'', ''x'']"
proof -
  let ?m = "merge_artifact (sample_edition ''a'' ''a'' ''a'') (sample_edition ''b'' ''a'' ''b'')
              (sample_edition ''a'' ''c'' ''c'')"
  have "pc_address c = ArtifactAddress_Node ''n'' [JsonPathSegment_Key ''z'']"
    if "c \<in> set (am_property_conflicts ?m)" for c
  proof -
    from that have "pc_address c \<in> set (map pc_address (am_property_conflicts ?m))" by simp
    then show ?thesis unfolding sample_conflicts by simp
  qed
  then have "\<forall>c \<in> set (am_property_conflicts ?m). \<forall>r s. [''nodes'', ''n'', ''x''] = r @ s \<longrightarrow>
      address_segments (pc_address c) \<noteq> map JsonPathSegment_Key r"
    by (auto simp: Cons_eq_append_conv)
  with artifact_merge_keeps_edits[OF sample_edition_ok sample_edition_ok sample_edition_ok]
  show ?thesis by blast
qed

section \<open>Whole documents\<close>

definition presence_keys :: "string list" where
  "presence_keys = [''selection'', ''viewport'', ''active_page'', ''history'']"

definition keep_presence ::
  "(string \<times> json) list \<Rightarrow> string \<Rightarrow> (string \<times> json) list \<Rightarrow> (string \<times> json) list" where
  "keep_presence om key mm =
     (case map_of om key of Some v \<Rightarrow> jmap_insert key v mm | None \<Rightarrow> jmap_remove key mm)"

definition modified_at :: "json \<Rightarrow> i64 option" where
  "modified_at v =
     Option.bind (json_member (json_member (Some v) ''metadata'') ''modified_at'') json_as_i64"

definition latest_modification :: "json \<Rightarrow> json \<Rightarrow> i64 option" where
  "latest_modification ours theirs =
     (case (modified_at ours, modified_at theirs) of
        (None, b) \<Rightarrow> b
      | (a, None) \<Rightarrow> a
      | (Some a, Some b) \<Rightarrow> Some (if sint a \<le> sint b then b else a))"

definition stamp_latest :: "i64 option \<Rightarrow> (string \<times> json) list \<Rightarrow> (string \<times> json) list" where
  "stamp_latest latest mm =
     (case (latest, map_of mm ''metadata'') of
        (Some l, Some (JObject md)) \<Rightarrow>
          jmap_insert ''metadata'' (JObject (jmap_insert ''modified_at'' (json_of_i64 l) md)) mm
      | _ \<Rightarrow> mm)"

definition reported_conflict :: "string \<Rightarrow> bool" where
  "reported_conflict path \<longleftrightarrow>
     path \<noteq> ''metadata/modified_at'' \<and>
     \<not> list_ex (\<lambda>key. path = key \<or> take (Suc (length key)) path = key @ ''/'') presence_keys"

definition merge_docs_json :: "json \<Rightarrow> json \<Rightarrow> json \<Rightarrow> json \<times> string list" where
  \<comment> \<open>\<open>merge_docs\<close> between serializing its arguments and loading the merged document\<close>
  "merge_docs_json base ours theirs =
     (let (merged, conflicts) = merge_value (Some base) (Some ours) (Some theirs) '''';
          m = (case merged of None \<Rightarrow> ours | Some v \<Rightarrow> v);
          m' = (case (m, ours) of
                  (JObject mm, JObject om) \<Rightarrow>
                    JObject (jmap_remove ''history''
                      (stamp_latest (latest_modification ours theirs)
                        (fold (keep_presence om) presence_keys mm)))
                | _ \<Rightarrow> m)
      in (m', filter reported_conflict conflicts))"

lemma distinct_merge_keys: "distinct (merge_keys om tm bm)"
  by (simp add: merge_keys_def remdups_adj_sorted)

lemma merge_value_object:
  assumes "json_ok ours" "json_ok theirs" "ours = JObject om" "theirs = JObject tm"
  obtains mm where "fst (merge_value base (Some ours) (Some theirs) path) = Some (JObject mm)"
    "distinct (map fst mm)"
proof (cases rule: docs.cases_of_merge[of "Some ours" "Some theirs" base path])
  case descend
  let ?f = "\<lambda>k. merge_value (map_of (members_of base) k) (map_of om k) (map_of tm k) (push_key path k)"
  let ?mm = "List.map_filter (\<lambda>(k, v, _). map_option (Pair k) v)
               (map (\<lambda>k. (k, ?f k)) (merge_keys om tm (members_of base)))"
  have "fst (merge_value base (Some ours) (Some theirs) path) = Some (JObject ?mm)"
    using descend(1) assms(3,4) unfolding merge_value.simps[of base "Some ours"]
    by (simp add: disputed_at_def keep_present_def Let_def del: json_opt_simps json_eq_simps)
  moreover have "map fst (List.map_filter (\<lambda>(k, v, _). map_option (Pair k) v) (map (\<lambda>k. (k, ?f k)) ks)) =
      filter (\<lambda>k. fst (?f k) \<noteq> None) ks" for ks
    by (induction ks) (auto simp: List.map_filter_simps case_prod_beta)
  then have "distinct (map fst ?mm)" by (simp add: distinct_merge_keys del: map_map)
  ultimately show ?thesis by (rule that)
qed (use assms that in auto)

lemma keep_presence_lookup:
  assumes "distinct (map fst mm)"
  shows "map_of (keep_presence om key mm) = (map_of mm)(key := map_of om key)"
    "distinct (map fst (keep_presence om key mm))"
  using assms
  by (auto simp: keep_presence_def map_of_jmap_remove distinct_jmap_insert distinct_jmap_remove split: option.split)

lemma keep_presence_all:
  assumes "distinct (map fst mm)"
  shows "map_of (fold (keep_presence om) keys mm) k = (if k \<in> set keys then map_of om k else map_of mm k)"
    "distinct (map fst (fold (keep_presence om) keys mm))"
  using assms by (induction keys arbitrary: mm) (simp_all add: keep_presence_lookup)

lemma stamp_latest_lookup:
  "k \<noteq> ''metadata'' \<Longrightarrow> map_of (stamp_latest l mm) k = map_of mm k"
  "j \<noteq> ''modified_at'' \<Longrightarrow>
     json_member (map_of (stamp_latest l mm) ''metadata'') j = json_member (map_of mm ''metadata'') j"
  "distinct (map fst mm) \<Longrightarrow> distinct (map fst (stamp_latest l mm))"
  by (auto simp: stamp_latest_def distinct_jmap_insert split: option.split json.split)

lemma stamp_latest_stamps:
  "map_of (stamp_latest (Some l) mm) ''metadata'' = Some (JObject md) \<Longrightarrow>
     map_of md ''modified_at'' = Some (json_of_i64 l)"
  by (auto simp: stamp_latest_def split: option.splits json.splits)

lemma foldl_push_key: "path \<noteq> '''' \<Longrightarrow> foldl push_key path r = path @ concat (map ((@) ''/'') r)"
  by (induction r arbitrary: path) (simp_all add: push_key_def)

lemma takeWhile_slash:
  assumes "CHR ''/'' \<notin> set x"
  shows "takeWhile (\<lambda>c. c \<noteq> CHR ''/'') x = x" "takeWhile (\<lambda>c. c \<noteq> CHR ''/'') (x @ CHR ''/'' # t) = x"
  using assms by (induction x) auto

lemma take_slash:
  assumes "take (Suc (length key)) p = key @ ''/''"
  shows "\<exists>t. p = key @ CHR ''/'' # t"
proof (rule exI[of _ "drop (Suc (length key)) p"])
  have "p = take (Suc (length key)) p @ drop (Suc (length key)) p" by simp
  also have "\<dots> = key @ CHR ''/'' # drop (Suc (length key)) p"
    unfolding assms by simp
  finally show "p = key @ CHR ''/'' # drop (Suc (length key)) p" .
qed

lemma conflicts_on_content_reported:
  assumes k: "CHR ''/'' \<notin> set k" "k \<noteq> ''''" "k \<notin> set presence_keys"
    and stamp: "take 2 (k # q) \<noteq> [''metadata'', ''modified_at'']" and r: "k # q = r @ s"
  shows "reported_conflict (conflict_label (foldl push_key '''' r))"
proof (cases r)
  case Nil
  then show ?thesis by (simp add: conflict_label_def reported_conflict_def presence_keys_def)
next
  case (Cons k' r')
  with r have k': "k' = k" and q: "q = r' @ s" by simp_all
  let ?path = "k @ concat (map ((@) ''/'') r')"
  have path: "conflict_label (foldl push_key '''' r) = ?path"
    using k(2) by (simp add: Cons k' push_key_def foldl_push_key conflict_label_def)
  have head: "takeWhile (\<lambda>c. c \<noteq> CHR ''/'') (x @ concat (map ((@) ''/'') t)) = x"
    if "CHR ''/'' \<notin> set x" for x t
    using that by (cases t) (auto simp: takeWhile_append takeWhile_eq_all_conv[THEN iffD2])
  have same: "key = k" if "key \<in> set presence_keys" "?path = key \<or> take (Suc (length key)) ?path = key @ ''/''" for key
  proof -
    have key: "CHR ''/'' \<notin> set key" using that(1) by (auto simp: presence_keys_def)
    have "takeWhile (\<lambda>c. c \<noteq> CHR ''/'') ?path = key"
      using that(2)
    proof
      assume "?path = key"
      then show ?thesis by (simp only: takeWhile_slash[OF key])
    next
      assume "take (Suc (length key)) ?path = key @ ''/''"
      from take_slash[OF this] obtain t where "?path = key @ CHR ''/'' # t" by (rule exE)
      then show ?thesis by (simp only: takeWhile_slash[OF key])
    qed
    with head[OF k(1)] show ?thesis by simp
  qed
  have "?path \<noteq> ''metadata/modified_at''"
  proof
    assume eq: "?path = ''metadata/modified_at''"
    from head[OF k(1), of r'] have meta: "k = ''metadata''" by (simp add: eq)
    with eq obtain j t where jt: "r' = j # t" "j @ concat (map ((@) ''/'') t) = ''modified_at''"
      by (cases r') auto
    then have "CHR ''/'' \<notin> set (j @ concat (map ((@) ''/'') t))" by simp
    then have "t = []" by (cases t) auto
    with jt meta q stamp show False by simp
  qed
  moreover have "\<not> list_ex (\<lambda>key. ?path = key \<or> take (Suc (length key)) ?path = key @ ''/'') presence_keys"
  proof
    assume "list_ex (\<lambda>key. ?path = key \<or> take (Suc (length key)) ?path = key @ ''/'') presence_keys"
    then obtain key where key: "key \<in> set presence_keys"
        "?path = key \<or> take (Suc (length key)) ?path = key @ ''/''"
      unfolding list_ex_iff by (elim bexE)
    from same[OF key] key(1) k(3) show False by simp
  qed
  ultimately show ?thesis unfolding path reported_conflict_def by (rule conjI)
qed

lemma merge_docs_json_lookup:
  assumes objects: "ours = JObject om" "theirs = JObject tm"
    and m: "fst (merge_value (Some base) (Some ours) (Some theirs) '''') = Some (JObject mm)"
    and d: "distinct (map fst mm)"
  shows "\<exists>m'. fst (merge_docs_json base ours theirs) = JObject m' \<and>
    (\<forall>k. k \<notin> set presence_keys \<longrightarrow> k \<noteq> ''metadata'' \<longrightarrow> map_of m' k = map_of mm k) \<and>
    (\<forall>j. j \<noteq> ''modified_at'' \<longrightarrow>
       json_member (map_of m' ''metadata'') j = json_member (map_of mm ''metadata'') j) \<and>
    (\<forall>k \<in> {''selection'', ''viewport'', ''active_page''}. map_of m' k = map_of om k) \<and>
    map_of m' ''history'' = None \<and>
    (\<forall>l md. latest_modification ours theirs = Some l \<longrightarrow> map_of m' ''metadata'' = Some (JObject md) \<longrightarrow>
       map_of md ''modified_at'' = Some (json_of_i64 l))"
proof -
  define kept where "kept = fold (keep_presence om) presence_keys mm"
  define stamped where "stamped = stamp_latest (latest_modification ours theirs) kept"
  have kept: "map_of kept k = (if k \<in> set presence_keys then map_of om k else map_of mm k)"
    "distinct (map fst kept)" for k
    by (simp_all only: kept_def keep_presence_all[OF d])
  have keys: "k \<in> set presence_keys \<longleftrightarrow> k \<in> {''selection'', ''viewport'', ''active_page'', ''history''}" for k
    by (simp add: presence_keys_def)
  have rm: "map_of (jmap_remove ''history'' stamped) = (map_of stamped)(''history'' := None)"
    unfolding stamped_def by (intro map_of_jmap_remove stamp_latest_lookup(3) kept(2))
  have res: "fst (merge_docs_json base ours theirs) = JObject (jmap_remove ''history'' stamped)"
    using m objects(1) by (simp add: merge_docs_json_def case_prod_beta Let_def kept_def stamped_def)
  have other: "map_of stamped k = map_of kept k" if "k \<noteq> ''metadata''" for k
    unfolding stamped_def using that by (rule stamp_latest_lookup(1))
  have meta: "json_member (map_of stamped ''metadata'') j = json_member (map_of kept ''metadata'') j"
    if "j \<noteq> ''modified_at''" for j
    unfolding stamped_def using that by (rule stamp_latest_lookup(2))
  have stamp: "map_of md ''modified_at'' = Some (json_of_i64 l)"
    if "latest_modification ours theirs = Some l" "map_of stamped ''metadata'' = Some (JObject md)" for l md
    using that(2) unfolding stamped_def that(1) by (rule stamp_latest_stamps)
  show ?thesis
    by (rule exI[of _ "jmap_remove ''history'' stamped"])
      (simp add: res rm keys other meta kept(1) stamp)
qed

text \<open>
  C28. Merging two concurrent editions of a document loses no edit of its content: at every path below a
  field that is not presence state, other than the modification time, and that no reported conflict lies
  on or above, a value only one side changed is that side's and a value both agree on is kept. Our
  selection, viewport and active page are kept, the undo history is dropped, and the modification time
  is the later one.
\<close>
theorem doc_merge_keeps_edits:
  assumes "json_ok base" "json_ok ours" "json_ok theirs" "ours = JObject om" "theirs = JObject tm"
    and "merge_docs_json base ours theirs = (merged, conflicts)"
  shows "(\<forall>k q. CHR ''/'' \<notin> set k \<and> k \<noteq> '''' \<and> k \<notin> set presence_keys \<and>
              take 2 (k # q) \<notin> {[''metadata''], [''metadata'', ''modified_at'']} \<and>
              (\<forall>r s. k # q = r @ s \<longrightarrow> conflict_label (foldl push_key '''' r) \<notin> set conflicts) \<longrightarrow>
              three_way_at (Some base) (Some ours) (Some theirs) (Some merged) (k # q)) \<and>
         (\<forall>k \<in> {''selection'', ''viewport'', ''active_page''}. json_member (Some merged) k = map_of om k) \<and>
         json_member (Some merged) ''history'' = None \<and>
         (\<forall>l md. latest_modification ours theirs = Some l \<and>
                 json_member (Some merged) ''metadata'' = Some (JObject md) \<longrightarrow>
                 map_of md ''modified_at'' = Some (json_of_i64 l))"
proof -
  note ok = assms(1-3) and obj = assms(4,5)
  obtain mm where mm: "fst (merge_value (Some base) (Some ours) (Some theirs) '''') = Some (JObject mm)"
      "distinct (map fst mm)"
    by (rule merge_value_object[OF ok(2,3) obj])
  obtain m' where m': "fst (merge_docs_json base ours theirs) = JObject m'"
    "\<And>k. k \<notin> set presence_keys \<Longrightarrow> k \<noteq> ''metadata'' \<Longrightarrow> map_of m' k = map_of mm k"
    "\<And>j. j \<noteq> ''modified_at'' \<Longrightarrow>
       json_member (map_of m' ''metadata'') j = json_member (map_of mm ''metadata'') j"
    "\<forall>k \<in> {''selection'', ''viewport'', ''active_page''}. map_of m' k = map_of om k"
    "map_of m' ''history'' = None"
    "\<forall>l md. latest_modification ours theirs = Some l \<longrightarrow> map_of m' ''metadata'' = Some (JObject md) \<longrightarrow>
       map_of md ''modified_at'' = Some (json_of_i64 l)"
    using merge_docs_json_lookup[OF obj mm] by blast
  have merged: "merged = JObject m'" using m'(1) assms(6) by simp
  have conflicts: "conflicts =
      filter reported_conflict (snd (merge_value (Some base) (Some ours) (Some theirs) ''''))"
    using assms(6) by (auto simp: merge_docs_json_def case_prod_beta Let_def)
  have "three_way_at (Some base) (Some ours) (Some theirs) (Some merged) (k # q)"
    if k: "CHR ''/'' \<notin> set k" "k \<noteq> ''''" "k \<notin> set presence_keys"
      and stamp: "take 2 (k # q) \<notin> {[''metadata''], [''metadata'', ''modified_at'']}"
      and free: "\<And>r s. k # q = r @ s \<Longrightarrow> conflict_label (foldl push_key '''' r) \<notin> set conflicts" for k q
  proof -
    have "three_way_at (Some base) (Some ours) (Some theirs) (Some (JObject mm)) (k # q)"
      unfolding mm(1)[symmetric]
    proof (rule docs.no_lost_update)
      fix r s assume r: "k # q = r @ s"
      from stamp have "take 2 (k # q) \<noteq> [''metadata'', ''modified_at'']" by blast
      from conflicts_on_content_reported[OF k this r] free[OF r]
      show "conflict_label (foldl push_key '''' r) \<notin>
          set (snd (merge_value (Some base) (Some ours) (Some theirs) ''''))"
        by (simp add: conflicts)
    qed (use ok in simp_all)
    moreover have "json_at (Some merged) (k # q) = json_at (Some (JObject mm)) (k # q)"
    proof (cases "k = ''metadata''")
      case True
      with stamp obtain j t where "q = j # t" "j \<noteq> ''modified_at''" by (cases q) auto
      with True m'(3) show ?thesis by (simp add: merged)
    next
      case False
      with m'(2)[OF k(3)] show ?thesis by (simp add: merged)
    qed
    ultimately show ?thesis by (simp only: three_way_at_def)
  qed
  with m'(4-6) show ?thesis by (simp add: merged)
qed

definition sample_json :: "string \<Rightarrow> string \<Rightarrow> u64 \<Rightarrow> (string \<times> json) list" where
  "sample_json a b t =
     [(''name'', JString a), (''title'', JString b), (''history'', JNull),
      (''metadata'', JObject [(''modified_at'', JNumber (PosInt t))])]"

theorem doc_merge_keeps_edits_witness:
  "json_at (Some (fst (merge_docs_json (JObject (sample_json ''a'' ''a'' 1))
       (JObject (sample_json ''b'' ''a'' 2)) (JObject (sample_json ''a'' ''c'' 3))))) [''history''] = None \<and>
   three_way_at (Some (JObject (sample_json ''a'' ''a'' 1))) (Some (JObject (sample_json ''b'' ''a'' 2)))
     (Some (JObject (sample_json ''a'' ''c'' 3)))
     (Some (fst (merge_docs_json (JObject (sample_json ''a'' ''a'' 1))
       (JObject (sample_json ''b'' ''a'' 2)) (JObject (sample_json ''a'' ''c'' 3))))) [''name'']"
proof -
  let ?b = "JObject (sample_json ''a'' ''a'' 1)" and ?u = "JObject (sample_json ''b'' ''a'' 2)"
    and ?v = "JObject (sample_json ''a'' ''c'' 3)"
  have ok: "json_ok ?b" "json_ok ?u" "json_ok ?v" by (simp_all add: sample_json_def)
  have clean: "snd (merge_docs_json ?b ?u ?v) = []"
    by (simp add: merge_docs_json_def sample_json_def merge_value.simps merge_keys_def members_of_def
        keep_present_def push_key_def conflict_label_def reported_conflict_def presence_keys_def
        List.map_filter_simps Let_def)
  note * = doc_merge_keeps_edits[OF ok refl refl prod.collapse[symmetric], unfolded clean]
  have "CHR ''/'' \<notin> set ''name'' \<and> ''name'' \<noteq> '''' \<and> ''name'' \<notin> set presence_keys \<and>
      take 2 (''name'' # []) \<notin> {[''metadata''], [''metadata'', ''modified_at'']}"
    by (simp add: presence_keys_def)
  with * show ?thesis by simp
qed

end
