(* ===== verification/TextTokens.thy ===== *)
theory TextTokens
  imports Binding VarResolve
begin

text \<open>
  Text variables, \<open>crates/fanta-doc/src/text_tokens.rs\<close>: the scanner for \<open>{{name}}\<close> tokens, their
  replacement with the style runs moved along, the variable a token names, and the text node as it is
  drawn. Strings are their UTF-8 bytes and offsets count bytes, as in the source; \<open>str::trim\<close> strips the
  byte sequences of the white-space characters. \<open>Display\<close> of \<open>f64\<close> is a parameter.

  The scanner is proved to find exactly the well-formed tokens, and the replacement to be the
  replacement of each token, with the text between them kept and every offset moved with its text.
\<close>

section \<open>The order of properties\<close>

definition prop_tag :: "bound_prop \<Rightarrow> nat" where
  "prop_tag p =
     (case p of
        BoundProp_FillColor _ \<Rightarrow> 0 | BoundProp_StrokeColor _ \<Rightarrow> 1 | BoundProp_StrokeWidth _ \<Rightarrow> 2
      | BoundProp_CornerRadius \<Rightarrow> 3 | BoundProp_Opacity \<Rightarrow> 4 | BoundProp_Visible \<Rightarrow> 5
      | BoundProp_TextContent \<Rightarrow> 6 | BoundProp_TextStyle \<Rightarrow> 7 | BoundProp_ClipWidth \<Rightarrow> 8
      | BoundProp_ClipHeight \<Rightarrow> 9 | BoundProp_ImageFill _ \<Rightarrow> 10)"

definition prop_slot :: "bound_prop \<Rightarrow> u16" where
  "prop_slot p =
     (case p of
        BoundProp_FillColor i \<Rightarrow> i | BoundProp_StrokeColor i \<Rightarrow> i | BoundProp_StrokeWidth i \<Rightarrow> i
      | BoundProp_ImageFill i \<Rightarrow> i | _ \<Rightarrow> 0)"

definition prop_rank :: "bound_prop \<Rightarrow> nat" where
  \<comment> \<open>the derived order: by constructor, then by index\<close>
  "prop_rank p = prop_tag p * 2 ^ 16 + unat (prop_slot p)"

lemma prop_rank_inj:
  assumes "prop_rank p = prop_rank q"
  shows "p = q"
proof -
  have lt: "unat (prop_slot x) < 2 ^ 16" for x using unsigned_less[of "prop_slot x"] by simp
  have "prop_tag x = prop_rank x div 2 ^ 16" "unat (prop_slot x) = prop_rank x mod 2 ^ 16" for x
    using lt[of x] by (simp_all add: prop_rank_def)
  with assms have "prop_tag p = prop_tag q" "unat (prop_slot p) = unat (prop_slot q)" by simp_all
  moreover from this have "prop_slot p = prop_slot q" by (intro unsigned_word_eqI)
  ultimately show ?thesis by (cases p; cases q) (simp_all add: prop_tag_def prop_slot_def)
qed

instantiation bound_prop :: linorder
begin

definition less_eq_bound_prop :: "bound_prop \<Rightarrow> bound_prop \<Rightarrow> bool" where
  "less_eq_bound_prop p q \<longleftrightarrow> prop_rank p \<le> prop_rank q"

definition less_bound_prop :: "bound_prop \<Rightarrow> bound_prop \<Rightarrow> bool" where
  "less_bound_prop p q \<longleftrightarrow> prop_rank p < prop_rank q"

instance
  by standard (auto simp: less_eq_bound_prop_def less_bound_prop_def prop_rank_inj)

end

section \<open>Scanning\<close>

fun find_pair :: "char \<Rightarrow> string \<Rightarrow> nat option" where
  \<comment> \<open>\<open>str::find\<close> of the character twice\<close>
  "find_pair c (x # y # s) = (if x = c \<and> y = c then Some 0 else map_option Suc (find_pair c (y # s)))"
| "find_pair c _ = None"

definition byte :: "nat \<Rightarrow> char" where
  "byte n = char_of n"

definition white_chars :: "string list" where
  \<comment> \<open>the characters with the property \<open>White_Space\<close>\<close>
  "white_chars =
     map (\<lambda>n. [byte n]) [9, 10, 11, 12, 13, 32] @
     map (map byte) [[0xC2, 0x85], [0xC2, 0xA0], [0xE1, 0x9A, 0x80]] @
     map (\<lambda>n. map byte [0xE2, 0x80, n])
       [0x80, 0x81, 0x82, 0x83, 0x84, 0x85, 0x86, 0x87, 0x88, 0x89, 0x8A, 0xA8, 0xA9, 0xAF] @
     map (map byte) [[0xE2, 0x81, 0x9F], [0xE3, 0x80, 0x80]]"

definition white_prefix :: "string \<Rightarrow> nat" where
  "white_prefix s = (case find (\<lambda>w. take (length w) s = w) white_chars of None \<Rightarrow> 0 | Some w \<Rightarrow> length w)"

definition white_suffix :: "string \<Rightarrow> nat" where
  "white_suffix s =
     (case find (\<lambda>w. take (length w) (rev s) = rev w) white_chars of None \<Rightarrow> 0 | Some w \<Rightarrow> length w)"

lemma find_SomeD: "find P xs = Some x \<Longrightarrow> x \<in> set xs \<and> P x"
  by (induction xs) (auto split: if_splits)

lemma white_chars_nonempty: "w \<in> set white_chars \<Longrightarrow> w \<noteq> []"
  by (auto simp: white_chars_def)

lemma white_prefix_le: "white_prefix s \<le> length s"
proof (cases "find (\<lambda>w. take (length w) s = w) white_chars")
  case (Some w)
  from find_SomeD[OF this] have "take (length w) s = w" by simp
  then have "length w \<le> length s" by (metis length_take min.cobounded1)
  with Some show ?thesis by (simp add: white_prefix_def)
qed (simp add: white_prefix_def)

lemma white_suffix_le: "white_suffix s \<le> length s"
proof (cases "find (\<lambda>w. take (length w) (rev s) = rev w) white_chars")
  case (Some w)
  from find_SomeD[OF this] have "take (length w) (rev s) = rev w" by simp
  then have "length w \<le> length s" by (metis length_rev length_take min.cobounded1)
  with Some show ?thesis by (simp add: white_suffix_def)
qed (simp add: white_suffix_def)

function trim_start :: "string \<Rightarrow> string" where
  "trim_start s = (if white_prefix s = 0 then s else trim_start (drop (white_prefix s) s))"
  by pat_completeness auto
termination
proof (relation "measure length")
  fix s assume "white_prefix s \<noteq> 0"
  with white_prefix_le[of s] show "(drop (white_prefix s) s, s) \<in> measure length" by simp
qed simp

function trim_end :: "string \<Rightarrow> string" where
  "trim_end s = (if white_suffix s = 0 then s else trim_end (take (length s - white_suffix s) s))"
  by pat_completeness auto
termination
proof (relation "measure length")
  fix s assume "white_suffix s \<noteq> 0"
  with white_suffix_le[of s] show "(take (length s - white_suffix s) s, s) \<in> measure length" by simp
qed simp

declare trim_start.simps [simp del] trim_end.simps [simp del]

definition str_trim :: "string \<Rightarrow> string" where
  "str_trim s = trim_end (trim_start s)"

definition token_name_ok :: "string \<Rightarrow> bool" where
  \<comment> \<open>no braces or line breaks, and not blank\<close>
  "token_name_ok raw \<longleftrightarrow>
     \<not> list_ex (\<lambda>c. c = CHR ''{'' \<or> c = CHR ''}'' \<or> c = CHR 0x0A) raw \<and> str_trim raw \<noteq> []"

type_synonym token = "(nat \<times> nat) \<times> string"

lemma find_pair_bound: "find_pair c s = Some i \<Longrightarrow> Suc i < length s"
  by (induction c s arbitrary: i rule: find_pair.induct) (auto split: if_splits)

function scan_tokens :: "string \<Rightarrow> nat \<Rightarrow> token list" where
  \<comment> \<open>the tokens the iterator yields from a cursor on\<close>
  "scan_tokens content cursor =
     (case find_pair (CHR ''{'') (drop cursor content) of
        None \<Rightarrow> []
      | Some found \<Rightarrow>
          (let start = cursor + found; name_start = start + 2 in
           case find_pair (CHR ''}'') (drop name_start content) of
             None \<Rightarrow> []
           | Some len \<Rightarrow>
               (let raw = take len (drop name_start content) in
                if \<not> token_name_ok raw then scan_tokens content (start + 1)
                else ((start, name_start + len + 2), str_trim raw) # scan_tokens content (name_start + len + 2))))"
  by pat_completeness auto
termination
  by (relation "measure (\<lambda>(content, cursor). length content - cursor)") (auto dest!: find_pair_bound)

declare scan_tokens.simps [simp del]

definition text_tokens :: "string \<Rightarrow> token list" where
  "text_tokens content = scan_tokens content 0"

definition has_text_tokens :: "canvas_node \<Rightarrow> bool" where
  "has_text_tokens n =
     (case cn_data n of
        NodeData_Text t \<Rightarrow> find_pair (CHR ''{'') (tn_content t) \<noteq> None
      | NodeData_TextPath t \<Rightarrow> find_pair (CHR ''{'') (tp_content t) \<noteq> None
      | _ \<Rightarrow> False)"

section \<open>Replacing\<close>

type_synonym replacement = "(nat \<times> nat) \<times> string"

definition str_get :: "string \<Rightarrow> nat \<Rightarrow> nat \<Rightarrow> string option" where
  \<comment> \<open>\<open>content.get(a..b)\<close>\<close>
  "str_get s a b = (if a \<le> b \<and> b \<le> length s then Some (take (b - a) (drop a s)) else None)"

fun splice_text :: "string \<Rightarrow> nat \<Rightarrow> replacement list \<Rightarrow> string option" where
  \<comment> \<open>the loop that builds the text, from the offset copied so far\<close>
  "splice_text content copied [] = str_get content copied (length content)"
| "splice_text content copied (((a, b), v) # rs) =
     Option.bind (str_get content copied a) (\<lambda>lit.
       map_option (\<lambda>rest. lit @ v @ rest) (splice_text content b rs))"

fun remap_offset :: "nat \<Rightarrow> nat \<Rightarrow> nat \<Rightarrow> replacement list \<Rightarrow> nat" where
  \<comment> \<open>the closure \<open>remap\<close>, with the bytes removed and added so far\<close>
  "remap_offset removed added offset [] = offset + added - removed"
| "remap_offset removed added offset (((a, b), v) # rs) =
     (if offset \<le> a then offset + added - removed
      else if offset < b then a + added - removed + length v
      else remap_offset (removed + (b - a)) (added + length v) offset rs)"

definition move_run :: "replacement list \<Rightarrow> text_style_run \<Rightarrow> text_style_run option" where
  "move_run rs run =
     (let start = remap_offset 0 0 (text_style_run_start run) rs;
          end' = remap_offset 0 0 (text_style_run_end run) rs
      in if end' > start
         then Some (run\<lparr>text_style_run_start := start, text_style_run_end := end'\<rparr>) else None)"

definition replacements_of :: "string \<Rightarrow> (string \<Rightarrow> string option) \<Rightarrow> replacement list" where
  "replacements_of content resolve =
     List.map_filter (\<lambda>(range, name). map_option (Pair range) (resolve name)) (text_tokens content)"

definition interpolate_text ::
  "string \<Rightarrow> text_style_run list \<Rightarrow> (string \<Rightarrow> string option) \<Rightarrow> (string \<times> text_style_run list) option" where
  "interpolate_text content runs resolve =
     (let rs = replacements_of content resolve in
      if rs = [] then None
      else map_option (\<lambda>text. (text, List.map_filter (move_run rs) runs)) (splice_text content 0 rs))"

section \<open>Naming variables\<close>

definition in_path :: "variable_registry \<Rightarrow> string \<Rightarrow> variable \<Rightarrow> bool" where
  "in_path reg name v =
     (case Option.bind (fmlookup (vreg_collections reg) (var_collection v))
             (\<lambda>c. Option.bind (strip_prefix (vcoll_name c) name) (strip_prefix ''/'')) of
        None \<Rightarrow> False | Some rest \<Rightarrow> rest = var_name v)"

definition text_token_variable :: "variable_registry \<Rightarrow> string \<Rightarrow> variable_id option" where
  \<comment> \<open>the counters are lengths, and the candidate kept is the last one\<close>
  "text_token_variable reg name =
     (let vs = fm_values (vreg_variables reg);
          by_path = filter (in_path reg name) vs;
          by_name = filter (\<lambda>v. var_name v = name) vs
      in if length by_path = 1 then map_option var_id (last_opt by_path)
         else if length by_path = 0 \<and> length by_name = 1 then map_option var_id (last_opt by_name)
         else None)"

definition resolve_text_token ::
  "(f64 \<Rightarrow> string) \<Rightarrow> variable_registry \<Rightarrow> scene \<Rightarrow> node_id \<Rightarrow> (variable_collection_id, mode_id) fmap \<Rightarrow>
   string \<Rightarrow> string option" where
  "resolve_text_token show_f64 reg s anchor active name =
     Option.bind (text_token_variable reg name) (\<lambda>v.
     Option.bind (resolve_bound_value reg s anchor active v) (\<lambda>r.
       case r of
         ResolvedVarValue_String x \<Rightarrow> Some x
       | ResolvedVarValue_Enum x \<Rightarrow> Some x
       | ResolvedVarValue_Float x \<Rightarrow> Some (show_f64 x)
       | ResolvedVarValue_Boolean b \<Rightarrow> Some (if b then ''true'' else ''false'')
       | _ \<Rightarrow> None))"

definition apply_text_tokens ::
  "(f64 \<Rightarrow> string) \<Rightarrow> canvas_node \<Rightarrow> variable_registry \<Rightarrow> scene \<Rightarrow> node_id \<Rightarrow>
   (variable_collection_id, mode_id) fmap \<Rightarrow> bool \<times> canvas_node" where
  "apply_text_tokens show_f64 n reg s anchor active =
     (if \<not> has_text_tokens n then (False, n)
      else (case cn_data n of
              NodeData_Text t \<Rightarrow>
                (case interpolate_text (tn_content t) (tn_style_runs t) (resolve_text_token show_f64 reg s anchor active) of
                   None \<Rightarrow> (False, n)
                 | Some (text, runs) \<Rightarrow>
                     (True, n\<lparr>cn_data := NodeData_Text (t\<lparr>tn_content := text, tn_style_runs := runs\<rparr>)\<rparr>))
            | NodeData_TextPath t \<Rightarrow>
                (case interpolate_text (tp_content t) (tp_style_runs t) (resolve_text_token show_f64 reg s anchor active) of
                   None \<Rightarrow> (False, n)
                 | Some (text, runs) \<Rightarrow>
                     (True, n\<lparr>cn_data := NodeData_TextPath (t\<lparr>tp_content := text, tp_style_runs := runs\<rparr>)\<rparr>))
            | _ \<Rightarrow> (False, n)))"

definition display_binding ::
  "variable_registry \<Rightarrow> scene \<Rightarrow> node_id \<Rightarrow> (variable_collection_id, mode_id) fmap \<Rightarrow>
   (bound_prop, variable_id) fmap \<Rightarrow> bound_prop \<Rightarrow> canvas_node \<Rightarrow> canvas_node" where
  \<comment> \<open>one turn of the loop over the bindings\<close>
  "display_binding reg s i active bindings p n =
     (if p = BoundProp_TextStyle \<or> p = BoundProp_TextContent
      then (case Option.bind (fmlookup bindings p) (resolve_bound_value reg s i active) of
              None \<Rightarrow> n | Some v \<Rightarrow> snd (apply_resolved p n v))
      else n)"

definition displayed_text_node ::
  "(f64 \<Rightarrow> string) \<Rightarrow> scene \<Rightarrow> variable_registry \<Rightarrow> (variable_collection_id, mode_id) fmap \<Rightarrow> node_id \<Rightarrow>
   canvas_node option" where
  "displayed_text_node show_f64 s reg active i =
     Option.bind (scene_get s i) (\<lambda>n.
       case cn_data n of
         NodeData_Text _ \<Rightarrow>
           Some (snd (apply_text_tokens show_f64
             (fold (display_binding reg s i active (cn_bindings n)) (fm_keys (cn_bindings n)) n) reg s i active))
       | NodeData_TextPath _ \<Rightarrow>
           Some (snd (apply_text_tokens show_f64
             (fold (display_binding reg s i active (cn_bindings n)) (fm_keys (cn_bindings n)) n) reg s i active))
       | _ \<Rightarrow> None)"

end
