(* ===== verification/TextTokenProps.thy ===== *)
theory TextTokenProps
  imports TextTokens
begin

text \<open>
  What the scanner and the replacement of \<open>crates/fanta-doc/src/text_tokens.rs\<close> promise: the tokens are
  exactly the well-formed ones, in order and apart, and replacing them keeps every byte between them
  and moves every offset with its byte.
\<close>

section \<open>The scanner\<close>

definition pair_at :: "char \<Rightarrow> string \<Rightarrow> nat \<Rightarrow> bool" where
  "pair_at c s i \<longleftrightarrow> Suc i < length s \<and> s ! i = c \<and> s ! Suc i = c"

definition token_at :: "string \<Rightarrow> nat \<Rightarrow> nat \<Rightarrow> bool" where
  \<comment> \<open>a pair of braces, a name of that many bytes, a closing pair\<close>
  "token_at s a len \<longleftrightarrow>
     pair_at (CHR ''{'') s a \<and> pair_at (CHR ''}'') s (a + 2 + len) \<and> token_name_ok (take len (drop (a + 2) s))"

lemma pair_at_drop: "k \<le> length s \<Longrightarrow> pair_at c (drop k s) i \<longleftrightarrow> pair_at c s (k + i)"
  by (auto simp: pair_at_def)

lemma pair_at_Cons: "pair_at c (x # s) (Suc i) = pair_at c s i"
  by (simp add: pair_at_def)

lemma find_pair_first:
  "find_pair c s = Some i \<Longrightarrow> pair_at c s i \<and> (\<forall>j < i. \<not> pair_at c s j)"
proof (induction c s arbitrary: i rule: find_pair.induct)
  case (1 c x y s)
  show ?case
  proof (cases "x = c \<and> y = c")
    case True
    with "1.prems" show ?thesis by (simp add: pair_at_def)
  next
    case False
    with "1.prems" obtain j where j: "find_pair c (y # s) = Some j" "i = Suc j" by auto
    with "1.IH"[OF False j(1)] False show ?thesis
      by (auto simp: pair_at_Cons less_Suc_eq_0_disj) (simp_all add: pair_at_def)
  qed
qed simp_all

lemma find_pair_none: "find_pair c s = None \<Longrightarrow> \<not> pair_at c s j"
proof (induction c s arbitrary: j rule: find_pair.induct)
  case (1 c x y s)
  then show ?case by (cases j) (auto simp: pair_at_Cons pair_at_def split: if_splits)
qed (auto simp: pair_at_def)

lemma str_trim_Nil [simp]: "str_trim [] = []"
proof -
  have "white_prefix [] = 0" "white_suffix [] = 0"
    using white_prefix_le[of "[]"] white_suffix_le[of "[]"] by simp_all
  then show ?thesis by (simp add: str_trim_def trim_start.simps trim_end.simps)
qed

lemma token_name_no:
  assumes "token_name_ok (take len (drop k s))" "i < len" "k + i < length s"
  shows "s ! (k + i) \<noteq> CHR ''{''" "s ! (k + i) \<noteq> CHR ''}''"
proof -
  have "s ! (k + i) \<in> set (take len (drop k s))"
    using assms(2,3) by (auto simp: in_set_conv_nth intro!: exI[of _ i])
  with assms(1) show "s ! (k + i) \<noteq> CHR ''{''" "s ! (k + i) \<noteq> CHR ''}''"
    by (auto simp: token_name_ok_def list_ex_iff)
qed

lemma token_at_length:
  assumes "token_at s a len" "pair_at (CHR ''}'') s (a + 2 + first)"
    and "\<forall>j < first. \<not> pair_at (CHR ''}'') s (a + 2 + j)"
  shows "len = first"
proof (rule ccontr)
  assume "len \<noteq> first"
  moreover have "\<not> len < first" using assms(1,3) by (auto simp: token_at_def)
  ultimately have "first < len" by simp
  moreover have "a + 2 + first < length s" using assms(2) by (simp add: pair_at_def)
  ultimately have "s ! (a + 2 + first) \<noteq> CHR ''}''"
    using assms(1) by (intro token_name_no(2)) (simp_all add: token_at_def)
  with assms(2) show False by (simp add: pair_at_def)
qed

lemma token_interior:
  assumes "token_at s a len" "pair_at (CHR ''{'') s x" "a < x"
  shows "a + len + 4 \<le> x"
proof (rule ccontr)
  assume "\<not> a + len + 4 \<le> x"
  note ok = assms(1)[unfolded token_at_def]
  have name: "token_name_ok (take len (drop (a + 2) s))" using ok by blast
  have len: "len \<noteq> 0"
  proof
    assume "len = 0"
    with name show False by (simp add: token_name_ok_def)
  qed
  have close: "s ! (a + 2 + len) = CHR ''}''" "s ! Suc (a + 2 + len) = CHR ''}''" "Suc (a + 2 + len) < length s"
    using ok by (simp_all add: pair_at_def)
  have inside: "s ! (a + 2 + i) \<noteq> CHR ''{''" if "i < len" for i
    using token_name_no(1)[OF name that] that close(3) by simp
  have open_at: "s ! x = CHR ''{''" "s ! Suc x = CHR ''{''" using assms(2) by (simp_all add: pair_at_def)
  consider "x = a + 1" | i where "x = a + 2 + i" "i < len" | "x = a + 2 + len" | "x = Suc (a + 2 + len)"
  proof -
    assume *: "x = a + 1 \<Longrightarrow> thesis" "\<And>i. x = a + 2 + i \<Longrightarrow> i < len \<Longrightarrow> thesis" "x = a + 2 + len \<Longrightarrow> thesis"
      "x = Suc (a + 2 + len) \<Longrightarrow> thesis"
    from \<open>\<not> a + len + 4 \<le> x\<close> \<open>a < x\<close>
    have "x = a + 1 \<or> x = a + 2 + (x - (a + 2)) \<and> x - (a + 2) < len \<or> x = a + 2 + len \<or> x = Suc (a + 2 + len)"
      by presburger
    with * show thesis by blast
  qed
  then show False
  proof cases
    case 1
    with open_at(2) inside[of 0] len show False by simp
  next
    case 2
    with open_at(1) inside show False by simp
  qed (use open_at(1) close in simp_all)
qed

lemma scan_tokens_exact:
  assumes "cursor \<le> length s"
  shows "((a, b), n) \<in> set (scan_tokens s cursor) \<longleftrightarrow>
    cursor \<le> a \<and> (\<exists>len. b = a + len + 4 \<and> token_at s a len \<and> n = str_trim (take len (drop (a + 2) s)))"
  using assms
proof (induction s cursor rule: scan_tokens.induct)
  case (1 s c)
  let ?spec = "\<lambda>c. c \<le> a \<and> (\<exists>len. b = a + len + 4 \<and> token_at s a len \<and> n = str_trim (take len (drop (a + 2) s)))"
  note scan = scan_tokens.simps[of s c]
  show ?case
  proof (cases "find_pair (CHR ''{'') (drop c s)")
    case None
    have "\<not> pair_at (CHR ''{'') s (c + i)" for i
      using find_pair_none[OF None, of i] "1.prems" by (simp add: pair_at_drop)
    then have "\<not> ?spec c" by (metis le_Suc_ex token_at_def)
    then show ?thesis by (simp add: scan None)
  next
    case (Some found)
    define start where "start = c + found"
    from find_pair_first[OF Some] "1.prems"
    have start: "pair_at (CHR ''{'') s start" "\<And>j. j < found \<Longrightarrow> \<not> pair_at (CHR ''{'') s (c + j)"
      by (simp_all add: pair_at_drop start_def)
    have bound: "start + 2 \<le> length s" using start(1) by (simp add: pair_at_def)
    have later: "start \<le> a" if "?spec c"
    proof (rule ccontr)
      assume "\<not> start \<le> a"
      with that have "a - c < found" "c + (a - c) = a" by (auto simp: start_def)
      with start(2)[of "a - c"] that show False by (auto simp: token_at_def)
    qed
    show ?thesis
    proof (cases "find_pair (CHR ''}'') (drop (start + 2) s)")
      case None
      have "\<not> pair_at (CHR ''}'') s (start + 2 + i)" for i
        using find_pair_none[OF None, of i] bound by (simp add: pair_at_drop)
      then have "\<not> pair_at (CHR ''}'') s (a + 2 + len)" if "start \<le> a" for len
        using that by (metis add.assoc add.commute le_Suc_ex)
      with later have "\<not> ?spec c" by (auto simp: token_at_def)
      then show ?thesis using None by (simp add: scan Some start_def[symmetric] Let_def)
    next
      case close: (Some len)
      let ?raw = "take len (drop (start + 2) s)"
      from find_pair_first[OF close] bound
      have first: "pair_at (CHR ''}'') s (start + 2 + len)" "\<forall>j < len. \<not> pair_at (CHR ''}'') s (start + 2 + j)"
        by (simp_all add: pair_at_drop)
      show ?thesis
      proof (cases "token_name_ok ?raw")
        case False
        have IH: "((a, b), n) \<in> set (scan_tokens s (start + 1)) \<longleftrightarrow> ?spec (start + 1)"
          using "1.IH"(1)[OF Some start_def refl close refl] False bound by simp
        have "\<not> token_at s start l" for l
          using token_at_length[OF _ first] False by (auto simp: token_at_def)
        then have after: "start + 1 \<le> a" if "?spec c"
          using later[OF that] that by (cases "a = start") auto
        have "?spec c \<longleftrightarrow> ?spec (start + 1)"
        proof
          assume "?spec c"
          from after[OF this] this show "?spec (start + 1)" by (intro conjI) simp_all
        next
          assume spec: "?spec (start + 1)"
          then have "c \<le> a" by (simp add: start_def)
          with spec show "?spec c" by (intro conjI) simp_all
        qed
        with IH False close show ?thesis by (simp add: scan Some start_def[symmetric] Let_def)
      next
        case True
        have tok: "token_at s start len" using start(1) first(1) True by (simp add: token_at_def)
        have "start + 2 + len + 2 \<le> length s" using first(1) by (simp add: pair_at_def)
        then have IH: "((a, b), n) \<in> set (scan_tokens s (start + 2 + len + 2)) \<longleftrightarrow> ?spec (start + 2 + len + 2)"
          using "1.IH"(2)[OF Some start_def refl close refl] True by simp
        have "?spec c \<longleftrightarrow> (a = start \<and> b = start + len + 4 \<and> n = str_trim ?raw) \<or> ?spec (start + 2 + len + 2)"
        proof (cases "a = start")
          case True
          have "token_at s start l \<longleftrightarrow> l = len" for l
            using tok token_at_length[OF _ first] by blast
          moreover have "c \<le> start" by (simp add: start_def)
          ultimately show ?thesis by (simp add: True)
        next
          case False
          have "start + len + 4 \<le> a" if "?spec c"
          proof (rule token_interior[OF tok])
            show "pair_at (CHR ''{'') s a" using that by (auto simp: token_at_def)
            show "start < a" using later[OF that] False by simp
          qed
          moreover have "c \<le> a" if "start + 2 + len + 2 \<le> a" using that by (simp add: start_def)
          ultimately show ?thesis using False by fastforce
        qed
        with IH True close show ?thesis
          by (auto simp: scan Some start_def[symmetric] Let_def algebra_simps)
      qed
    qed
  qed
qed

lemma scan_tokens_apart:
  "cursor \<le> length s \<Longrightarrow> sorted_wrt (\<lambda>t u. snd (fst t) \<le> fst (fst u)) (scan_tokens s cursor)"
proof (induction s cursor rule: scan_tokens.induct)
  case (1 s c)
  note scan = scan_tokens.simps[of s c]
  show ?case
  proof (cases "find_pair (CHR ''{'') (drop c s)")
    case None
    then show ?thesis by (simp add: scan)
  next
    case (Some found)
    from find_pair_first[OF Some] "1.prems" have "pair_at (CHR ''{'') s (c + found)"
      by (simp add: pair_at_drop)
    then have start: "c + found + 2 \<le> length s" by (simp add: pair_at_def)
    show ?thesis
    proof (cases "find_pair (CHR ''}'') (drop (c + found + 2) s)")
      case None
      with Some show ?thesis by (simp add: scan Let_def)
    next
      case close: (Some len)
      from find_pair_first[OF close] start have "pair_at (CHR ''}'') s (c + found + 2 + len)"
        by (simp add: pair_at_drop)
      then have bound: "c + found + 2 + len + 2 \<le> length s" by (simp add: pair_at_def)
      show ?thesis
      proof (cases "token_name_ok (take len (drop (c + found + 2) s))")
        case False
        then show ?thesis using "1.IH"(1)[OF Some refl refl close refl] start Some close
          by (simp add: scan Let_def)
      next
        case True
        have "\<forall>t \<in> set (scan_tokens s (c + found + 2 + len + 2)). c + found + 2 + len + 2 \<le> fst (fst t)"
          using scan_tokens_exact[OF bound] by (metis prod.collapse)
        then show ?thesis using "1.IH"(2)[OF Some refl refl close refl] bound True Some close
          by (simp add: scan Let_def)
      qed
    qed
  qed
qed

text \<open>
  C39. The scanner finds exactly the well-formed tokens: a range is reported when it starts with two
  braces, ends with two braces, and between them holds no brace, no line break and not only white
  space, and it is reported with that name, trimmed. The ranges come in order and do not overlap.
\<close>
theorem text_tokens_exact:
  "(\<forall>a b n. ((a, b), n) \<in> set (text_tokens content) \<longleftrightarrow>
      (\<exists>len. b = a + len + 4 \<and> token_at content a len \<and> n = str_trim (take len (drop (a + 2) content)))) \<and>
   sorted_wrt (\<lambda>t u. snd (fst t) \<le> fst (fst u)) (text_tokens content)"
  using scan_tokens_exact[of 0 content] scan_tokens_apart[of 0 content] by (simp add: text_tokens_def)

section \<open>The replacement\<close>

fun interleave :: "string list \<Rightarrow> string list \<Rightarrow> string" where
  "interleave (l # ls) (t # ts) = l @ t @ interleave ls ts"
| "interleave ls [] = concat ls"
| "interleave [] ts = concat ts"

fun piece_start :: "string list \<Rightarrow> string list \<Rightarrow> nat \<Rightarrow> nat" where
  \<comment> \<open>where the literal of that number begins\<close>
  "piece_start (l # ls) (t # ts) (Suc k) = length l + length t + piece_start ls ts k"
| "piece_start _ _ _ = 0"

definition range_text :: "string \<Rightarrow> nat \<times> nat \<Rightarrow> string" where
  "range_text s r = take (snd r - fst r) (drop (fst r) s)"

fun ranges_ok :: "nat \<Rightarrow> string \<Rightarrow> replacement list \<Rightarrow> bool" where
  "ranges_ok c s [] \<longleftrightarrow> c \<le> length s"
| "ranges_ok c s (((a, b), v) # rs) \<longleftrightarrow> c \<le> a \<and> a < b \<and> ranges_ok b s rs"

lemma ranges_ok_le: "ranges_ok c s rs \<Longrightarrow> c \<le> length s"
  by (induction c s rs rule: ranges_ok.induct) auto

definition moves_with_text :: "string list \<Rightarrow> string list \<Rightarrow> string list \<Rightarrow> (nat \<Rightarrow> nat) \<Rightarrow> bool" where
  \<comment> \<open>an offset in a literal keeps its place in it; one inside a token goes to the end of its value\<close>
  "moves_with_text lits toks vals f \<longleftrightarrow>
     (\<forall>k < length lits. \<forall>m \<le> length (lits ! k). f (piece_start lits toks k + m) = piece_start lits vals k + m) \<and>
     (\<forall>k < length toks. \<forall>m. 0 < m \<and> m < length (toks ! k) \<longrightarrow>
        f (piece_start lits toks k + length (lits ! k) + m) =
          piece_start lits vals k + length (lits ! k) + length (vals ! k))"

lemma moves_with_text_Cons:
  assumes "moves_with_text lits toks vals g" "lits \<noteq> []"
    and "\<And>m. m \<le> length l \<Longrightarrow> f m = m"
    and "\<And>m. 0 < m \<Longrightarrow> m < length t \<Longrightarrow> f (length l + m) = length l + length v"
    and "\<And>x. f (length l + length t + x) = length l + length v + g x"
  shows "moves_with_text (l # lits) (t # toks) (v # vals) f"
  unfolding moves_with_text_def
proof (intro conjI allI impI)
  fix k m assume k: "k < length (l # lits)" "m \<le> length ((l # lits) ! k)"
  show "f (piece_start (l # lits) (t # toks) k + m) = piece_start (l # lits) (v # vals) k + m"
  proof (cases k)
    case (Suc j)
    with k assms(1) have "g (piece_start lits toks j + m) = piece_start lits vals j + m"
      by (simp add: moves_with_text_def)
    with Suc assms(5)[of "piece_start lits toks j + m"] show ?thesis by (simp add: add.assoc)
  qed (use k assms(3) in simp)
next
  fix k m assume k: "k < length (t # toks)" "0 < m \<and> m < length ((t # toks) ! k)"
  show "f (piece_start (l # lits) (t # toks) k + length ((l # lits) ! k) + m) =
      piece_start (l # lits) (v # vals) k + length ((l # lits) ! k) + length ((v # vals) ! k)"
  proof (cases k)
    case (Suc j)
    with k assms(1) have "g (piece_start lits toks j + length (lits ! j) + m) =
        piece_start lits vals j + length (lits ! j) + length (vals ! j)"
      by (simp add: moves_with_text_def)
    with Suc assms(5)[of "piece_start lits toks j + length (lits ! j) + m"] show ?thesis
      by (simp add: add.assoc)
  qed (use k assms(4)[of m] in simp)
qed

lemma remap_offset_bounded:
  assumes "ranges_ok c s rs" "removed \<le> c" "c \<le> x"
  shows "c + added - removed \<le> remap_offset removed added x rs"
  using assms
proof (induction removed added x rs arbitrary: c rule: remap_offset.induct)
  case (2 removed added x a b v rs)
  show ?case
  proof (cases "x < b")
    case True
    with "2.prems" show ?thesis by auto
  next
    case False
    with "2.prems" have "b + (added + length v) - (removed + (b - a)) \<le>
        remap_offset (removed + (b - a)) (added + length v) x rs"
      by (intro "2.IH") auto
    with False "2.prems" show ?thesis by auto
  qed
qed auto

lemma splice_text_exact:
  assumes "ranges_ok c s rs" "removed \<le> c"
  shows "\<exists>lits. length lits = Suc (length rs) \<and>
     drop c s = interleave lits (map (range_text s \<circ> fst) rs) \<and>
     splice_text s c rs = Some (interleave lits (map snd rs)) \<and>
     moves_with_text lits (map (range_text s \<circ> fst) rs) (map snd rs)
       (\<lambda>x. remap_offset removed added (c + x) rs - (c + added - removed))"
  using assms
proof (induction rs arbitrary: c removed added)
  case Nil
  then show ?case
    by (intro exI[of _ "[drop c s]"]) (simp add: str_get_def moves_with_text_def)
next
  case (Cons r rs)
  obtain a b v where r: "r = ((a, b), v)" by (cases r) auto
  from Cons.prems r have ab: "c \<le> a" "a < b" "ranges_ok b s rs" by simp_all
  then have bs: "b \<le> length s" using ranges_ok_le by blast
  have "removed + (b - a) \<le> b" using ab Cons.prems(2) by simp
  from Cons.IH[OF ab(3) this, of "added + length v"] obtain lits where
    lits: "length lits = Suc (length rs)" "drop b s = interleave lits (map (range_text s \<circ> fst) rs)"
      "splice_text s b rs = Some (interleave lits (map snd rs))"
      "moves_with_text lits (map (range_text s \<circ> fst) rs) (map snd rs)
         (\<lambda>x. remap_offset (removed + (b - a)) (added + length v) (b + x) rs -
                (b + (added + length v) - (removed + (b - a))))"
    by blast
  let ?l = "take (a - c) (drop c s)" and ?t = "range_text s (a, b)"
  have len: "length ?l = a - c" "length ?t = b - a" using ab bs by (simp_all add: range_text_def)
  have "drop c s = ?l @ ?t @ drop b s"
  proof -
    have "drop c s = ?l @ drop (a - c) (drop c s)" by (rule append_take_drop_id[symmetric])
    also have "drop (a - c) (drop c s) = drop a s" using ab by simp
    also have "drop a s = ?t @ drop (b - a) (drop a s)"
      unfolding range_text_def by (simp add: append_take_drop_id del: drop_drop)
    also have "drop (b - a) (drop a s) = drop b s" using ab by simp
    finally show ?thesis .
  qed
  moreover have "splice_text s c (r # rs) = Some (?l @ v @ interleave lits (map snd rs))"
    using ab bs by (simp add: r lits(3) str_get_def)
  moreover have "moves_with_text (?l # lits) (?t # map (range_text s \<circ> fst) rs) (v # map snd rs)
      (\<lambda>x. remap_offset removed added (c + x) (r # rs) - (c + added - removed))"
  proof (rule moves_with_text_Cons[OF lits(4)])
    show "lits \<noteq> []" using lits(1) by auto
  next
    fix m assume "m \<le> length ?l"
    with len ab Cons.prems(2) show "remap_offset removed added (c + m) (r # rs) - (c + added - removed) = m"
      by (simp add: r)
  next
    fix m assume "0 < m" "m < length ?t"
    with len ab Cons.prems(2)
    show "remap_offset removed added (c + (length ?l + m)) (r # rs) - (c + added - removed) = length ?l + length v"
      by (simp add: r)
  next
    fix x
    have "b + (added + length v) - (removed + (b - a)) \<le>
        remap_offset (removed + (b - a)) (added + length v) (b + x) rs"
      using ab Cons.prems(2) by (intro remap_offset_bounded[of b s]) simp_all
    moreover have "c + (length ?l + length ?t + x) = b + x" using len ab by simp
    ultimately show "remap_offset removed added (c + (length ?l + length ?t + x)) (r # rs) - (c + added - removed) =
        length ?l + length v + (remap_offset (removed + (b - a)) (added + length v) (b + x) rs -
          (b + (added + length v) - (removed + (b - a))))"
      using len(1) ab Cons.prems(2) by (simp add: r)
  qed
  ultimately show ?case
    using lits(1,2) by (intro exI[of _ "?l # lits"]) (simp add: r comp_def)
qed

lemma token_bounds:
  "((a, b), n) \<in> set (text_tokens s) \<Longrightarrow> a < b \<and> b \<le> length s"
  using scan_tokens_exact[of 0 s a b n] by (auto simp: text_tokens_def token_at_def pair_at_def)

lemma replacements_ok: "ranges_ok 0 s (replacements_of s resolve)"
proof -
  have "ranges_ok c s (List.map_filter (\<lambda>(range, name). map_option (Pair range) (resolve name)) ts)"
    if "\<forall>t \<in> set ts. fst (fst t) < snd (fst t) \<and> snd (fst t) \<le> length s \<and> c \<le> fst (fst t)"
      "sorted_wrt (\<lambda>t u. snd (fst t) \<le> fst (fst u)) ts" "c \<le> length s" for ts :: "token list" and c
    using that
  proof (induction ts arbitrary: c)
    case (Cons t ts)
    obtain a b n where t: "t = ((a, b), n)" by (cases t) auto
    show ?case
    proof (cases "resolve n")
      case None
      with Cons t show ?thesis by (simp add: List.map_filter_simps)
    next
      case (Some v)
      from Cons.prems t have "a < b" "b \<le> length s" "c \<le> a" by simp_all
      moreover have "ranges_ok b s (List.map_filter (\<lambda>(range, name). map_option (Pair range) (resolve name)) ts)"
        using Cons.prems t by (intro Cons.IH) auto
      ultimately show ?thesis using Some t by (simp add: List.map_filter_simps)
    qed
  qed (simp add: List.map_filter_simps)
  moreover have "\<forall>t \<in> set (text_tokens s). fst (fst t) < snd (fst t) \<and> snd (fst t) \<le> length s \<and> 0 \<le> fst (fst t)"
    using token_bounds by force
  moreover have "sorted_wrt (\<lambda>t u. snd (fst t) \<le> fst (fst u)) (text_tokens s)"
    using scan_tokens_apart[of 0 s] by (simp add: text_tokens_def)
  ultimately show ?thesis unfolding replacements_of_def by blast
qed


end
