(* ===== verification/PathResize.thy ===== *)
theory PathResize
  imports Floats NodeTypes
begin

text \<open>
  The path geometry that resizing a node needs: \<open>rough_bounds\<close>, \<open>is_rect\<close>, \<open>rect\<close> and \<open>scale_about\<close> of
  \<open>crates/fanta-doc/src/path/data.rs\<close>, \<open>Bounds::union\<close> of \<open>transform.rs\<close> and \<open>set_local_size\<close> of
  \<open>node/mod.rs\<close>. Products and quotients of \<open>f64\<close> are computed exactly and rounded once, as the sums of
  \<open>IndexKeys\<close> are. \<open>f64::min\<close> and \<open>max\<close> may return either zero when both are; the model keeps the first.
\<close>

section \<open>Products, quotients and comparisons\<close>

definition f64_flip :: "f64 \<Rightarrow> f64" where
  "f64_flip a = f64_pack (\<not> f64_neg a) (f64_bits a)"

definition f64_abs :: "f64 \<Rightarrow> f64" where
  "f64_abs a = f64_pack False (f64_bits a)"

definition f64_sub :: "f64 \<Rightarrow> f64 \<Rightarrow> f64" where
  "f64_sub a b = f64_add a (f64_flip b)"

definition f64_mul :: "f64 \<Rightarrow> f64 \<Rightarrow> f64" where
  \<comment> \<open>a product of two counts of \<open>2^-1074\<close> is a count of \<open>2^-2148\<close>\<close>
  "f64_mul a b =
     (let s = (f64_neg a \<noteq> f64_neg b) in
      if f64_is_nan a \<or> f64_is_nan b then f64_nan
      else if \<not> f64_is_finite a \<or> \<not> f64_is_finite b
      then (if f64_bits a = 0 \<or> f64_bits b = 0 then f64_nan else f64_pack s inf_bits)
      else f64_pack s (round_bits 1074 (mag_of_bits (f64_bits a) * mag_of_bits (f64_bits b))))"

definition f64_div :: "f64 \<Rightarrow> f64 \<Rightarrow> f64" where
  \<comment> \<open>the quotient to 2200 more places, and a last place that says whether it is exact\<close>
  "f64_div a b =
     (let s = (f64_neg a \<noteq> f64_neg b); m = mag_of_bits (f64_bits a); n = mag_of_bits (f64_bits b) in
      if f64_is_nan a \<or> f64_is_nan b then f64_nan
      else if \<not> f64_is_finite a then (if \<not> f64_is_finite b then f64_nan else f64_pack s inf_bits)
      else if \<not> f64_is_finite b then f64_pack s 0
      else if n = 0 then (if m = 0 then f64_nan else f64_pack s inf_bits)
      else (let q = m * 2 ^ 3274 div n; sticky = (if m * 2 ^ 3274 mod n = 0 then 0 else 1)
            in f64_pack s (round_bits 2201 (2 * q + sticky))))"

definition f64_signed :: "f64 \<Rightarrow> int" where
  "f64_signed a = (if f64_neg a then - int (f64_bits a) else int (f64_bits a))"

definition f64_lt :: "f64 \<Rightarrow> f64 \<Rightarrow> bool" where
  "f64_lt a b \<longleftrightarrow> \<not> f64_is_nan a \<and> \<not> f64_is_nan b \<and> f64_signed a < f64_signed b"

definition f64_le :: "f64 \<Rightarrow> f64 \<Rightarrow> bool" where
  "f64_le a b \<longleftrightarrow> \<not> f64_is_nan a \<and> \<not> f64_is_nan b \<and> f64_signed a \<le> f64_signed b"

definition f64_min :: "f64 \<Rightarrow> f64 \<Rightarrow> f64" where
  "f64_min a b = (if f64_is_nan a then b else if f64_lt b a then b else a)"

definition f64_max :: "f64 \<Rightarrow> f64 \<Rightarrow> f64" where
  "f64_max a b = (if f64_is_nan a then b else if f64_lt a b then b else a)"

definition f64_1e_6 :: f64 where "f64_1e_6 = 0x3EB0C6F7A0B5ED8D"

definition f64_1e_9 :: f64 where "f64_1e_9 = 0x3E112E0BE826D695"

section \<open>Paths\<close>

type_synonym point = "f64 \<times> f64"

definition path_new :: path_data where
  "path_new = \<lparr>path_data_segments = [], path_data_fill_rule = FillRule_NonZero, path_data_subpath_rules = []\<rparr>"

definition path_rect :: "f64 \<Rightarrow> f64 \<Rightarrow> f64 \<Rightarrow> f64 \<Rightarrow> path_data" where
  "path_rect x y w h =
     path_new\<lparr>path_data_segments :=
       [PathSegment_Move (x, y), PathSegment_Line (f64_add x w, y),
        PathSegment_Line (f64_add x w, f64_add y h), PathSegment_Line (x, f64_add y h), PathSegment_Close]\<rparr>"

fun segment_points :: "path_segment \<Rightarrow> point list" where
  \<comment> \<open>the points \<open>map_points\<close> visits, in order\<close>
  "segment_points (PathSegment_Move p) = [p]"
| "segment_points (PathSegment_Line p) = [p]"
| "segment_points (PathSegment_Quad c p) = [c, p]"
| "segment_points (PathSegment_Cubic c1 c2 p) = [c1, c2, p]"
| "segment_points PathSegment_Close = []"

fun map_points :: "(point \<Rightarrow> point) \<Rightarrow> path_segment \<Rightarrow> path_segment" where
  "map_points f (PathSegment_Move p) = PathSegment_Move (f p)"
| "map_points f (PathSegment_Line p) = PathSegment_Line (f p)"
| "map_points f (PathSegment_Quad c p) = PathSegment_Quad (f c) (f p)"
| "map_points f (PathSegment_Cubic c1 c2 p) = PathSegment_Cubic (f c1) (f c2) (f p)"
| "map_points f PathSegment_Close = PathSegment_Close"

definition bounds_union :: "bounds \<Rightarrow> bounds \<Rightarrow> bounds" where
  "bounds_union a b =
     \<lparr>bounds_min_x = f64_min (bounds_min_x a) (bounds_min_x b),
      bounds_min_y = f64_min (bounds_min_y a) (bounds_min_y b),
      bounds_max_x = f64_max (bounds_max_x a) (bounds_max_x b),
      bounds_max_y = f64_max (bounds_max_y a) (bounds_max_y b)\<rparr>"

definition point_bounds :: "point \<Rightarrow> bounds" where
  "point_bounds p =
     \<lparr>bounds_min_x = fst p, bounds_min_y = snd p, bounds_max_x = fst p, bounds_max_y = snd p\<rparr>"

definition add_point :: "point \<Rightarrow> bounds option \<Rightarrow> bounds option" where
  "add_point p b =
     (if f64_is_finite (fst p) \<and> f64_is_finite (snd p)
      then Some (case b of None \<Rightarrow> point_bounds p | Some c \<Rightarrow> bounds_union c (point_bounds p))
      else b)"

definition rough_bounds :: "path_data \<Rightarrow> bounds option" where
  "rough_bounds p = fold add_point (concat (map segment_points (path_data_segments p))) None"

fun rect_points :: "path_segment list \<Rightarrow> point list option" where
  \<comment> \<open>the loop of \<open>is_rect\<close> after the first segment\<close>
  "rect_points [] = Some []"
| "rect_points (PathSegment_Line p # segs) = map_option ((#) p) (rect_points segs)"
| "rect_points (PathSegment_Close # segs) = rect_points segs"
| "rect_points (_ # segs) = None"

definition axis_edge :: "point \<Rightarrow> point \<Rightarrow> bool" where
  "axis_edge a b \<longleftrightarrow>
     f64_lt (f64_abs (f64_sub (snd a) (snd b))) f64_1e_6 \<or> f64_lt (f64_abs (f64_sub (fst a) (fst b))) f64_1e_6"

definition is_rect :: "path_data \<Rightarrow> bool" where
  "is_rect p =
     (case path_data_segments p of
        PathSegment_Move a # segs \<Rightarrow>
          (case rect_points segs of
             Some [b, c, d] \<Rightarrow> axis_edge a b \<and> axis_edge b c \<and> axis_edge c d \<and> axis_edge d a
           | _ \<Rightarrow> False)
      | _ \<Rightarrow> False)"

definition scale_about :: "f64 \<Rightarrow> f64 \<Rightarrow> f64 \<Rightarrow> f64 \<Rightarrow> path_data \<Rightarrow> path_data" where
  "scale_about ox oy sx sy p =
     p\<lparr>path_data_segments := map (map_points (\<lambda>q.
         (f64_add ox (f64_mul (f64_sub (fst q) ox) sx), f64_add oy (f64_mul (f64_sub (snd q) oy) sy))))
       (path_data_segments p)\<rparr>"

section \<open>Node sizes\<close>

definition set_local_size :: "f64 \<times> f64 \<Rightarrow> node_data \<Rightarrow> bool \<times> node_data" where
  "set_local_size sz d =
     (case d of
        NodeData_Group g \<Rightarrow>
          (if gn_clip_size g = None then (True, NodeData_Group (g\<lparr>gn_local_size := Some sz\<rparr>)) else (False, d))
      | NodeData_Text t \<Rightarrow> (True, NodeData_Text (t\<lparr>tn_local_size := sz\<rparr>))
      | NodeData_Bitmap b \<Rightarrow> (True, NodeData_Bitmap (b\<lparr>bitmap_local_size := sz\<rparr>))
      | NodeData_Video v \<Rightarrow> (True, NodeData_Video (v\<lparr>video_local_size := sz\<rparr>))
      | NodeData_Audio a \<Rightarrow> (True, NodeData_Audio (a\<lparr>audio_local_size := sz\<rparr>))
      | NodeData_NodeGraph n \<Rightarrow> (True, NodeData_NodeGraph (n\<lparr>ngn_local_size := sz\<rparr>))
      | NodeData_Model3d m \<Rightarrow> (True, NodeData_Model3d (m\<lparr>m3d_local_size := sz\<rparr>))
      | NodeData_AiArtifact a \<Rightarrow> (True, NodeData_AiArtifact (a\<lparr>ai_local_size := sz\<rparr>))
      | NodeData_Instance i \<Rightarrow> (True, NodeData_Instance (i\<lparr>inst_local_size := sz\<rparr>))
      | NodeData_Embed e \<Rightarrow> (True, NodeData_Embed (e\<lparr>embed_local_size := sz\<rparr>))
      | NodeData_Vector _ \<Rightarrow> (False, d)
      | NodeData_TextPath _ \<Rightarrow> (False, d)
      | NodeData_Boolean _ \<Rightarrow> (False, d))"

definition resize_vector :: "f64 \<times> f64 \<Rightarrow> vector_node \<Rightarrow> vector_node" where
  \<comment> \<open>the vector arm of \<open>apply_derived_size\<close>\<close>
  "resize_vector sz v =
     (case rough_bounds (vn_path v) of
        None \<Rightarrow> v
      | Some b \<Rightarrow>
          (let w = fst sz; h = snd sz;
               bw = f64_sub (bounds_max_x b) (bounds_min_x b); bh = f64_sub (bounds_max_y b) (bounds_min_y b);
               sx = (if f64_lt f64_1e_9 bw then f64_div w bw else f64_one);
               sy = (if f64_lt f64_1e_9 bh then f64_div h bh else f64_one);
               path = (if is_rect (vn_path v) then path_rect (bounds_min_x b) (bounds_min_y b) w h
                       else if f64_lt f64_1e_9 (f64_abs (f64_sub sx f64_one)) \<or>
                               f64_lt f64_1e_9 (f64_abs (f64_sub sy f64_one))
                       then scale_about (bounds_min_x b) (bounds_min_y b) sx sy (vn_path v)
                       else vn_path v)
           in v\<lparr>vn_path := path, vn_local_size := (if vn_local_size v = None then None else Some sz)\<rparr>))"

definition resize_data :: "f64 \<times> f64 \<Rightarrow> node_data \<Rightarrow> node_data" where
  \<comment> \<open>\<open>apply_derived_size\<close>\<close>
  "resize_data sz d =
     (case d of
        NodeData_Boolean b \<Rightarrow>
          NodeData_Boolean (b\<lparr>bn_baked := map_option (\<lambda>k.
            k\<lparr>boolean_baked_geometry_vector := resize_vector sz (boolean_baked_geometry_vector k)\<rparr>) (bn_baked b)\<rparr>)
      | NodeData_Vector v \<Rightarrow> NodeData_Vector (resize_vector sz v)
      | NodeData_Text _ \<Rightarrow> snd (set_local_size sz d)
      | NodeData_Bitmap _ \<Rightarrow> snd (set_local_size sz d)
      | NodeData_Instance _ \<Rightarrow> snd (set_local_size sz d)
      | NodeData_Group g \<Rightarrow>
          (if gn_clip_size g \<noteq> None then NodeData_Group (g\<lparr>gn_clip_size := Some sz\<rparr>)
           else NodeData_Group (g\<lparr>gn_local_size := Some sz\<rparr>))
      | _ \<Rightarrow> d)"

end
