(* ===== verification/InstanceExpand.thy ===== *)
theory InstanceExpand
  imports TextTokens PathResize JsonValues
begin

text \<open>
  Instance expansion, \<open>crates/fanta-doc/src/resolve/instance.rs\<close>: which definition an instance stands for,
  the clone of the master's subtree under fresh ids, and the three layers written onto it, component
  properties, sparse overrides and Figma's derived data, with the routing of paths that cross into a
  nested instance. Fresh ids are a parameter, the sequence of ids \<open>NodeId::new\<close> mints; so are the serde
  encoding of a node, its decoding, and \<open>Display\<close> of \<open>f64\<close>. Cancellation is not modelled: these are the entry points
  that pass no \<open>should_cancel\<close>. The two passes at load time are in \<open>LoadPasses\<close>.
\<close>

unbundle bit_operations_syntax

section \<open>Types\<close>

record expanded_node =
  en_node :: canvas_node
  en_def_path :: "node_id list"

record expansion_context =
  ctx_variables :: variable_registry
  ctx_active_modes :: "(variable_collection_id, mode_id) fmap"
  ctx_mode_anchor :: node_id

record resolved_component_def_ref =
  rcd_component_ref :: component_id
  rcd_resolved_component :: component_id
  rcd_resolved_root :: node_id
  rcd_rev :: u64
  rcd_preview_rev :: u64

record node_serde =
  \<comment> \<open>\<open>serde_json::to_value\<close> and \<open>from_value\<close> on a node; \<open>None\<close> is an error\<close>
  ns_to_value :: "canvas_node \<Rightarrow> json option"
  ns_from_value :: "json \<Rightarrow> canvas_node option"

section \<open>Choosing the definition\<close>

definition resolve_component_prop_value ::
  "scene option \<Rightarrow> var_value \<Rightarrow> expansion_context option \<Rightarrow> resolved_var_value option" where
  "resolve_component_prop_value s v ctx =
     (case (v, s, ctx) of
        (VarValue_Alias variable, Some s, Some c) \<Rightarrow>
          resolve_bound_value (ctx_variables c) s (ctx_mode_anchor c) (ctx_active_modes c) variable
      | _ \<Rightarrow> as_resolved v)"

fun variant_value_string :: "resolved_var_value \<Rightarrow> string option" where
  "variant_value_string (ResolvedVarValue_String v) = Some v"
| "variant_value_string (ResolvedVarValue_Enum v) = Some v"
| "variant_value_string (ResolvedVarValue_Boolean b) = Some (if b then ''True'' else ''False'')"
| "variant_value_string _ = None"

type_synonym selection_map = "(string, string) fmap"

definition select_axis ::
  "scene option \<Rightarrow> instance_node \<Rightarrow> expansion_context option \<Rightarrow> component_prop_def \<Rightarrow> selection_map \<Rightarrow> selection_map" where
  "select_axis s inst ctx prop sel =
     (case cprop_kind prop of
        ComponentPropKind_Variant axis \<Rightarrow>
          (case Option.bind (Option.bind (fmlookup (inst_prop_values inst) (cprop_id prop))
                   (\<lambda>v. resolve_component_prop_value s v ctx)) variant_value_string of
             None \<Rightarrow> sel | Some v \<Rightarrow> fmupd axis v sel)
      | _ \<Rightarrow> sel)"

definition selected_axes ::
  "scene option \<Rightarrow> component_library \<Rightarrow> instance_node \<Rightarrow> component_set \<Rightarrow> expansion_context option \<Rightarrow> selection_map" where
  "selected_axes s lib inst cset ctx =
     fold (\<lambda>m sel. case fmlookup (clib_defs lib) m of
             None \<Rightarrow> sel | Some def \<Rightarrow> fold (select_axis s inst ctx) (cdef_props def) sel)
       (cset_members cset) fmempty"

definition axis_values :: "component_library \<Rightarrow> component_id \<Rightarrow> selection_map option" where
  "axis_values lib m =
     map_option component_set_membership_axis_values (Option.bind (fmlookup (clib_defs lib) m) cdef_variant_of)"

definition agreeing :: "selection_map \<Rightarrow> selection_map \<Rightarrow> string fset" where
  \<comment> \<open>the selected axes on which the member has the selected value\<close>
  "agreeing sel vm = ffilter (\<lambda>a. fmlookup vm a = fmlookup sel a) (fmdom sel)"

definition matches_all :: "component_library \<Rightarrow> selection_map \<Rightarrow> component_id \<Rightarrow> bool" where
  "matches_all lib sel m =
     (case axis_values lib m of None \<Rightarrow> False | Some vm \<Rightarrow> agreeing sel vm = fmdom sel)"

definition variant_score :: "component_library \<Rightarrow> selection_map \<Rightarrow> component_id \<Rightarrow> (nat \<times> component_id) option" where
  "variant_score lib sel m =
     Option.bind (axis_values lib m) (\<lambda>vm.
       let score = fcard (agreeing sel vm) in if 0 < score then Some (score, m) else None)"

fun max_by_key :: "('a \<Rightarrow> nat) \<Rightarrow> 'a list \<Rightarrow> 'a option" where
  \<comment> \<open>\<open>Iterator::max_by_key\<close>: of several greatest elements the last\<close>
  "max_by_key f [] = None"
| "max_by_key f (x # xs) =
     (case max_by_key f xs of None \<Rightarrow> Some x | Some y \<Rightarrow> if f x \<le> f y then Some y else Some x)"

definition select_set_variant ::
  "scene option \<Rightarrow> component_library \<Rightarrow> instance_node \<Rightarrow> component_set \<Rightarrow> expansion_context option \<Rightarrow> component_id" where
  "select_set_variant s lib inst cset ctx =
     (let sel = selected_axes s lib inst cset ctx in
      if sel = fmempty then cset_default_variant cset
      else (case find (matches_all lib sel) (cset_members cset) of
              Some m \<Rightarrow> m
            | None \<Rightarrow>
                (case max_by_key fst (List.map_filter (variant_score lib sel) (cset_members cset)) of
                   Some best \<Rightarrow> snd best
                 | None \<Rightarrow> cset_default_variant cset)))"

definition resolve_instance_def ::
  "scene option \<Rightarrow> component_library \<Rightarrow> instance_node \<Rightarrow> expansion_context option \<Rightarrow> component_def option" where
  \<comment> \<open>\<open>resolve_instance_def\<close> with a scene, \<open>resolve_instance_def_without_context\<close> without\<close>
  "resolve_instance_def s lib inst ctx =
     (case fmlookup (clib_defs lib) (inst_component inst) of
        Some def \<Rightarrow> Some def
      | None \<Rightarrow>
          Option.bind (fmlookup (clib_sets lib) (inst_component inst)) (\<lambda>cset.
            fmlookup (clib_defs lib) (select_set_variant s lib inst cset ctx)))"

definition resolved_component ::
  "scene option \<Rightarrow> component_library \<Rightarrow> instance_node \<Rightarrow> expansion_context option \<Rightarrow> resolved_component_def_ref option" where
  "resolved_component s lib inst ctx =
     map_option (\<lambda>def.
       \<lparr>rcd_component_ref = inst_component inst, rcd_resolved_component = cdef_id def,
        rcd_resolved_root = cdef_root def, rcd_rev = cdef_rev def, rcd_preview_rev = cdef_preview_rev def\<rparr>)
       (resolve_instance_def s lib inst ctx)"

definition resolved_component_rev ::
  "scene option \<Rightarrow> component_library \<Rightarrow> instance_node \<Rightarrow> expansion_context option \<Rightarrow> u64" where
  "resolved_component_rev s lib inst ctx =
     (case resolved_component s lib inst ctx of None \<Rightarrow> 0 | Some r \<Rightarrow> rcd_rev r)"

definition resolved_component_root ::
  "scene option \<Rightarrow> component_library \<Rightarrow> instance_node \<Rightarrow> expansion_context option \<Rightarrow> node_id option" where
  "resolved_component_root s lib inst ctx = map_option rcd_resolved_root (resolved_component s lib inst ctx)"

section \<open>Cloning the master\<close>

definition def_local_path :: "scene \<Rightarrow> node_id \<Rightarrow> node_id \<Rightarrow> node_id list" where
  "def_local_path s root i =
     (if i = root then [] else rev (takeWhile (\<lambda>a. a \<noteq> root) (map cn_id (ancestors_of s i))) @ [i])"

definition id_remap :: "(nat \<Rightarrow> node_id) \<Rightarrow> node_id list \<Rightarrow> (node_id, node_id) fmap" where
  \<comment> \<open>the loop that mints an id per original\<close>
  "id_remap fresh ids = fold (\<lambda>(o1, f) m. fmupd o1 f m) (zip ids (map fresh [0..<length ids])) fmempty"

definition clone_one ::
  "scene \<Rightarrow> node_id \<Rightarrow> (node_id, node_id) fmap \<Rightarrow> node_id \<Rightarrow> expanded_node option" where
  "clone_one s root remap i =
     Option.bind (scene_get s i) (\<lambda>orig.
     map_option (\<lambda>f.
       \<lparr>en_node = orig\<lparr>cn_id := f,
          cn_parent := (if i = root then None else Option.bind (cn_parent orig) (fmlookup remap))\<rparr>,
        en_def_path = def_local_path s root i\<rparr>) (fmlookup remap i))"

definition clone_subtree :: "(nat \<Rightarrow> node_id) \<Rightarrow> scene \<Rightarrow> node_id \<Rightarrow> expanded_node list" where
  "clone_subtree fresh s root =
     (let ids = descendants_of s root in List.map_filter (clone_one s root (id_remap fresh ids)) ids)"

section \<open>Writing onto the clones\<close>

fun modify_first :: "('a \<Rightarrow> bool) \<Rightarrow> ('a \<Rightarrow> 'a) \<Rightarrow> 'a list \<Rightarrow> bool \<times> 'a list" where
  \<comment> \<open>\<open>iter_mut().find(p)\<close> and a write through it\<close>
  "modify_first p f [] = (False, [])"
| "modify_first p f (x # xs) =
     (if p x then (True, f x # xs) else (let (ok, ys) = modify_first p f xs in (ok, x # ys)))"

definition on_node :: "(canvas_node \<Rightarrow> canvas_node) \<Rightarrow> expanded_node \<Rightarrow> expanded_node" where
  "on_node f e = e\<lparr>en_node := f (en_node e)\<rparr>"

definition apply_at_path ::
  "node_id list \<Rightarrow> (canvas_node \<Rightarrow> canvas_node) \<Rightarrow> expanded_node list \<Rightarrow> bool \<times> expanded_node list" where
  "apply_at_path target f out = modify_first (\<lambda>e. en_def_path e = target) (on_node f) out"

definition on_data :: "(node_data \<Rightarrow> node_data) \<Rightarrow> canvas_node \<Rightarrow> canvas_node" where
  "on_data f n = n\<lparr>cn_data := f (cn_data n)\<rparr>"

definition pin_root_box :: "instance_node \<Rightarrow> node_data \<Rightarrow> node_data" where
  "pin_root_box inst d =
     (case d of
        NodeData_Group g \<Rightarrow>
          (if gn_background g \<noteq> None \<or> gn_clip_size g \<noteq> None
           then NodeData_Group (g\<lparr>gn_clip_size := Some (inst_local_size inst)\<rparr>)
           else NodeData_Group (g\<lparr>gn_local_size := Some (inst_local_size inst)\<rparr>))
      | _ \<Rightarrow> d)"

definition pin_expansion_root_box :: "instance_node \<Rightarrow> expanded_node list \<Rightarrow> expanded_node list" where
  "pin_expansion_root_box inst out =
     snd (modify_first (\<lambda>e. en_def_path e = []) (on_node (on_data (pin_root_box inst))) out)"

definition apply_prop ::
  "scene \<Rightarrow> instance_node \<Rightarrow> expansion_context option \<Rightarrow> component_prop_def \<Rightarrow> expanded_node list \<Rightarrow> expanded_node list" where
  "apply_prop s inst ctx prop out =
     (if (case cprop_kind prop of ComponentPropKind_Variant _ \<Rightarrow> True | _ \<Rightarrow> False) \<or> cprop_bindings prop = []
      then out
      else (let value = (case fmlookup (inst_prop_values inst) (cprop_id prop) of
                           None \<Rightarrow> cprop_default prop | Some v \<Rightarrow> v)
            in case resolve_component_prop_value (Some s) value ctx of
                 None \<Rightarrow> out
               | Some r \<Rightarrow>
                   fold (\<lambda>b out. snd (apply_at_path (prop_binding_target_path b)
                                    (\<lambda>n. snd (apply_resolved (prop_binding_target_prop b) n r)) out))
                     (cprop_bindings prop) out))"

definition apply_prop_bindings ::
  "scene \<Rightarrow> component_def \<Rightarrow> instance_node \<Rightarrow> expansion_context option \<Rightarrow> expanded_node list \<Rightarrow> expanded_node list" where
  "apply_prop_bindings s def inst ctx out = fold (apply_prop s inst ctx) (cdef_props def) out"

definition FIELD_STRUCTURAL_KEYS :: "string list" where
  "FIELD_STRUCTURAL_KEYS = [''id'', ''parent'', ''index'', ''type'']"

definition merge_patch :: "(string \<times> json) list \<Rightarrow> (string \<times> json) list \<Rightarrow> (string \<times> json) list" where
  \<comment> \<open>the payload's keys over the node's, structural keys excepted\<close>
  "merge_patch patch m =
     fold (\<lambda>(k, v) m. if k \<in> set FIELD_STRUCTURAL_KEYS then m else jmap_insert k v m) patch m"

definition apply_field_override :: "node_serde \<Rightarrow> json \<Rightarrow> canvas_node \<Rightarrow> canvas_node" where
  "apply_field_override sd patch n =
     (case patch of
        JObject p \<Rightarrow>
          (if p = [] then n
           else (case ns_to_value sd n of
                   Some (JObject m) \<Rightarrow>
                     (case ns_from_value sd (JObject (merge_patch p m)) of None \<Rightarrow> n | Some n' \<Rightarrow> n')
                 | _ \<Rightarrow> n))
      | _ \<Rightarrow> n)"

definition override_fills :: "fill list \<Rightarrow> node_data \<Rightarrow> node_data" where
  "override_fills fills d =
     (case d of
        NodeData_Boolean b \<Rightarrow> NodeData_Boolean (b\<lparr>bn_fills := fills\<rparr>)
      | NodeData_Vector v \<Rightarrow> NodeData_Vector (v\<lparr>vn_fills := fills\<rparr>)
      | NodeData_Group g \<Rightarrow> NodeData_Group (g\<lparr>gn_background := head_opt fills\<rparr>)
      | NodeData_Text t \<Rightarrow>
          (case head_opt fills of
             Some (Fill_Solid c _) \<Rightarrow> NodeData_Text (text_set_glyph_color c t) | _ \<Rightarrow> d)
      | NodeData_TextPath t \<Rightarrow>
          (case head_opt fills of
             Some (Fill_Solid c _) \<Rightarrow> NodeData_TextPath (text_path_set_glyph_color c t) | _ \<Rightarrow> d)
      | _ \<Rightarrow> d)"

definition override_text :: "string \<Rightarrow> node_data \<Rightarrow> node_data" where
  "override_text s d =
     (case d of
        NodeData_Text t \<Rightarrow> NodeData_Text (t\<lparr>tn_content := s\<rparr>)
      | NodeData_TextPath t \<Rightarrow> NodeData_TextPath (t\<lparr>tp_content := s\<rparr>)
      | _ \<Rightarrow> d)"

definition override_strokes :: "stroke list \<Rightarrow> node_data \<Rightarrow> node_data" where
  "override_strokes strokes d =
     (case d of
        NodeData_Boolean b \<Rightarrow> NodeData_Boolean (b\<lparr>bn_strokes := strokes\<rparr>)
      | NodeData_Vector v \<Rightarrow> NodeData_Vector (v\<lparr>vn_strokes := strokes\<rparr>)
      | NodeData_Group g \<Rightarrow> NodeData_Group (g\<lparr>gn_strokes := strokes\<rparr>)
      | _ \<Rightarrow> d)"

definition override_swap :: "component_id \<Rightarrow> node_data \<Rightarrow> node_data" where
  "override_swap c d =
     (case d of NodeData_Instance i \<Rightarrow> NodeData_Instance (i\<lparr>inst_component := c\<rparr>) | _ \<Rightarrow> d)"

fun apply_override :: "node_serde \<Rightarrow> override_value \<Rightarrow> canvas_node \<Rightarrow> canvas_node" where
  "apply_override sd (OverrideValue_Text s) n = on_data (override_text s) n"
| "apply_override sd (OverrideValue_Fills fills) n = on_data (override_fills fills) n"
| "apply_override sd (OverrideValue_Strokes strokes) n = on_data (override_strokes strokes) n"
| "apply_override sd (OverrideValue_Visible b) n = n\<lparr>cn_flags := flag_set HIDDEN (\<not> b) (cn_flags n)\<rparr>"
| "apply_override sd (OverrideValue_SwapInstance c) n = on_data (override_swap c) n"
| "apply_override sd (OverrideValue_Field v) n = apply_field_override sd v n"

definition is_vector_entry :: "expanded_node \<Rightarrow> bool" where
  "is_vector_entry e = (case cn_data (en_node e) of NodeData_Vector _ \<Rightarrow> True | _ \<Rightarrow> False)"

definition apply_to_sole_vector ::
  "(canvas_node \<Rightarrow> canvas_node) \<Rightarrow> expanded_node list \<Rightarrow> bool \<times> expanded_node list" where
  "apply_to_sole_vector f out =
     (if length (filter is_vector_entry out) = 1 then modify_first is_vector_entry (on_node f) out
      else (False, out))"

definition is_instance_data :: "node_data \<Rightarrow> bool" where
  "is_instance_data d = (case d of NodeData_Instance _ \<Rightarrow> True | _ \<Rightarrow> False)"

fun best_prefix :: "node_id list \<Rightarrow> nat option \<Rightarrow> expanded_node list \<Rightarrow> nat \<Rightarrow> expanded_node list \<Rightarrow> nat option" where
  \<comment> \<open>the loop of \<open>route_nested\<close>: the longest instance clone strictly above the target, the first of several\<close>
  "best_prefix target best out i [] = best"
| "best_prefix target best out i (e # es) =
     (let dl = length (en_def_path e) in
      if dl = 0 \<or> length target \<le> dl then best_prefix target best out (Suc i) es
      else if prefix (en_def_path e) target \<and> is_instance_data (cn_data (en_node e)) \<and>
              (case best of None \<Rightarrow> True | Some b \<Rightarrow> length (en_def_path (out ! b)) < dl)
      then best_prefix target (Some i) out (Suc i) es
      else best_prefix target best out (Suc i) es)"

definition on_instance :: "(instance_node \<Rightarrow> instance_node) \<Rightarrow> node_data \<Rightarrow> node_data" where
  "on_instance f d = (case d of NodeData_Instance i \<Rightarrow> NodeData_Instance (f i) | _ \<Rightarrow> d)"

definition route_nested ::
  "node_id list \<Rightarrow> (node_id list \<Rightarrow> instance_node \<Rightarrow> instance_node) \<Rightarrow> expanded_node list \<Rightarrow> expanded_node list" where
  "route_nested target f out =
     (case best_prefix target None out 0 out of
        None \<Rightarrow> out
      | Some i \<Rightarrow>
          list_modify i (\<lambda>e. on_node (on_data (on_instance (f (drop (length (en_def_path e)) target)))) e) out)"

definition apply_sparse_override :: "node_serde \<Rightarrow> override_entry \<Rightarrow> expanded_node list \<Rightarrow> expanded_node list" where
  "apply_sparse_override sd ov out =
     (case apply_at_path (ovr_target_path ov) (apply_override sd (ovr_value ov)) out of
        (True, out') \<Rightarrow> out'
      | (False, _) \<Rightarrow>
          (case (if (case ovr_value ov of OverrideValue_Fills _ \<Rightarrow> True | _ \<Rightarrow> False) \<and> length (ovr_target_path ov) \<le> 1
                 then apply_to_sole_vector (apply_override sd (ovr_value ov)) out else (False, out)) of
             (True, out') \<Rightarrow> out'
           | (False, _) \<Rightarrow>
               route_nested (ovr_target_path ov) (\<lambda>rest inst.
                 inst\<lparr>inst_overrides := inst_overrides inst @ [ov\<lparr>ovr_target_path := rest\<rparr>]\<rparr>) out))"

definition apply_sparse_overrides :: "node_serde \<Rightarrow> instance_node \<Rightarrow> expanded_node list \<Rightarrow> expanded_node list" where
  "apply_sparse_overrides sd inst out = fold (apply_sparse_override sd) (inst_overrides inst) out"

section \<open>Derived data\<close>

record override_claims =
  oc_content :: bool
  oc_fill :: bool

definition has_override :: "override_entry list \<Rightarrow> node_id list \<Rightarrow> bound_prop \<Rightarrow> bool" where
  "has_override ovs path prop =
     list_ex (\<lambda>ov. ovr_target_path ov = path \<and> ovr_target_prop ov = prop) ovs"

definition first_stroke_width :: "f64 option \<Rightarrow> stroke list \<Rightarrow> stroke list" where
  "first_stroke_width w ss =
     (case w of None \<Rightarrow> ss | Some w \<Rightarrow> list_modify 0 (\<lambda>st. st\<lparr>stroke_width := w\<rparr>) ss)"

definition derive_boolean :: "derived_override \<Rightarrow> bool \<Rightarrow> override_claims \<Rightarrow> boolean_node \<Rightarrow> boolean_node" where
  "derive_boolean d edited claims b =
     (let b1 = (case dov_path_data d of
                  None \<Rightarrow> b
                | Some path \<Rightarrow>
                    (let b0 = b\<lparr>bn_baked := map_option (\<lambda>k. k\<lparr>boolean_baked_geometry_vector :=
                                 (boolean_baked_geometry_vector k)\<lparr>vn_path := path\<rparr>\<rparr>) (bn_baked b)\<rparr>
                     in if dov_stroke_path d = None \<and> dov_stroke_weight d = None \<and>
                           (case bn_baked b of None \<Rightarrow> True | Some k \<Rightarrow> \<not> boolean_baked_geometry_stroke_outline k)
                        then b0\<lparr>bn_strokes := []\<rparr> else b0));
          b2 = (case dov_fills d of
                  Some fills \<Rightarrow> if \<not> edited \<and> \<not> oc_fill claims then b1\<lparr>bn_fills := fills\<rparr> else b1
                | None \<Rightarrow> b1)
      in b2\<lparr>bn_strokes := first_stroke_width (dov_stroke_weight d) (bn_strokes b2)\<rparr>)"

definition derive_vector :: "derived_override \<Rightarrow> bool \<Rightarrow> override_claims \<Rightarrow> vector_node \<Rightarrow> vector_node" where
  "derive_vector d edited claims v =
     (let v1 = (case dov_path_data d of
                  None \<Rightarrow> v
                | Some path \<Rightarrow>
                    (let v0 = v\<lparr>vn_path := path\<rparr>
                     in if dov_stroke_path d = None \<and> dov_stroke_weight d = None
                        then v0\<lparr>vn_strokes := []\<rparr> else v0));
          v2 = (case dov_fills d of
                  Some fills \<Rightarrow> if \<not> edited \<and> \<not> oc_fill claims then v1\<lparr>vn_fills := fills\<rparr> else v1
                | None \<Rightarrow> v1)
      in v2\<lparr>vn_strokes := first_stroke_width (dov_stroke_weight d) (vn_strokes v2)\<rparr>)"

definition derive_geometry :: "derived_override \<Rightarrow> bool \<Rightarrow> override_claims \<Rightarrow> node_data \<Rightarrow> node_data" where
  "derive_geometry d edited claims data =
     (case data of
        NodeData_Boolean b \<Rightarrow> NodeData_Boolean (derive_boolean d edited claims b)
      | NodeData_Vector v \<Rightarrow> NodeData_Vector (derive_vector d edited claims v)
      | NodeData_Group g \<Rightarrow>
          (case dov_fills d of
             Some fills \<Rightarrow>
               if \<not> edited \<and> \<not> oc_fill claims then NodeData_Group (g\<lparr>gn_background := head_opt fills\<rparr>) else data
           | None \<Rightarrow> data)
      | _ \<Rightarrow> data)"

definition set_if :: "'v option \<Rightarrow> ('v \<Rightarrow> 'a \<Rightarrow> 'a) \<Rightarrow> 'a \<Rightarrow> 'a" where
  \<comment> \<open>\<open>if let Some(v) = ...\<close>\<close>
  "set_if ov f x = (case ov of None \<Rightarrow> x | Some v \<Rightarrow> f v x)"

definition derive_text :: "derived_text \<Rightarrow> override_claims \<Rightarrow> text_node \<Rightarrow> text_node" where
  "derive_text dt claims t =
     (let style = (\<lambda>f t. t\<lparr>tn_style := f (tn_style t)\<rparr>);
          t1 = (if oc_content claims then t
                else set_if (derived_text_content dt) (\<lambda>c t. t\<lparr>tn_content := c\<rparr>) t);
          t2 = set_if (derived_text_font_size dt)
                 (\<lambda>fs t. if f64_lt 0 fs then style (\<lambda>s. s\<lparr>ts_size_px := fs\<rparr>) t else t) t1;
          t3 = set_if (derived_text_line_height dt)
                 (\<lambda>lh t. if f64_lt 0 lh
                         then style (\<lambda>s. s\<lparr>ts_line_height := lh,
                                ts_line_height_auto_percent := derived_text_line_height_auto_percent dt\<rparr>) t
                         else t) t2;
          t4 = set_if (derived_text_letter_spacing dt) (\<lambda>ls. style (\<lambda>s. s\<lparr>ts_letter_spacing := ls\<rparr>)) t3;
          t5 = (if oc_fill claims then t4 else set_if (derived_text_color dt) text_set_glyph_color t4);
          t6 = set_if (derived_text_weight dt) (\<lambda>w. style (\<lambda>s. s\<lparr>ts_weight := w\<rparr>)) t5
      in set_if (derived_text_family dt) (\<lambda>f. style (\<lambda>s. s\<lparr>ts_font_family := f\<rparr>)) t6)"

definition apply_derived ::
  "derived_override \<Rightarrow> bool \<Rightarrow> override_claims \<Rightarrow> canvas_node \<Rightarrow> canvas_node" where
  "apply_derived d edited claims n =
     (let n1 = set_if (dov_transform d) (\<lambda>t n. n\<lparr>cn_transform := t\<rparr>) n;
          n2 = set_if (dov_size d) (\<lambda>sz. on_data (resize_data sz)) n1;
          n3 = on_data (derive_geometry d edited claims) n2
      in case (dov_text d, cn_data n3) of
           (Some dt, NodeData_Text t) \<Rightarrow> n3\<lparr>cn_data := NodeData_Text (derive_text dt claims t)\<rparr>
         | _ \<Rightarrow> n3)"

definition apply_derived_entry ::
  "instance_node \<Rightarrow> bool \<Rightarrow> derived_override \<Rightarrow> expanded_node list \<Rightarrow> expanded_node list" where
  "apply_derived_entry inst edited d out =
     (let claims = \<lparr>oc_content = has_override (inst_overrides inst) (dov_path d) BoundProp_TextContent,
                    oc_fill = has_override (inst_overrides inst) (dov_path d) (BoundProp_FillColor 0)\<rparr>
      in case apply_at_path (dov_path d) (apply_derived d edited claims) out of
           (True, out') \<Rightarrow> out'
         | (False, _) \<Rightarrow>
             route_nested (dov_path d)
               (\<lambda>rest inst. inst\<lparr>inst_derived := inst_derived inst @ [d\<lparr>dov_path := rest\<rparr>]\<rparr>) out)"

section \<open>Expansion\<close>

definition expand_before_bindings ::
  "node_serde \<Rightarrow> (nat \<Rightarrow> node_id) \<Rightarrow> scene \<Rightarrow> component_library \<Rightarrow> instance_node \<Rightarrow> expansion_context option \<Rightarrow>
   expanded_node list" where
  "expand_before_bindings sd fresh s lib inst ctx =
     (case resolve_instance_def (Some s) lib inst ctx of
        None \<Rightarrow> []
      | Some def \<Rightarrow>
          (if scene_get s (cdef_root def) = None then []
           else (let out = pin_expansion_root_box inst (clone_subtree fresh s (cdef_root def));
                     out = apply_prop_bindings s def inst ctx out;
                     out = apply_sparse_overrides sd inst out
                 in fold (apply_derived_entry inst (cdef_rev def \<noteq> 0)) (inst_derived inst) out)))"

definition materialize_binding ::
  "scene \<Rightarrow> expansion_context \<Rightarrow> (bound_prop, variable_id) fmap \<Rightarrow> bound_prop \<Rightarrow> canvas_node \<Rightarrow> canvas_node" where
  "materialize_binding s c bindings p n =
     (case Option.bind (fmlookup bindings p)
             (resolve_bound_value (ctx_variables c) s (ctx_mode_anchor c) (ctx_active_modes c)) of
        None \<Rightarrow> n
      | Some v \<Rightarrow>
          (case apply_resolved p n v of
             (True, n') \<Rightarrow> n'\<lparr>cn_bindings := fmdrop p (cn_bindings n')\<rparr>
           | (False, n') \<Rightarrow> n'))"

definition binding_order :: "(bound_prop, variable_id) fmap \<Rightarrow> bound_prop list" where
  \<comment> \<open>the text style first, then in the order of properties\<close>
  "binding_order bindings = sort_key (\<lambda>p. if p = BoundProp_TextStyle then 0 else 1 :: nat) (fm_keys bindings)"

definition materialize_node ::
  "(f64 \<Rightarrow> string) \<Rightarrow> scene \<Rightarrow> expansion_context \<Rightarrow> canvas_node \<Rightarrow> canvas_node" where
  "materialize_node show_f64 s c n =
     (let n' = fold (materialize_binding s c (cn_bindings n)) (binding_order (cn_bindings n)) n
      in snd (apply_text_tokens show_f64 n' (ctx_variables c) s (ctx_mode_anchor c) (ctx_active_modes c)))"

definition expand_instance_inner ::
  "node_serde \<Rightarrow> (f64 \<Rightarrow> string) \<Rightarrow> (nat \<Rightarrow> node_id) \<Rightarrow> scene \<Rightarrow> component_library \<Rightarrow> instance_node \<Rightarrow>
   expansion_context option \<Rightarrow> expanded_node list" where
  "expand_instance_inner sd show_f64 fresh s lib inst ctx =
     (let out = expand_before_bindings sd fresh s lib inst ctx in
      case ctx of None \<Rightarrow> out | Some c \<Rightarrow> map (on_node (materialize_node show_f64 s c)) out)"

definition expand_instance ::
  "node_serde \<Rightarrow> (f64 \<Rightarrow> string) \<Rightarrow> (nat \<Rightarrow> node_id) \<Rightarrow> scene \<Rightarrow> component_library \<Rightarrow> instance_node \<Rightarrow>
   expanded_node list" where
  "expand_instance sd show_f64 fresh s lib inst = expand_instance_inner sd show_f64 fresh s lib inst None"

definition expand_instance_with_context ::
  "node_serde \<Rightarrow> (f64 \<Rightarrow> string) \<Rightarrow> (nat \<Rightarrow> node_id) \<Rightarrow> scene \<Rightarrow> component_library \<Rightarrow> instance_node \<Rightarrow>
   expansion_context \<Rightarrow> expanded_node list" where
  "expand_instance_with_context sd show_f64 fresh s lib inst c =
     expand_instance_inner sd show_f64 fresh s lib inst (Some c)"

definition instance_bindings_with_context ::
  "node_serde \<Rightarrow> (nat \<Rightarrow> node_id) \<Rightarrow> scene \<Rightarrow> component_library \<Rightarrow> instance_node \<Rightarrow> expansion_context \<Rightarrow>
   (node_id list, (bound_prop, variable_id) fmap) fmap" where
  "instance_bindings_with_context sd fresh s lib inst c =
     fold (\<lambda>e m. if cn_bindings (en_node e) = fmempty then m else fmupd (en_def_path e) (cn_bindings (en_node e)) m)
       (expand_before_bindings sd fresh s lib inst (Some c)) fmempty"

end
