(* ===== verification/SampleInstance.thy ===== *)
theory SampleInstance
  imports InstanceExpand SceneProps
begin

text \<open>
  Concrete inputs for the properties of instance expansion: a serde encoding that keeps an id, a parent
  and a name, a scene with a text in a group, and a component set of two variants of it.
\<close>

definition sample_encode_id :: "node_id \<Rightarrow> json option" where
  \<comment> \<open>an encoding of the ids below \<open>2 ^ 64\<close>\<close>
  "sample_encode_id i =
     (case i of Id w \<Rightarrow> if ucast (ucast w :: 64 word) = w then Some (JNumber (PosInt (ucast w))) else None)"

definition sample_decode_id :: "json \<Rightarrow> node_id option" where
  "sample_decode_id j = (case j of JNumber (PosInt w) \<Rightarrow> Some (Id (ucast w)) | _ \<Rightarrow> None)"

definition sample_encode_parent :: "node_id option \<Rightarrow> json option" where
  "sample_encode_parent p = (case p of None \<Rightarrow> Some JNull | Some i \<Rightarrow> sample_encode_id i)"

definition sample_decode_parent :: "json \<Rightarrow> node_id option option" where
  "sample_decode_parent j = (if j = JNull then Some None else map_option Some (sample_decode_id j))"

lemma sample_decode [simp]:
  "sample_encode_id i = Some j \<Longrightarrow> sample_decode_id j = Some i"
  "sample_encode_parent q = Some j \<Longrightarrow> sample_decode_parent j = Some q"
proof -
  show id: "sample_decode_id j = Some i" if "sample_encode_id i = Some j" for i j
    using that by (cases i) (auto simp: sample_encode_id_def sample_decode_id_def split: if_splits)
  show "sample_decode_parent j = Some q" if "sample_encode_parent q = Some j"
    using that id by (cases q)
      (auto simp: sample_encode_parent_def sample_decode_parent_def sample_encode_id_def split: id.splits if_splits)
qed

definition sample_serde :: node_serde where
  "sample_serde =
     \<lparr>ns_to_value = (\<lambda>n.
        case (sample_encode_id (cn_id n), sample_encode_parent (cn_parent n)) of
          (Some i, Some p) \<Rightarrow> Some (JObject [(''id'', i), (''parent'', p), (''name'', JString (cn_name n))])
        | _ \<Rightarrow> None),
      ns_from_value = (\<lambda>j.
        case j of
          JObject m \<Rightarrow>
            (case (Option.bind (map_of m ''id'') sample_decode_id,
                   Option.bind (map_of m ''parent'') sample_decode_parent, map_of m ''name'') of
               (Some i, Some p, Some (JString name)) \<Rightarrow>
                 Some ((canvas_node_new i (NodeData_Group sample_group))\<lparr>cn_parent := p, cn_name := name\<rparr>)
             | _ \<Rightarrow> None)
        | _ \<Rightarrow> None)\<rparr>"

definition sample_text :: canvas_node where
  "sample_text = sample_node 3 (Some (Id 1)) 0x4000000000000000
     (NodeData_Text
        \<lparr>tn_content = ''Due'', tn_local_size = (0, 0), tn_align = TextAlign_Left, tn_vertical_align = VAlign_Top,
         tn_style =
           \<lparr>ts_font_family = ''Inter'', ts_size_px = 0x4030000000000000, ts_weight = 400, ts_italic = False,
            ts_underline = False, ts_strikethrough = False,
            ts_color = \<lparr>color_r = 0, color_g = 0, color_b = 0, color_a = 255\<rparr>, ts_letter_spacing = 0,
            ts_line_height = 0x3FF3333333333333, ts_line_height_auto_percent = None, ts_font_variations = []\<rparr>,
         tn_style_runs = [], tn_auto_resize = TextAutoResize_None, tn_max_lines = None, tn_truncate = False,
         tn_paragraph_spacing = 0, tn_paragraph_indent = 0\<rparr>)"

definition sample_label_scene :: scene where
  \<comment> \<open>a group with a text in it\<close>
  "sample_label_scene =
     (case insert_all [sample_root, sample_text] (scene_default 1 0) of
        Inl _ \<Rightarrow> scene_default 1 0 | Inr s \<Rightarrow> s)"

lemma sample_text_place [simp]: "cn_id sample_text = Id 3" "cn_parent sample_text = Some (Id 1)"
  by (simp_all add: sample_text_def sample_node_def canvas_node_new_def)

lemma sample_label_built:
  "insert_all [sample_root, sample_text] (scene_default 1 0) = Inr sample_label_scene"
proof -
  obtain s1 where s1: "scene_insert sample_root (scene_default 1 0) = Inr (Id 1, s1)"
    "sc_nodes s1 = fmupd (Id 1) sample_root fmempty"
    using scene_insert_succeeds[of "scene_default 1 0" sample_root]
    by (auto simp: scene_default_def check_parent_def)
  obtain s2 where s2: "scene_insert sample_text s1 = Inr (Id 3, s2)"
    using scene_insert_succeeds[of s1 sample_text] by (auto simp: s1 check_parent_def)
  show ?thesis by (simp add: sample_label_scene_def s1 s2)
qed

lemma sample_label_inv [simp]: "scene_inv sample_label_scene"
  by (rule insert_all_inv[OF scene_default_inv sample_label_built])

lemma sample_label_nodes: "sc_nodes sample_label_scene = fmupd (Id 3) sample_text (fmupd (Id 1) sample_root fmempty)"
  using insert_all_nodes[OF sample_label_built] by (simp add: scene_default_def)

definition sample_fresh :: "nat \<Rightarrow> node_id" where
  "sample_fresh k = Id (100 + of_nat k)"

definition sample_component :: "128 word \<Rightarrow> (string \<times> string) list \<Rightarrow> component_prop_def list \<Rightarrow> component_def" where
  "sample_component w axes ps =
     \<lparr>cdef_id = Id w, cdef_root = Id 1, cdef_name = ''Chip'',
      cdef_variant_of = Some \<lparr>component_set_membership_set = Id 9, component_set_membership_axis_values = fmap_of_list axes\<rparr>,
      cdef_props = ps, cdef_rev = 1, cdef_preview_rev = 1\<rparr>"

definition sample_axis :: "128 word \<Rightarrow> string \<Rightarrow> component_prop_def" where
  "sample_axis w a =
     \<lparr>cprop_id = Id w, cprop_name = a, cprop_kind = ComponentPropKind_Variant a,
      cprop_formatter = ComponentPropFormatter_Auto, cprop_default = VarValue_Enum [], cprop_bindings = []\<rparr>"

definition sample_set :: component_set where
  "sample_set =
     \<lparr>cset_id = Id 9, cset_name = ''Chip'', cset_axes = [], cset_members = [Id 7, Id 8],
      cset_default_variant = Id 7, cset_root = None\<rparr>"

definition sample_library :: component_library where
  \<comment> \<open>a component set with two variants\<close>
  "sample_library =
     \<lparr>clib_defs = fmap_of_list
        [(Id 7, sample_component 7 [(''Kind'', ''Solid''), (''Size'', ''Small'')] [sample_axis 21 ''Kind'', sample_axis 22 ''Size'']),
         (Id 8, sample_component 8 [(''Kind'', ''Ghost''), (''Size'', ''Large'')] [])],
      clib_sets = fmap_of_list [(Id 9, sample_set)]\<rparr>"

definition sample_instance :: "128 word \<Rightarrow> override_entry list \<Rightarrow> (component_prop_id \<times> var_value) list \<Rightarrow> instance_node" where
  "sample_instance w ovs values =
     \<lparr>inst_component = Id w, inst_overrides = ovs, inst_prop_values = fmap_of_list values, inst_derived = [],
      inst_local_size = (0, 0)\<rparr>"

lemma sample_def_resolves:
  "resolve_instance_def s sample_library (sample_instance 7 ovs values) ctx =
     Some (sample_component 7 [(''Kind'', ''Solid''), (''Size'', ''Small'')] [sample_axis 21 ''Kind'', sample_axis 22 ''Size''])"
  by (simp add: resolve_instance_def_def sample_library_def sample_instance_def)

definition sample_entry :: "node_id \<Rightarrow> node_id list \<Rightarrow> node_data \<Rightarrow> expanded_node" where
  "sample_entry i path d = \<lparr>en_node = canvas_node_new i d, en_def_path = path\<rparr>"

end
