(* ===== verification/InstanceProps.thy ===== *)
theory InstanceProps
  imports SampleInstance
begin

text \<open>
  What expanding an instance promises, \<open>crates/fanta-doc/src/resolve/instance.rs\<close>: the result is the master's
  tree under fresh ids, addressed by the paths overrides use, whatever is written onto it; an explicit
  override survives the derived data; the definition chosen from a set is the closest variant; and an
  override that crosses into a nested instance is handed to that instance.
\<close>

section \<open>The shape of an expansion\<close>

definition skeleton :: "expanded_node \<Rightarrow> node_id \<times> node_id option \<times> node_id list" where
  "skeleton e = (cn_id (en_node e), cn_parent (en_node e), en_def_path e)"

definition keeps_id_parent :: "(canvas_node \<Rightarrow> canvas_node) \<Rightarrow> bool" where
  "keeps_id_parent f \<longleftrightarrow> (\<forall>n. cn_id (f n) = cn_id n \<and> cn_parent (f n) = cn_parent n)"

lemma skeleton_on_node [simp]: "keeps_id_parent f \<Longrightarrow> skeleton (on_node f e) = skeleton e"
  by (simp add: skeleton_def on_node_def keeps_id_parent_def)

lemma keeps_id_parent_on_data [simp]: "keeps_id_parent (on_data f)"
  by (simp add: keeps_id_parent_def on_data_def)

lemma modify_first_skeleton:
  "(\<And>e. skeleton (f e) = skeleton e) \<Longrightarrow> map skeleton (snd (modify_first p f out)) = map skeleton out"
  by (induction out) (simp_all add: case_prod_beta)

lemma apply_at_path_skeleton:
  "keeps_id_parent f \<Longrightarrow> map skeleton (snd (apply_at_path t f out)) = map skeleton out"
  by (simp add: apply_at_path_def modify_first_skeleton)

lemma write_or_else_skeleton:
  assumes "map skeleton (snd w) = map skeleton out" "map skeleton x = map skeleton out"
  shows "map skeleton (case w of (True, out') \<Rightarrow> out' | (False, _) \<Rightarrow> x) = map skeleton out"
  using assms by (cases w) (simp split: bool.split)

lemma list_modify_skeleton:
  "(\<And>e. skeleton (f e) = skeleton e) \<Longrightarrow> map skeleton (list_modify i f out) = map skeleton out"
  by (cases "i < length out") (simp_all add: list_modify_def map_update list_update_same_conv)

lemma route_nested_skeleton: "map skeleton (route_nested t f out) = map skeleton out"
  by (simp add: route_nested_def list_modify_skeleton split: option.split)

lemma node_fill_mut_place: "cn_id (snd (node_fill_mut i f n)) = cn_id n" "cn_parent (snd (node_fill_mut i f n)) = cn_parent n"
  by (simp_all add: node_fill_mut_def split: option.split)

lemma apply_resolved_place: "keeps_id_parent (\<lambda>n. snd (apply_resolved p n v))"
  unfolding keeps_id_parent_def
  by (cases p; cases v)
    (auto simp: node_fill_mut_place set_node_fill_color_def stroke_mut_def set_corner_radius_def set_text_content_def
      set_text_style_def clip_size_mut_def split: node_data.split option.split if_splits)

lemma apply_text_tokens_place:
  "cn_id (snd (apply_text_tokens sh n reg s i act)) = cn_id n"
  "cn_parent (snd (apply_text_tokens sh n reg s i act)) = cn_parent n"
  by (simp_all add: apply_text_tokens_def split: node_data.split option.split prod.split)

definition serde_keeps_place :: "node_serde \<Rightarrow> bool" where
  \<comment> \<open>decoding a node whose id and parent members are those it was encoded with gives it that id and parent\<close>
  "serde_keeps_place sd \<longleftrightarrow>
     (\<forall>n m m' n'. ns_to_value sd n = Some (JObject m) \<and> ns_from_value sd (JObject m') = Some n' \<and>
        (\<forall>k \<in> set FIELD_STRUCTURAL_KEYS. map_of m' k = map_of m k) \<longrightarrow>
        cn_id n' = cn_id n \<and> cn_parent n' = cn_parent n)"

lemma merge_patch_structural:
  "k \<in> set FIELD_STRUCTURAL_KEYS \<Longrightarrow> map_of (merge_patch patch m) k = map_of m k"
  unfolding merge_patch_def by (induction patch arbitrary: m) auto

lemma serde_placeD:
  assumes "serde_keeps_place sd" "ns_to_value sd n = Some (JObject m)"
    and "ns_from_value sd (JObject (merge_patch p m)) = Some n'"
  shows "cn_id n' = cn_id n" "cn_parent n' = cn_parent n"
  using assms merge_patch_structural unfolding serde_keeps_place_def by blast+

lemma apply_override_place:
  assumes "serde_keeps_place sd"
  shows "keeps_id_parent (apply_override sd v)"
proof (cases v)
  case (OverrideValue_Field j)
  have "cn_id (apply_field_override sd j n) = cn_id n \<and> cn_parent (apply_field_override sd j n) = cn_parent n" for n
    using serde_placeD[OF assms] by (auto simp: apply_field_override_def split: json.split option.split)
  then show ?thesis by (simp add: OverrideValue_Field keeps_id_parent_def)
qed (simp_all add: keeps_id_parent_def on_data_def)

lemma apply_derived_place: "keeps_id_parent (apply_derived d edited claims)"
  by (simp add: keeps_id_parent_def apply_derived_def set_if_def on_data_def Let_def split: option.split node_data.split)

lemma prop_writes_skeleton:
  "map skeleton (fold (\<lambda>b out. snd (apply_at_path (prop_binding_target_path b)
     (\<lambda>n. snd (apply_resolved (prop_binding_target_prop b) n r)) out)) bs out) = map skeleton out"
  by (induction bs arbitrary: out) (simp_all add: apply_at_path_skeleton apply_resolved_place)

lemma apply_prop_skeleton: "map skeleton (apply_prop s inst ctx prop out) = map skeleton out"
  unfolding apply_prop_def Let_def
  by (cases "resolve_component_prop_value (Some s)
        (case fmlookup (inst_prop_values inst) (cprop_id prop) of None \<Rightarrow> cprop_default prop | Some v \<Rightarrow> v) ctx")
    (simp_all add: prop_writes_skeleton)

lemma apply_prop_bindings_skeleton: "map skeleton (apply_prop_bindings s def inst ctx out) = map skeleton out"
proof -
  have "map skeleton (fold (apply_prop s inst ctx) ps out) = map skeleton out" for ps
    by (induction ps arbitrary: out) (simp_all add: apply_prop_skeleton)
  then show ?thesis by (simp add: apply_prop_bindings_def)
qed

lemma apply_sparse_override_skeleton:
  assumes "serde_keeps_place sd"
  shows "map skeleton (apply_sparse_override sd ov out) = map skeleton out"
proof -
  note place = apply_override_place[OF assms, of "ovr_value ov"]
  have sole: "map skeleton (snd (apply_to_sole_vector (apply_override sd (ovr_value ov)) out)) = map skeleton out"
    using place by (simp add: apply_to_sole_vector_def modify_first_skeleton)
  show ?thesis
    unfolding apply_sparse_override_def
    by (intro write_or_else_skeleton apply_at_path_skeleton place route_nested_skeleton) (simp add: sole)
qed

lemma apply_sparse_overrides_skeleton:
  assumes "serde_keeps_place sd"
  shows "map skeleton (fold (apply_sparse_override sd) ovs out) = map skeleton out"
  by (induction ovs arbitrary: out) (simp_all add: apply_sparse_override_skeleton[OF assms])

lemma apply_derived_entry_skeleton: "map skeleton (apply_derived_entry inst edited d out) = map skeleton out"
  unfolding apply_derived_entry_def Let_def
  by (intro write_or_else_skeleton apply_at_path_skeleton apply_derived_place route_nested_skeleton)

lemma apply_derived_entries_skeleton: "map skeleton (fold (apply_derived_entry inst edited) ds out) = map skeleton out"
  by (induction ds arbitrary: out) (simp_all add: apply_derived_entry_skeleton)

lemma materialize_node_place: "keeps_id_parent (materialize_node sh s c)"
proof -
  have step: "cn_id (materialize_binding s c bs p n) = cn_id n \<and> cn_parent (materialize_binding s c bs p n) = cn_parent n" for bs p n
    using apply_resolved_place[of p] unfolding keeps_id_parent_def
    by (auto simp: materialize_binding_def split: option.split prod.split bool.split) (metis snd_conv)+
  have "cn_id (fold (materialize_binding s c bs) ps n) = cn_id n \<and> cn_parent (fold (materialize_binding s c bs) ps n) = cn_parent n" for bs ps n
    by (induction ps arbitrary: n) (simp_all add: step)
  then show ?thesis by (simp add: keeps_id_parent_def materialize_node_def apply_text_tokens_place Let_def)
qed

lemma expansion_skeleton:
  assumes "serde_keeps_place sd" "resolve_instance_def (Some s) lib inst ctx = Some def"
    and "scene_contains s (cdef_root def)"
  shows "map skeleton (expand_instance_inner sd sh fresh s lib inst ctx) =
    map skeleton (clone_subtree fresh s (cdef_root def))"
proof -
  obtain r where "scene_get s (cdef_root def) = Some r"
    using assms(3) by (auto simp: scene_contains_def scene_get_def)
  then have before: "map skeleton (expand_before_bindings sd fresh s lib inst ctx) =
      map skeleton (clone_subtree fresh s (cdef_root def))"
    using assms(1,2)
    by (simp add: expand_before_bindings_def apply_derived_entries_skeleton apply_sparse_overrides_def
        apply_sparse_overrides_skeleton apply_prop_bindings_skeleton pin_expansion_root_box_def modify_first_skeleton Let_def)
  show ?thesis
  proof (cases ctx)
    case (Some c)
    have "map skeleton (map (on_node (materialize_node sh s c)) out) = map skeleton out" for out
      by (simp add: materialize_node_place)
    with before Some show ?thesis by (simp add: expand_instance_inner_def del: map_map)
  qed (use before in \<open>simp add: expand_instance_inner_def\<close>)
qed

section \<open>The clone\<close>

lemma id_remap_lookup:
  assumes "distinct ids"
  shows "fmlookup (id_remap fresh ids) i = map_option fresh (list_position (\<lambda>j. j = i) ids)"
proof -
  have other: "fmlookup (fold (\<lambda>(o1, f) m. fmupd o1 f m) ps m0) i = fmlookup m0 i"
    if "i \<notin> fst ` set ps" for ps and m0 :: "(node_id, node_id) fmap"
    using that by (induction ps arbitrary: m0) (auto simp: case_prod_beta)
  have "fmlookup (fold (\<lambda>(o1, f) m. fmupd o1 f m) (zip xs fs) m0) i =
      (case list_position (\<lambda>j. j = i) xs of None \<Rightarrow> fmlookup m0 i | Some p \<Rightarrow> Some (fs ! p))"
    if "distinct xs" "length fs = length xs" for xs fs and m0 :: "(node_id, node_id) fmap"
    using that
  proof (induction xs arbitrary: fs m0)
    case (Cons x xs)
    then obtain f fs' where fs: "fs = f # fs'" by (cases fs) auto
    show ?case
    proof (cases "x = i")
      case True
      with Cons.prems have "i \<notin> fst ` set (zip xs fs')" by (auto dest: set_zip_leftD)
      from other[OF this, of "fmupd i f m0"] True show ?thesis by (simp add: fs)
    next
      case False
      with Cons.IH[of fs' "fmupd x f m0"] Cons.prems fs show ?thesis
        by (cases "list_position (\<lambda>j. j = i) xs") (simp_all del: list_position_None)
    qed
  qed simp
  from this[OF assms, of "map fresh [0..<length ids]" fmempty] show ?thesis
    by (cases "list_position (\<lambda>j. j = i) ids")
      (auto simp: id_remap_def dest: list_position_bound simp del: list_position_None)
qed

lemma list_position_distinct: "distinct xs \<Longrightarrow> k < length xs \<Longrightarrow> list_position (\<lambda>j. j = xs ! k) xs = Some k"
proof (induction xs arbitrary: k)
  case (Cons x xs)
  then show ?case by (cases k) auto
qed simp

lemma map_filter_total:
  "(\<And>x. x \<in> set xs \<Longrightarrow> f x = Some (g x)) \<Longrightarrow> List.map_filter f xs = map g xs"
  by (induction xs) (simp_all add: List.map_filter_simps)

lemma def_local_path_step:
  assumes "scene_inv s" "parent_of (sc_nodes s) i = Some p" "i \<noteq> root"
  shows "def_local_path s root i = def_local_path s root p @ [i]"
proof -
  let ?ns = "sc_nodes s"
  have ac: "acyclic (anc.edges ?ns)" using scene_invD(3)[OF assms(1)] by (simp add: forest_ok_def)
  have n: "Suc (card {i. parent_of ?ns i \<noteq> None}) \<le> walk_fuel ?ns" by (rule parents_card)
  have up: "anc.up ?ns (walk_fuel ?ns) (Some p) = p # anc.up ?ns (walk_fuel ?ns) (parent_of ?ns p)"
    using anc.up_stable[OF ac n, of 1 "Some p"] by simp
  have anc: "map cn_id (ancestors_of s i) = p # map cn_id (ancestors_of s p)"
    unfolding ancestors_of_set[OF assms(1)] by (simp only: assms(2) up)
  show ?thesis
    using assms(3) by (cases "p = root") (simp_all add: def_local_path_def anc)
qed

lemma clone_subtree_exact:
  assumes inv: "scene_inv s" and root: "scene_contains s root"
  defines "ids \<equiv> descendants_of s root"
  shows "length (clone_subtree fresh s root) = length ids"
    "k < length ids \<Longrightarrow> skeleton (clone_subtree fresh s root ! k) =
       (fresh k,
        if k = 0 then None
        else map_option fresh (list_position (\<lambda>j. Some j = parent_of (sc_nodes s) (ids ! k)) ids),
        def_local_path s root (ids ! k))"
proof -
  let ?ns = "sc_nodes s" and ?remap = "id_remap fresh ids"
  have dist: "distinct ids" unfolding ids_def by (rule descendants_exact(2)[OF inv])
  have present: "scene_get s i \<noteq> None" if "i \<in> set ids" for i
  proof -
    from that have "i \<in> below ?ns root" unfolding ids_def descendants_exact(1)[OF inv] .
    with root show ?thesis
      using below_present[of i ?ns root] by (cases "i = root") (auto simp: scene_get_def scene_contains_def)
  qed
  define g where "g i = \<lparr>en_node = (the (scene_get s i))\<lparr>cn_id := the (fmlookup ?remap i),
      cn_parent := (if i = root then None else Option.bind (cn_parent (the (scene_get s i))) (fmlookup ?remap))\<rparr>,
      en_def_path = def_local_path s root i\<rparr>" for i
  have some: "clone_one s root ?remap i = Some (g i)" if "i \<in> set ids" for i
  proof -
    from that obtain k where k: "k < length ids" "ids ! k = i" by (auto simp: in_set_conv_nth)
    then have "fmlookup ?remap i = Some (fresh k)"
      using list_position_distinct[OF dist k(1)] by (simp add: id_remap_lookup[OF dist])
    with present[OF that] show ?thesis by (auto simp: clone_one_def g_def)
  qed
  have out: "clone_subtree fresh s root = map g ids"
    unfolding clone_subtree_def Let_def ids_def[symmetric] using some by (rule map_filter_total)
  show "length (clone_subtree fresh s root) = length ids" by (simp add: out)
  assume k: "k < length ids"
  then obtain n where n: "scene_get s (ids ! k) = Some n" using present[of "ids ! k"] by auto
  have head: "ids ! 0 = root" unfolding ids_def by (subst descendants_head) simp
  then have isroot: "ids ! k = root \<longleftrightarrow> k = 0"
    using dist k nth_eq_iff_index_eq[OF dist k, of 0] by (cases ids) auto
  have eq: "(\<lambda>j. Some j = Some p) = (\<lambda>j. j = p)" for p :: node_id by auto
  have "Option.bind (cn_parent n) (fmlookup ?remap) =
      map_option fresh (list_position (\<lambda>j. Some j = parent_of ?ns (ids ! k)) ids)"
    using n by (cases "cn_parent n") (simp_all add: parent_of_def scene_get_def id_remap_lookup[OF dist] eq)
  then show "skeleton (clone_subtree fresh s root ! k) =
       (fresh k,
        if k = 0 then None
        else map_option fresh (list_position (\<lambda>j. Some j = parent_of (sc_nodes s) (ids ! k)) ids),
        def_local_path s root (ids ! k))"
    using k n isroot list_position_distinct[OF dist k]
    by (simp add: out g_def skeleton_def id_remap_lookup[OF dist])
qed

lemma def_local_path_root [simp]: "def_local_path s root root = []"
  by (simp add: def_local_path_def)

lemma def_local_path_last: "i \<noteq> root \<Longrightarrow> def_local_path s root i \<noteq> [] \<and> last (def_local_path s root i) = i"
  by (simp add: def_local_path_def)

lemma def_local_path_inj:
  assumes eq: "def_local_path s root i = def_local_path s root j"
  shows "i = j"
proof (cases "i = root")
  case True
  then have "def_local_path s root j = []" using eq by simp
  then have "j = root" using def_local_path_last by blast
  with True show ?thesis by simp
next
  case False
  then have "last (def_local_path s root j) = i" "def_local_path s root j \<noteq> []"
    using def_local_path_last[of i root s] unfolding eq by blast+
  moreover from this(2) have "j \<noteq> root" by auto
  ultimately show ?thesis using def_local_path_last[of j root s] by simp
qed

lemma subtree_parent:
  assumes "scene_inv s" "k < length (descendants_of s root)" "k \<noteq> 0"
  shows "\<exists>j < length (descendants_of s root).
    parent_of (sc_nodes s) (descendants_of s root ! k) = Some (descendants_of s root ! j)"
proof -
  let ?ids = "descendants_of s root" and ?ns = "sc_nodes s"
  have "?ids ! 0 = root" by (subst descendants_head) simp
  moreover have "?ids \<noteq> []" by (subst descendants_head) simp
  ultimately have ne: "?ids ! k \<noteq> root"
    using nth_eq_iff_index_eq[OF descendants_exact(2)[OF assms(1)] assms(2), of 0] assms(3) by auto
  have "(root, ?ids ! k) \<in> (parent_edges ?ns)\<^sup>*"
    using nth_mem[OF assms(2)] unfolding descendants_exact(1)[OF assms(1)] by (simp add: below_def)
  with ne obtain p where p: "(root, p) \<in> (parent_edges ?ns)\<^sup>*" "(p, ?ids ! k) \<in> parent_edges ?ns"
    by (metis rtranclE)
  then have "p \<in> set ?ids" unfolding descendants_exact(1)[OF assms(1)] by (simp add: below_def)
  with p(2) show ?thesis by (auto simp: in_set_conv_nth parent_edges_def)
qed

text \<open>
  C30. Expanding an instance yields the master's tree: one clone per node of the subtree, in pre-order,
  the \<open>k\<close>-th under the \<open>k\<close>-th fresh id; the first is the root, and every other clone hangs below the
  clone of its original's parent and is addressed by that clone's path and its own original id. No
  override, derived entry or binding changes this, and no two clones share an address.
\<close>
theorem expansion_is_master_clone:
  assumes inv: "scene_inv s" and def: "resolve_instance_def (Some s) lib inst ctx = Some def"
    and root: "scene_contains s (cdef_root def)" and sd: "serde_keeps_place sd"
  shows "length (expand_instance_inner sd sh fresh s lib inst ctx) = length (descendants_of s (cdef_root def)) \<and>
    distinct (map en_def_path (expand_instance_inner sd sh fresh s lib inst ctx)) \<and>
    (\<forall>k < length (descendants_of s (cdef_root def)).
       skeleton (expand_instance_inner sd sh fresh s lib inst ctx ! k) =
         (if k = 0 then (fresh 0, None, [])
          else (fresh k, Some (fresh (the (list_position (\<lambda>j. Some j = parent_of (sc_nodes s)
                   (descendants_of s (cdef_root def) ! k)) (descendants_of s (cdef_root def))))),
                def_local_path s (cdef_root def) (the (parent_of (sc_nodes s) (descendants_of s (cdef_root def) ! k)))
                  @ [descendants_of s (cdef_root def) ! k])))"
    (is "length ?out = length ?ids \<and> _ \<and> _")
proof (intro conjI)
  let ?clones = "clone_subtree fresh s (cdef_root def)"
  note cl = clone_subtree_exact[OF inv root, where fresh = fresh]
  have sk: "map skeleton ?out = map skeleton ?clones" by (rule expansion_skeleton[OF sd def root])
  have "length (map skeleton ?out) = length (map skeleton ?clones)" by (simp only: sk)
  then show len: "length ?out = length ?ids" by (simp add: cl(1))
  have at: "skeleton (?out ! k) = skeleton (?clones ! k)" if "k < length ?ids" for k
    using arg_cong[OF sk, of "\<lambda>xs. xs ! k"] that len cl(1) by simp
  have path: "en_def_path (?out ! k) = def_local_path s (cdef_root def) (?ids ! k)" if "k < length ?ids" for k
    using at[OF that] cl(2)[OF that] by (simp add: skeleton_def)
  have "map en_def_path ?out = map (def_local_path s (cdef_root def)) ?ids"
    using len path by (intro nth_equalityI) simp_all
  then show "distinct (map en_def_path ?out)"
    using descendants_exact(2)[OF inv] by (simp add: distinct_map inj_onI def_local_path_inj)
  have first: "?ids ! 0 = cdef_root def" by (subst descendants_head) simp
  show "\<forall>k < length ?ids. skeleton (?out ! k) =
      (if k = 0 then (fresh 0, None, [])
       else (fresh k, Some (fresh (the (list_position (\<lambda>j. Some j = parent_of (sc_nodes s) (?ids ! k)) ?ids))),
             def_local_path s (cdef_root def) (the (parent_of (sc_nodes s) (?ids ! k))) @ [?ids ! k]))"
  proof (intro allI impI)
    fix k assume k: "k < length ?ids"
    show "skeleton (?out ! k) =
      (if k = 0 then (fresh 0, None, [])
       else (fresh k, Some (fresh (the (list_position (\<lambda>j. Some j = parent_of (sc_nodes s) (?ids ! k)) ?ids))),
             def_local_path s (cdef_root def) (the (parent_of (sc_nodes s) (?ids ! k))) @ [?ids ! k]))"
    proof (cases "k = 0")
      case True
      with at[OF k] cl(2)[OF k] first show ?thesis by (simp add: def_local_path_def)
    next
      case False
      from subtree_parent[OF inv k False] obtain j where
        j: "j < length ?ids" "parent_of (sc_nodes s) (?ids ! k) = Some (?ids ! j)" by blast
      have "0 < length ?ids" using k by (rule le_less_trans[OF le0])
      then have "?ids ! k \<noteq> cdef_root def"
        using nth_eq_iff_index_eq[OF descendants_exact(2)[OF inv] k, of 0] first False k by auto
      from def_local_path_step[OF inv j(2) this]
      have "def_local_path s (cdef_root def) (?ids ! k) = def_local_path s (cdef_root def) (?ids ! j) @ [?ids ! k]" .
      moreover have "list_position (\<lambda>i. Some i = parent_of (sc_nodes s) (?ids ! k)) ?ids = Some j"
        using list_position_distinct[OF descendants_exact(2)[OF inv] j(1)] j(2) by simp
      ultimately show ?thesis using at[OF k] cl(2)[OF k] False j(2) by simp
    qed
  qed
qed

lemma sample_serde_keeps_place: "serde_keeps_place sample_serde"
  unfolding serde_keeps_place_def
proof (intro allI impI)
  fix n m m' n'
  assume a: "ns_to_value sample_serde n = Some (JObject m) \<and> ns_from_value sample_serde (JObject m') = Some n' \<and>
    (\<forall>k \<in> set FIELD_STRUCTURAL_KEYS. map_of m' k = map_of m k)"
  then obtain i q where enc: "sample_encode_id (cn_id n) = Some i" "sample_encode_parent (cn_parent n) = Some q"
    and m: "m = [(''id'', i), (''parent'', q), (''name'', JString (cn_name n))]"
    by (auto simp: sample_serde_def split: option.splits)
  from a have same: "map_of m' ''id'' = map_of m ''id''" "map_of m' ''parent'' = map_of m ''parent''"
    by (auto simp: FIELD_STRUCTURAL_KEYS_def)
  then have "map_of m' ''id'' = Some i" "map_of m' ''parent'' = Some q" by (simp_all add: m)
  with a enc show "cn_id n' = cn_id n \<and> cn_parent n' = cn_parent n"
    by (auto simp: sample_serde_def canvas_node_new_def split: option.splits json.splits)
qed

theorem expansion_is_master_clone_witness:
  "length (expand_instance_inner sample_serde (\<lambda>_. []) sample_fresh sample_label_scene sample_library
      (sample_instance 7 [\<lparr>ovr_target_path = [], ovr_target_prop = BoundProp_Visible,
         ovr_value = OverrideValue_Field (JObject [(''id'', JNull), (''name'', JString ''Chip'')])\<rparr>] []) None) =
     length (descendants_of sample_label_scene (Id 1)) \<and>
   skeleton (expand_instance_inner sample_serde (\<lambda>_. []) sample_fresh sample_label_scene sample_library
      (sample_instance 7 [\<lparr>ovr_target_path = [], ovr_target_prop = BoundProp_Visible,
         ovr_value = OverrideValue_Field (JObject [(''id'', JNull), (''name'', JString ''Chip'')])\<rparr>] []) None ! 0) =
     (Id 100, None, [])"
proof -
  have "0 < length (descendants_of sample_label_scene (Id 1))" by (subst descendants_head) simp
  moreover have "scene_contains sample_label_scene (Id 1)" by (simp add: scene_contains_def sample_label_nodes)
  ultimately show ?thesis
    using expansion_is_master_clone[OF sample_label_inv sample_def_resolves[where ctx = None] _ sample_serde_keeps_place,
      where fresh = sample_fresh and sh = "\<lambda>_. []"]
    by (simp add: sample_component_def sample_fresh_def)
qed

section \<open>The chosen variant\<close>

lemma max_by_key_Some: "max_by_key f xs = Some y \<Longrightarrow>
    \<exists>as bs. xs = as @ y # bs \<and> (\<forall>x \<in> set as. f x \<le> f y) \<and> (\<forall>x \<in> set bs. f x < f y)"
proof (induction xs arbitrary: y)
  case (Cons x xs)
  show ?case
  proof (cases "max_by_key f xs")
    case None
    then have "xs = []" by (cases xs) (simp_all split: option.splits if_splits)
    with Cons.prems show ?thesis by (intro exI[of _ "[]"]) simp
  next
    case (Some z)
    from Cons.IH[OF this] obtain as bs where
      z: "xs = as @ z # bs" "\<forall>x \<in> set as. f x \<le> f z" "\<forall>x \<in> set bs. f x < f z" by blast
    show ?thesis
    proof (cases "f x \<le> f z")
      case True
      with Cons.prems Some have "y = z" by simp
      with z True show ?thesis by (intro exI[of _ "x # as"] exI[of _ bs]) simp
    next
      case False
      with Cons.prems Some have "y = x" by simp
      moreover have "\<forall>w \<in> set xs. f w < f x" using z False by fastforce
      ultimately show ?thesis by (intro exI[of _ "[]"] exI[of _ xs]) simp
    qed
  qed
qed simp

lemma max_by_key_None: "max_by_key f xs = None \<longleftrightarrow> xs = []"
  by (cases xs) (simp_all split: option.splits)

definition score_of :: "component_library \<Rightarrow> selection_map \<Rightarrow> component_id \<Rightarrow> nat" where
  "score_of lib sel m = (case axis_values lib m of None \<Rightarrow> 0 | Some vm \<Rightarrow> fcard (agreeing sel vm))"

lemma variant_score_eq:
  "variant_score lib sel m = (if 0 < score_of lib sel m then Some (score_of lib sel m, m) else None)"
  by (cases "axis_values lib m") (simp_all only: variant_score_def score_of_def Let_def option.case bind.bind_lunit
      bind.bind_lzero if_False less_irrefl)

lemma scored_members:
  "List.map_filter (variant_score lib sel) ms =
     map (\<lambda>m. (score_of lib sel m, m)) (filter (\<lambda>m. 0 < score_of lib sel m) ms)"
  by (induction ms) (simp_all add: List.map_filter_simps variant_score_eq)

lemma find_split: "find P xs = Some x \<Longrightarrow> \<exists>as bs. xs = as @ x # bs \<and> P x \<and> (\<forall>y \<in> set as. \<not> P y)"
proof (induction xs)
  case (Cons y xs)
  show ?case
  proof (cases "P y")
    case True
    with Cons.prems show ?thesis by (intro exI[of _ "[]"] exI[of _ xs]) simp
  next
    case False
    with Cons obtain as bs where "xs = as @ x # bs" "P x" "\<forall>y \<in> set as. \<not> P y" by auto
    with False show ?thesis by (intro exI[of _ "y # as"] exI[of _ bs]) simp
  qed
qed simp

lemma filter_split:
  "filter P xs = as @ y # bs \<Longrightarrow>
     \<exists>us vs. xs = us @ y # vs \<and> P y \<and> filter P us = as \<and> filter P vs = bs"
proof (induction xs arbitrary: as)
  case (Cons x xs)
  show ?case
  proof (cases "P x")
    case True
    show ?thesis
    proof (cases as)
      case Nil
      with Cons.prems True show ?thesis by (intro exI[of _ "[]"] exI[of _ xs]) simp
    next
      case (Cons a as')
      with Cons.prems True have "filter P xs = as' @ y # bs" "x = a" by simp_all
      with Cons.IH obtain us vs where "xs = us @ y # vs" "P y" "filter P us = as'" "filter P vs = bs" by blast
      with True \<open>x = a\<close> Cons show ?thesis by (intro exI[of _ "x # us"] exI[of _ vs]) simp
    qed
  next
    case False
    with Cons.prems Cons.IH obtain us vs where "xs = us @ y # vs" "P y" "filter P us = as" "filter P vs = bs" by auto
    with False show ?thesis by (intro exI[of _ "x # us"] exI[of _ vs]) simp
  qed
qed simp

lemma best_member_exact:
  "case max_by_key fst (map (\<lambda>m. (score_of lib sel m, m)) (filter (\<lambda>m. 0 < score_of lib sel m) ms)) of
     None \<Rightarrow> \<not> (\<exists>m \<in> set ms. 0 < score_of lib sel m)
   | Some b \<Rightarrow> \<exists>as bs. ms = as @ snd b # bs \<and> 0 < score_of lib sel (snd b) \<and>
       (\<forall>m \<in> set as. score_of lib sel m \<le> score_of lib sel (snd b)) \<and>
       (\<forall>m \<in> set bs. score_of lib sel m < score_of lib sel (snd b))"
proof (cases "max_by_key fst (map (\<lambda>m. (score_of lib sel m, m)) (filter (\<lambda>m. 0 < score_of lib sel m) ms))")
  case None
  then show ?thesis by (auto simp: max_by_key_None filter_empty_conv)
next
  case (Some b)
  let ?good = "filter (\<lambda>m. 0 < score_of lib sel m) ms"
  from max_by_key_Some[OF Some] obtain as bs where
    b: "map (\<lambda>m. (score_of lib sel m, m)) ?good = as @ b # bs"
      "\<forall>x \<in> set as. fst x \<le> fst b" "\<forall>x \<in> set bs. fst x < fst b" by blast
  from b(1) obtain us y vs where good: "?good = us @ y # vs" "as = map (\<lambda>m. (score_of lib sel m, m)) us"
    "b = (score_of lib sel y, y)" "bs = map (\<lambda>m. (score_of lib sel m, m)) vs"
    by (auto simp: map_eq_append_conv map_eq_Cons_conv)
  from filter_split[OF good(1)] obtain ps qs where
    split: "ms = ps @ y # qs" "0 < score_of lib sel y" "filter (\<lambda>m. 0 < score_of lib sel m) ps = us"
      "filter (\<lambda>m. 0 < score_of lib sel m) qs = vs" by blast
  have "score_of lib sel m \<le> score_of lib sel y" if "m \<in> set ps" for m
    using that b(2) good split(2,3) by (cases "0 < score_of lib sel m") auto
  moreover have "score_of lib sel m < score_of lib sel y" if "m \<in> set qs" for m
    using that b(3) good split(2,4) by (cases "0 < score_of lib sel m") auto
  ultimately show ?thesis
    using Some split(1,2) good(3) by (simp only: option.case snd_conv) blast
qed


lemma sample_selection:
  "selected_axes None sample_library (sample_instance 9 [] [(Id 21, VarValue_Enum ''Ghost''), (Id 22, VarValue_Enum ''Small'')])
     sample_set None = fmupd ''Size'' ''Small'' (fmupd ''Kind'' ''Ghost'' fmempty)"
  by (simp add: selected_axes_def sample_set_def sample_library_def sample_component_def sample_axis_def
      select_axis_def sample_instance_def resolve_component_prop_value_def)

lemma sample_scores:
  "score_of sample_library (fmupd ''Size'' ''Small'' (fmupd ''Kind'' ''Ghost'' fmempty)) (Id 7) = 1"
  "score_of sample_library (fmupd ''Size'' ''Small'' (fmupd ''Kind'' ''Ghost'' fmempty)) (Id 8) = 1"
  "\<not> matches_all sample_library (fmupd ''Size'' ''Small'' (fmupd ''Kind'' ''Ghost'' fmempty)) (Id 7)"
  "\<not> matches_all sample_library (fmupd ''Size'' ''Small'' (fmupd ''Kind'' ''Ghost'' fmempty)) (Id 8)"
proof -
  have "ffilter ((\<noteq>) ''Kind'') {|''Size'', ''Kind''|} = {|''Size''|}"
    "ffilter ((\<noteq>) ''Size'') {|''Size'', ''Kind''|} = {|''Kind''|}" by auto
  note sets = this
  show "score_of sample_library (fmupd ''Size'' ''Small'' (fmupd ''Kind'' ''Ghost'' fmempty)) (Id 7) = 1"
    "score_of sample_library (fmupd ''Size'' ''Small'' (fmupd ''Kind'' ''Ghost'' fmempty)) (Id 8) = 1"
    "\<not> matches_all sample_library (fmupd ''Size'' ''Small'' (fmupd ''Kind'' ''Ghost'' fmempty)) (Id 7)"
    "\<not> matches_all sample_library (fmupd ''Size'' ''Small'' (fmupd ''Kind'' ''Ghost'' fmempty)) (Id 8)"
    by (simp_all add: score_of_def matches_all_def axis_values_def sample_library_def sample_component_def
        agreeing_def sets fcard_finsert_if)
qed


section \<open>Explicit overrides win\<close>

definition text_content :: "canvas_node \<Rightarrow> string option" where
  "text_content n =
     (case cn_data n of
        NodeData_Text t \<Rightarrow> Some (tn_content t) | NodeData_TextPath t \<Rightarrow> Some (tp_content t) | _ \<Rightarrow> None)"

definition entry_at :: "node_id list \<Rightarrow> expanded_node list \<Rightarrow> expanded_node option" where
  "entry_at p out = find (\<lambda>e. en_def_path e = p) out"

definition holds_at :: "(canvas_node \<Rightarrow> bool) \<Rightarrow> node_id list \<Rightarrow> expanded_node list \<Rightarrow> bool" where
  "holds_at P p out \<longleftrightarrow> (\<exists>e. entry_at p out = Some e \<and> P (en_node e))"

lemma entry_at_simps [simp]:
  "entry_at p [] = None"
  "entry_at p (e # out) = (if en_def_path e = p then Some e else entry_at p out)"
  by (simp_all add: entry_at_def)

lemma on_node_simps [simp]: "en_def_path (on_node f e) = en_def_path e" "en_node (on_node f e) = f (en_node e)"
  by (simp_all add: on_node_def)

lemma holds_at_other:
  "t \<noteq> p \<Longrightarrow> holds_at P p (snd (apply_at_path t f out)) = holds_at P p out"
  unfolding holds_at_def apply_at_path_def by (induction out) (simp_all add: case_prod_beta)

lemma holds_at_same:
  "holds_at P p out \<Longrightarrow> (\<And>n. P n \<Longrightarrow> Q (f n)) \<Longrightarrow>
     fst (apply_at_path p f out) \<and> holds_at Q p (snd (apply_at_path p f out))"
  unfolding holds_at_def apply_at_path_def by (induction out) (auto simp: case_prod_beta split: if_splits)

lemma holds_at_write:
  "holds_at P p out \<Longrightarrow> (\<And>n. P n \<Longrightarrow> P (f n)) \<Longrightarrow> holds_at P p (snd (apply_at_path t f out))"
  using holds_at_other[of t p P f out] holds_at_same[of P p out P f] by (cases "t = p") simp_all

lemma list_modify_Cons:
  "list_modify 0 f (x # xs) = f x # xs" "list_modify (Suc i) f (x # xs) = x # list_modify i f xs"
  by (simp_all add: list_modify_def)

lemma holds_at_list_modify:
  "holds_at P p out \<Longrightarrow> (\<And>e. en_def_path (f e) = en_def_path e) \<Longrightarrow> (\<And>e. P (en_node e) \<Longrightarrow> P (en_node (f e))) \<Longrightarrow>
     holds_at P p (list_modify i f out)"
proof (induction out arbitrary: i)
  case (Cons e out)
  then show ?case
    by (cases i) (auto simp: list_modify_Cons holds_at_def split: if_splits)
qed (simp add: list_modify_def)

lemma holds_at_route:
  assumes "holds_at P p out" "\<And>n. P n \<Longrightarrow> \<not> is_instance_data (cn_data n)"
  shows "holds_at P p (route_nested t f out)"
proof -
  have "on_data (on_instance g) n = n" if "P n" for g n
    using assms(2)[OF that] by (cases "cn_data n") (simp_all add: on_data_def on_instance_def is_instance_data_def)
  then show ?thesis
    unfolding route_nested_def
    by (cases "best_prefix t None out 0 out") (auto intro!: holds_at_list_modify assms(1))
qed

lemma holds_at_sole:
  assumes "holds_at P p out" "\<And>n. P n \<Longrightarrow> \<not> (\<exists>v. cn_data n = NodeData_Vector v)"
  shows "holds_at P p (snd (apply_to_sole_vector f out))"
proof -
  have "holds_at P p (snd (modify_first is_vector_entry (on_node f) out))"
    using assms(1)
  proof (induction out)
    case (Cons e out)
    have "\<not> is_vector_entry e" if "P (en_node e)"
      using assms(2)[OF that] by (auto simp: is_vector_entry_def split: node_data.splits)
    with Cons show ?case by (auto simp: holds_at_def case_prod_beta split: if_splits)
  qed simp
  with assms(1) show ?thesis by (simp add: apply_to_sole_vector_def)
qed

lemma text_not_other:
  "text_content n \<noteq> None \<Longrightarrow> \<not> is_instance_data (cn_data n)"
  "text_content n \<noteq> None \<Longrightarrow> \<not> (\<exists>v. cn_data n = NodeData_Vector v)"
  by (auto simp: text_content_def is_instance_data_def split: node_data.splits)

lemma holds_at_override:
  assumes "holds_at P p out" "\<And>n. P n \<Longrightarrow> text_content n \<noteq> None"
    and "ovr_target_path ov = p \<Longrightarrow> (\<And>n. P n \<Longrightarrow> P (apply_override sd (ovr_value ov) n))"
  shows "holds_at P p (apply_sparse_override sd ov out)"
proof -
  let ?w = "apply_at_path (ovr_target_path ov) (apply_override sd (ovr_value ov)) out"
  have w: "holds_at P p (snd ?w)"
    using assms holds_at_write[OF assms(1)] holds_at_other[of "ovr_target_path ov" p P]
    by (cases "ovr_target_path ov = p") auto
  have route: "holds_at P p (route_nested t f out)" for t f
    using assms(1,2) text_not_other(1) by (intro holds_at_route) blast+
  have sole: "holds_at P p (snd (apply_to_sole_vector f out))" for f
    using assms(1,2) text_not_other(2) by (intro holds_at_sole) blast+
  have split: "holds_at P p (case x of (True, o') \<Rightarrow> o' | (False, _) \<Rightarrow> y)"
    if "holds_at P p (snd x)" "holds_at P p y" for x :: "bool \<times> expanded_node list" and y
    using that by (cases x) (simp split: bool.split)
  show ?thesis
    unfolding apply_sparse_override_def
    by (intro split w route) (simp add: sole assms(1))
qed

lemma apply_sparse_override_hit:
  "fst (apply_at_path (ovr_target_path ov) (apply_override sd (ovr_value ov)) out) \<Longrightarrow>
     apply_sparse_override sd ov out = snd (apply_at_path (ovr_target_path ov) (apply_override sd (ovr_value ov)) out)"
  by (cases "apply_at_path (ovr_target_path ov) (apply_override sd (ovr_value ov)) out")
    (simp add: apply_sparse_override_def)

lemma holds_at_overrides:
  assumes "holds_at P p out" "\<And>n. P n \<Longrightarrow> text_content n \<noteq> None"
    and "\<And>ov n. ov \<in> set ovs \<Longrightarrow> ovr_target_path ov = p \<Longrightarrow> P n \<Longrightarrow> P (apply_override sd (ovr_value ov) n)"
  shows "holds_at P p (fold (apply_sparse_override sd) ovs out)"
  using assms(1,3)
proof (induction ovs arbitrary: out)
  case (Cons ov ovs)
  have "holds_at P p (apply_sparse_override sd ov out)"
    using Cons.prems assms(2) by (intro holds_at_override) simp_all
  with Cons show ?case by simp
qed simp

lemma holds_at_derived:
  assumes "holds_at P p out" "\<And>n. P n \<Longrightarrow> text_content n \<noteq> None"
    and "\<And>d n claims. d \<in> set ds \<Longrightarrow> dov_path d = p \<Longrightarrow>
      oc_content claims = has_override (inst_overrides inst) p BoundProp_TextContent \<Longrightarrow>
      P n \<Longrightarrow> P (apply_derived d edited claims n)"
  shows "holds_at P p (fold (apply_derived_entry inst edited) ds out)"
  using assms(1,3)
proof (induction ds arbitrary: out)
  case (Cons d ds)
  let ?claims = "\<lparr>oc_content = has_override (inst_overrides inst) (dov_path d) BoundProp_TextContent,
                  oc_fill = has_override (inst_overrides inst) (dov_path d) (BoundProp_FillColor 0)\<rparr>"
  have w: "holds_at P p (snd (apply_at_path (dov_path d) (apply_derived d edited ?claims) out))"
  proof (cases "dov_path d = p")
    case True
    with Cons.prems show ?thesis by (intro holds_at_write) simp_all
  next
    case False
    with Cons.prems show ?thesis by (simp add: holds_at_other)
  qed
  have route: "holds_at P p (route_nested t f out)" for t f
    using Cons.prems(1) assms(2) text_not_other(1) by (intro holds_at_route) blast+
  have "holds_at P p (apply_derived_entry inst edited d out)"
    using w route by (cases "apply_at_path (dov_path d) (apply_derived d edited ?claims) out")
      (auto simp: apply_derived_entry_def Let_def split: bool.split)
  with Cons show ?case by simp
qed simp

lemma text_content_on_data:
  "text_content (on_data f n) = (case f (cn_data n) of
     NodeData_Text t \<Rightarrow> Some (tn_content t) | NodeData_TextPath t \<Rightarrow> Some (tp_content t) | _ \<Rightarrow> None)"
  by (simp add: text_content_def on_data_def)

lemma override_text_content:
  assumes "\<And>j. v \<noteq> OverrideValue_Field j"
  shows "text_content (apply_override sd v n) =
    (case v of OverrideValue_Text x \<Rightarrow> map_option (\<lambda>_. x) (text_content n) | _ \<Rightarrow> text_content n)"
  using assms
  by (cases v; cases "cn_data n")
    (auto simp: text_content_def on_data_def override_text_def override_fills_def override_strokes_def override_swap_def
      text_set_glyph_color_def text_path_set_glyph_color_def split: option.split fill.split)

lemma apply_resolved_keeps_text: "text_content n \<noteq> None \<Longrightarrow> text_content (snd (apply_resolved p n v)) \<noteq> None"
  by (cases p; cases v; cases "cn_data n")
    (auto simp: text_content_def node_fill_mut_def node_fill_def fills_mut_def set_node_fill_color_def stroke_mut_def
      data_stroke_def data_strokes_def set_corner_radius_def set_text_content_def set_text_style_def clip_size_mut_def
      split: option.split if_splits)

lemma derived_keeps_content:
  assumes "oc_content claims"
  shows "text_content (apply_derived d edited claims n) = text_content n"
  using assms
  by (cases "cn_data n")
    (auto simp: text_content_def apply_derived_def on_data_def set_if_def resize_data_def set_local_size_def
      derive_geometry_def derive_text_def text_set_glyph_color_def Let_def split: option.split)

lemma holds_at_member: "holds_at P p out \<Longrightarrow> \<exists>e \<in> set out. en_def_path e = p \<and> P (en_node e)"
  unfolding holds_at_def by (induction out) (auto split: if_splits)

lemma holds_at_clone:
  assumes "scene_inv s" "scene_contains s root" "i \<in> set (descendants_of s root)"
    and "\<exists>n. scene_get s i = Some n \<and> text_content n \<noteq> None"
  shows "holds_at (\<lambda>n. text_content n \<noteq> None) (def_local_path s root i) (clone_subtree fresh s root)"
proof -
  let ?remap = "id_remap fresh (descendants_of s root)"
  have fresh: "fmlookup ?remap i \<noteq> None"
    using assms(3) by (auto simp: id_remap_lookup[OF descendants_exact(2)[OF assms(1)]])
  have path: "en_def_path e = def_local_path s root j" if "clone_one s root ?remap j = Some e" for j e
    using that by (auto simp: clone_one_def bind_eq_Some_conv)
  have shown: "text_content (en_node e) \<noteq> None" if "clone_one s root ?remap i = Some e" for e
    using that assms(4) by (auto simp: clone_one_def bind_eq_Some_conv text_content_def)
  obtain e where e: "clone_one s root ?remap i = Some e"
    using fresh assms(4) by (auto simp: clone_one_def)
  have "holds_at (\<lambda>n. text_content n \<noteq> None) (def_local_path s root i) (List.map_filter (clone_one s root ?remap) ids)"
    if "i \<in> set ids" for ids
    using that
  proof (induction ids)
    case (Cons j ids)
    show ?case
    proof (cases "clone_one s root ?remap j")
      case None
      with Cons e show ?thesis by (auto simp: List.map_filter_simps)
    next
      case (Some x)
      show ?thesis
      proof (cases "j = i")
        case True
        with Some path[OF Some] shown show ?thesis by (simp add: List.map_filter_simps holds_at_def)
      next
        case False
        then have "en_def_path x \<noteq> def_local_path s root i" using path[OF Some] def_local_path_inj by metis
        with Some Cons False show ?thesis by (auto simp: List.map_filter_simps holds_at_def)
      qed
    qed
  qed simp
  from this[OF assms(3)] show ?thesis by (simp add: clone_subtree_def Let_def)
qed

lemma holds_at_pin:
  "holds_at (\<lambda>n. text_content n \<noteq> None) p out \<Longrightarrow>
     holds_at (\<lambda>n. text_content n \<noteq> None) p (pin_expansion_root_box inst out)"
  unfolding pin_expansion_root_box_def apply_at_path_def[symmetric]
  by (erule holds_at_write) (auto simp: text_content_def on_data_def pin_root_box_def split: node_data.splits)

lemma holds_at_props:
  assumes "holds_at P p out" "\<And>t n v. P n \<Longrightarrow> P (snd (apply_resolved t n v))"
  shows "holds_at P p (apply_prop_bindings s def inst ctx out)"
proof -
  have writes: "holds_at P p (fold (\<lambda>b out. snd (apply_at_path (prop_binding_target_path b)
      (\<lambda>n. snd (apply_resolved (prop_binding_target_prop b) n r)) out)) bs out)"
    if "holds_at P p out" for bs r out
    using that by (induction bs arbitrary: out) (simp_all add: holds_at_write assms(2))
  have "holds_at P p (apply_prop s inst ctx q out)" if "holds_at P p out" for q out
    using that writes[OF that] unfolding apply_prop_def Let_def by (auto split: option.split)
  then have "holds_at P p (fold (apply_prop s inst ctx) ps out)" if "holds_at P p out" for ps out
    using that by (induction ps arbitrary: out) simp_all
  with assms(1) show ?thesis by (simp add: apply_prop_bindings_def)
qed



section \<open>Overrides of nested instances\<close>

definition crosses :: "node_id list \<Rightarrow> expanded_node \<Rightarrow> bool" where
  \<comment> \<open>a nested instance strictly above the target\<close>
  "crosses target e \<longleftrightarrow> en_def_path e \<noteq> [] \<and> strict_prefix (en_def_path e) target \<and> is_instance_data (cn_data (en_node e))"

lemma best_prefix_step:
  "best_prefix t best out k (e # es) =
     best_prefix t (if crosses t e \<and> (case best of None \<Rightarrow> True | Some b \<Rightarrow> length (en_def_path (out ! b)) < length (en_def_path e))
                    then Some k else best) out (Suc k) es"
proof -
  have "strict_prefix (en_def_path e) t \<longleftrightarrow> prefix (en_def_path e) t \<and> length (en_def_path e) < length t"
    by (metis prefix_length_less prefix_order.less_le less_irrefl)
  then show ?thesis by (auto simp: crosses_def Let_def)
qed

lemma best_prefix_exact:
  assumes "i < length out" "crosses t (out ! i)"
    and "\<And>j. j < length out \<Longrightarrow> j \<noteq> i \<Longrightarrow> crosses t (out ! j) \<Longrightarrow> length (en_def_path (out ! j)) < length (en_def_path (out ! i))"
    and "case best of None \<Rightarrow> k \<le> i | Some b \<Rightarrow> b < length out \<and> crosses t (out ! b) \<and> (if i < k then b = i else b < k)"
    and "k \<le> length out"
  shows "best_prefix t best out k (drop k out) = Some i"
  using assms(4,5)
proof (induction "length out - k" arbitrary: k best)
  case 0
  then show ?case using assms(1) by (auto split: option.splits)
next
  case (Suc d)
  then have k: "k < length out" by simp
  then have drop: "drop k out = out ! k # drop (Suc k) out" by (simp add: Cons_nth_drop_Suc)
  show ?case
    unfolding drop best_prefix_step
  proof (rule Suc.hyps(1))
    show "d = length out - Suc k" "Suc k \<le> length out" using Suc.hyps(2) k by simp_all
    show "case (if crosses t (out ! k) \<and>
              (case best of None \<Rightarrow> True | Some b \<Rightarrow> length (en_def_path (out ! b)) < length (en_def_path (out ! k)))
            then Some k else best) of
        None \<Rightarrow> Suc k \<le> i
      | Some b \<Rightarrow> b < length out \<and> crosses t (out ! b) \<and> (if i < Suc k then b = i else b < Suc k)"
    proof (cases "k = i")
      case True
      then show ?thesis using Suc.prems(1) assms(1-3) by (auto split: option.splits)
    next
      case False
      then show ?thesis using Suc.prems(1) assms(3)[OF k] k by (auto split: option.splits if_splits)
    qed
  qed
qed

text \<open>
  An override whose path leaves this master reaches the nested instance it crosses: it is appended,
  with the rest of its path, to the overrides of the deepest instance clone above its target, and
  nothing else changes, so that the expansion of that instance applies it.
\<close>
theorem override_routed_to_nested:
  assumes "\<forall>e \<in> set out. en_def_path e \<noteq> ovr_target_path ov" "2 \<le> length (ovr_target_path ov)"
    and "distinct (map en_def_path out)" "i < length out" "ovr_target_path ov = en_def_path (out ! i) @ rest"
    and "crosses (ovr_target_path ov) (out ! i)"
    and "\<forall>e \<in> set out. crosses (ovr_target_path ov) e \<longrightarrow> length (en_def_path e) \<le> length (en_def_path (out ! i))"
  shows "apply_sparse_override sd ov out =
    out[i := on_node (on_data (on_instance (\<lambda>inst.
      inst\<lparr>inst_overrides := inst_overrides inst @ [ov\<lparr>ovr_target_path := rest\<rparr>]\<rparr>))) (out ! i)]"
proof -
  let ?t = "ovr_target_path ov"
  have none: "apply_at_path ?t f out = (False, out)" for f
    using assms(1) unfolding apply_at_path_def by (induction out) simp_all
  have "length (en_def_path (out ! j)) < length (en_def_path (out ! i))"
    if j: "j < length out" "j \<noteq> i" "crosses ?t (out ! j)" for j
  proof (rule ccontr)
    assume "\<not> ?thesis"
    with assms(7) j have "length (en_def_path (out ! j)) = length (en_def_path (out ! i))"
      by (meson le_antisym not_less nth_mem)
    moreover have "prefix (en_def_path (out ! j)) ?t" "prefix (en_def_path (out ! i)) ?t"
      using j(3) assms(6) by (simp_all add: crosses_def strict_prefix_def)
    ultimately have "en_def_path (out ! j) = en_def_path (out ! i)"
      by (metis append_eq_conv_conj prefix_def)
    with assms(3,4) j show False
      by (metis distinct_conv_nth length_map nth_map)
  qed
  then have "best_prefix ?t None out 0 (drop 0 out) = Some i"
    using assms(4,6) by (intro best_prefix_exact) simp_all
  then have "best_prefix ?t None out 0 out = Some i" by simp
  moreover have "drop (length (en_def_path (out ! i))) ?t = rest" by (simp add: assms(5))
  ultimately have "route_nested ?t f out = out[i := on_node (on_data (on_instance (f rest))) (out ! i)]" for f
    using assms(4) by (simp add: route_nested_def list_modify_def)
  then show ?thesis
    using assms(2) by (simp add: apply_sparse_override_def none)
qed

theorem override_routed_to_nested_witness:
  "apply_sparse_override sample_serde
     \<lparr>ovr_target_path = [Id 5, Id 3], ovr_target_prop = BoundProp_TextContent, ovr_value = OverrideValue_Text ''Paid''\<rparr>
     [sample_entry (Id 50) [Id 5] (NodeData_Instance (sample_instance 7 [] []))] =
   [sample_entry (Id 50) [Id 5] (NodeData_Instance (sample_instance 7
      [\<lparr>ovr_target_path = [Id 3], ovr_target_prop = BoundProp_TextContent, ovr_value = OverrideValue_Text ''Paid''\<rparr>] []))]"
proof -
  let ?ov = "\<lparr>ovr_target_path = [Id 5, Id 3], ovr_target_prop = BoundProp_TextContent, ovr_value = OverrideValue_Text ''Paid''\<rparr>"
  let ?out = "[sample_entry (Id 50) [Id 5] (NodeData_Instance (sample_instance 7 [] []))]"
  have "apply_sparse_override sample_serde ?ov ?out =
      ?out[0 := on_node (on_data (on_instance (\<lambda>inst.
        inst\<lparr>inst_overrides := inst_overrides inst @ [?ov\<lparr>ovr_target_path := [Id 3]\<rparr>]\<rparr>))) (?out ! 0)]"
    by (rule override_routed_to_nested)
      (simp_all add: sample_entry_def crosses_def is_instance_data_def canvas_node_new_def strict_prefix_def)
  then show ?thesis
    by (simp add: sample_entry_def on_node_def on_data_def on_instance_def canvas_node_new_def sample_instance_def)
qed

end
