(* ===== verification/PaintEq.thy ===== *)
theory PaintEq
  imports JsonValues Floats NodeTypes
begin

text \<open>
  The equality of paints, \<open>PartialEq\<close> as the compiler derives it for \<open>Fill\<close>, \<open>Gradient\<close>, \<open>Stroke\<close> and
  what they hold (\<open>crates/fanta-doc/src/style.rs\<close>, \<open>color.rs\<close>): member by member, floats by the
  comparison of IEEE 754, under which the two zeros are equal and a NaN is equal to nothing.
\<close>

definition f32_eq :: "f32 \<Rightarrow> f32 \<Rightarrow> bool" where
  \<comment> \<open>\<open>==\<close> on \<open>f32\<close>\<close>
  "f32_eq a b \<longleftrightarrow> \<not> f32_is_nan a \<and> \<not> f32_is_nan b \<and> (a = b \<or> f32_bits a = 0 \<and> f32_bits b = 0)"

definition point32_eq :: "f32 \<times> f32 \<Rightarrow> f32 \<times> f32 \<Rightarrow> bool" where
  "point32_eq p q \<longleftrightarrow> f32_eq (fst p) (fst q) \<and> f32_eq (snd p) (snd q)"

definition quad_eq :: "('a \<Rightarrow> 'a \<Rightarrow> bool) \<Rightarrow> 'a \<times> 'a \<times> 'a \<times> 'a \<Rightarrow> 'a \<times> 'a \<times> 'a \<times> 'a \<Rightarrow> bool" where
  \<comment> \<open>arrays of four\<close>
  "quad_eq eq x y =
     (case (x, y) of ((a, b, c, d), (a', b', c', d')) \<Rightarrow> eq a a' \<and> eq b b' \<and> eq c c' \<and> eq d d')"

section \<open>Colours and gradients\<close>

definition gradient_stop_eq :: "gradient_stop \<Rightarrow> gradient_stop \<Rightarrow> bool" where
  "gradient_stop_eq a b \<longleftrightarrow>
     f32_eq (gradient_stop_position a) (gradient_stop_position b) \<and> gradient_stop_color a = gradient_stop_color b"

definition handles_eq :: "((f32 \<times> f32) \<times> (f32 \<times> f32)) option \<Rightarrow> ((f32 \<times> f32) \<times> (f32 \<times> f32)) option \<Rightarrow> bool" where
  "handles_eq = rel_option (rel_prod point32_eq point32_eq)"

fun gradient_eq :: "gradient \<Rightarrow> gradient \<Rightarrow> bool" where
  "gradient_eq (Gradient_Linear a b ss) (Gradient_Linear a' b' ss') \<longleftrightarrow>
     point32_eq a a' \<and> point32_eq b b' \<and> list_all2 gradient_stop_eq ss ss'"
| "gradient_eq (Gradient_Radial c r h ss) (Gradient_Radial c' r' h' ss') \<longleftrightarrow>
     point32_eq c c' \<and> f32_eq r r' \<and> handles_eq h h' \<and> list_all2 gradient_stop_eq ss ss'"
| "gradient_eq (Gradient_Angular c r ss) (Gradient_Angular c' r' ss') \<longleftrightarrow>
     point32_eq c c' \<and> f32_eq r r' \<and> list_all2 gradient_stop_eq ss ss'"
| "gradient_eq (Gradient_Diamond c r h ss) (Gradient_Diamond c' r' h' ss') \<longleftrightarrow>
     point32_eq c c' \<and> f32_eq r r' \<and> handles_eq h h' \<and> list_all2 gradient_stop_eq ss ss'"
| "gradient_eq _ _ \<longleftrightarrow> False"

section \<open>Paints\<close>

definition image_adjust_eq :: "image_adjust \<Rightarrow> image_adjust \<Rightarrow> bool" where
  "image_adjust_eq a b \<longleftrightarrow>
     f32_eq (image_adjust_exposure a) (image_adjust_exposure b) \<and>
     f32_eq (image_adjust_contrast a) (image_adjust_contrast b) \<and>
     f32_eq (image_adjust_saturation a) (image_adjust_saturation b) \<and>
     f32_eq (image_adjust_temperature a) (image_adjust_temperature b) \<and>
     f32_eq (image_adjust_tint a) (image_adjust_tint b) \<and>
     f32_eq (image_adjust_highlights a) (image_adjust_highlights b) \<and>
     f32_eq (image_adjust_shadows a) (image_adjust_shadows b)"

definition video_fill_eq :: "video_fill \<Rightarrow> video_fill \<Rightarrow> bool" where
  "video_fill_eq a b \<longleftrightarrow>
     video_fill_asset a = video_fill_asset b \<and> video_fill_poster a = video_fill_poster b \<and>
     video_fill_mode a = video_fill_mode b \<and>
     rel_option (quad_eq f32_eq) (video_fill_crop a) (video_fill_crop b) \<and>
     rel_option f32_eq (video_fill_scale a) (video_fill_scale b) \<and>
     rel_option f32_eq (video_fill_rotation a) (video_fill_rotation b) \<and>
     image_adjust_eq (video_fill_adjust a) (video_fill_adjust b)"

definition shader_gradient_stop_eq :: "shader_gradient_stop \<Rightarrow> shader_gradient_stop \<Rightarrow> bool" where
  "shader_gradient_stop_eq a b \<longleftrightarrow>
     f32_eq (shader_gradient_stop_position a) (shader_gradient_stop_position b) \<and>
     shader_gradient_stop_color a = shader_gradient_stop_color b \<and>
     shader_gradient_stop_variable_id a = shader_gradient_stop_variable_id b"

definition shader_property_value_eq :: "shader_property_value \<Rightarrow> shader_property_value \<Rightarrow> bool" where
  "shader_property_value_eq a b =
     (case a of
        ShaderPropertyValue_Number x \<Rightarrow> (case b of ShaderPropertyValue_Number y \<Rightarrow> f32_eq x y | _ \<Rightarrow> False)
      | ShaderPropertyValue_Point p \<Rightarrow> (case b of ShaderPropertyValue_Point q \<Rightarrow> point32_eq p q | _ \<Rightarrow> False)
      | ShaderPropertyValue_Line p q \<Rightarrow>
          (case b of ShaderPropertyValue_Line p' q' \<Rightarrow> point32_eq p p' \<and> point32_eq q q' | _ \<Rightarrow> False)
      | ShaderPropertyValue_Circle c r \<Rightarrow>
          (case b of ShaderPropertyValue_Circle c' r' \<Rightarrow> point32_eq c c' \<and> f32_eq r r' | _ \<Rightarrow> False)
      | ShaderPropertyValue_CirclePoint c r t \<Rightarrow>
          (case b of
             ShaderPropertyValue_CirclePoint c' r' t' \<Rightarrow> point32_eq c c' \<and> f32_eq r r' \<and> f32_eq t t'
           | _ \<Rightarrow> False)
      | ShaderPropertyValue_ColorPoint p c v \<Rightarrow>
          (case b of ShaderPropertyValue_ColorPoint p' c' v' \<Rightarrow> point32_eq p p' \<and> c = c' \<and> v = v' | _ \<Rightarrow> False)
      | ShaderPropertyValue_Gradient ss \<Rightarrow>
          (case b of ShaderPropertyValue_Gradient ss' \<Rightarrow> list_all2 shader_gradient_stop_eq ss ss' | _ \<Rightarrow> False)
      | _ \<Rightarrow> a = b)"

definition shader_property_assignment_eq :: "shader_property_assignment \<Rightarrow> shader_property_assignment \<Rightarrow> bool" where
  "shader_property_assignment_eq a b \<longleftrightarrow>
     shader_property_assignment_definition_id a = shader_property_assignment_definition_id b \<and>
     shader_property_value_eq (shader_property_assignment_value a) (shader_property_assignment_value b)"

definition shader_fill_eq :: "shader_fill \<Rightarrow> shader_fill \<Rightarrow> bool" where
  "shader_fill_eq a b \<longleftrightarrow>
     shader_fill_shader_id a = shader_fill_shader_id b \<and> shader_fill_name a = shader_fill_name b \<and>
     list_all2 shader_property_assignment_eq (shader_fill_properties a) (shader_fill_properties b)"

definition pattern_fill_eq :: "pattern_fill \<Rightarrow> pattern_fill \<Rightarrow> bool" where
  "pattern_fill_eq a b \<longleftrightarrow>
     pattern_fill_source_node_id a = pattern_fill_source_node_id b \<and>
     pattern_fill_tile_type a = pattern_fill_tile_type b \<and>
     f32_eq (pattern_fill_scaling_factor a) (pattern_fill_scaling_factor b) \<and>
     f32_eq (pattern_spacing_x (pattern_fill_spacing a)) (pattern_spacing_x (pattern_fill_spacing b)) \<and>
     f32_eq (pattern_spacing_y (pattern_fill_spacing a)) (pattern_spacing_y (pattern_fill_spacing b)) \<and>
     pattern_fill_horizontal_alignment a = pattern_fill_horizontal_alignment b"

fun fill_eq :: "fill \<Rightarrow> fill \<Rightarrow> bool" where
  "fill_eq (Fill_Solid c b) (Fill_Solid c' b') \<longleftrightarrow> c = c' \<and> b = b'"
| "fill_eq (Fill_Gradient g b) (Fill_Gradient g' b') \<longleftrightarrow> gradient_eq g g' \<and> b = b'"
| "fill_eq (Fill_Image a m op cr sc ro b adj) (Fill_Image a' m' op' cr' sc' ro' b' adj') \<longleftrightarrow>
     a = a' \<and> m = m' \<and> f32_eq op op' \<and> rel_option (quad_eq f32_eq) cr cr' \<and> rel_option f32_eq sc sc' \<and>
     rel_option f32_eq ro ro' \<and> b = b' \<and> image_adjust_eq adj adj'"
| "fill_eq (Fill_Video v op b) (Fill_Video v' op' b') \<longleftrightarrow> video_fill_eq v v' \<and> f32_eq op op' \<and> b = b'"
| "fill_eq (Fill_Pattern p op b) (Fill_Pattern p' op' b') \<longleftrightarrow> pattern_fill_eq p p' \<and> f32_eq op op' \<and> b = b'"
| "fill_eq (Fill_Shader f op b) (Fill_Shader f' op' b') \<longleftrightarrow> shader_fill_eq f f' \<and> f32_eq op op' \<and> b = b'"
| "fill_eq _ _ \<longleftrightarrow> False"

definition stroke_eq :: "stroke \<Rightarrow> stroke \<Rightarrow> bool" where
  "stroke_eq a b \<longleftrightarrow>
     fill_eq (stroke_paint a) (stroke_paint b) \<and> f64_eq (stroke_width a) (stroke_width b) \<and>
     stroke_cap a = stroke_cap b \<and> stroke_join a = stroke_join b \<and>
     f64_eq (stroke_miter_limit a) (stroke_miter_limit b) \<and>
     list_all2 f64_eq (stroke_dash a) (stroke_dash b) \<and> stroke_align a = stroke_align b \<and>
     rel_option (quad_eq f64_eq) (stroke_per_side a) (stroke_per_side b)"

end
