(* ===== verification/LoadPasses.thy ===== *)
theory LoadPasses
  imports InstanceExpand PaintEq SampleInstance
begin

text \<open>
  The two passes over a scene that \<open>crates/fanta-doc/src/resolve/instance.rs\<close> runs once when a document is loaded:
  \<open>strip_redundant_instance_overrides\<close> and \<open>backfill_vector_viewports\<close>. Both walk every node, note what to
  write where, and write it in a second loop. The locale \<open>load_pass\<close> holds what follows from that shape:
  exactly the noted nodes change, the scene stays valid, and running the pass again changes nothing.
\<close>

section \<open>The passes\<close>

definition all_ids :: "scene \<Rightarrow> node_id list" where
  "all_ids s = concat (map (descendants_of s) (scene_roots s))"

definition write_node :: "(canvas_node \<Rightarrow> canvas_node) \<Rightarrow> node_id \<Rightarrow> scene \<Rightarrow> scene" where
  \<comment> \<open>\<open>if let Some(node) = scene.get_mut(id)\<close> and a write through it\<close>
  "write_node f i s = (case scene_update i f s of Inl _ \<Rightarrow> s | Inr s' \<Rightarrow> s')"

definition run_pass :: "(scene \<Rightarrow> node_id \<Rightarrow> 'v option) \<Rightarrow> ('v \<Rightarrow> canvas_node \<Rightarrow> canvas_node) \<Rightarrow> scene \<Rightarrow> scene" where
  \<comment> \<open>the two loops: collect, then write\<close>
  "run_pass pick put s =
     fold (\<lambda>(i, v). write_node (put v) i) (List.map_filter (\<lambda>i. map_option (Pair i) (pick s i)) (all_ids s)) s"

definition override_restates_master :: "scene \<Rightarrow> node_id \<Rightarrow> override_value \<Rightarrow> bool" where
  "override_restates_master s m v =
     (case scene_get s m of
        None \<Rightarrow> False
      | Some n \<Rightarrow>
          (case v of
             OverrideValue_Fills fills \<Rightarrow>
               (case cn_data n of
                  NodeData_Vector v \<Rightarrow> list_all2 fill_eq (vn_fills v) fills
                | NodeData_Group g \<Rightarrow>
                    (case gn_background g of Some b \<Rightarrow> list_all2 fill_eq fills [b] | None \<Rightarrow> fills = [])
                | _ \<Rightarrow> False)
           | OverrideValue_Strokes strokes \<Rightarrow>
               (case cn_data n of
                  NodeData_Vector v \<Rightarrow> list_all2 stroke_eq (vn_strokes v) strokes
                | NodeData_Group g \<Rightarrow> list_all2 stroke_eq (gn_strokes g) strokes
                | _ \<Rightarrow> False)
           | _ \<Rightarrow> False))"

definition kept_overrides :: "scene \<Rightarrow> component_def \<Rightarrow> override_entry list \<Rightarrow> override_entry list" where
  "kept_overrides s def ovs =
     filter (\<lambda>ov. \<not> override_restates_master s
        (if ovr_target_path ov = [] then cdef_root def else last (ovr_target_path ov)) (ovr_value ov)) ovs"

definition trimmed_overrides :: "component_library \<Rightarrow> scene \<Rightarrow> node_id \<Rightarrow> override_entry list option" where
  "trimmed_overrides lib s i =
     (case map_option cn_data (scene_get s i) of
        Some (NodeData_Instance inst) \<Rightarrow>
          (if inst_overrides inst = [] then None
           else (case resolve_instance_def None lib inst None of
                   None \<Rightarrow> None
                 | Some def \<Rightarrow>
                     (let kept = kept_overrides s def (inst_overrides inst)
                      in if length kept \<noteq> length (inst_overrides inst) then Some kept else None)))
      | _ \<Rightarrow> None)"

definition put_overrides :: "override_entry list \<Rightarrow> canvas_node \<Rightarrow> canvas_node" where
  "put_overrides kept = on_data (on_instance (\<lambda>inst. inst\<lparr>inst_overrides := kept\<rparr>))"

definition strip_redundant_instance_overrides :: "component_library \<Rightarrow> scene \<Rightarrow> scene" where
  "strip_redundant_instance_overrides lib s =
     (if clib_defs lib = fmempty then s else run_pass (trimmed_overrides lib) put_overrides s)"

definition UNCLIPPED_VECTOR :: node_flags where
  "UNCLIPPED_VECTOR = 16"

definition f64_minus_half :: f64 where
  "f64_minus_half = 0xBFE0000000000000"

definition vector_viewport :: "canvas_node \<Rightarrow> (f64 \<times> f64) option" where
  \<comment> \<open>the box a vector without a viewport gets\<close>
  "vector_viewport n =
     (case cn_data n of
        NodeData_Vector v \<Rightarrow>
          (if vn_local_size v \<noteq> None \<or> flag_contains (cn_flags n) UNCLIPPED_VECTOR then None
           else Option.bind (rough_bounds (vn_path v)) (\<lambda>b.
             if f64_lt (bounds_min_x b) f64_minus_half \<or> f64_lt (bounds_min_y b) f64_minus_half \<or>
                f64_le (bounds_max_x b) 0 \<or> f64_le (bounds_max_y b) 0
             then None else Some (bounds_max_x b, bounds_max_y b)))
      | _ \<Rightarrow> None)"

definition inferred_viewport :: "scene \<Rightarrow> node_id \<Rightarrow> (f64 \<times> f64) option" where
  "inferred_viewport s i = Option.bind (scene_get s i) vector_viewport"

definition put_viewport :: "f64 \<times> f64 \<Rightarrow> canvas_node \<Rightarrow> canvas_node" where
  "put_viewport sz =
     on_data (\<lambda>d. case d of NodeData_Vector v \<Rightarrow> NodeData_Vector (v\<lparr>vn_local_size := Some sz\<rparr>) | _ \<Rightarrow> d)"

definition backfill_vector_viewports :: "scene \<Rightarrow> scene" where
  "backfill_vector_viewports s = run_pass inferred_viewport put_viewport s"

section \<open>Every node, once\<close>

lemma root_unique:
  assumes "(r, d) \<in> (parent_edges ns)\<^sup>*" "(r', d) \<in> (parent_edges ns)\<^sup>*"
    and "parent_of ns r = None" "parent_of ns r' = None"
  shows "r' = r"
  using assms
proof (induction rule: rtrancl_induct)
  case base
  then show ?case by (auto simp: parent_edges_def elim: rtranclE)
next
  case (step y z)
  have "r' \<noteq> z" using step.hyps(2) step.prems(3) by (auto simp: parent_edges_def)
  from parent_edge_reach[OF step.hyps(2) step.prems(1) this] step show ?case by simp
qed

lemma node_has_root:
  assumes "scene_inv s" "fmlookup (sc_nodes s) i \<noteq> None"
  obtains r where "r \<in> set (scene_roots s)" "(r, i) \<in> (parent_edges (sc_nodes s))\<^sup>*"
proof -
  let ?ns = "sc_nodes s"
  note inv = scene_invD[OF assms(1)]
  have roots: "set (scene_roots s) = child_set ?ns None"
    by (simp add: scene_roots_def children_of_def children_set[OF inv(4)])
  have "finite (parent_edges ?ns)"
    by (rule finite_subset[of _ "(\<lambda>i. (the (parent_of ?ns i), i)) ` fset (fmdom ?ns)"])
      (auto simp: parent_edges_def parent_of_def bind_eq_Some_conv image_iff intro: fmdomI)
  then have "wf (parent_edges ?ns)" using inv(3) by (simp add: forest_ok_def finite_acyclic_wf)
  then have "fmlookup ?ns i \<noteq> None \<longrightarrow> (\<exists>r \<in> set (scene_roots s). (r, i) \<in> (parent_edges ?ns)\<^sup>*)"
  proof (induction i)
    case (less i)
    show ?case
    proof (cases "parent_of ?ns i")
      case None
      then have "fmlookup ?ns i \<noteq> None \<longrightarrow> i \<in> set (scene_roots s)"
        unfolding roots by (auto simp: child_set_def parent_of_def)
      then show ?thesis by blast
    next
      case (Some p)
      then have edge: "(p, i) \<in> parent_edges ?ns" by (simp add: parent_edges_def)
      from Some inv(2) have "fmlookup ?ns p \<noteq> None" unfolding parents_ok_def parent_of_def bind_eq_Some_conv by blast
      with less[OF edge] edge show ?thesis by (meson rtrancl.rtrancl_into_rtrancl)
    qed
  qed
  with assms(2) that show ?thesis by blast
qed

lemma all_ids_exact:
  assumes "scene_inv s"
  shows "set (all_ids s) = {i. scene_get s i \<noteq> None}" "distinct (all_ids s)"
proof -
  let ?ns = "sc_nodes s"
  note inv = scene_invD[OF assms]
  have roots: "set (scene_roots s) = child_set ?ns None"
    by (simp add: scene_roots_def children_of_def children_set[OF inv(4)])
  have none: "parent_of ?ns r = None" "fmlookup ?ns r \<noteq> None" if "r \<in> set (scene_roots s)" for r
    using that unfolding roots by (auto simp: child_set_def parent_of_def)
  have ids: "set (all_ids s) = (\<Union>r \<in> set (scene_roots s). below ?ns r)"
    by (simp add: all_ids_def descendants_exact(1)[OF assms])
  show "set (all_ids s) = {i. scene_get s i \<noteq> None}"
  proof (intro equalityI subsetI)
    fix i assume "i \<in> set (all_ids s)"
    then obtain r where "r \<in> set (scene_roots s)" "i \<in> below ?ns r" unfolding ids by blast
    then show "i \<in> {i. scene_get s i \<noteq> None}"
      using below_present none(2) by (cases "i = r") (auto simp: scene_get_def)
  next
    fix i assume "i \<in> {i. scene_get s i \<noteq> None}"
    then have "fmlookup ?ns i \<noteq> None" by (simp add: scene_get_def)
    from node_has_root[OF assms this] show "i \<in> set (all_ids s)" unfolding ids below_def by blast
  qed
  have apart: "below ?ns r \<inter> below ?ns r' = {}" if "r \<in> set (scene_roots s)" "r' \<in> set (scene_roots s)" "r \<noteq> r'" for r r'
    using root_unique[of r _ ?ns r'] none(1) that by (auto simp: below_def)
  have "distinct (concat (map (descendants_of s) rs))" if "distinct rs" "set rs \<subseteq> set (scene_roots s)" for rs
    using that
  proof (induction rs)
    case (Cons r rs)
    then have "below ?ns r \<inter> (\<Union>x \<in> set rs. below ?ns x) = {}" using apart by fastforce
    with Cons show ?case by (simp add: descendants_exact[OF assms])
  qed simp
  from this[of "scene_roots s"] show "distinct (all_ids s)"
    using children_distinct[OF inv(4), of None] by (simp add: all_ids_def scene_roots_def children_of_def)
qed

section \<open>What a pass does\<close>

lemma write_node_exact:
  "sc_child_index (write_node f i s) = sc_child_index s"
  "scene_get (write_node f i s) j = (if j = i then map_option f (scene_get s i) else scene_get s j)"
proof -
  have "sc_child_index (write_node f i s) = sc_child_index s \<and>
      scene_get (write_node f i s) j = (if j = i then map_option f (scene_get s i) else scene_get s j)"
  proof (cases "scene_update i f s")
    case (Inl e)
    then show ?thesis by (auto simp: write_node_def scene_update_def scene_get_def Let_def split: option.splits)
  next
    case (Inr s')
    from scene_update_ok[OF Inr] obtain n where
      "fmlookup (sc_nodes s) i = Some n" "sc_nodes s' = fmupd i (f n) (sc_nodes s)" "sc_child_index s' = sc_child_index s"
      by blast
    with Inr show ?thesis by (simp add: write_node_def scene_get_def)
  qed
  then show "sc_child_index (write_node f i s) = sc_child_index s"
    "scene_get (write_node f i s) j = (if j = i then map_option f (scene_get s i) else scene_get s j)" by blast+
qed

locale load_pass =
  fixes pick :: "scene \<Rightarrow> node_id \<Rightarrow> 'v option" and put :: "'v \<Rightarrow> canvas_node \<Rightarrow> canvas_node"
  assumes put_keeps: "keeps_place n (put v n)" "can_have_children (put v n) = can_have_children n"
    and pick_present: "pick s i = Some v \<Longrightarrow> scene_get s i \<noteq> None"
    and pick_settled: "(\<And>j. scene_get t j =
      (case pick s j of None \<Rightarrow> scene_get s j | Some v \<Rightarrow> map_option (put v) (scene_get s j))) \<Longrightarrow> pick t i = None"
begin

lemma write_inv:
  assumes "scene_inv s"
  shows "scene_inv (write_node (put v) i s)"
proof (cases "scene_update i (put v) s")
  case (Inl e)
  with assms show ?thesis by (simp add: write_node_def)
next
  case (Inr s')
  have "can_have_children n \<or> children_of s (Some i) = []" if "fmlookup (sc_nodes s) i = Some n" for n
    using container_keeps[OF assms that refl] by blast
  with Inr put_keeps show ?thesis
    by (simp add: write_node_def scene_update_inv[OF assms Inr])
qed

lemma writes_exact:
  assumes "scene_inv s" "distinct (map fst ws)"
  shows "scene_inv (fold (\<lambda>(i, v). write_node (put v) i) ws s)"
    and "scene_get (fold (\<lambda>(i, v). write_node (put v) i) ws s) j =
      (case map_of ws j of None \<Rightarrow> scene_get s j | Some v \<Rightarrow> map_option (put v) (scene_get s j))"
  using assms
proof (induction ws arbitrary: s)
  case (Cons w ws)
  obtain i v where w: "w = (i, v)" by (cases w)
  case 1
  with Cons.IH(1) write_inv w show ?case by simp
  case 2
  then have "map_of ws i = None" using w by (auto simp: map_of_eq_None_iff)
  with 2 Cons.IH(2)[OF write_inv] w show ?case by (auto simp: write_node_exact split: option.split)
qed simp_all

lemma picks_lookup:
  assumes "distinct ids"
  shows "map_of (List.map_filter (\<lambda>i. map_option (Pair i) (pick s i)) ids) j =
      (if j \<in> set ids then pick s j else None)"
    and "distinct (map fst (List.map_filter (\<lambda>i. map_option (Pair i) (pick s i)) ids))"
proof -
  have keys: "set (map fst (List.map_filter (\<lambda>i. map_option (Pair i) (pick s i)) ids)) \<subseteq> set ids" for ids
    by (induction ids) (auto simp: List.map_filter_simps split: option.splits)
  show "map_of (List.map_filter (\<lambda>i. map_option (Pair i) (pick s i)) ids) j =
      (if j \<in> set ids then pick s j else None)"
    using assms
  proof (induction ids)
    case (Cons i ids)
    then show ?case by (cases "pick s i") (auto simp: List.map_filter_simps)
  qed (simp add: List.map_filter_simps)
  show "distinct (map fst (List.map_filter (\<lambda>i. map_option (Pair i) (pick s i)) ids))"
    using assms
  proof (induction ids)
    case (Cons i ids)
    with keys[of ids] show ?case by (cases "pick s i") (auto simp: List.map_filter_simps)
  qed (simp add: List.map_filter_simps)
qed

lemma pass_exact:
  assumes "scene_inv s"
  shows "scene_inv (run_pass pick put s)"
    and "scene_get (run_pass pick put s) j =
      (case pick s j of None \<Rightarrow> scene_get s j | Some v \<Rightarrow> map_option (put v) (scene_get s j))"
proof -
  note ids = all_ids_exact[OF assms]
  note ws = writes_exact[OF assms picks_lookup(2)[OF ids(2), of s]]
  show "scene_inv (run_pass pick put s)" using ws(1) by (simp add: run_pass_def)
  have "(if j \<in> set (all_ids s) then pick s j else None) = pick s j"
    using pick_present[of s j] ids(1) by (cases "pick s j") auto
  then show "scene_get (run_pass pick put s) j =
      (case pick s j of None \<Rightarrow> scene_get s j | Some v \<Rightarrow> map_option (put v) (scene_get s j))"
    using ws(2)[of j] by (simp add: run_pass_def picks_lookup(1)[OF ids(2)])
qed

lemma pass_once:
  assumes "scene_inv s"
  shows "run_pass pick put (run_pass pick put s) = run_pass pick put s"
proof -
  have "pick (run_pass pick put s) i = None" for i
    using pick_settled[where s = s and t = "run_pass pick put s"] pass_exact(2)[OF assms] by blast
  then show ?thesis by (simp add: run_pass_def[of pick put "run_pass pick put s"] List.map_filter_def)
qed

end

section \<open>A sample scene\<close>

definition sample_placed :: canvas_node where
  \<comment> \<open>an instance of the sample component, with an override that restates its master's missing background\<close>
  "sample_placed = sample_node 3 None 0x4000000000000000
     (NodeData_Instance (sample_instance 7
        [\<lparr>ovr_target_path = [], ovr_target_prop = BoundProp_FillColor 0, ovr_value = OverrideValue_Fills []\<rparr>,
         \<lparr>ovr_target_path = [], ovr_target_prop = BoundProp_Visible, ovr_value = OverrideValue_Visible False\<rparr>] []))"

definition sample_line :: canvas_node where
  \<comment> \<open>a vector from the origin to \<open>(1, 2)\<close>, without a viewport\<close>
  "sample_line = sample_node 4 None 0x4008000000000000
     (NodeData_Vector
        \<lparr>vn_path = path_new\<lparr>path_data_segments :=
             [PathSegment_Move (0, 0), PathSegment_Line (0x3FF0000000000000, 0x4000000000000000)]\<rparr>,
         vn_fills = [], vn_strokes = [], vn_corner_radius = None, vn_corner_radii = None, vn_corner_smoothing = 0,
         vn_local_size = None, vn_parametric = None\<rparr>)"

definition sample_placed_scene :: scene where
  "sample_placed_scene =
     (case insert_all [sample_root, sample_placed, sample_line] (scene_default 1 0) of
        Inl _ \<Rightarrow> scene_default 1 0 | Inr s \<Rightarrow> s)"

lemma sample_placed_place [simp]:
  "cn_id sample_placed = Id 3" "cn_parent sample_placed = None"
  "cn_id sample_line = Id 4" "cn_parent sample_line = None"
  by (simp_all add: sample_placed_def sample_line_def sample_node_def canvas_node_new_def)

lemma sample_placed_built:
  "insert_all [sample_root, sample_placed, sample_line] (scene_default 1 0) = Inr sample_placed_scene"
proof -
  obtain s1 where s1: "scene_insert sample_root (scene_default 1 0) = Inr (Id 1, s1)"
    "sc_nodes s1 = fmupd (Id 1) sample_root fmempty"
    using scene_insert_succeeds[of "scene_default 1 0" sample_root]
    by (auto simp: scene_default_def check_parent_def)
  obtain s2 where s2: "scene_insert sample_placed s1 = Inr (Id 3, s2)"
    "sc_nodes s2 = fmupd (Id 3) sample_placed (sc_nodes s1)"
    using scene_insert_succeeds[of s1 sample_placed] by (auto simp: s1 check_parent_def)
  obtain s3 where s3: "scene_insert sample_line s2 = Inr (Id 4, s3)"
    using scene_insert_succeeds[of s2 sample_line] by (auto simp: s1 s2 check_parent_def)
  show ?thesis by (simp add: sample_placed_scene_def s1 s2 s3)
qed

lemma sample_placed_inv [simp]: "scene_inv sample_placed_scene"
  by (rule insert_all_inv[OF scene_default_inv sample_placed_built])

lemma sample_placed_get [simp]:
  "scene_get sample_placed_scene (Id 1) = Some sample_root"
  "scene_get sample_placed_scene (Id 3) = Some sample_placed"
  "scene_get sample_placed_scene (Id 4) = Some sample_line"
  using insert_all_nodes[OF sample_placed_built] by (simp_all add: scene_default_def scene_get_def)

section \<open>Stripping redundant overrides\<close>

lemma put_overrides_simps [simp]:
  "put_overrides kept n = n\<lparr>cn_data := on_instance (\<lambda>inst. inst\<lparr>inst_overrides := kept\<rparr>) (cn_data n)\<rparr>"
  by (simp add: put_overrides_def on_data_def)

lemma resolve_ignores_overrides:
  "resolve_instance_def s lib (inst\<lparr>inst_overrides := kept\<rparr>) ctx = resolve_instance_def s lib inst ctx"
proof -
  have same: "inst_prop_values (inst\<lparr>inst_overrides := kept\<rparr>) = inst_prop_values inst" by simp
  have "select_axis s (inst\<lparr>inst_overrides := kept\<rparr>) ctx = select_axis s inst ctx"
    by (intro ext) (simp only: select_axis_def same)
  moreover have "inst_component (inst\<lparr>inst_overrides := kept\<rparr>) = inst_component inst" by simp
  ultimately show ?thesis by (simp only: resolve_instance_def_def select_set_variant_def selected_axes_def)
qed

lemma restates_ignores_instances:
  assumes "\<And>j. scene_get t j =
      (case pick j of None \<Rightarrow> scene_get s j | Some kept \<Rightarrow> map_option (put_overrides kept) (scene_get s j))"
  shows "override_restates_master t m v = override_restates_master s m v"
  by (cases "pick m"; cases "scene_get s m")
    (auto simp: assms[of m] override_restates_master_def on_instance_def split: override_value.split node_data.split)

lemma kept_ignores_instances:
  assumes "\<And>j. scene_get t j =
      (case pick j of None \<Rightarrow> scene_get s j | Some kept \<Rightarrow> map_option (put_overrides kept) (scene_get s j))"
  shows "kept_overrides t def ovs = kept_overrides s def ovs"
  by (simp add: kept_overrides_def restates_ignores_instances[where t = t and s = s and pick = pick, OF assms])

lemma kept_twice: "kept_overrides s def (kept_overrides s def ovs) = kept_overrides s def ovs"
  by (simp add: kept_overrides_def)

lemma trimmed_settled:
  assumes t: "\<And>j. scene_get t j =
      (case trimmed_overrides lib s j of
         None \<Rightarrow> scene_get s j | Some kept \<Rightarrow> map_option (put_overrides kept) (scene_get s j))"
  shows "trimmed_overrides lib t i = None"
proof -
  note kept = kept_ignores_instances[where t = t and s = s and pick = "trimmed_overrides lib s", OF t]
  show ?thesis
  proof (cases "trimmed_overrides lib s i")
    case None
    then have "scene_get t i = scene_get s i" by (simp add: t)
    with None show ?thesis by (simp add: trimmed_overrides_def kept cong: if_cong option.case_cong)
  next
    case (Some ovs)
    then obtain n inst def where "scene_get s i = Some n" "cn_data n = NodeData_Instance inst"
      "resolve_instance_def None lib inst None = Some def" "ovs = kept_overrides s def (inst_overrides inst)"
      by (auto simp: trimmed_overrides_def Let_def split: option.splits node_data.splits if_splits)
    with Some show ?thesis
      by (simp add: trimmed_overrides_def[of lib t] t on_instance_def resolve_ignores_overrides kept kept_twice)
  qed
qed

interpretation strip: load_pass "trimmed_overrides lib" put_overrides for lib
proof unfold_locales
  fix s t i and n :: canvas_node and v
  show "keeps_place n (put_overrides v n)" by (simp add: keeps_place_def)
  show "can_have_children (put_overrides v n) = can_have_children n"
    by (simp add: can_have_children_def is_group_def is_boolean_def on_instance_def split: node_data.split)
  show "trimmed_overrides lib s i = Some v \<Longrightarrow> scene_get s i \<noteq> None"
    by (cases "scene_get s i") (simp_all add: trimmed_overrides_def)
  show "(\<And>j. scene_get t j = (case trimmed_overrides lib s j of
      None \<Rightarrow> scene_get s j | Some v \<Rightarrow> map_option (put_overrides v) (scene_get s j))) \<Longrightarrow> trimmed_overrides lib t i = None"
    by (rule trimmed_settled)
qed

definition strip_node :: "component_library \<Rightarrow> scene \<Rightarrow> canvas_node \<Rightarrow> canvas_node" where
  \<comment> \<open>the specification of one node: an instance keeps the overrides that do not restate its master\<close>
  "strip_node lib s n =
     (case cn_data n of
        NodeData_Instance inst \<Rightarrow>
          (case resolve_instance_def None lib inst None of
             None \<Rightarrow> n
           | Some def \<Rightarrow>
               n\<lparr>cn_data := NodeData_Instance (inst\<lparr>inst_overrides := kept_overrides s def (inst_overrides inst)\<rparr>)\<rparr>)
      | _ \<Rightarrow> n)"

lemma kept_same: "length (kept_overrides s def ovs) = length ovs \<Longrightarrow> kept_overrides s def ovs = ovs"
proof -
  have "length (filter P xs) = length xs \<Longrightarrow> filter P xs = xs" for P and xs :: "'x list"
    by (metis filter_id_conv length_filter_less less_irrefl)
  then show "length (kept_overrides s def ovs) = length ovs \<Longrightarrow> kept_overrides s def ovs = ovs"
    unfolding kept_overrides_def .
qed

lemma trimmed_is_strip:
  assumes "scene_get s i = Some n"
  shows "(case trimmed_overrides lib s i of None \<Rightarrow> n | Some kept \<Rightarrow> put_overrides kept n) = strip_node lib s n"
proof (cases "cn_data n")
  case (NodeData_Instance inst)
  have eq: "n\<lparr>cn_data := NodeData_Instance (inst\<lparr>inst_overrides := inst_overrides inst\<rparr>)\<rparr> = n"
    using NodeData_Instance by (cases n) simp
  show ?thesis
  proof (cases "resolve_instance_def None lib inst None")
    case None
    with assms NodeData_Instance show ?thesis by (simp add: trimmed_overrides_def strip_node_def)
  next
    case (Some def)
    let ?ovs = "inst_overrides inst" and ?put = "\<lambda>k. n\<lparr>cn_data := NodeData_Instance (inst\<lparr>inst_overrides := k\<rparr>)\<rparr>"
    have strip: "strip_node lib s n = ?put (kept_overrides s def ?ovs)"
      by (simp only: strip_node_def NodeData_Instance Some node_data.case option.case)
    have trim: "trimmed_overrides lib s i =
        (if ?ovs = [] \<or> length (kept_overrides s def ?ovs) = length ?ovs then None else Some (kept_overrides s def ?ovs))"
      using assms NodeData_Instance Some by (simp add: trimmed_overrides_def Let_def)
    have "kept_overrides s def ?ovs = ?ovs" if "?ovs = [] \<or> length (kept_overrides s def ?ovs) = length ?ovs"
      using that
    proof
      assume "?ovs = []"
      then show ?thesis by (simp add: kept_overrides_def)
    qed (rule kept_same)
    with eq have same: "?put (kept_overrides s def ?ovs) = n"
      if "?ovs = [] \<or> length (kept_overrides s def ?ovs) = length ?ovs" using that by metis
    have put: "put_overrides k n = ?put k" for k
      by (simp only: put_overrides_simps NodeData_Instance on_instance_def node_data.case)
    show ?thesis
    proof (cases "?ovs = [] \<or> length (kept_overrides s def ?ovs) = length ?ovs")
      case True
      with same[OF True] show ?thesis unfolding strip trim by (simp only: if_True option.case)
    next
      case False
      then show ?thesis unfolding strip trim by (simp only: if_False option.case put)
    qed
  qed
qed (simp_all add: assms trimmed_overrides_def strip_node_def)

lemma resolve_needs_defs: "clib_defs lib = fmempty \<Longrightarrow> resolve_instance_def s lib inst ctx = None"
  by (simp add: resolve_instance_def_def split: option.split)



section \<open>Inferring viewports\<close>

lemma put_viewport_cases:
  "put_viewport sz n = (case cn_data n of
     NodeData_Vector v \<Rightarrow> n\<lparr>cn_data := NodeData_Vector (v\<lparr>vn_local_size := Some sz\<rparr>)\<rparr> | _ \<Rightarrow> n)"
  by (cases n; cases "cn_data n") (simp_all add: put_viewport_def on_data_def)

interpretation backfill: load_pass inferred_viewport put_viewport
proof unfold_locales
  fix s t i and n :: canvas_node and v
  show "keeps_place n (put_viewport v n)"
    by (simp add: keeps_place_def put_viewport_cases split: node_data.split)
  show "can_have_children (put_viewport v n) = can_have_children n"
    by (simp add: can_have_children_def is_group_def is_boolean_def put_viewport_cases split: node_data.split)
  show "inferred_viewport s i = Some v \<Longrightarrow> scene_get s i \<noteq> None"
    by (cases "scene_get s i") (simp_all add: inferred_viewport_def)
  have again: "vector_viewport (put_viewport v n) = None" for v n
    by (cases v) (simp add: vector_viewport_def put_viewport_cases split: node_data.split)
  assume t: "\<And>j. scene_get t j = (case inferred_viewport s j of
      None \<Rightarrow> scene_get s j | Some v \<Rightarrow> map_option (put_viewport v) (scene_get s j))"
  show "inferred_viewport t i = None"
    using again by (cases "scene_get s i"; cases "inferred_viewport s i") (simp_all add: inferred_viewport_def t)
qed

lemma sample_floats:
  "f64_is_finite 0" "f64_is_finite 0x3FF0000000000000" "f64_is_finite 0x4000000000000000"
  "\<not> f64_is_nan 0" "\<not> f64_is_nan 0x3FF0000000000000" "\<not> f64_is_nan 0x4000000000000000" "\<not> f64_is_nan f64_minus_half"
  "f64_signed 0 = 0" "f64_signed 0x3FF0000000000000 = 0x3FF0000000000000" "f64_signed 0x4000000000000000 = 0x4000000000000000"
  "f64_signed f64_minus_half = - 0x3FE0000000000000"
  by (simp_all add: f64_is_finite_def f64_is_nan_def f64_bits_def inf_bits_def f64_signed_def f64_neg_def
      f64_minus_half_def bit_numeral_rec)

text \<open>
  \<open>backfill_vector_viewports\<close> gives exactly the vectors without a viewport that are not marked as
  unclipped, and whose path starts at the origin and has an extent, the far corner of the path's bounds as
  their viewport; every other node stays as it is, the scene stays valid, and a second run changes nothing.
\<close>
theorem backfill_viewports_exact:
  assumes "scene_inv s"
  shows "scene_inv (backfill_vector_viewports s) \<and>
    (\<forall>i. scene_get (backfill_vector_viewports s) i =
       map_option (\<lambda>n. case vector_viewport n of None \<Rightarrow> n | Some sz \<Rightarrow> put_viewport sz n) (scene_get s i)) \<and>
    backfill_vector_viewports (backfill_vector_viewports s) = backfill_vector_viewports s"
proof -
  have "scene_get (backfill_vector_viewports s) i =
      map_option (\<lambda>n. case vector_viewport n of None \<Rightarrow> n | Some sz \<Rightarrow> put_viewport sz n) (scene_get s i)" for i
    by (cases "scene_get s i")
      (simp_all add: backfill_vector_viewports_def backfill.pass_exact(2)[OF assms] inferred_viewport_def split: option.split)
  then show ?thesis
    by (simp add: backfill_vector_viewports_def backfill.pass_exact(1)[OF assms] backfill.pass_once[OF assms])
qed

theorem backfill_viewports_exact_witness:
  "scene_get (backfill_vector_viewports sample_placed_scene) (Id 4) =
     Some (put_viewport (0x3FF0000000000000, 0x4000000000000000) sample_line)"
proof -
  have viewport: "vector_viewport sample_line = Some (0x3FF0000000000000, 0x4000000000000000)"
    by (simp add: vector_viewport_def sample_line_def sample_node_def canvas_node_new_def flag_contains_def
        UNCLIPPED_VECTOR_def rough_bounds_def add_point_def sample_floats point_bounds_def bounds_union_def f64_min_def
        f64_max_def f64_lt_def f64_le_def f64_eq_def f64_bits_def path_new_def)
  have "scene_get (backfill_vector_viewports sample_placed_scene) (Id 4) =
      map_option (\<lambda>n. case vector_viewport n of None \<Rightarrow> n | Some sz \<Rightarrow> put_viewport sz n)
        (scene_get sample_placed_scene (Id 4))"
    using backfill_viewports_exact[OF sample_placed_inv] by blast
  then show ?thesis by (simp only: sample_placed_get option.map option.case viewport)
qed

end
