(* ===== verification/GridPlacement.thy ===== *)
theory GridPlacement
  imports NodeTypes
begin

text \<open>
  The placement of the children of a grid frame, \<open>place_cells\<close> of \<open>crates/fanta-doc/src/layout/grid.rs\<close>. The input is
  the authored cell of each flow child, in order, if it has one. A position of the grid is numbered in
  row-major order, as the cursor of the code counts them. The search for a free cell is a loop with no bound of
  its own: it is a partial function here, and is proved to return.
\<close>

section \<open>The code\<close>

record placed_cell =
  pc_column :: nat
  pc_row :: nat
  pc_column_span :: nat
  pc_row_span :: nat
  pc_horizontal :: grid_align
  pc_vertical :: grid_align

type_synonym occupancy = "bool list list"

definition ensure_rows :: "nat \<Rightarrow> nat \<Rightarrow> occupancy \<Rightarrow> occupancy" where
  "ensure_rows cols n occ = occ @ replicate (n - length occ) (replicate cols False)"

definition mark_span :: "nat \<Rightarrow> nat \<Rightarrow> bool list \<Rightarrow> bool list" where
  "mark_span a n r = map (\<lambda>k. if a \<le> k \<and> k < a + n then True else r ! k) [0..<length r]"

definition mark_cell :: "placed_cell \<Rightarrow> occupancy \<Rightarrow> occupancy" where
  "mark_cell p occ =
     map (\<lambda>r. if pc_row p \<le> r \<and> r < pc_row p + pc_row_span p
              then mark_span (pc_column p) (pc_column_span p) (occ ! r) else occ ! r) [0..<length occ]"

definition authored_cell :: "nat \<Rightarrow> grid_cell \<Rightarrow> placed_cell" where
  \<comment> \<open>the columns are clamped to the grid, the rows are not\<close>
  "authored_cell cols c =
     (let column = min (unat (grid_cell_column c)) (cols - 1) in
      \<lparr>pc_column = column, pc_row = unat (grid_cell_row c),
       pc_column_span = min (max (unat (grid_cell_column_span c)) 1) (cols - column),
       pc_row_span = max (unat (grid_cell_row_span c)) 1,
       pc_horizontal = grid_cell_horizontal c, pc_vertical = grid_cell_vertical c\<rparr>)"

definition place_authored :: "nat \<Rightarrow> grid_cell option \<Rightarrow> occupancy \<Rightarrow> occupancy" where
  "place_authored cols cell occ =
     (case cell of
        None \<Rightarrow> occ
      | Some c \<Rightarrow>
          (let p = authored_cell cols c
           in mark_cell p (ensure_rows cols (pc_row p + pc_row_span p) occ)))"

partial_function (option) find_free ::
  "nat \<Rightarrow> nat \<Rightarrow> occupancy \<Rightarrow> (nat \<times> nat \<times> nat \<times> occupancy) option" where
  \<comment> \<open>the inner loop: the cell found, the cursor after it, and the cells with it taken\<close>
  "find_free cols cursor occ =
     (let row = cursor div cols; column = cursor mod cols; occ = ensure_rows cols (row + 1) occ in
      if \<not> occ ! row ! column then Some (row, column, cursor + 1, occ[row := (occ ! row)[column := True]])
      else find_free cols (cursor + 1) occ)"

definition auto_cell :: "nat \<Rightarrow> nat \<Rightarrow> placed_cell" where
  "auto_cell row column =
     \<lparr>pc_column = column, pc_row = row, pc_column_span = 1, pc_row_span = 1,
      pc_horizontal = GridAlign_Start, pc_vertical = GridAlign_Start\<rparr>"

fun place_auto ::
  "nat \<Rightarrow> placed_cell option list \<Rightarrow> nat \<Rightarrow> occupancy \<Rightarrow> (placed_cell list \<times> occupancy) option" where
  "place_auto cols [] cursor occ = Some ([], occ)"
| "place_auto cols (Some p # slots) cursor occ =
     map_option (\<lambda>(ps, occ'). (p # ps, occ')) (place_auto cols slots cursor occ)"
| "place_auto cols (None # slots) cursor occ =
     Option.bind (find_free cols cursor occ) (\<lambda>(row, column, cursor', occ').
       map_option (\<lambda>(ps, occ''). (auto_cell row column # ps, occ'')) (place_auto cols slots cursor' occ'))"

definition place_cells ::
  "nat \<Rightarrow> grid_track list \<Rightarrow> grid_cell option list \<Rightarrow> (placed_cell list \<times> grid_track list) option" where
  "place_cells cols rows cells =
     map_option (\<lambda>(ps, occ). (ps, rows @ replicate (length occ - length rows) GridTrack_Hug))
       (place_auto cols (map (map_option (authored_cell cols)) cells) 0 (fold (place_authored cols) cells []))"

section \<open>Positions\<close>

definition covers :: "nat \<Rightarrow> placed_cell \<Rightarrow> nat \<Rightarrow> bool" where
  \<comment> \<open>the position lies in the area of the cell\<close>
  "covers cols p q \<longleftrightarrow>
     pc_row p \<le> q div cols \<and> q div cols < pc_row p + pc_row_span p \<and>
     pc_column p \<le> q mod cols \<and> q mod cols < pc_column p + pc_column_span p"

definition unit_cell :: "nat \<Rightarrow> nat \<Rightarrow> placed_cell" where
  "unit_cell cols q = auto_cell (q div cols) (q mod cols)"

definition cell_fits :: "nat \<Rightarrow> nat \<Rightarrow> placed_cell \<Rightarrow> bool" where
  "cell_fits cols n p \<longleftrightarrow>
     0 < pc_column_span p \<and> pc_column p + pc_column_span p \<le> cols \<and>
     0 < pc_row_span p \<and> pc_row p + pc_row_span p \<le> n"

definition taken :: "nat \<Rightarrow> occupancy \<Rightarrow> nat \<Rightarrow> bool" where
  "taken cols occ q \<longleftrightarrow> q div cols < length occ \<and> occ ! (q div cols) ! (q mod cols)"

definition grid_wf :: "nat \<Rightarrow> occupancy \<Rightarrow> bool" where
  "grid_wf cols occ \<longleftrightarrow> (\<forall>r \<in> set occ. length r = cols)"

lemma unit_covers: "covers cols (unit_cell cols q) r \<longleftrightarrow> r = q"
proof
  assume "covers cols (unit_cell cols q) r"
  then have "r div cols = q div cols" "r mod cols = q mod cols"
    by (auto simp: covers_def unit_cell_def auto_cell_def)
  then show "r = q" by (metis div_mult_mod_eq)
qed (simp add: covers_def unit_cell_def auto_cell_def)

lemma unit_cell_inj: "unit_cell cols q = unit_cell cols r \<longleftrightarrow> q = r"
  by (metis unit_covers)

lemma authored_fits: "0 < cols \<Longrightarrow> pc_row (authored_cell cols c) + pc_row_span (authored_cell cols c) \<le> n \<Longrightarrow>
    cell_fits cols n (authored_cell cols c)"
  by (auto simp: authored_cell_def cell_fits_def Let_def)

lemma ensure_rows_exact:
  assumes "grid_wf cols occ" "0 < cols"
  shows "length (ensure_rows cols n occ) = max n (length occ)" "grid_wf cols (ensure_rows cols n occ)"
    "taken cols (ensure_rows cols n occ) q = taken cols occ q"
  using assms by (auto simp: ensure_rows_def grid_wf_def taken_def nth_append)

lemma mark_cell_exact:
  assumes "grid_wf cols occ" "cell_fits cols (length occ) p" "0 < cols"
  shows "length (mark_cell p occ) = length occ" "grid_wf cols (mark_cell p occ)"
    "taken cols (mark_cell p occ) q \<longleftrightarrow> taken cols occ q \<or> covers cols p q"
proof -
  show "length (mark_cell p occ) = length occ" by (simp add: mark_cell_def)
  show "grid_wf cols (mark_cell p occ)" using assms(1) by (auto simp: grid_wf_def mark_cell_def mark_span_def)
  have in_row: "q mod cols < length (occ ! (q div cols))" if "q div cols < length occ"
    using assms(1,3) that by (auto simp: grid_wf_def)
  have "mark_cell p occ ! (q div cols) ! (q mod cols) \<longleftrightarrow> occ ! (q div cols) ! (q mod cols) \<or> covers cols p q"
    if "q div cols < length occ"
    using that in_row[OF that] by (auto simp: covers_def mark_cell_def mark_span_def)
  then show "taken cols (mark_cell p occ) q \<longleftrightarrow> taken cols occ q \<or> covers cols p q"
    using assms(2) by (auto simp: taken_def covers_def cell_fits_def mark_cell_def[of p occ, THEN arg_cong[of _ _ length]])
qed

lemma find_free_exact:
  assumes "grid_wf cols occ" "0 < cols"
  shows "\<exists>q occ'. find_free cols cursor occ = Some (q div cols, q mod cols, q + 1, occ') \<and> cursor \<le> q \<and>
    \<not> taken cols occ q \<and> (\<forall>r. cursor \<le> r \<longrightarrow> r < q \<longrightarrow> taken cols occ r) \<and> grid_wf cols occ' \<and>
    (\<forall>r. taken cols occ' r \<longleftrightarrow> taken cols occ r \<or> r = q) \<and> length occ' = max (q div cols + 1) (length occ)"
  using assms
proof (induction "length occ * cols - cursor" arbitrary: cursor occ rule: less_induct)
  case less
  let ?row = "cursor div cols" and ?col = "cursor mod cols"
  let ?occ = "ensure_rows cols (?row + 1) occ"
  note en = ensure_rows_exact[OF less.prems, of "?row + 1"]
  have row: "?row < length ?occ" using en(1) by simp
  then have wf: "length (?occ ! ?row) = cols" using en(2) by (simp add: grid_wf_def)
  show ?case
  proof (cases "?occ ! ?row ! ?col")
    case False
    let ?new = "?occ[?row := (?occ ! ?row)[?col := True]]"
    have "find_free cols cursor occ = Some (?row, ?col, cursor + 1, ?new)"
      using False by (subst find_free.simps) (simp add: Let_def)
    moreover have "\<not> taken cols occ cursor" using False row en(3)[of cursor] by (simp add: taken_def)
    moreover have "grid_wf cols ?new" using en(2) wf row by (auto simp: grid_wf_def dest: set_update_subset_insert[THEN subsetD])
    moreover have "taken cols ?new r \<longleftrightarrow> taken cols occ r \<or> r = cursor" for r
    proof (cases "r div cols = ?row")
      case True
      have "r mod cols = ?col \<longleftrightarrow> r = cursor" using True by (metis div_mult_mod_eq)
      with True row wf less.prems(2) en(3)[of r] show ?thesis by (auto simp: taken_def nth_list_update)
    next
      case False
      then have "r \<noteq> cursor" by blast
      with False en(3)[of r] show ?thesis by (simp add: taken_def)
    qed
    ultimately show ?thesis using en(1) by (intro exI[of _ cursor] exI[of _ ?new]) simp
  next
    case True
    then have tk: "taken cols occ cursor" using row en(3)[of cursor] by (simp add: taken_def)
    then have same: "?occ = occ" by (simp add: ensure_rows_def taken_def)
    have "cursor < length occ * cols" using tk less.prems(2) by (simp add: taken_def div_less_iff_less_mult)
    then have "length occ * cols - (cursor + 1) < length occ * cols - cursor" by simp
    from less.hyps[OF this less.prems] obtain q occ' where
      "find_free cols (cursor + 1) occ = Some (q div cols, q mod cols, q + 1, occ')" "cursor + 1 \<le> q"
      "\<not> taken cols occ q" "\<forall>r. cursor + 1 \<le> r \<longrightarrow> r < q \<longrightarrow> taken cols occ r" "grid_wf cols occ'"
      "\<forall>r. taken cols occ' r \<longleftrightarrow> taken cols occ r \<or> r = q" "length occ' = max (q div cols + 1) (length occ)" by blast
    moreover have "find_free cols cursor occ = find_free cols (cursor + 1) occ"
      by (subst find_free.simps) (use True in \<open>simp only: Let_def same simp_thms if_False\<close>)
    moreover have "taken cols occ r" if "cursor \<le> r" "r < q" for r
      using that calculation(4) tk by (cases "r = cursor") simp_all
    ultimately show ?thesis by (intro exI[of _ q] exI[of _ occ']) simp
  qed
qed

section \<open>The passes\<close>

definition rows_needed :: "nat \<Rightarrow> placed_cell list \<Rightarrow> bool" where
  \<comment> \<open>the rows are no more than the cells reach\<close>
  "rows_needed n ps \<longleftrightarrow> n = 0 \<or> (\<exists>p \<in> set ps. pc_row p + pc_row_span p = n)"

lemma place_authored_exact:
  assumes "0 < cols" "grid_wf cols occ"
  shows "grid_wf cols (place_authored cols cell occ)"
    and "length (place_authored cols cell occ) =
      (case cell of None \<Rightarrow> length occ
       | Some c \<Rightarrow> max (pc_row (authored_cell cols c) + pc_row_span (authored_cell cols c)) (length occ))"
    and "taken cols (place_authored cols cell occ) q \<longleftrightarrow>
      taken cols occ q \<or> (\<exists>c. cell = Some c \<and> covers cols (authored_cell cols c) q)"
proof -
  have "grid_wf cols (place_authored cols cell occ) \<and>
    length (place_authored cols cell occ) =
      (case cell of None \<Rightarrow> length occ
       | Some c \<Rightarrow> max (pc_row (authored_cell cols c) + pc_row_span (authored_cell cols c)) (length occ)) \<and>
    (taken cols (place_authored cols cell occ) q \<longleftrightarrow>
      taken cols occ q \<or> (\<exists>c. cell = Some c \<and> covers cols (authored_cell cols c) q))"
  proof (cases cell)
    case (Some c)
    let ?p = "authored_cell cols c"
    note en = ensure_rows_exact[OF assms(2,1), of "pc_row ?p + pc_row_span ?p"]
    have "cell_fits cols (length (ensure_rows cols (pc_row ?p + pc_row_span ?p) occ)) ?p"
      using assms(1) by (intro authored_fits) (simp_all add: en(1))
    from mark_cell_exact[OF en(2) this assms(1)] show ?thesis
      by (simp add: Some place_authored_def Let_def en)
  qed (simp_all add: place_authored_def assms)
  then show "grid_wf cols (place_authored cols cell occ)"
    "length (place_authored cols cell occ) =
      (case cell of None \<Rightarrow> length occ
       | Some c \<Rightarrow> max (pc_row (authored_cell cols c) + pc_row_span (authored_cell cols c)) (length occ))"
    "taken cols (place_authored cols cell occ) q \<longleftrightarrow>
      taken cols occ q \<or> (\<exists>c. cell = Some c \<and> covers cols (authored_cell cols c) q)" by blast+
qed

lemma authored_pass_exact:
  assumes "0 < cols" "grid_wf cols occ"
  shows "grid_wf cols (fold (place_authored cols) cells occ)"
    and "taken cols (fold (place_authored cols) cells occ) q \<longleftrightarrow>
      taken cols occ q \<or> (\<exists>c. Some c \<in> set cells \<and> covers cols (authored_cell cols c) q)"
    and "length occ \<le> length (fold (place_authored cols) cells occ)"
    and "\<And>c. Some c \<in> set cells \<Longrightarrow> cell_fits cols (length (fold (place_authored cols) cells occ)) (authored_cell cols c)"
    and "length (fold (place_authored cols) cells occ) = length occ \<or>
      (\<exists>c. Some c \<in> set cells \<and> pc_row (authored_cell cols c) + pc_row_span (authored_cell cols c) =
        length (fold (place_authored cols) cells occ))"
proof -
  have "grid_wf cols (fold (place_authored cols) cells occ) \<and>
    (\<forall>q. taken cols (fold (place_authored cols) cells occ) q \<longleftrightarrow>
      taken cols occ q \<or> (\<exists>c. Some c \<in> set cells \<and> covers cols (authored_cell cols c) q)) \<and>
    length occ \<le> length (fold (place_authored cols) cells occ) \<and>
    (\<forall>c. Some c \<in> set cells \<longrightarrow> pc_row (authored_cell cols c) + pc_row_span (authored_cell cols c) \<le>
      length (fold (place_authored cols) cells occ)) \<and>
    (length (fold (place_authored cols) cells occ) = length occ \<or>
      (\<exists>c. Some c \<in> set cells \<and> pc_row (authored_cell cols c) + pc_row_span (authored_cell cols c) =
        length (fold (place_authored cols) cells occ)))"
    using assms(2)
  proof (induction cells arbitrary: occ)
    case (Cons cell cells)
    note one = place_authored_exact[OF assms(1) Cons.prems, of cell]
    note rest = Cons.IH[OF one(1)]
    have le: "length occ \<le> length (place_authored cols cell occ)" by (simp add: one(2) split: option.split)
    have tk: "taken cols (fold (place_authored cols) (cell # cells) occ) q \<longleftrightarrow>
        taken cols occ q \<or> (\<exists>c. Some c \<in> set (cell # cells) \<and> covers cols (authored_cell cols c) q)" for q
      using rest one(3)[of q] by auto
    have fits: "pc_row (authored_cell cols c) + pc_row_span (authored_cell cols c) \<le>
        length (fold (place_authored cols) (cell # cells) occ)" if "Some c \<in> set (cell # cells)" for c
    proof (cases "cell = Some c")
      case True
      then have "pc_row (authored_cell cols c) + pc_row_span (authored_cell cols c) \<le> length (place_authored cols cell occ)"
        using one(2) by (simp add: True)
      also have "\<dots> \<le> length (fold (place_authored cols) (cell # cells) occ)" using rest by simp
      finally show ?thesis .
    qed (use that rest in auto)
    have grow: "length (place_authored cols cell occ) = length occ \<or>
        (\<exists>c. cell = Some c \<and> pc_row (authored_cell cols c) + pc_row_span (authored_cell cols c) =
          length (place_authored cols cell occ))"
      by (auto simp: one(2) max_def split: option.split)
    have "length (fold (place_authored cols) (cell # cells) occ) = length occ \<or>
        (\<exists>c. Some c \<in> set (cell # cells) \<and> pc_row (authored_cell cols c) + pc_row_span (authored_cell cols c) =
          length (fold (place_authored cols) (cell # cells) occ))"
      using rest grow by auto
    with rest le tk fits show ?case by simp
  qed simp
  then show "grid_wf cols (fold (place_authored cols) cells occ)"
    "taken cols (fold (place_authored cols) cells occ) q \<longleftrightarrow>
      taken cols occ q \<or> (\<exists>c. Some c \<in> set cells \<and> covers cols (authored_cell cols c) q)"
    "length occ \<le> length (fold (place_authored cols) cells occ)"
    "\<And>c. Some c \<in> set cells \<Longrightarrow> cell_fits cols (length (fold (place_authored cols) cells occ)) (authored_cell cols c)"
    "length (fold (place_authored cols) cells occ) = length occ \<or>
      (\<exists>c. Some c \<in> set cells \<and> pc_row (authored_cell cols c) + pc_row_span (authored_cell cols c) =
        length (fold (place_authored cols) cells occ))"
    using authored_fits[OF assms(1)] by blast+
qed

definition auto_at :: "nat \<Rightarrow> nat \<Rightarrow> occupancy \<Rightarrow> placed_cell option list \<Rightarrow> placed_cell list \<Rightarrow> nat \<Rightarrow> nat \<Rightarrow> bool" where
  \<comment> \<open>the \<open>k\<close>-th slot got the first position from the cursor on that no cell before it has\<close>
  "auto_at cols cursor occ slots ps k q \<longleftrightarrow>
     ps ! k = unit_cell cols q \<and> cursor \<le> q \<and> \<not> taken cols occ q \<and>
     (\<forall>j < k. slots ! j = None \<longrightarrow> ps ! j \<noteq> unit_cell cols q) \<and>
     (\<forall>r < q. cursor \<le> r \<longrightarrow> taken cols occ r \<or> (\<exists>j < k. slots ! j = None \<and> ps ! j = unit_cell cols r))"

lemma place_auto_exact:
  assumes "grid_wf cols occ" "0 < cols"
  shows "\<exists>ps occ'. place_auto cols slots cursor occ = Some (ps, occ') \<and> length ps = length slots \<and>
    length occ \<le> length occ' \<and>
    (\<forall>k < length slots. case slots ! k of
       Some p \<Rightarrow> ps ! k = p
     | None \<Rightarrow> (\<exists>q. auto_at cols cursor occ slots ps k q \<and> q div cols < length occ')) \<and>
    (length occ' = length occ \<or> (\<exists>k < length slots. slots ! k = None \<and> pc_row (ps ! k) + pc_row_span (ps ! k) = length occ'))"
  using assms(1)
proof (induction slots arbitrary: cursor occ)
  case (Cons slot slots)
  show ?case
  proof (cases slot)
    case (Some p)
    from Cons.IH[OF Cons.prems, of cursor] obtain ps occ' where
      r: "place_auto cols slots cursor occ = Some (ps, occ')" "length ps = length slots" "length occ \<le> length occ'"
      "\<forall>k < length slots. case slots ! k of Some p \<Rightarrow> ps ! k = p
        | None \<Rightarrow> (\<exists>q. auto_at cols cursor occ slots ps k q \<and> q div cols < length occ')"
      "length occ' = length occ \<or> (\<exists>k < length slots. slots ! k = None \<and> pc_row (ps ! k) + pc_row_span (ps ! k) = length occ')"
      by blast
    have shift: "auto_at cols cursor occ (slot # slots) (p # ps) (Suc k) q" if "auto_at cols cursor occ slots ps k q" for k q
      using that by (simp add: auto_at_def All_less_Suc2 Ex_less_Suc2 Some)
    have "case (slot # slots) ! k of Some p' \<Rightarrow> (p # ps) ! k = p'
        | None \<Rightarrow> (\<exists>q. auto_at cols cursor occ (slot # slots) (p # ps) k q \<and> q div cols < length occ')"
      if "k < length (slot # slots)" for k
    proof (cases k)
      case (Suc i)
      then have "case slots ! i of Some p \<Rightarrow> ps ! i = p
          | None \<Rightarrow> (\<exists>q. auto_at cols cursor occ slots ps i q \<and> q div cols < length occ')" using r(4) that by simp
      with Suc shift show ?thesis by (cases "slots ! i") auto
    qed (simp add: Some)
    moreover have "length occ' = length occ \<or> (\<exists>k < length (slot # slots). (slot # slots) ! k = None \<and>
        pc_row ((p # ps) ! k) + pc_row_span ((p # ps) ! k) = length occ')"
      using r(5) by (auto simp: Ex_less_Suc2 Some)
    ultimately show ?thesis
      using r by (intro exI[of _ "p # ps"] exI[of _ occ']) (simp add: Some)
  next
    case None
    from find_free_exact[OF Cons.prems assms(2), of cursor] obtain q occ1 where
      f: "find_free cols cursor occ = Some (q div cols, q mod cols, q + 1, occ1)" "cursor \<le> q" "\<not> taken cols occ q"
      "\<forall>r. cursor \<le> r \<longrightarrow> r < q \<longrightarrow> taken cols occ r" "grid_wf cols occ1"
      "\<forall>r. taken cols occ1 r \<longleftrightarrow> taken cols occ r \<or> r = q" "length occ1 = max (q div cols + 1) (length occ)" by blast
    from Cons.IH[OF f(5), of "q + 1"] obtain ps occ' where
      r: "place_auto cols slots (q + 1) occ1 = Some (ps, occ')" "length ps = length slots" "length occ1 \<le> length occ'"
      "\<forall>k < length slots. case slots ! k of Some p \<Rightarrow> ps ! k = p
        | None \<Rightarrow> (\<exists>q'. auto_at cols (q + 1) occ1 slots ps k q' \<and> q' div cols < length occ')"
      "length occ' = length occ1 \<or> (\<exists>k < length slots. slots ! k = None \<and> pc_row (ps ! k) + pc_row_span (ps ! k) = length occ')"
      by blast
    let ?ps = "unit_cell cols q # ps"
    have first: "auto_at cols cursor occ (slot # slots) ?ps 0 q"
      using f(2-4) by (simp add: auto_at_def)
    have shift: "auto_at cols cursor occ (slot # slots) ?ps (Suc k) q'" if a: "auto_at cols (q + 1) occ1 slots ps k q'" for k q'
    proof -
      from a have q': "q + 1 \<le> q'" "\<not> taken cols occ q'" "ps ! k = unit_cell cols q'"
        "\<forall>j < k. slots ! j = None \<longrightarrow> ps ! j \<noteq> unit_cell cols q'" using f(6) by (auto simp: auto_at_def)
      have "taken cols occ r \<or> (\<exists>j < Suc k. (slot # slots) ! j = None \<and> ?ps ! j = unit_cell cols r)"
        if "r < q'" "cursor \<le> r" for r
      proof (cases "q + 1 \<le> r")
        case True
        with a that f(6) have "taken cols occ r \<or> r = q \<or> (\<exists>j < k. slots ! j = None \<and> ps ! j = unit_cell cols r)"
          by (auto simp: auto_at_def)
        with True show ?thesis by (auto simp: Ex_less_Suc2)
      next
        case False
        with f(4) that None show ?thesis by (cases "r = q") (auto simp: Ex_less_Suc2)
      qed
      moreover have "\<forall>j < Suc k. (slot # slots) ! j = None \<longrightarrow> ?ps ! j \<noteq> unit_cell cols q'"
        using q' by (auto simp: All_less_Suc2 unit_cell_inj)
      ultimately show ?thesis using q' f(2) by (simp add: auto_at_def)
    qed
    have "case (slot # slots) ! k of Some p' \<Rightarrow> ?ps ! k = p'
        | None \<Rightarrow> (\<exists>q'. auto_at cols cursor occ (slot # slots) ?ps k q' \<and> q' div cols < length occ')"
      if "k < length (slot # slots)" for k
    proof (cases k)
      case 0
      have "q div cols < length occ'" using f(7) r(3) by simp
      with 0 first None show ?thesis by auto
    next
      case (Suc i)
      then have "case slots ! i of Some p \<Rightarrow> ps ! i = p
          | None \<Rightarrow> (\<exists>q'. auto_at cols (q + 1) occ1 slots ps i q' \<and> q' div cols < length occ')" using r(4) that by simp
      with Suc shift show ?thesis by (cases "slots ! i") auto
    qed
    moreover have "length occ' = length occ \<or> (\<exists>k < length (slot # slots). (slot # slots) ! k = None \<and>
        pc_row (?ps ! k) + pc_row_span (?ps ! k) = length occ')"
    proof -
      have "length occ1 = length occ \<or> pc_row (unit_cell cols q) + pc_row_span (unit_cell cols q) = length occ1"
        by (auto simp: f(7) unit_cell_def auto_cell_def)
      with r(5) show ?thesis by (auto simp: Ex_less_Suc2 None)
    qed
    ultimately show ?thesis
      using r f(1,7) by (intro exI[of _ ?ps] exI[of _ occ']) (simp add: None unit_cell_def)
  qed
qed simp

section \<open>The placement\<close>

lemma auto_cell_first:
  assumes same: "\<And>j. j < n \<Longrightarrow> slots ! j = None \<longleftrightarrow> cells ! j = None"
    and auto: "\<And>j. j < n \<Longrightarrow> cells ! j = None \<Longrightarrow> \<exists>q. auto_at cols 0 occ slots ps j q"
    and tk: "\<And>r. taken cols occ r \<longleftrightarrow> (\<exists>j < n. cells ! j \<noteq> None \<and> covers cols (ps ! j) r)"
    and k: "k < n" "cells ! k = None"
  shows "\<exists>q. ps ! k = unit_cell cols q \<and> (\<forall>j < n. j \<noteq> k \<longrightarrow> \<not> covers cols (ps ! j) q) \<and>
    (\<forall>r < q. \<exists>j < n. (j < k \<or> cells ! j \<noteq> None) \<and> covers cols (ps ! j) r)"
proof -
  from auto[OF k] obtain q where q: "auto_at cols 0 occ slots ps k q" by blast
  have "\<not> covers cols (ps ! j) q" if j: "j < n" "j \<noteq> k" for j
  proof (cases "cells ! j")
    case (Some c)
    with j q tk[of q] show ?thesis by (auto simp: auto_at_def)
  next
    case None
    from auto[OF j(1) None] obtain q' where q': "auto_at cols 0 occ slots ps j q'" by blast
    have "q \<noteq> q'"
      using q q' j k None same by (cases "j < k") (auto simp: auto_at_def)
    with q' show ?thesis by (simp add: auto_at_def unit_covers)
  qed
  moreover have "\<exists>j < n. (j < k \<or> cells ! j \<noteq> None) \<and> covers cols (ps ! j) r" if "r < q" for r
  proof (cases "taken cols occ r")
    case True
    with tk[of r] show ?thesis by blast
  next
    case False
    with q that obtain j where "j < k" "ps ! j = unit_cell cols r" by (auto simp: auto_at_def)
    with k(1) show ?thesis by (intro exI[of _ j]) (simp add: unit_covers)
  qed
  ultimately show ?thesis using q by (auto simp: auto_at_def)
qed

text \<open>
  C36. The children of a grid are placed without a loop that does not end, each in its place: an authored cell is
  used with its columns clamped to the grid; a child without one gets a single cell that no other child covers,
  the first in row-major order that is not covered by an authored cell or an earlier child. Every area lies
  within the columns and within the rows, and rows are added, hugging, only as far as the areas reach.
\<close>
theorem place_cells_exact:
  assumes cols: "0 < cols"
  shows "\<exists>ps rows'. place_cells cols rows cells = Some (ps, rows') \<and> length ps = length cells \<and>
    (\<forall>k < length cells. case cells ! k of
       Some c \<Rightarrow> ps ! k = authored_cell cols c
     | None \<Rightarrow> (\<exists>q. ps ! k = unit_cell cols q \<and>
         (\<forall>j < length cells. j \<noteq> k \<longrightarrow> \<not> covers cols (ps ! j) q) \<and>
         (\<forall>r < q. \<exists>j < length cells. (j < k \<or> cells ! j \<noteq> None) \<and> covers cols (ps ! j) r))) \<and>
    (\<forall>p \<in> set ps. cell_fits cols (length rows') p) \<and>
    rows' = rows @ replicate (length rows' - length rows) GridTrack_Hug \<and>
    (length rows < length rows' \<longrightarrow> (\<exists>p \<in> set ps. pc_row p + pc_row_span p = length rows'))"
proof -
  let ?occ0 = "fold (place_authored cols) cells []" and ?slots = "map (map_option (authored_cell cols)) cells"
  have "grid_wf cols []" by (simp add: grid_wf_def)
  note a = authored_pass_exact[OF cols this, where cells = cells]
  from place_auto_exact[OF a(1) cols, of ?slots 0] obtain ps occ where
    p: "place_auto cols ?slots 0 ?occ0 = Some (ps, occ)" "length ps = length cells" "length ?occ0 \<le> length occ"
    "\<forall>k < length cells. case ?slots ! k of Some p \<Rightarrow> ps ! k = p
      | None \<Rightarrow> (\<exists>q. auto_at cols 0 ?occ0 ?slots ps k q \<and> q div cols < length occ)"
    "length occ = length ?occ0 \<or> (\<exists>k < length cells. ?slots ! k = None \<and> pc_row (ps ! k) + pc_row_span (ps ! k) = length occ)"
    by auto
  let ?rows = "rows @ replicate (length occ - length rows) GridTrack_Hug"
  have authored: "ps ! k = authored_cell cols c" if "k < length cells" "cells ! k = Some c" for k c
    using p(4)[rule_format, OF that(1)] that by simp
  have auto: "\<exists>q. auto_at cols 0 ?occ0 ?slots ps k q \<and> q div cols < length occ" if "k < length cells" "cells ! k = None" for k
    using p(4)[rule_format, OF that(1)] that by simp
  have tk: "taken cols ?occ0 r \<longleftrightarrow> (\<exists>j < length cells. cells ! j \<noteq> None \<and> covers cols (ps ! j) r)" for r
    unfolding a(2) in_set_conv_nth using authored by (auto simp: taken_def)
  have fits: "cell_fits cols (length occ) (ps ! k)" if "k < length cells" for k
  proof (cases "cells ! k")
    case None
    from auto[OF that None] obtain q where "ps ! k = unit_cell cols q" "q div cols < length occ" by (auto simp: auto_at_def)
    then show ?thesis using cols by (simp add: cell_fits_def unit_cell_def auto_cell_def Suc_le_eq)
  next
    case (Some c)
    then have "cell_fits cols (length ?occ0) (authored_cell cols c)" using that a(4) by (metis nth_mem)
    with authored[OF that Some] p(3) show ?thesis by (simp add: cell_fits_def)
  qed
  have first: "\<exists>q. ps ! k = unit_cell cols q \<and> (\<forall>j < length cells. j \<noteq> k \<longrightarrow> \<not> covers cols (ps ! j) q) \<and>
      (\<forall>r < q. \<exists>j < length cells. (j < k \<or> cells ! j \<noteq> None) \<and> covers cols (ps ! j) r)"
    if k: "k < length cells" "cells ! k = None" for k
  proof (rule auto_cell_first[where slots = ?slots and occ = ?occ0])
    show "?slots ! j = None \<longleftrightarrow> cells ! j = None" if "j < length cells" for j using that by simp
  qed (use auto tk k in blast)+
  have reach: "\<exists>p \<in> set ps. pc_row p + pc_row_span p = length occ" if "length rows < length occ"
  proof -
    have "\<exists>k < length cells. pc_row (ps ! k) + pc_row_span (ps ! k) = length occ"
    proof (cases "length occ = length ?occ0")
      case True
      with a(5) that obtain c where "Some c \<in> set cells"
        "pc_row (authored_cell cols c) + pc_row_span (authored_cell cols c) = length occ" by auto
      with authored show ?thesis by (metis in_set_conv_nth)
    qed (use p(5) in auto)
    with p(2) show ?thesis by (metis nth_mem)
  qed
  have "place_cells cols rows cells = Some (ps, ?rows)" by (simp add: place_cells_def p(1))
  moreover have "\<forall>k < length cells. case cells ! k of
       Some c \<Rightarrow> ps ! k = authored_cell cols c
     | None \<Rightarrow> (\<exists>q. ps ! k = unit_cell cols q \<and>
         (\<forall>j < length cells. j \<noteq> k \<longrightarrow> \<not> covers cols (ps ! j) q) \<and>
         (\<forall>r < q. \<exists>j < length cells. (j < k \<or> cells ! j \<noteq> None) \<and> covers cols (ps ! j) r))"
    using authored first by (auto split: option.split)
  moreover have "cell_fits cols (length ?rows) p" if "p \<in> set ps" for p
  proof -
    from that p(2) obtain i where "i < length cells" "p = ps ! i" by (auto simp: in_set_conv_nth)
    moreover have "length occ \<le> length ?rows" by simp
    ultimately show ?thesis using fits[of i] unfolding cell_fits_def by (meson le_trans)
  qed
  moreover have "length rows < length ?rows \<longrightarrow> (\<exists>p \<in> set ps. pc_row p + pc_row_span p = length ?rows)"
    using reach by auto
  ultimately show ?thesis using p(2) by (intro exI[of _ ps] exI[of _ ?rows]) simp
qed

theorem place_cells_exact_witness:
  \<comment> \<open>two columns; the second child is authored in the first cell, so the first goes next to it\<close>
  "\<exists>ps rows'. place_cells 2 [] [None, Some \<lparr>grid_cell_column = 0, grid_cell_row = 0, grid_cell_column_span = 1,
      grid_cell_row_span = 1, grid_cell_horizontal = GridAlign_Start, grid_cell_vertical = GridAlign_End\<rparr>] = Some (ps, rows') \<and>
    ps ! 0 = auto_cell 0 1"
proof -
  let ?c = "\<lparr>grid_cell_column = 0, grid_cell_row = 0, grid_cell_column_span = 1,
    grid_cell_row_span = 1, grid_cell_horizontal = GridAlign_Start, grid_cell_vertical = GridAlign_End\<rparr> :: grid_cell"
  have len: "length [None, Some ?c] = 2" by simp
  have "\<exists>ps rows'. place_cells 2 [] [None, Some ?c] = Some (ps, rows') \<and>
    (\<forall>k < 2. case [None, Some ?c] ! k of
       Some c \<Rightarrow> ps ! k = authored_cell 2 c
     | None \<Rightarrow> (\<exists>q. ps ! k = unit_cell 2 q \<and> (\<forall>j < 2. j \<noteq> k \<longrightarrow> \<not> covers 2 (ps ! j) q) \<and>
         (\<forall>r < q. \<exists>j < 2. (j < k \<or> [None, Some ?c] ! j \<noteq> None) \<and> covers 2 (ps ! j) r)))"
    using place_cells_exact[of 2 "[]" "[None, Some ?c]", unfolded len, OF zero_less_numeral] by blast
  then obtain ps rows' where r: "place_cells 2 [] [None, Some ?c] = Some (ps, rows')" and
    all: "\<forall>k < 2. case [None, Some ?c] ! k of
       Some c \<Rightarrow> ps ! k = authored_cell 2 c
     | None \<Rightarrow> (\<exists>q. ps ! k = unit_cell 2 q \<and> (\<forall>j < 2. j \<noteq> k \<longrightarrow> \<not> covers 2 (ps ! j) q) \<and>
         (\<forall>r < q. \<exists>j < 2. (j < k \<or> [None, Some ?c] ! j \<noteq> None) \<and> covers 2 (ps ! j) r))" by blast
  have authored: "ps ! Suc 0 = authored_cell 2 ?c" using all[rule_format, of 1] by simp
  have cov: "covers 2 (authored_cell 2 ?c) q \<longleftrightarrow> q = 0" for q
    by (auto simp: covers_def authored_cell_def)
  from all[rule_format, of 0] obtain q where q: "ps ! 0 = unit_cell 2 q" "\<forall>j < 2. j \<noteq> 0 \<longrightarrow> \<not> covers 2 (ps ! j) q"
    "\<forall>r < q. \<exists>j < 2. (j < 0 \<or> [None, Some ?c] ! j \<noteq> None) \<and> covers 2 (ps ! j) r" by auto
  have "q \<noteq> 0" using q(2)[rule_format, of 1] by (simp add: authored cov)
  moreover have "\<not> 1 < q"
  proof
    assume "1 < q"
    with q(3) obtain j where "j < 2" "[None, Some ?c] ! j \<noteq> None" "covers 2 (ps ! j) 1" by blast
    then show False by (cases "j = 1") (auto simp: authored cov less_2_cases_iff)
  qed
  ultimately have "q = 1" by simp
  with q(1) r show ?thesis by (intro exI[of _ ps] exI[of _ rows']) (simp add: unit_cell_def)
qed

end
