(* ===== verification/StyleSheet.thy ===== *)
theory StyleSheet
  imports TextTokens JsonValues PathResize
begin

text \<open>
  Style sheets, \<open>crates/fanta-doc/src/stylesheet.rs\<close>: the member of a node's JSON each property writes, the
  cascade of rules and local patch over a node's JSON, the removal of what they wrote, and the text style
  claims applied after variables. What \<open>serde_json\<close> does with the types of the document, decoding a literal or a node,
  encoding an address, a variable or an assignment, is a parameter; a message is a string.

  The code edits the JSON value in place and may leave it edited when it fails, so each step returns its
  result and the value as it then is.
\<close>

section \<open>Properties\<close>

definition style_properties :: "style_property list" where
  \<comment> \<open>in the order of the enum\<close>
  "style_properties =
     [StyleProperty_Fill, StyleProperty_Fills, StyleProperty_Background, StyleProperty_BackgroundFills,
      StyleProperty_Strokes, StyleProperty_Opacity, StyleProperty_BlendMode, StyleProperty_Effects,
      StyleProperty_Blurs, StyleProperty_CornerRadius, StyleProperty_CornerRadii,
      StyleProperty_CornerSmoothing, StyleProperty_Typography, StyleProperty_FontFamily,
      StyleProperty_FontSize, StyleProperty_FontWeight, StyleProperty_FontItalic, StyleProperty_LineHeight,
      StyleProperty_LetterSpacing, StyleProperty_Color, StyleProperty_Align, StyleProperty_VerticalAlign,
      StyleProperty_AutoResize, StyleProperty_MaxLines, StyleProperty_Truncate,
      StyleProperty_ParagraphSpacing, StyleProperty_ParagraphIndent, StyleProperty_AutoLayout,
      StyleProperty_Layout, StyleProperty_Padding, StyleProperty_Gap, StyleProperty_Grid,
      StyleProperty_LayoutChild, StyleProperty_Constraints]"

fun style_rank :: "style_property \<Rightarrow> nat" where
  "style_rank StyleProperty_Fill = 0" | "style_rank StyleProperty_Fills = 1"
| "style_rank StyleProperty_Background = 2" | "style_rank StyleProperty_BackgroundFills = 3"
| "style_rank StyleProperty_Strokes = 4" | "style_rank StyleProperty_Opacity = 5"
| "style_rank StyleProperty_BlendMode = 6" | "style_rank StyleProperty_Effects = 7"
| "style_rank StyleProperty_Blurs = 8" | "style_rank StyleProperty_CornerRadius = 9"
| "style_rank StyleProperty_CornerRadii = 10" | "style_rank StyleProperty_CornerSmoothing = 11"
| "style_rank StyleProperty_Typography = 12" | "style_rank StyleProperty_FontFamily = 13"
| "style_rank StyleProperty_FontSize = 14" | "style_rank StyleProperty_FontWeight = 15"
| "style_rank StyleProperty_FontItalic = 16" | "style_rank StyleProperty_LineHeight = 17"
| "style_rank StyleProperty_LetterSpacing = 18" | "style_rank StyleProperty_Color = 19"
| "style_rank StyleProperty_Align = 20" | "style_rank StyleProperty_VerticalAlign = 21"
| "style_rank StyleProperty_AutoResize = 22" | "style_rank StyleProperty_MaxLines = 23"
| "style_rank StyleProperty_Truncate = 24" | "style_rank StyleProperty_ParagraphSpacing = 25"
| "style_rank StyleProperty_ParagraphIndent = 26" | "style_rank StyleProperty_AutoLayout = 27"
| "style_rank StyleProperty_Layout = 28" | "style_rank StyleProperty_Padding = 29"
| "style_rank StyleProperty_Gap = 30" | "style_rank StyleProperty_Grid = 31"
| "style_rank StyleProperty_LayoutChild = 32" | "style_rank StyleProperty_Constraints = 33"

lemma style_unrank: "style_properties ! style_rank p = p"
  by (cases p) (simp_all add: style_properties_def)

lemma style_rank_inj: "style_rank p = style_rank q \<Longrightarrow> p = q"
  using style_unrank by metis

instantiation style_property :: linorder
begin

definition less_eq_style_property :: "style_property \<Rightarrow> style_property \<Rightarrow> bool" where
  "less_eq_style_property p q \<longleftrightarrow> style_rank p \<le> style_rank q"

definition less_style_property :: "style_property \<Rightarrow> style_property \<Rightarrow> bool" where
  "less_style_property p q \<longleftrightarrow> style_rank p < style_rank q"

instance
  by standard (auto simp: less_eq_style_property_def less_style_property_def style_rank_inj)

end

datatype style_error =
    StyleError_UnknownProperty string
  | StyleError_MissingRule style_id
  | StyleError_IncompatibleProperty style_property string
  | StyleError_UnsupportedBinding style_property
  | StyleError_InvalidValue string
  | StyleError_OverlappingProperty string

definition style_names :: "string list" where
  \<comment> \<open>the names serde gives the properties, in the order of the enum\<close>
  "style_names =
     [''fill'', ''fills'', ''background'', ''background_fills'', ''strokes'', ''opacity'', ''blend_mode'', ''effects'',
      ''blurs'', ''corner_radius'', ''corner_radii'', ''corner_smoothing'', ''typography'', ''font_family'',
      ''font_size'', ''font_weight'', ''font_italic'', ''line_height'', ''letter_spacing'', ''color'', ''align'',
      ''vertical_align'', ''auto_resize'', ''max_lines'', ''truncate'', ''paragraph_spacing'',
      ''paragraph_indent'', ''auto_layout'', ''layout'', ''padding'', ''gap'', ''grid'', ''layout_child'', ''constraints'']"

definition style_parse :: "string \<Rightarrow> style_error + style_property" where
  "style_parse name =
     (let name = map (\<lambda>c. if c = CHR ''-'' then CHR ''_'' else c) name;
          name = (if name = ''style'' then ''typography'' else if name = ''size_px'' then ''font_size'' else name)
      in case map_of (zip style_names style_properties) name of
           Some p \<Rightarrow> Inr p | None \<Rightarrow> Inl (StyleError_UnknownProperty name))"

definition style_path :: "style_property \<Rightarrow> string \<Rightarrow> style_error + string list" where
  "style_path p t =
     (let txt = (t = ''text'' \<or> t = ''text_path''); group = (t = ''group'');
          painted = (t = ''vector'' \<or> t = ''boolean''); box_text = (t = ''text'');
          path = (\<lambda>ok q. if ok then Inr q else Inl (StyleError_IncompatibleProperty p t))
      in case p of
           StyleProperty_Fill \<Rightarrow>
             (if txt then Inr [''style'', ''color''] else if group then Inr [''background''] else path painted [''fills''])
         | StyleProperty_Fills \<Rightarrow> path painted [''fills'']
         | StyleProperty_Background \<Rightarrow> path group [''background'']
         | StyleProperty_BackgroundFills \<Rightarrow> path group [''background_fills'']
         | StyleProperty_Strokes \<Rightarrow> path (group \<or> painted) [''strokes'']
         | StyleProperty_Opacity \<Rightarrow> Inr [''opacity'']
         | StyleProperty_BlendMode \<Rightarrow> Inr [''blend_mode'']
         | StyleProperty_Effects \<Rightarrow> Inr [''effects'']
         | StyleProperty_Blurs \<Rightarrow> Inr [''blurs'']
         | StyleProperty_CornerRadius \<Rightarrow> path (group \<or> t = ''vector'') [''corner_radius'']
         | StyleProperty_CornerRadii \<Rightarrow> path (group \<or> t = ''vector'') [''corner_radii'']
         | StyleProperty_CornerSmoothing \<Rightarrow> path (group \<or> t = ''vector'') [''corner_smoothing'']
         | StyleProperty_Typography \<Rightarrow> path txt [''style'']
         | StyleProperty_FontFamily \<Rightarrow> path txt [''style'', ''font_family'']
         | StyleProperty_FontSize \<Rightarrow> path txt [''style'', ''size_px'']
         | StyleProperty_FontWeight \<Rightarrow> path txt [''style'', ''weight'']
         | StyleProperty_FontItalic \<Rightarrow> path txt [''style'', ''italic'']
         | StyleProperty_LineHeight \<Rightarrow> path txt [''style'', ''line_height'']
         | StyleProperty_LetterSpacing \<Rightarrow> path txt [''style'', ''letter_spacing'']
         | StyleProperty_Color \<Rightarrow> path txt [''style'', ''color'']
         | StyleProperty_Align \<Rightarrow> path box_text [''align'']
         | StyleProperty_VerticalAlign \<Rightarrow> path box_text [''vertical_align'']
         | StyleProperty_AutoResize \<Rightarrow> path box_text [''auto_resize'']
         | StyleProperty_MaxLines \<Rightarrow> path box_text [''max_lines'']
         | StyleProperty_Truncate \<Rightarrow> path box_text [''truncate'']
         | StyleProperty_ParagraphSpacing \<Rightarrow> path box_text [''paragraph_spacing'']
         | StyleProperty_ParagraphIndent \<Rightarrow> path box_text [''paragraph_indent'']
         | StyleProperty_AutoLayout \<Rightarrow> path group [''auto_layout'']
         | StyleProperty_Layout \<Rightarrow> path group [''auto_layout'', ''mode'']
         | StyleProperty_Padding \<Rightarrow> path group [''auto_layout'', ''padding'']
         | StyleProperty_Gap \<Rightarrow> path group [''auto_layout'', ''spacing'']
         | StyleProperty_Grid \<Rightarrow> path group [''grid'']
         | StyleProperty_LayoutChild \<Rightarrow> Inr [''layout_child'']
         | StyleProperty_Constraints \<Rightarrow> Inr [''constraints''])"

definition style_binding :: "style_property \<Rightarrow> bound_prop option" where
  "style_binding p =
     (case p of
        StyleProperty_Fill \<Rightarrow> Some (BoundProp_FillColor 0)
      | StyleProperty_Color \<Rightarrow> Some (BoundProp_FillColor 0)
      | StyleProperty_Background \<Rightarrow> Some (BoundProp_FillColor 0)
      | StyleProperty_Opacity \<Rightarrow> Some BoundProp_Opacity
      | StyleProperty_CornerRadius \<Rightarrow> Some BoundProp_CornerRadius
      | StyleProperty_Typography \<Rightarrow> Some BoundProp_TextStyle
      | _ \<Rightarrow> None)"

section \<open>What serde does\<close>

datatype literal_type =
    \<comment> \<open>the types a literal is decoded as\<close>
    LT_Fill | LT_Fills | LT_Color | LT_Strokes | LT_BlendMode | LT_Shadows | LT_Blurs | LT_OptF64 | LT_OptF64x4
  | LT_F64 | LT_F64x4 | LT_TextStyle | LT_String | LT_U16 | LT_Bool | LT_TextAlign | LT_VAlign | LT_TextAutoResize
  | LT_OptU32 | LT_OptAutoLayout | LT_LayoutMode | LT_OptGridLayout | LT_OptLayoutChild | LT_OptConstraints

record style_serde =
  ss_literal :: "literal_type \<Rightarrow> json \<Rightarrow> string option"
  ss_node :: "json \<Rightarrow> string option"
  ss_address :: "bound_prop \<Rightarrow> string + json"
  ss_variable :: "variable_id \<Rightarrow> json"
  ss_assignment :: "style_assignment \<Rightarrow> string + json"

record style_literals =
  \<comment> \<open>\<open>typed_literal\<close> at the five types it is used with\<close>
  sl_string :: "json \<Rightarrow> string + string"
  sl_f64 :: "json \<Rightarrow> string + f64"
  sl_u16 :: "json \<Rightarrow> string + u16"
  sl_bool :: "json \<Rightarrow> string + bool"
  sl_color :: "json \<Rightarrow> string + color"

definition json_as_f64 :: "json \<Rightarrow> f64 option" where
  \<comment> \<open>\<open>Value::as_f64\<close>; an integer is rounded\<close>
  "json_as_f64 v =
     (case v of
        JNumber (PosInt n) \<Rightarrow> Some (f64_of_int (uint n * 2 ^ 1074))
      | JNumber (NegInt i) \<Rightarrow> Some (f64_of_int (sint i * 2 ^ 1074))
      | JNumber (Float f) \<Rightarrow> Some f
      | _ \<Rightarrow> None)"

definition is_number :: "json \<Rightarrow> bool" where
  "is_number v = (case v of JNumber _ \<Rightarrow> True | _ \<Rightarrow> False)"

definition is_array :: "json \<Rightarrow> bool" where
  "is_array v = (case v of JArray _ \<Rightarrow> True | _ \<Rightarrow> False)"

definition has_kind :: "json \<Rightarrow> bool" where
  "has_kind v \<longleftrightarrow> json_member (Some v) ''kind'' \<noteq> None"

definition validate_literal :: "style_serde \<Rightarrow> style_property \<Rightarrow> json \<Rightarrow> style_error + unit" where
  "validate_literal ss p v =
     (let validate = (\<lambda>t. case ss_literal ss t v of None \<Rightarrow> Inr () | Some e \<Rightarrow> Inl (StyleError_InvalidValue e));
          paint = (if v = JNull then Inr () else if is_array v then validate LT_Fills
                   else if has_kind v then validate LT_Fill else validate LT_Color)
      in case p of
           StyleProperty_Fill \<Rightarrow> paint
         | StyleProperty_Background \<Rightarrow> paint
         | StyleProperty_Fills \<Rightarrow> validate LT_Fills
         | StyleProperty_BackgroundFills \<Rightarrow> validate LT_Fills
         | StyleProperty_Strokes \<Rightarrow> validate LT_Strokes
         | StyleProperty_Opacity \<Rightarrow>
             (if (case json_as_f64 v of None \<Rightarrow> False | Some x \<Rightarrow> f64_le 0 x \<and> f64_le x f64_one) then Inr ()
              else Inl (StyleError_InvalidValue ''opacity must be in 0..=1''))
         | StyleProperty_BlendMode \<Rightarrow> validate LT_BlendMode
         | StyleProperty_Effects \<Rightarrow> validate LT_Shadows
         | StyleProperty_Blurs \<Rightarrow> validate LT_Blurs
         | StyleProperty_CornerRadius \<Rightarrow> validate LT_OptF64
         | StyleProperty_CornerRadii \<Rightarrow> validate LT_OptF64x4
         | StyleProperty_Typography \<Rightarrow> validate LT_TextStyle
         | StyleProperty_FontFamily \<Rightarrow> validate LT_String
         | StyleProperty_FontWeight \<Rightarrow> validate LT_U16
         | StyleProperty_FontItalic \<Rightarrow> validate LT_Bool
         | StyleProperty_Truncate \<Rightarrow> validate LT_Bool
         | StyleProperty_Color \<Rightarrow> validate LT_Color
         | StyleProperty_Align \<Rightarrow> validate LT_TextAlign
         | StyleProperty_VerticalAlign \<Rightarrow> validate LT_VAlign
         | StyleProperty_AutoResize \<Rightarrow> validate LT_TextAutoResize
         | StyleProperty_MaxLines \<Rightarrow> validate LT_OptU32
         | StyleProperty_AutoLayout \<Rightarrow> validate LT_OptAutoLayout
         | StyleProperty_Layout \<Rightarrow> validate LT_LayoutMode
         | StyleProperty_Padding \<Rightarrow> validate (if is_number v then LT_F64 else LT_F64x4)
         | StyleProperty_Grid \<Rightarrow> validate LT_OptGridLayout
         | StyleProperty_LayoutChild \<Rightarrow> validate LT_OptLayoutChild
         | StyleProperty_Constraints \<Rightarrow> validate LT_OptConstraints
         | _ \<Rightarrow> validate LT_F64)"

section \<open>Members of a JSON value\<close>

type_synonym edit = "(style_error + unit) \<times> json"

fun set_path :: "json \<Rightarrow> string list \<Rightarrow> json \<Rightarrow> edit" where
  "set_path v [] lit = (Inl (StyleError_InvalidValue ''empty property path''), v)"
| "set_path v (k # rest) lit =
     (case v of
        JObject m \<Rightarrow>
          (if rest = [] then (Inr (), JObject (jmap_insert k lit m))
           else (let child = (case map_of m k of None \<Rightarrow> JObject [] | Some c \<Rightarrow> if c = JNull then JObject [] else c);
                     (r, child') = set_path child rest lit
                 in (r, JObject (jmap_insert k child' m))))
      | _ \<Rightarrow> (Inl (StyleError_InvalidValue ''property parent is not an object''), v))"

fun remove_path :: "json \<Rightarrow> string list \<Rightarrow> json" where
  "remove_path v [] = v"
| "remove_path v (k # rest) =
     (case v of
        JObject m \<Rightarrow>
          (if rest = [] then JObject (jmap_remove k m)
           else (case map_of m k of None \<Rightarrow> v | Some c \<Rightarrow> JObject (jmap_insert k (remove_path c rest) m)))
      | _ \<Rightarrow> v)"

definition pair_address :: "json \<Rightarrow> json option" where
  \<comment> \<open>\<open>pair.as_array().and_then(|pair| pair.first())\<close>\<close>
  "pair_address v = (case v of JArray (a # _) \<Rightarrow> Some a | _ \<Rightarrow> None)"

definition drop_address :: "json \<Rightarrow> json list \<Rightarrow> json list" where
  "drop_address a ps = filter (\<lambda>p. \<not> json_opt_eq (pair_address p) (Some a)) ps"

definition edit_bindings ::
  "style_serde \<Rightarrow> string \<Rightarrow> string \<Rightarrow> bound_prop \<Rightarrow> variable_id option \<Rightarrow> json \<Rightarrow> edit" where
  \<comment> \<open>the entry \<open>bindings\<close>, made when missing, without the pairs of the property, and with a new pair at its end\<close>
  "edit_bindings ss no_object no_array p var v =
     (case v of
        JObject m \<Rightarrow>
          (let old = (case map_of m ''bindings'' of None \<Rightarrow> JArray [] | Some b \<Rightarrow> b) in
           case old of
             JArray ps \<Rightarrow>
               (case ss_address ss p of
                  Inl e \<Rightarrow> (Inl (StyleError_InvalidValue e), JObject (jmap_insert ''bindings'' old m))
                | Inr a \<Rightarrow>
                    (Inr (), JObject (jmap_insert ''bindings'' (JArray (drop_address a ps @
                       (case var of None \<Rightarrow> [] | Some x \<Rightarrow> [JArray [a, ss_variable ss x]]))) m)))
           | _ \<Rightarrow> (Inl (StyleError_InvalidValue no_array), v))
      | _ \<Rightarrow> (Inl (StyleError_InvalidValue no_object), v))"

section \<open>The cascade\<close>

definition style_literal :: "style_property \<Rightarrow> string \<Rightarrow> json \<Rightarrow> json" where
  \<comment> \<open>the literal as it is written\<close>
  "style_literal p t v =
     (let l1 = (if (p = StyleProperty_Fill \<or> p = StyleProperty_Background) \<and> t = ''group'' \<and> v \<noteq> JNull \<and> \<not> has_kind v
                then JObject [(''kind'', JString ''solid''), (''color'', v)] else v);
          l2 = (if p = StyleProperty_Fill \<and> (t = ''vector'' \<or> t = ''boolean'' \<or> t = ''bitmap'' \<or> t = ''video'')
                then (if is_array l1 then l1 else if has_kind l1 then JArray [l1]
                      else JArray [JObject [(''kind'', JString ''solid''), (''color'', l1)]])
                else l1)
      in if p = StyleProperty_Padding \<and> is_number l2 then JArray [l2, l2, l2, l2] else l2)"

definition dotted :: "string list \<Rightarrow> string" where
  \<comment> \<open>\<open>path.join(".")\<close>\<close>
  "dotted path = (case path of [] \<Rightarrow> [] | k # ks \<Rightarrow> k @ concat (map (\<lambda>s. ''.'' @ s) ks))"

definition comparable :: "string list \<Rightarrow> string list \<Rightarrow> bool" where
  "comparable p q \<longleftrightarrow> prefix p q \<or> prefix q p"

definition write_claim :: "style_serde \<Rightarrow> string \<Rightarrow> style_property \<Rightarrow> style_declaration \<Rightarrow> string list \<Rightarrow> json \<Rightarrow> edit" where
  "write_claim ss t p d path v =
     (case set_path v path (style_literal p t (style_declaration_value d)) of
        (Inl e, v') \<Rightarrow> (Inl e, v')
      | (Inr _, v') \<Rightarrow>
          (case style_binding p of
             Some b \<Rightarrow>
               edit_bindings ss ''node is not an object'' ''bindings must be a pair array'' b
                 (style_declaration_binding d) v'
           | None \<Rightarrow>
               (if style_declaration_binding d \<noteq> None then (Inl (StyleError_UnsupportedBinding p), v')
                else (Inr (), v'))))"

fun apply_declarations ::
  "style_serde \<Rightarrow> string \<Rightarrow> bool \<Rightarrow> (style_property \<times> style_declaration) list \<Rightarrow> string list list \<Rightarrow> json \<Rightarrow> edit" where
  \<comment> \<open>\<open>paths\<close> are those of the declarations before\<close>
  "apply_declarations ss t reject [] paths v = (Inr (), v)"
| "apply_declarations ss t reject ((p, d) # ds) paths v =
     (case validate_literal ss p (style_declaration_value d) of
        Inl e \<Rightarrow> (Inl e, v)
      | Inr _ \<Rightarrow>
          (case style_path p t of
             Inl e \<Rightarrow> (Inl e, v)
           | Inr path \<Rightarrow>
               (if reject \<and> list_ex (comparable path) paths
                then (Inl (StyleError_OverlappingProperty (dotted path)), v)
                else (case write_claim ss t p d path v of
                        (Inl e, v') \<Rightarrow> (Inl e, v')
                      | (Inr _, v') \<Rightarrow> apply_declarations ss t reject ds (paths @ [path]) v'))))"

definition declarations :: "(style_property, style_declaration) fmap \<Rightarrow> (style_property \<times> style_declaration) list" where
  \<comment> \<open>iteration over a \<open>BTreeMap\<close>\<close>
  "declarations ds = map (\<lambda>p. (p, the (fmlookup ds p))) (fm_keys ds)"

fun apply_rules :: "style_serde \<Rightarrow> style_registry \<Rightarrow> string \<Rightarrow> style_id list \<Rightarrow> json \<Rightarrow> edit" where
  "apply_rules ss reg t [] v = (Inr (), v)"
| "apply_rules ss reg t (i # is) v =
     (case fmlookup (style_registry_rules reg) i of
        None \<Rightarrow> (Inl (StyleError_MissingRule i), v)
      | Some rule \<Rightarrow>
          (case apply_declarations ss t True (declarations (style_rule_declarations rule)) [] v of
             (Inl e, v') \<Rightarrow> (Inl e, v')
           | (Inr _, v') \<Rightarrow> apply_rules ss reg t is v'))"

fun apply_overrides :: "style_serde \<Rightarrow> (bound_prop \<times> variable_id) list \<Rightarrow> json \<Rightarrow> edit" where
  "apply_overrides ss [] v = (Inr (), v)"
| "apply_overrides ss ((p, x) # os) v =
     (case edit_bindings ss ''node must be an object'' ''bindings must be an array'' p (Some x) v of
        (Inl e, v') \<Rightarrow> (Inl e, v') | (Inr _, v') \<Rightarrow> apply_overrides ss os v')"

definition node_type_of :: "json \<Rightarrow> string option" where
  "node_type_of v = (case json_member (Some v) ''type'' of Some (JString t) \<Rightarrow> Some t | _ \<Rightarrow> None)"

definition finish_compile :: "style_serde \<Rightarrow> style_assignment \<Rightarrow> json \<Rightarrow> edit" where
  "finish_compile ss asg v =
     (case v of
        JObject m \<Rightarrow>
          (case ss_assignment ss asg of
             Inl e \<Rightarrow> (Inl (StyleError_InvalidValue e), v)
           | Inr a \<Rightarrow>
               (let v' = JObject (jmap_insert ''style_assignment'' a m)
                in (case ss_node ss v' of None \<Rightarrow> Inr () | Some e \<Rightarrow> Inl (StyleError_InvalidValue e), v')))
      | _ \<Rightarrow> (Inl (StyleError_InvalidValue ''node must be an object''), v))"

definition and_then :: "edit \<Rightarrow> (json \<Rightarrow> edit) \<Rightarrow> edit" where
  \<comment> \<open>the operator \<open>?\<close>\<close>
  "and_then e f = (case e of (Inl x, v) \<Rightarrow> (Inl x, v) | (Inr _, v) \<Rightarrow> f v)"

definition compile_node_value :: "style_serde \<Rightarrow> style_registry \<Rightarrow> style_assignment \<Rightarrow> json \<Rightarrow> edit" where
  "compile_node_value ss reg asg v =
     (case node_type_of v of
        None \<Rightarrow> (Inl (StyleError_InvalidValue ''node type is missing''), v)
      | Some t \<Rightarrow>
          and_then (apply_rules ss reg t (style_assignment_style_ids asg) v) (\<lambda>v.
          and_then (apply_declarations ss t False (declarations (style_assignment_local_patch asg)) [] v) (\<lambda>v.
          and_then (apply_overrides ss
                      (map (\<lambda>p. (p, the (fmlookup (style_assignment_binding_overrides asg) p)))
                        (fm_keys (style_assignment_binding_overrides asg))) v)
            (finish_compile ss asg))))"

section \<open>What the author wrote\<close>

fun strip_declared :: "string \<Rightarrow> style_property list \<Rightarrow> json \<Rightarrow> style_error + json" where
  "strip_declared t [] v = Inr v"
| "strip_declared t (p # ps) v =
     (case style_path p t of Inl e \<Rightarrow> Inl e | Inr path \<Rightarrow> strip_declared t ps (remove_path v path))"

fun strip_rules :: "style_registry \<Rightarrow> string \<Rightarrow> style_id list \<Rightarrow> json \<Rightarrow> style_error + json" where
  "strip_rules reg t [] v = Inr v"
| "strip_rules reg t (i # is) v =
     (case fmlookup (style_registry_rules reg) i of
        None \<Rightarrow> Inl (StyleError_MissingRule i)
      | Some rule \<Rightarrow>
          (case strip_declared t (fm_keys (style_rule_declarations rule)) v of
             Inl e \<Rightarrow> Inl e | Inr v' \<Rightarrow> strip_rules reg t is v'))"

definition authored_bindings :: "style_assignment \<Rightarrow> bound_prop list" where
  \<comment> \<open>the keys of \<open>authored\<close>\<close>
  "authored_bindings asg =
     List.map_filter (\<lambda>(p, d). if style_declaration_binding d = None then None else style_binding p)
       (declarations (style_assignment_local_patch asg))"

fun drop_rule_bindings :: "style_serde \<Rightarrow> bound_prop list \<Rightarrow> json list \<Rightarrow> style_error + json list" where
  "drop_rule_bindings ss [] ps = Inr ps"
| "drop_rule_bindings ss (b # bs) ps =
     (case ss_address ss b of
        Inl e \<Rightarrow> Inl (StyleError_InvalidValue e)
      | Inr a \<Rightarrow> drop_rule_bindings ss bs (drop_address a ps))"

fun drop_rules_bindings ::
  "style_serde \<Rightarrow> style_registry \<Rightarrow> style_assignment \<Rightarrow> style_id list \<Rightarrow> json list \<Rightarrow> style_error + json list" where
  "drop_rules_bindings ss reg asg [] ps = Inr ps"
| "drop_rules_bindings ss reg asg (i # is) ps =
     (case fmlookup (style_registry_rules reg) i of
        None \<Rightarrow> Inl (StyleError_MissingRule i)
      | Some rule \<Rightarrow>
          (case drop_rule_bindings ss
                  (filter (\<lambda>b. b \<notin> set (authored_bindings asg) \<and>
                               fmlookup (style_assignment_binding_overrides asg) b = None)
                    (List.map_filter style_binding (fm_keys (style_rule_declarations rule)))) ps of
             Inl e \<Rightarrow> Inl e | Inr ps' \<Rightarrow> drop_rules_bindings ss reg asg is ps'))"

definition authored_node_value :: "style_serde \<Rightarrow> style_registry \<Rightarrow> style_assignment \<Rightarrow> json \<Rightarrow> style_error + json" where
  \<comment> \<open>on the JSON of a node; the encoding before it may fail with a message of its own\<close>
  "authored_node_value ss reg asg v =
     (case node_type_of v of
        None \<Rightarrow> Inl (StyleError_InvalidValue ''missing node type'')
      | Some t \<Rightarrow>
          (case strip_rules reg t (style_assignment_style_ids asg) v of
             Inl e \<Rightarrow> Inl e
           | Inr v1 \<Rightarrow>
               (case strip_declared t (fm_keys (style_assignment_local_patch asg)) v1 of
                  Inl e \<Rightarrow> Inl e
                | Inr v2 \<Rightarrow>
                    (case (v2, json_member (Some v2) ''bindings'') of
                       (JObject m, Some (JArray ps)) \<Rightarrow>
                         (case drop_rules_bindings ss reg asg (style_assignment_style_ids asg) ps of
                            Inl e \<Rightarrow> Inl e
                          | Inr ps' \<Rightarrow> Inr (JObject (jmap_insert ''bindings'' (JArray ps') m)))
                     | _ \<Rightarrow> Inr v2))))"

section \<open>Claims after variables\<close>

type_synonym claims = "(style_property, style_declaration) fmap"

definition claim_below :: "string \<Rightarrow> string list \<Rightarrow> style_property \<Rightarrow> bool" where
  \<comment> \<open>the property writes at or below the path\<close>
  "claim_below t path q = (case style_path q t of Inl _ \<Rightarrow> False | Inr q' \<Rightarrow> prefix path q')"

fun merge_claims :: "string \<Rightarrow> (style_property \<times> style_declaration) list \<Rightarrow> claims \<Rightarrow> style_error + claims" where
  "merge_claims t [] cs = Inr cs"
| "merge_claims t ((p, d) # ds) cs =
     (case style_path p t of
        Inl e \<Rightarrow> Inl e
      | Inr path \<Rightarrow> merge_claims t ds (fmupd p d (fmfilter (\<lambda>q. \<not> claim_below t path q) cs)))"

fun merge_rules :: "style_registry \<Rightarrow> string \<Rightarrow> style_id list \<Rightarrow> claims \<Rightarrow> style_error + claims" where
  "merge_rules reg t [] cs = Inr cs"
| "merge_rules reg t (i # is) cs =
     (case fmlookup (style_registry_rules reg) i of
        None \<Rightarrow> Inl (StyleError_MissingRule i)
      | Some rule \<Rightarrow>
          (case merge_claims t (declarations (style_rule_declarations rule)) cs of
             Inl e \<Rightarrow> Inl e | Inr cs' \<Rightarrow> merge_rules reg t is cs'))"

definition literal_claim :: "style_assignment \<Rightarrow> style_property \<Rightarrow> style_declaration \<Rightarrow> bool" where
  \<comment> \<open>what \<open>retain\<close> keeps\<close>
  "literal_claim asg p d \<longleftrightarrow>
     style_declaration_binding d = None \<and>
     (case style_binding p of
        None \<Rightarrow> True | Some b \<Rightarrow> fmlookup (style_assignment_binding_overrides asg) b = None)"

definition write_style :: "style_literals \<Rightarrow> style_property \<Rightarrow> json \<Rightarrow> text_style \<Rightarrow> style_error + text_style" where
  "write_style sl p v st =
     (let color = (case sl_color sl v of Inl e \<Rightarrow> Inl (StyleError_InvalidValue e) | Inr c \<Rightarrow> Inr (st\<lparr>ts_color := c\<rparr>));
          number = (\<lambda>f. case sl_f64 sl v of Inl e \<Rightarrow> Inl (StyleError_InvalidValue e) | Inr x \<Rightarrow> Inr (f x))
      in case p of
           StyleProperty_FontFamily \<Rightarrow>
             (case sl_string sl v of Inl e \<Rightarrow> Inl (StyleError_InvalidValue e) | Inr s \<Rightarrow> Inr (st\<lparr>ts_font_family := s\<rparr>))
         | StyleProperty_FontSize \<Rightarrow> number (\<lambda>x. st\<lparr>ts_size_px := x\<rparr>)
         | StyleProperty_FontWeight \<Rightarrow>
             (case sl_u16 sl v of Inl e \<Rightarrow> Inl (StyleError_InvalidValue e) | Inr w \<Rightarrow> Inr (st\<lparr>ts_weight := w\<rparr>))
         | StyleProperty_FontItalic \<Rightarrow>
             (case sl_bool sl v of Inl e \<Rightarrow> Inl (StyleError_InvalidValue e) | Inr b \<Rightarrow> Inr (st\<lparr>ts_italic := b\<rparr>))
         | StyleProperty_LineHeight \<Rightarrow> number (\<lambda>x. st\<lparr>ts_line_height := x\<rparr>)
         | StyleProperty_LetterSpacing \<Rightarrow> number (\<lambda>x. st\<lparr>ts_letter_spacing := x\<rparr>)
         | StyleProperty_Color \<Rightarrow> color
         | StyleProperty_Fill \<Rightarrow> color
         | _ \<Rightarrow> Inr st)"

fun write_styles :: "style_literals \<Rightarrow> (style_property \<times> style_declaration) list \<Rightarrow> text_style \<Rightarrow> style_error + text_style" where
  "write_styles sl [] st = Inr st"
| "write_styles sl ((p, d) # ds) st =
     (case write_style sl p (style_declaration_value d) st of
        Inl e \<Rightarrow> Inl e | Inr st' \<Rightarrow> write_styles sl ds st')"

definition assignment_is_empty :: "style_assignment \<Rightarrow> bool" where
  "assignment_is_empty asg \<longleftrightarrow>
     style_assignment_style_ids asg = [] \<and> style_assignment_local_patch asg = fmempty \<and>
     style_assignment_binding_overrides asg = fmempty"

definition literal_claims :: "style_registry \<Rightarrow> style_assignment \<Rightarrow> string \<Rightarrow> style_error + claims" where
  "literal_claims reg asg t =
     (case merge_rules reg t (style_assignment_style_ids asg) fmempty of
        Inl e \<Rightarrow> Inl e
      | Inr cs \<Rightarrow>
          (case merge_claims t (declarations (style_assignment_local_patch asg)) cs of
             Inl e \<Rightarrow> Inl e
           | Inr cs' \<Rightarrow>
               Inr (fmfilter (\<lambda>p. case fmlookup cs' p of None \<Rightarrow> False | Some d \<Rightarrow> literal_claim asg p d) cs')))"

definition apply_local_patch_after_bindings ::
  "style_literals \<Rightarrow> style_registry \<Rightarrow> canvas_node \<Rightarrow> style_error + canvas_node" where
  "apply_local_patch_after_bindings sl reg n =
     (let asg = cn_style_assignment n;
          written = (\<lambda>t st put.
            case literal_claims reg asg t of
              Inl e \<Rightarrow> Inl e
            | Inr cs \<Rightarrow>
                (case write_styles sl (declarations cs) st of
                   Inl e \<Rightarrow> Inl e | Inr st' \<Rightarrow> Inr (n\<lparr>cn_data := put st'\<rparr>)))
      in if assignment_is_empty asg then Inr n
         else (case cn_data n of
                 NodeData_Text x \<Rightarrow> written ''text'' (tn_style x) (\<lambda>st. NodeData_Text (x\<lparr>tn_style := st\<rparr>))
               | NodeData_TextPath x \<Rightarrow> written ''text_path'' (tp_style x) (\<lambda>st. NodeData_TextPath (x\<lparr>tp_style := st\<rparr>))
               | _ \<Rightarrow> Inr n))"

end
