(* ===== verification/StyleProps.thy ===== *)
theory StyleProps
  imports StyleSheet
begin

text \<open>
  What the style sheets promise, \<open>crates/fanta-doc/src/stylesheet.rs\<close>: after a successful compilation every
  member holds the literal of the last declaration that claims it, and nothing else of the node has changed, its
  identity least of all; the authored value has none of the claimed members and everything else.
\<close>

section \<open>Writing and removing a member\<close>

lemma comparable_Cons [simp]: "comparable (k # p) (l # q) \<longleftrightarrow> k = l \<and> comparable p q"
  and comparable_Nil [simp]: "comparable [] q" "comparable q []"
  by (auto simp: comparable_def)

lemma comparable_sym: "comparable p q \<longleftrightarrow> comparable q p"
  by (auto simp: comparable_def)

lemma set_path_exact:
  assumes "set_path v path lit = (Inr (), v')"
  shows "json_at (Some v') path = Some lit"
    and "\<not> comparable path q \<Longrightarrow> json_at (Some v') q = json_at (Some v) q"
proof -
  have "json_at (Some v') path = Some lit \<and> (\<forall>q. \<not> comparable path q \<longrightarrow> json_at (Some v') q = json_at (Some v) q)"
    using assms
  proof (induction v path lit arbitrary: v' rule: set_path.induct)
    case (2 v k rest lit)
    then obtain m where m: "v = JObject m" by (cases v) auto
    show ?case
    proof (cases "rest = []")
      case True
      with 2 m have v': "v' = JObject (jmap_insert k lit m)" by simp
      have "json_at (Some v') q = json_at (Some v) q" if "\<not> comparable (k # rest) q" for q
        using that by (cases q) (auto simp: m v' True)
      with v' True show ?thesis by simp
    next
      case False
      let ?child = "case map_of m k of None \<Rightarrow> JObject [] | Some c \<Rightarrow> if c = JNull then JObject [] else c"
      from 2 m False obtain c where c: "set_path ?child rest lit = (Inr (), c)" "v' = JObject (jmap_insert k c m)"
        by (auto split: prod.splits)
      note IH = 2(1)[OF m False refl c(1)]
      have empty: "json_at (Some ?child) q = json_at (map_of m k) q" if "q \<noteq> []" for q
        using that by (cases q) (auto split: option.split)
      have "json_at (Some v') q = json_at (Some v) q" if q: "\<not> comparable (k # rest) q" for q
      proof (cases q)
        case (Cons l q')
        show ?thesis
        proof (cases "l = k")
          case True
          with q Cons have "\<not> comparable rest q'" "q' \<noteq> []" by auto
          with IH empty Cons True m c(2) show ?thesis by simp
        qed (simp add: Cons m c(2))
      qed (use q in simp)
      with IH c(2) show ?thesis by simp
    qed
  qed simp
  then show "json_at (Some v') path = Some lit"
    "\<not> comparable path q \<Longrightarrow> json_at (Some v') q = json_at (Some v) q" by blast+
qed

lemma json_ok_object:
  assumes "distinct (map fst m)"
  shows "json_ok (JObject m) \<longleftrightarrow> (\<forall>k w. map_of m k = Some w \<longrightarrow> json_ok w)"
  using assms by (auto simp: list_all_iff dest: map_of_SomeD)

lemma json_ok_insert: "json_ok (JObject m) \<Longrightarrow> json_ok w \<Longrightarrow> json_ok (JObject (jmap_insert k w m))"
  using json_ok_object[of m] json_ok_object[OF distinct_jmap_insert, of m k w] by (auto split: if_splits)

lemma json_ok_remove: "json_ok (JObject m) \<Longrightarrow> json_ok (JObject (jmap_remove k m))"
  using json_ok_object[of m] json_ok_object[OF distinct_jmap_remove, of m k] map_of_jmap_remove[of m k]
  by (auto split: if_splits)

lemma remove_path_exact:
  assumes "json_ok v" "path \<noteq> []"
  shows "json_ok (remove_path v path)" and "json_at (Some (remove_path v path)) path = None"
    and "\<not> comparable path q \<Longrightarrow> json_at (Some (remove_path v path)) q = json_at (Some v) q"
proof -
  have "json_ok (remove_path v path) \<and> json_at (Some (remove_path v path)) path = None \<and>
      (\<forall>q. \<not> comparable path q \<longrightarrow> json_at (Some (remove_path v path)) q = json_at (Some v) q)"
    using assms
  proof (induction v path rule: remove_path.induct)
    case (2 v k rest)
    show ?case
    proof (cases "\<exists>m. v = JObject m")
      case False
      then show ?thesis using 2 by (cases v) auto
    next
      case True
      then obtain m where m: "v = JObject m" by blast
      with 2 have d: "distinct (map fst m)" by simp
      show ?thesis
      proof (cases "rest = []")
        case True
        have "json_at (Some (JObject (jmap_remove k m))) q = json_at (Some v) q" if "\<not> comparable [k] q" for q
          using that by (cases q) (auto simp: m map_of_jmap_remove[OF d])
        with True 2 m show ?thesis by (simp add: json_ok_remove map_of_jmap_remove[OF d] del: json_ok_simps)
      next
        case False
        show ?thesis
        proof (cases "map_of m k")
          case None
          with False m 2 show ?thesis by simp
        next
          case (Some c)
          with 2 m have "json_ok c" using json_ok_object[OF d] by simp
          note IH = 2(1)[OF m False Some this False]
          have "json_at (Some (JObject (jmap_insert k (remove_path c rest) m))) q = json_at (Some v) q"
            if q: "\<not> comparable (k # rest) q" for q
            using q IH Some by (cases q) (auto simp: m)
          with IH Some False m 2 show ?thesis by (simp add: json_ok_insert del: json_ok_simps)
        qed
      qed
    qed
  qed simp
  then show "json_ok (remove_path v path)" "json_at (Some (remove_path v path)) path = None"
    "\<not> comparable path q \<Longrightarrow> json_at (Some (remove_path v path)) q = json_at (Some v) q" by blast+
qed

lemma remove_path_keeps_none:
  assumes "json_ok v" "json_at (Some v) q = None"
  shows "json_at (Some (remove_path v path)) q = None"
  using assms
proof (induction v path arbitrary: q rule: remove_path.induct)
  case (2 v k rest)
  show ?case
  proof (cases "\<exists>m. v = JObject m")
    case True
    then obtain m where m: "v = JObject m" by blast
    with 2 have d: "distinct (map fst m)" by simp
    from 2(3) m obtain l q' where q: "q = l # q'" by (cases q) simp_all
    show ?thesis
    proof (cases "rest = []")
      case True
      with 2(3) m q show ?thesis by (simp add: map_of_jmap_remove[OF d])
    next
      case False
      show ?thesis
      proof (cases "map_of m k")
        case (Some c)
        with 2 m have "json_ok c" using json_ok_object[OF d] by simp
        with 2(1)[OF m False Some this, of q'] 2(3) Some False m q show ?thesis by (cases "l = k") auto
      qed (use 2(3) False m in simp)
    qed
  qed (use 2(3) in \<open>cases v; simp\<close>)
qed simp

section \<open>Paths of properties\<close>

definition style_heads :: "string set" where
  \<comment> \<open>what the engine writes beside the claims, and what identifies a node\<close>
  "style_heads = {''bindings'', ''style_assignment'', ''id'', ''type'', ''parent'', ''index''}"

lemma head_free: "k # ks = path \<Longrightarrow> k \<notin> style_heads \<Longrightarrow> path \<noteq> [] \<and> hd path \<notin> style_heads" by auto

lemma heads_free: "''style'' \<notin> style_heads" "''background'' \<notin> style_heads" "''fills'' \<notin> style_heads" "''background_fills'' \<notin> style_heads"
  "''strokes'' \<notin> style_heads" "''opacity'' \<notin> style_heads" "''blend_mode'' \<notin> style_heads" "''effects'' \<notin> style_heads"
  "''blurs'' \<notin> style_heads" "''corner_radius'' \<notin> style_heads" "''corner_radii'' \<notin> style_heads" "''corner_smoothing'' \<notin> style_heads"
  "''align'' \<notin> style_heads" "''vertical_align'' \<notin> style_heads" "''auto_resize'' \<notin> style_heads" "''max_lines'' \<notin> style_heads"
  "''truncate'' \<notin> style_heads" "''paragraph_spacing'' \<notin> style_heads" "''paragraph_indent'' \<notin> style_heads" "''auto_layout'' \<notin> style_heads"
  "''grid'' \<notin> style_heads" "''layout_child'' \<notin> style_heads" "''constraints'' \<notin> style_heads"
  by (simp_all add: style_heads_def)

lemma style_path_head: "style_path p t = Inr path \<Longrightarrow> path \<noteq> [] \<and> hd path \<notin> style_heads"
  apply (induct p)
  apply (simp_all only: style_path_def Let_def style_property.case sum.inject sum.distinct simp_thms split: if_split_asm)
  apply (erule head_free, rule heads_free)+
  done

definition claim_path :: "string \<Rightarrow> style_property \<Rightarrow> string list" where
  "claim_path t p = (case style_path p t of Inl _ \<Rightarrow> [] | Inr path \<Rightarrow> path)"

definition claim_literal :: "string \<Rightarrow> style_property \<times> style_declaration \<Rightarrow> json" where
  "claim_literal t c = style_literal (fst c) t (style_declaration_value (snd c))"

definition cascade :: "style_registry \<Rightarrow> style_assignment \<Rightarrow> (style_property \<times> style_declaration) list" where
  \<comment> \<open>the declarations in the order they are written: the rules in their order, then the local patch\<close>
  "cascade reg asg =
     concat (map (\<lambda>i. case fmlookup (style_registry_rules reg) i of
                        None \<Rightarrow> [] | Some rule \<Rightarrow> declarations (style_rule_declarations rule))
               (style_assignment_style_ids asg)) @
     declarations (style_assignment_local_patch asg)"

section \<open>The cascade\<close>

definition beside :: "string list \<Rightarrow> bool" where
  \<comment> \<open>a path outside the entry of bindings\<close>
  "beside q \<longleftrightarrow> q \<noteq> [] \<and> hd q \<noteq> ''bindings''"

lemma edit_bindings_exact:
  assumes "edit_bindings ss x y p var v = (Inr (), v')" "beside q"
  shows "json_at (Some v') q = json_at (Some v) q"
proof -
  from assms(1) obtain m w where "v = JObject m" "v' = JObject (jmap_insert ''bindings'' w m)"
    by (auto simp: edit_bindings_def Let_def split: json.splits sum.splits)
  with assms(2) show ?thesis by (cases q) (simp_all add: beside_def)
qed

definition cascaded :: "string \<Rightarrow> (style_property \<times> style_declaration) list \<Rightarrow> json \<Rightarrow> json \<Rightarrow> bool" where
  \<comment> \<open>the last claim decides, and the rest is as before\<close>
  "cascaded t cs v v' \<longleftrightarrow>
     (\<forall>as c bs. cs = as @ c # bs \<longrightarrow> (\<forall>d \<in> set bs. \<not> comparable (claim_path t (fst d)) (claim_path t (fst c))) \<longrightarrow>
        json_at (Some v') (claim_path t (fst c)) = Some (claim_literal t c)) \<and>
     (\<forall>q. beside q \<longrightarrow> (\<forall>c \<in> set cs. \<not> comparable (claim_path t (fst c)) q) \<longrightarrow>
        json_at (Some v') q = json_at (Some v) q) \<and>
     (\<forall>c \<in> set cs. style_path (fst c) t = Inr (claim_path t (fst c)))"

lemma cascaded_Nil: "cascaded t [] v v"
  by (simp add: cascaded_def)

lemma cascaded_append:
  assumes "cascaded t cs v v'" "cascaded t ds v' v''"
  shows "cascaded t (cs @ ds) v v''"
  unfolding cascaded_def
proof (intro conjI allI impI)
  fix as c bs assume eq: "cs @ ds = as @ c # bs"
    and last: "\<forall>d \<in> set bs. \<not> comparable (claim_path t (fst d)) (claim_path t (fst c))"
  from eq consider (left) es where "cs = as @ c # es" "bs = es @ ds" | (right) es where "ds = es @ c # bs"
    by (auto simp: append_eq_append_conv2 append_eq_Cons_conv Cons_eq_append_conv)
  then show "json_at (Some v'') (claim_path t (fst c)) = Some (claim_literal t c)"
  proof cases
    case left
    then have "json_at (Some v') (claim_path t (fst c)) = Some (claim_literal t c)"
      using assms(1)[unfolded cascaded_def, THEN conjunct1, rule_format, OF left(1)] last by simp
    moreover have "beside (claim_path t (fst c))"
      using assms(1) left(1) style_path_head[of "fst c" t "claim_path t (fst c)"]
      by (auto simp: cascaded_def beside_def style_heads_def)
    ultimately show ?thesis using assms(2) left(2) last by (auto simp: cascaded_def)
  next
    case right
    from assms(2)[unfolded cascaded_def, THEN conjunct1, rule_format, OF this] last show ?thesis by simp
  qed
qed (use assms in \<open>auto simp: cascaded_def\<close>)

lemma write_claim_exact:
  assumes "write_claim ss t p d path v = (Inr (), v')" "style_path p t = Inr path"
  shows "cascaded t [(p, d)] v v'"
proof -
  have path: "claim_path t p = path" by (simp add: claim_path_def assms(2))
  obtain r w where w': "set_path v path (claim_literal t (p, d)) = (r, w)" by force
  have r: "r = Inr ()"
    using assms(1) w' by (cases r) (simp_all add: write_claim_def claim_literal_def)
  note w = w'[unfolded r]
  have rest: "w = v' \<or> (\<exists>x y b var. edit_bindings ss x y b var w = (Inr (), v'))"
  proof (cases "style_binding p")
    case None
    with assms(1) w show ?thesis by (simp add: write_claim_def claim_literal_def split: if_splits)
  next
    case (Some b)
    with assms(1) w have "edit_bindings ss ''node is not an object'' ''bindings must be a pair array'' b
        (style_declaration_binding d) w = (Inr (), v')"
      by (simp add: write_claim_def claim_literal_def)
    then show ?thesis by blast
  qed
  have same: "json_at (Some v') q = json_at (Some w) q" if "beside q" for q
    using rest edit_bindings_exact that by blast
  have "beside path" using style_path_head[OF assms(2)] by (auto simp: beside_def style_heads_def)
  with set_path_exact[OF w] same assms(2) show ?thesis
    by (auto simp: cascaded_def path Cons_eq_append_conv)
qed

lemma apply_declarations_exact:
  "apply_declarations ss t reject ds paths v = (Inr (), v') \<Longrightarrow> cascaded t ds v v'"
proof (induction ss t reject ds paths v rule: apply_declarations.induct)
  case (2 ss t reject p d ds paths v)
  note run = 2(2)[unfolded apply_declarations.simps]
  obtain u where val: "validate_literal ss p (style_declaration_value d) = Inr u"
    using run by (cases "validate_literal ss p (style_declaration_value d)") simp_all
  obtain path where path: "style_path p t = Inr path"
    using run val by (cases "style_path p t") simp_all
  have ok: "\<not> (reject \<and> list_ex (comparable path) paths)"
    using run val path by (simp split: if_split_asm)
  obtain r w where rw: "write_claim ss t p d path v = (r, w)" by force
  have r: "r = Inr ()" using run val path ok rw by (cases r) simp_all
  note w = rw[unfolded r]
  have "apply_declarations ss t reject ds (paths @ [path]) w = (Inr (), v')"
    using run by (simp only: val path ok w sum.case prod.case if_False)
  then have "cascaded t ds w v'" by (rule 2(1)[OF val path ok w[symmetric] refl])
  from cascaded_append[OF write_claim_exact[OF w path] this] show ?case by simp
qed (simp add: cascaded_Nil)

lemma apply_rules_exact:
  "apply_rules ss reg t is v = (Inr (), v') \<Longrightarrow>
     cascaded t (concat (map (\<lambda>i. case fmlookup (style_registry_rules reg) i of
       None \<Rightarrow> [] | Some rule \<Rightarrow> declarations (style_rule_declarations rule)) is)) v v'"
proof (induction "is" arbitrary: v)
  case (Cons i "is")
  then obtain rule where rule: "fmlookup (style_registry_rules reg) i = Some rule"
    by (cases "fmlookup (style_registry_rules reg) i") simp_all
  obtain r w where rw: "apply_declarations ss t True (declarations (style_rule_declarations rule)) [] v = (r, w)" by force
  have r: "r = Inr ()" using Cons.prems rule rw by (cases r) simp_all
  have "apply_rules ss reg t is w = (Inr (), v')" using Cons.prems rule rw r by simp
  from Cons.IH[OF this] cascaded_append[OF apply_declarations_exact[OF rw[unfolded r]]] show ?case by (simp add: rule)
qed (simp add: cascaded_Nil)

lemma apply_overrides_exact:
  "apply_overrides ss os v = (Inr (), v') \<Longrightarrow> beside q \<Longrightarrow> json_at (Some v') q = json_at (Some v) q"
proof (induction os arbitrary: v)
  case (Cons o' os)
  obtain p x where o': "o' = (p, x)" by force
  obtain r w where rw: "edit_bindings ss ''node must be an object'' ''bindings must be an array'' p (Some x) v = (r, w)" by force
  have r: "r = Inr ()" using Cons.prems(1) o' rw by (cases r) simp_all
  have "apply_overrides ss os w = (Inr (), v')" using Cons.prems(1) o' rw r by simp
  from Cons.IH[OF this Cons.prems(2)] edit_bindings_exact[OF rw[unfolded r] Cons.prems(2)] show ?case by simp
qed simp

lemma finish_compile_exact:
  assumes "finish_compile ss asg v = (Inr (), v')" "q \<noteq> []" "hd q \<noteq> ''style_assignment''"
  shows "json_at (Some v') q = json_at (Some v) q"
proof -
  from assms(1) obtain m a where "v = JObject m" "v' = JObject (jmap_insert ''style_assignment'' a m)"
    by (auto simp: finish_compile_def Let_def split: json.splits sum.splits)
  with assms(2,3) show ?thesis by (cases q) simp_all
qed

lemma and_then_done: "and_then e f = (Inr (), v') \<Longrightarrow> \<exists>w. e = (Inr (), w) \<and> f w = (Inr (), v')"
  by (cases e; cases "fst e") (auto simp: and_then_def)


section \<open>The authored value\<close>

lemma strip_declared_exact:
  "strip_declared t ps v = Inr v' \<Longrightarrow> json_ok v \<Longrightarrow>
     json_ok v' \<and> (\<forall>p \<in> set ps. json_at (Some v') (claim_path t p) = None) \<and>
     (\<forall>q. (\<forall>p \<in> set ps. \<not> comparable (claim_path t p) q) \<longrightarrow> json_at (Some v') q = json_at (Some v) q) \<and>
     (\<forall>q. json_at (Some v) q = None \<longrightarrow> json_at (Some v') q = None)"
proof (induction ps arbitrary: v)
  case (Cons p ps)
  then obtain path where path: "style_path p t = Inr path" by (cases "style_path p t") simp_all
  then have cp: "claim_path t p = path" by (simp add: claim_path_def)
  have ne: "path \<noteq> []" using style_path_head[OF path] by simp
  note rm = remove_path_exact[OF Cons.prems(2) ne]
  have run: "strip_declared t ps (remove_path v path) = Inr v'" using Cons.prems(1) path by simp
  from Cons.IH[OF run rm(1)] rm(2,3) remove_path_keeps_none[OF Cons.prems(2)] show ?case by (auto simp: cp)
qed simp

lemma declarations_keys [simp]: "map fst (declarations ds) = fm_keys ds" "fst ` set (declarations ds) = set (fm_keys ds)"
  by (simp_all add: declarations_def comp_def image_image)

lemma strip_rules_exact:
  "strip_rules reg t is v = Inr v' \<Longrightarrow> json_ok v \<Longrightarrow>
     json_ok v' \<and>
     (\<forall>i \<in> set is. \<forall>rule. fmlookup (style_registry_rules reg) i = Some rule \<longrightarrow>
        (\<forall>p \<in> set (fm_keys (style_rule_declarations rule)). json_at (Some v') (claim_path t p) = None)) \<and>
     (\<forall>q. (\<forall>i \<in> set is. \<forall>rule. fmlookup (style_registry_rules reg) i = Some rule \<longrightarrow>
          (\<forall>p \<in> set (fm_keys (style_rule_declarations rule)). \<not> comparable (claim_path t p) q)) \<longrightarrow>
        json_at (Some v') q = json_at (Some v) q) \<and>
     (\<forall>q. json_at (Some v) q = None \<longrightarrow> json_at (Some v') q = None)"
proof (induction "is" arbitrary: v)
  case (Cons i "is")
  then obtain rule where rule: "fmlookup (style_registry_rules reg) i = Some rule"
    by (cases "fmlookup (style_registry_rules reg) i") simp_all
  then obtain w where w: "strip_declared t (fm_keys (style_rule_declarations rule)) v = Inr w"
    using Cons.prems(1) by (cases "strip_declared t (fm_keys (style_rule_declarations rule)) v") simp_all
  note one = strip_declared_exact[OF w Cons.prems(2)]
  have "strip_rules reg t is w = Inr v'" using Cons.prems(1) rule w by simp
  from Cons.IH[OF this] one rule show ?case by auto
qed simp

lemma cascade_keys:
  "fst ` set (cascade reg asg) =
     (\<Union>i \<in> set (style_assignment_style_ids asg). case fmlookup (style_registry_rules reg) i of
        None \<Rightarrow> {} | Some rule \<Rightarrow> set (fm_keys (style_rule_declarations rule))) \<union>
     set (fm_keys (style_assignment_local_patch asg))"
proof -
  have "fst ` set (case r of None \<Rightarrow> [] | Some rule \<Rightarrow> declarations (style_rule_declarations rule)) =
      (case r of None \<Rightarrow> {} | Some rule \<Rightarrow> set (fm_keys (style_rule_declarations rule)))" for r :: "style_rule option"
    by (cases r) simp_all
  then show ?thesis by (simp only: cascade_def set_append image_Un set_concat set_map image_UN declarations_keys(2) image_image)
qed

text \<open>
  C34. The authored value of a node has no member that a rule or the local patch claims, whether it was
  written by the cascade or not, and, the bindings apart, every member no claim touches is as it was.
\<close>
theorem style_authored_exact:
  assumes ok: "authored_node_value ss reg asg v = Inr v'" and t: "node_type_of v = Some t" and v: "json_ok v"
  shows "(\<forall>c \<in> set (cascade reg asg). json_at (Some v') (claim_path t (fst c)) = None) \<and>
    (\<forall>q. q \<noteq> [] \<longrightarrow> hd q \<noteq> ''bindings'' \<longrightarrow> (\<forall>c \<in> set (cascade reg asg). \<not> comparable (claim_path t (fst c)) q) \<longrightarrow>
      json_at (Some v') q = json_at (Some v) q)"
proof -
  let ?patch = "fm_keys (style_assignment_local_patch asg)"
  obtain v1 where v1: "strip_rules reg t (style_assignment_style_ids asg) v = Inr v1"
    using ok t by (cases "strip_rules reg t (style_assignment_style_ids asg) v") (simp_all add: authored_node_value_def)
  obtain v2 where v2: "strip_declared t ?patch v1 = Inr v2"
    using ok t v1 by (cases "strip_declared t ?patch v1") (simp_all add: authored_node_value_def)
  note r = strip_rules_exact[OF v1 v]
  note d = strip_declared_exact[OF v2 conjunct1[OF r]]
  have same: "json_at (Some v') q = json_at (Some v2) q" if "beside q" for q
  proof (cases "v' = v2")
    case False
    with ok t v1 v2 obtain m w where "v2 = JObject m" "v' = JObject (jmap_insert ''bindings'' w m)"
      by (auto simp: authored_node_value_def split: json.splits option.splits sum.splits)
    with that show ?thesis by (cases q) (simp_all add: beside_def)
  qed simp
  have keys: "fst c \<in> set ?patch \<or> (\<exists>i \<in> set (style_assignment_style_ids asg). \<exists>rule.
      fmlookup (style_registry_rules reg) i = Some rule \<and> fst c \<in> set (fm_keys (style_rule_declarations rule)))"
    if "c \<in> set (cascade reg asg)" for c
    using imageI[OF that, of fst] unfolding cascade_keys by (auto split: option.splits)
  have none: "json_at (Some v2) (claim_path t (fst c)) = None" if "c \<in> set (cascade reg asg)" for c
    using keys[OF that] r d by blast
  have in_keys: "p \<in> fst ` set (cascade reg asg)" if "p \<in> set ?patch \<or> (\<exists>i \<in> set (style_assignment_style_ids asg). \<exists>rule.
      fmlookup (style_registry_rules reg) i = Some rule \<and> p \<in> set (fm_keys (style_rule_declarations rule)))" for p
    using that
  proof
    assume "\<exists>i \<in> set (style_assignment_style_ids asg). \<exists>rule.
      fmlookup (style_registry_rules reg) i = Some rule \<and> p \<in> set (fm_keys (style_rule_declarations rule))"
    then obtain i rule where i: "i \<in> set (style_assignment_style_ids asg)" "fmlookup (style_registry_rules reg) i = Some rule"
      "p \<in> set (fm_keys (style_rule_declarations rule))" by blast
    show ?thesis unfolding cascade_keys by (rule UnI1, rule UN_I[OF i(1)]) (simp only: i option.case)
  qed (simp only: cascade_keys UnI2)
  have "json_at (Some v') (claim_path t (fst c)) = None" if c: "c \<in> set (cascade reg asg)" for c
  proof (cases "beside (claim_path t (fst c))")
    case False
    then have "claim_path t (fst c) = []"
      using style_path_head[of "fst c" t] by (auto simp: beside_def claim_path_def style_heads_def split: sum.splits)
    with none[OF c] show ?thesis by simp
  qed (use same none[OF c] in simp)
  moreover have "json_at (Some v') q = json_at (Some v) q"
    if q: "q \<noteq> []" "hd q \<noteq> ''bindings''" "\<forall>c \<in> set (cascade reg asg). \<not> comparable (claim_path t (fst c)) q" for q
  proof -
    have free: "\<not> comparable (claim_path t p) q" if "p \<in> fst ` set (cascade reg asg)" for p using that q(3) by auto
    have "json_at (Some v2) q = json_at (Some v1) q"
      by (rule d[THEN conjunct2, THEN conjunct2, THEN conjunct1, rule_format], rule free, rule in_keys, erule disjI1)
    moreover have "json_at (Some v1) q = json_at (Some v) q"
      by (rule r[THEN conjunct2, THEN conjunct2, THEN conjunct1, rule_format], rule free, rule in_keys) blast
    ultimately show ?thesis using same q(1,2) by (simp add: beside_def)
  qed
  ultimately show ?thesis by blast
qed

section \<open>A sample\<close>

definition sample_style_serde :: style_serde where
  \<comment> \<open>accepts every literal and every node\<close>
  "sample_style_serde =
     \<lparr>ss_literal = (\<lambda>_ _. None), ss_node = (\<lambda>_. None), ss_address = (\<lambda>_. Inr (JString ''fill_color'')),
      ss_variable = (\<lambda>_. JNull), ss_assignment = (\<lambda>_. Inr JNull)\<rparr>"

definition sample_sized :: "u64 \<Rightarrow> json" where
  "sample_sized n =
     JObject [(''type'', JString ''text''), (''style'', JObject [(''size_px'', JNumber (PosInt n)), (''italic'', JBool True)])]"

definition sample_text_json :: json where
  "sample_text_json = sample_sized 10"

definition sample_style_registry :: style_registry where
  \<comment> \<open>a rule that says 11\<close>
  "sample_style_registry =
     \<lparr>style_registry_rules = fmupd (Id 1)
        \<lparr>style_rule_id = Id 1, style_rule_declarations = fmupd StyleProperty_FontSize
           \<lparr>style_declaration_value = JNumber (PosInt 11), style_declaration_binding = None\<rparr> fmempty\<rparr> fmempty\<rparr>"

definition sample_assignment :: style_assignment where
  \<comment> \<open>that rule, and a local patch that says 12\<close>
  "sample_assignment =
     \<lparr>style_assignment_style_ids = [Id 1],
      style_assignment_local_patch = fmupd StyleProperty_FontSize
        \<lparr>style_declaration_value = JNumber (PosInt 12), style_declaration_binding = None\<rparr> fmempty,
      style_assignment_binding_overrides = fmempty\<rparr>"

lemma sample_single_key: "fm_keys (fmupd StyleProperty_FontSize d fmempty) = [StyleProperty_FontSize]"
  by (simp add: fm_keys_def sorted_list_of_fset.rep_eq)

lemma sample_declarations: "declarations (fmupd StyleProperty_FontSize d fmempty) = [(StyleProperty_FontSize, d)]"
  by (simp add: declarations_def sample_single_key)

lemma sample_no_keys: "fm_keys (fmempty :: (bound_prop, 'a) fmap) = []"
  by (simp add: fm_keys_def sorted_list_of_fset.rep_eq)

lemma sample_cascade:
  "cascade sample_style_registry sample_assignment =
     [(StyleProperty_FontSize, \<lparr>style_declaration_value = JNumber (PosInt 11), style_declaration_binding = None\<rparr>),
      (StyleProperty_FontSize, \<lparr>style_declaration_value = JNumber (PosInt 12), style_declaration_binding = None\<rparr>)]"
  by (simp add: cascade_def sample_style_registry_def sample_assignment_def sample_declarations)

lemma sample_claim: "claim_path ''text'' StyleProperty_FontSize = [''style'', ''size_px'']"
  by (simp add: claim_path_def style_path_def)

lemma sample_type: "node_type_of sample_text_json = Some ''text''"
  by (simp add: node_type_of_def sample_text_json_def sample_sized_def)


theorem style_authored_exact_witness:
  "\<exists>v'. authored_node_value sample_style_serde sample_style_registry sample_assignment sample_text_json = Inr v' \<and>
     json_at (Some v') [''style'', ''size_px''] = None \<and> json_at (Some v') [''style'', ''italic''] = Some (JBool True)"
proof -
  have ok: "json_ok sample_text_json" by (simp add: sample_text_json_def sample_sized_def)
  obtain v' where v': "authored_node_value sample_style_serde sample_style_registry sample_assignment sample_text_json = Inr v'"
    by (simp add: authored_node_value_def sample_type) (simp add: sample_assignment_def sample_style_registry_def
        sample_single_key style_path_def sample_text_json_def sample_sized_def jmap_insert_def split: option.split json.split)
  from style_authored_exact[OF v' sample_type ok] have
    "json_at (Some v') [''style'', ''size_px''] = None" "json_at (Some v') [''style'', ''italic''] = json_at (Some sample_text_json) [''style'', ''italic'']"
    by (simp_all add: sample_cascade sample_claim del: json_at_simps)
  with v' show ?thesis by (simp add: sample_text_json_def sample_sized_def)
qed

end
