(* ===== verification/PresentTypes.thy ===== *)
theory PresentTypes
  imports VarResolve PathResize DocModel PaintEq
begin

text \<open>
  What the prototype player (\<open>crates/fanta-present\<close>) keeps beside the document: cameras and overlay
  placement (\<open>crates/fanta-canvas/src/viewport.rs\<close>, \<open>overlay.rs\<close>), transition clocks, bound animations with
  their playheads, timers, and the answers to the host. Times and coordinates are binary64 with exact
  rounding.
\<close>

section \<open>More of binary64\<close>

definition f64_two :: f64 where "f64_two = 0x4000000000000000"
definition f64_point_five :: f64 where "f64_point_five = 0x3FE0000000000000"
definition f64_thousand :: f64 where "f64_thousand = 0x408F400000000000"
definition f64_EPSILON :: f64 where "f64_EPSILON = 0x3CB0000000000000"

definition f64_of_nat :: "nat \<Rightarrow> f64" where
  \<comment> \<open>an integer \<open>as f64\<close>\<close>
  "f64_of_nat n = f64_of_int (int n * 2 ^ 1074)"

definition f64_round :: "f64 \<Rightarrow> f64" where
  \<comment> \<open>\<open>f64::round\<close>: halves away from zero\<close>
  "f64_round a =
     (if f64_is_nan a \<or> \<not> f64_is_finite a then a
      else f64_pack (f64_neg a) (round_bits 0 ((mag_of_bits (f64_bits a) + 2 ^ 1073) div 2 ^ 1074 * 2 ^ 1074)))"

definition f64_rem :: "f64 \<Rightarrow> f64 \<Rightarrow> f64" where
  \<comment> \<open>the operator \<open>%\<close>, exact, with the sign of the dividend\<close>
  "f64_rem a b =
     (if f64_is_nan a \<or> f64_is_nan b \<or> \<not> f64_is_finite a \<or> f64_bits b = 0 then f64_nan
      else if \<not> f64_is_finite b then a
      else f64_pack (f64_neg a) (round_bits 0 (mag_of_bits (f64_bits a) mod mag_of_bits (f64_bits b))))"

definition f64_to_nat :: "nat \<Rightarrow> f64 \<Rightarrow> nat" where
  \<comment> \<open>\<open>as u32\<close>, \<open>as u64\<close>: towards zero, saturating at \<open>most\<close>\<close>
  "f64_to_nat most a =
     (if f64_is_nan a \<or> f64_neg a then 0
      else if \<not> f64_is_finite a then most
      else min most (mag_of_bits (f64_bits a) div 2 ^ 1074))"

definition f64_clamp :: "f64 \<Rightarrow> f64 \<Rightarrow> f64 \<Rightarrow> f64" where
  "f64_clamp a lo hi = (if f64_lt a lo then lo else if f64_lt hi a then hi else a)"

definition f64_ge :: "f64 \<Rightarrow> f64 \<Rightarrow> bool" where
  "f64_ge a b = f64_le b a"

section \<open>Equality and order of values\<close>

definition font_variation_eq :: "font_variation \<Rightarrow> font_variation \<Rightarrow> bool" where
  "font_variation_eq a b \<longleftrightarrow>
     font_variation_axis a = font_variation_axis b \<and> f32_eq (font_variation_value a) (font_variation_value b)"

definition text_style_eq :: "text_style \<Rightarrow> text_style \<Rightarrow> bool" where
  "text_style_eq a b \<longleftrightarrow>
     ts_font_family a = ts_font_family b \<and> f64_eq (ts_size_px a) (ts_size_px b) \<and> ts_weight a = ts_weight b \<and>
     ts_italic a = ts_italic b \<and> ts_underline a = ts_underline b \<and> ts_strikethrough a = ts_strikethrough b \<and>
     ts_color a = ts_color b \<and> f64_eq (ts_letter_spacing a) (ts_letter_spacing b) \<and>
     f64_eq (ts_line_height a) (ts_line_height b) \<and>
     rel_option f64_eq (ts_line_height_auto_percent a) (ts_line_height_auto_percent b) \<and>
     list_all2 font_variation_eq (ts_font_variations a) (ts_font_variations b)"

fun var_value_eq :: "var_value \<Rightarrow> var_value \<Rightarrow> bool" where
  "var_value_eq (VarValue_Float a) (VarValue_Float b) = f64_eq a b"
| "var_value_eq (VarValue_TextStyle a) (VarValue_TextStyle b) = text_style_eq a b"
| "var_value_eq a b = (a = b)"

fun resolved_value_eq :: "resolved_var_value \<Rightarrow> resolved_var_value \<Rightarrow> bool" where
  "resolved_value_eq (ResolvedVarValue_Float a) (ResolvedVarValue_Float b) = f64_eq a b"
| "resolved_value_eq (ResolvedVarValue_TextStyle a) (ResolvedVarValue_TextStyle b) = text_style_eq a b"
| "resolved_value_eq a b = (a = b)"

fun str_less :: "string \<Rightarrow> string \<Rightarrow> bool" where
  \<comment> \<open>\<open>Ord\<close> of \<open>str\<close>: by bytes\<close>
  "str_less [] t = (t \<noteq> [])"
| "str_less (c # s) [] = False"
| "str_less (c # s) (d # t) =
     ((of_char c :: nat) < of_char d \<or> (of_char c :: nat) = of_char d \<and> str_less s t)"

section \<open>Cameras\<close>

type_synonym vec2 = "f64 \<times> f64"

definition vec2_map2 :: "(f64 \<Rightarrow> f64 \<Rightarrow> f64) \<Rightarrow> vec2 \<Rightarrow> vec2 \<Rightarrow> vec2" where
  "vec2_map2 f a b = (f (fst a) (fst b), f (snd a) (snd b))"

datatype fit_mode = FitMode_Contain | FitMode_Cover | FitMode_Fill

record camera =
  camera_center :: vec2
  camera_scale :: vec2

record screen_rect =
  rect_min :: vec2
  rect_max :: vec2

definition camera_default :: camera where
  "camera_default =
     \<lparr>camera_center = viewport_center viewport_default,
      camera_scale = (viewport_zoom viewport_default, viewport_zoom viewport_default)\<rparr>"

definition bounds_width :: "bounds \<Rightarrow> f64" where
  "bounds_width b = f64_sub (bounds_max_x b) (bounds_min_x b)"

definition bounds_height :: "bounds \<Rightarrow> f64" where
  "bounds_height b = f64_sub (bounds_max_y b) (bounds_min_y b)"

definition MIN_ZOOM :: f64 where "MIN_ZOOM = 0x3F30000000000000"
definition MAX_ZOOM :: f64 where "MAX_ZOOM = 0x40B0000000000000"

definition bounds_center :: "bounds \<Rightarrow> vec2" where
  "bounds_center b =
     (f64_mul (f64_add (bounds_min_x b) (bounds_max_x b)) f64_point_five,
      f64_mul (f64_add (bounds_min_y b) (bounds_max_y b)) f64_point_five)"

definition fit_camera :: "bounds \<Rightarrow> vec2 \<Rightarrow> f64 \<Rightarrow> fit_mode \<Rightarrow> camera" where
  "fit_camera b screen padding mode =
     (let center = bounds_center b; w = bounds_width b; h = bounds_height b in
      if \<not> f64_is_finite (fst center) \<or> \<not> f64_is_finite (snd center) \<or> \<not> f64_is_finite w \<or> \<not> f64_is_finite h
      then camera_default
      else
        (let size = (f64_max w f64_EPSILON, f64_max h f64_EPSILON);
             margin = f64_mul f64_two padding;
             usable = vec2_map2 f64_max (vec2_map2 f64_sub screen (margin, margin)) (f64_one, f64_one);
             ratios = vec2_map2 f64_div usable size;
             scale = (case mode of
                        FitMode_Contain \<Rightarrow> (f64_min (fst ratios) (snd ratios), f64_min (fst ratios) (snd ratios))
                      | FitMode_Cover \<Rightarrow> (f64_max (fst ratios) (snd ratios), f64_max (fst ratios) (snd ratios))
                      | FitMode_Fill \<Rightarrow> ratios)
         in \<lparr>camera_center = center,
             camera_scale = vec2_map2 f64_min (vec2_map2 f64_max scale (MIN_ZOOM, MIN_ZOOM)) (MAX_ZOOM, MAX_ZOOM)\<rparr>))"

definition frame_camera :: "bounds option \<Rightarrow> vec2 \<Rightarrow> fit_mode \<Rightarrow> camera" where
  \<comment> \<open>given \<open>Scene::world_bounds\<close> of the frame\<close>
  "frame_camera b screen mode = (case b of None \<Rightarrow> camera_default | Some b \<Rightarrow> fit_camera b screen 0 mode)"

definition rect_contains :: "screen_rect \<Rightarrow> vec2 \<Rightarrow> bool" where
  "rect_contains r p \<longleftrightarrow>
     f64_ge (fst p) (fst (rect_min r)) \<and> f64_le (fst p) (fst (rect_max r)) \<and>
     f64_ge (snd p) (snd (rect_min r)) \<and> f64_le (snd p) (snd (rect_max r))"

definition overlay_top_left :: "overlay_position \<Rightarrow> vec2 \<Rightarrow> vec2 \<Rightarrow> vec2" where
  "overlay_top_left position scale free =
     (case position of
        OverlayPosition_Center \<Rightarrow> (f64_mul (fst free) f64_point_five, f64_mul (snd free) f64_point_five)
      | OverlayPosition_TopLeft \<Rightarrow> (0, 0)
      | OverlayPosition_TopCenter \<Rightarrow> (f64_mul (fst free) f64_point_five, 0)
      | OverlayPosition_TopRight \<Rightarrow> (fst free, 0)
      | OverlayPosition_BottomLeft \<Rightarrow> (0, snd free)
      | OverlayPosition_BottomCenter \<Rightarrow> (f64_mul (fst free) f64_point_five, snd free)
      | OverlayPosition_BottomRight \<Rightarrow> free
      | OverlayPosition_Manual offset \<Rightarrow> vec2_map2 f64_mul offset scale)"

definition place_overlay :: "vec2 \<Rightarrow> bounds \<Rightarrow> overlay_position \<Rightarrow> vec2 \<Rightarrow> camera \<times> screen_rect" where
  "place_overlay base_scale b position screen =
     (let scale = vec2_map2 f64_max base_scale (f64_EPSILON, f64_EPSILON);
          world_min = (bounds_min_x b, bounds_min_y b);
          size = vec2_map2 f64_mul (bounds_width b, bounds_height b) scale;
          free = vec2_map2 f64_max (vec2_map2 f64_sub screen size) (0, 0);
          top_left = overlay_top_left position scale free;
          middle = vec2_map2 f64_mul screen (f64_point_five, f64_point_five);
          center = vec2_map2 f64_sub world_min (vec2_map2 f64_div (vec2_map2 f64_sub top_left middle) scale)
      in (\<lparr>camera_center = center, camera_scale = scale\<rparr>,
          \<lparr>rect_min = top_left, rect_max = vec2_map2 f64_add top_left size\<rparr>))"

section \<open>Transitions and animations\<close>

record transition_clock =
  tc_style :: transition_style
  tc_easing :: easing
  tc_duration :: f64
  tc_elapsed :: f64

definition clock_from_transition :: "transition option \<Rightarrow> transition_clock option" where
  "clock_from_transition tr =
     (case tr of
        None \<Rightarrow> None
      | Some t \<Rightarrow>
          (if transition_style t = TransitionStyle_Instant \<or> transition_duration_ms t = 0 then None
           else Some \<lparr>tc_style = transition_style t, tc_easing = transition_easing t,
                      tc_duration = f64_div (f64_of_nat (unat (transition_duration_ms t))) f64_thousand,
                      tc_elapsed = 0\<rparr>))"

definition linear_progress :: "f64 \<Rightarrow> f64 \<Rightarrow> f64" where
  "linear_progress elapsed duration =
     (if f64_le duration 0 then f64_one else f64_clamp (f64_div elapsed duration) 0 f64_one)"

definition elapsed_done :: "f64 \<Rightarrow> f64 \<Rightarrow> bool" where
  "elapsed_done elapsed duration \<longleftrightarrow> f64_ge (f64_add elapsed f64_1e_9) duration"

record active_transition =
  at_from_frame :: node_id
  at_from_camera :: camera
  at_to_frame :: node_id
  at_to_camera :: camera
  at_style :: transition_style
  at_easing :: easing
  at_duration :: f64
  at_elapsed :: f64

datatype clip_playback_mode = ClipPlaybackMode_Once | ClipPlaybackMode_Repeat | ClipPlaybackMode_PingPong

fun clip_mode_of :: "loop_mode \<Rightarrow> clip_playback_mode" where
  "clip_mode_of LoopMode_Once = ClipPlaybackMode_Once"
| "clip_mode_of LoopMode_Repeat = ClipPlaybackMode_Repeat"
| "clip_mode_of LoopMode_PingPong = ClipPlaybackMode_PingPong"

record prototype_animation_state =
  pa_clip :: animation_clip_id
  pa_delay :: f64
  pa_elapsed :: f64
  pa_mode :: clip_playback_mode
  pa_paused :: bool
  pa_completion_emitted :: bool

definition playhead_ms :: "motion_library \<Rightarrow> prototype_animation_state \<Rightarrow> u32 option" where
  "playhead_ms lib a =
     (if f64_lt (f64_add (pa_elapsed a) f64_1e_9) (pa_delay a) then None
      else (case fmlookup (mlib_clips lib) (pa_clip a) of
              None \<Rightarrow> None
            | Some clip \<Rightarrow>
                (let d = unat (clip_duration_ms clip);
                     elapsed_ms = f64_max (f64_round (f64_mul (f64_sub (pa_elapsed a) (pa_delay a)) f64_thousand)) 0;
                     elapsed = f64_to_nat (2 ^ 32 - 1) (f64_min elapsed_ms (f64_of_nat (2 ^ 32 - 1)))
                 in Some (case pa_mode a of
                      ClipPlaybackMode_Once \<Rightarrow> word_of_nat (min elapsed d)
                    | ClipPlaybackMode_Repeat \<Rightarrow>
                        (if 0 < d then word_of_nat (f64_to_nat (2 ^ 32 - 1) (f64_rem elapsed_ms (f64_of_nat d))) else 0)
                    | ClipPlaybackMode_PingPong \<Rightarrow>
                        (if 0 < d
                         then (let cycle = f64_to_nat (2 ^ 64 - 1) (f64_rem elapsed_ms (f64_mul (f64_of_nat d) f64_two))
                               in if cycle \<le> d then word_of_nat cycle else word_of_nat (d * 2 - cycle))
                         else 0)))))"

definition animation_running :: "motion_library \<Rightarrow> prototype_animation_state \<Rightarrow> bool" where
  "animation_running lib a =
     (case fmlookup (mlib_clips lib) (pa_clip a) of
        None \<Rightarrow> False
      | Some clip \<Rightarrow>
          \<not> pa_paused a \<and>
          (f64_lt (f64_add (pa_elapsed a) f64_1e_9) (pa_delay a) \<or>
           (clip_duration_ms clip > 0 \<and>
            (pa_mode a \<noteq> ClipPlaybackMode_Once \<or>
             f64_lt (f64_add (pa_elapsed a) f64_1e_9)
               (f64_add (pa_delay a) (f64_div (f64_of_nat (unat (clip_duration_ms clip))) f64_thousand))))))"

record scroll_animation =
  sa_scrollable :: node_id
  sa_from :: vec2
  sa_to :: vec2
  sa_easing :: easing
  sa_duration :: f64
  sa_elapsed :: f64

section \<open>What the host sees\<close>

datatype present_error =
    PresentError_NoStartFrame
  | PresentError_StartNotFound
  | PresentError_InvalidElapsedTime
  | PresentError_ClipNotFound
  | PresentError_MotionTargetNotFound node_id
  | PresentError_InvalidPlayhead
  | PresentError_InvalidVariable
  | PresentError_InvalidMode
  | PresentError_InvalidCamera

datatype pointer_event =
    PointerEvent_Move
  | PointerEvent_Click
  | PointerEvent_DragStart
  | PointerEvent_Down
  | PointerEvent_Up
  | PointerEvent_Leave

datatype key_event = KeyEvent_Down | KeyEvent_Up

datatype trigger_kind = TriggerKind_Click | TriggerKind_Drag | TriggerKind_Hover | TriggerKind_WhilePressing

record present_response =
  pr_needs_redraw :: bool
  pr_navigated :: bool
  pr_animating :: bool
  pr_exited :: bool
  pr_media_updated :: bool
  pr_suppress_click :: bool

definition response_default :: present_response where
  "response_default =
     \<lparr>pr_needs_redraw = False, pr_navigated = False, pr_animating = False, pr_exited = False,
      pr_media_updated = False, pr_suppress_click = False\<rparr>"

definition response_redraw :: present_response where
  "response_redraw = response_default\<lparr>pr_needs_redraw := True\<rparr>"

definition merge_responses :: "present_response \<Rightarrow> present_response \<Rightarrow> present_response" where
  "merge_responses a b =
     \<lparr>pr_needs_redraw = (pr_needs_redraw a \<or> pr_needs_redraw b), pr_navigated = (pr_navigated a \<or> pr_navigated b),
      pr_animating = (pr_animating a \<or> pr_animating b), pr_exited = (pr_exited a \<or> pr_exited b),
      pr_media_updated = (pr_media_updated a \<or> pr_media_updated b),
      pr_suppress_click = (pr_suppress_click a \<or> pr_suppress_click b)\<rparr>"

fun trigger_matches :: "trigger \<Rightarrow> trigger_kind \<Rightarrow> bool" where
  "trigger_matches Trigger_Click TriggerKind_Click = True"
| "trigger_matches Trigger_Drag TriggerKind_Drag = True"
| "trigger_matches Trigger_Hover TriggerKind_Hover = True"
| "trigger_matches Trigger_MouseEnter TriggerKind_Hover = True"
| "trigger_matches Trigger_WhileHovering TriggerKind_Hover = True"
| "trigger_matches Trigger_WhilePressing TriggerKind_WhilePressing = True"
| "trigger_matches _ _ = False"

fun down_action_suppresses_click :: "action \<Rightarrow> bool" where
  "down_action_suppresses_click (Action_Navigate _) = True"
| "down_action_suppresses_click Action_Back = True"
| "down_action_suppresses_click Action_Close = True"
| "down_action_suppresses_click (Action_OpenOverlay _ _) = True"
| "down_action_suppresses_click (Action_ScrollTo _) = True"
| "down_action_suppresses_click (Action_OpenLink _) = True"
| "down_action_suppresses_click _ = False"

section \<open>The layers\<close>

record node_occurrence =
  occ_layer :: u64
  occ_node :: node_id
  occ_instance_path :: "node_id list"
  occ_definition_path :: "node_id list"

record resolved_layer =
  \<comment> \<open>a layer with its instances expanded\<close>
  rl_scene :: scene
  rl_root :: node_id
  rl_occurrences :: "(node_id, node_occurrence) fmap"
  rl_master_roots :: "(node_id, node_id) fmap"
  rl_target_index :: "(node_id list \<times> node_id, node_id) fmap"

record nav_entry =
  nav_frame :: node_id
  nav_camera :: camera
  nav_scroll_snapshot :: "(node_id, vec2) fmap"

record pending_timer =
  pt_root :: node_id
  pt_layer :: u64
  pt_order :: nat
  pt_source :: node_id
  pt_reaction :: reaction_id
  pt_actions :: "action list"
  pt_transition :: "transition option"
  pt_animation :: "prototype_animation option"
  pt_remaining :: f64

record overlay_entry =
  ov_root :: node_id
  ov_layer :: u64
  ov_settings :: overlay_settings
  ov_camera :: camera
  ov_screen_rect :: screen_rect

record overlay_transition =
  ot_root :: node_id
  ot_clock :: transition_clock

record overlay_exit =
  oe_entry :: overlay_entry
  oe_clock :: transition_clock
  oe_start_visible :: f64

record variable_restore =
  vr_variable :: variable_id
  vr_mode :: mode_id
  vr_previous :: "var_value option"
  vr_applied :: var_value

record variant_restore =
  ir_instance :: node_id
  ir_previous :: "(component_id \<times> string) option"
  ir_applied :: "component_id \<times> string"

record pointer_reaction =
  ar_source :: node_id
  ar_reaction :: reaction_id
  ar_variant_restores :: "variant_restore list"
  ar_variable_restores :: "variable_restore list"

datatype playback_event =
    PlaybackEvent_ClipCompleted animation_clip_id
  | PlaybackEvent_Diagnostic string string

end
