(* ===== verification/Playback.thy ===== *)
theory Playback
  imports PresentTypes
begin

text \<open>
  The prototype player, \<open>PlaybackSession\<close> of \<open>crates/fanta-present/src/fanta_present.rs\<close> and
  \<open>playback.rs\<close>: navigation with its back stack, overlays, delayed reactions, variables written while
  playing, hover and press reactions that are undone when they end, animations bound to reactions, and
  the advance of time.

  The record holds the fields behaviour depends on. Left out are what only drawing uses (the display
  scale, the smart-animate plan, the layers of a variant transition) and the caches. What a layer looks
  like once its instances are expanded, bounds, hit testing and scroll geometry are the environment: functions of
  the session. Every handler returns its answer and the session after it.
\<close>

section \<open>The session\<close>

type_synonym scrolls = "(node_id, vec2) fmap"
type_synonym timer_key = "u64 \<times> node_id \<times> reaction_id"

record playback =
  pb_doc :: doc
  pb_screen_size :: vec2
  pb_current :: node_id
  pb_current_layer :: u64
  pb_next_layer :: u64
  pb_camera :: camera
  pb_fit_mode :: fit_mode
  pb_back_stack :: "nav_entry list"
  pb_overlays :: "overlay_entry list"
  pb_variables :: variable_registry
  pb_active_modes :: "(variable_collection_id, mode_id) fmap"
  pb_mode_generation :: u64
  pb_clock :: f64
  pb_transition :: "active_transition option"
  pb_overlay_transition :: "overlay_transition option"
  pb_overlay_exit :: "overlay_exit option"
  pb_variant_transition :: "transition_clock option"
  pb_animation :: "prototype_animation_state option"
  pb_motion_scope :: "node_occurrence option"
  pb_motion_targets :: "node_occurrence list"
  pb_paused :: bool
  pb_timers_suspended :: bool
  pb_events :: "playback_event list"
  pb_timer_membership :: "timer_key fset"
  pb_dispatch_layer :: "(u64 \<times> node_id) option"
  pb_timers :: "pending_timer list"
  pb_media_time :: f64
  pb_media_playing :: bool
  pb_node_media_times :: "(node_id, f64) fmap"
  pb_scroll_offsets :: scrolls
  pb_variant_overrides :: "(component_id, string) fmap"
  pb_instance_overrides :: "(node_id, component_id \<times> string) fmap"
  pb_hovered :: "pointer_reaction option"
  pb_pressed :: "pointer_reaction option"
  pb_suppress_next_click :: bool
  pb_recording_press :: bool
  pb_hover_chain :: "node_id list"
  pb_scroll_animation :: "scroll_animation option"
  pb_pending_url :: "string option"

record player_env =
  pe_layer :: "playback \<Rightarrow> node_id \<Rightarrow> u64 \<Rightarrow> bool \<Rightarrow> resolved_layer"
  pe_bounds :: "scene \<Rightarrow> node_id \<Rightarrow> bounds option"
  pe_hit :: "playback \<Rightarrow> vec2 \<Rightarrow> node_id option"
  pe_clamped_offset :: "playback \<Rightarrow> node_id \<Rightarrow> vec2 \<Rightarrow> vec2"
  pe_scroll_target :: "playback \<Rightarrow> node_id \<Rightarrow> (node_id \<times> vec2) option"
  pe_variants_differ ::
    "playback \<Rightarrow> (component_id, string) fmap \<Rightarrow> (node_id, component_id \<times> string) fmap \<Rightarrow> bool"
  pe_ease :: "easing \<Rightarrow> f64 \<Rightarrow> f64"
  pe_error_text :: "present_error \<Rightarrow> string"

type_synonym handled = "present_response \<times> playback"

abbreviation pb_scene :: "playback \<Rightarrow> scene" where
  "pb_scene s \<equiv> oc_scene (doc_slices (pb_doc s))"

abbreviation pb_motion :: "playback \<Rightarrow> motion_library" where
  "pb_motion s \<equiv> oc_motion (doc_slices (pb_doc s))"

definition layer_root :: "playback \<Rightarrow> node_id" where
  "layer_root s = (case last_opt (pb_overlays s) of None \<Rightarrow> pb_current s | Some o' \<Rightarrow> ov_root o')"

definition active_camera :: "playback \<Rightarrow> camera" where
  "active_camera s = (case last_opt (pb_overlays s) of None \<Rightarrow> pb_camera s | Some o' \<Rightarrow> ov_camera o')"

definition layer_identity :: "playback \<Rightarrow> node_id \<Rightarrow> u64" where
  "layer_identity s root =
     (case find (\<lambda>e. ov_root e = root) (rev (pb_overlays s)) of None \<Rightarrow> pb_current_layer s | Some e \<Rightarrow> ov_layer e)"

definition resolved_layer_of :: "player_env \<Rightarrow> playback \<Rightarrow> node_id \<Rightarrow> bool \<Rightarrow> resolved_layer" where
  "resolved_layer_of env s root motion = pe_layer env s root (layer_identity s root) motion"

definition reaction_layer :: "player_env \<Rightarrow> playback \<Rightarrow> bool \<Rightarrow> resolved_layer" where
  "reaction_layer env s motion =
     (case pb_dispatch_layer s of
        Some (layer, root) \<Rightarrow> pe_layer env s root layer motion
      | None \<Rightarrow> resolved_layer_of env s (layer_root s) motion)"

definition is_animating :: "playback \<Rightarrow> bool" where
  "is_animating s \<longleftrightarrow>
     pb_transition s \<noteq> None \<or> pb_overlay_transition s \<noteq> None \<or> pb_overlay_exit s \<noteq> None \<or>
     pb_variant_transition s \<noteq> None \<or> pb_scroll_animation s \<noteq> None \<or>
     (case pb_animation s of None \<Rightarrow> False | Some a \<Rightarrow> animation_running (pb_motion s) a)"

section \<open>The targets of an animation\<close>

definition motion_path :: "resolved_layer \<Rightarrow> node_occurrence option \<Rightarrow> node_id list" where
  "motion_path rl scope =
     (case scope of
        None \<Rightarrow> []
      | Some sc \<Rightarrow>
          occ_instance_path sc @
          (if list_ex (\<lambda>i. fmlookup (rl_occurrences rl) i = Some sc) (fm_keys (rl_master_roots rl))
           then [occ_node sc] else []))"

definition motion_candidates ::
  "playback \<Rightarrow> resolved_layer \<Rightarrow> node_id \<Rightarrow> node_occurrence option \<Rightarrow> node_id list" where
  "motion_candidates s rl target scope =
     (if (case scope of
            None \<Rightarrow> False
          | Some sc \<Rightarrow> occ_layer sc \<noteq> layer_identity s (rl_root rl) \<and> sc \<notin> set (fm_values (rl_occurrences rl)))
      then []
      else (case fmlookup (rl_target_index rl) (motion_path rl scope, target) of None \<Rightarrow> [] | Some i \<Rightarrow> [i]))"

fun track_targets ::
  "playback \<Rightarrow> resolved_layer \<Rightarrow> node_occurrence option \<Rightarrow> animation_track list \<Rightarrow>
     present_error + node_occurrence list" where
  "track_targets s rl scope [] = Inr []"
| "track_targets s rl scope (tr # trs) =
     (let target = mtarget_node (track_target tr) in
      case motion_candidates s rl target scope of
        [i] \<Rightarrow>
          (case fmlookup (rl_occurrences rl) i of
             None \<Rightarrow> Inl (PresentError_MotionTargetNotFound target)
           | Some occ \<Rightarrow>
               (case track_targets s rl scope trs of Inl e \<Rightarrow> Inl e | Inr occs \<Rightarrow> Inr (occ # occs)))
      | _ \<Rightarrow> Inl (PresentError_MotionTargetNotFound target))"

definition motion_layer ::
  "player_env \<Rightarrow> playback \<Rightarrow> node_occurrence option \<Rightarrow> present_error + resolved_layer" where
  "motion_layer env s scope =
     (case scope of
        None \<Rightarrow> Inr (reaction_layer env s False)
      | Some sc \<Rightarrow>
          (if occ_layer sc = pb_current_layer s then Inr (pe_layer env s (pb_current s) (pb_current_layer s) False)
           else (case find (\<lambda>e. ov_layer e = occ_layer sc) (pb_overlays s) of
                   None \<Rightarrow> Inl (PresentError_MotionTargetNotFound (occ_node sc))
                 | Some e \<Rightarrow> Inr (pe_layer env s (ov_root e) (ov_layer e) False))))"

definition resolve_motion_targets ::
  "player_env \<Rightarrow> playback \<Rightarrow> animation_clip_id \<Rightarrow> node_occurrence option \<Rightarrow> present_error + node_occurrence list" where
  "resolve_motion_targets env s clip scope =
     (case fmlookup (mlib_clips (pb_motion s)) clip of
        None \<Rightarrow> Inl PresentError_ClipNotFound
      | Some c \<Rightarrow>
          (case motion_layer env s scope of
             Inl e \<Rightarrow> Inl e
           | Inr rl \<Rightarrow>
               (case scope of
                  Some sc \<Rightarrow>
                    (if sc \<in> set (fm_values (rl_occurrences rl)) then track_targets s rl scope (fm_values (clip_tracks c))
                     else Inl (PresentError_MotionTargetNotFound (occ_node sc)))
                | None \<Rightarrow> track_targets s rl scope (fm_values (clip_tracks c)))))"

definition stop_clip :: "playback \<Rightarrow> handled" where
  "stop_clip s =
     (let redraw = pb_animation s \<noteq> None;
          s' = s\<lparr>pb_animation := None, pb_motion_scope := None, pb_motion_targets := []\<rparr>
      in (response_default\<lparr>pr_needs_redraw := redraw, pr_animating := is_animating s'\<rparr>, s'))"

section \<open>Delayed reactions\<close>

abbreviation timer_key_of :: "pending_timer \<Rightarrow> timer_key" where
  "timer_key_of t \<equiv> (pt_layer t, pt_source t, pt_reaction t)"

definition delayed_at :: "node_id \<Rightarrow> u64 \<Rightarrow> scene \<Rightarrow> nat \<Rightarrow> node_id \<Rightarrow> pending_timer list" where
  \<comment> \<open>the reactions of one node that wait, as the timers they would start\<close>
  "delayed_at root layer sc order i =
     (case scene_get sc i of
        None \<Rightarrow> []
      | Some n \<Rightarrow>
          List.map_filter
            (\<lambda>r. case rx_trigger r of
                   Trigger_AfterDelay ms \<Rightarrow>
                     Some \<lparr>pt_root = root, pt_layer = layer, pt_order = order, pt_source = i, pt_reaction = rx_id r,
                           pt_actions = reaction_actions r, pt_transition = rx_transition r,
                           pt_animation = rx_animation r,
                           pt_remaining = f64_div (f64_of_nat (unat ms)) f64_thousand\<rparr>
                 | _ \<Rightarrow> None)
            (cn_reactions n))"

definition delayed_in :: "node_id \<Rightarrow> u64 \<Rightarrow> scene \<Rightarrow> pending_timer list" where
  "delayed_in root layer sc =
     concat (map (\<lambda>(order, i). delayed_at root layer sc order i) (List.enumerate 0 (descendants_of sc root)))"

definition reorder_timer :: "scene \<Rightarrow> node_id \<Rightarrow> pending_timer \<Rightarrow> pending_timer" where
  \<comment> \<open>the order a later visit of the walk gives a node stays\<close>
  "reorder_timer sc root t =
     (case map_of (rev (map (\<lambda>(order, i). (i, order)) (List.enumerate 0 (descendants_of sc root)))) (pt_source t) of
        None \<Rightarrow> t | Some order \<Rightarrow> t\<lparr>pt_order := order\<rparr>)"

definition schedule_timers_with_identity :: "player_env \<Rightarrow> node_id \<Rightarrow> u64 \<Rightarrow> playback \<Rightarrow> playback" where
  "schedule_timers_with_identity env root layer s =
     (let sc = rl_scene (pe_layer env s root layer False);
          found = delayed_in root layer sc;
          membership = fset_of_list (map timer_key_of found);
          scheduled = filter (\<lambda>t. timer_key_of t |\<notin>| pb_timer_membership s) found;
          kept = map (\<lambda>t. if pt_layer t \<noteq> layer then t else reorder_timer sc root t)
                   (filter (\<lambda>t. pt_layer t \<noteq> layer \<or> (layer, pt_source t, pt_reaction t) |\<in>| membership) (pb_timers s))
      in s\<lparr>pb_timers := kept @ scheduled,
           pb_timer_membership := ffilter (\<lambda>k. fst k \<noteq> layer) (pb_timer_membership s) |\<union>| membership\<rparr>)"

definition schedule_timers :: "player_env \<Rightarrow> node_id \<Rightarrow> playback \<Rightarrow> playback" where
  "schedule_timers env root s = schedule_timers_with_identity env root (layer_identity s root) s"

definition cancel_timers :: "u64 \<Rightarrow> playback \<Rightarrow> playback" where
  "cancel_timers layer s =
     s\<lparr>pb_timers := filter (\<lambda>t. pt_layer t \<noteq> layer) (pb_timers s),
       pb_timer_membership := ffilter (\<lambda>k. fst k \<noteq> layer) (pb_timer_membership s)\<rparr>"

definition refresh_clip :: "player_env \<Rightarrow> playback \<Rightarrow> playback" where
  "refresh_clip env s =
     (case pb_animation s of
        None \<Rightarrow> s
      | Some a \<Rightarrow>
          (if resolve_motion_targets env s (pa_clip a) (pb_motion_scope s) = Inr (pb_motion_targets s) then s
           else snd (stop_clip s)))"

definition refresh_layer_timers :: "player_env \<Rightarrow> playback \<Rightarrow> playback" where
  "refresh_layer_timers env s =
     (let s1 = schedule_timers_with_identity env (pb_current s) (pb_current_layer s) s
      in refresh_clip env
           (fold (\<lambda>e. schedule_timers_with_identity env (ov_root e) (ov_layer e)) (pb_overlays s1) s1))"

section \<open>Variables\<close>

definition runtime_variable_source :: "player_env \<Rightarrow> playback \<Rightarrow> node_id \<Rightarrow> node_id" where
  "runtime_variable_source env s source =
     (case fmlookup (rl_occurrences (reaction_layer env s False)) source of
        None \<Rightarrow> source
      | Some occ \<Rightarrow> (case occ_instance_path occ of [] \<Rightarrow> occ_node occ | p # _ \<Rightarrow> p))"

definition runtime_variable_value ::
  "player_env \<Rightarrow> playback \<Rightarrow> node_id \<Rightarrow> variable_id \<Rightarrow> resolved_var_value option" where
  "runtime_variable_value env s source v =
     resolve_bound_value (pb_variables s) (pb_scene s) (runtime_variable_source env s source) (pb_active_modes s) v"

definition variable_mode :: "player_env \<Rightarrow> playback \<Rightarrow> node_id \<Rightarrow> variable_id \<Rightarrow> mode_id option" where
  "variable_mode env s source v =
     (case vreg_variable (pb_variables s) v of
        None \<Rightarrow> None
      | Some x \<Rightarrow>
          (case fmlookup (vreg_collections (pb_variables s)) (var_collection x) of
             None \<Rightarrow> None
           | Some coll \<Rightarrow>
               Some (resolve_effective_mode (pb_scene s) (runtime_variable_source env s source) coll (pb_active_modes s))))"

definition vreg_set_value :: "variable_id \<Rightarrow> mode_id \<Rightarrow> var_value option \<Rightarrow> variable_registry \<Rightarrow> variable_registry" where
  \<comment> \<open>insert or remove the value of a variable in a mode\<close>
  "vreg_set_value v m y reg =
     reg\<lparr>vreg_variables := fm_modify v
       (\<lambda>x. x\<lparr>var_values_by_mode :=
               (case y of Some y \<Rightarrow> fmupd m y (var_values_by_mode x) | None \<Rightarrow> fmdrop m (var_values_by_mode x))\<rparr>)
       (vreg_variables reg)\<rparr>"

definition vreg_stored :: "variable_registry \<Rightarrow> variable_id \<Rightarrow> mode_id \<Rightarrow> var_value option" where
  "vreg_stored reg v m = Option.bind (vreg_variable reg v) (\<lambda>x. fmlookup (var_values_by_mode x) m)"

definition set_variable :: "player_env \<Rightarrow> playback \<Rightarrow> node_id \<Rightarrow> variable_id \<Rightarrow> var_value \<Rightarrow> bool \<times> playback" where
  "set_variable env s source v y =
     (case vreg_variable (pb_variables s) v of
        None \<Rightarrow> (False, s)
      | Some x \<Rightarrow>
          (if (case var_value_variable_type y of None \<Rightarrow> False | Some ty \<Rightarrow> ty \<noteq> var_ty x) then (False, s)
           else (case variable_mode env s source v of
                   None \<Rightarrow> (False, s)
                 | Some m \<Rightarrow>
                     (True, refresh_layer_timers env
                        (s\<lparr>pb_variables := vreg_set_value v m (Some y) (pb_variables s),
                           pb_mode_generation := pb_mode_generation s + 1\<rparr>)))))"

definition cycled_value :: "playback \<Rightarrow> variable_id \<Rightarrow> string \<Rightarrow> var_value option" where
  \<comment> \<open>the option after the one that is shown\<close>
  "cycled_value s v shown =
     (case vreg_variable (pb_variables s) v of
        None \<Rightarrow> None
      | Some x \<Rightarrow>
          (if var_options x = [] then None
           else (let k = (case list_position (\<lambda>o'. o' = shown) (var_options x) of
                            None \<Rightarrow> 0 | Some k \<Rightarrow> (k + 1) mod length (var_options x))
                 in Some (VarValue_Enum (var_options x ! k)))))"

definition written_value :: "player_env \<Rightarrow> playback \<Rightarrow> node_id \<Rightarrow> action \<Rightarrow> (variable_id \<times> var_value) option" where
  \<comment> \<open>the variable an action writes and the value it would store now\<close>
  "written_value env s source a =
     (case a of
        Action_SetVariable v y \<Rightarrow> Some (v, y)
      | Action_AdjustVariable v delta \<Rightarrow>
          (case runtime_variable_value env s source v of
             Some (ResolvedVarValue_Float x) \<Rightarrow>
               (if f64_is_finite (f64_add x delta) then Some (v, VarValue_Float (f64_add x delta)) else None)
           | _ \<Rightarrow> None)
      | Action_ToggleVariable v \<Rightarrow>
          (case runtime_variable_value env s source v of
             Some (ResolvedVarValue_Boolean x) \<Rightarrow> Some (v, VarValue_Boolean (\<not> x)) | _ \<Rightarrow> None)
      | Action_CycleVariable v \<Rightarrow>
          (case runtime_variable_value env s source v of
             Some (ResolvedVarValue_Enum x) \<Rightarrow> map_option (Pair v) (cycled_value s v x) | _ \<Rightarrow> None)
      | _ \<Rightarrow> None)"

definition value_order :: "resolved_var_value \<Rightarrow> resolved_var_value \<Rightarrow> (bool \<times> bool) option" where
  \<comment> \<open>whether the first is less, and whether they are equal, where they can be ordered\<close>
  "value_order a b =
     (case (a, b) of
        (ResolvedVarValue_Float x, ResolvedVarValue_Float y) \<Rightarrow>
          (if f64_is_finite x \<and> f64_is_finite y then Some (f64_lt x y, f64_eq x y) else None)
      | (ResolvedVarValue_String x, ResolvedVarValue_String y) \<Rightarrow> Some (str_less x y, x = y)
      | (ResolvedVarValue_Enum x, ResolvedVarValue_Enum y) \<Rightarrow> Some (str_less x y, x = y)
      | _ \<Rightarrow> None)"

definition compare_values :: "compare_op \<Rightarrow> resolved_var_value \<Rightarrow> resolved_var_value \<Rightarrow> bool" where
  "compare_values op a b =
     (resolved_variable_type a = resolved_variable_type b \<and>
      (case op of
         CompareOp_Equal \<Rightarrow> resolved_value_eq a b
       | CompareOp_NotEqual \<Rightarrow> \<not> resolved_value_eq a b
       | CompareOp_Less \<Rightarrow> (case value_order a b of None \<Rightarrow> False | Some (lt, eq) \<Rightarrow> lt)
       | CompareOp_LessOrEqual \<Rightarrow> (case value_order a b of None \<Rightarrow> False | Some (lt, eq) \<Rightarrow> lt \<or> eq)
       | CompareOp_Greater \<Rightarrow> (case value_order a b of None \<Rightarrow> False | Some (lt, eq) \<Rightarrow> \<not> lt \<and> \<not> eq)
       | CompareOp_GreaterOrEqual \<Rightarrow> (case value_order a b of None \<Rightarrow> False | Some (lt, eq) \<Rightarrow> \<not> lt)))"

fun condition_matches :: "player_env \<Rightarrow> playback \<Rightarrow> node_id \<Rightarrow> condition \<Rightarrow> bool" where
  "condition_matches env s source (Condition_Compare v op y) =
     (case runtime_variable_value env s source v of
        None \<Rightarrow> False
      | Some actual \<Rightarrow>
          (case (case y of VarValue_Alias w \<Rightarrow> runtime_variable_value env s source w | _ \<Rightarrow> as_resolved y) of
             None \<Rightarrow> False
           | Some expected \<Rightarrow> compare_values op actual expected))"
| "condition_matches env s source (Condition_All cs) = list_all (condition_matches env s source) cs"
| "condition_matches env s source (Condition_Any cs) = list_ex (condition_matches env s source) cs"
| "condition_matches env s source (Condition_Not c) = (\<not> condition_matches env s source c)"

section \<open>Reactions that are undone when they end\<close>

fun id_chain :: "nat \<Rightarrow> node_map \<Rightarrow> node_id option \<Rightarrow> node_id list" where
  \<comment> \<open>from a node up; a parent that is missing ends the walk after it\<close>
  "id_chain 0 ns cursor = []"
| "id_chain (Suc fuel) ns cursor =
     (case cursor of None \<Rightarrow> [] | Some i \<Rightarrow> i # id_chain fuel ns (Option.bind (fmlookup ns i) cn_parent))"

definition up_chain :: "scene \<Rightarrow> node_id option \<Rightarrow> node_id list" where
  "up_chain sc cursor = id_chain (walk_fuel (sc_nodes sc)) (sc_nodes sc) cursor"

definition ancestor_chain :: "player_env \<Rightarrow> playback \<Rightarrow> node_id option \<Rightarrow> node_id list" where
  "ancestor_chain env s hit = up_chain (rl_scene (reaction_layer env s True)) hit"

definition variant_set_for_component :: "component_library \<Rightarrow> component_id \<Rightarrow> component_id option" where
  "variant_set_for_component lib c =
     (if fmlookup (clib_sets lib) c \<noteq> None then Some c
      else Option.bind (fmlookup (clib_defs lib) c) (\<lambda>d. map_option component_set_membership_set (cdef_variant_of d)))"

definition instance_takes :: "playback \<Rightarrow> resolved_layer \<Rightarrow> component_id \<Rightarrow> node_id \<Rightarrow> bool" where
  \<comment> \<open>the node stands for an instance of the component or of its set\<close>
  "instance_takes s rl component i =
     (case Option.bind (fmlookup (rl_occurrences rl) i) (\<lambda>occ. scene_get (pb_scene s) (occ_node occ)) of
        None \<Rightarrow> False
      | Some n \<Rightarrow>
          (case cn_data n of
             NodeData_Instance x \<Rightarrow>
               (let lib = oc_components (doc_slices (pb_doc s));
                    set_of = (\<lambda>c. case variant_set_for_component lib c of None \<Rightarrow> c | Some t \<Rightarrow> t)
                in inst_component x = component \<or> set_of (inst_component x) = set_of component)
           | _ \<Rightarrow> False))"

definition source_instance :: "player_env \<Rightarrow> playback \<Rightarrow> node_id \<Rightarrow> component_id \<Rightarrow> node_id option" where
  "source_instance env s source component =
     (let rl = reaction_layer env s False
      in find (instance_takes s rl component)
           (filter (scene_contains (rl_scene rl)) (up_chain (rl_scene rl) (Some source))))"

fun variable_captures :: "player_env \<Rightarrow> playback \<Rightarrow> node_id \<Rightarrow> action \<Rightarrow> variable_restore list"
and branch_variable_captures :: "player_env \<Rightarrow> playback \<Rightarrow> node_id \<Rightarrow> conditional_branch \<Rightarrow> variable_restore list" where
  "variable_captures env s source (Action_Conditional bs other) =
     concat (map (branch_variable_captures env s source) bs) @ concat (map (variable_captures env s source) other)"
| "variable_captures env s source a =
     (case written_value env s source a of
        None \<Rightarrow> []
      | Some (v, y) \<Rightarrow>
          (case variable_mode env s source v of
             None \<Rightarrow> []
           | Some m \<Rightarrow>
               [\<lparr>vr_variable = v, vr_mode = m, vr_previous = vreg_stored (pb_variables s) v m, vr_applied = y\<rparr>]))"
| "branch_variable_captures env s source (ConditionalBranch c as) = concat (map (variable_captures env s source) as)"

fun variant_captures :: "player_env \<Rightarrow> playback \<Rightarrow> node_id \<Rightarrow> action \<Rightarrow> variant_restore list"
and branch_variant_captures :: "player_env \<Rightarrow> playback \<Rightarrow> node_id \<Rightarrow> conditional_branch \<Rightarrow> variant_restore list" where
  "variant_captures env s source (Action_UpdateVariant component variant) =
     (case source_instance env s source component of
        None \<Rightarrow> []
      | Some i \<Rightarrow>
          [\<lparr>ir_instance = i, ir_previous = fmlookup (pb_instance_overrides s) i, ir_applied = (component, variant)\<rparr>])"
| "variant_captures env s source (Action_Conditional bs other) =
     concat (map (branch_variant_captures env s source) bs) @ concat (map (variant_captures env s source) other)"
| "variant_captures env s source _ = []"
| "branch_variant_captures env s source (ConditionalBranch c as) = concat (map (variant_captures env s source) as)"

definition active_pointer_reaction :: "player_env \<Rightarrow> playback \<Rightarrow> node_id \<Rightarrow> reaction \<Rightarrow> pointer_reaction" where
  "active_pointer_reaction env s source r =
     \<lparr>ar_source = source, ar_reaction = rx_id r,
      ar_variant_restores = concat (map (variant_captures env s source) (reaction_actions r)),
      ar_variable_restores = concat (map (variable_captures env s source) (reaction_actions r))\<rparr>"

definition restore_variant ::
  "variant_restore \<Rightarrow> bool \<times> (node_id, component_id \<times> string) fmap \<Rightarrow> bool \<times> (node_id, component_id \<times> string) fmap" where
  "restore_variant r st =
     (if fmlookup (snd st) (ir_instance r) \<noteq> Some (ir_applied r) \<or> ir_previous r = Some (ir_applied r) then st
      else (True, case ir_previous r of
                    Some p \<Rightarrow> fmupd (ir_instance r) p (snd st) | None \<Rightarrow> fmdrop (ir_instance r) (snd st)))"

definition restore_variable ::
  "variable_restore \<Rightarrow> bool \<times> variable_registry \<times> u64 \<Rightarrow> bool \<times> variable_registry \<times> u64" where
  \<comment> \<open>with the generation, which a restored value advances\<close>
  "restore_variable r st =
     (case st of
        (changed, reg, generation) \<Rightarrow>
          (if \<not> rel_option var_value_eq (vreg_stored reg (vr_variable r) (vr_mode r)) (Some (vr_applied r)) \<or>
              rel_option var_value_eq (vr_previous r) (Some (vr_applied r))
           then st
           else (True, vreg_set_value (vr_variable r) (vr_mode r) (vr_previous r) reg, generation + 1)))"

definition restore_pointer_reaction :: "player_env \<Rightarrow> pointer_reaction option \<Rightarrow> playback \<Rightarrow> handled" where
  "restore_pointer_reaction env active s =
     (case active of
        None \<Rightarrow> (response_default, s)
      | Some a \<Rightarrow>
          (let (variant_changed, overrides) =
                 fold restore_variant (rev (ar_variant_restores a)) (False, pb_instance_overrides s);
               (changed, reg, generation) =
                 fold restore_variable (rev (ar_variable_restores a)) (variant_changed, pb_variables s, pb_mode_generation s)
           in if \<not> changed then (response_default, s)
              else (response_redraw,
                    refresh_layer_timers env
                      (s\<lparr>pb_instance_overrides := overrides, pb_variables := reg, pb_mode_generation := generation,
                         pb_variant_transition := (if variant_changed then None else pb_variant_transition s)\<rparr>))))"

definition restore_hovered_reaction :: "player_env \<Rightarrow> playback \<Rightarrow> handled" where
  "restore_hovered_reaction env s = restore_pointer_reaction env (pb_hovered s) (s\<lparr>pb_hovered := None\<rparr>)"

definition restore_pressed_reaction :: "player_env \<Rightarrow> playback \<Rightarrow> handled" where
  "restore_pressed_reaction env s = restore_pointer_reaction env (pb_pressed s) (s\<lparr>pb_pressed := None\<rparr>)"

end
