(* ===== verification/PlaybackRun.thy ===== *)
theory PlaybackRun
  imports Playback
begin

text \<open>
  What the prototype player does (\<open>fanta_present.rs\<close>, \<open>playback.rs\<close>): the actions of a reaction, the
  answers to pointer and keys, the advance of time, and the calls of the host.
\<close>

section \<open>Frames and scrolling\<close>

definition effective_scroll_direction :: "group_node \<Rightarrow> scroll_direction" where
  "effective_scroll_direction g =
     (case gn_scroll_direction g of
        Some d \<Rightarrow> d | None \<Rightarrow> if gn_scrollable g then ScrollDirection_Both else ScrollDirection_None)"

definition scroll_offset :: "playback \<Rightarrow> node_id \<Rightarrow> vec2" where
  "scroll_offset s i = (case fmlookup (pb_scroll_offsets s) i of Some p \<Rightarrow> p | None \<Rightarrow> (0, 0))"

definition set_scroll_offset :: "player_env \<Rightarrow> node_id \<Rightarrow> vec2 \<Rightarrow> playback \<Rightarrow> playback" where
  "set_scroll_offset env i offset s =
     s\<lparr>pb_scroll_offsets := fmupd i (pe_clamped_offset env s i offset) (pb_scroll_offsets s)\<rparr>"

definition seeded_scroll :: "scene \<Rightarrow> node_id \<Rightarrow> (node_id \<times> vec2) option" where
  "seeded_scroll sc i =
     (case scene_get sc i of
        None \<Rightarrow> None
      | Some n \<Rightarrow>
          (case cn_data n of
             NodeData_Group g \<Rightarrow>
               (if effective_scroll_direction g = ScrollDirection_None then None
                else map_option (Pair i) (gn_scroll_offset g))
           | _ \<Rightarrow> None))"

definition seed_initial_scroll_offsets :: "player_env \<Rightarrow> node_id \<Rightarrow> playback \<Rightarrow> playback" where
  "seed_initial_scroll_offsets env frame s =
     fold (\<lambda>(i, offset). set_scroll_offset env i offset)
       (List.map_filter (seeded_scroll (pb_scene s)) (descendants_of (pb_scene s) frame)) s"

definition camera_of_frame :: "player_env \<Rightarrow> scene \<Rightarrow> node_id \<Rightarrow> playback \<Rightarrow> camera" where
  "camera_of_frame env sc frame s = frame_camera (pe_bounds env sc frame) (pb_screen_size s) (pb_fit_mode s)"

definition enter_frame :: "player_env \<Rightarrow> node_id \<Rightarrow> playback \<Rightarrow> playback" where
  "enter_frame env frame s0 =
     (let s = snd (restore_pressed_reaction env (snd (restore_hovered_reaction env s0)));
          s1 = s\<lparr>pb_hover_chain := [], pb_current := frame, pb_dispatch_layer := None,
                 pb_current_layer := pb_next_layer s, pb_next_layer := pb_next_layer s + 1,
                 pb_camera := camera_of_frame env (pb_scene s) frame s, pb_overlays := [],
                 pb_overlay_transition := None, pb_overlay_exit := None, pb_variant_transition := None,
                 pb_animation := None, pb_scroll_animation := None, pb_scroll_offsets := fmempty\<rparr>;
          s2 = seed_initial_scroll_offsets env frame s1;
          s3 = schedule_timers env frame (s2\<lparr>pb_timers := [], pb_timer_membership := {||}\<rparr>)
      in s3\<lparr>pb_camera := camera_of_frame env (rl_scene (resolved_layer_of env s3 frame False)) frame s3\<rparr>)"

definition begin_transition ::
  "node_id \<Rightarrow> camera \<Rightarrow> node_id \<Rightarrow> camera \<Rightarrow> transition option \<Rightarrow> playback \<Rightarrow> bool \<times> playback" where
  "begin_transition from_frame from_camera to_frame to_camera tr s0 =
     (let s = s0\<lparr>pb_overlay_transition := None, pb_overlay_exit := None, pb_variant_transition := None\<rparr>
      in case tr of
           None \<Rightarrow> (False, s\<lparr>pb_transition := None\<rparr>)
         | Some t \<Rightarrow>
             (if transition_style t \<noteq> TransitionStyle_Instant \<and> transition_duration_ms t > 0
              then (True, s\<lparr>pb_transition := Some
                     \<lparr>at_from_frame = from_frame, at_from_camera = from_camera, at_to_frame = to_frame,
                      at_to_camera = to_camera, at_style = transition_style t, at_easing = transition_easing t,
                      at_duration = f64_div (f64_of_nat (unat (transition_duration_ms t))) f64_thousand,
                      at_elapsed = 0\<rparr>\<rparr>)
              else (False, s\<lparr>pb_transition := None\<rparr>)))"

definition response_navigated :: "bool \<Rightarrow> present_response" where
  "response_navigated animating =
     response_default\<lparr>pr_needs_redraw := True, pr_navigated := True, pr_animating := animating\<rparr>"

section \<open>Actions\<close>

definition do_navigate :: "player_env \<Rightarrow> node_id \<Rightarrow> transition option \<Rightarrow> playback \<Rightarrow> handled" where
  "do_navigate env to tr s =
     (if \<not> scene_contains (pb_scene s) to then (response_default, s)
      else
        (let entry = \<lparr>nav_frame = pb_current s, nav_camera = pb_camera s, nav_scroll_snapshot = pb_scroll_offsets s\<rparr>;
             s1 = enter_frame env to (s\<lparr>pb_back_stack := pb_back_stack s @ [entry]\<rparr>);
             (animating, s2) = begin_transition (nav_frame entry) (nav_camera entry) to (pb_camera s1) tr s1
         in (response_navigated animating, s2)))"

definition do_back :: "player_env \<Rightarrow> transition option \<Rightarrow> playback \<Rightarrow> handled" where
  "do_back env tr s =
     (case last_opt (pb_back_stack s) of
        None \<Rightarrow> (response_default, s)
      | Some entry \<Rightarrow>
          (let s1 = enter_frame env (nav_frame entry) (s\<lparr>pb_back_stack := butlast (pb_back_stack s)\<rparr>);
               s2 = s1\<lparr>pb_camera := nav_camera entry, pb_scroll_offsets := nav_scroll_snapshot entry\<rparr>;
               (animating, s3) = begin_transition (pb_current s) (pb_camera s) (nav_frame entry) (nav_camera entry) tr s2
           in (response_navigated animating, s3)))"

definition closing_overlay :: "player_env \<Rightarrow> overlay_entry \<Rightarrow> transition option \<Rightarrow> overlay_transition option \<Rightarrow> overlay_exit option" where
  \<comment> \<open>an entry that is interrupted runs back from where it is, in its own style\<close>
  "closing_overlay env closed tr entering =
     (let interrupted =
            (case entering of
               None \<Rightarrow> None
             | Some a \<Rightarrow>
                 (if ot_root a = ov_root closed
                  then Some (tc_style (ot_clock a),
                         pe_ease env (tc_easing (ot_clock a))
                           (linear_progress (tc_elapsed (ot_clock a)) (tc_duration (ot_clock a))))
                  else None))
      in map_option
           (\<lambda>clock. case interrupted of
                      None \<Rightarrow> \<lparr>oe_entry = closed, oe_clock = clock, oe_start_visible = f64_one\<rparr>
                    | Some (style, visible) \<Rightarrow>
                        \<lparr>oe_entry = closed, oe_clock = clock\<lparr>tc_style := style\<rparr>, oe_start_visible = visible\<rparr>)
           (clock_from_transition tr))"

definition do_close :: "player_env \<Rightarrow> transition option \<Rightarrow> playback \<Rightarrow> handled" where
  "do_close env tr s =
     (case last_opt (pb_overlays s) of
        None \<Rightarrow> (response_default\<lparr>pr_exited := True\<rparr>, s)
      | Some closed \<Rightarrow>
          (let exit_state = closing_overlay env closed tr (pb_overlay_transition s);
               s1 = cancel_timers (ov_layer closed)
                      (s\<lparr>pb_overlays := butlast (pb_overlays s), pb_overlay_transition := None,
                         pb_variant_transition := None, pb_animation := None\<rparr>);
               s2 = snd (restore_pressed_reaction env (snd (restore_hovered_reaction env s1)));
               s3 = s2\<lparr>pb_overlay_exit := exit_state\<rparr>
           in (response_navigated (exit_state \<noteq> None), s3)))"

definition open_overlay ::
  "player_env \<Rightarrow> node_id \<Rightarrow> overlay_settings \<Rightarrow> transition option \<Rightarrow> playback \<Rightarrow> handled" where
  "open_overlay env frame settings tr s =
     (if \<not> scene_contains (pb_scene s) frame then (response_default, s)
      else (case pe_bounds env (rl_scene (pe_layer env s frame (pb_next_layer s) False)) frame of
              None \<Rightarrow> (response_default, s)
            | Some b \<Rightarrow>
                (let (camera, rect) =
                       place_overlay (camera_scale (active_camera s)) b (overlay_settings_position settings)
                         (pb_screen_size s);
                     s1 = snd (restore_pressed_reaction env (snd (restore_hovered_reaction env s)));
                     s2 = s1\<lparr>pb_overlays := pb_overlays s1 @
                               [\<lparr>ov_root = frame, ov_layer = pb_next_layer s1, ov_settings = settings,
                                 ov_camera = camera, ov_screen_rect = rect\<rparr>],
                             pb_next_layer := pb_next_layer s1 + 1\<rparr>;
                     s3 = schedule_timers env frame s2;
                     entering = map_option (\<lambda>c. \<lparr>ot_root = frame, ot_clock = c\<rparr>) (clock_from_transition tr)
                 in (response_navigated (entering \<noteq> None),
                     s3\<lparr>pb_transition := None, pb_variant_transition := None, pb_animation := None,
                        pb_overlay_exit := None, pb_overlay_transition := entering\<rparr>))))"

definition do_set_variable :: "player_env \<Rightarrow> node_id \<Rightarrow> action \<Rightarrow> playback \<Rightarrow> handled" where
  \<comment> \<open>the four actions that write a variable\<close>
  "do_set_variable env source a s =
     (case written_value env s source a of
        None \<Rightarrow> (response_default, s)
      | Some (v, y) \<Rightarrow>
          (let (written, s') = set_variable env s source v y
           in (response_default\<lparr>pr_needs_redraw := written\<rparr>, s')))"

definition do_update_variant ::
  "player_env \<Rightarrow> node_id \<Rightarrow> component_id \<Rightarrow> string \<Rightarrow> transition option \<Rightarrow> playback \<Rightarrow> handled" where
  "do_update_variant env source component variant tr s =
     (let s1 = (case source_instance env s source component of
                  Some i \<Rightarrow> s\<lparr>pb_instance_overrides := fmupd i (component, variant) (pb_instance_overrides s)\<rparr>
                | None \<Rightarrow> s\<lparr>pb_variant_overrides := fmupd component variant (pb_variant_overrides s)\<rparr>);
          s2 = s1\<lparr>pb_transition := None, pb_overlay_transition := None, pb_overlay_exit := None\<rparr>;
          clock = (case clock_from_transition tr of
                     None \<Rightarrow> None
                   | Some c \<Rightarrow>
                       (if pe_variants_differ env s2 (pb_variant_overrides s) (pb_instance_overrides s) then Some c
                        else None));
          s3 = refresh_layer_timers env (s2\<lparr>pb_variant_transition := clock\<rparr>)
      in (response_redraw\<lparr>pr_animating := pb_variant_transition s3 \<noteq> None\<rparr>, s3))"

definition resolve_action_target :: "player_env \<Rightarrow> playback \<Rightarrow> node_id \<Rightarrow> node_id \<Rightarrow> node_id option" where
  "resolve_action_target env s source target =
     (let rl = reaction_layer env s False;
          scope = (case fmlookup (rl_occurrences rl) source of
                     None \<Rightarrow> None
                   | Some occ \<Rightarrow>
                       (if occ_instance_path occ \<noteq> [] \<or> fmlookup (rl_master_roots rl) source \<noteq> None
                        then Some occ else None))
      in case scope of
           None \<Rightarrow> (if scene_contains (pb_scene s) target then Some target else None)
         | Some _ \<Rightarrow> (case motion_candidates s rl target scope of [] \<Rightarrow> None | i # _ \<Rightarrow> Some i))"

definition animated_scroll :: "transition option \<Rightarrow> transition option" where
  "animated_scroll tr =
     (case tr of
        Some t \<Rightarrow>
          (if transition_style t = TransitionStyle_ScrollAnimate \<and> transition_duration_ms t > 0 then Some t else None)
      | None \<Rightarrow> None)"

definition do_scroll_to :: "player_env \<Rightarrow> node_id \<Rightarrow> node_id \<Rightarrow> transition option \<Rightarrow> playback \<Rightarrow> handled" where
  "do_scroll_to env source target tr s =
     (let found = resolve_action_target env s source target in
      case Option.bind found (pe_bounds env (rl_scene (reaction_layer env s True))) of
        None \<Rightarrow> (response_default, s)
      | Some b \<Rightarrow>
          (case Option.bind found (pe_scroll_target env s) of
             Some (scrollable, offset) \<Rightarrow>
               (case animated_scroll tr of
                  Some t \<Rightarrow>
                    (response_navigated True,
                     s\<lparr>pb_scroll_animation := Some
                        \<lparr>sa_scrollable = scrollable, sa_from = scroll_offset s scrollable,
                         sa_to = pe_clamped_offset env s scrollable offset, sa_easing = transition_easing t,
                         sa_duration = f64_div (f64_of_nat (unat (transition_duration_ms t))) f64_thousand,
                         sa_elapsed = 0\<rparr>\<rparr>)
                | None \<Rightarrow> (response_navigated False, set_scroll_offset env scrollable offset s))
           | None \<Rightarrow>
               (response_navigated False, s\<lparr>pb_camera := (pb_camera s)\<lparr>camera_center := bounds_center b\<rparr>\<rparr>)))"

definition execute_one :: "player_env \<Rightarrow> action \<Rightarrow> node_id \<Rightarrow> transition option \<Rightarrow> playback \<Rightarrow> handled" where
  \<comment> \<open>every action but a conditional\<close>
  "execute_one env a source tr s =
     (case a of
        Action_Navigate to \<Rightarrow> do_navigate env to tr s
      | Action_Back \<Rightarrow> do_back env tr s
      | Action_Close \<Rightarrow> do_close env tr s
      | Action_OpenOverlay frame settings \<Rightarrow> open_overlay env frame settings tr s
      | Action_UpdateVariant component variant \<Rightarrow> do_update_variant env source component variant tr s
      | Action_OpenLink url \<Rightarrow> (response_redraw, s\<lparr>pb_pending_url := Some url\<rparr>)
      | Action_ScrollTo target \<Rightarrow> do_scroll_to env source target tr s
      | Action_Conditional _ _ \<Rightarrow> (response_default, s)
      | _ \<Rightarrow> do_set_variable env source a s)"

section \<open>Reactions\<close>

type_synonym scopes = "(node_id \<times> node_occurrence) list"

definition reaction_instance_ancestors :: "player_env \<Rightarrow> playback \<Rightarrow> node_id \<Rightarrow> scopes" where
  "reaction_instance_ancestors env s source =
     (let rl = reaction_layer env s False
      in List.map_filter
           (\<lambda>i. if fmlookup (rl_master_roots rl) i = None then None
                else map_option (Pair i) (fmlookup (rl_occurrences rl) i))
           (up_chain (rl_scene rl) (Some source)))"

definition surviving_reaction_source ::
  "player_env \<Rightarrow> playback \<Rightarrow> node_id \<Rightarrow> node_occurrence \<Rightarrow> scopes \<Rightarrow> (node_id \<times> u64 \<times> node_id) option" where
  "surviving_reaction_source env s source original ancestors =
     (case (if occ_layer original = pb_current_layer s then Some (pb_current s)
            else map_option ov_root (find (\<lambda>e. ov_layer e = occ_layer original) (pb_overlays s))) of
        None \<Rightarrow> None
      | Some root \<Rightarrow>
          (let occs = rl_occurrences (pe_layer env s root (occ_layer original) False);
               found = (if fmlookup occs source = Some original then Some source
                        else map_option fst (find (\<lambda>(i, occ). fmlookup occs i = Some occ) ancestors))
           in map_option (\<lambda>i. (i, occ_layer original, root)) found))"

definition original_source :: "player_env \<Rightarrow> playback \<Rightarrow> node_id \<Rightarrow> scopes \<Rightarrow> node_occurrence option" where
  "original_source env s source ancestors =
     (if ancestors = [] then None else fmlookup (rl_occurrences (reaction_layer env s False)) source)"

definition action_source ::
  "player_env \<Rightarrow> playback \<Rightarrow> node_id \<Rightarrow> node_occurrence option \<Rightarrow> scopes \<Rightarrow> (node_id \<times> playback) option" where
  \<comment> \<open>the node an action runs from, with the layer it dispatches to\<close>
  "action_source env s source original ancestors =
     (case original of
        None \<Rightarrow> Some (source, s)
      | Some occ \<Rightarrow>
          map_option (\<lambda>(i, layer). (i, s\<lparr>pb_dispatch_layer := Some layer\<rparr>))
            (surviving_reaction_source env s source occ ancestors))"

definition scope_missing :: "playback \<Rightarrow> playback" where
  "scope_missing s =
     s\<lparr>pb_events := pb_events s @ [PlaybackEvent_Diagnostic ''reactionScopeMissing''
          ''The component instance owning this reaction is no longer active'']\<rparr>"

definition note_press :: "action \<Rightarrow> playback \<Rightarrow> playback" where
  "note_press a s =
     (if pb_recording_press s \<and> down_action_suppresses_click a then s\<lparr>pb_suppress_next_click := True\<rparr> else s)"

definition after_action :: "playback \<Rightarrow> playback \<Rightarrow> playback" where
  \<comment> \<open>unless a frame was entered, the dispatch layer is put back\<close>
  "after_action before s = (if pb_current s = pb_current before then s\<lparr>pb_dispatch_layer := pb_dispatch_layer before\<rparr> else s)"

function execute :: "player_env \<Rightarrow> action \<Rightarrow> node_id \<Rightarrow> transition option \<Rightarrow> playback \<Rightarrow> handled"
and run_branches ::
  "player_env \<Rightarrow> conditional_branch list \<Rightarrow> action list \<Rightarrow> node_id \<Rightarrow> transition option \<Rightarrow> playback \<Rightarrow> handled"
and run_actions ::
  "player_env \<Rightarrow> action list \<Rightarrow> node_id \<Rightarrow> node_occurrence option \<Rightarrow> scopes \<Rightarrow> transition option \<Rightarrow>
     present_response \<Rightarrow> playback \<Rightarrow> bool \<times> handled" where
  \<comment> \<open>the first component of \<open>run_actions\<close> says that the reaction ends here, without its animation\<close>
  "execute env a source tr s =
     (case a of
        Action_Conditional bs other \<Rightarrow> run_branches env bs other source tr s
      | _ \<Rightarrow> execute_one env a source tr s)"
| "run_branches env bs other source tr s =
     (case bs of
        [] \<Rightarrow>
          (let ancestors = reaction_instance_ancestors env s source
           in snd (run_actions env other source (original_source env s source ancestors) ancestors tr response_default s))
      | ConditionalBranch c as # bs' \<Rightarrow>
          (if condition_matches env s source c
           then (let ancestors = reaction_instance_ancestors env s source
                 in snd (run_actions env as source (original_source env s source ancestors) ancestors tr response_default s))
           else run_branches env bs' other source tr s))"
| "run_actions env acts source original ancestors tr resp s =
     (case acts of
        [] \<Rightarrow> (False, resp, s)
      | a # as \<Rightarrow>
          (case action_source env s source original ancestors of
             None \<Rightarrow> (True, resp, scope_missing s)
           | Some (i, s1) \<Rightarrow>
               (let (r, s2) = execute env a i tr (note_press a s1);
                    resp' = merge_responses resp r;
                    s3 = after_action s s2
                in if pr_exited resp' then (True, resp', s3)
                   else if pb_current s2 \<noteq> pb_current s then (False, resp', s3)
                   else run_actions env as source original ancestors tr resp' s3)))"
  by pat_completeness auto

termination
  by (relation "measures
        [\<lambda>x. case x of Inl (env, a, _) \<Rightarrow> size a
             | Inr (Inl (env, bs, other, _)) \<Rightarrow> size_list size bs + size_list size other
             | Inr (Inr (env, as, _)) \<Rightarrow> size_list size as,
         \<lambda>x. case x of Inl _ \<Rightarrow> 0 | Inr (Inl _) \<Rightarrow> 1 | Inr (Inr _) \<Rightarrow> 0]")
     auto

declare execute.simps [simp del] run_branches.simps [simp del] run_actions.simps [simp del]

end
