(* ===== verification/PlaybackInput.thy ===== *)
theory PlaybackInput
  imports PlaybackRun
begin

text \<open>
  What drives the prototype player (\<open>fanta_present.rs\<close>, \<open>playback.rs\<close>): whole reactions with their
  animation, pointer and key events, the advance of time with its timers, and the calls of the host.
\<close>

section \<open>Reactions\<close>

definition mark_completed :: "animation_clip_id \<Rightarrow> playback \<Rightarrow> playback" where
  "mark_completed clip s =
     s\<lparr>pb_events := pb_events s @ [PlaybackEvent_ClipCompleted clip],
       pb_animation := map_option (\<lambda>a. a\<lparr>pa_completion_emitted := True\<rparr>) (pb_animation s)\<rparr>"

definition empty_clip :: "playback \<Rightarrow> animation_clip_id \<Rightarrow> bool" where
  "empty_clip s clip =
     (case fmlookup (mlib_clips (pb_motion s)) clip of None \<Rightarrow> False | Some c \<Rightarrow> clip_duration_ms c = 0)"

definition start_prototype_animation ::
  "player_env \<Rightarrow> node_occurrence option \<Rightarrow> prototype_animation \<Rightarrow> playback \<Rightarrow> handled" where
  "start_prototype_animation env scope an s =
     (let clip = prototype_animation_clip an; delay = prototype_animation_delay_ms an in
      case resolve_motion_targets env s clip scope of
        Inl e \<Rightarrow>
          (response_default,
           s\<lparr>pb_events := pb_events s @ [PlaybackEvent_Diagnostic ''invalidMotionTarget'' (pe_error_text env e)]\<rparr>)
      | Inr targets \<Rightarrow>
          (let active =
                 \<lparr>pa_clip = clip, pa_delay = f64_div (f64_of_nat (unat delay)) f64_thousand, pa_elapsed = 0,
                  pa_mode = (case fmlookup (mlib_clips (pb_motion s)) clip of
                               None \<Rightarrow> ClipPlaybackMode_Once | Some c \<Rightarrow> clip_mode_of (cs_loop_mode (clip_settings c))),
                  pa_paused = False, pa_completion_emitted = False\<rparr>;
               s1 = s\<lparr>pb_animation := Some active, pb_motion_scope := scope, pb_motion_targets := targets\<rparr>;
               s2 = (if delay = 0 \<and> empty_clip s clip then mark_completed clip s1 else s1)
           in (response_default\<lparr>pr_needs_redraw := pb_animation s \<noteq> None \<or> delay = 0,
                                pr_animating := animation_running (pb_motion s) active\<rparr>, s2)))"

definition execute_reaction ::
  "player_env \<Rightarrow> node_id \<Rightarrow> action list \<Rightarrow> transition option \<Rightarrow> prototype_animation option \<Rightarrow> playback \<Rightarrow> handled" where
  "execute_reaction env source acts tr an s =
     (let ancestors = reaction_instance_ancestors env s source;
          scope = (if an = None then None else map_option snd (case ancestors of [] \<Rightarrow> None | x # _ \<Rightarrow> Some x));
          (ended, resp, s1) =
            run_actions env acts source (original_source env s source ancestors) ancestors tr response_default s
      in if ended then (resp, s1)
         else (case an of
                 None \<Rightarrow> (resp, s1)
               | Some an \<Rightarrow>
                   (let (r, s2) = start_prototype_animation env scope an s1 in (merge_responses resp r, s2))))"

type_synonym matched_reaction = "node_id \<times> reaction"

definition first_matching :: "scene \<Rightarrow> (trigger \<Rightarrow> bool) \<Rightarrow> node_id list \<Rightarrow> matched_reaction option" where
  \<comment> \<open>the first node with a reaction to such a trigger, with the first of them\<close>
  "first_matching sc wanted is =
     (case List.map_filter
             (\<lambda>i. Option.bind (scene_get sc i)
                    (\<lambda>n. map_option (Pair i) (find (\<lambda>r. wanted (rx_trigger r)) (cn_reactions n)))) is of
        [] \<Rightarrow> None | m # _ \<Rightarrow> Some m)"

definition matching_reaction :: "player_env \<Rightarrow> playback \<Rightarrow> node_id option \<Rightarrow> trigger_kind \<Rightarrow> matched_reaction option" where
  "matching_reaction env s hit want =
     (let sc = rl_scene (reaction_layer env s True)
      in first_matching sc (\<lambda>t. trigger_matches t want) (up_chain sc hit))"

definition execute_matching :: "player_env \<Rightarrow> matched_reaction option \<Rightarrow> playback \<Rightarrow> handled" where
  "execute_matching env m s =
     (case m of
        None \<Rightarrow> (response_default, s)
      | Some (source, r) \<Rightarrow>
          execute_reaction env source (reaction_actions r) (rx_transition r) (rx_animation r) s)"

definition dispatch :: "player_env \<Rightarrow> node_id option \<Rightarrow> trigger_kind \<Rightarrow> playback \<Rightarrow> handled" where
  "dispatch env hit want s = execute_matching env (matching_reaction env s hit want) s"

definition and_also :: "handled \<Rightarrow> (playback \<Rightarrow> handled) \<Rightarrow> handled" where
  \<comment> \<open>a second step, its answer merged into the first\<close>
  "and_also h f = (let (r, s) = f (snd h) in (merge_responses (fst h) r, s))"

section \<open>Hovering\<close>

definition leave_reactions :: "player_env \<Rightarrow> playback \<Rightarrow> node_id list \<Rightarrow> matched_reaction list" where
  \<comment> \<open>of the nodes that are no longer hovered, innermost first\<close>
  "leave_reactions env s new_chain =
     (let sc = rl_scene (reaction_layer env s False)
      in List.map_filter
           (\<lambda>i. if i \<in> set new_chain then None else first_matching sc (\<lambda>t. t = Trigger_MouseLeave) [i])
           (pb_hover_chain s))"

fun run_leave_reactions :: "player_env \<Rightarrow> matched_reaction list \<Rightarrow> present_response \<Rightarrow> playback \<Rightarrow> handled" where
  "run_leave_reactions env [] resp s = (resp, s)"
| "run_leave_reactions env (m # ms) resp s =
     (let (r, s') = execute_matching env (Some m) s; resp' = merge_responses resp r
      in if pr_exited resp' \<or> pb_current s' \<noteq> pb_current s then (resp', s')
         else run_leave_reactions env ms resp' s')"

definition fire_mouse_leave :: "player_env \<Rightarrow> node_id option \<Rightarrow> playback \<Rightarrow> handled" where
  "fire_mouse_leave env hit s =
     (let new_chain = ancestor_chain env s hit
      in if new_chain = pb_hover_chain s then (response_default, s)
         else run_leave_reactions env (leave_reactions env s new_chain) response_default
                (s\<lparr>pb_hover_chain := new_chain\<rparr>))"

definition begin_hover :: "player_env \<Rightarrow> matched_reaction option \<Rightarrow> playback \<Rightarrow> playback" where
  "begin_hover env m s =
     s\<lparr>pb_hovered := map_option (\<lambda>(source, r). active_pointer_reaction env s source r) m\<rparr>"

definition update_hover :: "player_env \<Rightarrow> node_id option \<Rightarrow> playback \<Rightarrow> handled" where
  "update_hover env hit s0 =
     (let (left, s) = fire_mouse_leave env hit s0;
          m = matching_reaction env s hit TriggerKind_Hover
      in if map_option (\<lambda>a. (ar_source a, ar_reaction a)) (pb_hovered s) = map_option (\<lambda>(i, r). (i, rx_id r)) m
         then (left, s)
         else (let (restored, s1) = restore_hovered_reaction env s;
                   (fired, s2) = execute_matching env m (begin_hover env m s1)
               in (merge_responses left (merge_responses restored fired), s2)))"

section \<open>Pointer and keys\<close>

definition cancel_pointer_input :: "player_env \<Rightarrow> playback \<Rightarrow> handled" where
  "cancel_pointer_input env s =
     (let (resp, s') = and_also (restore_pressed_reaction env (s\<lparr>pb_hover_chain := [], pb_suppress_next_click := False\<rparr>))
                         (restore_hovered_reaction env)
      in (resp\<lparr>pr_animating := is_animating s'\<rparr>, s'))"

definition restore_both :: "player_env \<Rightarrow> playback \<Rightarrow> handled" where
  "restore_both env s = and_also (restore_hovered_reaction env s) (restore_pressed_reaction env)"

definition click_outside :: "player_env \<Rightarrow> vec2 \<Rightarrow> overlay_entry \<Rightarrow> playback \<Rightarrow> handled" where
  \<comment> \<open>a click that hits nothing while an overlay is open\<close>
  "click_outside env point front s =
     (if overlay_settings_close_on_click_outside (ov_settings front) \<and> \<not> rect_contains (ov_screen_rect front) point
      then
        (let s1 = cancel_timers (ov_layer front) (s\<lparr>pb_overlays := butlast (pb_overlays s)\<rparr>);
             entering = (case pb_overlay_transition s1 of
                           Some a \<Rightarrow> if ot_root a = ov_root front then None else Some a | None \<Rightarrow> None);
             (restored, s2) = restore_both env
               (s1\<lparr>pb_overlay_transition := entering, pb_overlay_exit := None, pb_animation := None\<rparr>)
         in (restored\<lparr>pr_needs_redraw := True, pr_navigated := True, pr_media_updated := False\<rparr>, s2))
      else (response_default, s))"

definition pointer_down :: "player_env \<Rightarrow> node_id option \<Rightarrow> playback \<Rightarrow> handled" where
  "pointer_down env hit s =
     (let m = matching_reaction env s hit TriggerKind_WhilePressing;
          (restored, s1) = (if m = None then restore_pressed_reaction env s
                            else and_also (restore_pressed_reaction env s) (restore_hovered_reaction env));
          s2 = s1\<lparr>pb_pressed := map_option (\<lambda>(source, r). active_pointer_reaction env s1 source r) m,
                  pb_suppress_next_click := False, pb_recording_press := True\<rparr>;
          (fired, s3) = execute_matching env m s2
      in ((merge_responses restored fired)\<lparr>pr_suppress_click := pb_suppress_next_click s3\<rparr>,
          s3\<lparr>pb_recording_press := False\<rparr>))"

definition pointer_up :: "player_env \<Rightarrow> node_id option \<Rightarrow> playback \<Rightarrow> handled" where
  "pointer_up env hit s =
     (let (restored, s') = restore_pressed_reaction env s
      in if pb_suppress_next_click s' then (restored, s') else and_also (restored, s') (update_hover env hit))"

definition pointer_click :: "player_env \<Rightarrow> node_id option \<Rightarrow> playback \<Rightarrow> handled" where
  "pointer_click env hit s =
     (if pb_suppress_next_click s then (response_default, s\<lparr>pb_suppress_next_click := False\<rparr>)
      else and_also (restore_hovered_reaction env s) (dispatch env hit TriggerKind_Click))"

definition handle_pointer :: "player_env \<Rightarrow> vec2 \<Rightarrow> pointer_event \<Rightarrow> playback \<Rightarrow> handled" where
  "handle_pointer env point ev s =
     (if ev = PointerEvent_Leave
      then and_also (fire_mouse_leave env None (s\<lparr>pb_suppress_next_click := False\<rparr>)) (restore_both env)
      else
        (let hit = pe_hit env s point in
         case (if ev = PointerEvent_Click \<and> hit = None then last_opt (pb_overlays s) else None) of
           Some front \<Rightarrow> click_outside env point front s
         | None \<Rightarrow>
             (case ev of
                PointerEvent_Move \<Rightarrow> update_hover env hit s
              | PointerEvent_Down \<Rightarrow> pointer_down env hit s
              | PointerEvent_Up \<Rightarrow> pointer_up env hit s
              | PointerEvent_Click \<Rightarrow> pointer_click env hit s
              | PointerEvent_DragStart \<Rightarrow>
                  and_also (restore_hovered_reaction env (s\<lparr>pb_suppress_next_click := False\<rparr>))
                    (dispatch env hit TriggerKind_Drag)
              | PointerEvent_Leave \<Rightarrow> (response_default, s))))"

definition ascii_lower :: "char \<Rightarrow> char" where
  "ascii_lower c = (let n = (of_char c :: nat) in if 65 \<le> n \<and> n \<le> 90 then char_of (n + 32) else c)"

definition eq_ignore_ascii_case :: "string \<Rightarrow> string \<Rightarrow> bool" where
  "eq_ignore_ascii_case a b \<longleftrightarrow> map ascii_lower a = map ascii_lower b"

definition key_matches :: "string \<Rightarrow> trigger \<Rightarrow> bool" where
  "key_matches key t = (case t of Trigger_Key keys \<Rightarrow> list_ex (\<lambda>k. eq_ignore_ascii_case k key) keys | _ \<Rightarrow> False)"

definition handle_key :: "player_env \<Rightarrow> string \<Rightarrow> key_event \<Rightarrow> playback \<Rightarrow> handled" where
  "handle_key env key ev s =
     (if ev \<noteq> KeyEvent_Down then (response_default, s)
      else
        (let root = layer_root s; sc = rl_scene (resolved_layer_of env s root False)
         in execute_matching env (first_matching sc (key_matches key) (descendants_of sc root)) s))"

section \<open>Time\<close>

definition MAX_TIMER_EVENTS_PER_TICK :: nat where "MAX_TIMER_EVENTS_PER_TICK = 4096"

definition step_media :: "f64 \<Rightarrow> playback \<Rightarrow> handled" where
  "step_media dt s =
     (let s1 = s\<lparr>pb_clock := f64_add (pb_clock s) dt\<rparr>
      in if pb_media_playing s
         then (response_default\<lparr>pr_media_updated := True\<rparr>,
               s1\<lparr>pb_media_time := f64_add (pb_media_time s) dt,
                  pb_node_media_times := fmmap (\<lambda>t. f64_add t dt) (pb_node_media_times s)\<rparr>)
         else (response_default, s1))"

definition response_step :: "bool \<Rightarrow> present_response" where
  \<comment> \<open>of a clock that ran: whether it goes on\<close>
  "response_step goes_on = response_default\<lparr>pr_needs_redraw := True, pr_animating := goes_on\<rparr>"

definition step_transition :: "f64 \<Rightarrow> playback \<Rightarrow> handled" where
  "step_transition dt s =
     (case pb_transition s of
        None \<Rightarrow> (response_default, s)
      | Some a \<Rightarrow>
          (let e = f64_add (at_elapsed a) dt; finished = elapsed_done e (at_duration a)
           in (response_step (\<not> finished),
               s\<lparr>pb_transition := (if finished then None else Some (a\<lparr>at_elapsed := e\<rparr>))\<rparr>)))"

definition step_clock :: "f64 \<Rightarrow> transition_clock \<Rightarrow> transition_clock option" where
  "step_clock dt c =
     (let e = f64_add (tc_elapsed c) dt in if elapsed_done e (tc_duration c) then None else Some (c\<lparr>tc_elapsed := e\<rparr>))"

definition step_overlay_transition :: "f64 \<Rightarrow> playback \<Rightarrow> handled" where
  "step_overlay_transition dt s =
     (case pb_overlay_transition s of
        None \<Rightarrow> (response_default, s)
      | Some a \<Rightarrow>
          (let c = step_clock dt (ot_clock a)
           in (response_step (c \<noteq> None), s\<lparr>pb_overlay_transition := map_option (\<lambda>c. a\<lparr>ot_clock := c\<rparr>) c\<rparr>)))"

definition step_overlay_exit :: "f64 \<Rightarrow> playback \<Rightarrow> handled" where
  "step_overlay_exit dt s =
     (case pb_overlay_exit s of
        None \<Rightarrow> (response_default, s)
      | Some a \<Rightarrow>
          (let c = step_clock dt (oe_clock a)
           in (response_step (c \<noteq> None), s\<lparr>pb_overlay_exit := map_option (\<lambda>c. a\<lparr>oe_clock := c\<rparr>) c\<rparr>)))"

definition step_variant_transition :: "f64 \<Rightarrow> playback \<Rightarrow> handled" where
  "step_variant_transition dt s =
     (case pb_variant_transition s of
        None \<Rightarrow> (response_default, s)
      | Some a \<Rightarrow> (let c = step_clock dt a in (response_step (c \<noteq> None), s\<lparr>pb_variant_transition := c\<rparr>)))"

definition clip_completed :: "motion_library \<Rightarrow> prototype_animation_state \<Rightarrow> bool" where
  "clip_completed lib a \<longleftrightarrow>
     \<not> pa_paused a \<and> \<not> pa_completion_emitted a \<and>
     (case fmlookup (mlib_clips lib) (pa_clip a) of
        None \<Rightarrow> False
      | Some clip \<Rightarrow>
          f64_ge (f64_add (pa_elapsed a) f64_1e_9)
            (f64_add (pa_delay a) (f64_div (f64_of_nat (unat (clip_duration_ms clip))) f64_thousand)) \<and>
          (pa_mode a = ClipPlaybackMode_Once \<or> clip_duration_ms clip = 0))"

definition step_animation :: "f64 \<Rightarrow> playback \<Rightarrow> handled" where
  "step_animation dt s =
     (case pb_animation s of
        None \<Rightarrow> (response_default, s)
      | Some a \<Rightarrow>
          (let lib = pb_motion s;
               a1 = (if pa_paused a then a else a\<lparr>pa_elapsed := f64_add (pa_elapsed a) dt\<rparr>);
               s1 = s\<lparr>pb_animation := Some a1\<rparr>
           in (response_default\<lparr>pr_needs_redraw := playhead_ms lib a \<noteq> playhead_ms lib a1,
                                pr_animating := animation_running lib a1\<rparr>,
               if clip_completed lib a1 then mark_completed (pa_clip a) s1 else s1)))"

definition step_scroll :: "player_env \<Rightarrow> f64 \<Rightarrow> playback \<Rightarrow> handled" where
  "step_scroll env dt s =
     (case pb_scroll_animation s of
        None \<Rightarrow> (response_default, s)
      | Some a0 \<Rightarrow>
          (let a = a0\<lparr>sa_elapsed := f64_add (sa_elapsed a0) dt\<rparr>;
               finished = elapsed_done (sa_elapsed a) (sa_duration a);
               eased = pe_ease env (sa_easing a) (linear_progress (sa_elapsed a) (sa_duration a));
               between = vec2_map2 (\<lambda>p q. f64_add p (f64_mul (f64_sub q p) eased)) (sa_from a) (sa_to a)
           in (response_step (\<not> finished),
               set_scroll_offset env (sa_scrollable a) between
                 (s\<lparr>pb_scroll_animation := (if finished then None else Some a)\<rparr>))))"

definition advance_continuous :: "player_env \<Rightarrow> f64 \<Rightarrow> playback \<Rightarrow> handled" where
  "advance_continuous env dt s =
     fold (\<lambda>f h. and_also h f)
       [step_transition dt, step_overlay_transition dt, step_overlay_exit dt, step_variant_transition dt,
        step_animation dt, step_scroll env dt]
       (step_media dt s)"

definition next_due :: "pending_timer list \<Rightarrow> f64 option" where
  \<comment> \<open>the least remaining time, by the total order\<close>
  "next_due ts =
     (case map (\<lambda>t. f64_max (pt_remaining t) 0) ts of
        [] \<Rightarrow> None | x # xs \<Rightarrow> Some (fold (\<lambda>y m. if total_key y < total_key m then y else m) xs x))"

definition elapse_timers :: "f64 \<Rightarrow> playback \<Rightarrow> playback" where
  "elapse_timers dt s = s\<lparr>pb_timers := map (\<lambda>t. t\<lparr>pt_remaining := f64_sub (pt_remaining t) dt\<rparr>) (pb_timers s)\<rparr>"

definition timer_due :: "pending_timer \<Rightarrow> bool" where
  "timer_due t \<longleftrightarrow> f64_le (pt_remaining t) f64_1e_9"

definition timer_alive :: "playback \<Rightarrow> pending_timer \<Rightarrow> bool" where
  "timer_alive s t \<longleftrightarrow>
     timer_key_of t |\<in>| pb_timer_membership s \<and>
     (pt_layer t = pb_current_layer s \<or> list_ex (\<lambda>e. ov_layer e = pt_layer t) (pb_overlays s))"

definition timer_precedes :: "pending_timer \<Rightarrow> pending_timer \<Rightarrow> bool" where
  \<comment> \<open>the order of \<open>(layer, order, reaction)\<close>\<close>
  "timer_precedes a b \<longleftrightarrow>
     pt_layer a < pt_layer b \<or>
     pt_layer a = pt_layer b \<and>
       (pt_order a < pt_order b \<or> pt_order a = pt_order b \<and> pt_reaction a < pt_reaction b)"

fun insert_timer :: "pending_timer \<Rightarrow> pending_timer list \<Rightarrow> pending_timer list" where
  "insert_timer t [] = [t]"
| "insert_timer t (u # us) = (if timer_precedes u t then u # insert_timer t us else t # u # us)"

definition sort_timers :: "pending_timer list \<Rightarrow> pending_timer list" where
  \<comment> \<open>stable\<close>
  "sort_timers ts = foldr insert_timer ts []"

definition fire_timer :: "player_env \<Rightarrow> pending_timer \<Rightarrow> playback \<Rightarrow> handled" where
  "fire_timer env t s =
     (if timer_alive s t
      then (let (r, s1) = execute_reaction env (pt_source t) (pt_actions t) (pt_transition t) (pt_animation t)
                            (s\<lparr>pb_dispatch_layer := Some (pt_layer t, pt_root t)\<rparr>)
            in (r, s1\<lparr>pb_dispatch_layer := None\<rparr>))
      else (response_default, s))"

fun fire_due :: "player_env \<Rightarrow> pending_timer list \<Rightarrow> nat \<Rightarrow> present_response \<Rightarrow> playback \<Rightarrow> nat \<times> handled" where
  \<comment> \<open>with the number of timers of this tick that came due so far\<close>
  "fire_due env [] fired resp s = (fired, resp, s)"
| "fire_due env (t # ts) fired resp s =
     (if MAX_TIMER_EVENTS_PER_TICK \<le> fired
      then fire_due env ts fired resp (s\<lparr>pb_timers := pb_timers s @ [t]\<rparr>)
      else (let (r, s1) = fire_timer env t s in fire_due env ts (fired + 1) (merge_responses resp r) s1))"

definition suspend_timers :: "playback \<Rightarrow> playback" where
  "suspend_timers s =
     s\<lparr>pb_timers_suspended := True,
       pb_events := pb_events s @ [PlaybackEvent_Diagnostic ''timerBudgetExceeded''
         ''Prototype timer event budget exceeded; timers are suspended until restart'']\<rparr>"

fun tick_loop :: "nat \<Rightarrow> player_env \<Rightarrow> f64 \<Rightarrow> nat \<Rightarrow> present_response \<Rightarrow> playback \<Rightarrow> handled option" where
  \<comment> \<open>the \<open>loop\<close>, at most \<open>fuel\<close> rounds of it\<close>
  "tick_loop 0 env remaining fired resp s = None"
| "tick_loop (Suc fuel) env remaining fired resp s =
     (case next_due (pb_timers s) of
        None \<Rightarrow> Some (and_also (resp, s) (advance_continuous env remaining))
      | Some due_in \<Rightarrow>
          (if f64_lt (f64_add remaining f64_1e_9) due_in
           then (let (resp1, s1) = and_also (resp, s) (advance_continuous env remaining)
                 in Some (resp1, elapse_timers remaining s1))
           else
             (let step = f64_min due_in remaining;
                  (resp1, s1) = and_also (resp, s) (advance_continuous env step);
                  s2 = elapse_timers step s1;
                  remaining' = f64_max (f64_sub remaining step) 0;
                  due = sort_timers (filter timer_due (pb_timers s2));
                  s3 = s2\<lparr>pb_timers := filter (\<lambda>t. \<not> timer_due t) (pb_timers s2)\<rparr>
              in if due = []
                 then (if f64_le remaining' 0 then Some (resp1, s3)
                       else tick_loop fuel env remaining' fired resp1 s3)
                 else
                   (let (fired', resp2, s4) = fire_due env due fired resp1 s3
                    in if MAX_TIMER_EVENTS_PER_TICK \<le> fired'
                       then (let (resp3, s5) = and_also (resp2, suspend_timers s4) (advance_continuous env remaining')
                             in Some (resp3, elapse_timers remaining' s5))
                       else tick_loop fuel env remaining' fired' resp2 s4))))"

definition TICK_FUEL :: nat where
  "TICK_FUEL = MAX_TIMER_EVENTS_PER_TICK + 2"

definition tick :: "player_env \<Rightarrow> f64 \<Rightarrow> playback \<Rightarrow> handled option" where
  "tick env dt s =
     (if \<not> f64_is_finite dt \<or> f64_lt dt 0 \<or> pb_paused s then Some (response_default, s)
      else if pb_timers_suspended s then Some (advance_continuous env dt s)
      else map_option (\<lambda>(resp, s'). (resp\<lparr>pr_animating := is_animating s'\<rparr>, s'))
             (tick_loop TICK_FUEL env (f64_max dt 0) 0 response_default s))"

end
