(* ===== verification/PlaybackView.thy ===== *)
theory PlaybackView
  imports PlaybackInput
begin

text \<open>
  The view of a playing session (\<open>fanta_present.rs\<close>, \<open>playback.rs\<close>, \<open>viewport.rs\<close>): panning and zooming,
  a surface of another size or fit, scrolling under the pointer, and what the host may ask to plan the next advance of time.
\<close>

section \<open>Cameras\<close>

definition vec2_finite :: "vec2 \<Rightarrow> bool" where
  "vec2_finite p \<longleftrightarrow> f64_is_finite (fst p) \<and> f64_is_finite (snd p)"

definition camera_is_valid :: "camera \<Rightarrow> bool" where
  "camera_is_valid c \<longleftrightarrow>
     vec2_finite (camera_center c) \<and> vec2_finite (camera_scale c) \<and>
     f64_lt 0 (fst (camera_scale c)) \<and> f64_lt 0 (snd (camera_scale c))"

definition camera_screen_to_world :: "vec2 \<Rightarrow> camera \<Rightarrow> vec2 \<Rightarrow> vec2" where
  "camera_screen_to_world screen c extent =
     vec2_map2 f64_add
       (vec2_map2 f64_div (vec2_map2 f64_sub screen (vec2_map2 f64_mul extent (f64_point_five, f64_point_five)))
          (camera_scale c))
       (camera_center c)"

definition pan_camera :: "camera \<Rightarrow> vec2 \<Rightarrow> camera" where
  "pan_camera c delta =
     (if \<not> camera_is_valid c \<or> \<not> vec2_finite delta then c
      else (let panned = c\<lparr>camera_center := vec2_map2 f64_sub (camera_center c) (vec2_map2 f64_div delta (camera_scale c))\<rparr>
            in if camera_is_valid panned then panned else c))"

definition zoom_range :: "camera \<Rightarrow> f64 \<times> f64" where
  \<comment> \<open>the least and the greatest common factor that keeps both axes within the limits\<close>
  "zoom_range c =
     (f64_max (f64_div MIN_ZOOM (fst (camera_scale c))) (f64_div MIN_ZOOM (snd (camera_scale c))),
      f64_min (f64_div MAX_ZOOM (fst (camera_scale c))) (f64_div MAX_ZOOM (snd (camera_scale c))))"

definition zoom_camera_at :: "camera \<Rightarrow> vec2 \<Rightarrow> f64 \<Rightarrow> vec2 \<Rightarrow> camera" where
  "zoom_camera_at c anchor factor extent =
     (if \<not> camera_is_valid c \<or> \<not> vec2_finite anchor \<or> \<not> vec2_finite extent \<or> \<not> f64_is_finite factor \<or> f64_le factor 0
      then c
      else
        (let (least, greatest) = zoom_range c in
         if f64_lt greatest least then c
         else
           (let factor = f64_clamp factor least greatest;
                scale = vec2_map2 f64_mul (camera_scale c) (factor, factor);
                before = camera_screen_to_world anchor c extent;
                middle = vec2_map2 f64_mul extent (f64_point_five, f64_point_five)
            in \<lparr>camera_center = vec2_map2 f64_sub before (vec2_map2 f64_div (vec2_map2 f64_sub anchor middle) scale),
                camera_scale = scale\<rparr>)))"

definition rebase_camera :: "camera \<Rightarrow> camera \<Rightarrow> camera \<Rightarrow> camera" where
  "rebase_camera c old_fit new_fit =
     (if \<not> camera_is_valid c \<or> \<not> camera_is_valid old_fit \<or> \<not> camera_is_valid new_fit then new_fit
      else
        (let (least, greatest) = zoom_range new_fit in
         if f64_lt greatest least then new_fit
         else
           (let ratios = vec2_map2 f64_div (camera_scale c) (camera_scale old_fit);
                factor = f64_clamp (f64_min (fst ratios) (snd ratios)) least greatest
            in \<lparr>camera_center = vec2_map2 f64_add (camera_center new_fit)
                    (vec2_map2 f64_sub (camera_center c) (camera_center old_fit)),
                camera_scale = vec2_map2 f64_mul (camera_scale new_fit) (factor, factor)\<rparr>)))"

definition pan_view :: "vec2 \<Rightarrow> playback \<Rightarrow> (present_error + present_response) \<times> playback" where
  "pan_view delta s =
     (if \<not> vec2_finite delta then (Inl PresentError_InvalidCamera, s)
      else (let c = pan_camera (pb_camera s) delta
            in if camera_is_valid c then (Inr response_redraw, s\<lparr>pb_camera := c\<rparr>)
               else (Inl PresentError_InvalidCamera, s)))"

definition zoom_view :: "vec2 \<Rightarrow> f64 \<Rightarrow> playback \<Rightarrow> (present_error + present_response) \<times> playback" where
  "zoom_view anchor factor s =
     (if \<not> vec2_finite anchor \<or> \<not> f64_is_finite factor \<or> f64_le factor 0 then (Inl PresentError_InvalidCamera, s)
      else (let c = zoom_camera_at (pb_camera s) anchor factor (pb_screen_size s)
            in if camera_is_valid c then (Inr response_redraw, s\<lparr>pb_camera := c\<rparr>)
               else (Inl PresentError_InvalidCamera, s)))"

section \<open>Another surface\<close>

definition valid_dimension :: "f64 \<Rightarrow> f64" where
  "valid_dimension x = (if f64_is_finite x \<and> f64_lt 0 x then x else f64_one)"

definition valid_screen_size :: "vec2 \<Rightarrow> vec2" where
  "valid_screen_size p = (valid_dimension (fst p), valid_dimension (snd p))"

definition rebase_frame_camera :: "bounds option \<Rightarrow> camera \<Rightarrow> vec2 \<Rightarrow> vec2 \<Rightarrow> fit_mode \<Rightarrow> fit_mode \<Rightarrow> camera" where
  \<comment> \<open>given the bounds of the frame\<close>
  "rebase_frame_camera b c old_size new_size old_mode new_mode =
     rebase_camera c (frame_camera b old_size old_mode) (frame_camera b new_size new_mode)"

fun replace_overlays ::
  "vec2 \<Rightarrow> vec2 \<Rightarrow> (overlay_entry \<times> bounds option) list \<Rightarrow> overlay_entry list \<times> vec2" where
  \<comment> \<open>each overlay at the scale of the one below it; with the scale of the last\<close>
  "replace_overlays extent scale [] = ([], scale)"
| "replace_overlays extent scale ((e, b) # es) =
     (case b of
        None \<Rightarrow> (let (placed, last_scale) = replace_overlays extent scale es in (e # placed, last_scale))
      | Some b \<Rightarrow>
          (let (c, rect) = place_overlay scale b (overlay_settings_position (ov_settings e)) extent;
               (placed, last_scale) = replace_overlays extent (camera_scale c) es
           in (e\<lparr>ov_camera := c, ov_screen_rect := rect\<rparr> # placed, last_scale)))"

definition layer_bounds :: "player_env \<Rightarrow> playback \<Rightarrow> node_id \<Rightarrow> u64 \<Rightarrow> bounds option" where
  "layer_bounds env s root layer = pe_bounds env (rl_scene (pe_layer env s root layer False)) root"

definition rebase_cameras :: "player_env \<Rightarrow> vec2 \<Rightarrow> vec2 \<Rightarrow> fit_mode \<Rightarrow> fit_mode \<Rightarrow> playback \<Rightarrow> playback" where
  "rebase_cameras env old_size new_size old_mode new_mode s =
     (let of_frame = (\<lambda>u i layer c. rebase_frame_camera (layer_bounds env u i layer) c old_size new_size old_mode new_mode);
          s1 = s\<lparr>pb_camera := of_frame s (pb_current s) (pb_current_layer s) (pb_camera s)\<rparr>;
          s2 = s1\<lparr>pb_back_stack :=
                    map (\<lambda>e. e\<lparr>nav_camera := of_frame s1 (nav_frame e) (layer_identity s1 (nav_frame e)) (nav_camera e)\<rparr>)
                      (pb_back_stack s1)\<rparr>;
          s3 = s2\<lparr>pb_transition :=
                    map_option
                      (\<lambda>a. a\<lparr>at_from_camera := of_frame s2 (at_from_frame a) (layer_identity s2 (at_from_frame a)) (at_from_camera a),
                            at_to_camera := of_frame s2 (at_to_frame a) (layer_identity s2 (at_to_frame a)) (at_to_camera a)\<rparr>)
                      (pb_transition s2)\<rparr>;
          open_bounds = map (\<lambda>e. (e, layer_bounds env s3 (ov_root e) (ov_layer e))) (pb_overlays s3);
          (placed, scale) = replace_overlays new_size (camera_scale (pb_camera s3)) open_bounds;
          leaving = map_option
                      (\<lambda>x. x\<lparr>oe_entry :=
                             hd (fst (replace_overlays new_size scale
                               [(oe_entry x, layer_bounds env s3 (ov_root (oe_entry x)) (ov_layer (oe_entry x)))]))\<rparr>)
                      (pb_overlay_exit s3)
      in s3\<lparr>pb_screen_size := new_size, pb_fit_mode := new_mode, pb_overlays := placed, pb_overlay_exit := leaving\<rparr>)"

definition resize_surface :: "player_env \<Rightarrow> vec2 \<Rightarrow> playback \<Rightarrow> playback" where
  \<comment> \<open>\<open>resize_with_scale\<close>, but for the physical size\<close>
  "resize_surface env extent s =
     (let extent = valid_screen_size extent; old = pb_screen_size s in
      if f64_eq (fst old) (fst extent) \<and> f64_eq (snd old) (snd extent) then s
      else rebase_cameras env old extent (pb_fit_mode s) (pb_fit_mode s) s)"

definition set_fit_mode :: "player_env \<Rightarrow> fit_mode \<Rightarrow> playback \<Rightarrow> handled" where
  "set_fit_mode env mode s =
     (if pb_fit_mode s = mode then (response_default, s)
      else (response_redraw, rebase_cameras env (pb_screen_size s) (pb_screen_size s) (pb_fit_mode s) mode s))"

section \<open>Scrolling\<close>

definition allows_x :: "scroll_direction \<Rightarrow> bool" where
  "allows_x d \<longleftrightarrow> d = ScrollDirection_Horizontal \<or> d = ScrollDirection_Both"

definition allows_y :: "scroll_direction \<Rightarrow> bool" where
  "allows_y d \<longleftrightarrow> d = ScrollDirection_Vertical \<or> d = ScrollDirection_Both"

definition takes_scroll :: "vec2 \<Rightarrow> canvas_node \<Rightarrow> bool" where
  "takes_scroll delta n =
     (case cn_data n of
        NodeData_Group g \<Rightarrow>
          (let d = effective_scroll_direction g
           in allows_x d \<and> \<not> f64_eq (fst delta) 0 \<or> allows_y d \<and> \<not> f64_eq (snd delta) 0)
      | _ \<Rightarrow> False)"

definition scroll_by :: "player_env \<Rightarrow> vec2 \<Rightarrow> node_id option \<Rightarrow> vec2 \<Rightarrow> playback \<Rightarrow> node_id option \<times> playback" where
  \<comment> \<open>given the topmost node of the layer under the point\<close>
  "scroll_by env point hit delta s =
     (if \<not> vec2_finite point \<or> \<not> vec2_finite delta then (None, s)
      else
        (let sc = rl_scene (reaction_layer env s True) in
         case find (\<lambda>i. case scene_get sc i of None \<Rightarrow> False | Some n \<Rightarrow> takes_scroll delta n) (up_chain sc hit) of
           None \<Rightarrow> (None, s)
         | Some i \<Rightarrow> (Some i, set_scroll_offset env i (vec2_map2 f64_add (scroll_offset s i) delta) s)))"

section \<open>What comes next\<close>

record playback_schedule =
  ps_continuous :: bool
  ps_next_deadline :: "f64 option"
  ps_paused :: bool
  ps_timers_suspended :: bool

definition least_total :: "f64 list \<Rightarrow> f64 option" where
  \<comment> \<open>\<open>min_by\<close> with \<open>total_cmp\<close>\<close>
  "least_total xs =
     (case xs of [] \<Rightarrow> None | x # xs \<Rightarrow> Some (fold (\<lambda>y m. if total_key y < total_key m then y else m) xs x))"

definition schedule :: "playback \<Rightarrow> playback_schedule" where
  "schedule s =
     (let timer_deadline =
            (if pb_paused s \<or> pb_timers_suspended s then None
             else least_total (map (\<lambda>t. f64_mul (f64_max (pt_remaining t) 0) f64_thousand) (pb_timers s)));
          clip_deadline =
            (case (if pb_paused s then None else pb_animation s) of
               None \<Rightarrow> None
             | Some a \<Rightarrow>
                 (if \<not> pa_paused a \<and> f64_lt (pa_elapsed a) (pa_delay a)
                  then Some (f64_mul (f64_sub (pa_delay a) (pa_elapsed a)) f64_thousand) else None))
      in \<lparr>ps_continuous =
            (\<not> pb_paused s \<and>
             (pb_transition s \<noteq> None \<or> pb_overlay_transition s \<noteq> None \<or> pb_overlay_exit s \<noteq> None \<or>
              pb_variant_transition s \<noteq> None \<or> pb_scroll_animation s \<noteq> None \<or>
              (case pb_animation s of
                 None \<Rightarrow> False
               | Some a \<Rightarrow> playhead_ms (pb_motion s) a \<noteq> None \<and> animation_running (pb_motion s) a))),
          ps_next_deadline = least_total (List.map_filter id [timer_deadline, clip_deadline]),
          ps_paused = pb_paused s, ps_timers_suspended = pb_timers_suspended s\<rparr>)"

record clip_playback_state =
  cps_clip :: animation_clip_id
  cps_playhead :: "u32 option"
  cps_mode :: clip_playback_mode
  cps_paused :: bool
  cps_running :: bool
  cps_scope :: "node_occurrence option"

record playback_state =
  pst_current_frame :: node_id
  pst_current_layer :: u64
  pst_overlay_frames :: "node_id list"
  pst_clock_ms :: f64
  pst_clip :: "clip_playback_state option"
  pst_schedule :: playback_schedule

definition playback_state_of :: "playback \<Rightarrow> playback_state" where
  "playback_state_of s =
     \<lparr>pst_current_frame = pb_current s, pst_current_layer = pb_current_layer s,
      pst_overlay_frames = map ov_root (pb_overlays s), pst_clock_ms = f64_mul (pb_clock s) f64_thousand,
      pst_clip = map_option
        (\<lambda>a. \<lparr>cps_clip = pa_clip a, cps_playhead = playhead_ms (pb_motion s) a, cps_mode = pa_mode a,
              cps_paused = pa_paused a, cps_running = animation_running (pb_motion s) a,
              cps_scope = pb_motion_scope s\<rparr>) (pb_animation s),
      pst_schedule = schedule s\<rparr>"

definition layer_occurrences :: "player_env \<Rightarrow> playback \<Rightarrow> node_occurrence list" where
  "layer_occurrences env s =
     (let rl = reaction_layer env s False
      in List.map_filter (fmlookup (rl_occurrences rl)) (descendants_of (rl_scene rl) (rl_root rl)))"

end
