(* ===== verification/PlaybackHost.thy ===== *)
theory PlaybackHost
  imports PlaybackView
begin

text \<open>
  The calls of the host of the prototype player (\<open>fanta_present.rs\<close>, \<open>playback.rs\<close>): starting and restarting, modes and variables, clips, media and scrolling; and one relation for
  everything that can happen to a session.
\<close>

section \<open>Starting\<close>

definition first_frame :: "scene \<Rightarrow> node_id \<Rightarrow> node_id option" where
  \<comment> \<open>the first frame of a page that is not hidden\<close>
  "first_frame sc page =
     find (\<lambda>i. case scene_get sc i of
                 None \<Rightarrow> False
               | Some n \<Rightarrow>
                   (case cn_data n of NodeData_Group _ \<Rightarrow> \<not> flag_contains (cn_flags n) HIDDEN | _ \<Rightarrow> False))
       (children_of sc (Some page))"

definition start_frame :: "doc \<Rightarrow> node_id option \<Rightarrow> node_id option" where
  "start_frame d start =
     (let c = doc_slices d in
      case start of
        Some i \<Rightarrow> Some i
      | None \<Rightarrow>
          (case oc_flow_start c of
             Some i \<Rightarrow> Some i
           | None \<Rightarrow>
               (case (case oc_active_page c of
                        Some p \<Rightarrow> Some p | None \<Rightarrow> (case oc_pages c of [] \<Rightarrow> None | p # _ \<Rightarrow> Some p)) of
                  None \<Rightarrow> None
                | Some page \<Rightarrow> (case first_frame (oc_scene c) page of Some i \<Rightarrow> Some i | None \<Rightarrow> Some page))))"

definition fresh_session :: "player_env \<Rightarrow> doc \<Rightarrow> node_id \<Rightarrow> vec2 \<Rightarrow> playback" where
  "fresh_session env d current screen =
     \<lparr>pb_doc = d, pb_screen_size = screen, pb_current = current, pb_current_layer = 1, pb_next_layer = 2,
      pb_camera = frame_camera (pe_bounds env (oc_scene (doc_slices d)) current) screen FitMode_Contain,
      pb_fit_mode = FitMode_Contain, pb_back_stack = [], pb_overlays = [],
      pb_variables = oc_variables (doc_slices d), pb_active_modes = oc_active_modes (doc_slices d),
      pb_mode_generation = 0, pb_clock = 0, pb_transition = None, pb_overlay_transition = None,
      pb_overlay_exit = None, pb_variant_transition = None, pb_animation = None, pb_motion_scope = None,
      pb_motion_targets = [], pb_paused = False, pb_timers_suspended = False, pb_events = [],
      pb_timer_membership = {||}, pb_dispatch_layer = None, pb_timers = [], pb_media_time = 0,
      pb_media_playing = False, pb_node_media_times = fmempty, pb_scroll_offsets = fmempty,
      pb_variant_overrides = fmempty, pb_instance_overrides = fmempty, pb_hovered = None, pb_pressed = None,
      pb_suppress_next_click = False, pb_recording_press = False, pb_hover_chain = [],
      pb_scroll_animation = None, pb_pending_url = None\<rparr>"

definition playback_new :: "player_env \<Rightarrow> doc \<Rightarrow> node_id option \<Rightarrow> vec2 \<Rightarrow> present_error + playback" where
  "playback_new env d start screen =
     (case start_frame d start of
        None \<Rightarrow> Inl PresentError_NoStartFrame
      | Some current \<Rightarrow>
          (if \<not> scene_contains (oc_scene (doc_slices d)) current then Inl PresentError_StartNotFound
           else
             (let s1 = fresh_session env d current (valid_screen_size screen);
                  s2 = schedule_timers env current (seed_initial_scroll_offsets env current s1)
              in Inr (s2\<lparr>pb_camera :=
                    camera_of_frame env (rl_scene (resolved_layer_of env s2 current False)) current s2\<rparr>))))"

definition restart_at :: "player_env \<Rightarrow> node_id \<Rightarrow> playback \<Rightarrow> bool \<times> playback" where
  "restart_at env start s =
     (if \<not> scene_contains (pb_scene s) start then (False, s)
      else
        (let s1 = s\<lparr>pb_current := start, pb_camera := camera_of_frame env (pb_scene s) start s, pb_back_stack := [],
                    pb_overlays := [], pb_variables := oc_variables (doc_slices (pb_doc s)),
                    pb_active_modes := oc_active_modes (doc_slices (pb_doc s)),
                    pb_mode_generation := pb_mode_generation s + 1, pb_clock := 0, pb_paused := False,
                    pb_timers_suspended := False, pb_timer_membership := {||}, pb_events := [],
                    pb_transition := None, pb_overlay_transition := None, pb_overlay_exit := None,
                    pb_variant_transition := None, pb_animation := None, pb_timers := [], pb_media_time := 0,
                    pb_media_playing := False, pb_node_media_times := fmempty, pb_scroll_offsets := fmempty,
                    pb_variant_overrides := fmempty, pb_instance_overrides := fmempty, pb_hovered := None,
                    pb_pressed := None, pb_suppress_next_click := False, pb_hover_chain := [],
                    pb_scroll_animation := None, pb_pending_url := None\<rparr>;
             s2 = schedule_timers env start s1
         in (True, s2\<lparr>pb_camera := camera_of_frame env (rl_scene (resolved_layer_of env s2 start False)) start s2\<rparr>)))"

definition start_flow :: "player_env \<Rightarrow> nat \<Rightarrow> playback \<Rightarrow> bool \<times> playback" where
  "start_flow env k s =
     (let flows = oc_flows (doc_slices (pb_doc s)) in
      if length flows \<le> k then (False, s)
      else (let start = flow_start (flows ! k)
            in if scene_contains (pb_scene s) start
               then (True, enter_frame env start (s\<lparr>pb_back_stack := []\<rparr>)) else (False, s)))"

section \<open>Calls\<close>

definition advance_by :: "player_env \<Rightarrow> f64 \<Rightarrow> playback \<Rightarrow> (present_error + handled) option" where
  "advance_by env dt s =
     (if \<not> f64_is_finite dt \<or> f64_lt dt 0 \<or> \<not> f64_is_finite (f64_mul (f64_add (pb_clock s) dt) f64_thousand)
      then Some (Inl PresentError_InvalidElapsedTime)
      else map_option Inr (tick env dt s))"

definition set_variable_value :: "player_env \<Rightarrow> variable_id \<Rightarrow> var_value \<Rightarrow> playback \<Rightarrow> bool \<times> playback" where
  "set_variable_value env v y s = set_variable env s (layer_root s) v y"

definition set_runtime_variable ::
  "player_env \<Rightarrow> variable_id \<Rightarrow> var_value \<Rightarrow> playback \<Rightarrow> (present_error + present_response) \<times> playback" where
  "set_runtime_variable env v y s =
     (let (written, s') = set_variable_value env v y s
      in (if written then Inr (response_redraw\<lparr>pr_animating := is_animating s'\<rparr>) else Inl PresentError_InvalidVariable, s'))"

definition session_set_active_mode :: "player_env \<Rightarrow> variable_collection_id \<Rightarrow> mode_id \<Rightarrow> playback \<Rightarrow> bool \<times> playback" where
  "session_set_active_mode env c m s =
     (if (case fmlookup (vreg_collections (pb_variables s)) c of None \<Rightarrow> False | Some coll \<Rightarrow> has_mode coll m)
      then (True, refresh_layer_timers env
              (s\<lparr>pb_active_modes := fmupd c m (pb_active_modes s), pb_mode_generation := pb_mode_generation s + 1\<rparr>))
      else (False, s))"

definition set_runtime_mode ::
  "player_env \<Rightarrow> variable_collection_id \<Rightarrow> mode_id \<Rightarrow> playback \<Rightarrow> (present_error + present_response) \<times> playback" where
  "set_runtime_mode env c m s =
     (let (known, s') = session_set_active_mode env c m s
      in (if known then Inr (response_redraw\<lparr>pr_animating := is_animating s'\<rparr>) else Inl PresentError_InvalidMode, s'))"

definition host_navigate :: "player_env \<Rightarrow> node_id \<Rightarrow> playback \<Rightarrow> handled" where
  "host_navigate env frame s = execute env (Action_Navigate frame) (layer_root s) None s"

definition host_back :: "player_env \<Rightarrow> playback \<Rightarrow> handled" where
  "host_back env s = execute env Action_Back (layer_root s) None s"

definition play_clip ::
  "player_env \<Rightarrow> animation_clip_id \<Rightarrow> node_occurrence option \<Rightarrow> clip_playback_mode \<Rightarrow> playback \<Rightarrow>
     (present_error + present_response) \<times> playback" where
  "play_clip env clip scope mode s =
     (case resolve_motion_targets env s clip scope of
        Inl e \<Rightarrow> (Inl e, s)
      | Inr targets \<Rightarrow>
          (let s1 = s\<lparr>pb_animation := Some
                        \<lparr>pa_clip = clip, pa_delay = 0, pa_elapsed = 0, pa_mode = mode, pa_paused = False,
                         pa_completion_emitted = False\<rparr>,
                      pb_motion_scope := scope, pb_motion_targets := targets\<rparr>;
               s2 = (if empty_clip s clip then mark_completed clip s1 else s1)
           in (Inr (response_redraw\<lparr>pr_animating := is_animating s2\<rparr>), s2)))"

definition set_clip_paused :: "bool \<Rightarrow> playback \<Rightarrow> playback" where
  \<comment> \<open>\<open>pause_clip\<close> and \<open>resume_clip\<close>\<close>
  "set_clip_paused b s = s\<lparr>pb_animation := map_option (\<lambda>a. a\<lparr>pa_paused := b\<rparr>) (pb_animation s)\<rparr>"

definition seek_clip :: "f64 \<Rightarrow> playback \<Rightarrow> (present_error + present_response) \<times> playback" where
  "seek_clip playhead s =
     (if \<not> f64_is_finite playhead \<or> f64_lt playhead 0 then (Inl PresentError_InvalidPlayhead, s)
      else
        (case pb_animation s of
           None \<Rightarrow> (Inr (response_redraw\<lparr>pr_animating := is_animating s\<rparr>), s)
         | Some a \<Rightarrow>
             (case fmlookup (mlib_clips (pb_motion s)) (pa_clip a) of
                None \<Rightarrow> (Inl PresentError_ClipNotFound, s)
              | Some c \<Rightarrow>
                  (let at = f64_div (f64_min playhead (f64_of_nat (unat (clip_duration_ms c)))) f64_thousand;
                       s1 = s\<lparr>pb_animation := Some
                                (a\<lparr>pa_elapsed := f64_add (pa_delay a) at, pa_completion_emitted := False\<rparr>)\<rparr>
                   in (Inr (response_redraw\<lparr>pr_animating := is_animating s1\<rparr>), s1)))))"

definition fit_view :: "player_env \<Rightarrow> playback \<Rightarrow> handled" where
  "fit_view env s =
     (response_redraw,
      s\<lparr>pb_camera := camera_of_frame env (rl_scene (resolved_layer_of env s (pb_current s) False)) (pb_current s) s\<rparr>)"

definition set_media_time :: "f64 \<Rightarrow> playback \<Rightarrow> playback" where
  "set_media_time t s = s\<lparr>pb_media_time := f64_max t 0\<rparr>"

definition set_node_media_time :: "node_id \<Rightarrow> f64 \<Rightarrow> playback \<Rightarrow> playback" where
  "set_node_media_time i t s = s\<lparr>pb_node_media_times := fmupd i (f64_max t 0) (pb_node_media_times s)\<rparr>"

definition node_media_time :: "playback \<Rightarrow> node_id \<Rightarrow> f64" where
  "node_media_time s i = (case fmlookup (pb_node_media_times s) i of Some t \<Rightarrow> t | None \<Rightarrow> pb_media_time s)"

definition set_variant_override :: "player_env \<Rightarrow> component_id \<Rightarrow> string option \<Rightarrow> playback \<Rightarrow> playback" where
  \<comment> \<open>\<open>set_variant_override\<close> and, with \<open>None\<close>, \<open>clear_variant_override\<close>\<close>
  "set_variant_override env c y s =
     refresh_layer_timers env
       (s\<lparr>pb_variant_overrides :=
            (case y of Some y \<Rightarrow> fmupd c y (pb_variant_overrides s) | None \<Rightarrow> fmdrop c (pb_variant_overrides s))\<rparr>)"

definition take_open_url :: "playback \<Rightarrow> string option \<times> playback" where
  "take_open_url s = (pb_pending_url s, s\<lparr>pb_pending_url := None\<rparr>)"

definition take_playback_events :: "string list \<Rightarrow> playback \<Rightarrow> playback_event list \<times> playback" where
  \<comment> \<open>given what expanding the layers reported since the last call\<close>
  "take_playback_events errors s =
     (pb_events s @ map (PlaybackEvent_Diagnostic ''resolutionFailed'') errors, s\<lparr>pb_events := []\<rparr>)"

section \<open>Everything that can happen\<close>

inductive player_step :: "player_env \<Rightarrow> playback \<Rightarrow> playback \<Rightarrow> bool" for env where
  step_pointer: "handle_pointer env point ev s = (r, s') \<Longrightarrow> player_step env s s'"
| step_key: "handle_key env key kev s = (r, s') \<Longrightarrow> player_step env s s'"
| step_cancel: "cancel_pointer_input env s = (r, s') \<Longrightarrow> player_step env s s'"
| step_tick: "tick env dt s = Some (r, s') \<Longrightarrow> player_step env s s'"
| step_navigate: "host_navigate env frame s = (r, s') \<Longrightarrow> player_step env s s'"
| step_back: "host_back env s = (r, s') \<Longrightarrow> player_step env s s'"
| step_restart: "restart_at env start s = (b, s') \<Longrightarrow> player_step env s s'"
| step_flow: "start_flow env k s = (b, s') \<Longrightarrow> player_step env s s'"
| step_variable: "set_runtime_variable env v y s = (e, s') \<Longrightarrow> player_step env s s'"
| step_mode: "set_runtime_mode env c m s = (e, s') \<Longrightarrow> player_step env s s'"
| step_play: "play_clip env clip scope mode s = (e, s') \<Longrightarrow> player_step env s s'"
| step_clip_paused: "player_step env s (set_clip_paused b s)"
| step_seek: "seek_clip playhead s = (e, s') \<Longrightarrow> player_step env s s'"
| step_stop: "stop_clip s = (r, s') \<Longrightarrow> player_step env s s'"
| step_pause: "player_step env s (s\<lparr>pb_paused := b\<rparr>)"
| step_fit: "fit_view env s = (r, s') \<Longrightarrow> player_step env s s'"
| step_pan: "pan_view delta s = (e, s') \<Longrightarrow> player_step env s s'"
| step_zoom: "zoom_view anchor factor s = (e, s') \<Longrightarrow> player_step env s s'"
| step_resize: "player_step env s (resize_surface env surface s)"
| step_fit_mode: "set_fit_mode env fit s = (r, s') \<Longrightarrow> player_step env s s'"
| step_scroll_by: "scroll_by env point hit delta s = (found, s') \<Longrightarrow> player_step env s s'"
| step_media: "player_step env s (set_media_time t s)"
| step_play_media: "player_step env s (s\<lparr>pb_media_playing := b\<rparr>)"
| step_node_media: "player_step env s (set_node_media_time i t s)"
| step_clear_media: "player_step env s (s\<lparr>pb_node_media_times := fmdrop i (pb_node_media_times s)\<rparr>)"
| step_variant: "player_step env s (set_variant_override env component y' s)"
| step_scroll_offset: "player_step env s (set_scroll_offset env i offset s)"
| step_clear_scroll: "player_step env s (s\<lparr>pb_scroll_offsets := fmdrop i (pb_scroll_offsets s)\<rparr>)"
| step_take_url: "take_open_url s = (u, s') \<Longrightarrow> player_step env s s'"
| step_take_events: "take_playback_events errors s = (es, s') \<Longrightarrow> player_step env s s'"

inductive player_reachable :: "player_env \<Rightarrow> playback \<Rightarrow> bool" for env where
  "playback_new env d start screen = Inr s \<Longrightarrow> player_reachable env s"
| "player_reachable env s \<Longrightarrow> player_step env s s' \<Longrightarrow> player_reachable env s'"

end
