(* ===== verification/PlaybackTime.thy ===== *)
theory PlaybackTime
  imports PlaybackHost
begin

text \<open>
  The times of delayed reactions: they are finite and not negative, the subtraction of a smaller one
  keeps them so, and the least of them is the next to come due.
\<close>

definition time_ok :: "f64 \<Rightarrow> bool" where
  "time_ok x \<longleftrightarrow> \<not> f64_neg x \<and> f64_is_finite x"

definition span_ok :: "f64 \<Rightarrow> bool" where
  \<comment> \<open>the same, but for a negative zero\<close>
  "span_ok x \<longleftrightarrow> f64_is_finite x \<and> (f64_neg x \<longrightarrow> f64_bits x = 0)"

lemma time_ok_zero [simp]: "time_ok 0"
  by (simp add: time_ok_def f64_neg_def f64_is_finite_def f64_bits_def inf_bits_def)

lemma time_span: "time_ok x \<Longrightarrow> span_ok x"
  by (simp add: time_ok_def span_ok_def)

lemma span_not_nan: "span_ok x \<Longrightarrow> \<not> f64_is_nan x"
  by (simp add: span_ok_def f64_finite_not_nan)

lemma span_signed: "span_ok x \<Longrightarrow> f64_signed x = int (f64_bits x)"
  by (simp add: span_ok_def f64_signed_def)

lemma time_total_key: "time_ok x \<Longrightarrow> total_key x = int (f64_bits x)"
  by (simp add: time_ok_def total_key_split)

lemma span_le: "span_ok x \<Longrightarrow> span_ok y \<Longrightarrow> f64_le x y \<longleftrightarrow> f64_bits x \<le> f64_bits y"
  by (simp add: f64_le_def span_not_nan span_signed)

lemma span_lt: "span_ok x \<Longrightarrow> span_ok y \<Longrightarrow> f64_lt x y \<longleftrightarrow> f64_bits x < f64_bits y"
  by (simp add: f64_lt_def span_not_nan span_signed)

lemma f64_zero_bits [simp]: "f64_bits 0 = 0" "\<not> f64_neg 0" "\<not> f64_is_nan 0" "f64_is_finite 0"
  by (simp_all add: f64_bits_def f64_neg_def f64_is_nan_def f64_is_finite_def inf_bits_def)

lemma span_max_zero: "span_ok x \<Longrightarrow> f64_max x 0 = x"
  by (simp add: f64_max_def span_not_nan span_lt time_span)

lemma span_min: "span_ok x \<Longrightarrow> span_ok y \<Longrightarrow> f64_min x y = (if f64_bits y < f64_bits x then y else x)"
  by (simp add: f64_min_def span_not_nan span_lt)

lemma mag_of_bits_strict: "b < c \<Longrightarrow> mag_of_bits b < mag_of_bits c"
  by (rule less_Suc_induct[of b c "\<lambda>i j. mag_of_bits i < mag_of_bits j"]) (simp_all add: mag_of_bits_Suc ulp_of_bits_def)

lemma mag_of_bits_le: "mag_of_bits b \<le> mag_of_bits c \<longleftrightarrow> b \<le> c"
  using mag_of_bits_strict[of b c] mag_of_bits_strict[of c b] by (cases b c rule: linorder_cases) auto

lemma f64_flip_fields: "f64_neg (f64_flip x) = (\<not> f64_neg x)" "f64_bits (f64_flip x) = f64_bits x"
  using f64_bits_less[of x] by (simp_all add: f64_flip_def)

lemma span_val: "span_ok x \<Longrightarrow> f64_val x = int (mag_of_bits (f64_bits x))"
  by (simp add: span_ok_def f64_val_def mag_zero_iff)

lemma span_val_flip: "span_ok x \<Longrightarrow> f64_val (f64_flip x) = - int (mag_of_bits (f64_bits x))"
  by (auto simp: span_ok_def f64_val_def f64_flip_fields mag_zero_iff)

lemma f64_flip_finite: "f64_is_finite (f64_flip x) = f64_is_finite x" "f64_is_nan (f64_flip x) = f64_is_nan x"
  by (simp_all add: f64_is_finite_def f64_is_nan_def f64_flip_fields)

lemma round_bits_lt:
  assumes "n \<le> mag_of_bits b" "b < inf_bits"
  shows "round_bits 0 n \<le> b"
  using round_bits_mono[OF assms(1)] round_bits_exact[OF assms(2)] by simp

lemma f64_sub_span:
  assumes a: "span_ok a" and b: "span_ok b" and le: "f64_bits b \<le> f64_bits a"
  shows "span_ok (f64_sub a b)" "time_ok a \<Longrightarrow> time_ok (f64_sub a b)"
    "f64_bits a = f64_bits b \<Longrightarrow> f64_bits (f64_sub a b) = 0"
proof -
  let ?m = "mag_of_bits (f64_bits a)" and ?n = "mag_of_bits (f64_bits b)"
  have mn: "?n \<le> ?m" using le by (simp add: mag_of_bits_le)
  obtain k where k: "?m - ?n = k" by blast
  have val: "f64_val a + f64_val (f64_flip b) = int k" using a b mn k by (simp add: span_val span_val_flip)
  have sub: "f64_sub a b = (if k = 0 then f64_pack (f64_neg a \<and> \<not> f64_neg b) 0 else f64_of_int (int k))"
    using a b val by (simp add: f64_sub_def f64_add_def f64_flip_finite span_not_nan f64_flip_fields) (simp add: span_ok_def)
  have fin: "f64_bits a < inf_bits" using a by (simp add: span_ok_def f64_is_finite_def)
  have bits: "f64_bits (f64_sub a b) = (if k = 0 then 0 else round_bits 0 k)" by (simp add: sub f64_of_int_fields)
  have "f64_bits (f64_sub a b) \<le> f64_bits a" using bits fin k by (auto intro: round_bits_lt)
  moreover have neg: "f64_neg (f64_sub a b) \<longleftrightarrow> k = 0 \<and> f64_neg a \<and> \<not> f64_neg b" by (simp add: sub f64_of_int_fields)
  ultimately show "span_ok (f64_sub a b)" "time_ok a \<Longrightarrow> time_ok (f64_sub a b)"
    using fin bits by (auto simp: span_ok_def time_ok_def f64_is_finite_def)
  show "f64_bits (f64_sub a b) = 0" if "f64_bits a = f64_bits b" using that bits k by simp
qed

lemma epsilon_time: "time_ok f64_1e_9" "0 < f64_bits f64_1e_9"
  by (simp_all add: time_ok_def f64_1e_9_def f64_neg_def f64_is_finite_def f64_bits_def inf_bits_def)

lemma past_epsilon:
  assumes r: "span_ok r" and d: "time_ok d" and lt: "f64_lt (f64_add r f64_1e_9) d"
  shows "f64_bits r \<le> f64_bits d"
proof -
  let ?k = "mag_of_bits (f64_bits r) + mag_of_bits (f64_bits f64_1e_9)"
  have "0 < mag_of_bits (f64_bits f64_1e_9)" using epsilon_time(2) mag_zero_iff by (metis gr0I less_numeral_extra(3))
  then have add: "f64_add r f64_1e_9 = f64_of_int (int ?k)"
    using r time_span[OF epsilon_time(1)] by (simp add: f64_add_def span_not_nan span_val) (simp add: span_ok_def)
  have "f64_bits r = round_bits 0 (mag_of_bits (f64_bits r))"
    using r round_bits_exact[of "f64_bits r"] by (simp add: span_ok_def f64_is_finite_def)
  also have "\<dots> \<le> f64_bits (f64_add r f64_1e_9)" unfolding add f64_of_int_fields by (simp add: round_bits_mono nat_int_add)
  also have "\<dots> < f64_bits d"
    using lt d by (simp add: f64_lt_def f64_signed_def time_ok_def add f64_of_int_fields)
  finally show ?thesis by simp
qed

lemma round_bits_half_even_upper: "n < 2 ^ (t + 2000) \<Longrightarrow> 53 \<le> t \<Longrightarrow> round_bits t n < inf_bits"
proof -
  assume n: "n < 2 ^ (t + 2000)" and t: "53 \<le> t"
  let ?s = "max t (bit_length n - 53)"
  have "bit_length n \<le> t + 2000" using n by (rule bit_length_le)
  then have s: "?s - t \<le> 1947" using t by simp
  have "half_even ?s n \<le> 2 ^ 53"
    by (rule half_even_upper) simp
  moreover have "(?s - t) * 2 ^ 52 \<le> 1947 * 2 ^ 52" using s by (rule mult_le_mono1)
  ultimately have "(?s - t) * 2 ^ 52 + half_even ?s n \<le> 1947 * 2 ^ 52 + 2 ^ 53" by (rule add_mono[rotated])
  also have "\<dots> < inf_bits" by (simp add: inf_bits_def)
  finally show ?thesis by (simp add: round_bits_def Let_def)
qed

lemma mag_power: "1 \<le> e \<Longrightarrow> mag_of_bits (e * 2 ^ 52) = 2 ^ (51 + e)"
  by (cases e) (simp_all add: mag_of_bits_def power_add)

lemma thousand_facts: "\<not> f64_neg f64_thousand" "f64_bits f64_thousand = 0x408F400000000000" "f64_is_finite f64_thousand"
  by (simp_all add: f64_thousand_def f64_neg_def f64_bits_def f64_is_finite_def inf_bits_def)

lemma delay_time: "time_ok (f64_div (f64_of_nat (unat (ms :: u32))) f64_thousand)"
proof -
  let ?a = "f64_of_nat (unat ms)"
  have exp_bits: "mag_of_bits (1055 * 2 ^ 52) = 2 ^ 1106" using mag_power[of 1055] by simp
  have "unat ms < 2 ^ LENGTH(32)" by (rule unsigned_less)
  then have "unat ms * 2 ^ 1074 \<le> 2 ^ 32 * 2 ^ 1074" by (intro mult_le_mono1) simp
  then have "unat ms * 2 ^ 1074 \<le> mag_of_bits (1055 * 2 ^ 52)" unfolding exp_bits by (simp add: power_add[symmetric])
  moreover have fin: "1055 * 2 ^ 52 < inf_bits" by (simp add: inf_bits_def)
  moreover have fields: "\<not> f64_neg ?a" "f64_bits ?a = round_bits 0 (unat ms * 2 ^ 1074)"
    unfolding f64_of_nat_def f64_of_int_fields by (simp_all add: nat_mult_distrib nat_power_eq)
  ultimately have a: "f64_bits ?a \<le> 1055 * 2 ^ 52" by (metis round_bits_lt)
  then have m: "mag_of_bits (f64_bits ?a) \<le> 2 ^ 1106" using mag_of_bits_le exp_bits by metis
  have finite_a: "f64_is_finite ?a" using a fin by (simp add: f64_is_finite_def)
  have n: "2 ^ 1074 \<le> mag_of_bits (f64_bits f64_thousand)"
    unfolding mag_one[symmetric] mag_of_bits_le thousand_facts by simp
  let ?m = "mag_of_bits (f64_bits ?a)" and ?n = "mag_of_bits (f64_bits f64_thousand)"
  have "?m * 2 ^ 3274 div ?n \<le> ?m * 2 ^ 3274 div 2 ^ 1074" using n by (rule div_le_mono2[rotated]) simp
  also have "\<dots> \<le> 2 ^ 1106 * 2 ^ 3274 div 2 ^ 1074" using m by (intro div_le_mono mult_le_mono1)
  also have "\<dots> = 2 ^ 3306"
  proof -
    have "(2::nat) ^ (1106 + 3274) = 2 ^ (3306 + 1074)" by (rule arg_cong[of _ _ "power 2"]) simp
    then show ?thesis by (simp only: power_add) (rule nonzero_mult_div_cancel_right, rule power_not_zero, rule zero_neq_numeral[symmetric])
  qed
  finally have q: "?m * 2 ^ 3274 div ?n \<le> 2 ^ 3306" .
  define q where "q = ?m * 2 ^ 3274 div ?n"
  define sticky :: nat where "sticky = (if ?m * 2 ^ 3274 mod ?n = 0 then 0 else 1)"
  have "2 * q + sticky \<le> 2 * 2 ^ 3306 + 1" using q unfolding q_def[symmetric] sticky_def by simp
  also have "\<dots> < 2 ^ (2201 + 2000)"
  proof -
    have "(2::nat) ^ 3306 < 2 ^ 4199" by (rule power_strict_increasing) simp_all
    then have "2 * 2 ^ 3306 + 2 \<le> 2 * (2::nat) ^ 4199" by linarith
    also have "\<dots> \<le> 2 ^ 4201" using power_increasing[of 4200 4201 "2::nat"] by (simp only: power_Suc[symmetric]) simp
    finally show ?thesis by simp
  qed
  finally have fin: "round_bits 2201 (2 * q + sticky) < inf_bits" by (intro round_bits_half_even_upper) simp_all
  have "f64_div ?a f64_thousand = f64_pack False (round_bits 2201 (2 * q + sticky))"
    using finite_a n fields(1) thousand_facts f64_finite_not_nan[OF finite_a] f64_finite_not_nan[OF thousand_facts(3)]
    unfolding f64_div_def Let_def q_def[symmetric] sticky_def[symmetric] by simp
  then show ?thesis using fin round_bits_less[of 2201 "2 * q + sticky"] by (simp add: time_ok_def f64_is_finite_def)
qed

end
