(* ===== verification/PlaybackInv.thy ===== *)
theory PlaybackInv
  imports PlaybackTime
begin

text \<open>
  The invariant of a playing session: every frame on show, open or to go back to is in the document, every
  pending timer belongs to a layer that is open and waits a finite time, and no layer that was closed is
  remembered. Every action keeps it, whatever the layers look like.
\<close>

section \<open>The invariant\<close>

definition open_layers :: "playback \<Rightarrow> u64 set" where
  "open_layers s = insert (pb_current_layer s) (ov_layer ` set (pb_overlays s))"

definition frames_ok :: "playback \<Rightarrow> bool" where
  "frames_ok s \<longleftrightarrow>
     scene_contains (pb_scene s) (pb_current s) \<and>
     list_all (\<lambda>e. scene_contains (pb_scene s) (ov_root e)) (pb_overlays s) \<and>
     list_all (\<lambda>e. scene_contains (pb_scene s) (nav_frame e)) (pb_back_stack s)"

definition timers_ok :: "playback \<Rightarrow> bool" where
  "timers_ok s \<longleftrightarrow> list_all (\<lambda>t. pt_layer t \<in> open_layers s \<and> time_ok (pt_remaining t)) (pb_timers s)"

definition player_ok :: "playback \<Rightarrow> bool" where
  \<comment> \<open>timers over the budget of a tick are kept as they are until the next restart\<close>
  "player_ok s \<longleftrightarrow>
     frames_ok s \<and> fst ` fset (pb_timer_membership s) \<subseteq> open_layers s \<and> (pb_timers_suspended s \<or> timers_ok s)"

lemmas player_defs = player_ok_def frames_ok_def timers_ok_def open_layers_def

lemma player_ok_frame [simp]:
  "player_ok (s\<lparr>pb_camera := a\<rparr>) = player_ok s" "player_ok (s\<lparr>pb_transition := b\<rparr>) = player_ok s"
  "player_ok (s\<lparr>pb_overlay_transition := c\<rparr>) = player_ok s" "player_ok (s\<lparr>pb_overlay_exit := d\<rparr>) = player_ok s"
  "player_ok (s\<lparr>pb_variant_transition := e\<rparr>) = player_ok s" "player_ok (s\<lparr>pb_animation := f\<rparr>) = player_ok s"
  "player_ok (s\<lparr>pb_motion_scope := g\<rparr>) = player_ok s" "player_ok (s\<lparr>pb_motion_targets := h\<rparr>) = player_ok s"
  "player_ok (s\<lparr>pb_events := i\<rparr>) = player_ok s" "player_ok (s\<lparr>pb_dispatch_layer := j\<rparr>) = player_ok s"
  "player_ok (s\<lparr>pb_scroll_offsets := k\<rparr>) = player_ok s" "player_ok (s\<lparr>pb_variant_overrides := l\<rparr>) = player_ok s"
  "player_ok (s\<lparr>pb_instance_overrides := m\<rparr>) = player_ok s" "player_ok (s\<lparr>pb_hovered := n\<rparr>) = player_ok s"
  "player_ok (s\<lparr>pb_pressed := o'\<rparr>) = player_ok s" "player_ok (s\<lparr>pb_suppress_next_click := p\<rparr>) = player_ok s"
  "player_ok (s\<lparr>pb_recording_press := q\<rparr>) = player_ok s" "player_ok (s\<lparr>pb_hover_chain := r\<rparr>) = player_ok s"
  "player_ok (s\<lparr>pb_scroll_animation := t\<rparr>) = player_ok s" "player_ok (s\<lparr>pb_pending_url := u\<rparr>) = player_ok s"
  "player_ok (s\<lparr>pb_variables := v\<rparr>) = player_ok s" "player_ok (s\<lparr>pb_active_modes := w\<rparr>) = player_ok s"
  "player_ok (s\<lparr>pb_mode_generation := x\<rparr>) = player_ok s" "player_ok (s\<lparr>pb_clock := y\<rparr>) = player_ok s"
  "player_ok (s\<lparr>pb_paused := z\<rparr>) = player_ok s" "player_ok (s\<lparr>pb_media_time := aa\<rparr>) = player_ok s"
  "player_ok (s\<lparr>pb_media_playing := bb\<rparr>) = player_ok s" "player_ok (s\<lparr>pb_node_media_times := cc\<rparr>) = player_ok s"
  "player_ok (s\<lparr>pb_next_layer := dd\<rparr>) = player_ok s"
  by (simp_all add: player_defs)

definition same_stage :: "playback \<Rightarrow> playback \<Rightarrow> bool" where
  \<comment> \<open>the layers, the way back and the document are as they were\<close>
  "same_stage s s' \<longleftrightarrow>
     pb_doc s' = pb_doc s \<and> pb_current s' = pb_current s \<and> pb_current_layer s' = pb_current_layer s \<and>
     pb_overlays s' = pb_overlays s \<and> pb_back_stack s' = pb_back_stack s \<and> pb_next_layer s' = pb_next_layer s \<and>
     pb_timers_suspended s' = pb_timers_suspended s \<and> pb_paused s' = pb_paused s \<and>
     pb_screen_size s' = pb_screen_size s \<and> pb_fit_mode s' = pb_fit_mode s \<and>
     pb_camera s' = pb_camera s \<and> pb_scroll_offsets s' = pb_scroll_offsets s"

lemma same_stage_refl [simp]: "same_stage s s"
  by (simp add: same_stage_def)

lemma same_stage_trans: "same_stage s t \<Longrightarrow> same_stage t u \<Longrightarrow> same_stage s u"
  by (simp add: same_stage_def)

lemma same_stage_fields:
  "same_stage s s' \<Longrightarrow> pb_doc s' = pb_doc s \<and> pb_current s' = pb_current s \<and> pb_current_layer s' = pb_current_layer s \<and>
     pb_overlays s' = pb_overlays s \<and> pb_back_stack s' = pb_back_stack s \<and> pb_next_layer s' = pb_next_layer s \<and>
     pb_timers_suspended s' = pb_timers_suspended s"
  by (simp add: same_stage_def)

definition quiet :: "(playback \<Rightarrow> playback) \<Rightarrow> bool" where
  \<comment> \<open>a step that keeps the stage and the invariant\<close>
  "quiet f \<longleftrightarrow> (\<forall>s. same_stage s (f s) \<and> (player_ok s \<longrightarrow> player_ok (f s)))"

lemma quiet_comp: "quiet f \<Longrightarrow> quiet g \<Longrightarrow> quiet (\<lambda>s. g (f s))"
  unfolding quiet_def by (blast intro: same_stage_trans)

section \<open>Scheduling\<close>

lemma delayed_in_facts:
  "t \<in> set (delayed_in root layer sc) \<Longrightarrow> pt_layer t = layer \<and> time_ok (pt_remaining t)"
  by (auto simp: delayed_in_def delayed_at_def List.map_filter_def delay_time split: option.splits trigger.splits)

lemma reorder_timer_fields [simp]:
  "pt_layer (reorder_timer sc root t) = pt_layer t" "pt_remaining (reorder_timer sc root t) = pt_remaining t"
  by (simp_all add: reorder_timer_def split: option.split)

lemma schedule_same: "same_stage s (schedule_timers_with_identity env root layer s)"
  by (simp add: same_stage_def schedule_timers_with_identity_def Let_def)

lemma schedule_ok:
  assumes "player_ok s" "layer \<in> open_layers s"
  shows "player_ok (schedule_timers_with_identity env root layer s)"
proof -
  let ?s = "schedule_timers_with_identity env root layer s"
  have same: "open_layers ?s = open_layers s" "frames_ok ?s = frames_ok s" "pb_timers_suspended ?s = pb_timers_suspended s"
    using schedule_same[of s env root layer] by (simp_all add: same_stage_def open_layers_def frames_ok_def)
  have "fst ` fset (pb_timer_membership ?s) \<subseteq> open_layers s"
    using assms by (auto simp: schedule_timers_with_identity_def Let_def player_ok_def fset_of_list.rep_eq dest: delayed_in_facts)
  moreover have "timers_ok ?s" if "timers_ok s"
    using that assms(2) delayed_in_facts unfolding timers_ok_def same(1)
    by (auto simp: schedule_timers_with_identity_def Let_def list_all_iff dest!: delayed_in_facts)
  ultimately show ?thesis using assms(1) same by (auto simp: player_ok_def)
qed

lemma find_Some_in: "find P xs = Some x \<Longrightarrow> x \<in> set xs \<and> P x"
  by (induction xs) (auto split: if_splits)

lemma layer_identity_open: "layer_identity s root \<in> open_layers s"
  by (auto simp: layer_identity_def open_layers_def split: option.split dest!: find_Some_in)

lemma schedule_timers_ok: "player_ok s \<Longrightarrow> player_ok (schedule_timers env root s)"
  unfolding schedule_timers_def by (rule schedule_ok[OF _ layer_identity_open])

lemma refresh_clip_quiet: "quiet (refresh_clip env)"
  unfolding quiet_def by (auto simp: refresh_clip_def stop_clip_def Let_def same_stage_def split: option.split)

lemma open_layers_same: "same_stage s s' \<Longrightarrow> open_layers s' = open_layers s"
  by (simp add: same_stage_def open_layers_def)

lemma refresh_fold:
  "\<lbrakk>player_ok s; \<forall>e \<in> set es. ov_layer e \<in> open_layers s\<rbrakk> \<Longrightarrow>
     player_ok (fold (\<lambda>e. schedule_timers_with_identity env (ov_root e) (ov_layer e)) es s)"
proof (induction es arbitrary: s)
  case (Cons e es)
  have "player_ok (schedule_timers_with_identity env (ov_root e) (ov_layer e) s)"
    using Cons.prems by (intro schedule_ok) simp_all
  then show ?case using Cons.IH Cons.prems open_layers_same[OF schedule_same] by simp
qed simp

lemma refresh_fold_same:
  "same_stage s (fold (\<lambda>e. schedule_timers_with_identity env (ov_root e) (ov_layer e)) es s)"
  by (induction es arbitrary: s) (auto intro: same_stage_trans[OF schedule_same])

lemma refresh_quiet: "quiet (refresh_layer_timers env)"
  unfolding quiet_def
proof (intro allI conjI impI)
  fix s
  let ?s1 = "schedule_timers_with_identity env (pb_current s) (pb_current_layer s) s"
  let ?s2 = "fold (\<lambda>e. schedule_timers_with_identity env (ov_root e) (ov_layer e)) (pb_overlays ?s1) ?s1"
  have r: "refresh_layer_timers env s = refresh_clip env ?s2" by (simp add: refresh_layer_timers_def Let_def)
  show "same_stage s (refresh_layer_timers env s)"
  proof -
    have "same_stage ?s1 ?s2" by (rule refresh_fold_same)
    moreover have "same_stage ?s2 (refresh_clip env ?s2)" using refresh_clip_quiet by (simp only: quiet_def)
    ultimately show ?thesis unfolding r by (rule same_stage_trans[OF same_stage_trans[OF schedule_same]])
  qed
  assume ok: "player_ok s"
  have s1: "player_ok ?s1" using ok by (rule schedule_ok) (simp add: open_layers_def)
  have "player_ok ?s2" by (rule refresh_fold[OF s1]) (simp add: open_layers_def)
  then show "player_ok (refresh_layer_timers env s)" unfolding r by (simp add: refresh_clip_quiet[unfolded quiet_def])
qed

lemma quiet_same: "quiet f \<Longrightarrow> same_stage s (f s)"
  by (simp add: quiet_def)

lemma quiet_ok: "quiet f \<Longrightarrow> player_ok s \<Longrightarrow> player_ok (f s)"
  by (simp add: quiet_def)

section \<open>Variables and restores\<close>

lemma restore_pointer_quiet: "quiet (\<lambda>s. snd (restore_pointer_reaction env a s))"
proof -
  have "same_stage s (snd (restore_pointer_reaction env a s)) \<and>
      (player_ok s \<longrightarrow> player_ok (snd (restore_pointer_reaction env a s)))" for s
  proof (cases a)
    case (Some b)
    obtain vc ov where 1: "fold restore_variant (rev (ar_variant_restores b)) (False, pb_instance_overrides s) = (vc, ov)" by force
    obtain c reg g where 2: "fold restore_variable (rev (ar_variable_restores b)) (vc, pb_variables s, pb_mode_generation s) = (c, reg, g)"
      by (metis prod_cases3)
    let ?u = "s\<lparr>pb_instance_overrides := ov, pb_variables := reg, pb_mode_generation := g,
                 pb_variant_transition := (if vc then None else pb_variant_transition s)\<rparr>"
    have u: "same_stage s ?u" "player_ok ?u = player_ok s" by (simp_all add: same_stage_def)
    show ?thesis
      using quiet_same[OF refresh_quiet, of ?u env] quiet_ok[OF refresh_quiet, of ?u env] u same_stage_trans[OF u(1)]
      by (simp add: restore_pointer_reaction_def Some 1 2)
  qed (simp add: restore_pointer_reaction_def)
  then show ?thesis by (simp add: quiet_def)
qed

lemma restore_hovered_quiet: "quiet (\<lambda>s. snd (restore_hovered_reaction env s))"
proof -
  have "same_stage s (s\<lparr>pb_hovered := None\<rparr>)" for s by (simp add: same_stage_def)
  then show ?thesis
    using restore_pointer_quiet unfolding quiet_def restore_hovered_reaction_def
    by (metis player_ok_frame(14) same_stage_trans)
qed

lemma restore_pressed_quiet: "quiet (\<lambda>s. snd (restore_pressed_reaction env s))"
proof -
  have "same_stage s (s\<lparr>pb_pressed := None\<rparr>)" for s by (simp add: same_stage_def)
  then show ?thesis
    using restore_pointer_quiet unfolding quiet_def restore_pressed_reaction_def
    by (metis player_ok_frame(15) same_stage_trans)
qed

definition restored_session :: "player_env \<Rightarrow> playback \<Rightarrow> playback" where
  \<comment> \<open>hover and press undone\<close>
  "restored_session env s = snd (restore_pressed_reaction env (snd (restore_hovered_reaction env s)))"

lemma restored_session_quiet: "quiet (restored_session env)"
  using quiet_comp[OF restore_hovered_quiet restore_pressed_quiet] by (simp add: restored_session_def[abs_def])

lemmas restored_same = quiet_same[OF restored_session_quiet]
lemmas restored_ok = quiet_ok[OF restored_session_quiet]

lemma quiet_after:
  "quiet f \<Longrightarrow> same_stage s u \<Longrightarrow> player_ok u = player_ok s \<Longrightarrow>
     same_stage s (f u) \<and> (player_ok s \<longrightarrow> player_ok (f u))"
  by (metis quiet_same quiet_ok same_stage_trans)

lemma set_variable_quiet: "quiet (\<lambda>s. snd (set_variable env s source v y))"
proof -
  have "same_stage s (snd (set_variable env s source v y)) \<and>
      (player_ok s \<longrightarrow> player_ok (snd (set_variable env s source v y)))" for s
  proof -
    have "same_stage s (refresh_layer_timers env (s\<lparr>pb_variables := a, pb_mode_generation := b\<rparr>)) \<and>
        (player_ok s \<longrightarrow> player_ok (refresh_layer_timers env (s\<lparr>pb_variables := a, pb_mode_generation := b\<rparr>)))" for a b
      by (rule quiet_after[OF refresh_quiet]) (simp_all add: same_stage_def)
    then show ?thesis by (simp add: set_variable_def split: option.splits)
  qed
  then show ?thesis by (simp add: quiet_def)
qed

section \<open>Frames\<close>

lemma seed_scroll:
  "\<exists>m. seed_initial_scroll_offsets env frame s = s\<lparr>pb_scroll_offsets := m\<rparr>"
proof -
  have "\<exists>m. fold (\<lambda>(i, offset). set_scroll_offset env i offset) xs s = s\<lparr>pb_scroll_offsets := m\<rparr>" for xs
  proof (induction xs arbitrary: s)
    case Nil
    show ?case by (rule exI[of _ "pb_scroll_offsets s"]) simp
  next
    case (Cons x xs)
    from Cons.IH[of "(case x of (i, offset) \<Rightarrow> set_scroll_offset env i offset) s"]
    show ?case by (auto simp: set_scroll_offset_def split: prod.splits)
  qed
  then show ?thesis unfolding seed_initial_scroll_offsets_def by blast
qed

lemma enter_frame_ok:
  assumes ok: "player_ok s" and frame: "scene_contains (pb_scene s) frame"
  shows "player_ok (enter_frame env frame s)"
proof -
  let ?s = "restored_session env s"
  let ?s1 = "?s\<lparr>pb_hover_chain := [], pb_current := frame, pb_dispatch_layer := None,
                 pb_current_layer := pb_next_layer ?s, pb_next_layer := pb_next_layer ?s + 1,
                 pb_camera := camera_of_frame env (pb_scene ?s) frame ?s, pb_overlays := [],
                 pb_overlay_transition := None, pb_overlay_exit := None, pb_variant_transition := None,
                 pb_animation := None, pb_scroll_animation := None, pb_scroll_offsets := fmempty\<rparr>"
  obtain m where m: "seed_initial_scroll_offsets env frame ?s1 = ?s1\<lparr>pb_scroll_offsets := m\<rparr>" using seed_scroll by blast
  have "player_ok (?s1\<lparr>pb_scroll_offsets := m, pb_timers := [], pb_timer_membership := {||}\<rparr>)"
    using restored_ok[OF ok, of env] restored_same[of s env] frame by (simp add: player_defs same_stage_def)
  then show ?thesis
    unfolding enter_frame_def Let_def restored_session_def[symmetric] m by (simp add: schedule_timers_ok)
qed

lemma schedule_timers_same: "same_stage s (schedule_timers env root s)"
  unfolding schedule_timers_def by (rule schedule_same)

lemma enter_frame_stage:
  "pb_doc (enter_frame env frame s) = pb_doc s" "pb_current (enter_frame env frame s) = frame"
  "pb_back_stack (enter_frame env frame s) = pb_back_stack s" "pb_overlays (enter_frame env frame s) = []"
  "pb_timers_suspended (enter_frame env frame s) = pb_timers_suspended s"
  "pb_screen_size (enter_frame env frame s) = pb_screen_size s" "pb_fit_mode (enter_frame env frame s) = pb_fit_mode s"
proof -
  let ?s = "restored_session env s"
  let ?s1 = "?s\<lparr>pb_hover_chain := [], pb_current := frame, pb_dispatch_layer := None,
                 pb_current_layer := pb_next_layer ?s, pb_next_layer := pb_next_layer ?s + 1,
                 pb_camera := camera_of_frame env (pb_scene ?s) frame ?s, pb_overlays := [],
                 pb_overlay_transition := None, pb_overlay_exit := None, pb_variant_transition := None,
                 pb_animation := None, pb_scroll_animation := None, pb_scroll_offsets := fmempty\<rparr>"
  obtain m where m: "seed_initial_scroll_offsets env frame ?s1 = ?s1\<lparr>pb_scroll_offsets := m\<rparr>" using seed_scroll by blast
  note e = enter_frame_def[of env frame s, unfolded Let_def restored_session_def[symmetric] m]
  note t = schedule_timers_same[of "?s1\<lparr>pb_scroll_offsets := m, pb_timers := [], pb_timer_membership := {||}\<rparr>" env frame]
  show "pb_doc (enter_frame env frame s) = pb_doc s" "pb_current (enter_frame env frame s) = frame"
    "pb_back_stack (enter_frame env frame s) = pb_back_stack s" "pb_overlays (enter_frame env frame s) = []"
    "pb_timers_suspended (enter_frame env frame s) = pb_timers_suspended s"
    "pb_screen_size (enter_frame env frame s) = pb_screen_size s" "pb_fit_mode (enter_frame env frame s) = pb_fit_mode s"
    unfolding e using t restored_same[of s env] by (simp_all add: same_stage_def)
qed

lemma begin_transition_facts:
  "player_ok (snd (begin_transition f fc t tc tr s)) = player_ok s"
  "pb_current (snd (begin_transition f fc t tc tr s)) = pb_current s"
  "pb_doc (snd (begin_transition f fc t tc tr s)) = pb_doc s"
  "pb_back_stack (snd (begin_transition f fc t tc tr s)) = pb_back_stack s"
  "pb_camera (snd (begin_transition f fc t tc tr s)) = pb_camera s"
  "pb_scroll_offsets (snd (begin_transition f fc t tc tr s)) = pb_scroll_offsets s"
  "pb_overlays (snd (begin_transition f fc t tc tr s)) = pb_overlays s"
  "pb_timers_suspended (snd (begin_transition f fc t tc tr s)) = pb_timers_suspended s"
  by (simp_all add: begin_transition_def Let_def split: option.split)

section \<open>Actions\<close>

definition stage_kept :: "playback \<Rightarrow> playback \<Rightarrow> bool" where
  "stage_kept s s' \<longleftrightarrow>
     (player_ok s \<longrightarrow> player_ok s') \<and> pb_doc s' = pb_doc s \<and> pb_timers_suspended s' = pb_timers_suspended s"

lemma kept_refl [simp]: "stage_kept s s"
  by (simp add: stage_kept_def)

lemma kept_trans [trans]: "stage_kept s t \<Longrightarrow> stage_kept t u \<Longrightarrow> stage_kept s u"
  by (simp add: stage_kept_def)

lemma quiet_kept: "quiet f \<Longrightarrow> stage_kept s (f s)"
  by (simp add: stage_kept_def quiet_def same_stage_def)

lemma kept_navigate: "stage_kept s (snd (do_navigate env to tr s))"
proof -
  let ?u = "s\<lparr>pb_back_stack := pb_back_stack s @
    [\<lparr>nav_frame = pb_current s, nav_camera = pb_camera s, nav_scroll_snapshot = pb_scroll_offsets s\<rparr>]\<rparr>"
  have "player_ok ?u" if "player_ok s" using that by (simp add: player_defs)
  then show ?thesis
    by (auto simp: do_navigate_def stage_kept_def Let_def case_prod_unfold begin_transition_facts enter_frame_stage
        intro!: enter_frame_ok)
qed

lemma last_opt_split: "last_opt xs = Some x \<Longrightarrow> xs = butlast xs @ [x]"
  by (simp add: last_opt_def split: if_splits) (metis append_butlast_last_id)

lemma list_all_last: "list_all P xs \<Longrightarrow> last_opt xs = Some x \<Longrightarrow> list_all P (butlast xs) \<and> P x"
  using last_opt_split[of xs x] list_all_append[of P "butlast xs" "[x]"] by simp

lemma kept_back: "stage_kept s (snd (do_back env tr s))"
proof (cases "last_opt (pb_back_stack s)")
  case (Some entry)
  let ?u = "s\<lparr>pb_back_stack := butlast (pb_back_stack s)\<rparr>"
  have "player_ok ?u \<and> scene_contains (pb_scene s) (nav_frame entry)" if "player_ok s"
    using that list_all_last[OF _ Some, of "\<lambda>e. scene_contains (pb_scene s) (nav_frame e)"] by (auto simp: player_defs)
  then show ?thesis
    by (auto simp: do_back_def Some stage_kept_def Let_def case_prod_unfold begin_transition_facts enter_frame_stage
        intro!: enter_frame_ok)
qed (simp add: do_back_def)

lemma cancel_ok:
  assumes "player_ok s" "pb_overlays s = es @ [e]"
  shows "player_ok (cancel_timers (ov_layer e) (s\<lparr>pb_overlays := es\<rparr>))"
  using assms by (auto simp: player_defs cancel_timers_def list_all_iff)

lemma cancel_frame:
  "pb_doc (cancel_timers l s) = pb_doc s" "pb_timers_suspended (cancel_timers l s) = pb_timers_suspended s"
  "pb_current (cancel_timers l s) = pb_current s" "pb_overlays (cancel_timers l s) = pb_overlays s"
  "pb_back_stack (cancel_timers l s) = pb_back_stack s"
  by (simp_all add: cancel_timers_def)

lemma cancel_commute:
  "cancel_timers l (s\<lparr>pb_overlays := a, pb_overlay_transition := b, pb_variant_transition := c, pb_animation := d\<rparr>) =
     (cancel_timers l (s\<lparr>pb_overlays := a\<rparr>))\<lparr>pb_overlay_transition := b, pb_variant_transition := c, pb_animation := d\<rparr>"
  by (simp add: cancel_timers_def)

lemma restored_kept: "stage_kept s (restored_session env s)"
  by (rule quiet_kept[OF restored_session_quiet])

lemma kept_close: "stage_kept s (snd (do_close env tr s))"
proof (cases "last_opt (pb_overlays s)")
  case (Some closed)
  let ?u = "cancel_timers (ov_layer closed) (s\<lparr>pb_overlays := butlast (pb_overlays s), pb_overlay_transition := None,
                         pb_variant_transition := None, pb_animation := None\<rparr>)"
  have "stage_kept s ?u"
    unfolding cancel_commute using cancel_ok[OF _ last_opt_split[OF Some]] by (simp add: stage_kept_def cancel_frame)
  also have "stage_kept ?u (restored_session env ?u)" by (rule restored_kept)
  finally show ?thesis
    by (simp add: do_close_def Some Let_def restored_session_def[symmetric] stage_kept_def)
qed (simp add: do_close_def)

lemma kept_open_overlay: "stage_kept s (snd (open_overlay env frame settings tr s))"
proof -
  have push: "stage_kept s (s\<lparr>pb_overlays := pb_overlays s @ [e], pb_next_layer := k\<rparr>)"
    if "scene_contains (pb_scene s) frame" "ov_root e = frame" for s e k
    using that by (auto simp: stage_kept_def player_defs list_all_iff)
  have sched: "stage_kept s (schedule_timers env frame s)" for s
    using schedule_timers_same[of s env frame] by (simp add: stage_kept_def schedule_timers_ok same_stage_def)
  show ?thesis
  proof (cases "scene_contains (pb_scene s) frame \<and> pe_bounds env (rl_scene (pe_layer env s frame (pb_next_layer s) False)) frame \<noteq> None")
    case True
    then obtain b where b: "pe_bounds env (rl_scene (pe_layer env s frame (pb_next_layer s) False)) frame = Some b" by blast
    let ?s1 = "restored_session env s"
    obtain cam rect where p: "place_overlay (camera_scale (active_camera s)) b (overlay_settings_position settings) (pb_screen_size s) = (cam, rect)" by force
    let ?e = "\<lparr>ov_root = frame, ov_layer = pb_next_layer ?s1, ov_settings = settings, ov_camera = cam, ov_screen_rect = rect\<rparr>"
    let ?s2 = "?s1\<lparr>pb_overlays := pb_overlays ?s1 @ [?e], pb_next_layer := pb_next_layer ?s1 + 1\<rparr>"
    have "stage_kept s ?s1" by (rule restored_kept)
    also have "stage_kept ?s1 ?s2" using True restored_same[of s env] by (intro push) (simp_all add: same_stage_def)
    also have "stage_kept ?s2 (schedule_timers env frame ?s2)" by (rule sched)
    finally show ?thesis using True by (simp add: open_overlay_def b p Let_def restored_session_def[symmetric] stage_kept_def)
  qed (auto simp: open_overlay_def)
qed

lemma kept_set_variable: "stage_kept s (snd (do_set_variable env source a s))"
  using quiet_kept[OF set_variable_quiet, of s env source] by (auto simp: do_set_variable_def Let_def case_prod_unfold split: option.split)

lemma kept_update_variant: "stage_kept s (snd (do_update_variant env source c v tr s))"
proof -
  have "stage_kept s (refresh_layer_timers env u)" if "same_stage s u" "player_ok u = player_ok s" for u
    using quiet_after[OF refresh_quiet that] by (simp add: stage_kept_def same_stage_def)
  then show ?thesis by (simp add: do_update_variant_def Let_def same_stage_def split: option.split)
qed

lemma kept_scroll_to: "stage_kept s (snd (do_scroll_to env source target tr s))"
  by (simp add: do_scroll_to_def Let_def stage_kept_def set_scroll_offset_def split: option.split prod.split)

lemma kept_execute_one: "stage_kept s (snd (execute_one env a source tr s))"
  by (simp add: execute_one_def kept_navigate kept_back kept_close kept_open_overlay kept_set_variable
      kept_update_variant kept_scroll_to split: action.split) (simp add: stage_kept_def)

lemma kept_steps:
  "stage_kept s (scope_missing s)" "stage_kept s (note_press a s)" "stage_kept s (s\<lparr>pb_dispatch_layer := d\<rparr>)"
  "stage_kept before s \<Longrightarrow> stage_kept before (after_action b s)"
  by (simp_all add: scope_missing_def note_press_def after_action_def stage_kept_def)

lemma kept_action_source: "action_source env s source original ancestors = Some (i, s1) \<Longrightarrow> stage_kept s s1"
  by (auto simp: action_source_def kept_steps split: option.splits)

lemma execute_kept:
  "stage_kept s (snd (execute env a source tr s))"
  "stage_kept s (snd (run_branches env bs other source tr s))"
  "stage_kept s (snd (snd (run_actions env acts source original ancestors tr resp s)))"
proof (induction env a source tr s and env bs other source tr s and env acts source original ancestors tr resp s
    rule: execute_run_branches_run_actions.induct)
  case (1 env a source tr s)
  then show ?case by (subst execute.simps) (simp add: kept_execute_one split: action.split)
next
  case (2 env bs other source tr s)
  then show ?case by (subst run_branches.simps) (simp add: Let_def split: list.split conditional_branch.split)
next
  case (3 env acts source original ancestors tr resp s)
  show ?case
  proof (cases acts)
    case (Cons a as)
    show ?thesis
    proof (cases "action_source env s source original ancestors")
      case None
      then show ?thesis by (subst run_actions.simps) (simp add: Cons kept_steps)
    next
      case (Some p)
      obtain i s1 where p: "p = (i, s1)" by force
      obtain r s2 where e: "execute env a i tr (note_press a s1) = (r, s2)" by force
      have "stage_kept s s1" using Some p by (simp add: kept_action_source)
      also have "stage_kept s1 (note_press a s1)" by (rule kept_steps)
      also have "stage_kept (note_press a s1) s2" using "3.IH"(1)[OF Cons Some p[symmetric]] e by simp
      finally have k: "stage_kept s (after_action s s2)" by (rule kept_steps)
      show ?thesis
        using k "3.IH"(2)[OF Cons Some p[symmetric] e[symmetric]] kept_trans[OF k]
        by (subst run_actions.simps) (simp add: Cons Some p e Let_def)
    qed
  qed (subst run_actions.simps, simp)
qed

end
