(* ===== verification/PlaybackProps.thy ===== *)
theory PlaybackProps
  imports PlaybackInv
begin

text \<open>
  The prototype player as a whole: every session that can be reached keeps the invariant, and the advance of time
  always returns.
\<close>

section \<open>Events\<close>

lemma kept_animation: "stage_kept s (snd (start_prototype_animation env scope an s))"
  by (simp add: start_prototype_animation_def Let_def mark_completed_def stage_kept_def split: sum.split)

lemma kept_reaction: "stage_kept s (snd (execute_reaction env source acts tr an s))"
proof -
  let ?anc = "reaction_instance_ancestors env s source"
  obtain ended resp s1 where r: "run_actions env acts source (original_source env s source ?anc) ?anc tr response_default s = (ended, resp, s1)"
    using prod_cases3 by blast
  have "stage_kept s s1" using execute_kept(3)[of s env acts source "original_source env s source ?anc" ?anc tr response_default] r by simp
  then show ?thesis
    using kept_trans[OF _ kept_animation] by (simp add: execute_reaction_def r Let_def case_prod_unfold split: option.split)
qed

lemma kept_matching: "stage_kept s (snd (execute_matching env m s))"
  by (simp add: execute_matching_def kept_reaction case_prod_unfold split: option.split)

lemma and_also_state: "snd (and_also h f) = snd (f (snd h))"
  by (simp add: and_also_def Let_def case_prod_unfold)

lemma kept_and_also: "stage_kept s (snd h) \<Longrightarrow> (\<And>u. stage_kept u (snd (f u))) \<Longrightarrow> stage_kept s (snd (and_also h f))"
  using kept_trans[of s "snd h" "snd (f (snd h))"] by (simp add: and_also_state)

lemma kept_update: "same_stage s u \<Longrightarrow> player_ok u = player_ok s \<Longrightarrow> stage_kept s u"
  by (simp add: stage_kept_def same_stage_def)

lemma kept_hovered: "stage_kept s (snd (restore_hovered_reaction env s))"
  by (rule quiet_kept[OF restore_hovered_quiet])

lemma kept_pressed: "stage_kept s (snd (restore_pressed_reaction env s))"
  by (rule quiet_kept[OF restore_pressed_quiet])

lemma kept_both: "stage_kept s (snd (restore_both env s))"
  unfolding restore_both_def by (rule kept_and_also[OF kept_hovered kept_pressed])

lemma kept_leave_reactions: "stage_kept s (snd (run_leave_reactions env ms resp s))"
proof (induction ms arbitrary: resp s)
  case (Cons m ms)
  show ?case
    using kept_matching[of s env "Some m"] kept_trans[OF kept_matching[of s env "Some m"] Cons.IH]
    by (simp add: Let_def case_prod_unfold)
qed simp

lemma kept_mouse_leave: "stage_kept s (snd (fire_mouse_leave env hit s))"
proof -
  have "stage_kept s (s\<lparr>pb_hover_chain := c\<rparr>)" for c by (simp add: stage_kept_def)
  then show ?thesis using kept_trans[OF _ kept_leave_reactions] by (simp add: fire_mouse_leave_def Let_def)
qed

lemma kept_hover: "stage_kept s (snd (update_hover env hit s))"
proof -
  let ?u = "snd (fire_mouse_leave env hit s)"
  have u: "stage_kept s ?u" by (rule kept_mouse_leave)
  have "stage_kept ?u (begin_hover env m (snd (restore_hovered_reaction env ?u)))" for m
    using kept_hovered[of ?u env] by (simp add: stage_kept_def begin_hover_def)
  then have "stage_kept s (snd (execute_matching env m (begin_hover env m (snd (restore_hovered_reaction env ?u)))))" for m
    using kept_trans[OF kept_trans[OF u] kept_matching] by blast
  with u show ?thesis by (simp add: update_hover_def Let_def case_prod_unfold)
qed

lemma kept_click_outside:
  assumes "last_opt (pb_overlays s) = Some front"
  shows "stage_kept s (snd (click_outside env point front s))"
proof -
  let ?s1 = "cancel_timers (ov_layer front) (s\<lparr>pb_overlays := butlast (pb_overlays s)\<rparr>)"
  have "stage_kept s (?s1\<lparr>pb_overlay_transition := a, pb_overlay_exit := b, pb_animation := c\<rparr>)" for a b c
    using cancel_ok[OF _ last_opt_split[OF assms]] by (simp add: stage_kept_def cancel_frame)
  then show ?thesis
    using kept_trans[OF _ kept_both] by (simp add: click_outside_def Let_def case_prod_unfold)
qed

lemma kept_down: "stage_kept s (snd (pointer_down env hit s))"
proof -
  let ?m = "matching_reaction env s hit TriggerKind_WhilePressing"
  let ?h = "if ?m = None then restore_pressed_reaction env s
    else and_also (restore_pressed_reaction env s) (restore_hovered_reaction env)"
  have h: "stage_kept s (snd ?h)" using kept_pressed kept_and_also[OF kept_pressed kept_hovered] by simp
  obtain r s1 where s1: "?h = (r, s1)" by force
  let ?s2 = "s1\<lparr>pb_pressed := map_option (\<lambda>(source, r). active_pointer_reaction env s1 source r) ?m,
                  pb_suppress_next_click := False, pb_recording_press := True\<rparr>"
  have "stage_kept s s1" using h s1 by simp
  also have "stage_kept s1 ?s2" by (simp add: stage_kept_def)
  also have "stage_kept ?s2 (snd (execute_matching env ?m ?s2))" by (rule kept_matching)
  finally have "stage_kept s ((snd (execute_matching env ?m ?s2))\<lparr>pb_recording_press := False\<rparr>)" by (simp add: stage_kept_def)
  then show ?thesis by (simp add: pointer_down_def Let_def s1 case_prod_unfold del: if_split)
qed

lemma kept_up: "stage_kept s (snd (pointer_up env hit s))"
  using kept_pressed kept_trans[OF kept_pressed kept_hover]
  by (simp add: pointer_up_def Let_def case_prod_unfold and_also_def)

lemma kept_dispatch: "stage_kept s (snd (dispatch env hit want s))"
  by (simp add: dispatch_def kept_matching)

lemma kept_click: "stage_kept s (snd (pointer_click env hit s))"
proof -
  have "stage_kept s (s\<lparr>pb_suppress_next_click := False\<rparr>)" by (simp add: stage_kept_def)
  then show ?thesis using kept_and_also[OF kept_hovered kept_dispatch] by (simp add: pointer_click_def)
qed

lemma kept_pointer: "stage_kept s (snd (handle_pointer env point ev s))"
proof -
  have u: "stage_kept s (s\<lparr>pb_suppress_next_click := False\<rparr>)" by (simp add: stage_kept_def)
  note drag = kept_and_also[OF kept_trans[OF u kept_hovered] kept_dispatch]
  note left = kept_and_also[OF kept_trans[OF u kept_mouse_leave] kept_both]
  show ?thesis
    by (simp add: handle_pointer_def Let_def drag left kept_hover kept_down kept_up kept_click kept_click_outside
        split: option.split pointer_event.split)
qed

lemma kept_key: "stage_kept s (snd (handle_key env key ev s))"
  by (simp add: handle_key_def Let_def kept_matching)

section \<open>Time\<close>

definition still :: "(playback \<Rightarrow> handled) \<Rightarrow> bool" where
  \<comment> \<open>a step that leaves the layers, their timers and the way back alone\<close>
  "still f \<longleftrightarrow> (\<forall>s. let u = snd (f s) in
     pb_doc u = pb_doc s \<and> pb_current u = pb_current s \<and> pb_current_layer u = pb_current_layer s \<and>
     pb_overlays u = pb_overlays s \<and> pb_back_stack u = pb_back_stack s \<and> pb_timers u = pb_timers s \<and>
     pb_timer_membership u = pb_timer_membership s \<and> pb_timers_suspended u = pb_timers_suspended s)"

lemma still_steps:
  "still (step_media dt)" "still (step_transition dt)" "still (step_overlay_transition dt)"
  "still (step_overlay_exit dt)" "still (step_variant_transition dt)" "still (step_animation dt)"
  "still (step_scroll env dt)"
  by (simp_all add: still_def step_media_def step_transition_def step_overlay_transition_def step_overlay_exit_def
      step_variant_transition_def step_animation_def step_scroll_def mark_completed_def set_scroll_offset_def Let_def
      split: option.split)

lemma still_and_also: "still f \<Longrightarrow> still g \<Longrightarrow> still (\<lambda>s. and_also (f s) g)"
  by (simp add: still_def and_also_def Let_def case_prod_unfold)

lemma still_advance: "still (advance_continuous env dt)"
  by (simp add: advance_continuous_def[abs_def] still_and_also still_steps)

lemma still_facts:
  "still f \<Longrightarrow> pb_doc (snd (f s)) = pb_doc s \<and> pb_timers (snd (f s)) = pb_timers s \<and>
     pb_timers_suspended (snd (f s)) = pb_timers_suspended s \<and> player_ok (snd (f s)) = player_ok s"
  by (simp add: still_def Let_def player_defs)

lemmas advance_facts = still_facts[OF still_advance]

lemma kept_advance: "stage_kept s (snd (advance_continuous env dt s))"
  using advance_facts[of env dt s] by (simp add: stage_kept_def)

lemma next_due_least:
  assumes "next_due ts = Some d" "\<forall>t \<in> set ts. time_ok (pt_remaining t)"
  shows "time_ok d \<and> (\<exists>t \<in> set ts. pt_remaining t = d) \<and> (\<forall>t \<in> set ts. f64_bits d \<le> f64_bits (pt_remaining t))"
proof -
  have pick: "\<lbrakk>time_ok x; \<forall>y \<in> set xs. time_ok y\<rbrakk> \<Longrightarrow>
      (let m = fold (\<lambda>y m. if total_key y < total_key m then y else m) xs x
       in m \<in> insert x (set xs) \<and> time_ok m \<and> (\<forall>y \<in> insert x (set xs). f64_bits m \<le> f64_bits y))" for x xs
  proof (induction xs arbitrary: x)
    case (Cons y ys)
    show ?case
      using Cons.IH[of "if total_key y < total_key x then y else x"] Cons.prems
      by (auto simp: Let_def time_total_key split: if_splits)
  qed (simp add: Let_def)
  from assms(1) obtain u us where ts: "ts = u # us" by (cases ts) (simp_all add: next_due_def)
  have "map (\<lambda>t. f64_max (pt_remaining t) 0) us = map pt_remaining us" "f64_max (pt_remaining u) 0 = pt_remaining u"
    using assms(2) by (simp_all add: span_max_zero time_span ts)
  then have "d = fold (\<lambda>y m. if total_key y < total_key m then y else m) (map pt_remaining us) (pt_remaining u)"
    using assms(1) by (simp only: next_due_def ts list.map list.case option.inject)
  with pick[of "pt_remaining u" "map pt_remaining us"] assms(2) show ?thesis by (auto simp: ts Let_def)
qed

lemma elapse_ok:
  assumes "player_ok s" "span_ok dt" "\<forall>t \<in> set (pb_timers s). f64_bits dt \<le> f64_bits (pt_remaining t)"
  shows "player_ok (elapse_timers dt s)"
  using assms by (auto simp: player_defs elapse_timers_def list_all_iff f64_sub_span time_span)

lemma drop_timers_ok: "player_ok s \<Longrightarrow> player_ok (s\<lparr>pb_timers := filter P (pb_timers s)\<rparr>)"
  by (auto simp: player_defs list_all_iff)

lemma sort_timers_set: "set (sort_timers ts) = set ts"
proof -
  have "set (insert_timer t us) = insert t (set us)" for t us by (induction us) auto
  then show ?thesis by (induction ts) (simp_all add: sort_timers_def)
qed

lemma kept_fire_timer: "stage_kept s (snd (fire_timer env t s))"
proof -
  have "stage_kept s (s\<lparr>pb_dispatch_layer := d\<rparr>)" for d by (simp add: stage_kept_def)
  from kept_trans[OF this kept_reaction] show ?thesis by (simp add: fire_timer_def Let_def case_prod_unfold stage_kept_def)
qed

lemma suspended_ok: "player_ok s \<Longrightarrow> player_ok (s\<lparr>pb_timers_suspended := True\<rparr>)"
  "player_ok s \<Longrightarrow> player_ok (s\<lparr>pb_timers := ts, pb_timers_suspended := True\<rparr>)"
  by (simp_all add: player_defs)

lemma fire_due_over:
  "MAX_TIMER_EVENTS_PER_TICK \<le> fired \<Longrightarrow>
     \<exists>ts. fire_due env due fired resp s = (fired, resp, s\<lparr>pb_timers := ts\<rparr>)"
proof (induction due arbitrary: s)
  case Nil
  show ?case by (rule exI[of _ "pb_timers s"]) simp
next
  case (Cons t due)
  from Cons.IH[OF Cons.prems, of "s\<lparr>pb_timers := pb_timers s @ [t]\<rparr>"] Cons.prems show ?case by auto
qed

lemma fire_due_ok:
  "fire_due env due fired resp s = (fired', resp', s') \<Longrightarrow> player_ok s \<Longrightarrow> fired \<le> MAX_TIMER_EVENTS_PER_TICK \<Longrightarrow>
     player_ok (s'\<lparr>pb_timers_suspended := True\<rparr>) \<and> pb_doc s' = pb_doc s \<and>
     (fired' < MAX_TIMER_EVENTS_PER_TICK \<longrightarrow>
        fired' = fired + length due \<and> player_ok s' \<and> pb_timers_suspended s' = pb_timers_suspended s)"
proof (induction due arbitrary: fired resp s)
  case Nil
  then show ?case by (auto simp: suspended_ok)
next
  case (Cons t due)
  show ?case
  proof (cases "MAX_TIMER_EVENTS_PER_TICK \<le> fired")
    case True
    from fire_due_over[OF True, of env "t # due" resp s] obtain ts where
      "fire_due env (t # due) fired resp s = (fired, resp, s\<lparr>pb_timers := ts\<rparr>)" by blast
    with Cons.prems True show ?thesis by (auto simp: suspended_ok)
  next
    case False
    obtain r s1 where t: "fire_timer env t s = (r, s1)" by force
    have k: "stage_kept s s1" using kept_fire_timer[of s env t] t by simp
    have "fire_due env due (fired + 1) (merge_responses resp r) s1 = (fired', resp', s')"
      using Cons.prems(1) False t by (simp add: Let_def)
    from Cons.IH[OF this] k Cons.prems(2) False show ?thesis by (auto simp: stage_kept_def)
  qed
qed

lemma advanced_ok:
  assumes "and_also (resp, s) (advance_continuous env x) = (r, s1)" "player_ok s"
  shows "player_ok s1 \<and> pb_timers s1 = pb_timers s \<and> pb_timers_suspended s1 = pb_timers_suspended s"
  using arg_cong[OF assms(1), of snd] advance_facts[of env x s] assms(2) by (auto simp: and_also_state)

lemma tick_round:
  \<comment> \<open>one round of the loop that reaches the next timer: where it leads, and that it is the last when none is due\<close>
  assumes s: "player_ok s" "\<not> pb_timers_suspended s" "span_ok remaining"
    and d: "next_due (pb_timers s) = Some d"
    and step: "step = f64_min d remaining"
    and adv: "and_also (resp, s) (advance_continuous env step) = (resp1, s1)"
    and s2: "s2 = elapse_timers step s1"
    and s3: "s3 = s2\<lparr>pb_timers := filter (\<lambda>t. \<not> timer_due t) (pb_timers s2)\<rparr>"
    and left: "left = f64_max (f64_sub remaining step) 0"
  shows "player_ok s3" "\<not> pb_timers_suspended s3" "span_ok left"
    "filter timer_due (pb_timers s2) = [] \<Longrightarrow> f64_le left 0"
proof -
  have times: "\<forall>t \<in> set (pb_timers s). time_ok (pt_remaining t)"
    using s(1,2) by (simp add: player_ok_def timers_ok_def list_all_iff)
  note least = next_due_least[OF d times]
  then have dt: "time_ok d" by blast
  have st: "span_ok step" "f64_bits step \<le> f64_bits d" "f64_bits step \<le> f64_bits remaining"
    using time_span[OF dt] s(3) by (auto simp: step span_min)
  note s1 = advanced_ok[OF adv s(1)]
  have "f64_bits step \<le> f64_bits (pt_remaining t)" if "t \<in> set (pb_timers s)" for t
    using least st(2) that by (blast intro: order_trans)
  then have "player_ok s2" unfolding s2 using s1 by (intro elapse_ok[OF _ st(1)]) simp_all
  then show "player_ok s3" "\<not> pb_timers_suspended s3"
    using drop_timers_ok[of s2] s1 s(2) by (simp_all add: s3 s2 elapse_timers_def)
  have sub: "left = f64_sub remaining step" "span_ok left"
    using f64_sub_span(1)[OF s(3) st(1) st(3)] by (simp_all add: left span_max_zero)
  then show "span_ok left" by simp
  show "f64_le left 0" if none: "filter timer_due (pb_timers s2) = []"
  proof -
    have "step \<noteq> d"
    proof
      assume "step = d"
      obtain t where t: "t \<in> set (pb_timers s)" "pt_remaining t = d" using least by blast
      let ?t = "t\<lparr>pt_remaining := f64_sub d d\<rparr>"
      have "?t \<in> set (pb_timers s2)" using t s1 \<open>step = d\<close> by (force simp: s2 elapse_timers_def)
      moreover have "timer_due ?t"
        using f64_sub_span(1,3)[OF time_span[OF dt] time_span[OF dt]] time_span[OF epsilon_time(1)]
        by (simp add: timer_due_def span_le)
      ultimately have "?t \<in> set (filter timer_due (pb_timers s2))" by simp
      with none show False by simp
    qed
    then have "step = remaining" using time_span[OF dt] s(3) by (auto simp: step span_min split: if_splits)
    then have "f64_bits left = 0" using sub f64_sub_span(3)[OF s(3) s(3)] by simp
    then show ?thesis using sub(2) by (simp add: span_le time_span)
  qed
qed

lemma tick_pause:
  \<comment> \<open>the next timer is not reached\<close>
  assumes s: "player_ok s" "\<not> pb_timers_suspended s" "span_ok remaining"
    and d: "next_due (pb_timers s) = Some d" "f64_lt (f64_add remaining f64_1e_9) d"
    and adv: "and_also (resp, s) (advance_continuous env remaining) = (r, s1)"
  shows "player_ok (elapse_timers remaining s1)"
proof -
  have "\<forall>t \<in> set (pb_timers s). time_ok (pt_remaining t)"
    using s(1,2) by (simp add: player_ok_def timers_ok_def list_all_iff)
  note least = next_due_least[OF d(1) this]
  then have "time_ok d" by blast
  then have "f64_bits remaining \<le> f64_bits (pt_remaining t)" if "t \<in> set (pb_timers s)" for t
    using least past_epsilon[OF s(3) _ d(2)] that by (blast intro: order_trans)
  then show ?thesis using advanced_ok[OF adv s(1)] by (intro elapse_ok[OF _ s(3)]) simp_all
qed

lemma tick_suspends:
  assumes "player_ok (s\<lparr>pb_timers_suspended := True\<rparr>)"
    "and_also (resp, suspend_timers s) (advance_continuous env x) = (r, s5)"
  shows "player_ok (elapse_timers x s5)"
proof -
  have "player_ok (suspend_timers s)" using assms(1) by (simp add: suspend_timers_def)
  from advanced_ok[OF assms(2) this] show ?thesis by (simp add: player_defs elapse_timers_def suspend_timers_def)
qed

lemma tick_loop_returns:
  assumes "player_ok s" "\<not> pb_timers_suspended s" "span_ok remaining" "fired < MAX_TIMER_EVENTS_PER_TICK"
    "MAX_TIMER_EVENTS_PER_TICK - fired < fuel"
  shows "\<exists>resp' s'. tick_loop fuel env remaining fired resp s = Some (resp', s') \<and> player_ok s'"
  using assms
proof (induction fuel arbitrary: remaining fired resp s)
  case (Suc fuel)
  consider (idle) "next_due (pb_timers s) = None"
    | (early) d where "next_due (pb_timers s) = Some d" "f64_lt (f64_add remaining f64_1e_9) d"
    | (reached) d where "next_due (pb_timers s) = Some d" "\<not> f64_lt (f64_add remaining f64_1e_9) d" by blast
  then show ?case
  proof cases
    case idle
    obtain r s1 where a: "and_also (resp, s) (advance_continuous env remaining) = (r, s1)" by force
    then show ?thesis using idle advanced_ok[OF a Suc.prems(1)] by simp
  next
    case early
    obtain r s1 where a: "and_also (resp, s) (advance_continuous env remaining) = (r, s1)" by force
    with early tick_pause[OF Suc.prems(1-3) early a] show ?thesis by simp
  next
    case reached
    define step where "step = f64_min d remaining"
    obtain resp1 s1 where adv: "and_also (resp, s) (advance_continuous env step) = (resp1, s1)" by force
    define s2 where "s2 = elapse_timers step s1"
    define s3 where "s3 = s2\<lparr>pb_timers := filter (\<lambda>t. \<not> timer_due t) (pb_timers s2)\<rparr>"
    define due where "due = sort_timers (filter timer_due (pb_timers s2))"
    define left where "left = f64_max (f64_sub remaining step) 0"
    note s3 = tick_round[OF Suc.prems(1-3) reached(1) step_def adv s2_def s3_def left_def]
    have none: "due = [] \<Longrightarrow> filter timer_due (pb_timers s2) = []"
      using sort_timers_set[of "filter timer_due (pb_timers s2)"] by (simp add: due_def)
    obtain fired' resp2 s4 where fd: "fire_due env due fired resp1 s3 = (fired', resp2, s4)" using prod_cases3 by blast
    have run: "tick_loop (Suc fuel) env remaining fired resp s =
        (if due = [] then (if f64_le left 0 then Some (resp1, s3) else tick_loop fuel env left fired resp1 s3)
         else if MAX_TIMER_EVENTS_PER_TICK \<le> fired'
         then (let (resp3, s5) = and_also (resp2, suspend_timers s4) (advance_continuous env left)
               in Some (resp3, elapse_timers left s5))
         else tick_loop fuel env left fired' resp2 s4)"
      using reached
      by (simp add: Let_def case_prod_unfold step_def[symmetric] adv s2_def[symmetric] s3_def[symmetric]
          due_def[symmetric] left_def[symmetric] fd)
    note fo = fire_due_ok[OF fd s3(1) less_imp_le[OF Suc.prems(4)]]
    consider "due = []" | "due \<noteq> []" "MAX_TIMER_EVENTS_PER_TICK \<le> fired'" | "due \<noteq> []" "fired' < MAX_TIMER_EVENTS_PER_TICK"
      by linarith
    then show ?thesis
    proof cases
      case 1
      with run s3(1) s3(4)[OF none] show ?thesis by simp
    next
      case 2
      obtain r s5 where a: "and_also (resp2, suspend_timers s4) (advance_continuous env left) = (r, s5)" by force
      with run 2 tick_suspends[OF conjunct1[OF fo] a] show ?thesis by simp
    next
      case 3
      then have s4: "fired' = fired + length due" "player_ok s4" "\<not> pb_timers_suspended s4" using fo s3(2) by auto
      have "MAX_TIMER_EVENTS_PER_TICK - fired' < fuel" using s4(1) 3 Suc.prems(4,5) by (cases due) auto
      with Suc.IH[OF s4(2,3) s3(3), of fired' resp2] run 3 show ?thesis by simp
    qed
  qed
qed simp

lemma tick_ok:
  assumes "player_ok s"
  shows "\<exists>r s'. tick env dt s = Some (r, s') \<and> player_ok s'"
proof -
  have start: "span_ok (f64_max dt 0)" if "f64_is_finite dt" "\<not> f64_lt dt 0"
  proof -
    have "span_ok dt" using that by (auto simp: span_ok_def f64_lt_def f64_finite_not_nan f64_signed_def split: if_splits)
    then show ?thesis by (simp add: span_max_zero)
  qed
  have far: "MAX_TIMER_EVENTS_PER_TICK - 0 < TICK_FUEL" "0 < MAX_TIMER_EVENTS_PER_TICK"
    by (simp_all add: TICK_FUEL_def MAX_TIMER_EVENTS_PER_TICK_def)
  consider (refused) "\<not> f64_is_finite dt \<or> f64_lt dt 0 \<or> pb_paused s"
    | (suspended) "\<not> (\<not> f64_is_finite dt \<or> f64_lt dt 0 \<or> pb_paused s)" "pb_timers_suspended s"
    | (runs) "\<not> (\<not> f64_is_finite dt \<or> f64_lt dt 0 \<or> pb_paused s)" "\<not> pb_timers_suspended s" by blast
  then show ?thesis
  proof cases
    case refused
    with assms show ?thesis by (simp add: tick_def)
  next
    case suspended
    obtain r s' where "advance_continuous env dt s = (r, s')" by force
    with suspended assms advance_facts[of env dt s] show ?thesis by (simp add: tick_def)
  next
    case runs
    from tick_loop_returns[OF assms runs(2) start far(2,1), of env response_default] runs(1) obtain r s' where
      "tick_loop TICK_FUEL env (f64_max dt 0) 0 response_default s = Some (r, s')" "player_ok s'" by blast
    with runs show ?thesis by (simp add: tick_def)
  qed
qed

end
