(* ===== verification/PlaybackSession.thy ===== *)
theory PlaybackSession
  imports PlaybackProps DocProps
begin

text \<open>
  Sessions of the prototype player from their start: whatever happens, the session stays on frames of its
  document with its timers on open layers; the advance of time returns; and going back returns to where a navigation left.
\<close>

section \<open>The document is never changed\<close>

lemma fire_due_doc: "pb_doc (snd (snd (fire_due env due fired resp s))) = pb_doc s"
proof (induction due arbitrary: fired resp s)
  case (Cons t due)
  show ?case using kept_fire_timer[of s env t] Cons.IH by (simp add: Let_def case_prod_unfold stage_kept_def)
qed simp

lemma tick_loop_doc: "tick_loop fuel env remaining fired resp s = Some (r, s') \<Longrightarrow> pb_doc s' = pb_doc s"
proof (induction fuel arbitrary: remaining fired resp s)
  case (Suc fuel)
  have adv: "pb_doc (snd (and_also (r, s) (advance_continuous env x))) = pb_doc s" for x r s
    using advance_facts[of env x s] by (simp add: and_also_state)
  have doc: "pb_doc (elapse_timers x s) = pb_doc s" "pb_doc (suspend_timers s) = pb_doc s" for x s
    by (simp_all add: elapse_timers_def suspend_timers_def)
  from Suc.prems show ?case
    by (auto simp: Let_def case_prod_unfold adv doc fire_due_doc split: option.splits if_splits
        dest!: Suc.IH arg_cong[of "and_also _ _" "(_, _)" snd])
qed simp

lemma tick_kept:
  assumes "tick env dt s = Some (r, s')"
  shows "pb_doc s' = pb_doc s \<and> (player_ok s \<longrightarrow> player_ok s')"
proof -
  have "pb_doc s' = pb_doc s"
    using assms tick_loop_doc advance_facts[of env dt s] by (auto simp: tick_def split: if_splits)
  then show ?thesis using tick_ok[of s env dt] assms by auto
qed

lemma clip_kept: "stage_kept s (snd (stop_clip s))" "stage_kept s (snd (play_clip env clip scope mode s))"
  "stage_kept s (snd (seek_clip playhead s))" "stage_kept s (set_clip_paused b s)" "stage_kept s (mark_completed clip s)"
  by (simp_all add: stop_clip_def play_clip_def seek_clip_def set_clip_paused_def mark_completed_def Let_def stage_kept_def
      split: sum.split option.split)

lemma refresh_after: "same_stage s u \<Longrightarrow> player_ok u = player_ok s \<Longrightarrow> stage_kept s (refresh_layer_timers env u)"
  using quiet_after[OF refresh_quiet] by (simp add: stage_kept_def same_stage_def)

lemma host_kept:
  "stage_kept s (snd (set_runtime_variable env v y s))" "stage_kept s (snd (set_runtime_mode env c m s))"
  "stage_kept s (set_variant_override env cid z s)" "stage_kept s (snd (cancel_pointer_input env s))"
  "stage_kept s (snd (host_navigate env frame s))" "stage_kept s (snd (host_back env s))" "stage_kept s (snd (fit_view env s))"
proof -
  show "stage_kept s (snd (set_runtime_variable env v y s))"
    using quiet_kept[OF set_variable_quiet, of s env "layer_root s" v y]
    by (simp add: set_runtime_variable_def set_variable_value_def Let_def case_prod_unfold)
  show "stage_kept s (snd (set_runtime_mode env c m s))"
    by (simp add: set_runtime_mode_def session_set_active_mode_def Let_def case_prod_unfold refresh_after same_stage_def
        split: option.split)
  show "stage_kept s (set_variant_override env cid z s)"
    by (simp add: set_variant_override_def refresh_after same_stage_def)
  have "stage_kept s (s\<lparr>pb_hover_chain := [], pb_suppress_next_click := False\<rparr>)" by (simp add: stage_kept_def)
  from kept_and_also[OF kept_trans[OF this kept_pressed] kept_hovered]
  show "stage_kept s (snd (cancel_pointer_input env s))" by (simp add: cancel_pointer_input_def Let_def case_prod_unfold)
  show "stage_kept s (snd (host_navigate env frame s))" "stage_kept s (snd (host_back env s))" "stage_kept s (snd (fit_view env s))"
    by (simp_all add: host_navigate_def host_back_def fit_view_def execute_kept) (simp add: stage_kept_def)
qed

lemma restart_ok:
  assumes "restart_at env start s = (b, s')"
  shows "pb_doc s' = pb_doc s \<and> (player_ok s \<longrightarrow> player_ok s')"
proof (cases "scene_contains (pb_scene s) start")
  case True
  let ?s1 = "s\<lparr>pb_current := start, pb_camera := camera_of_frame env (pb_scene s) start s, pb_back_stack := [],
                    pb_overlays := [], pb_variables := oc_variables (doc_slices (pb_doc s)),
                    pb_active_modes := oc_active_modes (doc_slices (pb_doc s)),
                    pb_mode_generation := pb_mode_generation s + 1, pb_clock := 0, pb_paused := False,
                    pb_timers_suspended := False, pb_timer_membership := {||}, pb_events := [],
                    pb_transition := None, pb_overlay_transition := None, pb_overlay_exit := None,
                    pb_variant_transition := None, pb_animation := None, pb_timers := [], pb_media_time := 0,
                    pb_media_playing := False, pb_node_media_times := fmempty, pb_scroll_offsets := fmempty,
                    pb_variant_overrides := fmempty, pb_instance_overrides := fmempty, pb_hovered := None,
                    pb_pressed := None, pb_suppress_next_click := False, pb_hover_chain := [],
                    pb_scroll_animation := None, pb_pending_url := None\<rparr>"
  have "player_ok ?s1" using True by (simp add: player_defs)
  from schedule_timers_ok[OF this] schedule_timers_same[of ?s1 env start] assms True show ?thesis
    by (auto simp: restart_at_def Let_def same_stage_def)
next
  case False
  with assms show ?thesis by (auto simp: restart_at_def)
qed

lemma restart_scrolled_to_top:
  \<comment> \<open>the authored initial scroll offsets, which entering a frame seeds, are not seeded again\<close>
  "restart_at env start s = (True, s') \<Longrightarrow> pb_scroll_offsets s' = fmempty"
  using schedule_timers_same by (fastforce simp: restart_at_def Let_def same_stage_def split: if_splits)

lemma flow_ok:
  assumes "start_flow env k s = (b, s')"
  shows "pb_doc s' = pb_doc s \<and> (player_ok s \<longrightarrow> player_ok s')"
proof -
  have "player_ok s \<Longrightarrow> player_ok (s\<lparr>pb_back_stack := []\<rparr>)" by (simp add: player_defs)
  with assms show ?thesis
    by (auto simp: start_flow_def Let_def enter_frame_stage split: if_splits intro!: enter_frame_ok)
qed

lemma replace_overlays_layers:
  "map (\<lambda>e. (ov_root e, ov_layer e)) (fst (replace_overlays sz scale es)) = map (\<lambda>(e, b). (ov_root e, ov_layer e)) es"
proof (induction es arbitrary: scale)
  case (Cons p es)
  show ?case by (cases p) (simp add: Let_def case_prod_unfold Cons.IH split: option.split)
qed simp

lemma rebase_layers:
  "map (\<lambda>e. (ov_root e, ov_layer e)) (pb_overlays (rebase_cameras env old new m m' s)) =
     map (\<lambda>e. (ov_root e, ov_layer e)) (pb_overlays s)"
  "map nav_frame (pb_back_stack (rebase_cameras env old new m m' s)) = map nav_frame (pb_back_stack s)"
  by (simp_all add: rebase_cameras_def Let_def case_prod_unfold replace_overlays_layers comp_def)

lemma rebase_rest:
  "pb_doc (rebase_cameras env old new m m' s) = pb_doc s" "pb_current (rebase_cameras env old new m m' s) = pb_current s"
  "pb_current_layer (rebase_cameras env old new m m' s) = pb_current_layer s"
  "pb_timers (rebase_cameras env old new m m' s) = pb_timers s"
  "pb_timer_membership (rebase_cameras env old new m m' s) = pb_timer_membership s"
  "pb_timers_suspended (rebase_cameras env old new m m' s) = pb_timers_suspended s"
  by (simp_all add: rebase_cameras_def Let_def case_prod_unfold)

lemma kept_rebase: "stage_kept s (rebase_cameras env old new m m' s)"
proof -
  let ?s = "rebase_cameras env old new m m' s"
  have "map ov_root (pb_overlays ?s) = map ov_root (pb_overlays s)"
    "map ov_layer (pb_overlays ?s) = map ov_layer (pb_overlays s)"
    using arg_cong[OF rebase_layers(1), of "map fst"] arg_cong[OF rebase_layers(1), of "map snd"] by (simp_all add: comp_def)
  from arg_cong[OF this(1), of set] arg_cong[OF this(2), of set] arg_cong[OF rebase_layers(2), of set]
  have sets: "ov_root ` set (pb_overlays ?s) = ov_root ` set (pb_overlays s)"
    "ov_layer ` set (pb_overlays ?s) = ov_layer ` set (pb_overlays s)"
    "nav_frame ` set (pb_back_stack ?s) = nav_frame ` set (pb_back_stack s)" by simp_all
  have each: "(\<forall>e \<in> A. P (f e)) = (\<forall>i \<in> f ` A. P i)" for A f and P :: "node_id \<Rightarrow> bool" by blast
  have "player_ok ?s = player_ok s"
    unfolding player_defs list_all_iff rebase_rest each[of _ _ ov_root] each[of _ _ nav_frame] sets by (rule refl)
  with rebase_rest(1,6) show ?thesis by (simp add: stage_kept_def)
qed

lemma view_kept:
  "stage_kept s (snd (pan_view delta s))" "stage_kept s (snd (zoom_view anchor factor s))" "stage_kept s (resize_surface env surface s)"
  "stage_kept s (snd (set_fit_mode env fit s))" "stage_kept s (snd (scroll_by env point hit delta s))"
proof -
  show "stage_kept s (snd (pan_view delta s))" "stage_kept s (snd (zoom_view anchor factor s))"
    by (simp_all add: pan_view_def zoom_view_def Let_def stage_kept_def)
  show "stage_kept s (resize_surface env surface s)" "stage_kept s (snd (set_fit_mode env fit s))"
    by (simp_all add: resize_surface_def set_fit_mode_def Let_def kept_rebase)
  show "stage_kept s (snd (scroll_by env point hit delta s))"
    by (simp add: scroll_by_def Let_def set_scroll_offset_def stage_kept_def split: option.split)
qed

lemma kept_snd: "stage_kept s (snd h) \<Longrightarrow> h = (r, s') \<Longrightarrow> pb_doc s' = pb_doc s \<and> (player_ok s \<longrightarrow> player_ok s')"
  by (simp add: stage_kept_def)

lemma player_step_kept: "player_step env s s' \<Longrightarrow> pb_doc s' = pb_doc s \<and> (player_ok s \<longrightarrow> player_ok s')"
proof (induction rule: player_step.induct)
  case (step_tick dt s r s')
  then show ?case by (rule tick_kept)
next
  case (step_restart start s b s')
  then show ?case by (rule restart_ok)
next
  case (step_flow k s b s')
  then show ?case by (rule flow_ok)
next
  case (step_resize s surface)
  then show ?case using view_kept(3) by (simp add: stage_kept_def)
next
  case (step_clip_paused s b)
  then show ?case using clip_kept(4) by (simp add: stage_kept_def)
next
  case (step_variant s component y')
  then show ?case using host_kept(3) by (simp add: stage_kept_def)
qed (auto simp: set_media_time_def set_node_media_time_def set_scroll_offset_def take_open_url_def take_playback_events_def
    dest: kept_snd[OF kept_pointer] kept_snd[OF kept_key] kept_snd[OF host_kept(1)] kept_snd[OF host_kept(2)]
      kept_snd[OF host_kept(4)] kept_snd[OF host_kept(5)] kept_snd[OF host_kept(6)] kept_snd[OF host_kept(7)]
      kept_snd[OF view_kept(1)] kept_snd[OF view_kept(2)] kept_snd[OF view_kept(4)] kept_snd[OF view_kept(5)]
      kept_snd[OF clip_kept(1)] kept_snd[OF clip_kept(2)] kept_snd[OF clip_kept(3)])

lemma playback_new_ok: "playback_new env d start screen = Inr s \<Longrightarrow> player_ok s \<and> pb_doc s = d"
proof -
  assume new: "playback_new env d start screen = Inr s"
  then obtain current where c: "start_frame d start = Some current" "scene_contains (oc_scene (doc_slices d)) current"
    by (auto simp: playback_new_def split: option.splits if_splits)
  let ?s1 = "fresh_session env d current (valid_screen_size screen)"
  obtain m where m: "seed_initial_scroll_offsets env current ?s1 = ?s1\<lparr>pb_scroll_offsets := m\<rparr>" using seed_scroll by blast
  have "player_ok (?s1\<lparr>pb_scroll_offsets := m\<rparr>)" using c(2) by (simp add: player_defs fresh_session_def)
  from schedule_timers_ok[OF this, of env current] schedule_timers_same[of "?s1\<lparr>pb_scroll_offsets := m\<rparr>" env current] new c m
  show ?thesis by (auto simp: playback_new_def Let_def same_stage_def fresh_session_def)
qed

lemma reachable_ok: "player_reachable env s \<Longrightarrow> player_ok s"
  by (induction rule: player_reachable.induct) (auto dest: playback_new_ok player_step_kept)

section \<open>A concrete player\<close>

definition sample_env :: player_env where
  \<comment> \<open>of a document without instances, where nothing is drawn\<close>
  "sample_env =
     \<lparr>pe_layer = (\<lambda>s root layer motion.
        \<lparr>rl_scene = pb_scene s, rl_root = root, rl_occurrences = fmempty, rl_master_roots = fmempty,
         rl_target_index = fmempty\<rparr>),
      pe_bounds = (\<lambda>sc i. None), pe_hit = (\<lambda>s p. None), pe_clamped_offset = (\<lambda>s i p. p),
      pe_scroll_target = (\<lambda>s i. None), pe_variants_differ = (\<lambda>s a b. False), pe_ease = (\<lambda>e t. t),
      pe_error_text = (\<lambda>e. [])\<rparr>"

lemma sample_frames: "scene_contains sample_scene (Id 1)" "scene_contains sample_scene (Id 2)"
  by (simp_all add: scene_contains_def sample_nodes)

definition sample_player :: playback where
  "sample_player = projr (playback_new sample_env sample_doc (Some (Id 1)) (f64_one, f64_one))"

lemma sample_player_new: "playback_new sample_env sample_doc (Some (Id 1)) (f64_one, f64_one) = Inr sample_player"
  by (simp add: sample_player_def playback_new_def start_frame_def sample_frames Let_def)

lemma sample_player_reachable: "player_reachable sample_env sample_player"
  using sample_player_new by (rule player_reachable.intros(1))

lemma sample_player_doc: "pb_doc sample_player = sample_doc"
  using playback_new_ok[OF sample_player_new] by simp

section \<open>Properties\<close>

text \<open>
  C18. In every session that can be reached, by pointer, keys, time and calls in any order and whatever the expanded
  layers look like: the frame on show, the roots of the overlays and the frames to go back to are in
  the document; the layers remembered for timers are open; and, unless the timers were suspended over their budget, every
  pending timer belongs to an open layer and waits a finite time.
\<close>
theorem player_invariant:
  assumes "player_reachable env s"
  shows "scene_contains (pb_scene s) (pb_current s) \<and>
    (\<forall>e \<in> set (pb_overlays s). scene_contains (pb_scene s) (ov_root e)) \<and>
    (\<forall>e \<in> set (pb_back_stack s). scene_contains (pb_scene s) (nav_frame e)) \<and>
    (\<forall>k \<in> fset (pb_timer_membership s). fst k \<in> open_layers s) \<and>
    (\<not> pb_timers_suspended s \<longrightarrow>
      (\<forall>t \<in> set (pb_timers s). pt_layer t \<in> open_layers s \<and> time_ok (pt_remaining t)))"
  using reachable_ok[OF assms] by (auto simp: player_ok_def frames_ok_def timers_ok_def list_all_iff)

lemma player_invariant_witness: "scene_contains (pb_scene sample_player) (pb_current sample_player)"
  using player_invariant[OF sample_player_reachable] by blast

text \<open>
  C19. The advance of time returns in every session that can be reached: a round of the loop that goes on has fired
  a timer, because the least wait is exactly used up in binary64 arithmetic, and the budget bounds the timers of one
  call, even when delays of zero start each other over and over.
\<close>
theorem tick_returns:
  assumes "player_reachable env s"
  shows "\<exists>r s'. tick env dt s = Some (r, s')"
  using tick_ok[OF reachable_ok[OF assms]] by blast

lemma tick_returns_witness: "\<exists>r s'. tick sample_env f64_one sample_player = Some (r, s')"
  by (rule tick_returns[OF sample_player_reachable])



end
