(* ===== verification/PlaybackRestore.thy ===== *)
theory PlaybackRestore
  imports PlaybackSession
begin

text \<open>
  Reactions that hold only while the pointer hovers or presses: what they write to variables is put back
  when they end. The values they stored are captured beforehand, so a value something else wrote since is kept.
\<close>

section \<open>The values of a registry\<close>

definition same_shape :: "variable_registry \<Rightarrow> variable_registry \<Rightarrow> bool" where
  \<comment> \<open>equal but for the stored values\<close>
  "same_shape a b \<longleftrightarrow>
     vreg_collections a = vreg_collections b \<and>
     (\<forall>v. map_option (\<lambda>x. x\<lparr>var_values_by_mode := fmempty\<rparr>) (vreg_variable a v) =
          map_option (\<lambda>x. x\<lparr>var_values_by_mode := fmempty\<rparr>) (vreg_variable b v))"

lemma same_shape_refl [simp]: "same_shape a a"
  by (simp add: same_shape_def)

lemma same_shape_trans: "same_shape a b \<Longrightarrow> same_shape b c \<Longrightarrow> same_shape a c"
  by (simp add: same_shape_def)

lemma same_shape_sym: "same_shape a b \<Longrightarrow> same_shape b a"
  by (simp add: same_shape_def)

lemma set_value_shape: "same_shape reg (vreg_set_value v m y reg)"
  by (simp add: same_shape_def vreg_set_value_def vreg_variable_def fm_modify_def split: option.split)

lemma set_value_stored:
  "vreg_stored (vreg_set_value v m y reg) w k =
     (if w = v \<and> k = m \<and> vreg_variable reg v \<noteq> None then y else vreg_stored reg w k)"
  by (cases "fmlookup (vreg_variables reg) v")
    (auto simp: vreg_stored_def vreg_set_value_def vreg_variable_def fm_modify_def split: option.split)

lemma same_shape_collection:
  "same_shape a b \<Longrightarrow> map_option var_collection (vreg_variable a v) = map_option var_collection (vreg_variable b v)"
proof -
  assume "same_shape a b"
  then have "map_option (\<lambda>x. x\<lparr>var_values_by_mode := fmempty\<rparr>) (vreg_variable a v) =
      map_option (\<lambda>x. x\<lparr>var_values_by_mode := fmempty\<rparr>) (vreg_variable b v)" by (simp add: same_shape_def)
  from arg_cong[OF this, of "map_option var_collection"] show ?thesis by (simp add: option.map_comp comp_def)
qed

section \<open>What a reaction writes\<close>

fun sets_variables :: "action \<Rightarrow> bool" and branch_sets_variables :: "conditional_branch \<Rightarrow> bool" where
  \<comment> \<open>only sets variables, to values equal to themselves\<close>
  "sets_variables (Action_SetVariable v y) = var_value_eq y y"
| "sets_variables (Action_Conditional bs other) = (list_all branch_sets_variables bs \<and> list_all sets_variables other)"
| "sets_variables _ = False"
| "branch_sets_variables (ConditionalBranch c as) = list_all sets_variables as"

definition outside_instances :: "player_env \<Rightarrow> node_id \<Rightarrow> bool" where
  \<comment> \<open>the node is not inside an expanded instance, in no state of a session\<close>
  "outside_instances env i \<longleftrightarrow> (\<forall>s root layer motion. fmlookup (rl_occurrences (pe_layer env s root layer motion)) i = None)"

lemma outside_layer: "outside_instances env i \<Longrightarrow> fmlookup (rl_occurrences (reaction_layer env s motion)) i = None"
  by (simp add: outside_instances_def reaction_layer_def resolved_layer_of_def split: option.split prod.split)

lemma outside_source: "outside_instances env i \<Longrightarrow> runtime_variable_source env s i = i"
  by (simp add: runtime_variable_source_def outside_layer)

lemma outside_original: "outside_instances env i \<Longrightarrow> original_source env s i anc = None"
  by (simp add: original_source_def outside_layer)

definition same_modes :: "playback \<Rightarrow> playback \<Rightarrow> bool" where
  \<comment> \<open>the same variables are in force, with other values\<close>
  "same_modes s s' \<longleftrightarrow>
     same_shape (pb_variables s) (pb_variables s') \<and> pb_doc s' = pb_doc s \<and> pb_active_modes s' = pb_active_modes s"

lemma same_modes_refl [simp]: "same_modes s s"
  by (simp add: same_modes_def)

lemma same_modes_trans: "same_modes s t \<Longrightarrow> same_modes t u \<Longrightarrow> same_modes s u"
  using same_shape_trans by (auto simp: same_modes_def)

lemma same_modes_mode:
  assumes "same_modes s s'" "outside_instances env i"
  shows "variable_mode env s' i v = variable_mode env s i v"
proof -
  have shape: "vreg_collections (pb_variables s') = vreg_collections (pb_variables s)"
    "map_option var_collection (vreg_variable (pb_variables s') v) = map_option var_collection (vreg_variable (pb_variables s) v)"
    and rest: "pb_doc s' = pb_doc s" "pb_active_modes s' = pb_active_modes s"
    using assms(1) same_shape_collection[of "pb_variables s" "pb_variables s'" v] by (simp_all add: same_modes_def same_shape_def)
  have src: "runtime_variable_source env u i = i" for u using assms(2) by (rule outside_source)
  show ?thesis
    using shape(2)
    by (cases "vreg_variable (pb_variables s') v"; cases "vreg_variable (pb_variables s) v")
      (simp_all add: variable_mode_def src shape(1) rest split: option.split)
qed

definition writes_of :: "variable_restore list \<Rightarrow> (variable_id \<times> mode_id \<times> var_value) set" where
  "writes_of rs = (\<lambda>r. (vr_variable r, vr_mode r, vr_applied r)) ` set rs"

definition written_by :: "(variable_id \<times> mode_id \<times> var_value) set \<Rightarrow> playback \<Rightarrow> playback \<Rightarrow> bool" where
  "written_by W s s' \<longleftrightarrow>
     (\<forall>v m. vreg_stored (pb_variables s') v m = vreg_stored (pb_variables s) v m \<or>
            (\<exists>y. vreg_stored (pb_variables s') v m = Some y \<and> (v, m, y) \<in> W))"

lemma written_by_refl [simp]: "written_by W s s"
  by (simp add: written_by_def)

lemma written_by_trans: "written_by W s t \<Longrightarrow> written_by W t u \<Longrightarrow> written_by W s u"
  unfolding written_by_def by metis

lemma written_by_mono: "written_by W s s' \<Longrightarrow> W \<subseteq> W' \<Longrightarrow> written_by W' s s'"
  unfolding written_by_def by blast

definition wrote :: "(variable_id \<times> mode_id \<times> var_value) set \<Rightarrow> playback \<Rightarrow> playback \<Rightarrow> bool" where
  "wrote W s s' \<longleftrightarrow> same_modes s s' \<and> written_by W s s'"

lemma wrote_trans: "wrote W s t \<Longrightarrow> wrote W t u \<Longrightarrow> wrote W s u"
  unfolding wrote_def by (blast intro: same_modes_trans written_by_trans)

lemma refresh_variables:
  "pb_variables (refresh_layer_timers env s) = pb_variables s" "pb_active_modes (refresh_layer_timers env s) = pb_active_modes s"
  "pb_doc (refresh_layer_timers env s) = pb_doc s"
proof -
  have one: "pb_variables (schedule_timers_with_identity env r l s) = pb_variables s"
    "pb_active_modes (schedule_timers_with_identity env r l s) = pb_active_modes s"
    "pb_doc (schedule_timers_with_identity env r l s) = pb_doc s" for r l s
    by (simp_all add: schedule_timers_with_identity_def Let_def)
  have many: "pb_variables (fold (\<lambda>e. schedule_timers_with_identity env (ov_root e) (ov_layer e)) es s) = pb_variables s"
    "pb_active_modes (fold (\<lambda>e. schedule_timers_with_identity env (ov_root e) (ov_layer e)) es s) = pb_active_modes s"
    "pb_doc (fold (\<lambda>e. schedule_timers_with_identity env (ov_root e) (ov_layer e)) es s) = pb_doc s" for es s
    by (induction es arbitrary: s) (simp_all add: one)
  have clip: "pb_variables (refresh_clip env s) = pb_variables s" "pb_active_modes (refresh_clip env s) = pb_active_modes s"
    "pb_doc (refresh_clip env s) = pb_doc s" for s
    by (simp_all add: refresh_clip_def stop_clip_def Let_def split: option.split)
  show "pb_variables (refresh_layer_timers env s) = pb_variables s" "pb_active_modes (refresh_layer_timers env s) = pb_active_modes s"
    "pb_doc (refresh_layer_timers env s) = pb_doc s"
    by (simp_all add: refresh_layer_timers_def Let_def one many clip)
qed

lemma wrote_set:
  assumes m: "variable_mode env s i v = Some m"
  shows "wrote {(v, m, y)} s (snd (set_variable env s i v y))"
proof -
  let ?reg = "vreg_set_value v m (Some y) (pb_variables s)"
  have "wrote {(v, m, y)} s (refresh_layer_timers env (s\<lparr>pb_variables := ?reg, pb_mode_generation := g\<rparr>))" for g
    by (auto simp: wrote_def same_modes_def written_by_def refresh_variables set_value_shape set_value_stored)
  then show ?thesis using m by (auto simp: set_variable_def wrote_def split: option.split)
qed

lemma wrote_set_action:
  assumes "outside_instances env i" "same_modes s0 s"
  shows "wrote (writes_of (variable_captures env s0 i (Action_SetVariable v y))) s
    (snd (do_set_variable env i (Action_SetVariable v y) s))"
proof (cases "variable_mode env s i v")
  case None
  then have "snd (set_variable env s i v y) = s" by (simp add: set_variable_def split: option.split)
  then show ?thesis by (simp add: do_set_variable_def written_value_def Let_def case_prod_unfold wrote_def)
next
  case (Some m)
  then have "variable_mode env s0 i v = Some m" using same_modes_mode[OF assms(2,1)] by simp
  then have "writes_of (variable_captures env s0 i (Action_SetVariable v y)) = {(v, m, y)}"
    by (simp add: writes_of_def written_value_def)
  with wrote_set[OF Some, of y] show ?thesis by (simp add: do_set_variable_def written_value_def Let_def case_prod_unfold)
qed

section \<open>Running such a reaction\<close>

abbreviation captured :: "player_env \<Rightarrow> playback \<Rightarrow> node_id \<Rightarrow> action list \<Rightarrow> variable_restore list" where
  "captured env s i as \<equiv> concat (map (variable_captures env s i) as)"

lemma writes_append: "writes_of (a @ b) = writes_of a \<union> writes_of b"
  by (auto simp: writes_of_def)

lemma wrote_mono: "wrote W s s' \<Longrightarrow> W \<subseteq> W' \<Longrightarrow> wrote W' s s'"
  by (auto simp: wrote_def intro: written_by_mono)

lemma wrote_frames:
  "wrote W s (note_press a s)" "wrote W s s' \<Longrightarrow> wrote W s (after_action b s')" "wrote W s (scope_missing s)"
  by (auto simp: wrote_def same_modes_def written_by_def note_press_def after_action_def scope_missing_def)

lemma wrote_same: "wrote W s s' \<Longrightarrow> same_modes s s'"
  by (simp add: wrote_def)

lemma execute_wrote:
  "\<lbrakk>sets_variables a; outside_instances env i; same_modes s0 s\<rbrakk> \<Longrightarrow>
     wrote (writes_of (variable_captures env s0 i a)) s (snd (execute env a i tr s))"
  "\<lbrakk>list_all branch_sets_variables bs; list_all sets_variables other; outside_instances env i; same_modes s0 s\<rbrakk> \<Longrightarrow>
     wrote (writes_of (concat (map (branch_variable_captures env s0 i) bs) @ captured env s0 i other)) s
       (snd (run_branches env bs other i tr s))"
  "\<lbrakk>list_all sets_variables acts; original = None; outside_instances env i; same_modes s0 s\<rbrakk> \<Longrightarrow>
     wrote (writes_of (captured env s0 i acts)) s (snd (snd (run_actions env acts i original ancestors tr resp s)))"
proof (induction env a i tr s and env bs other i tr s and env acts i original ancestors tr resp s
    rule: execute_run_branches_run_actions.induct)
  case (1 env a i tr s)
  show ?case
  proof (cases a)
    case (Action_SetVariable v y)
    then show ?thesis
      using wrote_set_action[OF "1.prems"(2,3), of v y] by (subst execute.simps) (simp add: execute_one_def)
  next
    case (Action_Conditional bs other)
    then show ?thesis using "1.IH"[OF Action_Conditional] "1.prems" by (subst execute.simps) simp
  qed (use "1.prems" in simp_all)
next
  case (2 env bs other i tr s)
  note outside = outside_original[OF "2.prems"(3)]
  show ?case
  proof (cases bs)
    case Nil
    then show ?thesis
      using "2.IH"(1)[OF Nil refl] "2.prems" by (subst run_branches.simps) (simp add: Let_def outside)
  next
    case (Cons b bs')
    obtain c as where b: "b = ConditionalBranch c as" by (cases b)
    show ?thesis
    proof (cases "condition_matches env s i c")
      case True
      have "wrote (writes_of (captured env s0 i as)) s
          (snd (snd (run_actions env as i None (reaction_instance_ancestors env s i) tr response_default s)))"
        using "2.IH"(2)[OF Cons b True refl] "2.prems" Cons b outside by simp
      from wrote_mono[OF this] show ?thesis
        by (subst run_branches.simps) (simp add: Cons b True Let_def outside writes_append le_supI1)
    next
      case False
      have "wrote (writes_of (concat (map (branch_variable_captures env s0 i) bs') @ captured env s0 i other)) s
          (snd (run_branches env bs' other i tr s))"
        using "2.IH"(3)[OF Cons b False] "2.prems" Cons by simp
      from wrote_mono[OF this] show ?thesis
        by (subst run_branches.simps) (simp add: Cons b False writes_append le_supI1 le_supI2)
    qed
  qed
next
  case (3 env acts i original ancestors tr resp s)
  show ?case
  proof (cases acts)
    case (Cons a as)
    have src: "action_source env s i original ancestors = Some (i, s)" using "3.prems"(2) by (simp add: action_source_def)
    obtain r s2 where e: "execute env a i tr (note_press a s) = (r, s2)" by force
    let ?W = "writes_of (captured env s0 i acts)"
    have "same_modes s0 (note_press a s)" using "3.prems"(4) by (simp add: note_press_def same_modes_def)
    then have "wrote (writes_of (variable_captures env s0 i a)) (note_press a s) s2"
      using "3.IH"(1)[OF Cons src refl] "3.prems" Cons e by simp
    then have "wrote ?W s s2" by (rule wrote_trans[OF wrote_frames(1) wrote_mono]) (auto simp: Cons writes_append)
    then have first: "wrote ?W s (after_action s s2)" by (rule wrote_frames(2))
    have then_rest: "wrote ?W s (snd (snd (run_actions env as i original ancestors tr (merge_responses resp r) (after_action s s2))))"
      if "\<not> pr_exited (merge_responses resp r)" "pb_current s2 = pb_current s"
    proof -
      have "same_modes s0 (after_action s s2)" using "3.prems"(4) wrote_same[OF first] by (rule same_modes_trans)
      then have "wrote (writes_of (captured env s0 i as)) (after_action s s2)
          (snd (snd (run_actions env as i original ancestors tr (merge_responses resp r) (after_action s s2))))"
        using "3.IH"(2)[OF Cons src refl e[symmetric] refl refl] that "3.prems" Cons by simp
      then show ?thesis by (rule wrote_trans[OF first wrote_mono]) (auto simp: Cons writes_append)
    qed
    show ?thesis using first then_rest by (subst run_actions.simps) (simp add: Cons src e Let_def)
  qed (subst run_actions.simps, simp add: wrote_def)
qed

lemma reaction_wrote:
  assumes "list_all sets_variables acts" "outside_instances env i"
  shows "wrote (writes_of (captured env s i acts)) s (snd (execute_reaction env i acts tr an s))"
proof -
  let ?anc = "reaction_instance_ancestors env s i"
  obtain ended resp s1 where run: "run_actions env acts i None ?anc tr response_default s = (ended, resp, s1)"
    by (metis prod_cases3)
  then have one: "wrote (writes_of (captured env s i acts)) s s1"
    using execute_wrote(3)[OF assms(1) refl assms(2) same_modes_refl, of s ?anc tr response_default] by simp
  have "wrote W s1 (snd (start_prototype_animation env scope x s1))" for W scope x
    by (simp add: start_prototype_animation_def mark_completed_def Let_def wrote_def same_modes_def written_by_def split: sum.split)
  then show ?thesis
    using one wrote_trans[OF one]
    by (simp add: execute_reaction_def Let_def outside_original[OF assms(2)] run case_prod_unfold split: option.split)
qed

section \<open>Undoing it\<close>

lemma f64_eq_sym: "f64_eq a b \<Longrightarrow> f64_eq b a"
  by (auto simp: f64_eq_def)

lemma font_variations_eq_sym: "list_all2 font_variation_eq xs ys \<Longrightarrow> list_all2 font_variation_eq ys xs"
  by (auto simp: list_all2_conv_all_nth font_variation_eq_def f32_eq_def)

lemma font_variation_eq_trans: "font_variation_eq a b \<Longrightarrow> font_variation_eq b c \<Longrightarrow> font_variation_eq a c"
  by (auto simp: font_variation_eq_def f32_eq_def)

lemma font_variations_eq_trans:
  "list_all2 font_variation_eq xs ys \<Longrightarrow> list_all2 font_variation_eq ys zs \<Longrightarrow> list_all2 font_variation_eq xs zs"
  by (rule list_all2_trans[OF font_variation_eq_trans])

lemma percent_eq_sym: "rel_option f64_eq x y \<Longrightarrow> rel_option f64_eq y x"
  by (cases x; cases y) (auto intro: f64_eq_sym)

lemma percent_eq_trans: "rel_option f64_eq x y \<Longrightarrow> rel_option f64_eq y z \<Longrightarrow> rel_option f64_eq x z"
  by (cases x; cases y; cases z) (auto intro: f64_eq_trans)

lemma text_style_eq_sym: "text_style_eq a b \<Longrightarrow> text_style_eq b a"
  by (simp add: text_style_eq_def f64_eq_sym percent_eq_sym font_variations_eq_sym)

lemma text_style_eq_trans: "text_style_eq a b \<Longrightarrow> text_style_eq b c \<Longrightarrow> text_style_eq a c"
  unfolding text_style_eq_def using f64_eq_trans percent_eq_trans font_variations_eq_trans by metis

lemma var_value_eq_sym: "var_value_eq a b \<Longrightarrow> var_value_eq b a"
  by (induction a b rule: var_value_eq.induct) (auto intro: f64_eq_sym text_style_eq_sym)

lemma var_value_eq_trans: "var_value_eq a b \<Longrightarrow> var_value_eq b c \<Longrightarrow> var_value_eq a c"
  by (cases a; cases b; cases c) (auto intro: f64_eq_trans text_style_eq_trans)

definition same_value :: "var_value option \<Rightarrow> var_value option \<Rightarrow> bool" where
  \<comment> \<open>the same, or equal as the code compares values\<close>
  "same_value x y \<longleftrightarrow> x = y \<or> rel_option var_value_eq x y"

lemma same_value_via:
  "rel_option var_value_eq x (Some a) \<Longrightarrow> rel_option var_value_eq y (Some a) \<Longrightarrow> same_value x y"
  by (cases x; cases y) (auto simp: same_value_def intro: var_value_eq_trans var_value_eq_sym)

lemma restore_stored:
  assumes "restore_variable r (c, reg, g) = (c', reg', g')"
  shows "vreg_stored reg' v m =
      (if (vr_variable r, vr_mode r) = (v, m) \<and> rel_option var_value_eq (vreg_stored reg v m) (Some (vr_applied r)) \<and>
          \<not> rel_option var_value_eq (vr_previous r) (Some (vr_applied r))
       then vr_previous r else vreg_stored reg v m)"
    and "c' \<or> reg' = reg \<and> \<not> c"
proof -
  have "vreg_variable reg w \<noteq> None" if "rel_option var_value_eq (vreg_stored reg w k) (Some y)" for w k y
    using that by (cases "vreg_variable reg w") (auto simp: vreg_stored_def option_rel_Some2)
  then show "vreg_stored reg' v m =
      (if (vr_variable r, vr_mode r) = (v, m) \<and> rel_option var_value_eq (vreg_stored reg v m) (Some (vr_applied r)) \<and>
          \<not> rel_option var_value_eq (vr_previous r) (Some (vr_applied r))
       then vr_previous r else vreg_stored reg v m)"
    using assms by (auto simp: restore_variable_def set_value_stored split: if_splits)
  show "c' \<or> reg' = reg \<and> \<not> c" using assms by (auto simp: restore_variable_def split: if_splits)
qed

lemma restore_fold_kept:
  "\<lbrakk>\<forall>r \<in> set rs. (vr_variable r, vr_mode r) = (v, m) \<longrightarrow>
      \<not> rel_option var_value_eq (vreg_stored reg v m) (Some (vr_applied r));
    fold restore_variable rs (c, reg, g) = (c', reg', g')\<rbrakk> \<Longrightarrow> vreg_stored reg' v m = vreg_stored reg v m"
proof (induction rs arbitrary: c reg g)
  case (Cons r rs)
  obtain c1 reg1 g1 where one: "restore_variable r (c, reg, g) = (c1, reg1, g1)" by (metis prod_cases3)
  then have "vreg_stored reg1 v m = vreg_stored reg v m" using restore_stored(1)[OF one, of v m] Cons.prems(1) by auto
  then show ?case using Cons.IH[of reg1 c1 g1] Cons.prems one by simp
qed simp

lemma restore_fold_undoes:
  "\<lbrakk>\<forall>r \<in> set rs. (vr_variable r, vr_mode r) = (v, m) \<longrightarrow> vr_previous r = p \<and> var_value_eq (vr_applied r) (vr_applied r);
    same_value (vreg_stored reg v m) p \<or>
      (\<exists>r \<in> set rs. (vr_variable r, vr_mode r) = (v, m) \<and> vreg_stored reg v m = Some (vr_applied r));
    fold restore_variable rs (c, reg, g) = (c', reg', g')\<rbrakk> \<Longrightarrow> same_value (vreg_stored reg' v m) p"
proof (induction rs arbitrary: c reg g)
  case (Cons r rs)
  obtain c1 reg1 g1 where one: "restore_variable r (c, reg, g) = (c1, reg1, g1)" by (metis prod_cases3)
  have "same_value (vreg_stored reg1 v m) p \<or>
      (\<exists>r \<in> set rs. (vr_variable r, vr_mode r) = (v, m) \<and> vreg_stored reg1 v m = Some (vr_applied r))"
  proof (cases "(vr_variable r, vr_mode r) = (v, m)")
    case True
    then have p: "vr_previous r = p" "var_value_eq (vr_applied r) (vr_applied r)" using Cons.prems(1) by auto
    then have self: "rel_option var_value_eq (Some (vr_applied r)) (Some (vr_applied r))" by simp
    show ?thesis
      using restore_stored(1)[OF one, of v m] Cons.prems(2) True p self same_value_via[of "vreg_stored reg v m" "vr_applied r" p]
      by (cases "rel_option var_value_eq (vreg_stored reg v m) (Some (vr_applied r))") (auto simp: same_value_def)
  next
    case False
    then have "vreg_stored reg1 v m = vreg_stored reg v m" using restore_stored(1)[OF one, of v m] by auto
    then show ?thesis using Cons.prems(2) False by auto
  qed
  then show ?case using Cons.IH[of reg1 c1 g1] Cons.prems(1,3) one by simp
qed simp

lemma restore_fold_changed:
  "fold restore_variable rs (c, reg, g) = (c', reg', g') \<Longrightarrow> c' \<or> reg' = reg"
proof (induction rs arbitrary: c reg g)
  case (Cons r rs)
  obtain c1 reg1 g1 where one: "restore_variable r (c, reg, g) = (c1, reg1, g1)" by (metis prod_cases3)
  have stays: "c1 \<Longrightarrow> fold restore_variable xs (c1, x, y) = (c', reg', g') \<Longrightarrow> c'" for xs x y
    by (induction xs arbitrary: x y) (auto simp: restore_variable_def split: if_splits)
  show ?case using Cons.IH[of c1 reg1 g1] Cons.prems one restore_stored(2)[OF one] stays by auto
qed simp

lemma restore_pointer_variables:
  assumes "restore_pointer_reaction env (Some a) s = (r, s')"
  obtains c reg g c0 where
    "fold restore_variable (rev (ar_variable_restores a)) (c0, pb_variables s, pb_mode_generation s) = (c, reg, g)"
    "pb_variables s' = reg"
proof -
  obtain vc ov where 1: "fold restore_variant (rev (ar_variant_restores a)) (False, pb_instance_overrides s) = (vc, ov)" by force
  obtain c reg g where 2: "fold restore_variable (rev (ar_variable_restores a)) (vc, pb_variables s, pb_mode_generation s) = (c, reg, g)"
    by (metis prod_cases3)
  have "pb_variables s' = reg"
    using assms restore_fold_changed[OF 2] by (auto simp: restore_pointer_reaction_def 1 2 refresh_variables split: if_splits)
  then show ?thesis by (rule that[OF 2])
qed

lemma captured_previous:
  "r \<in> set (variable_captures env s i a) \<Longrightarrow> sets_variables a \<Longrightarrow>
     vr_previous r = vreg_stored (pb_variables s) (vr_variable r) (vr_mode r) \<and> var_value_eq (vr_applied r) (vr_applied r)"
  "r \<in> set (branch_variable_captures env s i b) \<Longrightarrow> branch_sets_variables b \<Longrightarrow>
     vr_previous r = vreg_stored (pb_variables s) (vr_variable r) (vr_mode r) \<and> var_value_eq (vr_applied r) (vr_applied r)"
proof (induction env s i a and env s i b rule: variable_captures_branch_variable_captures.induct)
qed (auto simp: written_value_def list_all_iff split: option.splits)

lemma cycling_twice_is_not_undone:
  \<comment> \<open>both captures hold the value after the first step: once the second step stored another, nothing is put back\<close>
  assumes r: "rx_action r = Action_CycleVariable v" "rx_extra_actions r = [Action_CycleVariable v]"
    and first: "written_value env s i (Action_CycleVariable v) = Some (v, y)" "variable_mode env s i v = Some m"
    and second: "vreg_stored (pb_variables s1) v m = Some z" "\<not> var_value_eq z y"
  shows "restore_pointer_reaction env (Some (active_pointer_reaction env s i r)) s1 = (response_default, s1)"
  using second
  by (simp add: restore_pointer_reaction_def active_pointer_reaction_def reaction_actions_def r first
      restore_variable_def)


definition sample_hover :: reaction where
  "sample_hover =
     \<lparr>rx_id = Id 7, rx_trigger = Trigger_WhileHovering, rx_action = Action_SetVariable (Id 5) (VarValue_Boolean True),
      rx_extra_actions = [Action_Conditional [ConditionalBranch (Condition_All []) [Action_SetVariable (Id 6) (VarValue_String [])]] []],
      rx_transition = None, rx_animation = None\<rparr>"


end
