(* ===== verification/Motion.thy ===== *)
theory Motion
  imports TextTokens PresentTypes
begin

text \<open>
  Sampling of animation clips (\<open>motion.rs\<close>): the keyframes of a track in the order of time, the value between two
  of them, the clip as authored and as compiled for playing, and a node with the sampled values on it. The springs are
  those of \<open>node/prototype.rs\<close>. The functions of the standard library on floats that are not exact, the
  affine maps of the \<open>glam\<close> package and the local bounds of a node are parameters.
\<close>

section \<open>Parameters\<close>

record motion_math =
  mm_sqrt :: "f64 \<Rightarrow> f64"
  mm_ln :: "f64 \<Rightarrow> f64"
  mm_exp :: "f64 \<Rightarrow> f64"
  mm_sin :: "f64 \<Rightarrow> f64"
  mm_cos :: "f64 \<Rightarrow> f64"
  mm_hypot :: "f64 \<Rightarrow> f64 \<Rightarrow> f64"
  mm_atan2 :: "f64 \<Rightarrow> f64 \<Rightarrow> f64"
  mm_affine_mul :: "transform2d \<Rightarrow> transform2d \<Rightarrow> transform2d"
  mm_translation :: "f64 \<Rightarrow> f64 \<Rightarrow> transform2d"
  mm_rotation :: "f64 \<Rightarrow> transform2d"
  mm_scale_xy :: "f64 \<Rightarrow> f64 \<Rightarrow> transform2d"
  mm_local_bounds :: "node_data \<Rightarrow> bounds option"

definition f64_three :: f64 where "f64_three = 0x4008000000000000"
definition f64_six :: f64 where "f64_six = 0x4018000000000000"
definition f64_1e_7 :: f64 where "f64_1e_7 = 0x3E7AD7F29ABCAF48"
definition f64_1e_4 :: f64 where "f64_1e_4 = 0x3F1A36E2EB1C432D"

section \<open>Easing\<close>

definition bezier_coordinate :: "f64 \<Rightarrow> f64 \<Rightarrow> f64 \<Rightarrow> f64" where
  "bezier_coordinate p a b =
     (let inv = f64_sub f64_one p in
      f64_add
        (f64_add (f64_mul (f64_mul (f64_mul (f64_mul f64_three inv) inv) p) a)
           (f64_mul (f64_mul (f64_mul (f64_mul f64_three inv) p) p) b))
        (f64_mul (f64_mul p p) p))"

definition bezier_derivative :: "f64 \<Rightarrow> f64 \<Rightarrow> f64 \<Rightarrow> f64" where
  "bezier_derivative p a b =
     (let inv = f64_sub f64_one p in
      f64_add
        (f64_add (f64_mul (f64_mul (f64_mul f64_three inv) inv) a)
           (f64_mul (f64_mul (f64_mul f64_six inv) p) (f64_sub b a)))
        (f64_mul (f64_mul (f64_mul f64_three p) p) (f64_sub f64_one b)))"

fun bezier_newton :: "nat \<Rightarrow> f64 \<Rightarrow> f64 \<Rightarrow> f64 \<Rightarrow> f64 \<Rightarrow> f64 option" where
  \<comment> \<open>the parameter found in that many steps; \<open>None\<close>: none was\<close>
  "bezier_newton 0 progress x1 x2 p = None"
| "bezier_newton (Suc n) progress x1 x2 p =
     (let err = f64_sub (bezier_coordinate p x1 x2) progress in
      if f64_le (f64_abs err) f64_1e_7 then Some p
      else
        (let d = bezier_derivative p x1 x2 in
         if f64_le (f64_abs d) f64_1e_7 then None
         else
           (let q = f64_sub p (f64_div err d) in
            if \<not> (f64_le 0 q \<and> f64_le q f64_one) then None else bezier_newton n progress x1 x2 q)))"

fun bezier_bisect :: "nat \<Rightarrow> f64 \<Rightarrow> f64 \<Rightarrow> f64 \<Rightarrow> f64 \<Rightarrow> f64 \<Rightarrow> f64 \<Rightarrow> f64" where
  "bezier_bisect 0 progress x1 x2 low high p = p"
| "bezier_bisect (Suc n) progress x1 x2 low high p =
     (let p = f64_mul (f64_add low high) f64_point_five in
      if f64_lt (bezier_coordinate p x1 x2) progress then bezier_bisect n progress x1 x2 p high p
      else bezier_bisect n progress x1 x2 low p p)"

definition cubic_bezier :: "f64 \<Rightarrow> f64 \<Rightarrow> f64 \<Rightarrow> f64 \<Rightarrow> f64 \<Rightarrow> f64" where
  "cubic_bezier progress x1 y1 x2 y2 =
     (if f64_le progress 0 \<or> f64_ge progress f64_one then progress
      else (case bezier_newton 8 progress x1 x2 progress of
              Some p \<Rightarrow> bezier_coordinate p y1 y2
            | None \<Rightarrow> bezier_coordinate (bezier_bisect 24 progress x1 x2 0 f64_one progress) y1 y2))"

definition spring_position :: "motion_math \<Rightarrow> f64 \<Rightarrow> f64 \<Rightarrow> f64 \<Rightarrow> f64" where
  \<comment> \<open>the three regimes, at a time in the settle window\<close>
  "spring_position m omega zeta time =
     (if f64_lt zeta (f64_sub f64_one f64_1e_9)
      then
        (let omega_d = f64_mul omega (mm_sqrt m (f64_sub f64_one (f64_mul zeta zeta)));
             envelope = mm_exp m (f64_mul (f64_mul (f64_flip zeta) omega) time)
         in f64_sub f64_one
              (f64_mul envelope
                (f64_add (mm_cos m (f64_mul omega_d time))
                   (f64_mul (f64_div (f64_mul zeta omega) omega_d) (mm_sin m (f64_mul omega_d time))))))
      else if f64_le zeta (f64_add f64_one f64_1e_9)
      then f64_sub f64_one
             (f64_mul (mm_exp m (f64_mul (f64_flip omega) time)) (f64_add f64_one (f64_mul omega time)))
      else
        (let discriminant = mm_sqrt m (f64_sub (f64_mul zeta zeta) f64_one);
             s1 = f64_mul (f64_flip omega) (f64_sub zeta discriminant);
             s2 = f64_mul (f64_flip omega) (f64_add zeta discriminant)
         in f64_sub f64_one
              (f64_div (f64_sub (f64_mul s2 (mm_exp m (f64_mul s1 time))) (f64_mul s1 (mm_exp m (f64_mul s2 time))))
                 (f64_sub s2 s1))))"

definition positive_finite :: "f64 \<Rightarrow> bool" where
  "positive_finite x \<longleftrightarrow> f64_is_finite x \<and> \<not> f64_le x 0"

definition spring_progress :: "motion_math \<Rightarrow> f32 \<Rightarrow> f32 \<Rightarrow> f32 \<Rightarrow> f64 \<Rightarrow> f64" where
  "spring_progress m mass stiffness damping t =
     (if f64_le t 0 then 0
      else if f64_ge t f64_one then f64_one
      else
        (let w = f64_from_f32 mass; k = f64_from_f32 stiffness; c = f64_from_f32 damping in
         if \<not> positive_finite w \<or> \<not> positive_finite k \<or> \<not> positive_finite c then t
         else
           (let omega = mm_sqrt m (f64_div k w);
                zeta = f64_div c (f64_mul f64_two (mm_sqrt m (f64_mul k w)));
                ln_target = f64_flip (mm_ln m f64_1e_4);
                slow_rate =
                  (if f64_lt zeta f64_one then f64_mul zeta omega
                   else f64_mul omega
                          (f64_max (f64_sub zeta (mm_sqrt m (f64_sub (f64_mul zeta zeta) f64_one))) f64_EPSILON))
            in if \<not> positive_finite slow_rate then t
               else spring_position m omega zeta (f64_mul t (f64_div ln_target slow_rate)))))"

definition bezier_c1 :: f64 where "bezier_c1 = 0x3FDAE147AE147AE1"
definition bezier_c2 :: f64 where "bezier_c2 = 0x3FE28F5C28F5C28F"

definition eased_progress :: "motion_math \<Rightarrow> easing \<Rightarrow> f64 \<Rightarrow> f64" where
  "eased_progress m e p =
     (let p = f64_clamp p 0 f64_one in
      case e of
        Easing_Linear \<Rightarrow> p
      | Easing_EaseIn \<Rightarrow> cubic_bezier p bezier_c1 0 f64_one f64_one
      | Easing_EaseOut \<Rightarrow> cubic_bezier p 0 0 bezier_c2 f64_one
      | Easing_EaseInOut \<Rightarrow> cubic_bezier p bezier_c1 0 bezier_c2 f64_one
      | Easing_CubicBezier x1 y1 x2 y2 \<Rightarrow>
          cubic_bezier p (f64_from_f32 x1) (f64_from_f32 y1) (f64_from_f32 x2) (f64_from_f32 y2)
      | Easing_Spring mass stiffness damping \<Rightarrow> spring_progress m mass stiffness damping p)"

section \<open>Values between keyframes\<close>

definition interpolate_channel :: "f64 \<Rightarrow> u8 \<Rightarrow> u8 \<Rightarrow> u8" where
  "interpolate_channel p a b =
     (let x = f64_of_nat (unat a); y = f64_of_nat (unat b)
      in word_of_nat (f64_to_nat 255
           (f64_clamp (f64_round (f64_add x (f64_mul (f64_sub y x) p))) 0 (f64_of_nat 255))))"

definition interpolate_color :: "color \<Rightarrow> color \<Rightarrow> f64 \<Rightarrow> color" where
  "interpolate_color a b p =
     \<lparr>color_r = interpolate_channel p (color_r a) (color_r b), color_g = interpolate_channel p (color_g a) (color_g b),
      color_b = interpolate_channel p (color_b a) (color_b b), color_a = interpolate_channel p (color_a a) (color_a b)\<rparr>"

definition interpolate_value :: "resolved_var_value \<Rightarrow> resolved_var_value \<Rightarrow> f64 \<Rightarrow> resolved_var_value" where
  "interpolate_value a b p =
     (case (a, b) of
        (ResolvedVarValue_Float x, ResolvedVarValue_Float y) \<Rightarrow>
          ResolvedVarValue_Float (f64_add x (f64_mul (f64_sub y x) p))
      | (ResolvedVarValue_Color x, ResolvedVarValue_Color y) \<Rightarrow> ResolvedVarValue_Color (interpolate_color x y p)
      | _ \<Rightarrow> a)"

section \<open>Tracks\<close>

definition accepts_value :: "motion_property \<Rightarrow> resolved_var_value \<Rightarrow> bool" where
  "accepts_value p v =
     (case p of
        MotionProperty_Bound b \<Rightarrow> prop_variable_type b = resolved_variable_type v
      | _ \<Rightarrow> (case v of ResolvedVarValue_Float _ \<Rightarrow> True | _ \<Rightarrow> False))"

definition push_keyframe :: "keyframe \<Rightarrow> keyframe list \<Rightarrow> keyframe list" where
  \<comment> \<open>in the place of the last one when that has the same time\<close>
  "push_keyframe k ks =
     (if ks \<noteq> [] \<and> kf_time_ms (last ks) = kf_time_ms k then butlast ks @ [k] else ks @ [k])"

definition canonical_keyframes :: "animation_track \<Rightarrow> keyframe list" where
  "canonical_keyframes tr =
     fold push_keyframe
       (sort_key (\<lambda>k. (kf_time_ms k, kf_id k))
          (filter (\<lambda>k. accepts_value (mtarget_property (track_target tr)) (kf_value k)) (fm_values (track_keyframes tr))))
       []"

definition between_keyframes :: "motion_math \<Rightarrow> keyframe \<Rightarrow> keyframe \<Rightarrow> u32 \<Rightarrow> resolved_var_value" where
  "between_keyframes m lower upper t =
     (let segment = unat (kf_time_ms upper) - unat (kf_time_ms lower) in
      if segment = 0 then kf_value upper
      else interpolate_value (kf_value lower) (kf_value upper)
             (eased_progress m (kf_easing lower)
                (f64_div (f64_of_nat (unat t - unat (kf_time_ms lower))) (f64_of_nat segment))))"

definition evaluate_keyframes :: "motion_math \<Rightarrow> keyframe list \<Rightarrow> u32 \<Rightarrow> resolved_var_value option" where
  "evaluate_keyframes m ks t =
     (case ks of
        [] \<Rightarrow> None
      | first # _ \<Rightarrow>
          (if t < kf_time_ms first then Some (kf_value first)
           else
             (let upper_index = length (takeWhile (\<lambda>k. kf_time_ms k \<le> t) ks) in
              if upper_index = length ks then Some (kf_value (last ks))
              else if upper_index = 0 then None
              else
                (let lower = ks ! (upper_index - 1); upper = ks ! upper_index in
                 if kf_time_ms lower = t \<or> kf_interpolation lower = Interpolation_Hold then Some (kf_value lower)
                 else if kf_time_ms upper < kf_time_ms lower then None
                 else Some (between_keyframes m lower upper t)))))"

definition track_evaluate :: "motion_math \<Rightarrow> animation_track \<Rightarrow> u32 \<Rightarrow> resolved_var_value option" where
  "track_evaluate m tr t = evaluate_keyframes m (canonical_keyframes tr) t"

section \<open>Clips\<close>

record motion_evaluation =
  me_clip :: animation_clip_id
  me_playhead :: u32
  me_overrides :: "(motion_target, resolved_var_value) fmap"
  me_transform_origins :: "(node_id, f64 \<times> f64) fmap"

definition put_sample :: "motion_target \<times> resolved_var_value option \<Rightarrow> (motion_target, resolved_var_value) fmap \<Rightarrow>
    (motion_target, resolved_var_value) fmap" where
  "put_sample p os = (case snd p of None \<Rightarrow> os | Some v \<Rightarrow> fmupd (fst p) v os)"

definition clip_evaluate :: "motion_math \<Rightarrow> animation_clip \<Rightarrow> u32 \<Rightarrow> motion_evaluation" where
  "clip_evaluate m clip t =
     (let t = min t (clip_duration_ms clip)
      in \<lparr>me_clip = clip_id clip, me_playhead = t,
          me_overrides = fold (\<lambda>tr. put_sample (track_target tr, track_evaluate m tr t)) (fm_values (clip_tracks clip)) fmempty,
          me_transform_origins = cs_transform_origins (clip_settings clip)\<rparr>)"

definition mlib_evaluate :: "motion_math \<Rightarrow> motion_library \<Rightarrow> animation_clip_id \<Rightarrow> u32 \<Rightarrow> motion_evaluation option" where
  "mlib_evaluate m lib c t = map_option (\<lambda>clip. clip_evaluate m clip t) (fmlookup (mlib_clips lib) c)"

definition track_for_target :: "animation_clip \<Rightarrow> motion_target \<Rightarrow> animation_track option" where
  "track_for_target clip target = find (\<lambda>tr. track_target tr = target) (fm_values (clip_tracks clip))"

record compiled_track =
  ct_target :: motion_target
  ct_keyframes :: "keyframe list"

record compiled_clip =
  cc_identity :: animation_clip_id
  cc_duration_ms :: u32
  cc_settings :: clip_settings
  cc_tracks :: "compiled_track list"

definition compile_clip :: "animation_clip_id \<Rightarrow> animation_clip \<Rightarrow> compiled_clip" where
  "compile_clip c clip =
     \<lparr>cc_identity = c, cc_duration_ms = clip_duration_ms clip, cc_settings = clip_settings clip,
      cc_tracks = map (\<lambda>tr. \<lparr>ct_target = track_target tr, ct_keyframes = canonical_keyframes tr\<rparr>) (fm_values (clip_tracks clip))\<rparr>"

definition mlib_compile :: "motion_library \<Rightarrow> (animation_clip_id, compiled_clip) fmap" where
  "mlib_compile lib = fmmap_keys compile_clip (mlib_clips lib)"

definition compiled_evaluate ::
  "motion_math \<Rightarrow> (animation_clip_id, compiled_clip) fmap \<Rightarrow> animation_clip_id \<Rightarrow> u32 \<Rightarrow> motion_evaluation option" where
  "compiled_evaluate m clips c t =
     (case fmlookup clips c of
        None \<Rightarrow> None
      | Some clip \<Rightarrow>
          (let t = min t (cc_duration_ms clip)
           in Some \<lparr>me_clip = cc_identity clip, me_playhead = t,
                me_overrides = fold (\<lambda>tr. put_sample (ct_target tr, evaluate_keyframes m (ct_keyframes tr) t)) (cc_tracks clip) fmempty,
                me_transform_origins = cs_transform_origins (cc_settings clip)\<rparr>))"

section \<open>Transform channels\<close>

record motion_transform =
  mt_position :: "f64 \<times> f64"
  mt_rotation :: f64
  mt_scale :: "f64 \<times> f64"

definition transform_components :: "transform2d \<Rightarrow> f64 list" where
  "transform_components x = [tf_a x, tf_b x, tf_c x, tf_d x, tf_tx x, tf_ty x]"

definition mt_decompose :: "motion_math \<Rightarrow> transform2d \<Rightarrow> motion_transform option" where
  "mt_decompose m x =
     (if \<not> list_all f64_is_finite (transform_components x) then None
      else
        (let sx = mm_hypot m (tf_a x) (tf_b x); sy = mm_hypot m (tf_c x) (tf_d x) in
         if f64_le sx f64_EPSILON \<or> f64_le sy f64_EPSILON then None
         else
           (let axis_dot = f64_div (f64_add (f64_mul (tf_a x) (tf_c x)) (f64_mul (tf_b x) (tf_d x))) (f64_mul sx sy) in
            if f64_lt f64_1e_9 (f64_abs axis_dot) then None
            else
              (let det = f64_sub (f64_mul (tf_a x) (tf_d x)) (f64_mul (tf_b x) (tf_c x)) in
               if f64_eq det 0 then None
               else Some \<lparr>mt_position = (tf_tx x, tf_ty x), mt_rotation = mm_atan2 m (f64_flip (tf_c x)) (tf_d x),
                          mt_scale = (if f64_neg det then f64_flip sx else sx, sy)\<rparr>))))"

definition mt_recompose :: "motion_math \<Rightarrow> motion_transform \<Rightarrow> transform2d option" where
  "mt_recompose m a =
     (if \<not> list_all f64_is_finite [fst (mt_position a), snd (mt_position a), mt_rotation a, fst (mt_scale a), snd (mt_scale a)]
      then None
      else
        (let s = mm_sin m (mt_rotation a); c = mm_cos m (mt_rotation a)
         in Some \<lparr>tf_a = f64_mul c (fst (mt_scale a)), tf_b = f64_mul s (fst (mt_scale a)),
                  tf_c = f64_mul (f64_flip s) (snd (mt_scale a)), tf_d = f64_mul c (snd (mt_scale a)),
                  tf_tx = fst (mt_position a), tf_ty = snd (mt_position a)\<rparr>))"

definition mt_set :: "motion_property \<Rightarrow> resolved_var_value \<Rightarrow> motion_transform \<Rightarrow> bool \<times> motion_transform" where
  "mt_set p v a =
     (case v of
        ResolvedVarValue_Float x \<Rightarrow>
          (if \<not> f64_is_finite x then (False, a)
           else (case p of
                   MotionProperty_PositionX \<Rightarrow> (True, a\<lparr>mt_position := (x, snd (mt_position a))\<rparr>)
                 | MotionProperty_PositionY \<Rightarrow> (True, a\<lparr>mt_position := (fst (mt_position a), x)\<rparr>)
                 | MotionProperty_Rotation \<Rightarrow> (True, a\<lparr>mt_rotation := x\<rparr>)
                 | MotionProperty_ScaleX \<Rightarrow> (True, a\<lparr>mt_scale := (x, snd (mt_scale a))\<rparr>)
                 | MotionProperty_ScaleY \<Rightarrow> (True, a\<lparr>mt_scale := (fst (mt_scale a), x)\<rparr>)
                 | MotionProperty_Bound _ \<Rightarrow> (False, a)))
      | _ \<Rightarrow> (False, a))"

definition pivot_of :: "motion_math \<Rightarrow> canvas_node \<Rightarrow> f64 \<times> f64 \<Rightarrow> f64 \<times> f64" where
  "pivot_of m n origin =
     (case mm_local_bounds m (cn_data n) of
        None \<Rightarrow> (0, 0)
      | Some b \<Rightarrow>
          (f64_add (bounds_min_x b) (f64_mul (fst origin) (bounds_width b)),
           f64_add (bounds_min_y b) (f64_mul (snd origin) (bounds_height b))))"

definition pivoted_transform :: "motion_math \<Rightarrow> canvas_node \<Rightarrow> motion_transform \<Rightarrow> f64 \<times> f64 \<Rightarrow> transform2d option" where
  "pivoted_transform m n animated origin =
     (case mt_decompose m (cn_transform n) of
        None \<Rightarrow> None
      | Some authored \<Rightarrow>
          (let pivot = pivot_of m n origin;
               turn = f64_sub (mt_rotation animated) (mt_rotation authored);
               grow = (f64_div (fst (mt_scale animated)) (fst (mt_scale authored)),
                       f64_div (snd (mt_scale animated)) (snd (mt_scale authored)))
           in if \<not> list_all f64_is_finite [fst pivot, snd pivot, fst grow, snd grow, turn] then None
              else
                (case mt_recompose m
                        \<lparr>mt_position = mt_position animated, mt_rotation = mt_rotation authored, mt_scale = mt_scale authored\<rparr> of
                   None \<Rightarrow> None
                 | Some base \<Rightarrow>
                     (let mul = mm_affine_mul m;
                          local_map =
                            mul (mul (mul (mm_translation m (fst pivot) (snd pivot)) (mm_rotation m turn))
                                   (mm_scale_xy m (fst grow) (snd grow)))
                              (mm_translation m (f64_flip (fst pivot)) (f64_flip (snd pivot)));
                          x = mul base local_map
                      in if list_all f64_is_finite (transform_components x) then Some x else None))))"

section \<open>A node with sampled values\<close>

definition property_rank :: "motion_property \<Rightarrow> nat" where
  \<comment> \<open>the derived order\<close>
  "property_rank p =
     (case p of
        MotionProperty_Bound b \<Rightarrow> prop_rank b
      | MotionProperty_PositionX \<Rightarrow> 2 ^ 20 | MotionProperty_PositionY \<Rightarrow> 2 ^ 20 + 1 | MotionProperty_Rotation \<Rightarrow> 2 ^ 20 + 2
      | MotionProperty_ScaleX \<Rightarrow> 2 ^ 20 + 3 | MotionProperty_ScaleY \<Rightarrow> 2 ^ 20 + 4)"

lemma prop_rank_below: "prop_rank b < 2 ^ 20"
proof -
  have "prop_tag b \<le> 10" by (simp add: prop_tag_def split: bound_prop.split)
  moreover have "unat (prop_slot b) < 2 ^ 16" using unsigned_less[of "prop_slot b"] by simp
  ultimately show ?thesis by (simp add: prop_rank_def)
qed

lemma property_rank_inj: "property_rank p = property_rank q \<Longrightarrow> p = q"
proof -
  have "prop_rank b < 1048576" for b using prop_rank_below[of b] by simp
  then have apart: "1048576 \<le> n \<Longrightarrow> (prop_rank b = n) = False" "1048576 \<le> n \<Longrightarrow> (n = prop_rank b) = False" for b n
    by (metis not_less)+
  assume "property_rank p = property_rank q"
  then show ?thesis by (cases p; cases q) (simp_all add: property_rank_def apart prop_rank_inj)
qed

instantiation motion_property :: linorder
begin

definition less_eq_motion_property :: "motion_property \<Rightarrow> motion_property \<Rightarrow> bool" where
  "less_eq_motion_property p q \<longleftrightarrow> property_rank p \<le> property_rank q"

definition less_motion_property :: "motion_property \<Rightarrow> motion_property \<Rightarrow> bool" where
  "less_motion_property p q \<longleftrightarrow> property_rank p < property_rank q"

instance
  by standard (auto simp: less_eq_motion_property_def less_motion_property_def property_rank_inj)

end

definition animated_properties :: "motion_evaluation \<Rightarrow> node_id \<Rightarrow> motion_property list" where
  "animated_properties e i =
     sorted_list_of_fset (mtarget_property |`| ffilter (\<lambda>t. mtarget_node t = i) (fmdom (me_overrides e)))"

definition apply_sample ::
  "motion_evaluation \<Rightarrow> node_id \<Rightarrow> motion_property \<Rightarrow> canvas_node \<times> motion_transform option \<times> bool \<Rightarrow>
     canvas_node \<times> motion_transform option \<times> bool" where
  "apply_sample e i p st =
     (case st of
        (n, a, changed) \<Rightarrow>
          (case fmlookup (me_overrides e) \<lparr>mtarget_node = i, mtarget_property = p\<rparr> of
             None \<Rightarrow> st
           | Some v \<Rightarrow>
               (case p of
                  MotionProperty_Bound b \<Rightarrow> (snd (apply_resolved b n v), a, changed)
                | _ \<Rightarrow>
                    (case a of
                       None \<Rightarrow> st
                     | Some x \<Rightarrow> (let (accepted, x') = mt_set p v x in (n, Some x', changed \<or> accepted))))))"

definition apply_to_node :: "motion_math \<Rightarrow> motion_evaluation \<Rightarrow> canvas_node \<Rightarrow> canvas_node" where
  "apply_to_node m e n =
     (let style = MotionProperty_Bound BoundProp_TextStyle;
          start = apply_sample e (cn_id n) style (n, mt_decompose m (cn_transform n), False);
          (n1, a, changed) = fold (apply_sample e (cn_id n)) (filter (\<lambda>p. p \<noteq> style) (animated_properties e (cn_id n))) start
      in case a of
           Some x \<Rightarrow>
             (if changed
              then (case (case fmlookup (me_transform_origins e) (cn_id n) of
                            Some origin \<Rightarrow> pivoted_transform m n x origin | None \<Rightarrow> mt_recompose m x) of
                      Some y \<Rightarrow> n1\<lparr>cn_transform := y\<rparr> | None \<Rightarrow> n1)
              else n1)
         | None \<Rightarrow> n1)"

end
