(* ===== verification/MotionProps.thy ===== *)
theory MotionProps
  imports Motion
begin

text \<open>
  Sampling of animation clips: which keyframes decide the value of a track at a time, which track decides the value of a
  target, and that the compiled clips sample as the authored ones do.
\<close>

section \<open>The keyframes in force\<close>

definition in_force :: "animation_track \<Rightarrow> keyframe set" where
  \<comment> \<open>of the right type, and the greatest id among those of their time\<close>
  "in_force tr =
     (let K = {k. (\<exists>i. fmlookup (track_keyframes tr) i = Some k) \<and>
                  accepts_value (mtarget_property (track_target tr)) (kf_value k)}
      in {k \<in> K. \<forall>l \<in> K. kf_time_ms l = kf_time_ms k \<longrightarrow> kf_id l \<le> kf_id k})"

definition keyframes_keyed :: "animation_track \<Rightarrow> bool" where
  \<comment> \<open>every keyframe is stored under its own id\<close>
  "keyframes_keyed tr \<longleftrightarrow> (\<forall>i k. fmlookup (track_keyframes tr) i = Some k \<longrightarrow> kf_id k = i)"

definition last_until :: "keyframe set \<Rightarrow> u32 \<Rightarrow> keyframe \<Rightarrow> bool" where
  "last_until K t k \<longleftrightarrow> k \<in> K \<and> kf_time_ms k \<le> t \<and> (\<forall>l \<in> K. kf_time_ms l \<le> t \<longrightarrow> kf_time_ms l \<le> kf_time_ms k)"

definition first_after :: "keyframe set \<Rightarrow> u32 \<Rightarrow> keyframe \<Rightarrow> bool" where
  "first_after K t k \<longleftrightarrow> k \<in> K \<and> t < kf_time_ms k \<and> (\<forall>l \<in> K. t < kf_time_ms l \<longrightarrow> kf_time_ms k \<le> kf_time_ms l)"

abbreviation in_time :: "keyframe list \<Rightarrow> bool" where
  "in_time ks \<equiv> sorted_wrt (\<lambda>a b. kf_time_ms a < kf_time_ms b) ks"

abbreviation frame_key :: "keyframe \<Rightarrow> u32 \<times> keyframe_id" where
  "frame_key k \<equiv> (kf_time_ms k, kf_id k)"

lemma in_time_snoc: "in_time (ks @ [k]) \<longleftrightarrow> in_time ks \<and> (\<forall>l \<in> set ks. kf_time_ms l < kf_time_ms k)"
  by (auto simp: sorted_wrt_append)

lemma in_time_inj: "in_time ks \<Longrightarrow> k \<in> set ks \<Longrightarrow> l \<in> set ks \<Longrightarrow> kf_time_ms k = kf_time_ms l \<Longrightarrow> k = l"
  by (induction ks) auto

lemma push_keyframe_exact:
  assumes "in_time ks" "\<forall>l \<in> set ks. kf_time_ms l \<le> kf_time_ms k"
  shows "in_time (push_keyframe k ks) \<and>
    set (push_keyframe k ks) = insert k {l \<in> set ks. kf_time_ms l \<noteq> kf_time_ms k}"
proof (cases ks rule: rev_cases)
  case Nil
  then show ?thesis by (simp add: push_keyframe_def)
next
  case (snoc ls l)
  then have "\<forall>x \<in> set ls. kf_time_ms x < kf_time_ms l" "in_time ls" "kf_time_ms l \<le> kf_time_ms k"
    using assms by (simp_all add: in_time_snoc)
  then show ?thesis using snoc assms(1) by (auto simp: push_keyframe_def in_time_snoc sorted_wrt_append)
qed

lemma push_all_exact:
  "sorted (map frame_key ks) \<Longrightarrow> distinct (map kf_id ks) \<Longrightarrow>
     in_time (fold push_keyframe ks []) \<and>
     set (fold push_keyframe ks []) = {k \<in> set ks. \<forall>l \<in> set ks. kf_time_ms l = kf_time_ms k \<longrightarrow> kf_id l \<le> kf_id k}"
proof (induction ks rule: rev_induct)
  case (snoc k ks)
  let ?c = "fold push_keyframe ks []"
  have before: "\<forall>l \<in> set ks. frame_key l \<le> frame_key k" "sorted (map frame_key ks)"
    using snoc.prems(1) by (auto simp: sorted_append)
  have IH: "in_time ?c" "set ?c = {k \<in> set ks. \<forall>l \<in> set ks. kf_time_ms l = kf_time_ms k \<longrightarrow> kf_id l \<le> kf_id k}"
    using snoc.IH before(2) snoc.prems(2) by simp_all
  have late: "\<forall>l \<in> set ks. kf_time_ms l \<le> kf_time_ms k \<and> (kf_time_ms l = kf_time_ms k \<longrightarrow> kf_id l \<le> kf_id k)"
    using before(1) by (auto simp: less_eq_prod_simp)
  have other: "\<forall>l \<in> set ks. kf_id l \<noteq> kf_id k" using snoc.prems(2) by (simp add: image_iff) metis
  have pushed: "in_time (push_keyframe k ?c)" "set (push_keyframe k ?c) = insert k {l \<in> set ?c. kf_time_ms l \<noteq> kf_time_ms k}"
    using push_keyframe_exact[OF IH(1), of k] IH(2) late by auto
  moreover have "insert k {l \<in> set ?c. kf_time_ms l \<noteq> kf_time_ms k} =
      {x \<in> set (ks @ [k]). \<forall>l \<in> set (ks @ [k]). kf_time_ms l = kf_time_ms x \<longrightarrow> kf_id l \<le> kf_id x}"
    unfolding IH(2) using late other by (auto dest: order_antisym)
  ultimately show ?case by simp
qed simp

lemma canonical_exact:
  assumes "keyframes_keyed tr"
  shows "in_time (canonical_keyframes tr)" "set (canonical_keyframes tr) = in_force tr"
proof -
  let ?ks = "filter (\<lambda>k. accepts_value (mtarget_property (track_target tr)) (kf_value k)) (fm_values (track_keyframes tr))"
  have "map kf_id (fm_values (track_keyframes tr)) = fm_keys (track_keyframes tr)"
    using assms by (auto simp: fm_values_def keyframes_keyed_def fmlookup_dom'_iff intro!: map_idI)
  then have "distinct (map kf_id ?ks)" using distinct_map_filter[of kf_id "fm_values (track_keyframes tr)"] by simp
  then have d: "distinct (map kf_id (sort_key frame_key ?ks))" by (simp add: distinct_map)
  have s: "set (sort_key frame_key ?ks) = {k. (\<exists>i. fmlookup (track_keyframes tr) i = Some k) \<and>
      accepts_value (mtarget_property (track_target tr)) (kf_value k)}"
    by (auto simp: fm_values_set)
  from push_all_exact[OF sorted_sort_key d]
  show "in_time (canonical_keyframes tr)" "set (canonical_keyframes tr) = in_force tr"
    unfolding canonical_keyframes_def in_force_def Let_def s by simp_all
qed

section \<open>A sample\<close>

lemma in_time_split:
  fixes ks t
  assumes "in_time ks"
  defines "pre \<equiv> takeWhile (\<lambda>k. kf_time_ms k \<le> t) ks" and "post \<equiv> dropWhile (\<lambda>k. kf_time_ms k \<le> t) ks"
  shows "last_until (set ks) t k \<longleftrightarrow> pre \<noteq> [] \<and> k = last pre"
    and "first_after (set ks) t k \<longleftrightarrow> post \<noteq> [] \<and> k = hd post"
proof -
  have ks: "ks = pre @ post" by (simp add: pre_def post_def)
  have early: "\<forall>k \<in> set pre. kf_time_ms k \<le> t" by (auto simp: pre_def dest: set_takeWhileD)
  have late: "\<forall>k \<in> set post. t < kf_time_ms k"
  proof (cases post)
    case (Cons p ps)
    then have "\<not> kf_time_ms p \<le> t" unfolding post_def by (simp add: dropWhile_eq_Cons_conv)
    moreover have "in_time (p # ps)" using assms(1) ks Cons by (simp add: sorted_wrt_append)
    ultimately show ?thesis using Cons by (auto intro: less_trans)
  qed simp
  have sorted: "in_time pre" "in_time post" using assms(1) ks by (simp_all add: sorted_wrt_append)
  show "last_until (set ks) t k \<longleftrightarrow> pre \<noteq> [] \<and> k = last pre"
  proof (cases pre rule: rev_cases)
    case Nil
    then show ?thesis using late ks by (auto simp: last_until_def)
  next
    case (snoc ps p)
    then have "\<forall>x \<in> set ps. kf_time_ms x < kf_time_ms p" using sorted(1) by (simp add: in_time_snoc)
    then show ?thesis using snoc early late ks by (fastforce simp: last_until_def)
  qed
  show "first_after (set ks) t k \<longleftrightarrow> post \<noteq> [] \<and> k = hd post"
  proof (cases post)
    case Nil
    then show ?thesis using early ks by (fastforce simp: first_after_def)
  next
    case (Cons p ps)
    then have "\<forall>x \<in> set ps. kf_time_ms p < kf_time_ms x" using sorted(2) by simp
    then show ?thesis using Cons early late ks by (fastforce simp: first_after_def)
  qed
qed

lemma evaluate_split:
  fixes ks t
  defines "pre \<equiv> takeWhile (\<lambda>k. kf_time_ms k \<le> t) ks" and "post \<equiv> dropWhile (\<lambda>k. kf_time_ms k \<le> t) ks"
  assumes "in_time ks"
  shows "evaluate_keyframes m ks t =
    (if ks = [] then None else if pre = [] then Some (kf_value (hd post)) else if post = [] then Some (kf_value (last pre))
     else if kf_time_ms (last pre) = t \<or> kf_interpolation (last pre) = Interpolation_Hold then Some (kf_value (last pre))
     else Some (between_keyframes m (last pre) (hd post) t))"
proof (cases ks)
  case (Cons k ks')
  have ks: "ks = pre @ post" by (simp add: pre_def post_def)
  have eval: "evaluate_keyframes m ks t =
      (if t < kf_time_ms k then Some (kf_value k)
       else if length pre = length ks then Some (kf_value (last ks))
       else if length pre = 0 then None
       else if kf_time_ms (ks ! (length pre - 1)) = t \<or> kf_interpolation (ks ! (length pre - 1)) = Interpolation_Hold
       then Some (kf_value (ks ! (length pre - 1)))
       else if kf_time_ms (ks ! length pre) < kf_time_ms (ks ! (length pre - 1)) then None
       else Some (between_keyframes m (ks ! (length pre - 1)) (ks ! length pre) t))"
    unfolding pre_def by (simp only: evaluate_keyframes_def Let_def Cons list.case)
  have first: "t < kf_time_ms k \<longleftrightarrow> pre = []" by (auto simp: pre_def Cons)
  have lens: "length pre = length ks \<longleftrightarrow> post = []" using ks by simp
  have k: "pre = [] \<Longrightarrow> hd post = k" using ks Cons by (metis append_Nil list.sel(1))
  have l: "post = [] \<Longrightarrow> last ks = last pre" using ks by simp
  have lower: "pre \<noteq> [] \<Longrightarrow> ks ! (length pre - 1) = last pre" using ks by (simp add: nth_append last_conv_nth)
  have upper: "post \<noteq> [] \<Longrightarrow> ks ! length pre = hd post" using ks by (simp add: nth_append hd_conv_nth)
  have order: "pre \<noteq> [] \<Longrightarrow> post \<noteq> [] \<Longrightarrow> \<not> kf_time_ms (hd post) < kf_time_ms (last pre)"
    using assms(3) ks by (metis hd_in_set last_in_set not_less_iff_gr_or_eq sorted_wrt_append)
  have ne: "ks \<noteq> []" by (simp add: Cons)
  show ?thesis unfolding eval first lens using k l lower upper order ne by auto
qed (simp add: evaluate_keyframes_def)

text \<open>
  C37. The value of a track at a time does not depend on how its keyframes are stored: those of the wrong type are
  ignored, of those of one time the greatest id counts; without any there is no value; before the first it is that of
  the first; from the last one on, at a keyframe, and after one that holds, it is that of the last keyframe reached; and
  otherwise it lies between that one and the one after it, by the easing of the former.
\<close>
theorem track_sample_exact:
  assumes "keyframes_keyed tr"
  shows "(track_evaluate m tr t = None \<longleftrightarrow> in_force tr = {}) \<and>
    (\<forall>l. first_after (in_force tr) t l \<and> (\<nexists>k. last_until (in_force tr) t k) \<longrightarrow>
       track_evaluate m tr t = Some (kf_value l)) \<and>
    (\<forall>k. last_until (in_force tr) t k \<and>
         (kf_time_ms k = t \<or> kf_interpolation k = Interpolation_Hold \<or> (\<nexists>l. first_after (in_force tr) t l)) \<longrightarrow>
       track_evaluate m tr t = Some (kf_value k)) \<and>
    (\<forall>k l. last_until (in_force tr) t k \<and> first_after (in_force tr) t l \<and>
         kf_time_ms k \<noteq> t \<and> kf_interpolation k \<noteq> Interpolation_Hold \<longrightarrow>
       track_evaluate m tr t =
         Some (interpolate_value (kf_value k) (kf_value l)
           (eased_progress m (kf_easing k)
             (f64_div (f64_of_nat (unat t - unat (kf_time_ms k)))
                (f64_of_nat (unat (kf_time_ms l) - unat (kf_time_ms k)))))))"
proof -
  let ?ks = "canonical_keyframes tr"
  note canon = canonical_exact[OF assms]
  note around = in_time_split[OF canon(1), of t, unfolded canon(2)]
  have between: "between_keyframes m k l t = interpolate_value (kf_value k) (kf_value l)
      (eased_progress m (kf_easing k) (f64_div (f64_of_nat (unat t - unat (kf_time_ms k)))
        (f64_of_nat (unat (kf_time_ms l) - unat (kf_time_ms k)))))" if "kf_time_ms k \<le> t" "t < kf_time_ms l" for k l
    using that by (simp add: between_keyframes_def Let_def word_le_nat_alt word_less_nat_alt)
  define pre where "pre = takeWhile (\<lambda>k. kf_time_ms k \<le> t) ?ks"
  define post where "post = dropWhile (\<lambda>k. kf_time_ms k \<le> t) ?ks"
  have empty: "in_force tr = {} \<longleftrightarrow> ?ks = []" unfolding canon(2)[symmetric] by simp
  have some: "pre \<noteq> [] \<Longrightarrow> ?ks \<noteq> []" "post \<noteq> [] \<Longrightarrow> ?ks \<noteq> []" by (auto simp: pre_def post_def)
  note sampled = evaluate_split[OF canon(1), of m t, folded track_evaluate_def pre_def post_def]
  note around = around[folded pre_def post_def]
  show ?thesis
  proof (intro conjI allI impI)
    show "track_evaluate m tr t = None \<longleftrightarrow> in_force tr = {}" unfolding sampled empty by simp
  next
    fix l assume "first_after (in_force tr) t l \<and> (\<nexists>k. last_until (in_force tr) t k)"
    then show "track_evaluate m tr t = Some (kf_value l)" unfolding sampled around using some by simp
  next
    fix k assume "last_until (in_force tr) t k \<and>
      (kf_time_ms k = t \<or> kf_interpolation k = Interpolation_Hold \<or> (\<nexists>l. first_after (in_force tr) t l))"
    then show "track_evaluate m tr t = Some (kf_value k)" unfolding sampled around using some by auto
  next
    fix k l assume kl: "last_until (in_force tr) t k \<and> first_after (in_force tr) t l \<and>
      kf_time_ms k \<noteq> t \<and> kf_interpolation k \<noteq> Interpolation_Hold"
    then have "kf_time_ms k \<le> t" "t < kf_time_ms l" by (simp_all add: last_until_def first_after_def)
    note between = between[OF this]
    from kl have "pre \<noteq> []" "post \<noteq> []" "k = last pre" "l = hd post" "kf_time_ms (last pre) \<noteq> t"
      "kf_interpolation (last pre) \<noteq> Interpolation_Hold" by (auto simp: around)
    with between show "track_evaluate m tr t = Some (interpolate_value (kf_value k) (kf_value l)
        (eased_progress m (kf_easing k) (f64_div (f64_of_nat (unat t - unat (kf_time_ms k)))
          (f64_of_nat (unat (kf_time_ms l) - unat (kf_time_ms k))))))"
      unfolding sampled using some by simp
  qed
qed

definition sample_math :: motion_math where
  "sample_math =
     \<lparr>mm_sqrt = (\<lambda>x. x), mm_ln = (\<lambda>x. x), mm_exp = (\<lambda>x. x), mm_sin = (\<lambda>x. x), mm_cos = (\<lambda>x. x),
      mm_hypot = (\<lambda>x y. x), mm_atan2 = (\<lambda>x y. x), mm_affine_mul = (\<lambda>a b. a),
      mm_translation = (\<lambda>x y. Transform2D_IDENTITY), mm_rotation = (\<lambda>x. Transform2D_IDENTITY),
      mm_scale_xy = (\<lambda>x y. Transform2D_IDENTITY), mm_local_bounds = (\<lambda>d. None)\<rparr>"

definition sample_off :: keyframe where
  "sample_off = \<lparr>kf_id = Id 1, kf_time_ms = 0, kf_value = ResolvedVarValue_Boolean False,
     kf_interpolation = Interpolation_Linear, kf_easing = Easing_Linear\<rparr>"

definition sample_on :: keyframe where
  "sample_on = \<lparr>kf_id = Id 2, kf_time_ms = 100, kf_value = ResolvedVarValue_Boolean True,
     kf_interpolation = Interpolation_Linear, kf_easing = Easing_Linear\<rparr>"

definition sample_track :: animation_track where
  "sample_track =
     \<lparr>track_id = Id 3, track_target = \<lparr>mtarget_node = Id 4, mtarget_property = MotionProperty_Bound BoundProp_Visible\<rparr>,
      track_keyframes = fmap_of_list [(Id 1, sample_off), (Id 2, sample_on)]\<rparr>"

lemma sample_kf [simp]:
  "kf_id sample_off = Id 1" "kf_time_ms sample_off = 0" "kf_value sample_off = ResolvedVarValue_Boolean False"
  "kf_interpolation sample_off = Interpolation_Linear"
  "kf_id sample_on = Id 2" "kf_time_ms sample_on = 100" "kf_value sample_on = ResolvedVarValue_Boolean True"
  "kf_interpolation sample_on = Interpolation_Linear"
  "mtarget_property (track_target sample_track) = MotionProperty_Bound BoundProp_Visible"
  by (simp_all add: sample_off_def sample_on_def sample_track_def)

lemma sample_track_keyframes:
  "fmlookup (track_keyframes sample_track) i = Some k \<longleftrightarrow> i = Id 1 \<and> k = sample_off \<or> i = Id 2 \<and> k = sample_on"
  by (auto simp: sample_track_def fmap_of_list.rep_eq)

lemma sample_track_frame:
  "(\<exists>i. fmlookup (track_keyframes sample_track) i = Some k) \<longleftrightarrow> k = sample_off \<or> k = sample_on"
  unfolding sample_track_keyframes by blast

lemma sample_in_force: "keyframes_keyed sample_track" "in_force sample_track = {sample_off, sample_on}"
proof -
  show "keyframes_keyed sample_track" by (auto simp: keyframes_keyed_def sample_track_keyframes)
  have ok: "accepts_value (MotionProperty_Bound BoundProp_Visible) (kf_value sample_off)"
    "accepts_value (MotionProperty_Bound BoundProp_Visible) (kf_value sample_on)"
    by (simp_all add: accepts_value_def)
  have K: "{k. (\<exists>i. fmlookup (track_keyframes sample_track) i = Some k) \<and>
      accepts_value (mtarget_property (track_target sample_track)) (kf_value k)} = {sample_off, sample_on}"
    unfolding sample_track_frame sample_kf using ok by blast
  show "in_force sample_track = {sample_off, sample_on}"
    unfolding in_force_def Let_def K
  proof (rule set_eqI)
    fix k
    show "k \<in> {k \<in> {sample_off, sample_on}. \<forall>l \<in> {sample_off, sample_on}. kf_time_ms l = kf_time_ms k \<longrightarrow> kf_id l \<le> kf_id k} \<longleftrightarrow>
        k \<in> {sample_off, sample_on}"
      by (cases "k = sample_off"; cases "k = sample_on") simp_all
  qed
qed

theorem track_sample_exact_witness:
  "track_evaluate sample_math sample_track 50 = Some (ResolvedVarValue_Boolean False)"
proof -
  have "last_until (in_force sample_track) 50 sample_off" "first_after (in_force sample_track) 50 sample_on"
    by (simp_all add: last_until_def first_after_def sample_in_force)
  moreover have "kf_time_ms sample_off \<noteq> 50" "kf_interpolation sample_off \<noteq> Interpolation_Hold" by simp_all
  ultimately have "track_evaluate sample_math sample_track 50 = Some (interpolate_value (kf_value sample_off) (kf_value sample_on)
      (eased_progress sample_math (kf_easing sample_off) (f64_div (f64_of_nat (unat (50::u32) - unat (kf_time_ms sample_off)))
        (f64_of_nat (unat (kf_time_ms sample_on) - unat (kf_time_ms sample_off))))))"
    using track_sample_exact[OF sample_in_force(1), of sample_math 50] by blast
  then show ?thesis by (simp add: interpolate_value_def)
qed

section \<open>A clip\<close>

lemma put_samples_lookup:
  "fmlookup (fold (\<lambda>tr. put_sample (track_target tr, f tr)) trs os) target =
     (case find (\<lambda>tr. track_target tr = target \<and> f tr \<noteq> None) (rev trs) of
        Some tr \<Rightarrow> f tr | None \<Rightarrow> fmlookup os target)"
proof (induction trs arbitrary: os)
  case (Cons tr trs)
  have app: "find P (xs @ [x]) = (case find P xs of None \<Rightarrow> (if P x then Some x else None) | Some y \<Rightarrow> Some y)" for P xs x
    by (induction xs) auto
  have last_one: "find P (rev (tr # trs)) = (case find P (rev trs) of None \<Rightarrow> (if P tr then Some tr else None) | Some y \<Rightarrow> Some y)" for P
    by (simp only: rev.simps app)
  show ?case unfolding last_one by (simp only: fold_simps Cons.IH) (auto simp: put_sample_def split: option.split)
qed simp

lemma find_rev_greatest:
  fixes M :: "('k::linorder, 'v) fmap"
  shows "find P (rev (fm_values M)) = Some x \<longleftrightarrow>
     (\<exists>i. fmlookup M i = Some x \<and> P x \<and> (\<forall>j y. fmlookup M j = Some y \<and> i < j \<longrightarrow> \<not> P y))"
proof -
  have "find P (rev (map f ks)) = Some x \<longleftrightarrow> (\<exists>i \<in> set ks. f i = x \<and> P x \<and> (\<forall>j \<in> set ks. i < j \<longrightarrow> \<not> P (f j)))"
    if "sorted ks" "distinct ks" for ks :: "'k list" and f
    using that
  proof (induction ks rule: rev_induct)
    case (snoc k ks)
    then have "\<forall>j \<in> set ks. j < k" by (auto simp: sorted_append order_less_le)
    with snoc show ?case by (auto simp: sorted_append)
  qed simp
  from this[OF fm_keys_sorted fm_keys_distinct, of "\<lambda>k. the (fmlookup M k)" M]
  moreover have "(\<forall>j \<in> fmdom' M. i < j \<longrightarrow> \<not> P (the (fmlookup M j))) \<longleftrightarrow>
      (\<forall>j y. fmlookup M j = Some y \<and> i < j \<longrightarrow> \<not> P y)" for i
    by (auto simp: fmlookup_dom'_iff)
  ultimately show ?thesis unfolding fm_values_def by (auto simp: fmlookup_dom'_iff Bex_def)
qed

lemma clip_overrides_exact:
  "fmlookup (me_overrides (clip_evaluate m clip t)) target = Some v \<longleftrightarrow>
     (\<exists>i tr. fmlookup (clip_tracks clip) i = Some tr \<and> track_target tr = target \<and>
        track_evaluate m tr (min t (clip_duration_ms clip)) = Some v \<and>
        (\<forall>j tr'. fmlookup (clip_tracks clip) j = Some tr' \<and> track_target tr' = target \<and> i < j \<longrightarrow>
           track_evaluate m tr' (min t (clip_duration_ms clip)) = None))"
proof -
  let ?f = "\<lambda>tr. track_evaluate m tr (min t (clip_duration_ms clip))"
  have "fmlookup (me_overrides (clip_evaluate m clip t)) target =
      Option.bind (find (\<lambda>tr. track_target tr = target \<and> ?f tr \<noteq> None) (rev (fm_values (clip_tracks clip)))) ?f"
    by (simp add: clip_evaluate_def Let_def put_samples_lookup split: option.split)
  then show ?thesis by (auto simp: bind_eq_Some_conv find_rev_greatest)
qed

text \<open>
  C38. Compiling the clips of a document for playing changes no sample: the compiled clip gives what the authored one
  gives at every time, under the id it is stored with. And the value of a target is that of the track with the
  greatest id among those that target it and have a value then; the time is clamped to the length of the clip.
\<close>
theorem compiled_motion_exact:
  "compiled_evaluate m (mlib_compile lib) c t = map_option (\<lambda>e. e\<lparr>me_clip := c\<rparr>) (mlib_evaluate m lib c t) \<and>
   (\<forall>clip target v. fmlookup (mlib_clips lib) c = Some clip \<longrightarrow>
      (fmlookup (me_overrides (clip_evaluate m clip t)) target = Some v \<longleftrightarrow>
       (\<exists>i tr. fmlookup (clip_tracks clip) i = Some tr \<and> track_target tr = target \<and>
          track_evaluate m tr (min t (clip_duration_ms clip)) = Some v \<and>
          (\<forall>j tr'. fmlookup (clip_tracks clip) j = Some tr' \<and> track_target tr' = target \<and> i < j \<longrightarrow>
             track_evaluate m tr' (min t (clip_duration_ms clip)) = None))))"
proof -
  have "fold (\<lambda>tr. put_sample (ct_target tr, evaluate_keyframes m (ct_keyframes tr) x))
      (map (\<lambda>tr. \<lparr>ct_target = track_target tr, ct_keyframes = canonical_keyframes tr\<rparr>) trs) os =
    fold (\<lambda>tr. put_sample (track_target tr, track_evaluate m tr x)) trs os" for trs x os
    by (induction trs arbitrary: os) (simp_all add: track_evaluate_def)
  then have "compiled_evaluate m (mlib_compile lib) c t = map_option (\<lambda>e. e\<lparr>me_clip := c\<rparr>) (mlib_evaluate m lib c t)"
    by (simp add: compiled_evaluate_def mlib_compile_def mlib_evaluate_def compile_clip_def clip_evaluate_def Let_def split: option.split)
  then show ?thesis using clip_overrides_exact by simp
qed

definition sample_clip :: animation_clip where
  "sample_clip =
     \<lparr>clip_id = Id 5, clip_name = ''Blink'', clip_duration_ms = 50,
      clip_settings = \<lparr>cs_fps = None, cs_loop_mode = LoopMode_Once, cs_scope = None, cs_background = None,
        cs_transform_origins = fmempty\<rparr>,
      clip_tracks = fmap_of_list [(Id 3, sample_track)]\<rparr>"

lemma sample_clip_tracks: "fmlookup (clip_tracks sample_clip) i = Some tr \<longleftrightarrow> i = Id 3 \<and> tr = sample_track"
  by (auto simp: sample_clip_def fmap_of_list.rep_eq)

lemma sample_clip_value: "track_evaluate sample_math sample_track 50 = Some (ResolvedVarValue_Boolean False)"
proof -
  have "canonical_keyframes sample_track = [sample_off, sample_on]"
  proof -
    note c = canonical_exact[OF sample_in_force(1), unfolded sample_in_force(2)]
    have "in_time ks \<Longrightarrow> distinct ks" for ks by (induction ks) auto
    then have "length (canonical_keyframes sample_track) = card {sample_off, sample_on}"
      using distinct_card[of "canonical_keyframes sample_track"] c by simp
    then have "length (canonical_keyframes sample_track) = Suc (Suc 0)" by (simp add: sample_off_def sample_on_def)
    then obtain a b where ab: "canonical_keyframes sample_track = [a, b]" by (auto simp: length_Suc_conv)
    have "kf_time_ms sample_off < kf_time_ms sample_on" by (simp add: sample_off_def sample_on_def)
    with c show ?thesis unfolding ab by (auto simp: doubleton_eq_iff)
  qed
  then show ?thesis
    by (simp add: track_evaluate_def evaluate_keyframes_def sample_off_def sample_on_def between_keyframes_def
        interpolate_value_def Let_def)
qed

theorem compiled_motion_exact_witness:
  "\<exists>e. compiled_evaluate sample_math (mlib_compile \<lparr>mlib_clips = fmap_of_list [(Id 9, sample_clip)]\<rparr>) (Id 9) 80 = Some e \<and>
     me_clip e = Id 9 \<and> fmlookup (me_overrides e) (track_target sample_track) = Some (ResolvedVarValue_Boolean False)"
proof -
  let ?lib = "\<lparr>mlib_clips = fmap_of_list [(Id 9, sample_clip)]\<rparr> :: motion_library"
  have clip: "fmlookup (mlib_clips ?lib) (Id 9) = Some sample_clip" by (simp add: fmap_of_list.rep_eq)
  have "min 80 (clip_duration_ms sample_clip) = 50" by (simp add: sample_clip_def min_def)
  then have "fmlookup (me_overrides (clip_evaluate sample_math sample_clip 80)) (track_target sample_track) =
      Some (ResolvedVarValue_Boolean False)"
    using conjunct2[OF compiled_motion_exact[of sample_math ?lib "Id 9" 80], rule_format, OF clip]
      sample_clip_value sample_clip_tracks by auto
  then show ?thesis
    using conjunct1[OF compiled_motion_exact[of sample_math ?lib "Id 9" 80]] clip by (simp add: mlib_evaluate_def)
qed

end
