(* ===== verification/Spec2Isabelle.thy ===== *)
theory Spec2Isabelle
  imports Ids IndexKeys SceneProps SceneChanges OpProps OpErrors EditSession DocModel DocProps
    ModeTransactions JournalProps MergeProps TextTokenProps InstanceProps LoadPasses GridPlacement StyleProps
    PlaybackRestore MotionProps
begin

text \<open>
  A verification of the document engine of Fanta: the crate \<open>crates/fanta-doc\<close>, and the places
  outside it that carry its contracts further: the headless journal (\<open>crates/fanta-headless/src/document.rs\<close>),
  the three-way merge (\<open>crates/fanta-format/src/project/merge.rs\<close>) and the player that runs the prototype
  of a document (\<open>crates/fanta-present\<close>). This theory only brings the
  others together. Paths below are relative to \<open>crates/fanta-doc/src\<close>.

  \<^bold>\<open>The program.\<close> A document is a tree of canvas nodes with registries beside it (variables,
  components, motion, styles, pages). Every edit is an \<open>Operation\<close> that carries the values it replaces,
  so that it can be reverted. \<open>History\<close> groups operations into transactions, keeps an undo and a redo stack of bounded
  depth, and reports every step to a journal. \<open>Doc\<close> owns the document and its history. The journal can be
  replayed, and two editions of a document edited concurrently can be merged.

  \<^bold>\<open>Data.\<close>
  \<^item> \<open>FantaPrelude\<close>: machine integers, vector and map operations of the standard library.
  \<^item> \<open>Ids\<close> (\<open>id.rs\<close>): the fifteen id types, as one type constructor with a phantom tag; the ULID codec
    of the \<open>ulid\<close> crate is a parameter.
  \<^item> \<open>IndexKeys\<close> (\<open>index.rs\<close>) and \<open>Floats\<close> (\<open>style.rs\<close>): \<open>f64\<close> and \<open>f32\<close> as bit patterns, with exact
    rounding to nearest even for the sums and halvings of sibling keys and for the casts the document
    makes. \<open>index_after\<close> is strictly greater below \<open>2^53\<close> and stands still there.
  \<^item> \<open>DesignTypes\<close>, \<open>NodeTypes\<close>, \<open>RegistryTypes\<close>: the structs and enums of \<open>color.rs\<close>, \<open>style.rs\<close>, \<open>path/\<close>,
    \<open>value.rs\<close>, \<open>node/\<close>, \<open>binding.rs\<close>, \<open>editing.rs\<close>, \<open>stylesheet.rs\<close>, \<open>variables.rs\<close>, \<open>component.rs\<close>
    and \<open>motion.rs\<close>, as records and datatypes with the source's fields and constructors.

  \<^bold>\<open>The scene graph\<close> (\<open>scene/graph.rs\<close>).
  \<^item> \<open>Scene\<close> is the record of node map, child index, caches, revision, stamps and change log, with one
    definition per method. An error carries no new scene, because every method checks before it writes.
  \<^item> \<open>SceneInv\<close> states the invariant, \<open>SceneTree\<close> the walks up and down, \<open>SceneEdit\<close> what each mutator
    does, \<open>SceneProps\<close> the contract: every reachable scene meets the invariant, and \<open>validate\<close> accepts
    exactly the scenes that do. \<open>SampleScene\<close> is the concrete scene the witnesses use.
  \<^item> \<open>SceneBatch\<close>: a batch insert is accepted exactly when some order of single inserts is, with the
    same result; an extracted subtree is a valid scene. \<open>SceneChanges\<close>: the delta served from the change log is complete.

  \<^bold>\<open>Operations\<close> (\<open>op/\<close>).
  \<^item> \<open>OpTypes\<close> has the 61 variants and \<open>op_ctx\<close>, the slices of a document that an operation borrows;
    \<open>OpApply\<close> is the one match behind \<open>apply\<close> and \<open>revert\<close>. An operation returns its result and the
    slices as it leaves them, since two arms fail after their first write.
  \<^item> \<open>OpSame\<close>: the equivalence of documents up to caches and revision counters, which every operation
    respects. \<open>OpReverse\<close> and \<open>OpUndo\<close>: reverting undoes applying for an operation whose old values
    match. \<open>OpProps\<close>: this contract and the invariant. \<open>OpErrors\<close>: which failing operations leave the document alone, and
    where the source's comments promise more than the code keeps.

  \<^bold>\<open>Undo history\<close> (\<open>history.rs\<close>).
  \<^item> \<open>HistoryModel\<close>: transactions, gestures, savepoints, the two stacks and the events to the journal.
    What undo needs from operations is the locale \<open>reversible\<close>, interpreted on \<open>op_run\<close>.
  \<^item> \<open>HistoryProps\<close> states the abstract specification, a line of documents with a current one, and shows
    that each method makes moves along it. \<open>EditSession\<close> adds the client: every step of a session
    refines the timeline, undo and redo never get stuck, the depth bound holds.

  \<^bold>\<open>The document and what reads it.\<close>
  \<^item> \<open>DocModel\<close>, \<open>DocProps\<close>, \<open>ModeTransactions\<close> (\<open>doc.rs\<close>): the page registry, edits through the history,
    and the transactions that add or remove a mode and delete a variable. The \<open>op_ctx\<close> of a document is
    one field of it.
  \<^item> \<open>Binding\<close> (\<open>binding.rs\<close>): typed reads and writes of node properties. \<open>VarResolve\<close>
    (\<open>resolve/variables.rs\<close>): the mode in force and the chase through aliases, which terminates, equals following
    the chain of aliases, and respects the declared types. \<open>Selections\<close> (\<open>selection.rs\<close>): the list and its shadow set.
  \<^item> \<open>TextTokens\<close>, \<open>TextTokenProps\<close> (\<open>text_tokens.rs\<close>): the scanner for text variables finds exactly the
    well-formed tokens, and replacing them keeps the text between them and moves the style runs with it.
  \<^item> \<open>PathResize\<close>, \<open>InstanceExpand\<close>, \<open>InstanceProps\<close> (\<open>resolve/instance.rs\<close>): an instance of a component
    expands to a clone of the master's tree whatever is written onto it; an explicit text override outlives imported
    data; the variant of a set is the closest one; an override below a nested instance is handed to it.
    \<open>SampleInstance\<close> holds the inputs of their witnesses. \<open>PaintEq\<close>, \<open>LoadPasses\<close>: the derived equality of paints, and the
    two passes over a loaded scene; the locale \<open>load_pass\<close> shows that each changes exactly the nodes it noted, and
    changes nothing when run again.
  \<^item> \<open>Motion\<close>, \<open>MotionProps\<close> (\<open>motion.rs\<close>, the springs of \<open>node/prototype.rs\<close>): a sample of an animation
    track depends on the order of its keyframes in time only, and the compiled clips sample as the authored ones.
  \<^item> \<open>StyleSheet\<close>, \<open>StyleProps\<close> (\<open>stylesheet.rs\<close>): the member of a node's JSON each property writes, the
    cascade of rules and local patch, its removal for saving; the last claim of a member decides it.
  \<^item> \<open>GridPlacement\<close> (\<open>layout/grid.rs\<close>): the search for a free cell ends, no child placed by it shares its
    cell, and the grid is filled from the first free cell on.
  \<^item> \<open>Journal\<close>, \<open>JournalProps\<close> (\<open>journal.rs\<close>, \<open>replay.rs\<close>, \<open>fanta-headless\<close>): recording and replaying.
    A recording replayed from where it started ends at the same document; the flat list of operations
    rebuilds the document. Both follow from one locale, \<open>recorder\<close>.
  \<^item> \<open>JsonValues\<close>, \<open>DocMerge\<close>, \<open>MergeProps\<close> (\<open>project/merge.rs\<close>): equality of \<open>serde_json\<close> values and the merges of
    whole documents and of artifacts. The locale \<open>three_way\<close> holds what the two recursive merges share: no
    edit is lost outside the reported conflicts, and each reported conflict is one.

  \<^bold>\<open>The prototype player\<close> (\<open>crates/fanta-present/src/fanta_present.rs\<close>, \<open>playback.rs\<close>, \<open>overlay.rs\<close>,
  \<open>transition.rs\<close>, and the cameras of \<open>crates/fanta-canvas/src/viewport.rs\<close>). It plays a document it never changes.
  \<^item> \<open>PresentTypes\<close>: cameras and their fit, the placement of overlays, clocks and playheads, the layers, timers,
    answers and events. \<open>Playback\<close>: the record of a session, the targets of animations, delayed reactions, the variables
    written while playing, and what a hover or a press captures so that it can be undone.
  \<^item> \<open>PlaybackRun\<close>: one definition per action, and \<open>execute\<close>, \<open>run_branches\<close>, \<open>run_actions\<close> for whole reactions,
    by recursion on the actions. \<open>PlaybackInput\<close>: pointer, keys and the advance of time with its
    timers. \<open>PlaybackView\<close>: pan, zoom, another surface, scrolling, and the schedule. \<open>PlaybackHost\<close>: the calls of the
    host, and \<open>player_step\<close>, one relation for everything that can happen to a session.
  \<^item> \<open>PlaybackTime\<close> has what the floats of the timers satisfy, \<open>PlaybackInv\<close> the invariant of a session and that
    the actions keep it, \<open>PlaybackProps\<close> that input and time keep it and that the loop over the timers ends,
    \<open>PlaybackSession\<close> the reachable sessions and going back, \<open>PlaybackRestore\<close> that the writes of a hover or press are undone.

  \<^bold>\<open>Bounds and fuel.\<close> \<open>Ancestors\<close> and \<open>Descendants\<close> take as fuel the number of nodes plus one;
  \<open>SceneTree\<close> proves it is enough on every scene that meets the invariant, so the walks return the
  whole chain and the whole subtree. The search for a free grid cell is a partial function, proved to return. The loop that fires timers
  gets \<open>MAX_TIMER_EVENTS_PER_TICK + 2\<close> rounds: each round that goes on has fired a timer, one in which none is due is the last,
  and the budget stops the loop. All other
  loops are total functions with a measure: the unvisited nodes of a batch, the variables not yet visited, the size of a JSON value. Revisions wrap as \<open>u64\<close>; the property of the change log
  assumes that the revision has not wrapped during the run, as its statement says.

  \<^bold>\<open>Parameters.\<close> The ULID codec, the clock and \<open>serde_json::to_value\<close> on operations are arguments of
  the definitions that use them, as are the fresh ids, the serde encoding of a node and \<open>Display\<close> of \<open>f64\<close> for the
  expansion of instances, and what serde accepts as a literal of a style. \<open>merge_docs\<close> is modelled between
  the serialization of its arguments and the loading of its result. The player takes a record of functions of the session,
  \<open>player_env\<close>: the layers with their instances expanded, bounds, hit testing, the clamping and the target of a scroll,
  whether two choices of variants differ in what is drawn, the easing curves of its transitions, and the text of an error; what is proved
  holds for every such record, but for reactions inside instances where a property excludes them.
  The sampling of motion takes the square root, the transcendental functions, the affine maps of \<open>glam\<close> and the local
  bounds of a node in a record, \<open>motion_math\<close>.

  \<^bold>\<open>Not modelled.\<close>
  \<^item> Layout beyond the placement of grid cells, boolean operations, path geometry beyond what resizing needs, hit testing, bounds and the spatial index: floating
    point geometry. The record of the scene keeps only that the index is present.
  \<^item> Identity of shared nodes: \<open>Arc\<close> is transparent, so \<open>shares_node\<close> and copy-on-write have no counterpart.
  \<^item> \<open>apply_derived_operations\<close> of \<open>history.rs\<close>, which compares payloads with the derived float
    equality; \<open>extract_subtrees_with_ancestors\<close>; the comparison of snapshots in \<open>replay.rs\<close>.
  \<^item> Cancellation of an expansion and the resolved snapshot.
  \<^item> Of the player: drawing and compositing, the plan of a smart animation, the physical size of the surface, the
    cache of expanded layers with its pruning, and how a layer is expanded.
  \<^item> Loading and migration of documents, the project format other than the merge, rendering, the
    canvas tools, the Figma import and the desktop application around the engine.
\<close>

end
